(* ===== verification/Py_Prelude.thy ===== *)
theory Py_Prelude
  imports Main "HOL-Library.Word" "HOL-Library.List_Lexorder" "HOL-Library.Product_Lexorder"
    "HOL-Library.Char_ord"
begin

text \<open>
  The Python vocabulary that the component theories share: results with exceptions as
  values, byte strings and their fixed-width little- and big-endian integers, slices, the
  CRC-32 of \<^verbatim>\<open>zlib\<close>, the textual form of a UUID, the UTF-16 codec, and files that are read
  through a position. Python integers are \<^typ>\<open>int\<close>; a byte string is a list of \<^typ>\<open>8 word\<close>;
  text whose code points matter beyond Latin-1 is a list of code points.
\<close>

unbundle bit_operations_syntax

named_theorems py_simps \<open>unfolding of the small Python primitives\<close>
named_theorems slice_simps \<open>lengths and elements of slices\<close>

type_synonym byte = "8 word"
type_synonym bytes = "8 word list"
type_synonym ustr = "nat list"

abbreviation len :: "'a list \<Rightarrow> int" where
  "len xs \<equiv> int (length xs)"

section \<open>Results\<close>

text \<open>A call that may raise returns \<^term>\<open>Inl e\<close>; \<open>rbind\<close> propagates the exception.\<close>

definition rbind :: "'e + 'a \<Rightarrow> ('a \<Rightarrow> 'e + 'b) \<Rightarrow> 'e + 'b" where
  "rbind m f = (case m of Inl e \<Rightarrow> Inl e | Inr x \<Rightarrow> f x)"

lemma rbind_simps [simp]:
  "rbind (Inl e) f = Inl e"
  "rbind (Inr x) f = f x"
  by (simp_all add: rbind_def)

lemma rbind_eq_Inr [simp]: "rbind m f = Inr y \<longleftrightarrow> (\<exists>x. m = Inr x \<and> f x = Inr y)"
  by (simp add: rbind_def split: sum.split)

lemma rbind_eq_Inl: "rbind m f = Inl e \<longleftrightarrow> m = Inl e \<or> (\<exists>x. m = Inr x \<and> f x = Inl e)"
  by (auto simp: rbind_def split: sum.split)

lemma rbind_cong [fundef_cong]:
  "m = m' \<Longrightarrow> (\<And>x. m' = Inr x \<Longrightarrow> f x = g x) \<Longrightarrow> rbind m f = rbind m' g"
  by (auto simp: rbind_def split: sum.split)

text \<open>Python raises the message of the first failed check of a sequence.\<close>

fun require_all :: "(bool \<times> 'e) list \<Rightarrow> 'e + unit" where
  "require_all [] = Inr ()"
| "require_all ((passed, message) # checks) =
     (if \<not> passed then Inl message else require_all checks)"

lemma require_all_Inr [simp]: "require_all checks = Inr u \<longleftrightarrow> (\<forall>(p, m) \<in> set checks. p)"
  by (induction checks rule: require_all.induct) auto

declare require_all.simps [simp del]

fun rmap :: "('a \<Rightarrow> 'e + 'b) \<Rightarrow> 'a list \<Rightarrow> 'e + 'b list" where
  "rmap f [] = Inr []"
| "rmap f (x # xs) = rbind (f x) (\<lambda>y. rbind (rmap f xs) (\<lambda>ys. Inr (y # ys)))"

lemma rmap_Inr_iff: "rmap f xs = Inr ys \<longleftrightarrow> list_all2 (\<lambda>x y. f x = Inr y) xs ys"
  by (induction xs arbitrary: ys) (auto simp: list_all2_Cons1)

lemma list_all2_right: "list_all2 P xs ys \<Longrightarrow> y \<in> set ys \<Longrightarrow> \<exists>x \<in> set xs. P x y"
  by (induction rule: list_all2_induct) auto

lemma rmap_cong [fundef_cong]:
  "xs = ys \<Longrightarrow> (\<And>x. x \<in> set ys \<Longrightarrow> f x = g x) \<Longrightarrow> rmap f xs = rmap g ys"
  by (induction ys arbitrary: xs) (auto simp: rbind_def split: sum.split)

lemma rmap_map: "rmap f (map g xs) = rmap (f \<circ> g) xs"
  by (induction xs) simp_all

section \<open>Slices\<close>

text \<open>
  \<^verbatim>\<open>xs[a:b]\<close>: a negative bound counts from the end, and both bounds are clamped to the
  sequence, so a py_slice never raises.
\<close>

definition slice_index :: "'a list \<Rightarrow> int \<Rightarrow> nat" where
  "slice_index xs i = nat (if i < 0 then max 0 (len xs + i) else min (len xs) i)"

definition py_slice :: "'a list \<Rightarrow> int \<Rightarrow> int \<Rightarrow> 'a list" where
  "py_slice xs a b = take (slice_index xs b - slice_index xs a) (drop (slice_index xs a) xs)"

lemma slice_index_inside [simp]: "0 \<le> i \<Longrightarrow> i \<le> len xs \<Longrightarrow> slice_index xs i = nat i"
  by (simp add: slice_index_def)

lemma slice_nonneg:
  assumes "0 \<le> a" "0 \<le> b"
  shows "py_slice xs a b = take (nat b - nat a) (drop (nat a) xs)"
proof (cases "a \<le> len xs")
  case True
  show ?thesis
  proof (cases "b \<le> len xs")
    case False
    with assms True show ?thesis
      by (simp add: py_slice_def slice_index_def)
  qed (use assms True in \<open>simp add: py_slice_def\<close>)
qed (use assms in \<open>simp add: py_slice_def slice_index_def\<close>)

lemma length_slice [slice_simps]:
  "0 \<le> a \<Longrightarrow> a \<le> b \<Longrightarrow> b \<le> len xs \<Longrightarrow> len (py_slice xs a b) = b - a"
  by (simp add: slice_nonneg)

lemma length_slice_nat [slice_simps]:
  "0 \<le> a \<Longrightarrow> a \<le> b \<Longrightarrow> b \<le> len xs \<Longrightarrow> length (py_slice xs a b) = nat (b - a)"
  using length_slice [of a b xs] by linarith

lemma length_slice_le: "0 \<le> a \<Longrightarrow> a \<le> b \<Longrightarrow> len (py_slice xs a b) \<le> b - a"
  by (simp add: slice_nonneg)

lemma nth_slice [slice_simps]:
  "0 \<le> a \<Longrightarrow> b \<le> len xs \<Longrightarrow> int i < b - a \<Longrightarrow> py_slice xs a b ! i = xs ! (nat a + i)"
  by (simp add: slice_nonneg)

lemma slice_append_slice:
  assumes "0 \<le> a" "a \<le> b" "b \<le> c"
  shows "py_slice xs a b @ py_slice xs b c = py_slice xs a c"
proof -
  let ?ys = "drop (nat a) xs"
  have "take (nat b - nat a) ?ys @ take (nat c - nat b) (drop (nat b - nat a) ?ys) =
      take ((nat b - nat a) + (nat c - nat b)) ?ys"
    by (simp only: take_add)
  moreover have "(nat b - nat a) + (nat c - nat b) = nat c - nat a"
    using assms by linarith
  moreover have "drop (nat b - nat a) ?ys = drop (nat b) xs"
    using assms by (simp add: nat_mono)
  ultimately show ?thesis
    using assms by (simp only: slice_nonneg)
qed

lemma slice_all [simp]: "py_slice xs 0 (len xs) = xs"
  by (simp add: py_slice_def)

lemma slice_empty [simp]: "py_slice xs a a = []"
  by (simp add: py_slice_def)

lemma slice_append_left [slice_simps]:
  "0 \<le> a \<Longrightarrow> 0 \<le> b \<Longrightarrow> b \<le> len xs \<Longrightarrow> py_slice (xs @ ys) a b = py_slice xs a b"
  by (cases "a \<le> len xs") (simp_all add: slice_nonneg)

lemma slice_append_right [slice_simps]:
  assumes "len xs \<le> a" "a \<le> b"
  shows "py_slice (xs @ ys) a b = py_slice ys (a - len xs) (b - len xs)"
proof -
  have "nat (b - len xs) - nat (a - len xs) = nat b - nat a"
    and "nat a - length xs = nat (a - len xs)" and "length xs \<le> nat a"
    using assms by linarith+
  with assms show ?thesis by (simp add: slice_nonneg)
qed

lemma slice_shift:
  "0 \<le> a \<Longrightarrow> a \<le> b \<Longrightarrow> py_slice (xs @ ys) (len xs + a) (len xs + b) = py_slice ys a b"
  by (simp add: slice_append_right)

lemma slice_middle: "py_slice (pre @ xs @ post) (len pre) (len pre + len xs) = xs"
  by (simp add: slice_nonneg)

lemma slice_split [slice_simps]:
  assumes "0 \<le> a" "a < len xs" "len xs < b"
  shows "py_slice (xs @ ys) a b = py_slice xs a (len xs) @ py_slice ys 0 (b - len xs)"
proof -
  have "py_slice (xs @ ys) a b = py_slice (xs @ ys) a (len xs) @ py_slice (xs @ ys) (len xs) b"
    using assms by (intro slice_append_slice [symmetric]) linarith+
  with assms show ?thesis by (simp add: slice_append_left slice_append_right)
qed

lemma slice_Cons [slice_simps]:
  "0 < a \<Longrightarrow> a \<le> b \<Longrightarrow> py_slice (x # xs) a b = py_slice xs (a - 1) (b - 1)"
  "0 < b \<Longrightarrow> py_slice (x # xs) 0 b = x # py_slice xs 0 (b - 1)"
proof -
  show "0 < a \<Longrightarrow> a \<le> b \<Longrightarrow> py_slice (x # xs) a b = py_slice xs (a - 1) (b - 1)"
    using slice_append_right [of "[x]" a b xs] by simp
  assume "0 < b"
  then have "nat b = Suc (nat (b - 1))" by linarith
  with \<open>0 < b\<close> show "py_slice (x # xs) 0 b = x # py_slice xs 0 (b - 1)"
    by (simp add: slice_nonneg)
qed

lemma slice_whole [slice_simps]: "b = len xs \<Longrightarrow> py_slice xs 0 b = xs"
  by simp

lemma slice_replicate [slice_simps]:
  "0 \<le> a \<Longrightarrow> a \<le> b \<Longrightarrow> b \<le> int n \<Longrightarrow> py_slice (replicate n x) a b = replicate (nat (b - a)) x"
  by (simp add: slice_nonneg nat_diff_distrib)

lemma slice_eqI:
  assumes "length ys = length xs" "0 \<le> a" "a \<le> b" "b \<le> len xs"
    and "\<And>i. a \<le> int i \<Longrightarrow> int i < b \<Longrightarrow> ys ! i = xs ! i"
  shows "py_slice ys a b = py_slice xs a b"
  by (rule nth_equalityI) (use assms in \<open>auto simp: length_slice_nat nth_slice\<close>)

lemma slice_slice:
  assumes "0 \<le> a" "0 \<le> c" "c \<le> d" "a + d \<le> b"
  shows "py_slice (py_slice xs a b) c d = py_slice xs (a + c) (a + d)"
proof -
  have n: "min (nat d - nat c) (nat b - nat a - nat c) = nat (a + d) - nat (a + c)"
    "nat c + nat a = nat (a + c)"
  proof -
    have e: "nat (a + d) = nat a + nat d" "nat (a + c) = nat a + nat c"
      using assms by (simp_all add: nat_add_distrib)
    have "nat d \<le> nat b - nat a"
      using e(1) nat_mono [OF assms(4)] by (intro add_le_imp_le_diff) (simp add: add.commute)
    then have "nat d - nat c \<le> nat b - nat a - nat c" by (rule diff_le_mono)
    then show "min (nat d - nat c) (nat b - nat a - nat c) = nat (a + d) - nat (a + c)"
      unfolding e by (simp only: min_absorb1 diff_cancel)
    show "nat c + nat a = nat (a + c)" unfolding e by simp
  qed
  have pos: "0 \<le> a + c" "0 \<le> a + d" "0 \<le> b" "0 \<le> d"
    using assms by linarith+
  show ?thesis
    unfolding slice_nonneg [OF assms(1) pos(3)] slice_nonneg [OF assms(2) pos(4)]
      slice_nonneg [OF pos(1,2)] drop_take take_take drop_drop n ..
qed

lemma set_slice_subset: "set (py_slice xs a b) \<subseteq> set xs"
  unfolding py_slice_def by (meson set_drop_subset set_take_subset subset_trans)

text \<open>\<^verbatim>\<open>bytes(n)\<close>\<close>

definition zeros :: "nat \<Rightarrow> bytes" where
  "zeros n = replicate n 0"

lemma zeros_unfold:
  "zeros 0 = []" "zeros (Suc n) = 0 # zeros n" "zeros (numeral k) = 0 # zeros (pred_numeral k)"
  by (simp_all add: zeros_def numeral_eq_Suc)

lemma length_zeros' [simp]: "length (zeros n) = n"
  by (simp add: zeros_def)

lemma slice_zeros [slice_simps]:
  "0 \<le> a \<Longrightarrow> a \<le> b \<Longrightarrow> b \<le> int n \<Longrightarrow> py_slice (zeros n) a b = zeros (nat (b - a))"
  by (simp add: zeros_def slice_replicate)

text \<open>\<^verbatim>\<open>xs[a:b] = ys\<close> on a mutable sequence; the replacement may change its length.\<close>

definition slice_assign :: "'a list \<Rightarrow> int \<Rightarrow> int \<Rightarrow> 'a list \<Rightarrow> 'a list" where
  "slice_assign xs a b ys =
     (let i = slice_index xs a in take i xs @ ys @ drop (max i (slice_index xs b)) xs)"

lemma length_slice_assign [slice_simps]:
  "0 \<le> a \<Longrightarrow> a \<le> b \<Longrightarrow> b \<le> len xs \<Longrightarrow> len ys = b - a \<Longrightarrow> length (slice_assign xs a b ys) = length xs"
  by (simp add: slice_assign_def Let_def max_def nat_mono)

lemma nth_slice_assign:
  assumes "0 \<le> a" "b \<le> len xs" "len ys = b - a" "i < length xs"
  shows "slice_assign xs a b ys ! i =
    (if a \<le> int i \<and> int i < b then ys ! (i - nat a) else xs ! i)"
proof -
  have ab: "a \<le> b" using assms(3) by linarith
  have la: "length (take (nat a) xs) = nat a" and ba: "max (nat a) (nat b) = nat b"
    using assms ab by simp_all
  have ly: "length ys = nat b - nat a" using assms(1,3) ab by linarith
  consider "int i < a" | "a \<le> int i" "int i < b" | "b \<le> int i" by linarith
  then show ?thesis
  proof cases
    case 1
    then have "i < nat a" by linarith
    with 1 assms ab la show ?thesis
      by (simp add: slice_assign_def nth_append)
  next
    case 2
    then have "\<not> i < nat a" "i - nat a < length ys" using assms(1) ly by linarith+
    with 2 assms ab la ba show ?thesis
      by (simp add: slice_assign_def nth_append)
  next
    case 3
    then have "\<not> i < nat a" "\<not> i - nat a < length ys" "i - nat a - length ys + nat b = i"
      using assms(1) ab ly by linarith+
    with 3 assms ab la ba show ?thesis
      by (simp add: slice_assign_def nth_append add.commute)
  qed
qed

text \<open>\<^verbatim>\<open>xs[i]\<close> with a bound check; \<^const>\<open>None\<close> is \<^verbatim>\<open>IndexError\<close>.\<close>

definition index_at :: "'a list \<Rightarrow> int \<Rightarrow> 'a option" where
  "index_at xs i =
     (let j = (if i < 0 then len xs + i else i)
      in if 0 \<le> j \<and> j < len xs then Some (xs ! nat j) else None)"

text \<open>Elements of a concatenation of parts of one length.\<close>

lemma nth_concat_equal:
  assumes "\<And>x. x \<in> set xss \<Longrightarrow> length x = k" "i < length xss * k"
  shows "concat xss ! i = xss ! (i div k) ! (i mod k)"
  using assms
proof (induction xss arbitrary: i)
  case (Cons x xss)
  have k: "length x = k" "0 < k" using Cons.prems by (auto intro: gr0I)
  show ?case
  proof (cases "i < k")
    case False
    then have "concat xss ! (i - k) = xss ! ((i - k) div k) ! ((i - k) mod k)"
      using Cons.prems by (intro Cons.IH) auto
    with False k show ?thesis
      by (simp add: nth_append le_div_geq le_mod_geq)
  qed (use k in \<open>simp add: nth_append\<close>)
qed simp

lemma length_concat_equal:
  "(\<And>x. x \<in> set xss \<Longrightarrow> length x = k) \<Longrightarrow> length (concat xss) = length xss * k"
  by (induction xss) auto

section \<open>Ranges\<close>

text \<open>\<^verbatim>\<open>range(a, b, s)\<close> for a positive step, and \<^verbatim>\<open>range(a, b, -1)\<close>.\<close>

definition py_range :: "int \<Rightarrow> int \<Rightarrow> int \<Rightarrow> int list" where
  "py_range a b s = map (\<lambda>i. a + int i * s) [0..<nat ((b - a + s - 1) div s)]"

definition down_range :: "int \<Rightarrow> int \<Rightarrow> int list" where
  "down_range a b = map (\<lambda>i. a - int i) [0..<nat (a - b)]"

lemma set_py_range:
  assumes "0 < s"
  shows "x \<in> set (py_range a b s) \<Longrightarrow> a \<le> x \<and> x < b"
proof -
  assume "x \<in> set (py_range a b s)"
  then obtain i where x: "x = a + int i * s" and "i \<in> set [0..<nat ((b - a + s - 1) div s)]"
    unfolding py_range_def set_map by blast
  then have i: "int i < (b - a + s - 1) div s" by simp
  have "int i * s \<le> ((b - a + s - 1) div s - 1) * s"
    using i assms by (intro mult_right_mono) linarith+
  also have "\<dots> = (b - a + s - 1) div s * s - s" by (simp add: left_diff_distrib)
  also have "\<dots> < b - a"
    using div_mult_mod_eq [of "b - a + s - 1" s] pos_mod_sign [OF assms, of "b - a + s - 1"]
    by linarith
  finally show ?thesis using x assms by simp
qed

lemma py_range_single: "0 < s \<Longrightarrow> py_range a (a + s) s = [a]"
proof -
  assume s: "0 < s"
  have "(2 * s - 1) div s = 1"
    using s by (intro int_div_pos_eq [of _ _ _ "s - 1"]) auto
  then show ?thesis by (simp add: py_range_def)
qed

text \<open>\<^verbatim>\<open>rstrip\<close> of a set of characters.\<close>

definition rstrip_of :: "('a \<Rightarrow> bool) \<Rightarrow> 'a list \<Rightarrow> 'a list" where
  "rstrip_of P xs = rev (dropWhile P (rev xs))"

text \<open>\<^verbatim>\<open>s.split(c)\<close> and \<^verbatim>\<open>sep.join(parts)\<close>.\<close>

fun split_on :: "'a \<Rightarrow> 'a list \<Rightarrow> 'a list list" where
  "split_on c [] = [[]]"
| "split_on c (x # xs) =
     (if x = c then [] # split_on c xs
      else case split_on c xs of [] \<Rightarrow> [[x]] | y # ys \<Rightarrow> (x # y) # ys)"

fun join_with :: "'a list \<Rightarrow> 'a list list \<Rightarrow> 'a list" where
  "join_with sep [] = []"
| "join_with sep [x] = x"
| "join_with sep (x # y # ys) = x @ sep @ join_with sep (y # ys)"

lemma split_on_ne [simp]: "split_on c xs \<noteq> []"
  by (cases xs) (auto split: list.split)

lemma split_on_clean: "x \<in> set (split_on c xs) \<Longrightarrow> c \<notin> set x"
  by (induction xs arbitrary: x) (auto split: if_splits list.splits)

lemma join_split_on [simp]: "join_with [c] (split_on c xs) = xs"
proof (induction xs)
  case (Cons x xs)
  have a: "join_with [c] ((x # y) # ys) = x # join_with [c] (y # ys)" for y ys
    by (cases ys) simp_all
  have b: "zs \<noteq> [] \<Longrightarrow> join_with [c] ([] # zs) = c # join_with [c] zs" for zs
    by (cases zs) simp_all
  obtain y ys where "split_on c xs = y # ys"
    using split_on_ne [of c xs] by (meson neq_Nil_conv)
  with Cons a b show ?case by simp
qed simp

lemma split_on_no_sep: "c \<notin> set xs \<Longrightarrow> split_on c xs = [xs]"
  by (induction xs) auto

lemma split_on_append: "c \<notin> set xs \<Longrightarrow> split_on c (xs @ c # ys) = xs # split_on c ys"
  by (induction xs) auto

lemma split_on_join:
  "ps \<noteq> [] \<Longrightarrow> \<forall>p \<in> set ps. c \<notin> set p \<Longrightarrow> split_on c (join_with [c] ps) = ps"
proof (induction ps rule: induct_list012)
  case (3 p q ps)
  then have "split_on c (p @ c # join_with [c] (q # ps)) = p # split_on c (join_with [c] (q # ps))"
    by (intro split_on_append) simp
  with 3 show ?case by simp
qed (simp_all add: split_on_no_sep)

section \<open>JSON values\<close>

text \<open>
  The values that \<^verbatim>\<open>json.loads\<close> returns; an object keeps its keys in order, each key once. A finite
  \<^verbatim>\<open>float\<close> \<open>Dyadic m e\<close> is \<open>m * 2 ^ e\<close>; \<open>Non_finite\<close> is NaN or an infinity. \<open>'s\<close> is the type of the
  strings.
\<close>

datatype py_float = Dyadic int int | Non_finite

datatype 's json =
    JNull
  | JBool bool
  | JInt int
  | JFloat py_float
  | JStr 's
  | JList "'s json list"
  | JObj "('s \<times> 's json) list"

fun json_get :: "'s json \<Rightarrow> 's \<Rightarrow> 's json option" where
  "json_get (JObj kvs) k = map_of kvs k"
| "json_get _ k = None"

fun is_dict :: "'s json \<Rightarrow> bool" where
  "is_dict (JObj kvs) \<longleftrightarrow> True"
| "is_dict _ \<longleftrightarrow> False"

text \<open>
  Python's \<^verbatim>\<open>value == n\<close> for an integer \<open>n\<close>: a float of the same value and, for zero and one, a Boolean
  are equal to it.
\<close>

fun float_eq_int :: "py_float \<Rightarrow> int \<Rightarrow> bool" where
  "float_eq_int (Dyadic m e) n \<longleftrightarrow> (if 0 \<le> e then m * 2 ^ nat e = n else m = n * 2 ^ nat (- e))"
| "float_eq_int Non_finite n \<longleftrightarrow> False"

fun json_eq_int :: "'s json \<Rightarrow> int \<Rightarrow> bool" where
  "json_eq_int (JInt i) n \<longleftrightarrow> i = n"
| "json_eq_int (JBool b) n \<longleftrightarrow> (if b then 1 else 0) = n"
| "json_eq_int (JFloat f) n \<longleftrightarrow> float_eq_int f n"
| "json_eq_int _ n \<longleftrightarrow> False"

section \<open>Integers in byte strings\<close>

fun le_int :: "bytes \<Rightarrow> int" where
  "le_int [] = 0"
| "le_int (b # bs) = uint b + 256 * le_int bs"

fun le_bytes :: "nat \<Rightarrow> int \<Rightarrow> bytes" where
  "le_bytes 0 v = []"
| "le_bytes (Suc n) v = word_of_int v # le_bytes n (v div 256)"

definition be_int :: "bytes \<Rightarrow> int" where
  "be_int bs = le_int (rev bs)"

definition be_bytes :: "nat \<Rightarrow> int \<Rightarrow> bytes" where
  "be_bytes n v = rev (le_bytes n v)"

text \<open>\<^verbatim>\<open>struct.unpack_from\<close> of one unsigned little-endian field of \<open>n\<close> bytes.\<close>

definition le_at :: "bytes \<Rightarrow> int \<Rightarrow> int \<Rightarrow> int" where
  "le_at bs off n = le_int (py_slice bs off (off + n))"

lemma length_le_bytes [simp]: "length (le_bytes n v) = n"
  by (induction n arbitrary: v) simp_all

lemma length_be_bytes [simp]: "length (be_bytes n v) = n"
  by (simp add: be_bytes_def)

lemma uint_byte: "0 \<le> uint (b :: byte)" "uint (b :: byte) < 256"
  using uint_lt2p [of b] by simp_all

lemma le_int_nonneg [simp]: "0 \<le> le_int bs"
  by (induction bs) (auto simp: uint_byte)

lemma le_int_less: "le_int bs < 256 ^ length bs"
proof (induction bs)
  case (Cons b bs)
  then show ?case using uint_byte(2) [of b] by simp
qed simp

lemma le_int_bound: "length bs \<le> n \<Longrightarrow> le_int bs < 256 ^ n"
  by (rule less_le_trans [OF le_int_less]) (simp add: power_increasing)

lemma le_int_le_bytes [simp]: "le_int (le_bytes n v) = v mod 256 ^ n"
proof (induction n arbitrary: v)
  case (Suc n)
  have "uint (word_of_int v :: byte) = v mod 256"
    by (simp add: uint_word_of_int)
  with Suc show ?case
    by (simp add: mod_mult2_eq' algebra_simps) (simp add: zmod_zmult2_eq mult.commute)
qed simp

lemma le_bytes_le_int: "le_bytes (length bs) (le_int bs) = bs"
proof (induction bs)
  case (Cons b bs)
  have "(uint b + 256 * le_int bs) div 256 = le_int bs"
    using uint_byte [of b] by simp
  moreover have "word_of_int (uint b + 256 * le_int bs) = b"
  proof -
    have "(word_of_int (256 * le_int bs) :: byte) = word_of_int 256 * word_of_int (le_int bs)"
      by (simp only: wi_hom_mult)
    also have "(word_of_int 256 :: byte) = 0" by simp
    finally show ?thesis by (simp only: wi_hom_add [symmetric] word_of_int_uint) simp
  qed
  ultimately show ?case using Cons by simp
qed simp

lemma le_at_nonneg [simp]: "0 \<le> le_at bs off n"
  by (simp add: le_at_def)

lemma le_at_less: "0 \<le> off \<Longrightarrow> 0 \<le> n \<Longrightarrow> le_at bs off n < 256 ^ nat n"
  using length_slice_le [of off "off + n" bs]
  unfolding le_at_def by (intro le_int_bound) linarith

lemma le_at_shift:
  "0 \<le> a \<Longrightarrow> 0 \<le> n \<Longrightarrow> le_at (xs @ ys) (len xs + a) n = le_at ys a n"
  using slice_shift [of a "a + n" xs ys] by (simp add: le_at_def add.assoc)

lemma be_int_be_bytes [simp]: "be_int (be_bytes n v) = v mod 256 ^ n"
  by (simp add: be_int_def be_bytes_def)

lemma be_int_nonneg [simp]: "0 \<le> be_int bs"
  by (simp add: be_int_def)

section \<open>CRC-32\<close>

text \<open>\<^verbatim>\<open>zlib.crc32\<close>: the reflected polynomial \<open>0xEDB88320\<close>, bit by bit.\<close>

definition crc32_bit :: "32 word \<Rightarrow> 32 word" where
  "crc32_bit c = (if c AND 1 = 0 then drop_bit 1 c else drop_bit 1 c XOR 0xEDB88320)"

definition crc32_byte :: "32 word \<Rightarrow> byte \<Rightarrow> 32 word" where
  "crc32_byte c b = (crc32_bit ^^ 8) (c XOR ucast b)"

definition crc32 :: "bytes \<Rightarrow> int" where
  "crc32 bs = uint (NOT (foldl crc32_byte (NOT 0) bs))"

lemma crc32_bounds: "0 \<le> crc32 bs" "crc32 bs < 2 ^ 32"
  using uint_lt2p [of "NOT (foldl crc32_byte (NOT 0) bs)"] by (simp_all add: crc32_def)

section \<open>Hexadecimal text and UUIDs\<close>

definition hex_digit :: "nat \<Rightarrow> char" where
  "hex_digit n = ''0123456789abcdef'' ! n"

definition hex_byte :: "byte \<Rightarrow> string" where
  "hex_byte b = [hex_digit (unat b div 16), hex_digit (unat b mod 16)]"

definition hex :: "bytes \<Rightarrow> string" where
  "hex bs = concat (map hex_byte bs)"

text \<open>\<^verbatim>\<open>str(uuid.UUID(bytes=...))\<close> and \<^verbatim>\<open>str(uuid.UUID(bytes_le=...))\<close> of 16 bytes.\<close>

definition uuid_str :: "bytes \<Rightarrow> string" where
  "uuid_str bs =
     hex (py_slice bs 0 4) @ ''-'' @ hex (py_slice bs 4 6) @ ''-'' @ hex (py_slice bs 6 8) @ ''-'' @
     hex (py_slice bs 8 10) @ ''-'' @ hex (py_slice bs 10 16)"

definition uuid_le_str :: "bytes \<Rightarrow> string" where
  "uuid_le_str bs =
     uuid_str (rev (py_slice bs 0 4) @ rev (py_slice bs 4 6) @ rev (py_slice bs 6 8) @ py_slice bs 8 16)"

text \<open>\<^verbatim>\<open>bytes.fromhex\<close> of a string of hexadecimal digits of either case.\<close>

definition hex_value :: "char \<Rightarrow> int option" where
  "hex_value c =
     (if CHR ''0'' \<le> c \<and> c \<le> CHR ''9'' then Some (of_char c - 48)
      else if CHR ''a'' \<le> c \<and> c \<le> CHR ''f'' then Some (of_char c - 87)
      else if CHR ''A'' \<le> c \<and> c \<le> CHR ''F'' then Some (of_char c - 55)
      else None)"

fun fromhex :: "string \<Rightarrow> bytes option" where
  "fromhex [] = Some []"
| "fromhex (a # b # cs) =
     (case (hex_value a, hex_value b) of
        (Some x, Some y) \<Rightarrow> map_option ((#) (word_of_int (16 * x + y))) (fromhex cs)
      | _ \<Rightarrow> None)"
| "fromhex _ = None"

text \<open>
  A UUID is its 16 bytes in the order of its textual form; \<^verbatim>\<open>bytes_le\<close> swaps the first three
  fields, and so does \<^verbatim>\<open>UUID(bytes_le=...)\<close>.
\<close>

type_synonym uuid = bytes

definition uuid_of :: "string \<Rightarrow> uuid" where
  "uuid_of s = (case fromhex (filter (\<lambda>c. c \<noteq> CHR ''-'') s) of Some bs \<Rightarrow> bs | None \<Rightarrow> [])"

definition swap_guid :: "bytes \<Rightarrow> bytes" where
  "swap_guid bs = rev (py_slice bs 0 4) @ rev (py_slice bs 4 6) @ rev (py_slice bs 6 8) @ py_slice bs 8 16"

lemma length_swap_guid [simp]: "length bs = 16 \<Longrightarrow> length (swap_guid bs) = 16"
  by (simp add: swap_guid_def slice_nonneg)

lemma swap_guid_swap_guid [simp]:
  assumes "length bs = 16"
  shows "swap_guid (swap_guid bs) = bs"
proof -
  obtain a b c d e f g h i j k l m n p q where "bs = [a, b, c, d, e, f, g, h, i, j, k, l, m, n, p, q]"
    using assms by (auto simp: length_Suc_conv numeral_eq_Suc)
  then show ?thesis by (simp add: swap_guid_def slice_nonneg)
qed

lemma uuid_le_str_swap: "uuid_le_str bs = uuid_str (swap_guid bs)"
  by (simp add: uuid_le_str_def swap_guid_def)

section \<open>UTF-16\<close>

text \<open>Code points of a Latin-1 literal.\<close>

definition ascii :: "string \<Rightarrow> ustr" where
  "ascii s = map of_char s"

fun utf16_units :: "bytes \<Rightarrow> nat list" where
  "utf16_units (a # b # bs) = (unat a + 256 * unat b) # utf16_units bs"
| "utf16_units _ = []"

definition high_surrogate :: "nat \<Rightarrow> bool" where
  "high_surrogate u \<longleftrightarrow> 0xD800 \<le> u \<and> u < 0xDC00"

definition low_surrogate :: "nat \<Rightarrow> bool" where
  "low_surrogate u \<longleftrightarrow> 0xDC00 \<le> u \<and> u < 0xE000"

definition join_surrogates :: "nat \<Rightarrow> nat \<Rightarrow> nat" where
  "join_surrogates h l = 0x10000 + (h - 0xD800) * 0x400 + (l - 0xDC00)"

text \<open>
  Strict decoding fails (\<^verbatim>\<open>UnicodeDecodeError\<close>) on an unpaired surrogate; with
  \<^verbatim>\<open>errors="replace"\<close> each offending unit becomes U+FFFD.
\<close>

fun decode_units :: "nat list \<Rightarrow> ustr option" where
  "decode_units [] = Some []"
| "decode_units [u] = (if low_surrogate u \<or> high_surrogate u then None else Some [u])"
| "decode_units (u # v # us) =
     (if low_surrogate u then None
      else if high_surrogate u then
        (if low_surrogate v then map_option ((#) (join_surrogates u v)) (decode_units us)
         else None)
      else map_option ((#) u) (decode_units (v # us)))"

fun decode_units_replace :: "nat list \<Rightarrow> ustr" where
  "decode_units_replace [] = []"
| "decode_units_replace [u] = (if low_surrogate u \<or> high_surrogate u then [0xFFFD] else [u])"
| "decode_units_replace (u # v # us) =
     (if low_surrogate u then 0xFFFD # decode_units_replace (v # us)
      else if high_surrogate u then
        (if low_surrogate v then join_surrogates u v # decode_units_replace us
         else 0xFFFD # decode_units_replace (v # us))
      else u # decode_units_replace (v # us))"

text \<open>A trailing odd byte is an error of the strict decoder.\<close>

definition decode_utf16 :: "bytes \<Rightarrow> ustr option" where
  "decode_utf16 bs = (if odd (length bs) then None else decode_units (utf16_units bs))"

definition decode_utf16_replace :: "bytes \<Rightarrow> ustr" where
  "decode_utf16_replace bs =
     decode_units_replace (utf16_units bs) @ (if odd (length bs) then [0xFFFD] else [])"

text \<open>\<^verbatim>\<open>s.split("\0", 1)[0]\<close>\<close>

definition before_nul :: "nat list \<Rightarrow> nat list" where
  "before_nul = takeWhile (\<lambda>c. c \<noteq> 0)"

lemma decode_units_replace_strict: "decode_units us = Some cs \<Longrightarrow> decode_units_replace us = cs"
  by (induction us arbitrary: cs rule: decode_units.induct)
    (auto split: if_splits)

section \<open>Files\<close>

text \<open>
  An open binary file: its bytes, which do not change while it is open, and the position of
  the next read. \<^verbatim>\<open>read(n)\<close> returns fewer bytes only at the end of the file, and everything
  that is left when \<open>n\<close> is negative.
\<close>

record pyfile =
  contents :: bytes
  pos :: int

definition file_seek :: "int \<Rightarrow> pyfile \<Rightarrow> pyfile" where
  "file_seek off f = f\<lparr>pos := off\<rparr>"

definition file_read :: "int \<Rightarrow> pyfile \<Rightarrow> bytes \<times> pyfile" where
  "file_read n f =
     (let chunk = py_slice (contents f) (pos f) (if n < 0 then len (contents f) else pos f + n)
      in (chunk, f\<lparr>pos := pos f + len chunk\<rparr>))"

lemma file_read_inside:
  "0 \<le> pos f \<Longrightarrow> 0 \<le> n \<Longrightarrow> pos f + n \<le> len (contents f) \<Longrightarrow>
   file_read n f = (py_slice (contents f) (pos f) (pos f + n), f\<lparr>pos := pos f + n\<rparr>)"
  by (simp add: file_read_def Let_def length_slice)

lemma file_read_progress:
  "file_read n f = (chunk, g) \<Longrightarrow> chunk \<noteq> [] \<Longrightarrow> pos f < len (contents f) \<and> pos f < pos g"
proof -
  assume "file_read n f = (chunk, g)" and ne: "chunk \<noteq> []"
  then have g: "pos g = pos f + len chunk"
    and c: "chunk = py_slice (contents f) (pos f) (if n < 0 then len (contents f) else pos f + n)"
    by (auto simp: file_read_def Let_def)
  have "pos f < len (contents f)"
  proof (rule ccontr)
    assume "\<not> pos f < len (contents f)"
    then have "slice_index (contents f) (pos f) = length (contents f)"
      by (simp add: slice_index_def min_def)
    with c ne show False by (simp add: py_slice_def)
  qed
  with g ne show ?thesis by (cases chunk) simp_all
qed

lemma file_read_contents: "file_read n f = (chunk, g) \<Longrightarrow> contents g = contents f"
  by (auto simp: file_read_def Let_def)

lemma file_read_shrinks:
  assumes "(chunk, g) = file_read n f" "chunk \<noteq> []"
  shows "pos f < len (contents f)" "len (contents g) - pos g < len (contents f) - pos f"
  using file_read_progress [OF assms(1) [symmetric] assms(2)]
    file_read_contents [OF assms(1) [symmetric]] by simp_all

lemma file_seek_simps [simp]:
  "contents (file_seek off f) = contents f"
  "pos (file_seek off f) = off"
  by (simp_all add: file_seek_def)

section \<open>Bit lengths\<close>

text \<open>\<^verbatim>\<open>n.bit_length()\<close> of the absolute value\<close>

fun bit_length :: "nat \<Rightarrow> nat" where
  "bit_length n = (if n = 0 then 0 else Suc (bit_length (n div 2)))"

declare bit_length.simps [simp del]

lemma bit_length_bound: "n < 2 ^ bit_length n"
proof (induction n rule: bit_length.induct)
  case (1 n)
  show ?case
  proof (cases "n = 0")
    case False
    with 1 have "n div 2 < 2 ^ bit_length (n div 2)" by simp
    then have "n < 2 * 2 ^ bit_length (n div 2)" by linarith
    with False show ?thesis by (simp add: bit_length.simps [of n])
  qed simp
qed

end
