(* ===== verification/Bounded_Reader.thy ===== *)
theory Bounded_Reader
  imports Py_Prelude
begin

text \<open>
  The contract of a checked read: \<open>read_exact\<close> of \<^verbatim>\<open>partition_metadata.py\<close> and \<open>_Image.read\<close> of
  the ESP reader both promise that a read succeeds exactly when it lies within the image, and
  that it then returns exactly the bytes there. Clients need no more than this.
\<close>

locale bounded_reader =
  fixes img :: bytes and rd :: "int \<Rightarrow> int \<Rightarrow> 'w \<Rightarrow> 'e + bytes"
  assumes rd_Inr: "rd off n w = Inr v \<longleftrightarrow>
    0 \<le> off \<and> 0 \<le> n \<and> off + n \<le> len img \<and> v = py_slice img off (off + n)"
begin

lemma rd_inside:
  "0 \<le> off \<Longrightarrow> 0 \<le> n \<Longrightarrow> off + n \<le> len img \<Longrightarrow> rd off n w = Inr (py_slice img off (off + n))"
  by (simp add: rd_Inr)

lemma rd_length: "rd off n w = Inr v \<Longrightarrow> len v = n"
  by (auto simp: rd_Inr length_slice)

text \<open>A read is a prefix-free view: reading a part of a range reads that part of its bytes.\<close>

lemma rd_part:
  "rd off n w = Inr v \<Longrightarrow> 0 \<le> a \<Longrightarrow> a \<le> b \<Longrightarrow> b \<le> n \<Longrightarrow>
   rd (off + a) (b - a) w' = Inr (py_slice v a b)"
  by (auto simp: rd_Inr slice_slice algebra_simps)

lemma rd_adjacent:
  "rd off n w = Inr v \<Longrightarrow> rd (off + n) k w = Inr u \<Longrightarrow> rd off (n + k) w = Inr (v @ u)"
  by (auto simp: rd_Inr slice_append_slice algebra_simps)

lemma rd_fails: "rd off n w = Inl e \<Longrightarrow> off < 0 \<or> n < 0 \<or> len img < off + n"
  using rd_Inr [of off n w "py_slice img off (off + n)"] by auto

end

end
