(* ===== verification/Gpt_Metadata.thy ===== *)
theory Gpt_Metadata
  imports Bounded_Reader
begin

text \<open>
  The GPT validator \<^verbatim>\<open>mkosi/private/partition_metadata.py\<close> and the type GUIDs of
  \<^verbatim>\<open>gpt_partitions.py\<close>: both GPT copies of a raw image are validated, the partition entries
  are projected into normalized metadata, and the image is hashed after its GPT identity and
  CRC fields have been normalized. SHA-256 is a parameter of the hashing functions.
\<close>

section \<open>Type GUIDs and slot labels\<close>

definition ROOT_X86_64 :: string where
  "ROOT_X86_64 = ''4f68bce3-e8cd-4db1-96e7-fbcaf984b709''"

definition ROOT_X86_64_VERITY :: string where
  "ROOT_X86_64_VERITY = ''2c7357ed-ebd2-46d9-aec1-23d437ec2bf5''"

definition ROOT_X86_64_VERITY_SIG :: string where
  "ROOT_X86_64_VERITY_SIG = ''41092b05-9fc8-4523-994f-2def0408b176''"

definition BIOS_BOOT :: string where
  "BIOS_BOOT = ''21686148-6449-6e6f-744e-656564454649''"

definition EMPTY_SLOT_LABEL :: ustr where
  "EMPTY_SLOT_LABEL = ascii ''_empty''"

definition ESP :: string where
  "ESP = ''c12a7328-f81f-11d2-ba4b-00a0c93ec93b''"

definition ALIGNMENT :: int where "ALIGNMENT = 1024 * 1024"
definition HEADER_MIN :: int where "HEADER_MIN = 92"
definition MAX_ARRAY_BYTES :: int where "MAX_ARRAY_BYTES = 64 * 1024 * 1024"
definition MAX_ENTRIES :: int where "MAX_ENTRIES = 1024 * 1024"
definition HASH_CHUNK_BYTES :: int where "HASH_CHUNK_BYTES = 1024 * 1024"

section \<open>Errors, headers and partitions\<close>

text \<open>One constructor per \<^verbatim>\<open>raise ValueError\<close>, with the values that its message formats.\<close>

datatype gpt_error =
    Outside_image string
  | Truncated string
  | Invalid_signature string
  | Unsupported_revision string
  | Invalid_header_size string
  | Header_crc_mismatch string
  | Nonzero_reserved string
  | Invalid_reciprocal_lbas string
  | Unexpected_location string
  | Invalid_usable_range string
  | Hostile_count string
  | Hostile_entry_size string
  | Oversized_array string
  | Invalid_array_location string
  | Primary_array_not_before_usable
  | Backup_array_not_after_usable
  | Array_crc_mismatch string
  | Ambiguous_sector_size
  | Copies_disagree string
  | Arrays_disagree
  | Slot_mismatch string ustr "ustr list"
  | Inactive_slot_too_small string
  | Invalid_range int
  | Outside_usable_range int
  | Out_of_order int
  | Overlaps int int
  | Not_aligned int
  | Invalid_label int
  | Root_count
  | Root_label
  | Unknown_firmware
  | Bios_boot_count
  | Bios_boot_size
  | Truncated_while_hashing
  | Patches_overlap

record gpt_fields =
  fld_array_crc :: int
  fld_backup :: int
  fld_count :: int
  fld_current :: int
  fld_entries_lba :: int
  fld_entry_size :: int
  fld_first_usable :: int
  fld_last_usable :: int

record gpt_header =
  hdr_array :: bytes
  hdr_array_offset :: int
  hdr_count :: int
  hdr_disk_guid :: bytes
  hdr_entry_size :: int
  hdr_entries_lba :: int
  hdr_first_usable :: int
  hdr_header_offset :: int
  hdr_header_size :: int
  hdr_last_usable :: int
  hdr_raw_header :: bytes

record partition =
  label :: ustr
  number :: int
  size_bytes :: int
  start_bytes :: int
  type_guid :: string
  part_uuid :: "string option"

record partition_metadata =
  md_firmware :: string
  md_format_version :: string
  md_partitions :: "partition list"
  md_sector_size :: int

section \<open>Reading and checking one GPT copy\<close>

text \<open>The image is the content of the open file; a seek and a read take a slice of it.\<close>

definition read_exact :: "bytes \<Rightarrow> int \<Rightarrow> int \<Rightarrow> int \<Rightarrow> string \<Rightarrow> gpt_error + bytes" where
  "read_exact img offset sz image_size description =
     (if offset < 0 \<or> sz < 0 \<or> offset > image_size \<or> sz > image_size - offset
      then Inl (Outside_image description)
      else
        let value = py_slice img offset (offset + sz)
        in if len value \<noteq> sz then Inl (Truncated description) else Inr value)"

interpretation gpt_read: bounded_reader img "\<lambda>offset sz. read_exact img offset sz (len img)" for img
  by unfold_locales (auto simp: read_exact_def Let_def length_slice)

definition efi_part :: bytes where
  "efi_part = [0x45, 0x46, 0x49, 0x20, 0x50, 0x41, 0x52, 0x54]"

definition check_header_bytes :: "bytes \<Rightarrow> int \<Rightarrow> string \<Rightarrow> gpt_error + int" where
  "check_header_bytes raw sector_size description =
     (let revision = le_at raw 8 4; header_size = le_at raw 12 4; header_crc = le_at raw 16 4;
          checked = slice_assign (py_slice raw 0 header_size) 16 20 (zeros 4)
      in rbind (require_all
           [(py_slice raw 0 8 = efi_part, Invalid_signature description),
            (revision = 0x00010000, Unsupported_revision description),
            (HEADER_MIN \<le> header_size \<and> header_size \<le> sector_size, Invalid_header_size description),
            (crc32 checked = header_crc, Header_crc_mismatch description),
            (py_slice raw 20 24 = zeros 4, Nonzero_reserved description)])
         (\<lambda>_. Inr header_size))"

definition check_header_geometry ::
    "gpt_fields \<Rightarrow> int \<Rightarrow> int \<Rightarrow> int \<Rightarrow> string \<Rightarrow> gpt_error + unit" where
  "check_header_geometry flds lba expected_backup last_lba description = require_all
     [(fld_current flds = lba \<and> fld_backup flds = expected_backup,
       Invalid_reciprocal_lbas description),
      (lba = 1 \<or> lba = last_lba, Unexpected_location description),
      (fld_first_usable flds \<le> fld_last_usable flds \<and> fld_last_usable flds < last_lba,
       Invalid_usable_range description),
      (0 < fld_count flds \<and> fld_count flds \<le> MAX_ENTRIES, Hostile_count description),
      (128 \<le> fld_entry_size flds \<and> fld_entry_size flds \<le> 4096
         \<and> fld_entry_size flds mod 8 = 0, Hostile_entry_size description),
      (fld_count flds * fld_entry_size flds \<le> MAX_ARRAY_BYTES, Oversized_array description)]"

definition check_array_location ::
    "gpt_fields \<Rightarrow> int \<Rightarrow> int \<Rightarrow> int \<Rightarrow> string \<Rightarrow> gpt_error + unit" where
  "check_array_location flds lba last_lba array_last_lba description =
     (let entries_lba = fld_entries_lba flds
      in require_all
        [(entries_lba \<ge> 2 \<and> array_last_lba < last_lba, Invalid_array_location description),
         (lba \<noteq> 1 \<or> array_last_lba < fld_first_usable flds, Primary_array_not_before_usable),
         (lba \<noteq> last_lba \<or> entries_lba > fld_last_usable flds, Backup_array_not_after_usable)])"

definition header_fields :: "bytes \<Rightarrow> gpt_fields" where
  "header_fields raw =
     \<lparr>fld_array_crc = le_at raw 88 4,
      fld_backup = le_at raw 32 8,
      fld_count = le_at raw 80 4,
      fld_current = le_at raw 24 8,
      fld_entries_lba = le_at raw 72 8,
      fld_entry_size = le_at raw 84 4,
      fld_first_usable = le_at raw 40 8,
      fld_last_usable = le_at raw 48 8\<rparr>"

definition read_header ::
    "bytes \<Rightarrow> int \<Rightarrow> int \<Rightarrow> int \<Rightarrow> int \<Rightarrow> string \<Rightarrow> gpt_error + gpt_header" where
  "read_header img image_size sector_size lba expected_backup description =
     rbind (read_exact img (lba * sector_size) sector_size image_size description) (\<lambda>raw.
     rbind (check_header_bytes raw sector_size description) (\<lambda>header_size.
     let flds = header_fields raw;
         last_lba = image_size div sector_size - 1
     in rbind (check_header_geometry flds lba expected_backup last_lba description) (\<lambda>_.
     let array_size = fld_count flds * fld_entry_size flds;
         array_offset = fld_entries_lba flds * sector_size
     in rbind (read_exact img array_offset array_size image_size
                 (description @ '' partition array'')) (\<lambda>array.
     let array_last_lba = fld_entries_lba flds + (array_size + sector_size - 1) div sector_size - 1
     in rbind (check_array_location flds lba last_lba array_last_lba description) (\<lambda>_.
     if crc32 array \<noteq> fld_array_crc flds then Inl (Array_crc_mismatch description)
     else Inr
       \<lparr>hdr_array = array,
        hdr_array_offset = array_offset,
        hdr_count = fld_count flds,
        hdr_disk_guid = py_slice raw 56 72,
        hdr_entry_size = fld_entry_size flds,
        hdr_entries_lba = fld_entries_lba flds,
        hdr_first_usable = fld_first_usable flds,
        hdr_header_offset = lba * sector_size,
        hdr_header_size = header_size,
        hdr_last_usable = fld_last_usable flds,
        hdr_raw_header = raw\<rparr>)))))"

section \<open>Both copies\<close>

definition sector_size :: "bytes \<Rightarrow> int \<Rightarrow> gpt_error + int" where
  "sector_size img image_size =
     (let candidates = filter (\<lambda>size. image_size mod size = 0 \<and> image_size \<ge> size * 3
            \<and> py_slice img size (size + 8) = efi_part) [512, 4096]
      in case candidates of [found] \<Rightarrow> Inr found | _ \<Rightarrow> Inl Ambiguous_sector_size)"

definition validated_gpt :: "bytes \<Rightarrow> gpt_error + (int \<times> int \<times> gpt_header \<times> gpt_header)" where
  "validated_gpt img =
     (let image_size = len img in
      rbind (sector_size img image_size) (\<lambda>ss.
      let last_lba = image_size div ss - 1 in
      rbind (read_header img image_size ss 1 last_lba ''primary GPT'') (\<lambda>primary.
      rbind (read_header img image_size ss last_lba 1 ''backup GPT'') (\<lambda>backup.
      if hdr_disk_guid primary \<noteq> hdr_disk_guid backup then Inl (Copies_disagree ''disk_guid'')
      else if hdr_first_usable primary \<noteq> hdr_first_usable backup
      then Inl (Copies_disagree ''first_usable'')
      else if hdr_last_usable primary \<noteq> hdr_last_usable backup
      then Inl (Copies_disagree ''last_usable'')
      else if hdr_count primary \<noteq> hdr_count backup then Inl (Copies_disagree ''count'')
      else if hdr_entry_size primary \<noteq> hdr_entry_size backup
      then Inl (Copies_disagree ''entry_size'')
      else if hdr_array primary \<noteq> hdr_array backup then Inl Arrays_disagree
      else Inr (image_size, ss, primary, backup)))))"

section \<open>Projection of the partition entries\<close>

definition slot_kind :: "string \<Rightarrow> string" where
  "slot_kind guid = (if guid = ROOT_X86_64 then ''root'' else ''verity'')"

definition validate_ab_slot :: "partition list \<Rightarrow> string \<times> ustr \<Rightarrow> gpt_error + unit" where
  "validate_ab_slot partitions = (\<lambda>(guid, lbl).
     (let candidates = filter (\<lambda>entry. type_guid entry = guid) partitions;
          populated = filter (\<lambda>entry. label entry \<noteq> EMPTY_SLOT_LABEL) candidates;
          inactive = filter (\<lambda>entry. label entry = EMPTY_SLOT_LABEL) candidates
      in case populated of
           [active] \<Rightarrow>
             (if label active \<noteq> lbl then Inl (Slot_mismatch (slot_kind guid) lbl (sort (map label candidates)))
              else if \<exists>entry \<in> set inactive. size_bytes entry < size_bytes active
              then Inl (Inactive_slot_too_small (slot_kind guid))
              else Inr ())
         | _ \<Rightarrow> Inl (Slot_mismatch (slot_kind guid) lbl (sort (map label candidates)))))"

definition validate_ab_slots :: "partition list \<Rightarrow> ustr \<Rightarrow> gpt_error + unit" where
  "validate_ab_slots partitions slot_label =
     rbind (validate_ab_slot partitions (ROOT_X86_64, slot_label)) (\<lambda>_.
     validate_ab_slot partitions (ROOT_X86_64_VERITY, slot_label @ ascii ''_verity''))"

definition check_entry_range ::
    "int \<Rightarrow> int \<Rightarrow> int \<Rightarrow> gpt_header \<Rightarrow> (int \<times> int \<times> int) option \<Rightarrow> gpt_error + unit" where
  "check_entry_range num first_lba last_lba primary previous =
     (if first_lba > last_lba then Inl (Invalid_range num)
      else if first_lba < hdr_first_usable primary \<or> last_lba > hdr_last_usable primary
      then Inl (Outside_usable_range num)
      else case previous of
        None \<Rightarrow> Inr ()
      | Some (previous_first, previous_last, previous_number) \<Rightarrow>
          (if first_lba < previous_first then Inl (Out_of_order num)
           else if first_lba \<le> previous_last then Inl (Overlaps num previous_number)
           else Inr ()))"

definition project_entry :: "bytes \<Rightarrow> int \<Rightarrow> int \<Rightarrow> int \<Rightarrow> int \<Rightarrow> gpt_error + partition" where
  "project_entry entry num first_lba last_lba ss =
     (let start = first_lba * ss
      in if start mod ALIGNMENT \<noteq> 0 then Inl (Not_aligned num)
         else case decode_utf16 (py_slice entry 56 128) of
           None \<Rightarrow> Inl (Invalid_label num)
         | Some text \<Rightarrow> Inr
             \<lparr>label = before_nul text,
              number = num,
              size_bytes = (last_lba - first_lba + 1) * ss,
              start_bytes = start,
              type_guid = uuid_le_str (py_slice entry 0 16),
              part_uuid = None\<rparr>)"

definition validate_roots :: "partition list \<Rightarrow> ustr option \<Rightarrow> gpt_error + unit" where
  "validate_roots partitions slot_label =
     (case slot_label of
        Some lbl \<Rightarrow> validate_ab_slots partitions lbl
      | None \<Rightarrow>
          (case filter (\<lambda>entry. type_guid entry = ROOT_X86_64) partitions of
             [root] \<Rightarrow> (if label root \<noteq> ascii ''root-x86-64'' then Inl Root_label else Inr ())
           | _ \<Rightarrow> Inl Root_count))"

definition validate_firmware :: "partition list \<Rightarrow> string \<Rightarrow> gpt_error + unit" where
  "validate_firmware partitions firmware =
     (if firmware = ''uefi'' then Inr ()
      else if firmware \<noteq> ''bios'' then Inl Unknown_firmware
      else case filter (\<lambda>entry. type_guid entry = BIOS_BOOT) partitions of
             [bios_boot] \<Rightarrow> (if size_bytes bios_boot < ALIGNMENT then Inl Bios_boot_size else Inr ())
           | _ \<Rightarrow> Inl Bios_boot_count)"

text \<open>
  The scan of \<^verbatim>\<open>project_image\<close> over the entry array, with the extent and number of the
  previous populated entry; \<open>versioned\<close> is \<^verbatim>\<open>slot_label is not None\<close>.
\<close>

definition entry_at :: "gpt_header \<Rightarrow> int \<Rightarrow> bytes" where
  "entry_at primary slot =
     py_slice (hdr_array primary) (slot * hdr_entry_size primary) ((slot + 1) * hdr_entry_size primary)"

fun project_entries ::
    "gpt_header \<Rightarrow> int \<Rightarrow> bool \<Rightarrow> (int \<times> int \<times> int) option \<Rightarrow> int list
       \<Rightarrow> gpt_error + partition list" where
  "project_entries primary ss versioned previous [] = Inr []"
| "project_entries primary ss versioned previous (slot # slots) =
     (let entry = entry_at primary slot
      in if py_slice entry 0 16 = zeros 16
         then project_entries primary ss versioned previous slots
         else
           let num = slot + 1; first_lba = le_at entry 32 8; last_lba = le_at entry 40 8
           in rbind (check_entry_range num first_lba last_lba primary previous) (\<lambda>_.
              rbind (project_entry entry num first_lba last_lba ss) (\<lambda>part.
              rbind (project_entries primary ss versioned (Some (first_lba, last_lba, num)) slots) (\<lambda>parts.
              Inr ((if versioned then part\<lparr>part_uuid := Some (uuid_le_str (py_slice entry 16 32))\<rparr>
                    else part) # parts)))))"

definition project_image ::
    "bytes \<Rightarrow> string \<Rightarrow> ustr option \<Rightarrow> gpt_error + partition_metadata" where
  "project_image img firmware slot_label =
     rbind (validated_gpt img) (\<lambda>(_, ss, primary, _).
     rbind (project_entries primary ss (slot_label \<noteq> None) None [0..hdr_count primary - 1]) (\<lambda>partitions.
     rbind (validate_roots partitions slot_label) (\<lambda>_.
     rbind (validate_firmware partitions firmware) (\<lambda>_.
     Inr \<lparr>md_firmware = firmware,
          md_format_version = ''mkosi-partition-metadata-v1'',
          md_partitions = partitions,
          md_sector_size = ss\<rparr>))))"

section \<open>The canonical hash\<close>

definition canonical_header :: "gpt_header \<Rightarrow> int \<Rightarrow> bytes" where
  "canonical_header header array_crc =
     (let r1 = slice_assign (hdr_raw_header header) 16 20 (zeros 4);
          r2 = slice_assign r1 56 72 (zeros 16);
          r3 = slice_assign r2 88 92 (le_bytes 4 array_crc)
      in slice_assign r3 16 20 (le_bytes 4 (crc32 (py_slice r3 0 (hdr_header_size header)))))"

text \<open>The digest object is the byte string fed to it so far.\<close>

function hash_bytes :: "pyfile \<Rightarrow> bytes \<Rightarrow> int \<Rightarrow> gpt_error + (pyfile \<times> bytes)" where
  "hash_bytes img digest sz =
     (if sz = 0 then Inr (img, digest)
      else case file_read (min HASH_CHUNK_BYTES sz) img of
        (chunk, img') \<Rightarrow>
          if chunk = [] then Inl Truncated_while_hashing
          else hash_bytes img' (digest @ chunk) (sz - len chunk))"
  by pat_completeness auto
termination
  by (relation "measure (\<lambda>(img, digest, sz). nat (len (contents img) - pos img))")
    (auto intro: file_read_shrinks)

declare hash_bytes.simps [simp del]

fun hash_patches ::
    "pyfile \<Rightarrow> bytes \<Rightarrow> int \<Rightarrow> int \<Rightarrow> (int \<times> bytes) list \<Rightarrow> gpt_error + bytes" where
  "hash_patches img digest cursor image_size [] =
     rbind (hash_bytes img digest (image_size - cursor)) (\<lambda>(_, digest'). Inr digest')"
| "hash_patches img digest cursor image_size ((offset, replacement) # patches) =
     (if offset < cursor then Inl Patches_overlap
      else rbind (hash_bytes img digest (offset - cursor)) (\<lambda>(img', digest').
        hash_patches (file_seek (pos img' + len replacement) img') (digest' @ replacement)
          (offset + len replacement) image_size patches))"

definition hash_with_patches ::
    "(bytes \<Rightarrow> bytes) \<Rightarrow> bytes \<Rightarrow> int \<Rightarrow> (int \<times> bytes) list \<Rightarrow> gpt_error + string" where
  "hash_with_patches sha256 img image_size patches =
     rbind (hash_patches \<lparr>contents = img, pos = 0\<rparr> [] 0 image_size (sort patches))
       (\<lambda>digest. Inr (hex (sha256 digest)))"

fun zero_guids :: "bytes \<Rightarrow> int \<Rightarrow> int list \<Rightarrow> bytes" where
  "zero_guids array entry_size [] = array"
| "zero_guids array entry_size (slot # slots) =
     zero_guids (slice_assign array (slot * entry_size + 16) (slot * entry_size + 32) (zeros 16))
       entry_size slots"

definition canonical_patches :: "gpt_header \<Rightarrow> gpt_header \<Rightarrow> (int \<times> bytes) list" where
  "canonical_patches primary backup =
     (let array = zero_guids (hdr_array primary) (hdr_entry_size primary) [0..hdr_count primary - 1];
          array_crc = crc32 array
      in [(hdr_header_offset primary, canonical_header primary array_crc),
          (hdr_array_offset primary, array),
          (hdr_array_offset backup, array),
          (hdr_header_offset backup, canonical_header backup array_crc)])"

definition canonical_image_sha256 ::
    "(bytes \<Rightarrow> bytes) \<Rightarrow> bytes \<Rightarrow> ustr option \<Rightarrow> gpt_error + string" where
  "canonical_image_sha256 sha256 img slot_label =
     rbind (project_image img ''uefi'' slot_label) (\<lambda>_.
     rbind (validated_gpt img) (\<lambda>(image_size, _, primary, backup).
     hash_with_patches sha256 img image_size (canonical_patches primary backup)))"

end
