(* ===== verification/Gpt_Layout.thy ===== *)
theory Gpt_Layout
  imports Gpt_Metadata
begin

text \<open>
  What a validated GPT guarantees: \<open>header_wf\<close> is the invariant that \<^const>\<open>read_header\<close>
  establishes for each copy, \<open>gpt_wf\<close> the one that \<^const>\<open>validated_gpt\<close> establishes for both,
  and \<open>extents_ok\<close> the one that the entry scan keeps. The metadata that
  \<^const>\<open>project_image\<close> emits describes disjoint, aligned partitions between the two copies.
\<close>

section \<open>Invariants\<close>

definition header_wf :: "bytes \<Rightarrow> int \<Rightarrow> int \<Rightarrow> gpt_header \<Rightarrow> bool" where
  "header_wf img ss lba h \<longleftrightarrow>
     (let last_lba = len img div ss - 1;
          array_size = hdr_count h * hdr_entry_size h;
          array_last_lba = hdr_entries_lba h + (array_size + ss - 1) div ss - 1
      in hdr_header_offset h = lba * ss
       \<and> 0 \<le> lba * ss \<and> lba * ss + ss \<le> len img
       \<and> hdr_raw_header h = py_slice img (lba * ss) (lba * ss + ss)
       \<and> HEADER_MIN \<le> hdr_header_size h \<and> hdr_header_size h \<le> ss
       \<and> 0 < hdr_count h \<and> hdr_count h \<le> MAX_ENTRIES
       \<and> 128 \<le> hdr_entry_size h \<and> hdr_entry_size h \<le> 4096
       \<and> array_size \<le> MAX_ARRAY_BYTES
       \<and> hdr_first_usable h \<le> hdr_last_usable h \<and> hdr_last_usable h < last_lba
       \<and> hdr_array_offset h = hdr_entries_lba h * ss
       \<and> hdr_array_offset h + array_size \<le> len img
       \<and> hdr_array h = py_slice img (hdr_array_offset h) (hdr_array_offset h + array_size)
       \<and> 2 \<le> hdr_entries_lba h \<and> array_last_lba < last_lba
       \<and> (lba = 1 \<longrightarrow> array_last_lba < hdr_first_usable h)
       \<and> (lba = last_lba \<longrightarrow> hdr_last_usable h < hdr_entries_lba h))"

definition gpt_wf :: "bytes \<Rightarrow> int \<Rightarrow> gpt_header \<Rightarrow> gpt_header \<Rightarrow> bool" where
  "gpt_wf img ss primary backup \<longleftrightarrow>
     (ss = 512 \<or> ss = 4096) \<and> len img mod ss = 0 \<and> 3 * ss \<le> len img
     \<and> header_wf img ss 1 primary \<and> header_wf img ss (len img div ss - 1) backup
     \<and> hdr_disk_guid primary = hdr_disk_guid backup
     \<and> hdr_first_usable primary = hdr_first_usable backup
     \<and> hdr_last_usable primary = hdr_last_usable backup
     \<and> hdr_count primary = hdr_count backup \<and> hdr_entry_size primary = hdr_entry_size backup
     \<and> hdr_array primary = hdr_array backup"

lemma read_exact_Inr:
  "read_exact img offset sz image_size d = Inr v \<longleftrightarrow>
     0 \<le> offset \<and> 0 \<le> sz \<and> offset + sz \<le> image_size \<and>
     v = py_slice img offset (offset + sz) \<and> len v = sz"
  by (auto simp: read_exact_def Let_def)

text \<open>Reads inside the file never come back short: that branch needs a shrinking file.\<close>

lemma read_exact_not_truncated: "read_exact img offset sz (len img) d \<noteq> Inl (Truncated d)"
  by (auto simp: read_exact_def Let_def length_slice)

lemma check_header_bytes_Inr:
  "check_header_bytes raw ss d = Inr n \<Longrightarrow>
     n = le_at raw 12 4 \<and> HEADER_MIN \<le> n \<and> n \<le> ss \<and> py_slice raw 0 8 = efi_part \<and>
     crc32 (slice_assign (py_slice raw 0 n) 16 20 (zeros 4)) = le_at raw 16 4 \<and>
     py_slice raw 20 24 = zeros 4"
  by (auto simp: check_header_bytes_def Let_def)

lemmas header_check_defs = check_header_geometry_def check_array_location_def Let_def

text \<open>Everything that a successful call of \<^const>\<open>read_header\<close> has checked.\<close>

lemma read_header_Inr:
  assumes "read_header img n ss lba eb d = Inr h"
  obtains raw flds hs where
    "flds = header_fields raw"
    "read_exact img (lba * ss) ss n d = Inr raw"
    "check_header_bytes raw ss d = Inr hs"
    "check_header_geometry flds lba eb (n div ss - 1) d = Inr ()"
    "read_exact img (fld_entries_lba flds * ss) (fld_count flds * fld_entry_size flds) n
       (d @ '' partition array'') = Inr (hdr_array h)"
    "check_array_location flds lba (n div ss - 1)
       (fld_entries_lba flds + (fld_count flds * fld_entry_size flds + ss - 1) div ss - 1) d = Inr ()"
    "crc32 (hdr_array h) = fld_array_crc flds"
    "h = \<lparr>hdr_array = hdr_array h, hdr_array_offset = fld_entries_lba flds * ss,
       hdr_count = fld_count flds, hdr_disk_guid = py_slice raw 56 72,
       hdr_entry_size = fld_entry_size flds, hdr_entries_lba = fld_entries_lba flds,
       hdr_first_usable = fld_first_usable flds, hdr_header_offset = lba * ss,
       hdr_header_size = hs, hdr_last_usable = fld_last_usable flds, hdr_raw_header = raw\<rparr>"
proof -
  from assms obtain raw hs array where *:
    "read_exact img (lba * ss) ss n d = Inr raw"
    "check_header_bytes raw ss d = Inr hs"
    "check_header_geometry (header_fields raw) lba eb (n div ss - 1) d = Inr ()"
    "read_exact img (fld_entries_lba (header_fields raw) * ss)
       (fld_count (header_fields raw) * fld_entry_size (header_fields raw)) n
       (d @ '' partition array'') = Inr array"
    "check_array_location (header_fields raw) lba (n div ss - 1)
       (fld_entries_lba (header_fields raw) + (fld_count (header_fields raw)
          * fld_entry_size (header_fields raw) + ss - 1) div ss - 1) d = Inr ()"
    "(if crc32 array \<noteq> fld_array_crc (header_fields raw) then Inl (Array_crc_mismatch d)
      else Inr \<lparr>hdr_array = array, hdr_array_offset = fld_entries_lba (header_fields raw) * ss,
       hdr_count = fld_count (header_fields raw), hdr_disk_guid = py_slice raw 56 72,
       hdr_entry_size = fld_entry_size (header_fields raw),
       hdr_entries_lba = fld_entries_lba (header_fields raw),
       hdr_first_usable = fld_first_usable (header_fields raw), hdr_header_offset = lba * ss,
       hdr_header_size = hs, hdr_last_usable = fld_last_usable (header_fields raw),
       hdr_raw_header = raw\<rparr>) = Inr h"
    unfolding read_header_def Let_def rbind_eq_Inr by auto
  from *(6) have crc: "crc32 array = fld_array_crc (header_fields raw)"
    by (cases "crc32 array = fld_array_crc (header_fields raw)") simp_all
  with *(6) have "hdr_array h = array" by auto
  with * crc show thesis by (intro that [OF refl *(1) *(2) *(3)]) auto
qed

lemma read_header_wf:
  assumes "read_header img (len img) ss lba eb d = Inr h"
  shows "header_wf img ss lba h"
  using assms
proof (rule read_header_Inr)
  fix raw flds hs
  assume flds: "flds = header_fields raw"
    and raw: "read_exact img (lba * ss) ss (len img) d = Inr raw"
    and hs: "check_header_bytes raw ss d = Inr hs"
    and geo: "check_header_geometry flds lba eb (len img div ss - 1) d = Inr ()"
    and arr: "read_exact img (fld_entries_lba flds * ss) (fld_count flds * fld_entry_size flds)
       (len img) (d @ '' partition array'') = Inr (hdr_array h)"
    and loc: "check_array_location flds lba (len img div ss - 1)
       (fld_entries_lba flds + (fld_count flds * fld_entry_size flds + ss - 1) div ss - 1) d = Inr ()"
    and h: "h = \<lparr>hdr_array = hdr_array h, hdr_array_offset = fld_entries_lba flds * ss,
       hdr_count = fld_count flds, hdr_disk_guid = py_slice raw 56 72,
       hdr_entry_size = fld_entry_size flds, hdr_entries_lba = fld_entries_lba flds,
       hdr_first_usable = fld_first_usable flds, hdr_header_offset = lba * ss,
       hdr_header_size = hs, hdr_last_usable = fld_last_usable flds, hdr_raw_header = raw\<rparr>"
  have sel: "hdr_header_offset h = lba * ss" "hdr_raw_header h = raw" "hdr_header_size h = hs"
    "hdr_count h = fld_count flds" "hdr_entry_size h = fld_entry_size flds"
    "hdr_entries_lba h = fld_entries_lba flds" "hdr_array_offset h = fld_entries_lba flds * ss"
    "hdr_first_usable h = fld_first_usable flds" "hdr_last_usable h = fld_last_usable flds"
    by (subst h, simp)+
  show ?thesis
    using raw check_header_bytes_Inr [OF hs] geo arr loc
    unfolding header_wf_def sel read_exact_Inr header_check_defs
    by simp
qed

lemma sector_size_Inr:
  "sector_size img n = Inr ss \<Longrightarrow>
    (ss = 512 \<or> ss = 4096) \<and> n mod ss = 0 \<and> 3 * ss \<le> n"
  by (auto simp: sector_size_def Let_def split: if_splits)

lemma validated_gpt_wf:
  assumes "validated_gpt img = Inr (n, ss, primary, backup)"
  shows "n = len img" "gpt_wf img ss primary backup"
  using assms
  by (auto simp: validated_gpt_def gpt_wf_def Let_def split: if_splits
      dest: sector_size_Inr read_header_wf)

section \<open>The entry scan\<close>

definition part_end :: "partition \<Rightarrow> int" where
  "part_end p = start_bytes p + size_bytes p"

definition part_ok :: "gpt_header \<Rightarrow> int \<Rightarrow> partition \<Rightarrow> bool" where
  "part_ok primary ss p \<longleftrightarrow>
     start_bytes p mod ALIGNMENT = 0 \<and> 0 < size_bytes p
     \<and> hdr_first_usable primary * ss \<le> start_bytes p
     \<and> part_end p \<le> (hdr_last_usable primary + 1) * ss"

definition after_previous :: "(int \<times> int \<times> int) option \<Rightarrow> int \<Rightarrow> partition \<Rightarrow> bool" where
  "after_previous previous ss p \<longleftrightarrow>
     (case previous of None \<Rightarrow> True | Some (f, l, n) \<Rightarrow> (l + 1) * ss \<le> start_bytes p)"

definition extents_ok :: "gpt_header \<Rightarrow> int \<Rightarrow> partition list \<Rightarrow> bool" where
  "extents_ok primary ss ps \<longleftrightarrow>
     (\<forall>p \<in> set ps. part_ok primary ss p)
     \<and> sorted_wrt (\<lambda>p q. part_end p \<le> start_bytes q) ps
     \<and> sorted_wrt (<) (map number ps)"

text \<open>An accepted entry projects to a partition inside the usable range, after the previous one.\<close>

lemma project_entry_ok:
  assumes "check_entry_range num f l primary previous = Inr ()"
    and "project_entry entry num f l ss = Inr p" and "0 < ss"
  shows "part_ok primary ss p" "after_previous previous ss p"
    "part_end p = (l + 1) * ss" "number p = num"
proof -
  from assms(1) have fl: "f \<le> l" "hdr_first_usable primary \<le> f" "l \<le> hdr_last_usable primary"
    and prev: "\<And>pf pl pn. previous = Some (pf, pl, pn) \<Longrightarrow> pl + 1 \<le> f"
    by (auto simp: check_entry_range_def split: if_splits option.splits)
  from assms(2) have p: "start_bytes p = f * ss" "size_bytes p = (l - f + 1) * ss" "number p = num"
    and al: "f * ss mod ALIGNMENT = 0"
    by (auto simp: project_entry_def Let_def split: if_splits option.splits)
  show e: "part_end p = (l + 1) * ss"
    using p by (simp add: part_end_def algebra_simps)
  show "number p = num" by (rule p(3))
  from fl assms(3) have "0 < (l - f + 1) * ss" by simp
  with fl assms(3) al show "part_ok primary ss p"
    unfolding part_ok_def e by (simp add: p)
  show "after_previous previous ss p"
    using prev assms(3) by (auto simp: after_previous_def p split: option.splits)
qed

lemma extents_ok_Cons:
  assumes "extents_ok primary ss ps" "part_ok primary ss p"
    and "\<forall>q \<in> set ps. part_end p \<le> start_bytes q \<and> number p < number q"
  shows "extents_ok primary ss (p # ps)"
  using assms by (auto simp: extents_ok_def)

lemma part_uuid_irrelevant [simp]:
  "part_ok primary ss (p\<lparr>part_uuid := u\<rparr>) = part_ok primary ss p"
  "part_end (p\<lparr>part_uuid := u\<rparr>) = part_end p"
  "after_previous previous ss (p\<lparr>part_uuid := u\<rparr>) = after_previous previous ss p"
  by (simp_all add: part_ok_def part_end_def after_previous_def split: option.split)

lemma project_entries_ok:
  assumes "project_entries primary ss versioned previous slots = Inr ps"
    and "0 < ss" "sorted_wrt (<) slots"
  shows "extents_ok primary ss ps \<and> (\<forall>p \<in> set ps. after_previous previous ss p)
    \<and> (\<forall>p \<in> set ps. number p - 1 \<in> set slots)"
  using assms
proof (induction slots arbitrary: previous ps)
  case Nil
  then show ?case by (simp add: extents_ok_def)
next
  case (Cons slot slots)
  let ?entry = "entry_at primary slot"
  let ?f = "le_at ?entry 32 8" and ?l = "le_at ?entry 40 8"
  show ?case
  proof (cases "py_slice ?entry 0 16 = zeros 16")
    case True
    with Cons.prems Cons.IH [of previous ps] show ?thesis by auto
  next
    case False
    with Cons.prems(1) obtain p rest where
      chk: "check_entry_range (slot + 1) ?f ?l primary previous = Inr ()"
      and prj: "project_entry ?entry (slot + 1) ?f ?l ss = Inr p"
      and rest: "project_entries primary ss versioned (Some (?f, ?l, slot + 1)) slots = Inr rest"
      and ps: "ps = (if versioned then p\<lparr>part_uuid := Some (uuid_le_str (py_slice ?entry 16 32))\<rparr>
                else p) # rest"
      by (auto simp: Let_def)
    note p = project_entry_ok [OF chk prj Cons.prems(2)]
    from Cons.prems(3) have slots: "sorted_wrt (<) slots" "\<forall>s \<in> set slots. slot < s" by auto
    from Cons.IH [OF rest Cons.prems(2) slots(1)]
    have r: "extents_ok primary ss rest" "\<forall>q \<in> set rest. (?l + 1) * ss \<le> start_bytes q"
      "\<forall>q \<in> set rest. number q - 1 \<in> set slots"
      by (auto simp: after_previous_def)
    have f: "?f \<le> ?l" using chk by (auto simp: check_entry_range_def split: if_splits)
    have prev: "after_previous previous ss q" if "q \<in> set rest" for q
      using r(2) that p(2,3) p(1)
      by (fastforce simp: after_previous_def part_end_def part_ok_def split: option.splits)
    from r p slots(2) have "extents_ok primary ss (p # rest)"
      by (intro extents_ok_Cons) fastforce+
    with p r prev show ?thesis
      by (auto simp: ps extents_ok_def)
  qed
qed

section \<open>Layout of the projected image\<close>

lemma ceil_div_ge: "0 < (s :: int) \<Longrightarrow> a \<le> (a + s - 1) div s * s"
  by (smt (verit) div_mult_mod_eq pos_mod_bound)

text \<open>The end of the entry array of a copy, in bytes, is at most the end of its last sector.\<close>

lemma header_array_end:
  assumes "header_wf img ss lba h" "0 < ss"
  shows "hdr_array_offset h + hdr_count h * hdr_entry_size h
    \<le> (hdr_entries_lba h + (hdr_count h * hdr_entry_size h + ss - 1) div ss) * ss"
  using assms ceil_div_ge [of ss "hdr_count h * hdr_entry_size h"]
  by (auto simp: header_wf_def Let_def algebra_simps)

lemma header_array_length:
  assumes "header_wf img ss lba h" "0 < ss"
  shows "len (hdr_array h) = hdr_count h * hdr_entry_size h"
  using assms by (auto simp: header_wf_def Let_def length_slice)

text \<open>
  The order of the structures on a validated disk: primary header, primary array, usable
  range, backup array, backup header, with nothing after it.
\<close>

lemma gpt_wf_order:
  assumes "gpt_wf img ss primary backup"
  shows "2 * ss \<le> hdr_array_offset primary"
    "hdr_array_offset primary + len (hdr_array primary) \<le> hdr_first_usable primary * ss"
    "(hdr_last_usable primary + 1) * ss \<le> hdr_array_offset backup"
    "hdr_array_offset backup + len (hdr_array backup) \<le> hdr_header_offset backup"
    "hdr_header_offset backup + ss = len img" "hdr_header_offset primary = ss"
    "hdr_first_usable primary \<le> hdr_last_usable primary"
proof -
  from assms have ss: "0 < ss" and p: "header_wf img ss 1 primary"
    and b: "header_wf img ss (len img div ss - 1) backup" and n: "len img mod ss = 0"
    and eq: "hdr_last_usable primary = hdr_last_usable backup"
    by (auto simp: gpt_wf_def)
  have m: "len img div ss * ss = len img" using n by (metis add.right_neutral div_mult_mod_eq)
  have le: "x \<le> y \<Longrightarrow> x * ss \<le> y * ss" for x y :: int
    using ss by simp
  show "2 * ss \<le> hdr_array_offset primary" "hdr_header_offset primary = ss"
    "hdr_first_usable primary \<le> hdr_last_usable primary"
    using p ss by (auto simp: header_wf_def Let_def)
  show "hdr_array_offset primary + len (hdr_array primary) \<le> hdr_first_usable primary * ss"
    using header_array_end [OF p ss] header_array_length [OF p ss] p
      le [of "hdr_entries_lba primary + (hdr_count primary * hdr_entry_size primary + ss - 1) div ss"
        "hdr_first_usable primary"]
    by (auto simp: header_wf_def Let_def)
  show "(hdr_last_usable primary + 1) * ss \<le> hdr_array_offset backup"
    using b le [of "hdr_last_usable primary + 1" "hdr_entries_lba backup"] eq
    by (auto simp: header_wf_def Let_def)
  have ho: "hdr_header_offset backup = len img - ss"
    using b m by (auto simp: header_wf_def Let_def algebra_simps)
  then show "hdr_header_offset backup + ss = len img" by simp
  show "hdr_array_offset backup + len (hdr_array backup) \<le> hdr_header_offset backup"
    using header_array_end [OF b ss] header_array_length [OF b ss] b ho m
      le [of "hdr_entries_lba backup + (hdr_count backup * hdr_entry_size backup + ss - 1) div ss"
        "len img div ss - 1"]
    by (auto simp: header_wf_def Let_def algebra_simps)
qed

lemma project_image_Inr:
  assumes "project_image img fw slot = Inr md"
  obtains primary backup where
    "validated_gpt img = Inr (len img, md_sector_size md, primary, backup)"
    "gpt_wf img (md_sector_size md) primary backup"
    "project_entries primary (md_sector_size md) (slot \<noteq> None) None [0..hdr_count primary - 1]
       = Inr (md_partitions md)"
    "validate_roots (md_partitions md) slot = Inr ()"
    "validate_firmware (md_partitions md) fw = Inr ()"
proof -
  from assms obtain n ss primary backup ps where
    v: "validated_gpt img = Inr (n, ss, primary, backup)"
    and "project_entries primary ss (slot \<noteq> None) None [0..hdr_count primary - 1] = Inr ps"
    and "validate_roots ps slot = Inr ()" "validate_firmware ps fw = Inr ()"
    and "md_sector_size md = ss" "md_partitions md = ps"
    by (auto simp: project_image_def split: prod.splits)
  with validated_gpt_wf [OF v] that show thesis by auto
qed

lemma project_image_extents:
  assumes "project_image img fw slot = Inr md"
    and "validated_gpt img = Inr (n, ss, primary, backup)"
  shows "extents_ok primary ss (md_partitions md)" "ss = md_sector_size md" "0 < ss"
proof -
  from assms(1) obtain pr ba where
    v: "validated_gpt img = Inr (len img, md_sector_size md, pr, ba)"
    and w: "gpt_wf img (md_sector_size md) pr ba"
    and e: "project_entries pr (md_sector_size md) (slot \<noteq> None) None [0..hdr_count pr - 1]
       = Inr (md_partitions md)"
    by (rule project_image_Inr)
  from v assms(2) have eq: "ss = md_sector_size md" "primary = pr" by simp_all
  from w show "0 < ss" by (auto simp: gpt_wf_def eq)
  moreover have "sorted_wrt (<) [0..hdr_count pr - 1]"
    by (simp add: strict_sorted_iff)
  ultimately show "extents_ok primary ss (md_partitions md)"
    using project_entries_ok [OF e] eq by simp
  show "ss = md_sector_size md" by (rule eq)
qed

text \<open>
  C5: the partitions that an accepted image's metadata lists are aligned to 1 MiB and non-empty,
  lie between the primary and the backup entry array (so that no partition overlaps a GPT
  structure or leaves the image), are disjoint and listed in disk order, and their numbers
  increase.
\<close>

theorem project_image_layout:
  assumes "project_image img firmware slot_label = Inr md"
    and "validated_gpt img = Inr (n, ss, primary, backup)"
  shows "ss = md_sector_size md
    \<and> (\<forall>p \<in> set (md_partitions md).
        start_bytes p mod ALIGNMENT = 0 \<and> 0 < size_bytes p
        \<and> hdr_array_offset primary + len (hdr_array primary) \<le> start_bytes p
        \<and> start_bytes p + size_bytes p \<le> hdr_array_offset backup)
    \<and> 2 * ss \<le> hdr_array_offset primary
    \<and> hdr_array_offset backup + len (hdr_array backup) + ss \<le> len img
    \<and> sorted_wrt (\<lambda>p q. start_bytes p + size_bytes p \<le> start_bytes q) (md_partitions md)
    \<and> sorted_wrt (<) (map number (md_partitions md))"
proof -
  note e = project_image_extents [OF assms]
  note o = gpt_wf_order [OF validated_gpt_wf(2) [OF assms(2)]]
  from e(1) o have "\<forall>p \<in> set (md_partitions md).
        start_bytes p mod ALIGNMENT = 0 \<and> 0 < size_bytes p
        \<and> hdr_array_offset primary + len (hdr_array primary) \<le> start_bytes p
        \<and> start_bytes p + size_bytes p \<le> hdr_array_offset backup"
    by (fastforce simp: extents_ok_def part_ok_def part_end_def)
  with e o show ?thesis
    by (simp add: extents_ok_def part_end_def)
qed

text \<open>
  The A/B slot check accepts exactly the partition lists in which, for the root and for the
  verity type, one slot is populated, carries the versioned label, and is not larger than any
  inactive slot of its type.
\<close>

theorem validate_ab_slots_iff:
  "validate_ab_slots partitions slot_label = Inr () \<longleftrightarrow>
    (\<forall>(guid, lbl) \<in> {(ROOT_X86_64, slot_label), (ROOT_X86_64_VERITY, slot_label @ ascii ''_verity'')}.
      \<exists>active.
        filter (\<lambda>p. type_guid p = guid \<and> label p \<noteq> EMPTY_SLOT_LABEL) partitions = [active]
        \<and> label active = lbl
        \<and> (\<forall>p \<in> set partitions. type_guid p = guid \<longrightarrow> label p = EMPTY_SLOT_LABEL \<longrightarrow>
              size_bytes active \<le> size_bytes p))"
proof -
  have "validate_ab_slot partitions (guid, lbl) = Inr () \<longleftrightarrow>
    (\<exists>active. filter (\<lambda>p. type_guid p = guid \<and> label p \<noteq> EMPTY_SLOT_LABEL) partitions = [active]
        \<and> label active = lbl
        \<and> (\<forall>p \<in> set partitions. type_guid p = guid \<longrightarrow> label p = EMPTY_SLOT_LABEL \<longrightarrow>
              size_bytes active \<le> size_bytes p))" for guid lbl
    by (auto simp: validate_ab_slot_def Let_def conj_commute split: list.splits if_splits)
  then show ?thesis
    by (simp add: validate_ab_slots_def)
qed

end
