(* ===== verification/Gpt_Canonical.thy ===== *)
theory Gpt_Canonical
  imports Gpt_Layout
begin

text \<open>
  The canonical image hash of \<^verbatim>\<open>partition_metadata.py\<close> reads the image in chunks and replaces
  four ranges on the way. Its reference definition \<open>apply_patches\<close> overwrites the ranges in a
  copy of the image; the two agree whenever the patches are ordered and inside the image,
  which validation guarantees.
\<close>

section \<open>Chunked hashing\<close>

lemma hash_bytes_inside:
  assumes "0 \<le> pos f" "0 \<le> sz" "pos f + sz \<le> len (contents f)"
  shows "hash_bytes f digest sz =
    Inr (f\<lparr>pos := pos f + sz\<rparr>, digest @ py_slice (contents f) (pos f) (pos f + sz))"
  using assms
proof (induction f digest sz rule: hash_bytes.induct)
  case (1 f digest sz)
  show ?case
  proof (cases "sz = 0")
    case True
    then show ?thesis by (simp add: hash_bytes.simps [of f digest 0])
  next
    case False
    let ?k = "min HASH_CHUNK_BYTES sz"
    let ?chunk = "py_slice (contents f) (pos f) (pos f + ?k)" and ?f = "f\<lparr>pos := pos f + ?k\<rparr>"
    have k: "0 < ?k" "?k \<le> sz" using False 1(3) by (auto simp: HASH_CHUNK_BYTES_def)
    have r: "file_read ?k f = (?chunk, ?f)"
      using 1(2-4) k by (intro file_read_inside) auto
    have l: "len ?chunk = ?k" using 1(2-4) k by (simp add: length_slice)
    then have ne: "?chunk \<noteq> []" using k by auto
    have "hash_bytes f digest sz = hash_bytes ?f (digest @ ?chunk) (sz - ?k)"
      using False r l ne by (subst hash_bytes.simps) simp
    also have "\<dots> = Inr (?f\<lparr>pos := pos ?f + (sz - ?k)\<rparr>,
        (digest @ ?chunk) @ py_slice (contents ?f) (pos ?f) (pos ?f + (sz - ?k)))"
      using 1(1) [OF False r [symmetric] ne] 1(2-4) k l by simp
    also have "\<dots> = Inr (f\<lparr>pos := pos f + sz\<rparr>,
        digest @ py_slice (contents f) (pos f) (pos f + sz))"
      using slice_append_slice [of "pos f" "pos f + ?k" "pos f + sz" "contents f"] 1(2-4) k
      by simp
    finally show ?thesis .
  qed
qed

fun patches_fit :: "int \<Rightarrow> int \<Rightarrow> (int \<times> bytes) list \<Rightarrow> bool" where
  "patches_fit cursor n [] \<longleftrightarrow> 0 \<le> cursor \<and> cursor \<le> n"
| "patches_fit cursor n ((off, r) # ps) \<longleftrightarrow> 0 \<le> cursor \<and> cursor \<le> off \<and> patches_fit (off + len r) n ps"

fun splice :: "bytes \<Rightarrow> int \<Rightarrow> (int \<times> bytes) list \<Rightarrow> bytes" where
  "splice img cursor [] = py_slice img cursor (len img)"
| "splice img cursor ((off, r) # ps) = py_slice img cursor off @ r @ splice img (off + len r) ps"

lemma patches_fit_bounds: "patches_fit cursor n ps \<Longrightarrow> 0 \<le> cursor \<and> cursor \<le> n"
  by (induction ps arbitrary: cursor rule: list.induct) force+

lemma hash_patches_splice:
  "patches_fit cursor (len img) ps \<Longrightarrow>
   hash_patches \<lparr>contents = img, pos = cursor\<rparr> digest cursor (len img) ps
     = Inr (digest @ splice img cursor ps)"
proof (induction ps arbitrary: cursor digest)
  case Nil
  then show ?case
    by (simp add: hash_bytes_inside)
next
  case (Cons p ps)
  obtain off r where p: "p = (off, r)" by (cases p)
  from Cons.prems have *: "0 \<le> cursor" "cursor \<le> off" "patches_fit (off + len r) (len img) ps"
    by (auto simp: p)
  from patches_fit_bounds [OF *(3)] have "off \<le> len img" by simp
  with * Cons.IH [OF *(3)] show ?case
    by (simp add: p hash_bytes_inside file_seek_def)
qed

section \<open>The reference: overwriting ranges\<close>

definition apply_patches :: "bytes \<Rightarrow> (int \<times> bytes) list \<Rightarrow> bytes" where
  "apply_patches img ps = foldl (\<lambda>bs (off, r). slice_assign bs off (off + len r) r) img ps"

lemma apply_patches_simps [simp]:
  "apply_patches img [] = img"
  "apply_patches img ((off, r) # ps) = apply_patches (slice_assign img off (off + len r) r) ps"
  by (simp_all add: apply_patches_def)

lemma splice_cong:
  assumes "length img' = length img" "0 \<le> cursor" "drop (nat cursor) img' = drop (nat cursor) img"
    and "patches_fit cursor (len img) ps"
  shows "splice img' cursor ps = splice img cursor ps"
  using assms
proof (induction ps arbitrary: cursor)
  case Nil
  then show ?case by (simp add: slice_nonneg)
next
  case (Cons p ps)
  obtain off r where p: "p = (off, r)" by (cases p)
  have "drop (nat (off + len r)) img' = drop (nat (off + len r)) img"
    using Cons.prems
    by (metis (no_types, lifting) drop_drop le_add_diff_inverse2 nat_mono p patches_fit.simps(2)
        add_increasing2 of_nat_0_le_iff order_trans)
  with Cons p show ?case by (simp add: slice_nonneg)
qed

lemma splice_eq_apply_patches:
  assumes "patches_fit cursor (len img) ps"
  shows "take (nat cursor) img @ splice img cursor ps = apply_patches img ps"
  using assms
proof (induction ps arbitrary: cursor img)
  case Nil
  then show ?case by (simp add: slice_nonneg)
next
  case (Cons p ps)
  obtain off r where p: "p = (off, r)" by (cases p)
  let ?e = "off + len r" and ?img = "slice_assign img off (off + len r) r"
  from Cons.prems have *: "0 \<le> cursor" "cursor \<le> off" "patches_fit ?e (len img) ps"
    by (auto simp: p)
  then have b: "0 \<le> ?e" "?e \<le> len img" "off \<le> ?e"
    using patches_fit_bounds [OF *(3)] by auto
  have l: "length ?img = length img"
    using * b by (simp add: length_slice_assign)
  have img: "?img = take (nat off) img @ r @ drop (nat ?e) img"
    using * b by (simp add: slice_assign_def max_def nat_mono)
  have t: "take (nat ?e) ?img = take (nat off) img @ r" and d: "drop (nat ?e) ?img = drop (nat ?e) img"
    using * b by (simp_all add: img nat_add_distrib)
  have pre: "take (nat cursor) img @ py_slice img cursor off = take (nat off) img"
    using * slice_append_slice [of 0 cursor off img] by (simp add: slice_nonneg)
  have "take (nat cursor) img @ splice img cursor (p # ps)
      = (take (nat cursor) img @ py_slice img cursor off) @ r @ splice img ?e ps"
    by (simp add: p)
  also have "\<dots> = take (nat ?e) ?img @ splice ?img ?e ps"
    using splice_cong [OF l b(1) d] * l by (simp add: pre t)
  also have "\<dots> = apply_patches ?img ps"
    using Cons.IH [of ?e ?img] * l by simp
  finally show ?case by (simp add: p)
qed

section \<open>The canonical patches\<close>

lemma length_canonical_header:
  "92 \<le> len (hdr_raw_header h) \<Longrightarrow> length (canonical_header h c) = length (hdr_raw_header h)"
  by (simp add: canonical_header_def Let_def length_slice_assign)

lemma length_zero_guids:
  assumes "\<forall>s \<in> set slots. 0 \<le> s \<and> s < count" "128 \<le> es" "len array = count * es"
  shows "length (zero_guids array es slots) = length array"
  using assms
proof (induction slots arbitrary: array)
  case (Cons s slots)
  have "(s + 1) * es \<le> count * es" "0 \<le> s * es"
    using Cons.prems by (auto intro: mult_right_mono)
  then have "s * es + 32 \<le> len array" "0 \<le> s * es + 16"
    using Cons.prems by (auto simp: algebra_simps)
  then have "length (slice_assign array (s * es + 16) (s * es + 32) (zeros 16)) = length array"
    by (simp add: length_slice_assign)
  with Cons show ?case by simp
qed simp

definition normalized_array :: "gpt_header \<Rightarrow> bytes" where
  "normalized_array h = zero_guids (hdr_array h) (hdr_entry_size h) [0..hdr_count h - 1]"

lemma canonical_patches_alt:
  "canonical_patches primary backup =
    [(hdr_header_offset primary, canonical_header primary (crc32 (normalized_array primary))),
     (hdr_array_offset primary, normalized_array primary),
     (hdr_array_offset backup, normalized_array primary),
     (hdr_header_offset backup, canonical_header backup (crc32 (normalized_array primary)))]"
  by (simp add: canonical_patches_def normalized_array_def Let_def)

lemma length_normalized_array:
  assumes "header_wf img ss lba h" "0 < ss"
  shows "length (normalized_array h) = length (hdr_array h)"
  unfolding normalized_array_def
  by (rule length_zero_guids [where count = "hdr_count h"])
    (use assms header_array_length [OF assms] in \<open>auto simp: header_wf_def Let_def\<close>)

lemma header_raw_length:
  assumes "header_wf img ss lba h"
  shows "len (hdr_raw_header h) = ss" "92 \<le> len (hdr_raw_header h)"
proof -
  from assms have "92 \<le> ss" by (auto simp: header_wf_def Let_def HEADER_MIN_def)
  with assms show "len (hdr_raw_header h) = ss" by (auto simp: header_wf_def Let_def length_slice)
  with \<open>92 \<le> ss\<close> show "92 \<le> len (hdr_raw_header h)" by simp
qed

text \<open>The patches of a validated image are in disk order and do not overlap.\<close>

lemma canonical_patches_ordered:
  assumes "gpt_wf img ss primary backup"
  shows "sort (canonical_patches primary backup) = canonical_patches primary backup"
    "patches_fit 0 (len img) (canonical_patches primary backup)"
proof -
  from assms have ss: "0 < ss" and p: "header_wf img ss 1 primary"
    and b: "header_wf img ss (len img div ss - 1) backup"
    and eq: "hdr_array primary = hdr_array backup"
    by (auto simp: gpt_wf_def)
  note o = gpt_wf_order [OF assms]
  have ap: "len (normalized_array primary) = len (hdr_array backup)"
    using length_normalized_array [OF p ss] eq by simp
  have lp: "len (canonical_header primary c) = ss" and lb: "len (canonical_header backup c) = ss" for c
    using header_raw_length [OF p] header_raw_length [OF b] by (simp_all add: length_canonical_header)
  have la: "0 < len (hdr_array primary)"
    using p header_array_length [OF p ss] by (auto simp: header_wf_def Let_def)
  have le: "hdr_first_usable primary * ss \<le> hdr_last_usable primary * ss"
    using o(7) ss by simp
  have gap: "hdr_array_offset primary + len (hdr_array primary) \<le> hdr_array_offset backup"
    using o(2,3) le ss unfolding distrib_right by linarith
  have offs: "hdr_header_offset primary < hdr_array_offset primary"
    "hdr_array_offset primary < hdr_array_offset backup"
    "hdr_array_offset backup < hdr_header_offset backup"
    using o(1,4,6) gap la ss unfolding eq by linarith+
  show "sort (canonical_patches primary backup) = canonical_patches primary backup"
    by (rule sorted_sort_id) (use offs in \<open>simp add: canonical_patches_alt less_le\<close>)
  show "patches_fit 0 (len img) (canonical_patches primary backup)"
    using o offs gap ss eq
    by (simp add: canonical_patches_alt lp lb ap)
qed

text \<open>
  On every image that projects, hashing succeeds, and it is the hash of the image with the
  four ranges overwritten.
\<close>

lemma canonical_image_sha256_reference:
  assumes "project_image img ''uefi'' slot = Inr md"
    and "validated_gpt img = Inr (n, ss, primary, backup)"
  shows "canonical_image_sha256 sha256 img slot =
    Inr (hex (sha256 (apply_patches img (canonical_patches primary backup))))"
proof -
  note w = validated_gpt_wf [OF assms(2)]
  note c = canonical_patches_ordered [OF w(2)]
  have "canonical_image_sha256 sha256 img slot =
      hash_with_patches sha256 img (len img) (canonical_patches primary backup)"
    using assms w(1) by (simp add: canonical_image_sha256_def)
  also have "\<dots> = Inr (hex (sha256 (splice img 0 (canonical_patches primary backup))))"
    by (simp add: hash_with_patches_def c(1) hash_patches_splice [OF c(2)])
  finally show ?thesis
    using splice_eq_apply_patches [OF c(2)] by simp
qed

section \<open>Which bytes are normalized\<close>

text \<open>The CRC and disk GUID fields of a header, and the unique GUIDs of an entry array.\<close>

definition header_identity :: "int \<Rightarrow> bool" where
  "header_identity i \<longleftrightarrow> (16 \<le> i \<and> i < 20) \<or> (56 \<le> i \<and> i < 72) \<or> (88 \<le> i \<and> i < 92)"

definition entry_identity :: "int \<Rightarrow> int \<Rightarrow> bool" where
  "entry_identity es i \<longleftrightarrow> 16 \<le> i mod es \<and> i mod es < 32"

definition copy_identity :: "gpt_header \<Rightarrow> int \<Rightarrow> bool" where
  "copy_identity h i \<longleftrightarrow>
     (0 \<le> i - hdr_header_offset h \<and> i - hdr_header_offset h < len (hdr_raw_header h)
       \<and> header_identity (i - hdr_header_offset h))
     \<or> (0 \<le> i - hdr_array_offset h \<and> i - hdr_array_offset h < len (hdr_array h)
       \<and> entry_identity (hdr_entry_size h) (i - hdr_array_offset h))"

definition identity_byte :: "gpt_header \<Rightarrow> gpt_header \<Rightarrow> int \<Rightarrow> bool" where
  "identity_byte primary backup i \<longleftrightarrow> copy_identity primary i \<or> copy_identity backup i"

lemma length_apply_patches:
  "patches_fit cursor (len img) ps \<Longrightarrow> length (apply_patches img ps) = length img"
proof (induction ps arbitrary: cursor img)
  case (Cons p ps)
  obtain off r where p: "p = (off, r)" by (cases p)
  from Cons.prems have *: "0 \<le> off" "patches_fit (off + len r) (len img) ps" by (auto simp: p)
  then have "length (slice_assign img off (off + len r) r) = length img"
    using patches_fit_bounds [OF *(2)] by (simp add: length_slice_assign)
  with * Cons.IH [of "off + len r" "slice_assign img off (off + len r) r"] show ?case
    by (simp add: p)
qed simp

lemma patches_fit_after:
  "patches_fit cursor n ps \<Longrightarrow> (off, r) \<in> set ps \<Longrightarrow> cursor \<le> off"
  by (induction ps arbitrary: cursor) force+

lemma nth_apply_patches_outside:
  assumes "patches_fit cursor (len img) ps" "i < length img"
    and "\<forall>(off, r) \<in> set ps. \<not> (off \<le> int i \<and> int i < off + len r)"
  shows "apply_patches img ps ! i = img ! i"
  using assms
proof (induction ps arbitrary: cursor img)
  case (Cons p ps)
  obtain off r where p: "p = (off, r)" by (cases p)
  let ?img = "slice_assign img off (off + len r) r"
  from Cons.prems have *: "0 \<le> off" "patches_fit (off + len r) (len img) ps" by (auto simp: p)
  then have l: "length ?img = length img" and b: "off + len r \<le> len img"
    using patches_fit_bounds [OF *(2)] by (auto simp: length_slice_assign)
  have "?img ! i = img ! i"
    using * b Cons.prems by (subst nth_slice_assign) (auto simp: p)
  with Cons * l show ?case by (simp add: p)
qed simp

lemma nth_apply_patches_inside:
  assumes "patches_fit cursor (len img) ps" "(off, r) \<in> set ps"
    and "off \<le> int i" "int i < off + len r"
  shows "apply_patches img ps ! i = r ! (i - nat off)"
  using assms
proof (induction ps arbitrary: cursor img)
  case (Cons p ps)
  obtain o' r' where p: "p = (o', r')" by (cases p)
  let ?img = "slice_assign img o' (o' + len r') r'"
  from Cons.prems have *: "0 \<le> o'" "patches_fit (o' + len r') (len img) ps" by (auto simp: p)
  then have l: "length ?img = length img" and b: "o' + len r' \<le> len img"
    using patches_fit_bounds [OF *(2)] by (auto simp: length_slice_assign)
  show ?case
  proof (cases "(off, r) \<in> set ps")
    case True
    with Cons * l show ?thesis by (simp add: p)
  next
    case False
    with Cons.prems p have eq: "o' = off" "r' = r" by auto
    have i: "i < length img" using Cons.prems(4) b unfolding eq by linarith
    have out: "\<forall>(o2, r2) \<in> set ps. \<not> (o2 \<le> int i \<and> int i < o2 + len r2)"
      using patches_fit_after [OF *(2)] Cons.prems eq by fastforce
    have "apply_patches ?img ps ! i = ?img ! i"
      using *(2) l i out by (intro nth_apply_patches_outside [of "off + len r"]) (auto simp: eq)
    also have "\<dots> = r ! (i - nat off)"
      using * b i Cons.prems by (subst nth_slice_assign) (auto simp: eq)
    finally show ?thesis by (simp add: p eq)
  qed
qed simp

section \<open>Normalization of one copy\<close>

definition header_zeroed :: "gpt_header \<Rightarrow> bytes" where
  "header_zeroed h = slice_assign (slice_assign (hdr_raw_header h) 16 20 (zeros 4)) 56 72 (zeros 16)"

lemma canonical_header_alt:
  "canonical_header h c =
    (let r = slice_assign (header_zeroed h) 88 92 (le_bytes 4 c)
     in slice_assign r 16 20 (le_bytes 4 (crc32 (py_slice r 0 (hdr_header_size h)))))"
  by (simp add: canonical_header_def header_zeroed_def Let_def)

lemma nth_canonical_header:
  assumes "92 \<le> len (hdr_raw_header h)" "i < length (hdr_raw_header h)" "\<not> header_identity (int i)"
  shows "canonical_header h c ! i = hdr_raw_header h ! i"
  using assms unfolding canonical_header_def Let_def header_identity_def
  by (auto simp: nth_slice_assign length_slice_assign)

lemma header_zeroed_cong:
  assumes "92 \<le> len (hdr_raw_header h)" "length (hdr_raw_header h') = length (hdr_raw_header h)"
    and "\<And>i. i < length (hdr_raw_header h) \<Longrightarrow> \<not> header_identity (int i) \<Longrightarrow>
      hdr_raw_header h' ! i = hdr_raw_header h ! i"
  shows "slice_assign (header_zeroed h') 88 92 (le_bytes 4 c) =
    slice_assign (header_zeroed h) 88 92 (le_bytes 4 c)"
proof (rule nth_equalityI)
  show "length (slice_assign (header_zeroed h') 88 92 (le_bytes 4 c)) =
    length (slice_assign (header_zeroed h) 88 92 (le_bytes 4 c))"
    using assms(1,2) by (simp add: header_zeroed_def length_slice_assign)
  fix i assume "i < length (slice_assign (header_zeroed h') 88 92 (le_bytes 4 c))"
  then have i: "i < length (hdr_raw_header h)"
    using assms(1,2) by (simp add: header_zeroed_def length_slice_assign)
  show "slice_assign (header_zeroed h') 88 92 (le_bytes 4 c) ! i =
    slice_assign (header_zeroed h) 88 92 (le_bytes 4 c) ! i"
    using assms(1,2) i assms(3) [OF i] unfolding header_zeroed_def header_identity_def
    by (simp add: nth_slice_assign length_slice_assign)
qed

lemma div_less_of_mult: "0 < (b :: int) \<Longrightarrow> a < c * b \<Longrightarrow> a div b < c"
  by (smt (verit) div_mult_mod_eq mult_right_mono pos_mod_sign)

lemma nth_zero_guids:
  assumes "\<forall>s \<in> set slots. 0 \<le> s \<and> s < count" "128 \<le> es" "len array = count * es"
    and "i < length array"
  shows "zero_guids array es slots ! i =
    (if \<exists>s \<in> set slots. s * es + 16 \<le> int i \<and> int i < s * es + 32 then 0 else array ! i)"
  using assms
proof (induction slots arbitrary: array)
  case (Cons s slots)
  let ?a = "slice_assign array (s * es + 16) (s * es + 32) (zeros 16)"
  have "(s + 1) * es \<le> count * es" "0 \<le> s * es"
    using Cons.prems by (auto intro: mult_right_mono)
  then have b: "s * es + 32 \<le> len array" "0 \<le> s * es + 16"
    using Cons.prems by (auto simp: algebra_simps)
  then have l: "length ?a = length array" by (simp add: length_slice_assign)
  have "zeros 16 ! (i - nat (s * es + 16)) = 0" if "s * es + 16 \<le> int i" "int i < s * es + 32"
    using that b by (simp add: zeros_def nth_replicate)
  then have "?a ! i = (if s * es + 16 \<le> int i \<and> int i < s * es + 32 then 0 else array ! i)"
    using b Cons.prems by (subst nth_slice_assign) auto
  with Cons l show ?case by auto
qed simp

lemma nth_normalized_array:
  assumes "header_wf img ss lba h" "0 < ss" "i < length (hdr_array h)"
  shows "normalized_array h ! i =
    (if entry_identity (hdr_entry_size h) (int i) then 0 else hdr_array h ! i)"
proof -
  let ?es = "hdr_entry_size h"
  have w: "128 \<le> ?es" "0 < hdr_count h" and l: "len (hdr_array h) = hdr_count h * ?es"
    using assms(1) header_array_length [OF assms(1,2)] by (auto simp: header_wf_def Let_def)
  have "(\<exists>s \<in> set [0..hdr_count h - 1]. s * ?es + 16 \<le> int i \<and> int i < s * ?es + 32)
      \<longleftrightarrow> entry_identity ?es (int i)" (is "?l \<longleftrightarrow> ?r")
  proof
    assume ?l
    then obtain s where s: "s * ?es + 16 \<le> int i" "int i < s * ?es + 32" by auto
    then have "int i mod ?es = int i - s * ?es"
      using w by (intro int_mod_pos_eq [of _ _ s]) (auto simp: algebra_simps)
    with s show ?r by (simp add: entry_identity_def)
  next
    assume r: ?r
    have "int i div ?es < hdr_count h"
      using assms(3) l w by (intro div_less_of_mult) auto
    moreover have "0 \<le> int i div ?es" using w by (simp add: pos_imp_zdiv_nonneg_iff)
    moreover have "int i div ?es * ?es + 16 \<le> int i" "int i < int i div ?es * ?es + 32"
      using r div_mult_mod_eq [of "int i" ?es] unfolding entry_identity_def by linarith+
    ultimately show ?l
      by (intro bexI [of _ "int i div ?es"]) auto
  qed
  then show ?thesis
    unfolding normalized_array_def
    by (subst nth_zero_guids [where count = "hdr_count h"]) (use w l assms(3) in auto)
qed

section \<open>Normalization of the image\<close>

text \<open>Inside each of the four ranges, an identity byte is one of that range's own fields.\<close>

lemma identity_regions:
  assumes "gpt_wf img ss primary backup"
  shows "ss \<le> i \<Longrightarrow> i < 2 * ss \<Longrightarrow> identity_byte primary backup i \<longleftrightarrow> header_identity (i - ss)"
    "len img - ss \<le> i \<Longrightarrow> i < len img \<Longrightarrow>
       identity_byte primary backup i \<longleftrightarrow> header_identity (i - (len img - ss))"
    "hdr_array_offset primary \<le> i \<Longrightarrow> i < hdr_array_offset primary + len (hdr_array primary) \<Longrightarrow>
       identity_byte primary backup i \<longleftrightarrow>
         entry_identity (hdr_entry_size primary) (i - hdr_array_offset primary)"
    "hdr_array_offset backup \<le> i \<Longrightarrow> i < hdr_array_offset backup + len (hdr_array backup) \<Longrightarrow>
       identity_byte primary backup i \<longleftrightarrow>
         entry_identity (hdr_entry_size primary) (i - hdr_array_offset backup)"
proof -
  from assms have ss: "0 < ss" and p: "header_wf img ss 1 primary"
    and b: "header_wf img ss (len img div ss - 1) backup"
    and es: "hdr_entry_size primary = hdr_entry_size backup"
    by (auto simp: gpt_wf_def)
  note o = gpt_wf_order [OF assms]
  have lr: "len (hdr_raw_header primary) = ss" "len (hdr_raw_header backup) = ss"
    using header_raw_length [OF p] header_raw_length [OF b] by simp_all
  have "hdr_first_usable primary * ss \<le> hdr_last_usable primary * ss" using o(7) ss by simp
  then have gap: "hdr_array_offset primary + len (hdr_array primary) \<le> hdr_array_offset backup"
    using o(2,3) ss unfolding distrib_right by linarith
  have ho: "hdr_header_offset backup = len img - ss" using o(5) by linarith
  note ci = identity_byte_def copy_identity_def lr o(6) ho es
  show "identity_byte primary backup i \<longleftrightarrow> header_identity (i - ss)"
    if "ss \<le> i" "i < 2 * ss"
    using that o(1) gap o(4) ss unfolding ci by auto
  show "identity_byte primary backup i \<longleftrightarrow> header_identity (i - (len img - ss))"
    if "len img - ss \<le> i" "i < len img"
    using that o(1) gap o(4) ho ss unfolding ci by auto
  show "identity_byte primary backup i \<longleftrightarrow>
      entry_identity (hdr_entry_size primary) (i - hdr_array_offset primary)"
    if "hdr_array_offset primary \<le> i" "i < hdr_array_offset primary + len (hdr_array primary)"
    using that o(1) gap o(4) ho ss unfolding ci by auto
  show "identity_byte primary backup i \<longleftrightarrow>
      entry_identity (hdr_entry_size primary) (i - hdr_array_offset backup)"
    if "hdr_array_offset backup \<le> i" "i < hdr_array_offset backup + len (hdr_array backup)"
    using that o(1) gap o(4) ho ss unfolding ci by auto
qed

text \<open>A byte of the image through the slices that the validator keeps.\<close>

lemma header_raw_nth:
  assumes "header_wf img ss lba h" "i < nat ss" "hdr_header_offset h = off"
  shows "hdr_raw_header h ! i = img ! (nat off + i)"
  using assms by (auto simp: header_wf_def Let_def nth_slice)

lemma header_array_nth:
  assumes "header_wf img ss lba h" "0 < ss" "i < length (hdr_array h)"
  shows "hdr_array h ! i = img ! (nat (hdr_array_offset h) + i)"
proof -
  have "int i < hdr_count h * hdr_entry_size h"
    using assms(3) header_array_length [OF assms(1,2)] by linarith
  moreover have "0 \<le> hdr_array_offset h"
    using assms(1,2) by (auto simp: header_wf_def Let_def)
  ultimately show ?thesis
    using assms(1) by (auto simp: header_wf_def Let_def nth_slice)
qed

definition normalized_image :: "bytes \<Rightarrow> gpt_header \<Rightarrow> gpt_header \<Rightarrow> bytes" where
  "normalized_image img primary backup = apply_patches img (canonical_patches primary backup)"

lemma length_normalized_image:
  "gpt_wf img ss primary backup \<Longrightarrow> length (normalized_image img primary backup) = length img"
  unfolding normalized_image_def
  by (rule length_apply_patches [OF canonical_patches_ordered(2)])

text \<open>The normalized image, range by range.\<close>

lemma nth_normalized_image:
  assumes "gpt_wf img ss primary backup" "i < length img"
  defines "c \<equiv> crc32 (normalized_array primary)" and "a \<equiv> normalized_array primary"
  shows "ss \<le> int i \<Longrightarrow> int i < 2 * ss \<Longrightarrow>
      normalized_image img primary backup ! i = canonical_header primary c ! (i - nat ss)"
    "len img - ss \<le> int i \<Longrightarrow>
      normalized_image img primary backup ! i = canonical_header backup c ! (i - nat (len img - ss))"
    "hdr_array_offset primary \<le> int i \<Longrightarrow> int i < hdr_array_offset primary + len a \<Longrightarrow>
      normalized_image img primary backup ! i = a ! (i - nat (hdr_array_offset primary))"
    "hdr_array_offset backup \<le> int i \<Longrightarrow> int i < hdr_array_offset backup + len a \<Longrightarrow>
      normalized_image img primary backup ! i = a ! (i - nat (hdr_array_offset backup))"
    "\<not> (ss \<le> int i \<and> int i < 2 * ss) \<Longrightarrow> \<not> len img - ss \<le> int i \<Longrightarrow>
      \<not> (hdr_array_offset primary \<le> int i \<and> int i < hdr_array_offset primary + len a) \<Longrightarrow>
      \<not> (hdr_array_offset backup \<le> int i \<and> int i < hdr_array_offset backup + len a) \<Longrightarrow>
      normalized_image img primary backup ! i = img ! i"
proof -
  from assms have ss: "0 < ss" and p: "header_wf img ss 1 primary"
    and b: "header_wf img ss (len img div ss - 1) backup"
    by (auto simp: gpt_wf_def)
  note o = gpt_wf_order [OF assms(1)]
  have ho: "hdr_header_offset backup = len img - ss" using o(5) by linarith
  note fit = canonical_patches_ordered(2) [OF assms(1)]
  have l: "len (canonical_header primary c) = ss" "len (canonical_header backup c) = ss"
    using header_raw_length [OF p] header_raw_length [OF b] by (simp_all add: length_canonical_header)
  have patches: "canonical_patches primary backup =
      [(ss, canonical_header primary c), (hdr_array_offset primary, a),
       (hdr_array_offset backup, a), (len img - ss, canonical_header backup c)]"
    unfolding canonical_patches_alt a_def c_def by (simp add: o(6) ho)
  show "normalized_image img primary backup ! i = canonical_header primary c ! (i - nat ss)"
    if "ss \<le> int i" "int i < 2 * ss"
    unfolding normalized_image_def
    by (rule nth_apply_patches_inside [OF fit]) (use that l in \<open>auto simp: patches\<close>)
  show "normalized_image img primary backup ! i = canonical_header backup c ! (i - nat (len img - ss))"
    if "len img - ss \<le> int i"
    unfolding normalized_image_def
    by (rule nth_apply_patches_inside [OF fit]) (use that l assms(2) in \<open>auto simp: patches\<close>)
  show "normalized_image img primary backup ! i = a ! (i - nat (hdr_array_offset primary))"
    if "hdr_array_offset primary \<le> int i" "int i < hdr_array_offset primary + len a"
    unfolding normalized_image_def
    by (rule nth_apply_patches_inside [OF fit]) (use that in \<open>auto simp: patches\<close>)
  show "normalized_image img primary backup ! i = a ! (i - nat (hdr_array_offset backup))"
    if "hdr_array_offset backup \<le> int i" "int i < hdr_array_offset backup + len a"
    unfolding normalized_image_def
    by (rule nth_apply_patches_inside [OF fit]) (use that in \<open>auto simp: patches\<close>)
  show "normalized_image img primary backup ! i = img ! i"
    if "\<not> (ss \<le> int i \<and> int i < 2 * ss)" "\<not> len img - ss \<le> int i"
      "\<not> (hdr_array_offset primary \<le> int i \<and> int i < hdr_array_offset primary + len a)"
      "\<not> (hdr_array_offset backup \<le> int i \<and> int i < hdr_array_offset backup + len a)"
    unfolding normalized_image_def
    by (rule nth_apply_patches_outside [OF fit assms(2)]) (use that l in \<open>auto simp: patches\<close>)
qed

lemma nth_normalized_image_other:
  assumes "gpt_wf img ss primary backup" "i < length img" "\<not> identity_byte primary backup (int i)"
  shows "normalized_image img primary backup ! i = img ! i"
proof -
  from assms have ss: "0 < ss" and p: "header_wf img ss 1 primary"
    and b: "header_wf img ss (len img div ss - 1) backup"
    and eq: "hdr_array primary = hdr_array backup" "hdr_entry_size primary = hdr_entry_size backup"
    by (auto simp: gpt_wf_def)
  note o = gpt_wf_order [OF assms(1)]
  note nth = nth_normalized_image [OF assms(1,2)] and reg = identity_regions [OF assms(1), of "int i"]
  have ho: "hdr_header_offset backup = len img - ss" "0 \<le> len img - ss"
    using o ss assms(1) by (auto simp: gpt_wf_def)
  have la: "len (normalized_array primary) = len (hdr_array primary)"
    using length_normalized_array [OF p ss] by simp
  have off: "0 \<le> hdr_array_offset primary" "0 \<le> hdr_array_offset backup"
    using p b ss by (auto simp: header_wf_def Let_def)
  note lp = header_raw_length [OF p] and lb = header_raw_length [OF b]
  consider "ss \<le> int i" "int i < 2 * ss" | "len img - ss \<le> int i"
    | "hdr_array_offset primary \<le> int i" "int i < hdr_array_offset primary + len (hdr_array primary)"
    | "hdr_array_offset backup \<le> int i" "int i < hdr_array_offset backup + len (hdr_array primary)"
    | "\<not> (ss \<le> int i \<and> int i < 2 * ss)" "\<not> len img - ss \<le> int i"
      "\<not> (hdr_array_offset primary \<le> int i \<and> int i < hdr_array_offset primary + len (hdr_array primary))"
      "\<not> (hdr_array_offset backup \<le> int i \<and> int i < hdr_array_offset backup + len (hdr_array primary))"
    by blast
  then show ?thesis
  proof cases
    case 1
    then have j: "i - nat ss < nat ss" "nat ss + (i - nat ss) = i" using ss by linarith+
    have "canonical_header primary c ! (i - nat ss) = hdr_raw_header primary ! (i - nat ss)" for c
      using 1 assms(3) reg(1) lp j ss by (intro nth_canonical_header) (auto simp: of_nat_diff)
    then show ?thesis using nth(1) [OF 1] header_raw_nth [OF p j(1) o(6)] j by simp
  next
    case 2
    then have j: "i - nat (len img - ss) < nat ss" "nat (len img - ss) + (i - nat (len img - ss)) = i"
      using ss ho assms(2) by linarith+
    have "canonical_header backup c ! (i - nat (len img - ss)) =
        hdr_raw_header backup ! (i - nat (len img - ss))" for c
      using 2 assms(2,3) reg(2) lb j ss ho by (intro nth_canonical_header) (auto simp: of_nat_diff)
    then show ?thesis using nth(2) [OF 2] header_raw_nth [OF b j(1) ho(1)] j by simp
  next
    case 3
    let ?j = "i - nat (hdr_array_offset primary)"
    have j: "?j < length (hdr_array primary)" "nat (hdr_array_offset primary) + ?j = i"
      "int ?j = int i - hdr_array_offset primary"
      using 3 off by linarith+
    have "normalized_array primary ! ?j = hdr_array primary ! ?j"
      using nth_normalized_array [OF p ss j(1)] assms(3) reg(3) [OF 3] j by simp
    then show ?thesis using nth(3) 3 la header_array_nth [OF p ss j(1)] j by simp
  next
    case 4
    let ?j = "i - nat (hdr_array_offset backup)"
    have j: "?j < length (hdr_array primary)" "nat (hdr_array_offset backup) + ?j = i"
      "int ?j = int i - hdr_array_offset backup"
      using 4 off by linarith+
    have "normalized_array primary ! ?j = hdr_array backup ! ?j"
      using nth_normalized_array [OF p ss j(1)] assms(3) reg(4) 4 eq j by simp
    then show ?thesis using nth(4) 4 la header_array_nth [OF b ss] eq j by simp
  next
    case 5
    with nth(5) la show ?thesis by simp
  qed
qed

section \<open>Independence of the identities\<close>

text \<open>
  \<open>same_content img' img\<close>: the images have the same length and agree on every byte that is
  not an identity byte of \<open>img\<close>.
\<close>

definition same_content :: "gpt_header \<Rightarrow> gpt_header \<Rightarrow> bytes \<Rightarrow> bytes \<Rightarrow> bool" where
  "same_content primary backup img' img \<longleftrightarrow>
     length img' = length img
     \<and> (\<forall>i < length img. \<not> identity_byte primary backup (int i) \<longrightarrow> img' ! i = img ! i)"

text \<open>Fields that do not meet an identity field have the same value in both images.\<close>

lemma same_content_header_slice:
  assumes "gpt_wf img ss primary backup" "same_content primary backup img' img"
    and "0 \<le> a" "a \<le> b" "b \<le> ss" "\<And>i. a \<le> i \<Longrightarrow> i < b \<Longrightarrow> \<not> header_identity i"
  shows "py_slice img' (ss + a) (ss + b) = py_slice img (ss + a) (ss + b)"
    "py_slice img' (len img - ss + a) (len img - ss + b)
      = py_slice img (len img - ss + a) (len img - ss + b)"
proof -
  from assms(1) have ss: "0 < ss" "3 * ss \<le> len img" by (auto simp: gpt_wf_def)
  note reg = identity_regions [OF assms(1)]
  show "py_slice img' (ss + a) (ss + b) = py_slice img (ss + a) (ss + b)"
  proof (rule slice_eqI)
    fix i assume i: "ss + a \<le> int i" "int i < ss + b"
    then have "\<not> identity_byte primary backup (int i)" "i < length img"
      using reg(1) [of "int i"] assms(3-5) assms(6) [of "int i - ss"] ss by auto
    then show "img' ! i = img ! i" using assms(2) by (simp add: same_content_def)
  qed (use assms(2-5) ss in \<open>auto simp: same_content_def\<close>)
  show "py_slice img' (len img - ss + a) (len img - ss + b)
      = py_slice img (len img - ss + a) (len img - ss + b)"
  proof (rule slice_eqI)
    fix i assume i: "len img - ss + a \<le> int i" "int i < len img - ss + b"
    then have "\<not> identity_byte primary backup (int i)" "i < length img"
      using reg(2) [of "int i"] assms(3-5) assms(6) [of "int i - (len img - ss)"] ss by auto
    then show "img' ! i = img ! i" using assms(2) by (simp add: same_content_def)
  qed (use assms(2-5) ss in \<open>auto simp: same_content_def\<close>)
qed

lemma same_content_header_nth:
  assumes "gpt_wf img ss primary backup" "same_content primary backup img' img"
    and "i < nat ss" "\<not> header_identity (int i)"
  shows "img' ! (nat ss + i) = img ! (nat ss + i)"
    "img' ! (nat (len img - ss) + i) = img ! (nat (len img - ss) + i)"
proof -
  from assms(1) have ss: "0 < ss" "3 * ss \<le> len img" by (auto simp: gpt_wf_def)
  have i: "int i < ss" using assms(3) by linarith
  have "\<not> identity_byte primary backup (int (nat ss + i))"
    using identity_regions(1) [OF assms(1), of "int (nat ss + i)"] assms(4) i ss by simp
  then show "img' ! (nat ss + i) = img ! (nat ss + i)"
    using assms(2) i ss by (simp add: same_content_def)
  have "\<not> identity_byte primary backup (int (nat (len img - ss) + i))"
    using identity_regions(2) [OF assms(1), of "int (nat (len img - ss) + i)"] assms(4) i ss by simp
  moreover have "nat (len img - ss) + i < length img" using i ss by linarith
  ultimately show "img' ! (nat (len img - ss) + i) = img ! (nat (len img - ss) + i)"
    using assms(2) by (simp add: same_content_def)
qed

lemma header_le_at:
  assumes "header_wf img ss lba h" "0 \<le> a" "0 \<le> k" "a + k \<le> ss"
  shows "le_at (hdr_raw_header h) a k = le_int (py_slice img (lba * ss + a) (lba * ss + a + k))"
proof -
  have "hdr_raw_header h = py_slice img (lba * ss) (lba * ss + ss)" "0 \<le> lba * ss"
    using assms(1) by (auto simp: header_wf_def Let_def)
  with assms(2-4) show ?thesis by (simp add: le_at_def slice_slice add.assoc)
qed

text \<open>The geometry that a header declares is read from bytes outside the identity fields.\<close>

lemma read_header_fields:
  assumes "read_header img (len img) ss lba eb d = Inr h"
  shows "hdr_header_size h = le_at (hdr_raw_header h) 12 4 \<and>
    hdr_entries_lba h = le_at (hdr_raw_header h) 72 8 \<and>
    hdr_count h = le_at (hdr_raw_header h) 80 4 \<and>
    hdr_entry_size h = le_at (hdr_raw_header h) 84 4 \<and>
    py_slice (hdr_raw_header h) 0 8 = efi_part"
proof (rule read_header_Inr [OF assms])
  fix raw flds hs
  assume f: "flds = header_fields raw" and c: "check_header_bytes raw ss d = Inr hs"
    and h: "h = \<lparr>hdr_array = hdr_array h, hdr_array_offset = fld_entries_lba flds * ss,
       hdr_count = fld_count flds, hdr_disk_guid = py_slice raw 56 72,
       hdr_entry_size = fld_entry_size flds, hdr_entries_lba = fld_entries_lba flds,
       hdr_first_usable = fld_first_usable flds, hdr_header_offset = lba * ss,
       hdr_header_size = hs, hdr_last_usable = fld_last_usable flds, hdr_raw_header = raw\<rparr>"
  have "hdr_raw_header h = raw" "hdr_header_size h = hs" "hdr_entries_lba h = fld_entries_lba flds"
    "hdr_count h = fld_count flds" "hdr_entry_size h = fld_entry_size flds"
    by (subst h, simp)+
  with check_header_bytes_Inr [OF c]
  show "hdr_header_size h = le_at (hdr_raw_header h) 12 4 \<and>
    hdr_entries_lba h = le_at (hdr_raw_header h) 72 8 \<and>
    hdr_count h = le_at (hdr_raw_header h) 80 4 \<and>
    hdr_entry_size h = le_at (hdr_raw_header h) 84 4 \<and>
    py_slice (hdr_raw_header h) 0 8 = efi_part"
    by (simp add: f header_fields_def)
qed

lemma validated_gpt_Inr:
  assumes "validated_gpt img = Inr (n, ss, primary, backup)"
  shows "sector_size img (len img) = Inr ss"
    "read_header img (len img) ss 1 (len img div ss - 1) ''primary GPT'' = Inr primary"
    "read_header img (len img) ss (len img div ss - 1) 1 ''backup GPT'' = Inr backup"
  using assms by (auto simp: validated_gpt_def Let_def split: if_splits)


lemma same_content_sector_size:
  assumes "gpt_wf img ss primary backup" "same_content primary backup img' img"
    and "sector_size img (len img) = Inr ss" "sector_size img' (len img') = Inr ss'"
  shows "ss' = ss"
proof -
  have h: "\<not> header_identity i" if "0 \<le> i" "i < 8" for i
    using that by (simp add: header_identity_def)
  have ss: "ss = 512 \<or> ss = 4096" using assms(1) by (auto simp: gpt_wf_def)
  have "py_slice img ss (ss + 8) = efi_part"
    using assms(3) by (auto simp: sector_size_def Let_def split: if_splits)
  moreover have "py_slice img' (ss + 0) (ss + 8) = py_slice img (ss + 0) (ss + 8)"
    using ss h by (intro same_content_header_slice(1) [OF assms(1,2)]) auto
  ultimately have "py_slice img' ss (ss + 8) = efi_part" by simp
  moreover have "len img' = len img" using assms(2) by (simp add: same_content_def)
  ultimately show ?thesis
    using assms(3,4) ss by (auto simp: sector_size_def Let_def split: if_splits)
qed

lemma same_content_headers:
  assumes "validated_gpt img = Inr (n, ss, primary, backup)"
    and "validated_gpt img' = Inr (n', ss', primary', backup')"
    and "same_content primary backup img' img"
  shows "ss' = ss"
    and "hdr_header_size primary' = hdr_header_size primary \<and>
      hdr_entries_lba primary' = hdr_entries_lba primary \<and>
      hdr_count primary' = hdr_count primary \<and> hdr_entry_size primary' = hdr_entry_size primary"
    and "hdr_header_size backup' = hdr_header_size backup \<and>
      hdr_entries_lba backup' = hdr_entries_lba backup"
proof -
  note w = validated_gpt_wf(2) [OF assms(1)] and w' = validated_gpt_wf(2) [OF assms(2)]
  note v = validated_gpt_Inr [OF assms(1)] and v' = validated_gpt_Inr [OF assms(2)]
  have n: "len img' = len img" using assms(3) by (simp add: same_content_def)
  show ss': "ss' = ss"
    by (rule same_content_sector_size [OF w assms(3) v(1) v'(1)])
  have ss: "512 \<le> ss" "len img div ss * ss = len img"
    using w by (auto simp: gpt_wf_def)
  have lba: "(len img div ss - 1) * ss = len img - ss"
    using ss(2) by (simp add: algebra_simps)
  have hp: "header_wf img ss 1 primary" and hb: "header_wf img ss (len img div ss - 1) backup"
    and hp': "header_wf img' ss 1 primary'" and hb': "header_wf img' ss (len img div ss - 1) backup'"
    using w w' ss' n by (auto simp: gpt_wf_def)
  have id: "\<And>i. 12 \<le> i \<Longrightarrow> i < 12 + 4 \<Longrightarrow> \<not> header_identity i"
    "\<And>i. 72 \<le> i \<Longrightarrow> i < 72 + 8 \<Longrightarrow> \<not> header_identity i"
    "\<And>i. 80 \<le> i \<Longrightarrow> i < 80 + 4 \<Longrightarrow> \<not> header_identity i"
    "\<And>i. 84 \<le> i \<Longrightarrow> i < 84 + 4 \<Longrightarrow> \<not> header_identity i"
    by (auto simp: header_identity_def)
  have eq: "le_at (hdr_raw_header primary') a k = le_at (hdr_raw_header primary) a k \<and>
      le_at (hdr_raw_header backup') a k = le_at (hdr_raw_header backup) a k"
    if "0 \<le> a" "0 \<le> k" "a + k \<le> 512" "\<And>i. a \<le> i \<Longrightarrow> i < a + k \<Longrightarrow> \<not> header_identity i" for a k
    using that ss header_le_at [OF hp, of a k] header_le_at [OF hp', of a k]
      header_le_at [OF hb, of a k] header_le_at [OF hb', of a k]
      same_content_header_slice [OF w assms(3), of a "a + k"]
    by (simp add: lba add.assoc)
  have fp: "le_at (hdr_raw_header primary') 12 4 = le_at (hdr_raw_header primary) 12 4 \<and>
      le_at (hdr_raw_header backup') 12 4 = le_at (hdr_raw_header backup) 12 4"
    "le_at (hdr_raw_header primary') 72 8 = le_at (hdr_raw_header primary) 72 8 \<and>
      le_at (hdr_raw_header backup') 72 8 = le_at (hdr_raw_header backup) 72 8"
    "le_at (hdr_raw_header primary') 80 4 = le_at (hdr_raw_header primary) 80 4"
    "le_at (hdr_raw_header primary') 84 4 = le_at (hdr_raw_header primary) 84 4"
    using eq [OF _ _ _ id(1)] eq [OF _ _ _ id(2)] eq [OF _ _ _ id(3)] eq [OF _ _ _ id(4)]
    by simp_all
  show "hdr_header_size primary' = hdr_header_size primary \<and>
      hdr_entries_lba primary' = hdr_entries_lba primary \<and>
      hdr_count primary' = hdr_count primary \<and> hdr_entry_size primary' = hdr_entry_size primary"
    using read_header_fields [OF v(2)] read_header_fields [OF v'(2)] fp by simp
  show "hdr_header_size backup' = hdr_header_size backup \<and>
      hdr_entries_lba backup' = hdr_entries_lba backup"
    using read_header_fields [OF v(3)] read_header_fields [OF v'(3)] fp by simp
qed

text \<open>Both copies normalize to the same bytes.\<close>

lemma same_content_normalized_array:
  assumes "gpt_wf img ss primary backup" "gpt_wf img' ss primary' backup'"
    and "same_content primary backup img' img"
    and "hdr_entries_lba primary' = hdr_entries_lba primary"
      "hdr_count primary' = hdr_count primary" "hdr_entry_size primary' = hdr_entry_size primary"
  shows "normalized_array primary' = normalized_array primary"
proof (rule nth_equalityI)
  from assms(1,2) have ss: "0 < ss" and p: "header_wf img ss 1 primary"
    and p': "header_wf img' ss 1 primary'"
    by (auto simp: gpt_wf_def)
  have off: "hdr_array_offset primary' = hdr_array_offset primary" "0 \<le> hdr_array_offset primary"
    and fit: "hdr_array_offset primary + len (hdr_array primary) \<le> len img"
    using p p' assms(4) ss header_array_length [OF p ss] by (auto simp: header_wf_def Let_def)
  have l: "length (hdr_array primary') = length (hdr_array primary)"
    using header_array_length [OF p ss] header_array_length [OF p' ss] assms(5,6) by simp
  show "length (normalized_array primary') = length (normalized_array primary)"
    using length_normalized_array [OF p ss] length_normalized_array [OF p' ss] l by simp
  fix i assume "i < length (normalized_array primary')"
  then have i: "i < length (hdr_array primary)" "i < length (hdr_array primary')"
    using length_normalized_array [OF p' ss] l by simp_all
  have "hdr_array primary' ! i = hdr_array primary ! i"
    if "\<not> entry_identity (hdr_entry_size primary) (int i)"
  proof -
    let ?k = "nat (hdr_array_offset primary) + i"
    have "\<not> identity_byte primary backup (int ?k)" "?k < length img"
      using identity_regions(3) [OF assms(1), of "int ?k"] that off fit i by simp_all
    with assms(3) have "img' ! ?k = img ! ?k" by (simp add: same_content_def)
    with header_array_nth [OF p ss i(1)] header_array_nth [OF p' ss i(2)] off show ?thesis by simp
  qed
  then show "normalized_array primary' ! i = normalized_array primary ! i"
    using nth_normalized_array [OF p ss i(1)] nth_normalized_array [OF p' ss i(2)] assms(6) by simp
qed

lemma same_content_canonical_header:
  assumes "gpt_wf img ss primary backup" "same_content primary backup img' img"
    and "header_wf img ss lba h" "header_wf img' ss lba h'"
    and "lba * ss = ss \<or> lba * ss = len img - ss" "hdr_header_size h' = hdr_header_size h"
  shows "canonical_header h' c = canonical_header h c"
proof -
  note l = header_raw_length [OF assms(3)] and l' = header_raw_length [OF assms(4)]
  have "hdr_raw_header h' ! i = hdr_raw_header h ! i"
    if "i < length (hdr_raw_header h)" "\<not> header_identity (int i)" for i
  proof -
    have i: "i < nat ss" using that(1) l(1) by simp
    have "hdr_header_offset h = lba * ss" "hdr_header_offset h' = lba * ss"
      using assms(3,4) by (auto simp: header_wf_def Let_def)
    with header_raw_nth [OF assms(3) i] header_raw_nth [OF assms(4) i]
      same_content_header_nth [OF assms(1,2) i that(2)] assms(5)
    show ?thesis by auto
  qed
  then have "slice_assign (header_zeroed h') 88 92 (le_bytes 4 c) =
      slice_assign (header_zeroed h) 88 92 (le_bytes 4 c)"
    using l l' by (intro header_zeroed_cong) auto
  then show ?thesis by (simp add: canonical_header_alt assms(6))
qed

lemma same_content_normalized_image:
  assumes "validated_gpt img = Inr (n, ss, primary, backup)"
    and "validated_gpt img' = Inr (n', ss', primary', backup')"
    and "same_content primary backup img' img"
  shows "normalized_image img' primary' backup' = normalized_image img primary backup"
proof (rule nth_equalityI)
  note h = same_content_headers [OF assms]
  note w = validated_gpt_wf(2) [OF assms(1)]
  have w': "gpt_wf img' ss primary' backup'" using validated_gpt_wf(2) [OF assms(2)] h(1) by simp
  have n: "length img' = length img" using assms(3) by (simp add: same_content_def)
  show "length (normalized_image img' primary' backup') = length (normalized_image img primary backup)"
    using length_normalized_image [OF w] length_normalized_image [OF w'] n by simp
  fix i assume "i < length (normalized_image img' primary' backup')"
  then have i: "i < length img" "i < length img'"
    using length_normalized_image [OF w'] n by simp_all
  from w w' have ss: "0 < ss" and m: "len img mod ss = 0"
    and p: "header_wf img ss 1 primary" "header_wf img' ss 1 primary'"
    and b: "header_wf img ss (len img div ss - 1) backup"
      "header_wf img' ss (len img div ss - 1) backup'"
    using n by (auto simp: gpt_wf_def)
  have "len img div ss * ss = len img" using m by auto
  then have lba: "(len img div ss - 1) * ss = len img - ss" by (simp add: algebra_simps)
  have off: "hdr_array_offset primary' = hdr_array_offset primary"
    "hdr_array_offset backup' = hdr_array_offset backup"
    using p b h by (auto simp: header_wf_def Let_def)
  have a: "normalized_array primary' = normalized_array primary"
    using same_content_normalized_array [OF w w' assms(3)] h(2) by simp
  have c: "canonical_header primary' c = canonical_header primary c"
    "canonical_header backup' c = canonical_header backup c" for c
    using same_content_canonical_header [OF w assms(3) p] same_content_canonical_header [OF w assms(3) b]
      h lba by simp_all
  note nth = nth_normalized_image [OF w i(1)] nth_normalized_image [OF w' i(2), unfolded off a c n]
  let ?in = "ss \<le> int i \<and> int i < 2 * ss \<or> len img - ss \<le> int i
      \<or> hdr_array_offset primary \<le> int i \<and> int i < hdr_array_offset primary + len (normalized_array primary)
      \<or> hdr_array_offset backup \<le> int i \<and> int i < hdr_array_offset backup + len (normalized_array primary)"
  show "normalized_image img' primary' backup' ! i = normalized_image img primary backup ! i"
  proof (cases ?in)
    case True
    then show ?thesis using nth by metis
  next
    case False
    then have "\<not> identity_byte primary backup (int i)"
      using gpt_wf_order [OF w] header_raw_length [OF p(1)] header_raw_length [OF b(1)]
        length_normalized_array [OF p(1) ss] w
      by (auto simp: identity_byte_def copy_identity_def gpt_wf_def)
    with i assms(3) have "img' ! i = img ! i" by (simp add: same_content_def)
    with False nth show ?thesis by metis
  qed
qed

section \<open>Properties of the canonical hash\<close>

text \<open>
  C6: on every image whose metadata projects, the canonical hash is computed without an error
  (in particular the overlap error cannot occur), and it is the SHA-256 of a byte string of the
  image's length that differs from the image at most in the header CRCs, the array CRCs, the disk GUID
  and the unique partition GUIDs of the two GPT copies: every other byte is hashed as it is.
\<close>

theorem canonical_hash_covers_content:
  assumes "project_image img ''uefi'' slot_label = Inr md"
    and "validated_gpt img = Inr (n, ss, primary, backup)"
  shows "\<exists>norm. canonical_image_sha256 sha256 img slot_label = Inr (hex (sha256 norm))
    \<and> length norm = length img
    \<and> (\<forall>i < length img. \<not> identity_byte primary backup (int i) \<longrightarrow> norm ! i = img ! i)"
proof (intro exI conjI)
  show "canonical_image_sha256 sha256 img slot_label =
      Inr (hex (sha256 (normalized_image img primary backup)))"
    using canonical_image_sha256_reference [OF assms] by (simp add: normalized_image_def)
  show "length (normalized_image img primary backup) = length img"
    by (rule length_normalized_image [OF validated_gpt_wf(2) [OF assms(2)]])
  show "\<forall>i < length img. \<not> identity_byte primary backup (int i) \<longrightarrow>
      normalized_image img primary backup ! i = img ! i"
    using nth_normalized_image_other [OF validated_gpt_wf(2) [OF assms(2)]] by blast
qed

text \<open>
  C7: the canonical hash does not depend on the GPT identities. If two images that both project
  have the same length and agree on every byte outside the CRC, disk GUID and unique partition
  GUID fields, then their canonical hashes are equal.
\<close>

theorem canonical_hash_identity_independent:
  assumes "project_image img ''uefi'' slot_label = Inr md"
    and "project_image img' ''uefi'' slot_label = Inr md'"
    and "validated_gpt img = Inr (n, ss, primary, backup)"
    and "same_content primary backup img' img"
  shows "canonical_image_sha256 sha256 img' slot_label = canonical_image_sha256 sha256 img slot_label"
proof -
  from assms(2) obtain primary' backup' where
    v': "validated_gpt img' = Inr (len img', md_sector_size md', primary', backup')"
    by (rule project_image_Inr)
  show ?thesis
    using canonical_image_sha256_reference [OF assms(1,3)] canonical_image_sha256_reference [OF assms(2) v']
      same_content_normalized_image [OF assms(3) v' assms(4)]
    by (simp add: normalized_image_def)
qed

end
