(* ===== verification/Gpt_Fixture.thy ===== *)
theory Gpt_Fixture
  imports Gpt_Canonical
begin

text \<open>
  A smallest disk that the GPT validator accepts: 2051 sectors of 512 bytes with one
  one-sector root partition at 1 MiB. The disk GUID and the unique GUID of the partition are
  parameters, so that the same disk can be written with different identities. It instantiates
  the hypotheses of the theorems about validated images.
\<close>

definition demo_type :: bytes where
  "demo_type =
     [0xe3, 0xbc, 0x68, 0x4f, 0xcd, 0xe8, 0xb1, 0x4d, 0x96, 0xe7, 0xfb, 0xca, 0xf9, 0x84, 0xb7, 0x09]"

definition demo_label :: bytes where
  "demo_label =
     [0x72, 0, 0x6f, 0, 0x6f, 0, 0x74, 0, 0x2d, 0, 0x78, 0, 0x38, 0, 0x36, 0, 0x2d, 0, 0x36, 0,
      0x34, 0, 0, 0] @ zeros 48"

definition demo_entry :: "bytes \<Rightarrow> bytes" where
  "demo_entry part_guid =
     demo_type @ part_guid @ le_bytes 8 2048 @ le_bytes 8 2048 @ zeros 8 @ demo_label"

definition demo_head :: bytes where
  "demo_head = efi_part @ le_bytes 4 0x10000 @ le_bytes 4 92"

definition demo_tail :: "bytes \<Rightarrow> bytes \<Rightarrow> int \<Rightarrow> int \<Rightarrow> int \<Rightarrow> bytes" where
  "demo_tail disk_guid entry lba other entries =
     zeros 4 @ le_bytes 8 lba @ le_bytes 8 other @ le_bytes 8 3 @ le_bytes 8 2048 @ disk_guid
     @ le_bytes 8 entries @ le_bytes 4 1 @ le_bytes 4 128 @ le_bytes 4 (crc32 entry)"

definition demo_header :: "bytes \<Rightarrow> bytes \<Rightarrow> int \<Rightarrow> int \<Rightarrow> int \<Rightarrow> bytes" where
  "demo_header disk_guid entry lba other entries =
     (let rest = demo_tail disk_guid entry lba other entries
      in demo_head @ le_bytes 4 (crc32 (demo_head @ zeros 4 @ rest)) @ rest @ zeros 420)"

definition demo_image :: "bytes \<Rightarrow> bytes \<Rightarrow> bytes" where
  "demo_image disk_guid part_guid =
     (let entry = demo_entry part_guid
      in zeros 512 @ demo_header disk_guid entry 1 2050 2 @ (entry @ zeros 384) @ zeros 1047040
         @ zeros 512 @ (entry @ zeros 384) @ demo_header disk_guid entry 2050 1 2049)"

lemma length_efi_part [simp]: "length efi_part = 8"
  by (simp add: efi_part_def)

lemma length_demo_parts [simp]: "length demo_type = 16" "length demo_label = 72"
  by (simp_all add: demo_type_def demo_label_def)

lemma length_demo_entry [simp]: "length pg = 16 \<Longrightarrow> length (demo_entry pg) = 128"
  by (simp add: demo_entry_def)

lemma length_demo_tail [simp]: "length dg = 16 \<Longrightarrow> length (demo_tail dg e l ot en) = 72"
  by (simp add: demo_tail_def)

lemma length_demo_head [simp]: "length demo_head = 16"
  by (simp add: demo_head_def)

lemma length_demo_header [simp]: "length dg = 16 \<Longrightarrow> length (demo_header dg e l ot en) = 512"
  by (simp add: demo_header_def Let_def)

lemma length_demo_image [simp]:
  "length dg = 16 \<Longrightarrow> length pg = 16 \<Longrightarrow> length (demo_image dg pg) = 1050112"
  by (simp add: demo_image_def Let_def)

text \<open>The sectors that the validator reads.\<close>

lemma demo_image_slices:
  assumes "length dg = 16" "length pg = 16"
  shows "py_slice (demo_image dg pg) 512 1024 = demo_header dg (demo_entry pg) 1 2050 2"
    "py_slice (demo_image dg pg) 1049600 1050112 = demo_header dg (demo_entry pg) 2050 1 2049"
    "py_slice (demo_image dg pg) 1024 1152 = demo_entry pg"
    "py_slice (demo_image dg pg) 1049088 1049216 = demo_entry pg"
    "py_slice (demo_image dg pg) 512 520 = efi_part"
  using assms
  by (simp_all add: demo_image_def Let_def slice_simps demo_header_def demo_head_def)

lemma demo_header_bytes:
  assumes "length dg = 16"
  shows "check_header_bytes (demo_header dg e l ot en) 512 d = Inr 92"
proof -
  let ?h = "demo_header dg e l ot en"
  have "py_slice ?h 0 92 = demo_head @ le_bytes 4 (crc32 (demo_head @ zeros 4 @ demo_tail dg e l ot en))
      @ demo_tail dg e l ot en"
    using assms by (simp add: demo_header_def Let_def slice_simps)
  then have "slice_assign (py_slice ?h 0 92) 16 20 (zeros 4) = demo_head @ zeros 4 @ demo_tail dg e l ot en"
    using assms by (simp add: slice_assign_def)
  moreover have "le_at ?h 16 4 = crc32 (demo_head @ zeros 4 @ demo_tail dg e l ot en)"
    using assms crc32_bounds [of "demo_head @ zeros 4 @ demo_tail dg e l ot en"]
    by (simp add: le_at_def demo_header_def Let_def slice_simps)
  moreover have "le_at ?h 8 4 = 0x10000" "le_at ?h 12 4 = 92" "py_slice ?h 0 8 = efi_part"
    by (simp_all add: le_at_def demo_header_def demo_head_def Let_def slice_simps)
  moreover have "py_slice ?h 20 24 = zeros 4"
    using assms by (simp add: demo_header_def demo_tail_def Let_def slice_simps)
  ultimately show ?thesis
    by (simp add: check_header_bytes_def Let_def HEADER_MIN_def)
qed

lemma demo_header_fields:
  assumes "length dg = 16" "0 \<le> l" "l < 4096" "0 \<le> ot" "ot < 4096" "0 \<le> en" "en < 4096"
  shows "header_fields (demo_header dg e l ot en) =
    \<lparr>fld_array_crc = crc32 e, fld_backup = ot, fld_count = 1, fld_current = l,
     fld_entries_lba = en, fld_entry_size = 128, fld_first_usable = 3, fld_last_usable = 2048\<rparr>"
  using assms crc32_bounds [of e]
  by (simp add: header_fields_def le_at_def demo_header_def demo_tail_def Let_def slice_simps)

definition demo_gpt :: "bytes \<Rightarrow> bytes \<Rightarrow> int \<Rightarrow> int \<Rightarrow> int \<Rightarrow> gpt_header" where
  "demo_gpt dg pg lba other entries =
     \<lparr>hdr_array = demo_entry pg, hdr_array_offset = entries * 512, hdr_count = 1,
      hdr_disk_guid = dg, hdr_entry_size = 128, hdr_entries_lba = entries, hdr_first_usable = 3,
      hdr_header_offset = lba * 512, hdr_header_size = 92, hdr_last_usable = 2048,
      hdr_raw_header = demo_header dg (demo_entry pg) lba other entries\<rparr>"

lemma demo_header_guid:
  "length dg = 16 \<Longrightarrow> py_slice (demo_header dg e l ot en) 56 72 = dg"
  by (simp add: demo_header_def demo_tail_def Let_def slice_simps)

lemma demo_read_header:
  assumes "length dg = 16" "length pg = 16"
  shows "read_header (demo_image dg pg) 1050112 512 1 2050 d = Inr (demo_gpt dg pg 1 2050 2)"
    "read_header (demo_image dg pg) 1050112 512 2050 1 d = Inr (demo_gpt dg pg 2050 1 2049)"
proof -
  note sl = demo_image_slices [OF assms] demo_header_guid [OF assms(1)] demo_header_bytes [OF assms(1)]
  have f: "header_fields (demo_header dg (demo_entry pg) 1 2050 2) =
    \<lparr>fld_array_crc = crc32 (demo_entry pg), fld_backup = 2050, fld_count = 1, fld_current = 1,
     fld_entries_lba = 2, fld_entry_size = 128, fld_first_usable = 3, fld_last_usable = 2048\<rparr>"
    "header_fields (demo_header dg (demo_entry pg) 2050 1 2049) =
    \<lparr>fld_array_crc = crc32 (demo_entry pg), fld_backup = 1, fld_count = 1, fld_current = 2050,
     fld_entries_lba = 2049, fld_entry_size = 128, fld_first_usable = 3, fld_last_usable = 2048\<rparr>"
    using demo_header_fields [OF assms(1)] by simp_all
  have r: "read_exact (demo_image dg pg) 512 512 1050112 d
      = Inr (demo_header dg (demo_entry pg) 1 2050 2)"
    "read_exact (demo_image dg pg) 1049600 512 1050112 d
      = Inr (demo_header dg (demo_entry pg) 2050 1 2049)"
    "read_exact (demo_image dg pg) 1024 128 1050112 d = Inr (demo_entry pg)"
    "read_exact (demo_image dg pg) 1049088 128 1050112 d = Inr (demo_entry pg)" for d
    using assms by (simp_all add: read_exact_def sl)
  show "read_header (demo_image dg pg) 1050112 512 1 2050 d = Inr (demo_gpt dg pg 1 2050 2)"
    by (simp add: read_header_def r sl f check_header_geometry_def check_array_location_def
        require_all.simps MAX_ENTRIES_def MAX_ARRAY_BYTES_def demo_gpt_def)
  show "read_header (demo_image dg pg) 1050112 512 2050 1 d = Inr (demo_gpt dg pg 2050 1 2049)"
    by (simp add: read_header_def r sl f check_header_geometry_def check_array_location_def
        require_all.simps MAX_ENTRIES_def MAX_ARRAY_BYTES_def demo_gpt_def)
qed

lemma demo_validated:
  assumes "length dg = 16" "length pg = 16"
  shows "validated_gpt (demo_image dg pg) =
    Inr (1050112, 512, demo_gpt dg pg 1 2050 2, demo_gpt dg pg 2050 1 2049)"
proof -
  have "sector_size (demo_image dg pg) 1050112 = Inr 512"
    using assms by (simp add: sector_size_def demo_image_slices)
  with assms show ?thesis
    by (simp add: validated_gpt_def Let_def demo_read_header)
      (simp add: demo_gpt_def)
qed

definition demo_partition :: partition where
  "demo_partition =
     \<lparr>label = ascii ''root-x86-64'', number = 1, size_bytes = 512, start_bytes = 1048576,
      type_guid = ROOT_X86_64, part_uuid = None\<rparr>"

lemma demo_type_guid: "uuid_le_str demo_type = ROOT_X86_64" "demo_type \<noteq> zeros 16"
  by (simp_all add: demo_type_def uuid_le_str_def uuid_str_def slice_nonneg hex_def hex_byte_def
      hex_digit_def ROOT_X86_64_def zeros_unfold)

lemma demo_label_text: "map_option before_nul (decode_utf16 demo_label) = Some (ascii ''root-x86-64'')"
  by (simp add: demo_label_def decode_utf16_def zeros_unfold before_nul_def ascii_def
    low_surrogate_def high_surrogate_def)

lemma demo_entry_slices:
  assumes "length pg = 16"
  shows "py_slice (demo_entry pg) 0 16 = demo_type" "py_slice (demo_entry pg) 56 128 = demo_label"
    "le_at (demo_entry pg) 32 8 = 2048" "le_at (demo_entry pg) 40 8 = 2048"
  using assms by (simp_all add: demo_entry_def le_at_def slice_simps)

lemma demo_project_entries:
  assumes "length pg = 16"
  shows "project_entries (demo_gpt dg pg 1 2050 2) 512 False None [0] = Inr [demo_partition]"
proof -
  have e: "entry_at (demo_gpt dg pg 1 2050 2) 0 = demo_entry pg"
    using assms by (simp add: entry_at_def demo_gpt_def slice_simps)
  obtain cs where t: "decode_utf16 demo_label = Some cs" "before_nul cs = ascii ''root-x86-64''"
    using demo_label_text by auto
  have "check_entry_range 1 2048 2048 (demo_gpt dg pg 1 2050 2) None = Inr ()"
    by (simp add: check_entry_range_def demo_gpt_def)
  with assms show ?thesis
    by (simp add: e demo_entry_slices demo_type_guid project_entry_def ALIGNMENT_def t
        demo_partition_def)
qed

definition demo_metadata :: partition_metadata where
  "demo_metadata =
     \<lparr>md_firmware = ''uefi'', md_format_version = ''mkosi-partition-metadata-v1'',
      md_partitions = [demo_partition], md_sector_size = 512\<rparr>"

lemma demo_project_image:
  assumes "length dg = 16" "length pg = 16"
  shows "project_image (demo_image dg pg) ''uefi'' None = Inr demo_metadata"
proof -
  have "hdr_count (demo_gpt dg pg 1 2050 2) = 1" by (simp add: demo_gpt_def)
  with assms demo_project_entries [OF assms(2), of dg] show ?thesis
    by (simp add: project_image_def demo_validated validate_roots_def validate_firmware_def
        demo_metadata_def) (simp add: demo_partition_def)
qed

section \<open>The same disk with other identities\<close>

lemma demo_header_nth:
  assumes "length dg = 16" "length dg' = 16" "j < 512" "\<not> header_identity (int j)"
  shows "demo_header dg' e' l ot en ! j = demo_header dg e l ot en ! j"
proof -
  consider "j < 16" | "20 \<le> j" "j < 56" | "72 \<le> j" "j < 88" | "92 \<le> j"
    using assms(4) by (force simp: header_identity_def)
  then show ?thesis
    using assms(1-3) unfolding demo_header_def demo_tail_def Let_def
    by cases (simp_all add: nth_append less_diff_conv2)
qed

lemma demo_entry_nth:
  assumes "length pg = 16" "length pg' = 16" "j < 128" "\<not> entry_identity 128 (int j)"
  shows "demo_entry pg' ! j = demo_entry pg ! j"
proof -
  consider "j < 16" | "32 \<le> j" using assms(3,4) by (force simp: entry_identity_def)
  then show ?thesis
    using assms(1-3) unfolding demo_entry_def by cases (simp_all add: nth_append less_diff_conv2)
qed

lemma demo_same_content:
  assumes "length dg = 16" "length pg = 16" "length dg' = 16" "length pg' = 16"
  shows "same_content (demo_gpt dg pg 1 2050 2) (demo_gpt dg pg 2050 1 2049)
    (demo_image dg' pg') (demo_image dg pg)"
  unfolding same_content_def
proof (intro conjI allI impI)
  show "length (demo_image dg' pg') = length (demo_image dg pg)" using assms by simp
  fix i assume i: "i < length (demo_image dg pg)"
    and n: "\<not> identity_byte (demo_gpt dg pg 1 2050 2) (demo_gpt dg pg 2050 1 2049) (int i)"
  have h: "512 \<le> i \<Longrightarrow> i < 1024 \<Longrightarrow> \<not> header_identity (int (i - 512))"
    "1049600 \<le> i \<Longrightarrow> i < 1050112 \<Longrightarrow> \<not> header_identity (int (i - 1049600))"
    "1024 \<le> i \<Longrightarrow> i < 1152 \<Longrightarrow> \<not> entry_identity 128 (int (i - 1024))"
    "1049088 \<le> i \<Longrightarrow> i < 1049216 \<Longrightarrow> \<not> entry_identity 128 (int (i - 1049088))"
    using n assms by (auto simp: identity_byte_def copy_identity_def demo_gpt_def of_nat_diff)
  note hd = demo_header_nth [OF assms(1,3)] and en = demo_entry_nth [OF assms(2,4)]
  consider "i < 512" | "512 \<le> i" "i < 1024" | "1024 \<le> i" "i < 1152" | "1152 \<le> i" "i < 1049088"
    | "1049088 \<le> i" "i < 1049216" | "1049216 \<le> i" "i < 1049600" | "1049600 \<le> i" "i < 1050112"
    using i assms by force
  then show "demo_image dg' pg' ! i = demo_image dg pg ! i"
    using assms h hd [of "i - 512"] hd [of "i - 1049600"] en [of "i - 1024"] en [of "i - 1049088"]
    unfolding demo_image_def Let_def by cases (simp_all add: nth_append less_diff_conv2)
qed

section \<open>Witnesses\<close>

definition other_guid :: bytes where
  "other_guid = replicate 16 1"

lemma guid_lengths [simp]: "length other_guid = 16"
  by (simp add: other_guid_def)

theorem project_image_layout_witness:
  "project_image (demo_image (zeros 16) other_guid) ''uefi'' None = Inr demo_metadata
   \<and> hdr_array_offset (demo_gpt (zeros 16) other_guid 1 2050 2) + 128 \<le> start_bytes demo_partition
   \<and> start_bytes demo_partition + size_bytes demo_partition
       \<le> hdr_array_offset (demo_gpt (zeros 16) other_guid 2050 1 2049)"
proof -
  have p: "project_image (demo_image (zeros 16) other_guid) ''uefi'' None = Inr demo_metadata"
    by (simp add: demo_project_image)
  have v: "validated_gpt (demo_image (zeros 16) other_guid) = Inr (1050112, 512,
      demo_gpt (zeros 16) other_guid 1 2050 2, demo_gpt (zeros 16) other_guid 2050 1 2049)"
    by (simp add: demo_validated)
  have "md_partitions demo_metadata = [demo_partition]"
    "len (hdr_array (demo_gpt (zeros 16) other_guid 1 2050 2)) = 128"
    by (simp_all add: demo_metadata_def demo_gpt_def)
  with p project_image_layout [OF p v] show ?thesis by simp
qed

theorem canonical_hash_covers_content_witness:
  "\<exists>norm. canonical_image_sha256 (\<lambda>bs. le_bytes 32 (le_int bs)) (demo_image (zeros 16) other_guid) None
      = Inr (hex (le_bytes 32 (le_int norm)))
    \<and> length norm = 1050112 \<and> norm ! 512 = 0x45"
proof -
  have v: "validated_gpt (demo_image (zeros 16) other_guid) = Inr (1050112, 512,
      demo_gpt (zeros 16) other_guid 1 2050 2, demo_gpt (zeros 16) other_guid 2050 1 2049)"
    by (simp add: demo_validated)
  have p: "project_image (demo_image (zeros 16) other_guid) ''uefi'' None = Inr demo_metadata"
    by (simp add: demo_project_image)
  have b: "demo_image (zeros 16) other_guid ! 512 = 0x45"
    by (simp add: demo_image_def demo_header_def demo_head_def efi_part_def Let_def nth_append)
  have "\<not> identity_byte (demo_gpt (zeros 16) other_guid 1 2050 2)
      (demo_gpt (zeros 16) other_guid 2050 1 2049) (int 512)"
    by (simp add: identity_byte_def copy_identity_def demo_gpt_def header_identity_def)
  moreover have "512 < length (demo_image (zeros 16) other_guid)" by simp
  ultimately show ?thesis
    using canonical_hash_covers_content [OF p v, of "\<lambda>bs. le_bytes 32 (le_int bs)"] b
    by (metis length_demo_image length_zeros' guid_lengths)
qed

theorem canonical_hash_identity_independent_witness:
  "canonical_image_sha256 (\<lambda>bs. le_bytes 32 (le_int bs)) (demo_image other_guid (zeros 16)) None
    = canonical_image_sha256 (\<lambda>bs. le_bytes 32 (le_int bs)) (demo_image (zeros 16) other_guid) None"
  by (rule canonical_hash_identity_independent
      [where primary = "demo_gpt (zeros 16) other_guid 1 2050 2"
        and backup = "demo_gpt (zeros 16) other_guid 2050 1 2049"
        and md = demo_metadata and md' = demo_metadata and n = 1050112 and ss = 512])
    (simp_all add: demo_project_image demo_validated demo_same_content)

definition demo_slot :: "ustr \<Rightarrow> string \<Rightarrow> int \<Rightarrow> partition" where
  "demo_slot lbl guid bytes =
     \<lparr>label = lbl, number = 1, size_bytes = bytes, start_bytes = 0, type_guid = guid, part_uuid = None\<rparr>"

theorem validate_ab_slots_iff_witness:
  "validate_ab_slots
     [demo_slot (ascii ''os_1'') ROOT_X86_64 8, demo_slot (ascii ''os_1_verity'') ROOT_X86_64_VERITY 4,
      demo_slot EMPTY_SLOT_LABEL ROOT_X86_64 8] (ascii ''os_1'') = Inr ()"
  unfolding validate_ab_slots_iff
  by (simp add: demo_slot_def ROOT_X86_64_def ROOT_X86_64_VERITY_def EMPTY_SLOT_LABEL_def ascii_def)

end
