(* ===== verification/Esp_Reader.thy ===== *)
theory Esp_Reader
  imports Bounded_Reader
begin

text \<open>
  The ESP reader \<^verbatim>\<open>mkosi/private/esp_manifest/rules_mkosi_esp_manifest.py\<close>: it finds the EFI
  system partition in the GPT of a raw image and reads its FAT12, FAT16 or FAT32 file system.
  An open image is the content of its file. Text is a list of code points; the case mappings
  \<^verbatim>\<open>str.upper\<close> and \<^verbatim>\<open>str.lower\<close>, tables of the Unicode database, are parameters.
\<close>

section \<open>Constants, errors and records\<close>

definition ESP_MANIFEST_PATH :: ustr where
  "ESP_MANIFEST_PATH = ascii ''loader/rules_mkosi-secure-boot.json''"

definition ESP_MANIFEST_FORMAT :: ustr where
  "ESP_MANIFEST_FORMAT = ascii ''mkosi-secure-boot-esp-manifest-v1''"

definition ESP_TYPE_GUID :: string where
  "ESP_TYPE_GUID = ''c12a7328-f81f-11d2-ba4b-00a0c93ec93b''"

definition GPT_SECTOR_SIZES :: "int list" where "GPT_SECTOR_SIZES = [512, 4096]"
definition MAX_GPT_ARRAY_BYTES :: int where "MAX_GPT_ARRAY_BYTES = push_bit 20 4"
definition DIRECTORY_ENTRY :: int where "DIRECTORY_ENTRY = 32"
definition MAX_DIRECTORY_BYTES :: int where "MAX_DIRECTORY_BYTES = 65536 * DIRECTORY_ENTRY"
definition ATTRIBUTE_VOLUME_LABEL :: byte where "ATTRIBUTE_VOLUME_LABEL = 0x08"
definition ATTRIBUTE_DIRECTORY :: byte where "ATTRIBUTE_DIRECTORY = 0x10"
definition ATTRIBUTE_LONG_NAME :: byte where "ATTRIBUTE_LONG_NAME = 0x0F"
definition LAST_LONG_NAME_SLOT :: byte where "LAST_LONG_NAME_SLOT = 0x40"
definition MAX_LONG_NAME_SLOTS :: int where "MAX_LONG_NAME_SLOTS = 20"
definition DELETED :: byte where "DELETED = 0xE5"
definition FAT12_CLUSTER_LIMIT :: int where "FAT12_CLUSTER_LIMIT = 4085"

definition END_OF_CHAIN :: "int \<Rightarrow> int" where
  "END_OF_CHAIN bits = (if bits = 12 then 0xFF8 else if bits = 16 then 0xFFF8 else 0x0FFFFFF8)"

text \<open>
  One constructor per \<^verbatim>\<open>raise\<close>, with the values that its message formats. \<open>Struct_error\<close> is the
  \<^verbatim>\<open>struct.error\<close> of an out-of-range \<^verbatim>\<open>unpack_from\<close>, which no handler of the module catches.
\<close>

datatype esp_error =
    Beyond_end ustr int
  | Short_read ustr int
  | No_protective_mbr
  | No_gpt_header
  | Bad_header_size int
  | Bad_header_crc
  | Bad_array_shape int int
  | Array_outside int
  | Bad_array_crc
  | Esp_count int
  | Esp_outside
  | Bad_boot_sector
  | Fat_larger_than_partition
  | No_clusters
  | Fat_too_small int
  | Invalid_cluster ustr int
  | Chain_loops ustr int
  | Chain_length ustr int int int
  | Too_many_entries ustr
  | Cross_linked ustr int
  | Directories_too_large
  | Manifest_not_json
  | Manifest_format
  | Names_no_file ustr
  | Not_a_directory ustr ustr
  | No_file ustr
  | Is_a_directory ustr
  | Struct_error

text \<open>\<open>EspFileNotFoundError\<close>; every other constructor but \<open>Struct_error\<close> is \<open>InvalidImageError\<close>.\<close>

fun not_found_error :: "esp_error \<Rightarrow> bool" where
  "not_found_error (Names_no_file p) \<longleftrightarrow> True"
| "not_found_error (Not_a_directory p n) \<longleftrightarrow> True"
| "not_found_error (No_file p) \<longleftrightarrow> True"
| "not_found_error (Is_a_directory p) \<longleftrightarrow> True"
| "not_found_error _ \<longleftrightarrow> False"

record Partition =
  p_offset :: int
  p_size :: int
  p_sector_size :: int

datatype EspFile = EspFile (ef_path: ustr) (ef_size: int)

record Entry =
  e_name :: ustr
  e_short_name :: ustr
  e_attributes :: byte
  e_cluster :: int
  e_size :: int

definition is_directory :: "Entry \<Rightarrow> bool" where
  "is_directory e \<longleftrightarrow> e_attributes e AND ATTRIBUTE_DIRECTORY \<noteq> 0"

record Geometry =
  g_fat32 :: bool
  g_fat_offset :: int
  g_fat_size :: int
  g_root_offset :: int
  g_root_size :: int
  g_root_cluster :: int
  g_data_offset :: int
  g_cluster_size :: int
  g_clusters :: int

text \<open>The files of a listing are compared as the tuples they are: by path, then by size.\<close>

instantiation EspFile :: linorder
begin

definition less_eq_EspFile :: "EspFile \<Rightarrow> EspFile \<Rightarrow> bool" where
  "less_eq_EspFile f g \<longleftrightarrow> (ef_path f, ef_size f) \<le> (ef_path g, ef_size g)"

definition less_EspFile :: "EspFile \<Rightarrow> EspFile \<Rightarrow> bool" where
  "less_EspFile f g \<longleftrightarrow> (ef_path f, ef_size f) < (ef_path g, ef_size g)"

instance
  by standard (auto simp: less_eq_EspFile_def less_EspFile_def intro: EspFile.expand)

end

section \<open>Reading the image and its GPT\<close>

definition image_read :: "bytes \<Rightarrow> int \<Rightarrow> int \<Rightarrow> ustr \<Rightarrow> esp_error + bytes" where
  "image_read img offset sz what =
     (if offset < 0 \<or> sz < 0 \<or> offset + sz > len img then Inl (Beyond_end what offset)
      else
        let data = py_slice img offset (offset + sz)
        in if len data \<noteq> sz then Inl (Short_read what offset) else Inr data)"

interpretation esp_read: bounded_reader img "image_read img" for img
  by unfold_locales (auto simp: image_read_def Let_def length_slice)

definition gpt_magic :: bytes where
  "gpt_magic = [0x45, 0x46, 0x49, 0x20, 0x50, 0x41, 0x52, 0x54]"

fun find_sector_size :: "bytes \<Rightarrow> int list \<Rightarrow> esp_error + int" where
  "find_sector_size img [] = Inl No_gpt_header"
| "find_sector_size img (sector_size # sizes) =
     (if len img \<ge> 2 * sector_size then
        rbind (image_read img sector_size 8 (ascii ''the GPT header'')) (\<lambda>magic.
          if magic = gpt_magic then Inr sector_size else find_sector_size img sizes)
      else find_sector_size img sizes)"

definition gpt_sector_size :: "bytes \<Rightarrow> esp_error + int" where
  "gpt_sector_size img =
     rbind (image_read img 0 512 (ascii ''the protective MBR'')) (\<lambda>mbr.
       let types = map (\<lambda>index. mbr ! (446 + 16 * index + 4)) [0..<4]
       in if py_slice mbr 510 512 \<noteq> [0x55, 0xAA] \<or> 0xEE \<notin> set types then Inl No_protective_mbr
          else find_sector_size img GPT_SECTOR_SIZES)"

definition gpt_entries :: "bytes \<Rightarrow> int \<Rightarrow> esp_error + bytes list" where
  "gpt_entries img sector_size =
     rbind (image_read img sector_size sector_size (ascii ''the GPT header'')) (\<lambda>header.
     let header_size = le_at header 12 4; header_crc = le_at header 16 4
     in if \<not> (92 \<le> header_size \<and> header_size \<le> sector_size) then Inl (Bad_header_size header_size)
     else if crc32 (py_slice header 0 16 @ zeros 4 @ py_slice header 20 header_size) \<noteq> header_crc
     then Inl Bad_header_crc
     else
       let array_lba = le_at header 72 8; cnt = le_at header 80 4;
           entry_size = le_at header 84 4; array_crc = le_at header 88 4
       in if entry_size < 128 \<or> entry_size mod 8 \<noteq> 0 \<or> cnt * entry_size > MAX_GPT_ARRAY_BYTES
       then Inl (Bad_array_shape cnt entry_size)
       else
         let array_offset = array_lba * sector_size
         in if array_lba < 2 \<or> array_offset + cnt * entry_size > len img
         then Inl (Array_outside array_lba)
         else rbind (image_read img array_offset (cnt * entry_size) (ascii ''the GPT partition array''))
           (\<lambda>array. if crc32 array \<noteq> array_crc then Inl Bad_array_crc
             else Inr (map (\<lambda>start. py_slice array start (start + entry_size))
               (py_range 0 (len array) entry_size))))"

definition esp_partition :: "int \<Rightarrow> bytes \<Rightarrow> Partition" where
  "esp_partition sector_size entry =
     (let first_lba = le_at entry 32 8; last_lba = le_at entry 40 8
      in \<lparr>p_offset = first_lba * sector_size,
          p_size = (last_lba - first_lba + 1) * sector_size,
          p_sector_size = sector_size\<rparr>)"

definition find_esp :: "bytes \<Rightarrow> esp_error + Partition" where
  "find_esp img =
     rbind (gpt_sector_size img) (\<lambda>sector_size.
     rbind (gpt_entries img sector_size) (\<lambda>entries.
       let esps = map (esp_partition sector_size)
             (filter (\<lambda>entry. uuid_le_str (py_slice entry 0 16) = ESP_TYPE_GUID) entries)
       in case esps of
            [esp] \<Rightarrow>
              (if p_offset esp < 2 * sector_size \<or> p_size esp \<le> 0
                 \<or> p_offset esp + p_size esp > len img
               then Inl Esp_outside else Inr esp)
          | _ \<Rightarrow> Inl (Esp_count (len esps))))"

section \<open>Geometry of a FAT file system\<close>

definition geometry :: "bytes \<Rightarrow> Partition \<Rightarrow> esp_error + Geometry" where
  "geometry boot part =
     (let sector = le_at boot 11 2; per_cluster = le_at boot 13 1; reserved = le_at boot 14 2;
          fats = le_at boot 16 1; root_entries = le_at boot 17 2; total16 = le_at boot 19 2;
          fat_size16 = le_at boot 22 2;
          total32 = le_at boot 32 4; fat_size32 = le_at boot 36 4; root_cluster = le_at boot 44 4;
          fat32 = (fat_size16 = 0);
          fat_size = (if fat32 then fat_size32 else fat_size16) * sector;
          total = (if total16 \<noteq> 0 then total16 else total32) * sector;
          valid = (py_slice boot 510 512 = [0x55, 0xAA]
            \<and> sector \<in> {512, 1024, 2048, 4096}
            \<and> per_cluster \<in> {1, 2, 4, 8, 16, 32, 64, 128}
            \<and> reserved > 0 \<and> fats > 0 \<and> fat_size > 0
            \<and> (root_entries = 0) = fat32)
      in if \<not> valid then Inl Bad_boot_sector
      else if total > p_size part then Inl Fat_larger_than_partition
      else
        let root_offset = reserved * sector + fats * fat_size;
            root_size = root_entries * DIRECTORY_ENTRY;
            data_offset = root_offset + - ((- root_size) div sector) * sector;
            cluster_size = per_cluster * sector;
            clusters = max (total - data_offset) 0 div cluster_size
        in if clusters = 0 then Inl No_clusters
        else Inr \<lparr>g_fat32 = fat32,
          g_fat_offset = p_offset part + reserved * sector,
          g_fat_size = fat_size,
          g_root_offset = p_offset part + root_offset,
          g_root_size = root_size,
          g_root_cluster = (if fat32 then root_cluster else 0),
          g_data_offset = p_offset part + data_offset,
          g_cluster_size = cluster_size,
          g_clusters = clusters\<rparr>)"

section \<open>Names\<close>

definition short_name_checksum :: "bytes \<Rightarrow> int" where
  "short_name_checksum raw_name =
     foldl (\<lambda>checksum b. (push_bit 7 (checksum AND 1) + drop_bit 1 checksum + uint b) AND 0xFF)
       0 raw_name"

text \<open>The code page of short names: ASCII below 128, the table above.\<close>

definition cp437_high :: "nat list" where
  "cp437_high =
    [199, 252, 233, 226, 228, 224, 229, 231, 234, 235, 232, 239, 238, 236, 196, 197, 201, 230,
     198, 244, 246, 242, 251, 249, 255, 214, 220, 162, 163, 165, 8359, 402, 225, 237, 243, 250,
     241, 209, 170, 186, 191, 8976, 172, 189, 188, 161, 171, 187, 9617, 9618, 9619, 9474, 9508,
     9569, 9570, 9558, 9557, 9571, 9553, 9559, 9565, 9564, 9563, 9488, 9492, 9524, 9516, 9500,
     9472, 9532, 9566, 9567, 9562, 9556, 9577, 9574, 9568, 9552, 9580, 9575, 9576, 9572, 9573,
     9561, 9560, 9554, 9555, 9579, 9578, 9496, 9484, 9608, 9604, 9612, 9616, 9600, 945, 223,
     915, 960, 931, 963, 181, 964, 934, 920, 937, 948, 8734, 966, 949, 8745, 8801, 177, 8805,
     8804, 8992, 8993, 247, 8776, 176, 8729, 183, 8730, 8319, 178, 9632, 160]"

definition decode_cp437 :: "bytes \<Rightarrow> ustr" where
  "decode_cp437 bs =
     map (\<lambda>b. if unat b < 128 then unat b else cp437_high ! (unat b - 128)) bs"

definition short_name :: "(ustr \<Rightarrow> ustr) \<Rightarrow> bytes \<Rightarrow> ustr" where
  "short_name lower raw =
     (let stem = decode_cp437 (rstrip_of (\<lambda>b. b = 0x20)
            (if raw ! 0 = 0x05 then 0xE5 # py_slice raw 1 8 else py_slice raw 0 8));
          extension = decode_cp437 (rstrip_of (\<lambda>b. b = 0x20) (py_slice raw 8 11));
          stem = (if raw ! 12 AND 0x08 \<noteq> 0 then lower stem else stem);
          extension = (if raw ! 12 AND 0x10 \<noteq> 0 then lower extension else extension)
      in if extension \<noteq> [] then stem @ ascii ''.'' @ extension else stem)"

definition long_name :: "bytes list \<Rightarrow> bytes \<Rightarrow> ustr option" where
  "long_name slots raw =
     (if slots = [] then None
      else
        let cnt = uint (hd slots ! 0 AND NOT LAST_LONG_NAME_SLOT)
        in if \<not> (1 \<le> cnt \<and> cnt \<le> MAX_LONG_NAME_SLOTS) then None
        else
          let expected = (cnt OR uint LAST_LONG_NAME_SLOT) # down_range (cnt - 1) 0;
              checksum = short_name_checksum (py_slice raw 0 11)
          in if map (\<lambda>slot. uint (slot ! 0)) slots \<noteq> expected
               \<or> (\<exists>slot \<in> set slots. uint (slot ! 13) \<noteq> checksum)
          then None
          else
            let units = concat (map (\<lambda>slot. py_slice slot 1 11 @ py_slice slot 14 26 @ py_slice slot 28 32)
                  (rev slots));
                name = before_nul (decode_utf16_replace units)
            in if name = [] then None else Some name)"

definition fold_name :: "(ustr \<Rightarrow> ustr) \<Rightarrow> ustr \<Rightarrow> ustr" where
  "fold_name upper name = upper name"

section \<open>Limits of a walk\<close>

record WalkLimits =
  claimed :: "int set"
  remaining :: int

definition walk_limits :: "int \<Rightarrow> WalkLimits" where
  "walk_limits budget = \<lparr>claimed = {}, remaining = budget\<rparr>"

definition claim :: "WalkLimits \<Rightarrow> int list \<Rightarrow> int \<Rightarrow> ustr \<Rightarrow> esp_error + WalkLimits" where
  "claim limits chn sz what =
     (let shared = claimed limits \<inter> set chn
      in if shared \<noteq> {} then Inl (Cross_linked what (Min shared))
      else
        let limits = limits\<lparr>claimed := claimed limits \<union> set chn,
                            remaining := remaining limits - sz\<rparr>
        in if remaining limits < 0 then Inl Directories_too_large else Inr limits)"

section \<open>The FAT volume\<close>

record FatVolume =
  v_image :: bytes
  v_partition :: Partition
  v_geometry :: Geometry
  v_last_cluster :: int
  v_bits :: int
  v_fat :: bytes

definition fat_volume :: "bytes \<Rightarrow> Partition \<Rightarrow> esp_error + FatVolume" where
  "fat_volume img part =
     rbind (image_read img (p_offset part) 512 (ascii ''the ESP's boot sector'')) (\<lambda>boot.
     rbind (geometry boot part) (\<lambda>geo.
       let last_cluster = g_clusters geo + 1;
           bits = (if g_fat32 geo then 32
                   else if g_clusters geo < FAT12_CLUSTER_LIMIT then 12 else 16)
       in if (last_cluster + 1) * bits > g_fat_size geo * 8 then Inl (Fat_too_small (g_clusters geo))
       else rbind (image_read img (g_fat_offset geo) (g_fat_size geo) (ascii ''the ESP's FAT'')) (\<lambda>fat.
         Inr \<lparr>v_image = img, v_partition = part, v_geometry = geo, v_last_cluster = last_cluster,
              v_bits = bits, v_fat = fat\<rparr>)))"

text \<open>\<^verbatim>\<open>struct.unpack_from\<close> of one field at a non-negative offset raises unless the field fits.\<close>

definition unpack_le :: "bytes \<Rightarrow> int \<Rightarrow> int \<Rightarrow> esp_error + int" where
  "unpack_le bs off n = (if off + n \<le> len bs then Inr (le_at bs off n) else Inl Struct_error)"

definition next_cluster :: "FatVolume \<Rightarrow> int \<Rightarrow> esp_error + int" where
  "next_cluster vol cluster =
     (if v_bits vol = 12 then
        rbind (unpack_le (v_fat vol) (cluster * 3 div 2) 2) (\<lambda>value.
          Inr (if cluster AND 1 \<noteq> 0 then drop_bit 4 value else value AND 0xFFF))
      else if v_bits vol = 16 then unpack_le (v_fat vol) (cluster * 2) 2
      else rbind (unpack_le (v_fat vol) (cluster * 4) 4) (\<lambda>value. Inr (value AND 0x0FFFFFFF)))"

text \<open>
  The loop of \<^verbatim>\<open>_chain\<close> returns because each turn adds a cluster of the volume to the visited
  ones.
\<close>

function chain_loop ::
    "FatVolume \<Rightarrow> ustr \<Rightarrow> int \<Rightarrow> int list \<Rightarrow> int set \<Rightarrow> esp_error + int list" where
  "chain_loop vol what cluster chn visited =
     (if \<not> (2 \<le> cluster \<and> cluster \<le> v_last_cluster vol) then Inl (Invalid_cluster what cluster)
      else if cluster \<in> visited then Inl (Chain_loops what cluster)
      else rbind (next_cluster vol cluster) (\<lambda>succ_cluster.
        if succ_cluster \<ge> END_OF_CHAIN (v_bits vol) then Inr (chn @ [cluster])
        else chain_loop vol what succ_cluster (chn @ [cluster]) (insert cluster visited)))"
  by pat_completeness auto

lemma visited_measure:
  "2 \<le> c \<Longrightarrow> c \<le> l \<Longrightarrow> c \<notin> visited \<Longrightarrow>
   card ({2..l} - insert c visited) < card ({2..(l :: int)} - visited)"
proof (intro psubset_card_mono)
  assume "2 \<le> c" "c \<le> l" "c \<notin> visited"
  then have "c \<in> {2..l} - visited" "c \<notin> {2..l} - insert c visited" by simp_all
  then show "{2..l} - insert c visited \<subset> {2..l} - visited" by blast
qed simp

termination chain_loop
proof (relation "measure (\<lambda>(vol, what, cluster, chn, visited). card ({2..v_last_cluster vol} - visited))",
    goal_cases)
  case 2
  then show ?case by (simp only: in_measure prod.case) (rule visited_measure; simp)
qed simp

declare chain_loop.simps [simp del]

definition chain_of :: "FatVolume \<Rightarrow> int \<Rightarrow> ustr \<Rightarrow> esp_error + int list" where
  "chain_of vol first_cluster what = chain_loop vol what first_cluster [] {}"

definition read_chain :: "FatVolume \<Rightarrow> int list \<Rightarrow> ustr \<Rightarrow> esp_error + bytes" where
  "read_chain vol chn what =
     (let sz = g_cluster_size (v_geometry vol); offset = g_data_offset (v_geometry vol)
      in rbind (rmap (\<lambda>cluster. image_read (v_image vol) (offset + (cluster - 2) * sz) sz what) chn)
           (\<lambda>parts. Inr (concat parts)))"

definition read_file :: "FatVolume \<Rightarrow> Entry \<Rightarrow> ustr \<Rightarrow> esp_error + bytes" where
  "read_file vol entry what =
     (if e_size entry = 0 then Inr []
      else rbind (chain_of vol (e_cluster entry) what) (\<lambda>chn.
        let cluster_size = g_cluster_size (v_geometry vol)
        in if len chn \<noteq> - ((- e_size entry) div cluster_size)
        then Inl (Chain_length what (e_size entry) (len chn) cluster_size)
        else rbind (read_chain vol chn what) (\<lambda>data. Inr (py_slice data 0 (e_size entry)))))"

definition add_slot :: "bytes list \<Rightarrow> bytes \<Rightarrow> bytes list" where
  "add_slot slots raw =
     (if raw ! 0 AND LAST_LONG_NAME_SLOT \<noteq> 0 then [raw]
      else if len slots \<ge> MAX_LONG_NAME_SLOTS then []
      else slots @ [raw])"

definition make_entry :: "(ustr \<Rightarrow> ustr) \<Rightarrow> bool \<Rightarrow> bytes list \<Rightarrow> bytes \<Rightarrow> Entry option" where
  "make_entry lower fat32 slots raw =
     (let long = long_name slots raw; short = short_name lower raw
      in if raw ! 11 AND ATTRIBUTE_VOLUME_LABEL \<noteq> 0 \<or> short = ascii ''.'' \<or> short = ascii ''..''
      then None
      else
        let high = (if fat32 then le_at raw 20 2 else 0);
            cluster = push_bit 16 high OR le_at raw 26 2;
            sz = le_at raw 28 4
        in Some \<lparr>e_name = (case long of Some n \<Rightarrow> n | None \<Rightarrow> short), e_short_name = short,
                 e_attributes = raw ! 11, e_cluster = cluster, e_size = sz\<rparr>)"

fun entries_loop :: "(ustr \<Rightarrow> ustr) \<Rightarrow> bool \<Rightarrow> bytes list \<Rightarrow> bytes list \<Rightarrow> Entry list" where
  "entries_loop lower fat32 slots [] = []"
| "entries_loop lower fat32 slots (raw # raws) =
     (if raw ! 0 = 0 then []
      else if raw ! 0 = DELETED then entries_loop lower fat32 [] raws
      else if raw ! 11 AND 0x3F = ATTRIBUTE_LONG_NAME
      then entries_loop lower fat32 (add_slot slots raw) raws
      else (case make_entry lower fat32 slots raw of
          None \<Rightarrow> entries_loop lower fat32 [] raws
        | Some e \<Rightarrow> e # entries_loop lower fat32 [] raws))"

definition entries_of :: "(ustr \<Rightarrow> ustr) \<Rightarrow> FatVolume \<Rightarrow> bytes \<Rightarrow> Entry list" where
  "entries_of lower vol data =
     entries_loop lower (g_fat32 (v_geometry vol)) []
       (map (\<lambda>start. py_slice data start (start + DIRECTORY_ENTRY))
         (py_range 0 (len data - DIRECTORY_ENTRY + 1) DIRECTORY_ENTRY))"

text \<open>The limits of a walk, when there are some, are returned updated.\<close>

definition claim_in :: "WalkLimits option \<Rightarrow> int list \<Rightarrow> int \<Rightarrow> ustr \<Rightarrow> esp_error + WalkLimits option" where
  "claim_in limits chn sz what =
     (case limits of None \<Rightarrow> Inr None
      | Some l \<Rightarrow> rbind (claim l chn sz what) (\<lambda>l'. Inr (Some l')))"

definition directory ::
    "(ustr \<Rightarrow> ustr) \<Rightarrow> FatVolume \<Rightarrow> int option \<Rightarrow> ustr \<Rightarrow> WalkLimits option
      \<Rightarrow> esp_error + Entry list \<times> WalkLimits option" where
  "directory lower vol cluster what limits =
     (let geo = v_geometry vol
      in if cluster = None \<and> \<not> g_fat32 geo then
        rbind (claim_in limits [] (g_root_size geo) what) (\<lambda>limits'.
        rbind (image_read (v_image vol) (g_root_offset geo) (g_root_size geo) what) (\<lambda>data.
          Inr (entries_of lower vol data, limits')))
      else
        rbind (chain_of vol (case cluster of None \<Rightarrow> g_root_cluster geo | Some c \<Rightarrow> c) what) (\<lambda>chn.
          let sz = len chn * g_cluster_size geo
          in if sz > MAX_DIRECTORY_BYTES then Inl (Too_many_entries what)
          else rbind (claim_in limits chn sz what) (\<lambda>limits'.
            rbind (read_chain vol chn what) (\<lambda>data. Inr (entries_of lower vol data, limits')))))"

section \<open>Lookup\<close>

definition slash :: nat where "slash = of_char (CHR ''/'')"

definition root_what :: ustr where "root_what = ascii ''the root directory''"

definition or_root :: "ustr \<Rightarrow> ustr" where
  "or_root s = (if s = [] then root_what else s)"

fun lookup_loop ::
    "(ustr \<Rightarrow> ustr) \<Rightarrow> (ustr \<Rightarrow> ustr) \<Rightarrow> FatVolume \<Rightarrow> ustr \<Rightarrow> ustr list \<Rightarrow> Entry option \<Rightarrow> ustr list
      \<Rightarrow> esp_error + Entry option" where
  "lookup_loop upper lower vol esp_path parents entry [] = Inr entry"
| "lookup_loop upper lower vol esp_path parents entry (component # components) =
     (if (case entry of Some e \<Rightarrow> \<not> is_directory e | None \<Rightarrow> False)
      then Inl (Not_a_directory esp_path (e_name (the entry)))
      else
        let folded = fold_name upper component
        in rbind (directory lower vol (map_option e_cluster entry)
              (or_root (join_with [slash] parents)) None) (\<lambda>(found, _).
          case filter (\<lambda>f. folded = fold_name upper (e_name f)
                 \<or> folded = fold_name upper (e_short_name f)) found of
            [] \<Rightarrow> Inl (No_file esp_path)
          | e # _ \<Rightarrow>
              lookup_loop upper lower vol esp_path (parents @ [component]) (Some e) components))"

definition lookup ::
    "(ustr \<Rightarrow> ustr) \<Rightarrow> (ustr \<Rightarrow> ustr) \<Rightarrow> FatVolume \<Rightarrow> ustr \<Rightarrow> esp_error + Entry" where
  "lookup upper lower vol esp_path =
     (let components = filter (\<lambda>c. c \<noteq> []) (split_on slash esp_path)
      in if components = [] then Inl (Names_no_file esp_path)
      else rbind (lookup_loop upper lower vol esp_path [] None components) (\<lambda>e. Inr (the e)))"

section \<open>Walking the file system\<close>

text \<open>
  A directory of a walk claims its clusters, so the clusters that are left bound the number
  of directories that a walk can still read; the root of a FAT12 or FAT16 volume, which has no
  clusters, is read once.
\<close>

lemma chain_loop_invariant:
  "chain_loop vol what c chn visited = Inr cs \<Longrightarrow>
   \<exists>tl. cs = chn @ c # tl \<and> distinct (c # tl) \<and> set (c # tl) \<subseteq> {2..v_last_cluster vol} - visited"
proof (induction vol what c chn visited rule: chain_loop.induct)
  case (1 vol what c chn visited)
  from 1(2) have c: "2 \<le> c" "c \<le> v_last_cluster vol" "c \<notin> visited"
    by (subst (asm) chain_loop.simps; simp split: if_splits)+
  from 1(2) c obtain d where d: "next_cluster vol c = Inr d"
    and r: "(if END_OF_CHAIN (v_bits vol) \<le> d then Inr (chn @ [c])
      else chain_loop vol what d (chn @ [c]) (insert c visited)) = Inr cs"
    by (subst (asm) chain_loop.simps) auto
  show ?case
  proof (cases "END_OF_CHAIN (v_bits vol) \<le> d")
    case False
    with r 1(1) [OF _ _ d] c obtain tl where "cs = (chn @ [c]) @ d # tl" "distinct (d # tl)"
      "set (d # tl) \<subseteq> {2..v_last_cluster vol} - insert c visited" by auto
    then show ?thesis using c by (intro exI [of _ "d # tl"]) auto
  qed (use r c in auto)
qed

lemma chain_of_ok:
  assumes "chain_of vol c what = Inr cs"
  shows "hd cs = c" "cs \<noteq> []" "distinct cs" "set cs \<subseteq> {2..v_last_cluster vol}"
  using chain_loop_invariant [of vol what c "[]" "{}" cs] assms by (auto simp: chain_of_def)

lemma claim_Inr:
  "claim l chn sz what = Inr l' \<longleftrightarrow>
     claimed l \<inter> set chn = {} \<and> sz \<le> remaining l \<and>
     l' = l\<lparr>claimed := claimed l \<union> set chn, remaining := remaining l - sz\<rparr>"
  by (auto simp: claim_def Let_def split: if_splits)

lemma claim_in_Some:
  "claim_in (Some l) chn sz what = Inr ls \<longleftrightarrow> (\<exists>l'. claim l chn sz what = Inr l' \<and> ls = Some l')"
  by (auto simp: claim_in_def)

lemma directory_claims:
  assumes "directory lower vol cluster what (Some l) = Inr (es, ls)"
  shows "\<exists>l' chn. ls = Some l' \<and> claimed l' = claimed l \<union> set chn \<and> claimed l \<inter> set chn = {} \<and>
    set chn \<subseteq> {2..v_last_cluster vol} \<and> (cluster \<noteq> None \<longrightarrow> chn \<noteq> [])"
proof (cases "cluster = None \<and> \<not> g_fat32 (v_geometry vol)")
  case True
  with assms show ?thesis
    by (auto simp: directory_def Let_def claim_in_Some claim_Inr intro!: exI [of _ "[]"])
next
  case False
  with assms obtain c chn sz where "chain_of vol c what = Inr chn"
    "claim_in (Some l) chn sz what = Inr ls"
    by (auto simp: directory_def Let_def split: if_splits)
  then show ?thesis
    using chain_of_ok [of vol c what chn] by (auto simp: claim_in_Some claim_Inr)
qed

definition walk_files :: "ustr \<Rightarrow> Entry list \<Rightarrow> EspFile list" where
  "walk_files prefix es =
     map (\<lambda>e. EspFile (prefix @ e_name e) (e_size e)) (filter (\<lambda>e. \<not> is_directory e) es)"

definition walk_dirs :: "ustr \<Rightarrow> Entry list \<Rightarrow> (ustr \<times> int option) list" where
  "walk_dirs prefix es =
     map (\<lambda>e. (prefix @ e_name e @ [slash], Some (e_cluster e))) (filter is_directory es)"

definition walk_what :: "ustr \<Rightarrow> ustr" where
  "walk_what prefix = or_root (rstrip_of (\<lambda>c. c = slash) prefix)"

definition roots_left :: "(ustr \<times> int option) list \<Rightarrow> nat" where
  "roots_left pending = length (filter (\<lambda>(prefix, cluster). cluster = None) pending)"

function walk_loop ::
    "(ustr \<Rightarrow> ustr) \<Rightarrow> FatVolume \<Rightarrow> (ustr \<times> int option) list \<Rightarrow> WalkLimits \<Rightarrow> EspFile list
      \<Rightarrow> esp_error + EspFile list" where
  "walk_loop lower vol pending limits files =
     (if pending = [] then Inr files
      else
        rbind (directory lower vol (snd (last pending)) (walk_what (fst (last pending))) (Some limits))
          (\<lambda>(es, limits').
            walk_loop lower vol (butlast pending @ walk_dirs (fst (last pending)) es) (the limits')
              (files @ walk_files (fst (last pending)) es)))"
  by pat_completeness auto

lemma roots_left_dirs [simp]: "roots_left (pending @ walk_dirs prefix es) = roots_left pending"
  by (simp add: roots_left_def walk_dirs_def filter_map o_def)

lemma roots_left_last:
  "pending \<noteq> [] \<Longrightarrow>
   roots_left pending = roots_left (butlast pending) + (if snd (last pending) = None then 1 else 0)"
  by (cases pending rule: rev_cases) (auto simp: roots_left_def split: prod.split)

lemma walk_measure:
  assumes "directory lower vol cluster what (Some l) = Inr (es, ls)"
  shows "card ({2..v_last_cluster vol} - claimed (the ls)) +
      (if cluster = None then 0 else 1) \<le> card ({2..v_last_cluster vol} - claimed l)"
proof -
  obtain l' chn where l': "ls = Some l'" "claimed l' = claimed l \<union> set chn" "claimed l \<inter> set chn = {}"
    "set chn \<subseteq> {2..v_last_cluster vol}" "cluster \<noteq> None \<longrightarrow> chn \<noteq> []"
    using directory_claims [OF assms] by blast
  let ?A = "{2..v_last_cluster vol} - claimed l"
  have "card (?A - set chn) + card (set chn) = card ?A"
    using l'(3,4) by (subst card_Diff_subset) (auto intro!: le_add_diff_inverse2 card_mono)
  moreover have "{2..v_last_cluster vol} - claimed (the ls) = ?A - set chn"
    using l'(1,2) by auto
  moreover have "cluster \<noteq> None \<longrightarrow> 1 \<le> card (set chn)"
    using l'(5) by (auto simp: Suc_le_eq card_gt_0_iff)
  ultimately show ?thesis by auto
qed

termination walk_loop
proof (relation "measure (\<lambda>(lower, vol, pending, limits, files).
    roots_left pending + card ({2..v_last_cluster vol} - claimed limits))", goal_cases)
  case (2 lower vol pending limits files x es ls)
  then show ?case
    using walk_measure [of lower vol "snd (last pending)" "walk_what (fst (last pending))" limits es ls]
      roots_left_last [of pending] by (auto split: if_splits)
qed simp

declare walk_loop.simps [simp del]

definition walk :: "(ustr \<Rightarrow> ustr) \<Rightarrow> FatVolume \<Rightarrow> esp_error + EspFile list" where
  "walk lower vol =
     rbind (walk_loop lower vol [([], None)] (walk_limits (p_size (v_partition vol))) [])
       (\<lambda>files. Inr (sort files))"

section \<open>Entry points\<close>

definition list_esp_files :: "(ustr \<Rightarrow> ustr) \<Rightarrow> bytes \<Rightarrow> esp_error + EspFile list" where
  "list_esp_files lower img =
     rbind (find_esp img) (\<lambda>part. rbind (fat_volume img part) (walk lower))"

definition read_esp_file ::
    "(ustr \<Rightarrow> ustr) \<Rightarrow> (ustr \<Rightarrow> ustr) \<Rightarrow> bytes \<Rightarrow> ustr \<Rightarrow> esp_error + bytes" where
  "read_esp_file upper lower img esp_path =
     rbind (find_esp img) (\<lambda>part.
     rbind (fat_volume img part) (\<lambda>vol.
     rbind (lookup upper lower vol esp_path) (\<lambda>entry.
       if is_directory entry then Inl (Is_a_directory esp_path)
       else read_file vol entry esp_path)))"

text \<open>
  \<open>json_loads\<close> stands for \<^verbatim>\<open>json.loads(data.decode("utf-8"))\<close>; \<^const>\<open>None\<close> is the error that
  either call raises.
\<close>

definition read_esp_manifest ::
    "(bytes \<Rightarrow> ustr json option) \<Rightarrow> (ustr \<Rightarrow> ustr) \<Rightarrow> (ustr \<Rightarrow> ustr) \<Rightarrow> bytes \<Rightarrow> esp_error + ustr json" where
  "read_esp_manifest json_loads upper lower img =
     rbind (read_esp_file upper lower img ESP_MANIFEST_PATH) (\<lambda>data.
       case json_loads data of
         None \<Rightarrow> Inl Manifest_not_json
       | Some manifest \<Rightarrow>
           if \<not> is_dict manifest
             \<or> json_get manifest (ascii ''format_version'') \<noteq> Some (JStr ESP_MANIFEST_FORMAT)
           then Inl Manifest_format else Inr manifest)"

text \<open>The exit status of the script, for the three actions of its command line.\<close>

datatype esp_action = List_files | Extract ustr | Print_manifest

definition exit_status :: "esp_error + 'a \<Rightarrow> int option" where
  "exit_status r =
     (case r of Inr _ \<Rightarrow> Some 0
      | Inl e \<Rightarrow> if not_found_error e then Some 3 else if e = Struct_error then None else Some 1)"

definition esp_main ::
    "(bytes \<Rightarrow> ustr json option) \<Rightarrow> (ustr \<Rightarrow> ustr) \<Rightarrow> (ustr \<Rightarrow> ustr) \<Rightarrow> esp_action \<Rightarrow> bytes \<Rightarrow> int option" where
  "esp_main json_loads upper lower action img =
     (case action of
        List_files \<Rightarrow> exit_status (list_esp_files lower img)
      | Extract esp_path \<Rightarrow> exit_status (read_esp_file upper lower img esp_path)
      | Print_manifest \<Rightarrow> exit_status (read_esp_manifest json_loads upper lower img))"

end
