(* ===== verification/Esp_Safety.thy ===== *)
theory Esp_Safety
  imports Esp_Reader
begin

text \<open>
  What the ESP reader guarantees. \<open>volume_wf\<close> is the invariant that opening the only ESP of an
  image establishes: its FAT, root directory and data clusters lie inside the partition, in
  this order, and the FAT has an entry for every cluster. From it follow that no lookup in
  the FAT is out of range, that cluster chains are exactly the finite chains on disk, that a
  file is exactly the bytes that its chain addresses, and that a walk lists exactly the files
  reachable from the root without ever exhausting its byte budget.
\<close>

section \<open>The volume invariant\<close>

definition partition_wf :: "bytes \<Rightarrow> Partition \<Rightarrow> bool" where
  "partition_wf img part \<longleftrightarrow>
     p_sector_size part \<in> {512, 4096} \<and> 2 * p_sector_size part \<le> p_offset part \<and>
     0 < p_size part \<and> p_offset part + p_size part \<le> len img"

definition geometry_wf :: "Partition \<Rightarrow> Geometry \<Rightarrow> bool" where
  "geometry_wf part geo \<longleftrightarrow>
     p_offset part < g_fat_offset geo \<and> 0 < g_fat_size geo \<and>
     g_fat_offset geo + g_fat_size geo \<le> g_root_offset geo \<and>
     0 \<le> g_root_size geo \<and> (g_fat32 geo \<longrightarrow> g_root_size geo = 0) \<and>
     g_root_offset geo + g_root_size geo \<le> g_data_offset geo \<and>
     0 < g_cluster_size geo \<and> 0 < g_clusters geo \<and>
     g_data_offset geo + g_clusters geo * g_cluster_size geo \<le> p_offset part + p_size part"

definition volume_wf :: "FatVolume \<Rightarrow> bool" where
  "volume_wf vol \<longleftrightarrow>
     partition_wf (v_image vol) (v_partition vol) \<and>
     geometry_wf (v_partition vol) (v_geometry vol) \<and>
     v_last_cluster vol = g_clusters (v_geometry vol) + 1 \<and>
     v_bits vol \<in> {12, 16, 32} \<and>
     (v_last_cluster vol + 1) * v_bits vol \<le> len (v_fat vol) * 8"

lemma find_sector_size_Inr:
  "find_sector_size img sizes = Inr s \<Longrightarrow> s \<in> set sizes"
  by (induction sizes) (auto split: if_splits)

lemma gpt_sector_size_Inr: "gpt_sector_size img = Inr s \<Longrightarrow> s \<in> {512, 4096}"
  using find_sector_size_Inr [of img GPT_SECTOR_SIZES s]
  by (auto simp: gpt_sector_size_def GPT_SECTOR_SIZES_def Let_def split: if_splits)

lemma find_esp_wf:
  assumes "find_esp img = Inr part"
  shows "partition_wf img part"
proof -
  obtain s es esps where s: "gpt_sector_size img = Inr s"
    and esps: "esps = map (esp_partition s)
        (filter (\<lambda>entry. uuid_le_str (py_slice entry 0 16) = ESP_TYPE_GUID) es)"
    and e: "(case esps of
      [esp] \<Rightarrow> (if p_offset esp < 2 * s \<or> p_size esp \<le> 0 \<or> p_offset esp + p_size esp > len img
               then Inl Esp_outside else Inr esp)
    | _ \<Rightarrow> Inl (Esp_count (len esps))) = Inr part"
    using assms by (auto simp: find_esp_def Let_def)
  from e have "esps = [part]" and "\<not> p_offset part < 2 * s"
    "\<not> p_size part \<le> 0" "\<not> p_offset part + p_size part > len img"
    by (auto split: list.splits if_splits)
  moreover from this(1) obtain entry where "part = esp_partition s entry"
    unfolding esps by (metis list.set_intros(1) in_set_conv_decomp map_eq_Cons_D)
  ultimately have "p_sector_size part = s \<and> \<not> p_offset part < 2 * s \<and>
    \<not> p_size part \<le> 0 \<and> \<not> p_offset part + p_size part > len img"
    by (simp add: esp_partition_def Let_def)
  with gpt_sector_size_Inr [OF s] show ?thesis
    by (auto simp: partition_wf_def)
qed

lemma ceil_mult_ge: "0 < (s :: int) \<Longrightarrow> a \<le> - ((- a) div s) * s"
proof -
  assume "0 < s"
  then have "(- a) div s * s \<le> - a"
    using div_mult_mod_eq [of "- a" s] pos_mod_sign [of s "- a"] by linarith
  then show ?thesis unfolding minus_mult_left [symmetric] by linarith
qed

lemma geometry_Inr_wf:
  assumes "geometry boot part = Inr geo"
  shows "geometry_wf part geo"
proof -
  define sector per_cluster reserved fats root_entries where
    d: "sector = le_at boot 11 2" "per_cluster = le_at boot 13 1" "reserved = le_at boot 14 2"
      "fats = le_at boot 16 1" "root_entries = le_at boot 17 2"
  define total where "total =
    (if le_at boot 19 2 \<noteq> 0 then le_at boot 19 2 else le_at boot 32 4) * sector"
  define fat32 where "fat32 = (le_at boot 22 2 = 0)"
  define fat_size where "fat_size = (if fat32 then le_at boot 36 4 else le_at boot 22 2) * sector"
  define data where "data = reserved * sector + fats * fat_size
    + - ((- (root_entries * DIRECTORY_ENTRY)) div sector) * sector"
  note defs = d total_def fat32_def fat_size_def data_def
  have v: "sector \<in> {512, 1024, 2048, 4096}" "per_cluster \<in> {1, 2, 4, 8, 16, 32, 64, 128}"
    "reserved > 0" "fats > 0" "fat_size > 0" "(root_entries = 0) = fat32"
    "total \<le> p_size part" "max (total - data) 0 div (per_cluster * sector) \<noteq> 0"
    and g: "geo = \<lparr>g_fat32 = fat32,
          g_fat_offset = p_offset part + reserved * sector,
          g_fat_size = fat_size,
          g_root_offset = p_offset part + (reserved * sector + fats * fat_size),
          g_root_size = root_entries * DIRECTORY_ENTRY,
          g_root_cluster = (if fat32 then le_at boot 44 4 else 0),
          g_data_offset = p_offset part + data,
          g_cluster_size = per_cluster * sector,
          g_clusters = max (total - data) 0 div (per_cluster * sector)\<rparr>"
    using assms unfolding geometry_def Let_def defs [symmetric]
    by (simp_all split: if_split_asm)
  have pos: "0 < sector" "0 < per_cluster" using v(1,2) by auto
  then have cs: "0 < per_cluster * sector" by simp
  have tot: "data < total"
  proof (rule ccontr)
    assume "\<not> data < total"
    then have "max (total - data) 0 = 0" by simp
    with v(8) show False by simp
  qed
  have cl: "(total - data) div (per_cluster * sector) * (per_cluster * sector) \<le> total - data"
    using div_mult_mod_eq [of "total - data" "per_cluster * sector"]
      pos_mod_sign [OF cs, of "total - data"] by linarith
  have cl0: "0 < (total - data) div (per_cluster * sector)"
    using v(8) tot cs pos_imp_zdiv_nonneg_iff [OF cs, of "total - data"] by (simp add: max_def)
  have ent: "0 \<le> root_entries * DIRECTORY_ENTRY" "fat32 \<longrightarrow> root_entries * DIRECTORY_ENTRY = 0"
    using v(6) by (simp_all add: d DIRECTORY_ENTRY_def)
  have rt: "reserved * sector + fats * fat_size + root_entries * DIRECTORY_ENTRY \<le> data"
    unfolding data_def using ceil_mult_ge [OF pos(1)] by simp
  have res: "0 < reserved * sector" using v(3) pos(1) by simp
  have fat: "fat_size \<le> fats * fat_size"
    using v(4,5) mult_right_mono [of 1 fats fat_size] by simp
  show ?thesis
    unfolding geometry_wf_def g
    using cs cl cl0 ent rt res fat v(5,7) tot by (simp add: max_def)
qed

lemma fat_volume_wf:
  assumes "partition_wf img part" "fat_volume img part = Inr vol"
  shows "volume_wf vol" "v_image vol = img" "v_partition vol = part"
proof -
  obtain boot geo fat where g: "geometry boot part = Inr geo"
    and f: "image_read img (g_fat_offset geo) (g_fat_size geo) (ascii ''the ESP's FAT'') = Inr fat"
    and le: "(g_clusters geo + 1 + 1) * v_bits vol \<le> g_fat_size geo * 8"
    and v: "v_image vol = img" "v_partition vol = part" "v_geometry vol = geo" "v_fat vol = fat"
      "v_last_cluster vol = g_clusters geo + 1" "v_bits vol \<in> {12, 16, 32}"
    using assms(2) by (auto simp: fat_volume_def Let_def split: if_splits)
  show "volume_wf vol" "v_image vol = img" "v_partition vol = part"
    using assms(1) geometry_Inr_wf [OF g] le v esp_read.rd_length [OF f]
    by (simp_all add: volume_wf_def)
qed

section \<open>The FAT\<close>

lemma unpack_le_Inr: "off + n \<le> len bs \<Longrightarrow> unpack_le bs off n = Inr (le_at bs off n)"
  by (simp add: unpack_le_def)

text \<open>Every cluster number of the volume has its FAT entry inside the FAT.\<close>

lemma next_cluster_total:
  assumes "volume_wf vol" "2 \<le> c" "c \<le> v_last_cluster vol"
  shows "\<exists>d. next_cluster vol c = Inr d"
proof -
  from assms(1) have b: "v_bits vol \<in> {12, 16, 32}"
    and le: "(v_last_cluster vol + 1) * v_bits vol \<le> len (v_fat vol) * 8"
    unfolding volume_wf_def by blast+
  have "(c + 1) * v_bits vol \<le> len (v_fat vol) * 8"
    by (rule order_trans [OF mult_right_mono le]) (use assms(3) b in auto)
  with b have "v_bits vol = 12 \<and> c * 3 div 2 + 2 \<le> len (v_fat vol) \<or>
      v_bits vol = 16 \<and> c * 2 + 2 \<le> len (v_fat vol) \<or>
      v_bits vol = 32 \<and> c * 4 + 4 \<le> len (v_fat vol)"
    by (elim insertE emptyE; simp; presburger)
  then show ?thesis
    by (auto simp: next_cluster_def unpack_le_Inr)
qed

text \<open>The chains on disk: linked by the FAT, inside the volume, up to an end-of-chain mark.\<close>

inductive fat_chain :: "FatVolume \<Rightarrow> int \<Rightarrow> int list \<Rightarrow> bool" for vol where
  chain_end: "2 \<le> c \<Longrightarrow> c \<le> v_last_cluster vol \<Longrightarrow> next_cluster vol c = Inr d \<Longrightarrow>
    END_OF_CHAIN (v_bits vol) \<le> d \<Longrightarrow> fat_chain vol c [c]"
| chain_link: "2 \<le> c \<Longrightarrow> c \<le> v_last_cluster vol \<Longrightarrow> next_cluster vol c = Inr d \<Longrightarrow>
    d < END_OF_CHAIN (v_bits vol) \<Longrightarrow> fat_chain vol d cs \<Longrightarrow> fat_chain vol c (c # cs)"

inductive_cases fat_chainE: "fat_chain vol c cs"

lemma fat_chain_unique: "fat_chain vol c cs \<Longrightarrow> fat_chain vol c ds \<Longrightarrow> cs = ds"
proof (induction arbitrary: ds rule: fat_chain.induct)
  case (chain_end c d)
  from chain_end(5) show ?case by (rule fat_chainE) (use chain_end in auto)
next
  case (chain_link c d cs)
  from chain_link(7) show ?case by (rule fat_chainE) (use chain_link(3,4) in \<open>auto dest: chain_link(6)\<close>)
qed

lemma fat_chain_suffix:
  "fat_chain vol c cs \<Longrightarrow> d \<in> set cs \<Longrightarrow> \<exists>ds. fat_chain vol d ds \<and> length ds \<le> length cs"
proof (induction rule: fat_chain.induct)
  case (chain_end c e)
  then have "fat_chain vol d [c]" by (simp add: fat_chain.chain_end)
  then show ?case by (intro exI [of _ "[c]"]) simp
next
  case (chain_link c e cs)
  show ?case
  proof (cases "d = c")
    case True
    have "fat_chain vol d (c # cs)"
      unfolding True by (rule fat_chain.chain_link [OF chain_link(1-5)])
    then show ?thesis by (intro exI [of _ "c # cs"]) simp
  next
    case False
    with chain_link obtain ds where "fat_chain vol d ds" "length ds \<le> length cs" by auto
    then show ?thesis by (intro exI [of _ ds]) simp
  qed
qed

text \<open>A finite chain cannot come back to its first cluster: its rest would be as long as itself.\<close>

lemma fat_chain_distinct: "fat_chain vol c cs \<Longrightarrow> distinct cs \<and> hd cs = c \<and> cs \<noteq> []"
proof (induction rule: fat_chain.induct)
  case (chain_link c d cs)
  have "c \<notin> set cs"
  proof
    assume "c \<in> set cs"
    then obtain ds where "fat_chain vol c ds" "length ds \<le> length cs"
      using fat_chain_suffix [OF chain_link(5)] by blast
    moreover have "fat_chain vol c (c # cs)"
      using chain_link by (auto intro: fat_chain.chain_link)
    ultimately show False using fat_chain_unique by fastforce
  qed
  with chain_link show ?case by simp
qed simp

lemma chain_loop_sound:
  "chain_loop vol what c chn visited = Inr cs \<Longrightarrow> \<exists>ds. cs = chn @ ds \<and> fat_chain vol c ds"
proof (induction vol what c chn visited rule: chain_loop.induct)
  case (1 vol what c chn visited)
  from 1(2) obtain d where c: "2 \<le> c" "c \<le> v_last_cluster vol" "c \<notin> visited"
    "next_cluster vol c = Inr d"
    and r: "(if END_OF_CHAIN (v_bits vol) \<le> d then Inr (chn @ [c])
      else chain_loop vol what d (chn @ [c]) (insert c visited)) = Inr cs"
    by (subst (asm) chain_loop.simps) (auto split: if_split_asm)
  show ?case
  proof (cases "END_OF_CHAIN (v_bits vol) \<le> d")
    case True
    with r c show ?thesis by (auto intro: fat_chain.chain_end)
  next
    case False
    with r 1(1) [OF _ _ c(4)] c obtain ds where "cs = (chn @ [c]) @ ds" "fat_chain vol d ds"
      by auto
    with False c show ?thesis
      by (intro exI [of _ "c # ds"]) (auto intro: fat_chain.chain_link)
  qed
qed

lemma chain_loop_complete:
  "fat_chain vol c ds \<Longrightarrow> set ds \<inter> visited = {} \<Longrightarrow> chain_loop vol what c chn visited = Inr (chn @ ds)"
proof (induction arbitrary: chn visited rule: fat_chain.induct)
  case (chain_link c d cs)
  have "c \<notin> set cs"
    using fat_chain_distinct [OF fat_chain.chain_link [OF chain_link(1-5)]] by simp
  with chain_link show ?case by (subst chain_loop.simps) auto
qed (subst chain_loop.simps, auto)

lemma chain_of_iff: "chain_of vol c what = Inr cs \<longleftrightarrow> fat_chain vol c cs"
  using chain_loop_sound [of vol what c "[]" "{}" cs] chain_loop_complete [of vol c cs "{}" what "[]"]
  by (auto simp: chain_of_def)

lemma chain_loop_errors:
  assumes "volume_wf vol"
  shows "chain_loop vol what c chn visited = Inl e \<Longrightarrow>
    (\<exists>d. e = Invalid_cluster what d) \<or> (\<exists>d. e = Chain_loops what d)"
  using assms
proof (induction vol what c chn visited rule: chain_loop.induct)
  case (1 vol what c chn visited)
  show ?case
  proof (cases "2 \<le> c \<and> c \<le> v_last_cluster vol \<and> c \<notin> visited")
    case True
    with next_cluster_total [OF 1(3)] obtain d where d: "next_cluster vol c = Inr d" by blast
    with 1(2) True have "\<not> END_OF_CHAIN (v_bits vol) \<le> d"
      "chain_loop vol what d (chn @ [c]) (insert c visited) = Inl e"
      by (subst (asm) chain_loop.simps; simp split: if_split_asm)+
    with 1(1) [OF _ _ d] 1(3) True show ?thesis by blast
  qed (use 1(2) in \<open>subst (asm) chain_loop.simps, auto split: if_split_asm\<close>)
qed

lemma chain_of_exact_parts:
  assumes "find_esp img = Inr part" "fat_volume img part = Inr vol"
  shows "chain_of vol c what = Inr cs \<longleftrightarrow> fat_chain vol c cs"
    and "fat_chain vol c cs \<Longrightarrow> distinct cs \<and> set cs \<subseteq> {2..v_last_cluster vol}"
    and "chain_of vol c what = Inl e \<Longrightarrow>
      (\<exists>d. e = Invalid_cluster what d) \<or> (\<exists>d. e = Chain_loops what d)"
  using chain_of_iff [of vol c what cs] chain_of_ok [of vol c what cs]
    chain_loop_errors [OF fat_volume_wf(1) [OF find_esp_wf [OF assms(1)] assms(2)], of what c "[]" "{}" e]
  by (auto simp: chain_of_def)

text \<open>
  C11: On an opened ESP a cluster chain is returned exactly when the FAT holds that chain: the
  clusters linked from the first one, all of them data clusters of the volume, up to an
  end-of-chain mark. The loop always returns; otherwise the chain leaves the volume or loops,
  and no FAT entry is ever read out of range.
\<close>

theorem chain_of_exact:
  assumes "find_esp img = Inr part" "fat_volume img part = Inr vol"
  shows "(\<forall>c cs. chain_of vol c what = Inr cs \<longleftrightarrow> fat_chain vol c cs) \<and>
    (\<forall>c cs. fat_chain vol c cs \<longrightarrow> distinct cs \<and> set cs \<subseteq> {2..v_last_cluster vol}) \<and>
    (\<forall>c e. chain_of vol c what = Inl e \<longrightarrow> (\<exists>d. e = Invalid_cluster what d) \<or> (\<exists>d. e = Chain_loops what d))"
  using chain_of_exact_parts [OF assms] by blast

section \<open>Files\<close>

definition cluster_data :: "FatVolume \<Rightarrow> int \<Rightarrow> bytes" where
  "cluster_data vol c =
     (let sz = g_cluster_size (v_geometry vol); off = g_data_offset (v_geometry vol) + (c - 2) * sz
      in py_slice (v_image vol) off (off + sz))"

text \<open>The address of byte \<open>i\<close> of the file whose clusters are \<open>cs\<close>.\<close>

definition file_addr :: "FatVolume \<Rightarrow> int list \<Rightarrow> nat \<Rightarrow> int" where
  "file_addr vol cs i =
     (let k = nat (g_cluster_size (v_geometry vol))
      in g_data_offset (v_geometry vol) + (cs ! (i div k) - 2) * int k + int (i mod k))"

lemma cluster_inside:
  assumes "volume_wf vol" "2 \<le> c" "c \<le> v_last_cluster vol"
  defines "off \<equiv> g_data_offset (v_geometry vol) + (c - 2) * g_cluster_size (v_geometry vol)"
  shows "p_offset (v_partition vol) \<le> off"
    "off + g_cluster_size (v_geometry vol) \<le> p_offset (v_partition vol) + p_size (v_partition vol)"
    "0 \<le> off" "off + g_cluster_size (v_geometry vol) \<le> len (v_image vol)"
proof -
  let ?k = "g_cluster_size (v_geometry vol)"
  from assms(1) have w: "partition_wf (v_image vol) (v_partition vol)"
    "geometry_wf (v_partition vol) (v_geometry vol)"
    "v_last_cluster vol = g_clusters (v_geometry vol) + 1" unfolding volume_wf_def by blast+
  have "0 \<le> (c - 2) * ?k"
    using assms(2) w(2) by (intro mult_nonneg_nonneg) (auto simp: geometry_wf_def)
  moreover have "(c - 2) * ?k + ?k \<le> g_clusters (v_geometry vol) * ?k"
  proof -
    have "(c - 2) * ?k + ?k = (c - 1) * ?k" by (simp add: algebra_simps)
    also have "\<dots> \<le> g_clusters (v_geometry vol) * ?k"
      using assms(3) w by (intro mult_right_mono) (auto simp: geometry_wf_def)
    finally show ?thesis .
  qed
  ultimately show "p_offset (v_partition vol) \<le> off"
    "off + ?k \<le> p_offset (v_partition vol) + p_size (v_partition vol)"
    "0 \<le> off" "off + ?k \<le> len (v_image vol)"
    using w unfolding off_def partition_wf_def geometry_wf_def by auto
qed

lemma cluster_size_pos: "volume_wf vol \<Longrightarrow> 0 < g_cluster_size (v_geometry vol)"
  by (simp add: volume_wf_def geometry_wf_def)

lemma length_cluster_data:
  assumes "volume_wf vol" "c \<in> {2..v_last_cluster vol}"
  shows "length (cluster_data vol c) = nat (g_cluster_size (v_geometry vol))"
  using cluster_inside [OF assms(1)] cluster_size_pos [OF assms(1)] assms(2)
  by (auto simp: cluster_data_def Let_def length_slice_nat)

lemma read_chain_ok:
  assumes "volume_wf vol" "set cs \<subseteq> {2..v_last_cluster vol}"
  shows "read_chain vol cs what = Inr (concat (map (cluster_data vol) cs))"
proof -
  have "image_read (v_image vol) (g_data_offset (v_geometry vol) + (c - 2) * g_cluster_size (v_geometry vol))
      (g_cluster_size (v_geometry vol)) what = Inr (cluster_data vol c)" if "c \<in> set cs" for c
    using cluster_inside [OF assms(1), of c] cluster_size_pos [OF assms(1)] that assms(2)
    by (auto simp: cluster_data_def Let_def intro!: esp_read.rd_inside)
  then have "rmap (\<lambda>c. image_read (v_image vol)
      (g_data_offset (v_geometry vol) + (c - 2) * g_cluster_size (v_geometry vol))
      (g_cluster_size (v_geometry vol)) what) cs = Inr (map (cluster_data vol) cs)"
    by (auto simp: rmap_Inr_iff list_all2_conv_all_nth)
  then show ?thesis by (simp add: read_chain_def Let_def)
qed

lemma chain_bytes_nth:
  assumes "volume_wf vol" "set cs \<subseteq> {2..v_last_cluster vol}"
    and i: "i < length cs * nat (g_cluster_size (v_geometry vol))"
  shows "concat (map (cluster_data vol) cs) ! i = v_image vol ! nat (file_addr vol cs i)"
    and "p_offset (v_partition vol) \<le> file_addr vol cs i"
    and "file_addr vol cs i < p_offset (v_partition vol) + p_size (v_partition vol)"
proof -
  let ?k = "nat (g_cluster_size (v_geometry vol))"
  have k: "0 < ?k" "int ?k = g_cluster_size (v_geometry vol)"
    using cluster_size_pos [OF assms(1)] by simp_all
  have j: "i div ?k < length cs" "i mod ?k < ?k"
    using i k by (simp_all add: less_mult_imp_div_less)
  then have c: "cs ! (i div ?k) \<in> {2..v_last_cluster vol}" using assms(2) by (meson nth_mem subsetD)
  have m: "int (i mod ?k) < g_cluster_size (v_geometry vol)" using j(2) k(2) by linarith
  note inside = cluster_inside [OF assms(1), of "cs ! (i div ?k)"]
  have "concat (map (cluster_data vol) cs) ! i = cluster_data vol (cs ! (i div ?k)) ! (i mod ?k)"
    using i j length_cluster_data [OF assms(1)] assms(2)
    by (subst nth_concat_equal [where k = ?k]) auto
  also have "\<dots> = v_image vol ! nat (file_addr vol cs i)"
    using inside c m k unfolding cluster_data_def Let_def file_addr_def
    by (subst nth_slice) (auto simp: nat_add_distrib)
  finally show "concat (map (cluster_data vol) cs) ! i = v_image vol ! nat (file_addr vol cs i)" .
  show "p_offset (v_partition vol) \<le> file_addr vol cs i"
    and "file_addr vol cs i < p_offset (v_partition vol) + p_size (v_partition vol)"
    using inside c m k by (auto simp: file_addr_def Let_def)
qed

lemma ceil_covers:
  assumes "0 < (k :: int)" "len cs = - ((- n) div k)" "0 \<le> n"
  shows "nat n \<le> length cs * nat k"
proof -
  have "n \<le> len cs * k" using ceil_mult_ge [OF assms(1), of n] assms(2) by simp
  then have "nat n \<le> nat (len cs * k)" by linarith
  also have "\<dots> = length cs * nat k" using assms(1) by (simp add: nat_mult_distrib)
  finally show ?thesis .
qed

lemma fat_chain_subset: "fat_chain vol c cs \<Longrightarrow> set cs \<subseteq> {2..v_last_cluster vol}"
  by (induction rule: fat_chain.induct) auto

lemma file_bytes_prefix:
  assumes "volume_wf vol" "set cs \<subseteq> {2..v_last_cluster vol}"
    and n: "n \<le> length cs * nat (g_cluster_size (v_geometry vol))"
  shows "take n (concat (map (cluster_data vol) cs)) =
    map (\<lambda>i. v_image vol ! nat (file_addr vol cs i)) [0..<n]"
proof (rule nth_equalityI)
  have l: "length (concat (map (cluster_data vol) cs)) =
      length cs * nat (g_cluster_size (v_geometry vol))"
    using assms length_cluster_data [OF assms(1)]
    by (subst length_concat_equal [where k = "nat (g_cluster_size (v_geometry vol))"]) auto
  with n show "length (take n (concat (map (cluster_data vol) cs))) =
      length (map (\<lambda>i. v_image vol ! nat (file_addr vol cs i)) [0..<n])" by simp
  fix i assume "i < length (take n (concat (map (cluster_data vol) cs)))"
  then show "take n (concat (map (cluster_data vol) cs)) ! i =
      map (\<lambda>i. v_image vol ! nat (file_addr vol cs i)) [0..<n] ! i"
    using chain_bytes_nth(1) [OF assms(1,2), of i] n l by simp
qed

text \<open>
  C10: Reading a file of an opened ESP succeeds exactly when its FAT chain has the number of
  clusters that its size needs, and then returns exactly as many bytes as the directory entry
  says: byte \<open>i\<close> is the image's byte at offset \<open>i mod k\<close> of the chain's cluster number
  \<open>i div k\<close>, where \<open>k\<close> is the cluster size. All those addresses lie inside the ESP.
\<close>

theorem read_file_exact:
  assumes "find_esp img = Inr part" "fat_volume img part = Inr vol" "0 < e_size entry"
  shows "read_file vol entry what = Inr data \<longleftrightarrow>
      (\<exists>cs. fat_chain vol (e_cluster entry) cs \<and>
        len cs = - ((- e_size entry) div g_cluster_size (v_geometry vol)) \<and>
        (\<forall>i < nat (e_size entry). file_addr vol cs i \<in> {p_offset part..<p_offset part + p_size part}) \<and>
        data = map (\<lambda>i. img ! nat (file_addr vol cs i)) [0..<nat (e_size entry)])" (is "_ = ?R")
proof -
  note v = fat_volume_wf [OF find_esp_wf [OF assms(1)] assms(2)]
  note k = cluster_size_pos [OF v(1)]
  have "rbind (read_chain vol cs what) (\<lambda>data. Inr (py_slice data 0 (e_size entry))) =
      Inr (map (\<lambda>i. img ! nat (file_addr vol cs i)) [0..<nat (e_size entry)]) \<and>
      (\<forall>i < nat (e_size entry). file_addr vol cs i \<in> {p_offset part..<p_offset part + p_size part})"
    if "fat_chain vol (e_cluster entry) cs"
      "len cs = - ((- e_size entry) div g_cluster_size (v_geometry vol))" for cs
  proof -
    note s = fat_chain_subset [OF that(1)]
    have "nat (e_size entry) \<le> length cs * nat (g_cluster_size (v_geometry vol))"
      using ceil_covers [OF k that(2)] assms(3) by simp
    with read_chain_ok [OF v(1) s] file_bytes_prefix [OF v(1) s] chain_bytes_nth(2,3) [OF v(1) s] v(2,3) assms(3)
    show ?thesis by (auto simp: slice_nonneg)
  qed
  then show ?thesis
    using assms(3) unfolding read_file_def Let_def rbind_eq_Inr
    by (fastforce simp: chain_of_iff split: if_splits)
qed

section \<open>Errors\<close>

lemma image_read_error: "image_read img off n what = Inl e \<Longrightarrow> e = Beyond_end what off \<or> e = Short_read what off"
  by (auto simp: image_read_def Let_def split: if_splits)

lemma rmap_error: "rmap f xs = Inl e \<Longrightarrow> \<exists>x \<in> set xs. f x = Inl e"
  by (induction xs) (auto simp: rbind_eq_Inl)

lemma read_chain_error: "read_chain vol cs what = Inl e \<Longrightarrow> \<exists>off. e = Beyond_end what off \<or> e = Short_read what off"
  by (fastforce simp: read_chain_def Let_def rbind_eq_Inl dest!: rmap_error image_read_error)

text \<open>The two errors that never happen on an opened ESP.\<close>

definition impossible :: "esp_error \<Rightarrow> bool" where
  "impossible e \<longleftrightarrow> e = Struct_error \<or> e = Directories_too_large"

lemma impossible_simps [simp]:
  "\<not> impossible (Beyond_end w i)" "\<not> impossible (Short_read w i)" "\<not> impossible (Invalid_cluster w i)"
  "\<not> impossible (Chain_loops w i)" "\<not> impossible (Chain_length w i j k)"
  "\<not> impossible (Too_many_entries w)" "\<not> impossible (Cross_linked w i)"
  "\<not> impossible (Not_a_directory w u)" "\<not> impossible (No_file w)" "\<not> impossible (Names_no_file w)"
  "impossible Struct_error" "impossible Directories_too_large"
  by (simp_all add: impossible_def)

lemma chain_of_possible: "volume_wf vol \<Longrightarrow> chain_of vol c what = Inl e \<Longrightarrow> \<not> impossible e"
  unfolding chain_of_def by (drule (1) chain_loop_errors) auto

lemma read_chain_possible: "read_chain vol cs what = Inl e \<Longrightarrow> \<not> impossible e"
  by (drule read_chain_error) auto

lemma image_read_possible: "image_read img off n what = Inl e \<Longrightarrow> \<not> impossible e"
  by (drule image_read_error) auto

lemmas possible = chain_of_possible read_chain_possible image_read_possible

lemma read_file_possible: "volume_wf vol \<Longrightarrow> read_file vol entry what = Inl e \<Longrightarrow> \<not> impossible e"
  by (auto simp: read_file_def Let_def rbind_eq_Inl split: if_splits dest: possible)

lemma directory_possible:
  "volume_wf vol \<Longrightarrow> directory lower vol c what None = Inl e \<Longrightarrow> \<not> impossible e"
  by (auto simp: directory_def Let_def rbind_eq_Inl claim_in_def split: if_splits dest: possible)

lemma lookup_loop_Cons:
  "lookup_loop upper lower vol path parents entry (c # cs) =
     (if entry \<noteq> None \<and> \<not> is_directory (the entry) then Inl (Not_a_directory path (e_name (the entry)))
      else case directory lower vol (map_option e_cluster entry) (or_root (join_with [slash] parents)) None of
        Inl e \<Rightarrow> Inl e
      | Inr (found, _) \<Rightarrow>
          (case find (\<lambda>f. fold_name upper c \<in> {fold_name upper (e_name f), fold_name upper (e_short_name f)}) found of
             None \<Rightarrow> Inl (No_file path)
           | Some e \<Rightarrow> lookup_loop upper lower vol path (parents @ [c]) (Some e) cs))"
proof -
  have find_hd: "find P xs = (case filter P xs of [] \<Rightarrow> None | y # _ \<Rightarrow> Some y)" for P and xs :: "Entry list"
    by (induction xs) auto
  show ?thesis
    by (auto simp: Let_def rbind_def find_hd split: option.split sum.split list.split)
qed

declare lookup_loop.simps(2) [simp del]

lemma lookup_loop_possible:
  "volume_wf vol \<Longrightarrow> lookup_loop upper lower vol path parents entry cs = Inl e \<Longrightarrow> \<not> impossible e"
proof (induction cs arbitrary: parents entry)
  case (Cons c cs)
  then show ?case
    unfolding lookup_loop_Cons
    by (auto split: if_split_asm sum.split_asm option.split_asm dest: directory_possible)
qed simp

lemma find_esp_possible: "find_esp img = Inl e \<Longrightarrow> \<not> impossible e"
proof -
  have "find_sector_size img ss = Inl e \<Longrightarrow> \<not> impossible e" for ss
    by (induction ss) (auto simp: impossible_def rbind_eq_Inl split: if_split_asm dest: image_read_error)
  then have a: "gpt_sector_size img = Inl e \<Longrightarrow> \<not> impossible e"
    by (auto simp: gpt_sector_size_def Let_def rbind_eq_Inl impossible_def split: if_split_asm
      dest: image_read_error)
  have b: "gpt_entries img s = Inl e \<Longrightarrow> \<not> impossible e" for s
    by (auto simp: gpt_entries_def Let_def rbind_eq_Inl impossible_def split: if_split_asm
      dest: image_read_error)
  have c: "(case esps of [esp] \<Rightarrow> (if Q esp then Inl Esp_outside else Inr esp) | _ \<Rightarrow> Inl (Esp_count n))
      = Inl e \<Longrightarrow> \<not> impossible e" for esps :: "Partition list" and Q n
    by (auto simp: impossible_def split: list.split_asm if_split_asm)
  show "find_esp img = Inl e \<Longrightarrow> \<not> impossible e"
    unfolding find_esp_def Let_def rbind_eq_Inl
    by (elim disjE exE conjE) (erule a b c)+
qed

lemma fat_volume_possible: "fat_volume img part = Inl e \<Longrightarrow> \<not> impossible e"
proof -
  have "geometry boot part = Inl e \<Longrightarrow> \<not> impossible e" for boot
    by (auto simp: geometry_def Let_def impossible_def split: if_split_asm)
  then show "fat_volume img part = Inl e \<Longrightarrow> \<not> impossible e"
    by (auto simp: fat_volume_def Let_def rbind_eq_Inl impossible_def split: if_split_asm
      dest: image_read_error)
qed

section \<open>The byte budget of a walk\<close>

text \<open>
  What a walk has spent: the bytes of the claimed clusters and, once it has been read, of the
  root directory of a FAT12 or FAT16 volume.
\<close>

definition walk_inv :: "FatVolume \<Rightarrow> nat \<Rightarrow> WalkLimits \<Rightarrow> bool" where
  "walk_inv vol roots l \<longleftrightarrow>
     roots \<le> 1 \<and> claimed l \<subseteq> {2..v_last_cluster vol} \<and>
     p_size (v_partition vol) \<le> remaining l + int (card (claimed l)) * g_cluster_size (v_geometry vol)
       + (1 - int roots) * g_root_size (v_geometry vol)"

lemma walk_budget:
  assumes "volume_wf vol" "cs \<subseteq> {2..v_last_cluster vol}"
  shows "int (card cs) * g_cluster_size (v_geometry vol) + g_root_size (v_geometry vol)
    \<le> p_size (v_partition vol)"
proof -
  from assms(1) have w: "geometry_wf (v_partition vol) (v_geometry vol)"
    "v_last_cluster vol = g_clusters (v_geometry vol) + 1" unfolding volume_wf_def by blast+
  have "card cs \<le> card {2..v_last_cluster vol}" by (rule card_mono) (use assms(2) in auto)
  then have "int (card cs) \<le> g_clusters (v_geometry vol)"
    using w unfolding geometry_wf_def by simp linarith
  then have "int (card cs) * g_cluster_size (v_geometry vol)
      \<le> g_clusters (v_geometry vol) * g_cluster_size (v_geometry vol)"
    using w(1) by (intro mult_right_mono) (auto simp: geometry_wf_def)
  with w(1) show ?thesis unfolding geometry_wf_def by linarith
qed

lemma claim_keeps:
  assumes "volume_wf vol" "walk_inv vol roots l" "set cs \<subseteq> {2..v_last_cluster vol}" "distinct cs"
    and "roots' \<le> roots"
    and "sz = len cs * g_cluster_size (v_geometry vol)
      + int (roots - roots') * g_root_size (v_geometry vol)"
  shows "claim l cs sz what = Inl e \<Longrightarrow> \<not> impossible e"
    and "claim l cs sz what = Inr l' \<Longrightarrow> walk_inv vol roots' l'"
proof -
  let ?k = "g_cluster_size (v_geometry vol)" and ?r = "g_root_size (v_geometry vol)"
  have step: "p_size (v_partition vol) \<le>
      (remaining l - sz) + int (card (claimed l \<union> set cs)) * ?k + (1 - int roots') * ?r"
    if "claimed l \<inter> set cs = {}"
  proof -
    have "finite (claimed l)" using assms(2) finite_subset by (auto simp: walk_inv_def)
    then have "card (claimed l \<union> set cs) = card (claimed l) + length cs"
      using that assms(4) by (simp add: card_Un_disjoint distinct_card)
    then have "int (card (claimed l \<union> set cs)) * ?k = int (card (claimed l)) * ?k + len cs * ?k"
      by (simp add: distrib_right)
    moreover have "(1 - int roots') * ?r = (1 - int roots) * ?r + int (roots - roots') * ?r"
      using assms(5) by (simp add: algebra_simps of_nat_diff)
    ultimately show ?thesis
      using assms(2,6) unfolding walk_inv_def by linarith
  qed
  have r: "0 \<le> ?r" using assms(1) by (simp add: volume_wf_def geometry_wf_def)
  have "0 \<le> remaining l - sz" if "claimed l \<inter> set cs = {}"
  proof -
    have "int (card (claimed l \<union> set cs)) * ?k + ?r \<le> p_size (v_partition vol)"
      using assms(2,3) by (intro walk_budget [OF assms(1)]) (auto simp: walk_inv_def)
    moreover have "(1 - int roots') * ?r \<le> ?r"
      using mult_right_mono [OF _ r, of "1 - int roots'" 1] by simp
    ultimately show ?thesis using step [OF that] by linarith
  qed
  then show "claim l cs sz what = Inl e \<Longrightarrow> \<not> impossible e"
    by (auto simp: claim_def Let_def split: if_splits)
  show "claim l cs sz what = Inr l' \<Longrightarrow> walk_inv vol roots' l'"
    using step assms(2,3,5) by (auto simp: claim_Inr walk_inv_def)
qed

lemma directory_keeps:
  assumes "volume_wf vol" "walk_inv vol roots l" "cluster = None \<longrightarrow> roots = 1"
  shows "directory lower vol cluster what (Some l) = Inl e \<Longrightarrow> \<not> impossible e"
    and "directory lower vol cluster what (Some l) = Inr (es, ls) \<Longrightarrow>
      walk_inv vol (if cluster = None then 0 else roots) (the ls)"
proof -
  let ?geo = "v_geometry vol"
  have chain: "(claim l cs (len cs * g_cluster_size ?geo) what = Inl e \<longrightarrow> \<not> impossible e) \<and>
      (claim l cs (len cs * g_cluster_size ?geo) what = Inr l' \<longrightarrow>
        walk_inv vol (if cluster = None then 0 else roots) l')"
    if "fat_chain vol c cs" "cluster = None \<longrightarrow> g_fat32 ?geo" for c cs l'
  proof -
    have "cluster = None \<longrightarrow> g_root_size ?geo = 0"
      using that(2) assms(1) by (simp add: volume_wf_def geometry_wf_def)
    then show ?thesis
      using claim_keeps [OF assms(1,2) fat_chain_subset [OF that(1)], of "if cluster = None then 0 else roots"]
        fat_chain_distinct [OF that(1)] by (cases cluster) auto
  qed
  have root: "(claim l [] (g_root_size ?geo) what = Inl e \<longrightarrow> \<not> impossible e) \<and>
      (claim l [] (g_root_size ?geo) what = Inr l' \<longrightarrow> walk_inv vol 0 l')"
    if "cluster = None" for l'
    using claim_keeps [OF assms(1,2), of "[]" 0] assms(3) that by simp
  show "directory lower vol cluster what (Some l) = Inl e \<Longrightarrow> \<not> impossible e"
    using chain root assms(1) unfolding directory_def Let_def
    by (auto simp: rbind_eq_Inl claim_in_def chain_of_iff split: if_split_asm dest: possible)
  show "directory lower vol cluster what (Some l) = Inr (es, ls) \<Longrightarrow>
      walk_inv vol (if cluster = None then 0 else roots) (the ls)"
    using chain root unfolding directory_def Let_def
    by (auto simp: claim_in_def chain_of_iff split: if_split_asm)
qed

lemma walk_loop_possible:
  "walk_loop lower vol pending limits files = Inl e \<Longrightarrow> volume_wf vol \<Longrightarrow>
   walk_inv vol (roots_left pending) limits \<Longrightarrow> \<not> impossible e"
proof (induction lower vol pending limits files rule: walk_loop.induct)
  case (1 lower vol pending limits files)
  from 1(2) have ne: "pending \<noteq> []" by (subst (asm) walk_loop.simps) auto
  let ?p = "last pending"
  have roots: "snd ?p = None \<longrightarrow> roots_left pending = 1"
    using roots_left_last [OF ne] 1(4) by (auto simp: walk_inv_def)
  note keeps = directory_keeps [OF 1(3,4) roots, of lower "walk_what (fst ?p)"]
  show ?case
  proof (cases "directory lower vol (snd ?p) (walk_what (fst ?p)) (Some limits)")
    case (Inl e')
    with 1(2) ne keeps(1) show ?thesis by (subst (asm) walk_loop.simps) simp
  next
    case (Inr x)
    then obtain es ls where d: "directory lower vol (snd ?p) (walk_what (fst ?p)) (Some limits) = Inr (es, ls)"
      by (cases x) auto
    have "walk_inv vol (roots_left (butlast pending @ walk_dirs (fst ?p) es)) (the ls)"
      using keeps(2) [OF d] roots_left_last [OF ne] roots by (auto split: if_split_asm)
    moreover have "walk_loop lower vol (butlast pending @ walk_dirs (fst ?p) es) (the ls)
        (files @ walk_files (fst ?p) es) = Inl e"
      using 1(2) ne d by (subst (asm) walk_loop.simps) simp
    ultimately show ?thesis using 1(1) [OF ne d refl] 1(3) by blast
  qed
qed

lemma walk_possible:
  assumes "volume_wf vol" "walk lower vol = Inl e"
  shows "\<not> impossible e"
proof -
  have "walk_inv vol (roots_left [([], None)]) (walk_limits (p_size (v_partition vol)))"
    using assms(1) by (simp add: walk_inv_def walk_limits_def roots_left_def)
  with assms show ?thesis
    by (auto simp: walk_def rbind_eq_Inl dest: walk_loop_possible)
qed

lemma opened_wf: "find_esp img = Inr part \<Longrightarrow> fat_volume img part = Inr vol \<Longrightarrow> volume_wf vol"
  by (rule fat_volume_wf(1) [OF find_esp_wf])

lemma list_esp_files_possible: "list_esp_files lower img = Inl e \<Longrightarrow> \<not> impossible e"
  unfolding list_esp_files_def rbind_eq_Inl
  by (auto dest: find_esp_possible fat_volume_possible walk_possible [OF opened_wf])

lemma read_esp_file_possible: "read_esp_file upper lower img path = Inl e \<Longrightarrow> \<not> impossible e"
  unfolding read_esp_file_def rbind_eq_Inl lookup_def Let_def
  by (auto simp: rbind_eq_Inl impossible_def [of "Is_a_directory _"] split: if_split_asm
      dest: find_esp_possible fat_volume_possible lookup_loop_possible [OF opened_wf]
        read_file_possible [OF opened_wf])

lemma esp_reader_robust_parts:
  "list_esp_files lower img \<noteq> Inl Directories_too_large"
  "esp_main json_loads upper lower action img \<in> {Some 0, Some 1, Some 3}"
proof -
  show "list_esp_files lower img \<noteq> Inl Directories_too_large"
    using list_esp_files_possible [of lower img Directories_too_large] by auto
  have "read_esp_manifest json_loads upper lower img \<noteq> Inl Struct_error"
    using read_esp_file_possible [of upper lower img ESP_MANIFEST_PATH Struct_error]
    by (auto simp: read_esp_manifest_def rbind_eq_Inl split: option.split)
  moreover have "list_esp_files lower img \<noteq> Inl Struct_error"
    and "read_esp_file upper lower img path \<noteq> Inl Struct_error" for path
    using list_esp_files_possible [of lower img Struct_error]
      read_esp_file_possible [of upper lower img path Struct_error] by auto
  ultimately show "esp_main json_loads upper lower action img \<in> {Some 0, Some 1, Some 3}"
    by (cases action) (auto simp: esp_main_def exit_status_def split: sum.split)
qed

text \<open>
  C8: Whatever bytes the image holds, listing its ESP never reports that the directories are
  larger than the ESP (the guard that the code keeps only against a mistake in its own
  reasoning), and the script ends with one of its documented exit statuses 0, 1 and 3 for
  every action: no \<^verbatim>\<open>struct.error\<close> escapes from a hostile FAT.
\<close>

theorem esp_reader_robust:
  "list_esp_files lower img \<noteq> Inl Directories_too_large \<and>
   esp_main json_loads upper lower action img \<in> {Some 0, Some 1, Some 3}"
  using esp_reader_robust_parts by blast

section \<open>What a walk lists\<close>

text \<open>The directory at a cluster, and the files below it, as the volume stores them.\<close>

definition dir_holds :: "(ustr \<Rightarrow> ustr) \<Rightarrow> FatVolume \<Rightarrow> int option \<Rightarrow> Entry list \<Rightarrow> bool" where
  "dir_holds lower vol cluster es \<longleftrightarrow> directory lower vol cluster root_what None = Inr (es, None)"

inductive file_below :: "(ustr \<Rightarrow> ustr) \<Rightarrow> FatVolume \<Rightarrow> ustr \<Rightarrow> int option \<Rightarrow> EspFile \<Rightarrow> bool"
  for lower vol where
  below_here: "dir_holds lower vol cluster es \<Longrightarrow> e \<in> set es \<Longrightarrow> \<not> is_directory e \<Longrightarrow>
    file_below lower vol prefix cluster (EspFile (prefix @ e_name e) (e_size e))"
| below_sub: "dir_holds lower vol cluster es \<Longrightarrow> e \<in> set es \<Longrightarrow> is_directory e \<Longrightarrow>
    file_below lower vol (prefix @ e_name e @ [slash]) (Some (e_cluster e)) f \<Longrightarrow>
    file_below lower vol prefix cluster f"

lemma read_chain_what: "read_chain vol cs what = Inr data \<longleftrightarrow> read_chain vol cs what' = Inr data"
  by (simp add: read_chain_def Let_def rmap_Inr_iff esp_read.rd_Inr)

lemma directory_dir_holds:
  assumes "directory lower vol cluster what (Some l) = Inr (es, ls)"
  shows "dir_holds lower vol cluster es"
proof -
  have c: "chain_of vol c what = Inr cs \<Longrightarrow> chain_of vol c root_what = Inr cs" for c cs
    by (simp add: chain_of_iff)
  have r: "read_chain vol cs what = Inr data \<Longrightarrow> read_chain vol cs root_what = Inr data" for cs data
    by (simp add: read_chain_what [of vol cs what data root_what])
  show ?thesis
    using assms unfolding dir_holds_def directory_def Let_def
    by (auto simp: claim_in_def esp_read.rd_Inr dest!: c r split: if_split_asm)
qed

lemma dir_holds_unique: "dir_holds lower vol c es \<Longrightarrow> dir_holds lower vol c es' \<Longrightarrow> es = es'"
  by (simp add: dir_holds_def)

lemma file_below_iff:
  assumes "dir_holds lower vol cluster es"
  shows "file_below lower vol prefix cluster f \<longleftrightarrow>
    f \<in> set (walk_files prefix es) \<or>
    (\<exists>q c. (q, c) \<in> set (walk_dirs prefix es) \<and> file_below lower vol q c f)"
  using assms unfolding walk_files_def walk_dirs_def
  by (subst file_below.simps) (auto dest: dir_holds_unique intro: file_below.intros)

lemma walk_loop_files:
  "walk_loop lower vol pending limits files = Inr out \<Longrightarrow>
   set out = set files \<union> {f. \<exists>q c. (q, c) \<in> set pending \<and> file_below lower vol q c f}"
proof (induction lower vol pending limits files rule: walk_loop.induct)
  case (1 lower vol pending limits files)
  show ?case
  proof (cases "pending = []")
    case True
    with 1(2) show ?thesis by (subst (asm) walk_loop.simps) simp
  next
    case False
    obtain p c where pc: "last pending = (p, c)" by fastforce
    from 1(2) False obtain es ls where
      d: "directory lower vol c (walk_what p) (Some limits) = Inr (es, ls)"
      and w: "walk_loop lower vol (butlast pending @ walk_dirs p es) (the ls)
        (files @ walk_files p es) = Inr out"
      by (subst (asm) walk_loop.simps) (auto simp: pc split: prod.split_asm)
    have "set out = set (files @ walk_files p es) \<union>
        {f. \<exists>q k. (q, k) \<in> set (butlast pending @ walk_dirs p es) \<and> file_below lower vol q k f}"
      using 1(1) [OF False, of "(es, ls)" es ls] d w by (simp add: pc)
    then have "set out = set files \<union> (set (walk_files p es) \<union>
        {f. \<exists>q k. (q, k) \<in> set (walk_dirs p es) \<and> file_below lower vol q k f}) \<union>
        {f. \<exists>q k. (q, k) \<in> set (butlast pending) \<and> file_below lower vol q k f}" by auto
    moreover have "set (walk_files p es) \<union>
        {f. \<exists>q k. (q, k) \<in> set (walk_dirs p es) \<and> file_below lower vol q k f} =
        {f. file_below lower vol p c f}"
      unfolding file_below_iff [OF directory_dir_holds [OF d]] by blast
    moreover have "set pending = insert (p, c) (set (butlast pending))"
      using append_butlast_last_id [OF False] pc by (metis Un_insert_right list.simps(15)
        set_append sup_bot.right_neutral list.set(1))
    ultimately show ?thesis by auto
  qed
qed

text \<open>
  C9: The listing of an opened ESP is sorted and lists exactly the regular files that are
  reachable from the root directory, each under its path of stored names.
\<close>

theorem list_esp_files_reachable:
  assumes "list_esp_files lower img = Inr files" "find_esp img = Inr part" "fat_volume img part = Inr vol"
  shows "sorted files \<and> set files = {f. file_below lower vol [] None f}"
proof -
  from assms obtain out where "walk_loop lower vol [([], None)] (walk_limits (p_size (v_partition vol))) []
      = Inr out" "files = sort out"
    by (auto simp: list_esp_files_def walk_def)
  with walk_loop_files [of lower vol "[([], None)]"] show ?thesis by simp
qed

end
