(* ===== verification/Esp_Fixture.thy ===== *)
theory Esp_Fixture
  imports Esp_Safety
begin

text \<open>
  A small disk with an ESP: eight sectors of 512 bytes, the last five of them a FAT12 file
  system whose root directory holds one 600-byte file \<^verbatim>\<open>A.TXT\<close> in clusters 2 and 3. It
  instantiates the hypotheses of the theorems about opened volumes.
\<close>

definition demo_mbr :: bytes where
  "demo_mbr = zeros 450 @ [0xEE] @ zeros 59 @ [0x55, 0xAA]"

definition demo_esp_guid :: bytes where
  "demo_esp_guid =
     [0x28, 0x73, 0x2a, 0xc1, 0x1f, 0xf8, 0xd2, 0x11, 0xba, 0x4b, 0x00, 0xa0, 0xc9, 0x3e, 0xc9, 0x3b]"

definition demo_esp_entry :: bytes where
  "demo_esp_entry = demo_esp_guid @ zeros 16 @ le_bytes 8 3 @ le_bytes 8 7 @ zeros 80"

definition demo_gpt_head :: bytes where
  "demo_gpt_head = gpt_magic @ le_bytes 4 0x10000 @ le_bytes 4 92"

definition demo_gpt_tail :: bytes where
  "demo_gpt_tail = zeros 52 @ le_bytes 8 2 @ le_bytes 4 1 @ le_bytes 4 128
     @ le_bytes 4 (crc32 demo_esp_entry)"

definition demo_gpt_header :: bytes where
  "demo_gpt_header = demo_gpt_head @ le_bytes 4 (crc32 (demo_gpt_head @ zeros 4 @ demo_gpt_tail))
     @ demo_gpt_tail @ zeros 420"

definition demo_boot :: bytes where
  "demo_boot = zeros 11 @ le_bytes 2 512 @ [1] @ le_bytes 2 1 @ [1] @ le_bytes 2 16 @ le_bytes 2 5
     @ [0] @ le_bytes 2 1 @ zeros 486 @ [0x55, 0xAA]"

definition demo_fat :: bytes where
  "demo_fat = zeros 3 @ [0x03, 0xF0, 0xFF] @ zeros 506"

definition demo_raw_entry :: bytes where
  "demo_raw_entry = [0x41, 0x20, 0x20, 0x20, 0x20, 0x20, 0x20, 0x20, 0x54, 0x58, 0x54, 0x20]
     @ zeros 14 @ le_bytes 2 2 @ le_bytes 4 600"

definition demo_root :: bytes where
  "demo_root = demo_raw_entry @ zeros 480"

definition demo_disk :: bytes where
  "demo_disk = demo_mbr @ demo_gpt_header @ (demo_esp_entry @ zeros 384)
     @ demo_boot @ demo_fat @ demo_root @ zeros 1024"

lemma length_demo_esp [simp]:
  "length gpt_magic = 8" "length demo_mbr = 512" "length demo_esp_guid = 16"
  "length demo_esp_entry = 128" "length demo_gpt_head = 16" "length demo_gpt_tail = 72"
  "length demo_gpt_header = 512" "length demo_boot = 512" "length demo_fat = 512"
  "length demo_raw_entry = 32" "length demo_root = 512" "length demo_disk = 4096"
  by (simp_all add: gpt_magic_def demo_mbr_def demo_esp_guid_def demo_esp_entry_def demo_gpt_head_def
      demo_gpt_tail_def demo_gpt_header_def demo_boot_def demo_fat_def demo_raw_entry_def
      demo_root_def demo_disk_def)

lemma demo_disk_slices:
  "py_slice demo_disk 0 512 = demo_mbr" "py_slice demo_disk 512 1024 = demo_gpt_header"
  "py_slice demo_disk 512 520 = gpt_magic" "py_slice demo_disk 1024 1152 = demo_esp_entry"
  "py_slice demo_disk 1536 2048 = demo_boot" "py_slice demo_disk 2048 2560 = demo_fat"
  "py_slice demo_disk 2560 3072 = demo_root"
  by (simp_all add: demo_disk_def slice_simps demo_gpt_header_def demo_gpt_head_def)

lemma demo_read:
  "0 \<le> off \<Longrightarrow> 0 \<le> n \<Longrightarrow> off + n \<le> 4096 \<Longrightarrow>
   image_read demo_disk off n w = Inr (py_slice demo_disk off (off + n))"
  by (rule esp_read.rd_inside) simp_all

definition demo_part :: Partition where
  "demo_part = \<lparr>p_offset = 1536, p_size = 2560, p_sector_size = 512\<rparr>"

lemma demo_sector_size: "gpt_sector_size demo_disk = Inr 512"
proof -
  have "py_slice demo_mbr 510 512 = [0x55, 0xAA]" "demo_mbr ! 450 = 0xEE"
    by (simp_all add: demo_mbr_def slice_simps nth_append)
  then show ?thesis
    by (simp add: gpt_sector_size_def demo_read demo_disk_slices GPT_SECTOR_SIZES_def Let_def
        upt_rec)
qed

lemma demo_header_parts:
  "le_at demo_gpt_header 12 4 = 92" "le_at demo_gpt_header 72 8 = 2" "le_at demo_gpt_header 80 4 = 1"
  "le_at demo_gpt_header 84 4 = 128" "le_at demo_gpt_header 88 4 = crc32 demo_esp_entry"
  "le_at demo_gpt_header 16 4 = crc32 (demo_gpt_head @ zeros 4 @ demo_gpt_tail)"
  "py_slice demo_gpt_header 0 16 = demo_gpt_head" "py_slice demo_gpt_header 20 92 = demo_gpt_tail"
  using crc32_bounds [of demo_esp_entry] crc32_bounds [of "demo_gpt_head @ zeros 4 @ demo_gpt_tail"]
  by (simp_all add: le_at_def demo_gpt_header_def slice_simps)
    (simp_all add: demo_gpt_head_def demo_gpt_tail_def slice_simps)

lemma demo_gpt_entries: "gpt_entries demo_disk 512 = Inr [demo_esp_entry]"
  by (simp add: gpt_entries_def Let_def demo_read demo_disk_slices demo_header_parts
      MAX_GPT_ARRAY_BYTES_def push_bit_eq_mult py_range_def slice_simps)

lemma demo_find_esp: "find_esp demo_disk = Inr demo_part"
proof -
  have "uuid_le_str (py_slice demo_esp_entry 0 16) = ESP_TYPE_GUID"
    by (simp add: demo_esp_entry_def slice_simps)
      (simp add: demo_esp_guid_def uuid_le_str_def uuid_str_def slice_nonneg hex_def hex_byte_def
        hex_digit_def ESP_TYPE_GUID_def)
  moreover have "esp_partition 512 demo_esp_entry = demo_part"
    by (simp add: esp_partition_def demo_esp_entry_def le_at_def slice_simps demo_part_def)
  ultimately show ?thesis
    by (simp add: find_esp_def demo_sector_size demo_gpt_entries)
      (simp add: demo_part_def)
qed

definition demo_geometry :: Geometry where
  "demo_geometry = \<lparr>g_fat32 = False, g_fat_offset = 2048, g_fat_size = 512, g_root_offset = 2560,
     g_root_size = 512, g_root_cluster = 0, g_data_offset = 3072, g_cluster_size = 512,
     g_clusters = 2\<rparr>"

lemma demo_boot_parts:
  "le_at demo_boot 11 2 = 512" "le_at demo_boot 13 1 = 1" "le_at demo_boot 14 2 = 1"
  "le_at demo_boot 16 1 = 1" "le_at demo_boot 17 2 = 16" "le_at demo_boot 19 2 = 5"
  "le_at demo_boot 22 2 = 1" "py_slice demo_boot 510 512 = [0x55, 0xAA]"
  by (simp_all add: le_at_def demo_boot_def slice_simps)

lemma demo_geometry_ok: "geometry demo_boot demo_part = Inr demo_geometry"
  by (simp add: geometry_def demo_boot_parts demo_part_def demo_geometry_def DIRECTORY_ENTRY_def)

definition demo_volume :: FatVolume where
  "demo_volume = \<lparr>v_image = demo_disk, v_partition = demo_part, v_geometry = demo_geometry,
     v_last_cluster = 3, v_bits = 12, v_fat = demo_fat\<rparr>"

lemma demo_fat_volume: "fat_volume demo_disk demo_part = Inr demo_volume"
  by (simp add: fat_volume_def demo_part_def [THEN arg_cong, of p_offset] demo_read demo_disk_slices
      demo_geometry_ok)
    (simp add: demo_geometry_def demo_read demo_disk_slices FAT12_CLUSTER_LIMIT_def demo_volume_def)

lemma demo_chain: "fat_chain demo_volume 2 [2, 3]"
proof -
  have "le_at demo_fat 3 2 = 0xF003" "le_at demo_fat 4 2 = 0xFFF0"
    by (simp_all add: le_at_def demo_fat_def slice_simps)
  then have n: "next_cluster demo_volume 2 = Inr 3" "next_cluster demo_volume 3 = Inr 0xFFF"
    by (simp_all add: next_cluster_def demo_volume_def unpack_le_def)
  have v: "v_last_cluster demo_volume = 3" "END_OF_CHAIN (v_bits demo_volume) = 0xFF8"
    by (simp_all add: demo_volume_def END_OF_CHAIN_def)
  have "fat_chain demo_volume 3 [3]"
    by (rule fat_chain.chain_end [OF _ _ n(2)]) (simp_all add: v)
  then show ?thesis
    by (intro fat_chain.chain_link [OF _ _ n(1)]) (simp_all add: v)
qed

definition demo_entry_record :: Entry where
  "demo_entry_record = \<lparr>e_name = ascii ''A.TXT'', e_short_name = ascii ''A.TXT'', e_attributes = 0x20,
     e_cluster = 2, e_size = 600\<rparr>"

lemma demo_make_entry: "make_entry lower False [] demo_raw_entry = Some demo_entry_record"
proof -
  have d: "demo_raw_entry ! 0 = 0x41" "demo_raw_entry ! 11 = 0x20" "demo_raw_entry ! 12 = 0"
    "le_at demo_raw_entry 26 2 = 2" "le_at demo_raw_entry 28 4 = 600"
    "py_slice demo_raw_entry 0 8 = [0x41, 0x20, 0x20, 0x20, 0x20, 0x20, 0x20, 0x20]"
    "py_slice demo_raw_entry 8 11 = [0x54, 0x58, 0x54]"
    by (simp_all add: demo_raw_entry_def zeros_unfold le_at_def slice_nonneg)
  have s: "short_name lower demo_raw_entry = ascii ''A.TXT''"
    by (simp add: short_name_def d rstrip_of_def decode_cp437_def ascii_def)
  have "ascii ''A.TXT'' \<noteq> ascii ''.''" "ascii ''A.TXT'' \<noteq> ascii ''..''"
    by (simp_all add: ascii_def)
  then show ?thesis
    by (simp add: make_entry_def Let_def d s long_name_def ATTRIBUTE_VOLUME_LABEL_def demo_entry_record_def)
qed

lemma demo_entries: "entries_of lower demo_volume demo_root = [demo_entry_record]"
proof -
  have r: "py_range 0 481 32 =
      0 # 32 # map (\<lambda>i. int i * 32) [2..<16]"
    by (simp add: py_range_def DIRECTORY_ENTRY_def upt_rec [of 0] upt_rec [of "Suc 0"] numeral_2_eq_2)
  have "py_slice demo_root 0 32 = demo_raw_entry" "py_slice demo_root 32 64 = zeros 32"
    by (simp_all add: demo_root_def slice_simps)
  moreover have "demo_raw_entry ! 0 = 0x41" "demo_raw_entry ! 11 = 0x20" "zeros 32 ! 0 = 0"
    by (simp_all add: demo_raw_entry_def zeros_unfold)
  ultimately show ?thesis
    by (simp add: entries_of_def r demo_make_entry demo_volume_def demo_geometry_def DIRECTORY_ENTRY_def
        DELETED_def ATTRIBUTE_LONG_NAME_def)
qed

lemma demo_listing: "list_esp_files lower demo_disk = Inr [EspFile (ascii ''A.TXT'') 600]"
proof -
  have d: "directory lower demo_volume None w (Some (walk_limits 2560)) =
      Inr ([demo_entry_record], Some \<lparr>claimed = {}, remaining = 2048\<rparr>)" for w
    using demo_entries [of lower]
    by (simp add: directory_def Let_def demo_volume_def demo_geometry_def claim_in_def claim_def
        walk_limits_def demo_read demo_disk_slices)
  have "\<not> is_directory demo_entry_record"
    by (simp add: is_directory_def demo_entry_record_def ATTRIBUTE_DIRECTORY_def)
  then have "walk_loop lower demo_volume [([], None)] (walk_limits 2560) [] =
      Inr [EspFile (ascii ''A.TXT'') 600]"
    by (subst walk_loop.simps, simp add: d walk_files_def walk_dirs_def, subst walk_loop.simps)
      (simp add: demo_entry_record_def)
  then show ?thesis
    by (simp add: list_esp_files_def demo_find_esp demo_fat_volume walk_def)
      (simp add: demo_volume_def demo_part_def)
qed

theorem chain_of_exact_witness:
  "chain_of demo_volume 2 [] = Inr [2, 3] \<and> distinct [2, 3 :: int] \<and>
   set [2, 3] \<subseteq> {2..v_last_cluster demo_volume}"
  using chain_of_exact [OF demo_find_esp demo_fat_volume, of "[]"] demo_chain
  by blast

theorem read_file_exact_witness:
  "\<exists>cs. fat_chain demo_volume 2 cs \<and> len cs = 2 \<and>
     file_addr demo_volume cs ` {..<600} \<subseteq> {1536..<4096} \<and>
     map (\<lambda>i. demo_disk ! nat (file_addr demo_volume cs i)) [0..<600] = zeros 600"
proof -
  have e: "0 < e_size demo_entry_record" by (simp add: demo_entry_record_def)
  have c: "chain_of demo_volume 2 [] = Inr [2, 3]" using demo_chain by (simp add: chain_of_iff)
  have sl: "py_slice demo_disk 3072 3584 = zeros 512" "py_slice demo_disk 3584 4096 = zeros 512"
    by (simp_all add: demo_disk_def slice_simps)
  have z: "py_slice (zeros 512 @ zeros 512) 0 600 = zeros 600"
    by (simp add: zeros_def slice_nonneg flip: replicate_add)
  have v: "v_image demo_volume = demo_disk" "g_data_offset (v_geometry demo_volume) = 3072"
    "g_cluster_size (v_geometry demo_volume) = 512" "e_cluster demo_entry_record = 2"
    "e_size demo_entry_record = 600" "p_offset demo_part = 1536" "p_size demo_part = 2560"
    by (simp_all add: demo_volume_def demo_geometry_def demo_entry_record_def demo_part_def)
  have "read_chain demo_volume [2, 3] [] = Inr (zeros 512 @ zeros 512)"
    by (simp add: read_chain_def v demo_read sl)
  then have "read_file demo_volume demo_entry_record [] = Inr (zeros 600)"
    by (simp add: read_file_def v c z del: rbind_eq_Inr)
  then show ?thesis
    using read_file_exact [OF demo_find_esp demo_fat_volume e, of "[]" "zeros 600"]
    unfolding image_subset_iff lessThan_iff Ball_def by (simp add: v) metis
qed

theorem list_esp_files_reachable_witness:
  "{f. file_below rev demo_volume [] None f} = {EspFile (ascii ''A.TXT'') 600}"
  using list_esp_files_reachable [OF demo_listing demo_find_esp demo_fat_volume, of rev] by simp

end
