(* ===== verification/Framed_Stream.thy ===== *)
theory Framed_Stream
  imports Py_Prelude
begin

text \<open>
  Byte streams that are a sequence of framed items: OpenPGP packets and EFI signature lists are
  both read by a loop that parses one item at an offset, appends it to the result and goes on
  behind it. A \<open>framed_stream\<close> is such a loop over a step that always moves forward within the
  data. A \<open>framed_codec\<close> adds an encoder whose output the step reads back wherever it stands in
  a stream.
\<close>

text \<open>
  \<open>tiles step data off items\<close>: the data from \<open>off\<close> on is exactly this sequence of items, one
  behind the other up to the last byte.
\<close>

fun tiles :: "(bytes \<Rightarrow> int \<Rightarrow> 'e + 'i \<times> int) \<Rightarrow> bytes \<Rightarrow> int \<Rightarrow> 'i list \<Rightarrow> bool" where
  "tiles step data off [] \<longleftrightarrow> off = len data"
| "tiles step data off (x # xs) \<longleftrightarrow> (\<exists>n. step data off = Inr (x, n) \<and> tiles step data n xs)"

locale framed_stream =
  fixes step :: "bytes \<Rightarrow> int \<Rightarrow> 'e + 'i \<times> int"
    and run :: "bytes \<Rightarrow> int \<Rightarrow> 'i list \<Rightarrow> 'e + 'i list"
  assumes run_unfold: "0 \<le> off \<Longrightarrow> run data off acc =
      (if off < len data then rbind (step data off) (\<lambda>(x, next_off). run data next_off (acc @ [x]))
       else Inr acc)"
    and step_forward: "0 \<le> off \<Longrightarrow> step data off = Inr (x, next_off) \<Longrightarrow> off < next_off \<and> next_off \<le> len data"
begin

lemma run_tiles:
  "0 \<le> off \<Longrightarrow> off \<le> len data \<Longrightarrow>
   run data off acc = Inr ys \<longleftrightarrow> (\<exists>xs. ys = acc @ xs \<and> tiles step data off xs)"
proof (induction "nat (len data - off)" arbitrary: off acc rule: less_induct)
  case less
  note fw = step_forward [OF less(2), of data]
  show ?case
  proof (cases "off < len data")
    case False
    have "tiles step data off xs \<longleftrightarrow> xs = []" for xs
      using False less(2,3) fw by (cases xs) force+
    with False show ?thesis using less(2) by (auto simp: run_unfold)
  next
    case True
    show ?thesis
    proof (cases "step data off")
      case (Inl e)
      then have "\<not> tiles step data off xs" for xs using True by (cases xs) auto
      with Inl True less(2) show ?thesis by (simp add: run_unfold)
    next
      case (Inr p)
      then obtain x n where s: "step data off = Inr (x, n)" by (cases p) auto
      have "run data n (acc @ [x]) = Inr ys \<longleftrightarrow> (\<exists>xs. ys = (acc @ [x]) @ xs \<and> tiles step data n xs)"
        using fw [OF s] less(2) by (intro less(1)) auto
      also have "\<dots> \<longleftrightarrow> (\<exists>xs. ys = acc @ xs \<and> tiles step data off xs)"
      proof
        assume "\<exists>xs. ys = acc @ xs \<and> tiles step data off xs"
        then obtain xs where xs: "ys = acc @ xs" "tiles step data off xs" by blast
        then show "\<exists>xs. ys = (acc @ [x]) @ xs \<and> tiles step data n xs"
          using s True by (cases xs) auto
      next
        assume "\<exists>xs. ys = (acc @ [x]) @ xs \<and> tiles step data n xs"
        then obtain xs where "ys = acc @ x # xs" "tiles step data off (x # xs)" using s by auto
        then show "\<exists>xs. ys = acc @ xs \<and> tiles step data off xs" by blast
      qed
      finally show ?thesis using s True less(2) by (simp add: run_unfold)
    qed
  qed
qed

text \<open>The loop always returns: a list of items, or the error of one step.\<close>

lemma run_error:
  "0 \<le> off \<Longrightarrow> run data off acc = Inl e \<Longrightarrow> \<exists>o'. 0 \<le> o' \<and> o' < len data \<and> step data o' = Inl e"
proof (induction "nat (len data - off)" arbitrary: off acc rule: less_induct)
  case less
  from less(2,3) have lt: "off < len data" by (auto simp: run_unfold split: if_splits)
  show ?case
  proof (cases "step data off")
    case (Inl e')
    with less(2,3) lt show ?thesis by (auto simp: run_unfold)
  next
    case (Inr p)
    obtain x n where p: "p = (x, n)" by fastforce
    with Inr less(2,3) lt have "run data n (acc @ [x]) = Inl e" by (simp add: run_unfold)
    then show ?thesis
      using step_forward [OF less(2), of data x n] Inr p less(1) [of n] less(2) by simp
  qed
qed

end

locale framed_codec = framed_stream step run
  for step :: "bytes \<Rightarrow> int \<Rightarrow> 'e + 'i \<times> int" and run +
  fixes enc :: "'i \<Rightarrow> bytes" and ok :: "'i \<Rightarrow> bool"
  assumes step_enc: "ok x \<Longrightarrow> step (pre @ enc x @ post) (len pre) = Inr (x, len pre + len (enc x))"
begin

lemma tiles_enc:
  "(\<And>x. x \<in> set xs \<Longrightarrow> ok x) \<Longrightarrow> tiles step (pre @ concat (map enc xs)) (len pre) xs"
proof (induction xs arbitrary: pre)
  case (Cons x xs)
  have "step (pre @ concat (map enc (x # xs))) (len pre) = Inr (x, len pre + len (enc x))"
    using step_enc [of x pre "concat (map enc xs)"] Cons.prems by simp
  moreover have "tiles step ((pre @ enc x) @ concat (map enc xs)) (len (pre @ enc x)) xs"
    using Cons.prems by (intro Cons.IH) simp
  ultimately show ?case by simp
qed simp

lemma run_enc:
  assumes "\<And>x. x \<in> set xs \<Longrightarrow> ok x"
  shows "run (concat (map enc xs)) 0 [] = Inr xs"
  using tiles_enc [of xs "[]", OF assms] run_tiles [of 0 "concat (map enc xs)" "[]" xs] by simp

text \<open>The encoding is uniquely readable, so it is injective.\<close>

lemma enc_inject:
  assumes "\<And>x. x \<in> set xs \<union> set ys \<Longrightarrow> ok x" "concat (map enc xs) = concat (map enc ys)"
  shows "xs = ys"
proof -
  have "Inr xs = (Inr ys :: 'e + 'i list)"
    using run_enc [of xs] run_enc [of ys] assms by (metis UnCI)
  then show ?thesis by simp
qed

end

end
