(* ===== verification/Openpgp.thy ===== *)
theory Openpgp
  imports Framed_Stream
begin

text \<open>
  The OpenPGP packet framing \<^verbatim>\<open>mkosi/private/openpgp.py\<close>: ASCII armor, packet headers of both
  formats, certificates and detached signatures, and the version 4 RSA packets of the ephemeral
  test signer. SHA-1, SHA-256 and the RSA signer are parameters.
\<close>

section \<open>Byte literals, armor and base64\<close>

definition b8 :: "string \<Rightarrow> bytes" where
  "b8 s = map of_char s"

definition TAG_SIGNATURE :: int where "TAG_SIGNATURE = 2"
definition TAG_SECRET_KEY :: int where "TAG_SECRET_KEY = 5"
definition TAG_PUBLIC_KEY :: int where "TAG_PUBLIC_KEY = 6"
definition TAG_SECRET_SUBKEY :: int where "TAG_SECRET_SUBKEY = 7"
definition TAG_TRUST :: int where "TAG_TRUST = 12"
definition TAG_USER_ID :: int where "TAG_USER_ID = 13"
definition TAG_PUBLIC_SUBKEY :: int where "TAG_PUBLIC_SUBKEY = 14"
definition TAG_USER_ATTRIBUTE :: int where "TAG_USER_ATTRIBUTE = 17"

definition CERTIFICATE_TAGS :: "int set" where
  "CERTIFICATE_TAGS = {TAG_PUBLIC_KEY, TAG_SIGNATURE, TAG_TRUST, TAG_USER_ID, TAG_PUBLIC_SUBKEY,
     TAG_USER_ATTRIBUTE}"

lemmas tag_defs = TAG_SIGNATURE_def TAG_SECRET_KEY_def TAG_PUBLIC_KEY_def TAG_SECRET_SUBKEY_def
  TAG_TRUST_def TAG_USER_ID_def TAG_PUBLIC_SUBKEY_def TAG_USER_ATTRIBUTE_def CERTIFICATE_TAGS_def

text \<open>
  One constructor per \<^verbatim>\<open>raise ValueError\<close>; \<open>Index_error\<close> is the \<^verbatim>\<open>IndexError\<close> that \<^verbatim>\<open>packets\<close>
  catches and \<open>Pack_error\<close> the error of a value that does not fit its field.
\<close>

datatype pgp_error =
    Expected_armor string
  | Bad_base64
  | Armor_checksum
  | Invalid_packet_header int
  | Indeterminate_length
  | Partial_length
  | Index_error
  | Truncated_packet_header
  | Truncated_packet
  | No_packets
  | Key_version
  | Secret_key_material
  | Not_one_certificate
  | Foreign_packets
  | Not_detached_signature
  | Signature_count int
  | Pack_error

definition crc24_bit :: "int \<Rightarrow> int" where
  "crc24_bit crc =
     (let crc = push_bit 1 crc in if crc AND 0x1000000 \<noteq> 0 then crc XOR 0x1864CFB else crc)"

definition crc24 :: "bytes \<Rightarrow> int" where
  "crc24 data =
     foldl (\<lambda>crc b. (crc24_bit ^^ 8) (crc XOR push_bit 16 (uint b))) 0xB704CE data AND 0xFFFFFF"

definition is_space :: "byte \<Rightarrow> bool" where
  "is_space b \<longleftrightarrow> b \<in> {0x20, 0x09, 0x0A, 0x0D, 0x0B, 0x0C}"

definition strip_bytes :: "bytes \<Rightarrow> bytes" where
  "strip_bytes data = rstrip_of is_space (dropWhile is_space data)"

text \<open>\<^verbatim>\<open>bytes.split()\<close>: the maximal runs without white space.\<close>

function words_of :: "bytes \<Rightarrow> bytes list" where
  "words_of data =
     (let rest = dropWhile is_space data
      in if rest = [] then []
      else takeWhile (\<lambda>b. \<not> is_space b) rest # words_of (dropWhile (\<lambda>b. \<not> is_space b) rest))"
  by pat_completeness auto

termination words_of
proof (relation "measure length", goal_cases)
  case (2 data rest)
  obtain a bs where r: "rest = a # bs" using 2(2) by (meson neq_Nil_conv)
  with 2 hd_dropWhile [of is_space data] have "\<not> is_space a" by (metis list.sel(1))
  then have "length (dropWhile (\<lambda>b. \<not> is_space b) rest) \<le> length bs"
    by (simp add: r length_dropWhile_le)
  moreover have "length rest \<le> length data" using 2(1) by (simp add: length_dropWhile_le)
  ultimately show ?case using r by simp
qed simp

fun strip_prefix :: "'a list \<Rightarrow> 'a list \<Rightarrow> 'a list option" where
  "strip_prefix [] ys = Some ys"
| "strip_prefix (x # xs) (y # ys) = (if x = y then strip_prefix xs ys else None)"
| "strip_prefix (x # xs) [] = None"

definition strip_suffix :: "'a list \<Rightarrow> 'a list \<Rightarrow> 'a list option" where
  "strip_suffix xs ys = map_option rev (strip_prefix (rev xs) (rev ys))"

fun strip_eol :: "bytes \<Rightarrow> bytes option" where
  "strip_eol (b # bs) =
     (if b = 0x0A then Some bs
      else if b = 0x0D then (case bs of c # cs \<Rightarrow> if c = 0x0A then Some cs else None | [] \<Rightarrow> None)
      else None)"
| "strip_eol [] = None"

definition in_line :: "byte \<Rightarrow> bool" where
  "in_line b \<longleftrightarrow> b \<noteq> 0x0D \<and> b \<noteq> 0x0A"

lemma strip_eol_shrinks: "strip_eol bs = Some rest \<Longrightarrow> length rest < length bs"
  by (cases bs) (auto split: if_splits list.splits)

text \<open>\<^verbatim>\<open>(?:[^\r\n]+\r?\n)*?\r?\n\<close>: armor headers up to and including the first empty line.\<close>

function skip_armor_headers :: "bytes \<Rightarrow> bytes option" where
  "skip_armor_headers bs =
     (case strip_eol bs of
        Some rest \<Rightarrow> Some rest
      | None \<Rightarrow>
          if takeWhile in_line bs = [] then None
          else (case strip_eol (dropWhile in_line bs) of
              Some rest \<Rightarrow> skip_armor_headers rest
            | None \<Rightarrow> None))"
  by pat_completeness auto

termination skip_armor_headers
  by (relation "measure length")
    (auto dest!: strip_eol_shrinks intro: less_le_trans [OF _ length_dropWhile_le])

text \<open>
  \<^verbatim>\<open>_ARMOR.fullmatch\<close>: the label of capitals and spaces, and the text between the armor headers and
  the final line with the same label.
\<close>

definition armor_match :: "bytes \<Rightarrow> (bytes \<times> bytes) option" where
  "armor_match data =
     (case strip_prefix (b8 ''-----BEGIN PGP '') data of
        None \<Rightarrow> None
      | Some rest \<Rightarrow>
          let is_label = (\<lambda>b. 0x41 \<le> b \<and> b \<le> 0x5A \<or> b = 0x20); label = takeWhile is_label rest
          in if label = [] then None
          else case strip_prefix (b8 ''-----'') (dropWhile is_label rest) of
            None \<Rightarrow> None
          | Some rest \<Rightarrow> (case strip_eol rest of
              None \<Rightarrow> None
            | Some rest \<Rightarrow> (case skip_armor_headers rest of
                None \<Rightarrow> None
              | Some rest \<Rightarrow>
                  map_option (\<lambda>body. (label, body))
                    (strip_suffix (b8 ''-----END PGP '' @ label @ b8 ''-----'') rest))))"

definition b64_value :: "byte \<Rightarrow> int option" where
  "b64_value b =
     (if 0x41 \<le> b \<and> b \<le> 0x5A then Some (uint b - 0x41)
      else if 0x61 \<le> b \<and> b \<le> 0x7A then Some (uint b - 0x61 + 26)
      else if 0x30 \<le> b \<and> b \<le> 0x39 then Some (uint b - 0x30 + 52)
      else if b = 0x2B then Some 62 else if b = 0x2F then Some 63 else None)"

text \<open>\<^verbatim>\<open>base64.b64decode(s, validate=True)\<close>; \<^const>\<open>None\<close> is \<^verbatim>\<open>binascii.Error\<close>, a \<^verbatim>\<open>ValueError\<close>.\<close>

fun b64decode :: "bytes \<Rightarrow> bytes option" where
  "b64decode [] = Some []"
| "b64decode (a # b # c # d # rest) =
     (case (b64_value a, b64_value b) of
        (Some va, Some vb) \<Rightarrow>
          (if rest = [] \<and> c = 0x3D \<and> d = 0x3D
           then Some (be_bytes 1 ((va * 64 + vb) div 16))
           else case b64_value c of
             None \<Rightarrow> None
           | Some vc \<Rightarrow>
               (if rest = [] \<and> d = 0x3D
                then Some (be_bytes 2 ((va * 4096 + vb * 64 + vc) div 4))
                else case b64_value d of
                  None \<Rightarrow> None
                | Some vd \<Rightarrow> map_option ((@) (be_bytes 3 (va * 262144 + vb * 4096 + vc * 64 + vd)))
                    (b64decode rest)))
      | _ \<Rightarrow> None)"
| "b64decode _ = None"

definition of_option :: "'e \<Rightarrow> 'a option \<Rightarrow> 'e + 'a" where
  "of_option e x = (case x of None \<Rightarrow> Inl e | Some y \<Rightarrow> Inr y)"

lemma of_option_Inr [simp]: "of_option e x = Inr y \<longleftrightarrow> x = Some y"
  by (simp add: of_option_def split: option.split)

definition dearmor :: "bytes \<Rightarrow> string \<Rightarrow> pgp_error + bytes" where
  "dearmor data label =
     (if strip_prefix (b8 ''-----BEGIN PGP '') (dropWhile is_space data) = None then Inr data
      else
        case armor_match (strip_bytes data) of
          None \<Rightarrow> Inl (Expected_armor label)
        | Some (found, body) \<Rightarrow>
            (if found \<noteq> b8 label then Inl (Expected_armor label)
             else
               let lines = words_of body;
                   has_checksum = lines \<noteq> [] \<and> take 1 (last lines) = b8 ''=''
               in rbind (if has_checksum
                     then rbind (of_option Bad_base64 (b64decode (drop 1 (last lines)))) (\<lambda>c. Inr (Some c))
                     else Inr None) (\<lambda>checksum.
                  rbind (of_option Bad_base64
                      (b64decode (concat (if has_checksum then butlast lines else lines)))) (\<lambda>binary.
                    if checksum \<noteq> None \<and> checksum \<noteq> Some (be_bytes 3 (crc24 binary))
                    then Inl Armor_checksum else Inr binary))))"

section \<open>Packets\<close>

definition at :: "bytes \<Rightarrow> int \<Rightarrow> pgp_error + byte" where
  "at data i = of_option Index_error (index_at data i)"

definition old_length_bytes :: "byte \<Rightarrow> int option" where
  "old_length_bytes first_octet =
     (if first_octet AND 3 = 0 then Some 1 else if first_octet AND 3 = 1 then Some 2
      else if first_octet AND 3 = 2 then Some 4 else None)"

definition packet_header :: "bytes \<Rightarrow> int \<Rightarrow> pgp_error + int \<times> int \<times> int" where
  "packet_header data offset =
     rbind (at data offset) (\<lambda>first_octet.
     if first_octet AND 0x80 = 0 then Inl (Invalid_packet_header offset)
     else if first_octet AND 0x40 = 0 then
       (case old_length_bytes first_octet of
          None \<Rightarrow> Inl Indeterminate_length
        | Some length_bytes \<Rightarrow>
            let start = offset + 1 + length_bytes
            in Inr (uint (drop_bit 2 first_octet AND 0x0F), start, be_int (py_slice data (offset + 1) start)))
     else
       rbind (at data (offset + 1)) (\<lambda>octet.
       if octet < 192 then Inr (uint (first_octet AND 0x3F), offset + 2, uint octet)
       else if octet < 224 then
         rbind (at data (offset + 2)) (\<lambda>low_octet.
           Inr (uint (first_octet AND 0x3F), offset + 3, push_bit 8 (uint octet - 192) + uint low_octet + 192))
       else if octet = 255 then
         Inr (uint (first_octet AND 0x3F), offset + 6, be_int (py_slice data (offset + 2) (offset + 6)))
       else Inl Partial_length))"

definition packet_step :: "bytes \<Rightarrow> int \<Rightarrow> pgp_error + (int \<times> bytes) \<times> int" where
  "packet_step data offset =
     (case packet_header data offset of
        Inl e \<Rightarrow> Inl (if e = Index_error then Truncated_packet_header else e)
      | Inr (tag, start, n) \<Rightarrow>
          if start + n > len data then Inl Truncated_packet
          else Inr ((tag, py_slice data start (start + n)), start + n))"

lemma packet_header_forward:
  "packet_header data offset = Inr (tag, start, n) \<Longrightarrow> offset < start \<and> 0 \<le> n"
  by (auto simp: packet_header_def at_def old_length_bytes_def Let_def uint_byte push_bit_eq_mult
      word_less_def split: if_splits option.splits)
    (use uint_byte(1) in \<open>smt (verit)\<close>)

lemma packet_step_forward:
  "packet_step data offset = Inr (x, next_off) \<Longrightarrow> offset < next_off \<and> next_off \<le> len data"
  by (auto simp: packet_step_def split: sum.split_asm if_split_asm dest!: packet_header_forward)

function packets_loop :: "bytes \<Rightarrow> int \<Rightarrow> (int \<times> bytes) list \<Rightarrow> pgp_error + (int \<times> bytes) list" where
  "packets_loop data offset result =
     (if offset < len data then
        rbind (packet_step data offset) (\<lambda>(p, next_off). packets_loop data next_off (result @ [p]))
      else Inr result)"
  by pat_completeness auto

termination packets_loop
  by (relation "measure (\<lambda>(data, offset, result). nat (len data - offset))")
    (auto dest: packet_step_forward)

declare packets_loop.simps [simp del]

definition packets :: "bytes \<Rightarrow> pgp_error + (int \<times> bytes) list" where
  "packets data =
     rbind (packets_loop data 0 []) (\<lambda>result. if result = [] then Inl No_packets else Inr result)"

interpretation pgp: framed_stream packet_step packets_loop
  by unfold_locales (simp_all add: packets_loop.simps packet_step_forward)

definition packet :: "int \<Rightarrow> bytes \<Rightarrow> pgp_error + bytes" where
  "packet tag body =
     (let n = len body
      in if 0xC0 OR tag < 0 \<or> 0xC0 OR tag > 255 then Inl Pack_error
      else if n < 192 then Inr ([word_of_int (0xC0 OR tag)] @ [word_of_int n] @ body)
      else if n < 8384
      then Inr ([word_of_int (0xC0 OR tag)]
        @ [word_of_int (drop_bit 8 (n - 192) + 192), word_of_int ((n - 192) AND 0xFF)] @ body)
      else if n < 2 ^ 32 then Inr ([word_of_int (0xC0 OR tag)] @ (0xFF # be_bytes 4 n) @ body)
      else Inl Pack_error)"

section \<open>Certificates and signatures\<close>

text \<open>The header of a packet that \<^const>\<open>packet\<close> wrote, anywhere in a stream.\<close>

lemma index_at_append: "index_at (pre @ x # xs) (len pre) = Some x"
  by (simp add: index_at_def Let_def)

lemma index_at_append1: "index_at (pre @ w # x # xs) (len pre + 1) = Some x"
  using index_at_append [of "pre @ [w]" x xs] by (simp add: add.commute)

lemma index_at_append2: "index_at (pre @ v # w # x # xs) (len pre + 2) = Some x"
  using index_at_append [of "pre @ [v, w]" x xs] by (simp add: add.commute)

lemma new_format_tag:
  assumes "0 \<le> tag" "tag < 64"
  shows "0 \<le> 0xC0 OR tag" "0xC0 OR tag \<le> (255 :: int)"
    "(word_of_int (0xC0 OR tag) :: byte) AND 0x80 \<noteq> 0"
    "(word_of_int (0xC0 OR tag) :: byte) AND 0x40 \<noteq> 0"
    "uint ((word_of_int (0xC0 OR tag) :: byte) AND 0x3F) = tag"
proof -
  have "\<forall>t \<in> set [0..63]. 0 \<le> 0xC0 OR t \<and> 0xC0 OR t \<le> 255
      \<and> (word_of_int (0xC0 OR t) :: byte) AND 0x80 \<noteq> 0
      \<and> (word_of_int (0xC0 OR t) :: byte) AND 0x40 \<noteq> 0
      \<and> uint ((word_of_int (0xC0 OR t) :: byte) AND 0x3F) = t"
    by code_simp
  with assms show "0 \<le> 0xC0 OR tag" "0xC0 OR tag \<le> (255 :: int)"
    "(word_of_int (0xC0 OR tag) :: byte) AND 0x80 \<noteq> 0"
    "(word_of_int (0xC0 OR tag) :: byte) AND 0x40 \<noteq> 0"
    "uint ((word_of_int (0xC0 OR tag) :: byte) AND 0x3F) = tag"
    by auto
qed

definition packet_ok :: "int \<times> bytes \<Rightarrow> bool" where
  "packet_ok p \<longleftrightarrow> 0 \<le> fst p \<and> fst p < 64 \<and> len (snd p) < 2 ^ 32"

definition packet_bytes :: "int \<times> bytes \<Rightarrow> bytes" where
  "packet_bytes p = (case packet (fst p) (snd p) of Inr b \<Rightarrow> b | Inl _ \<Rightarrow> [])"

lemma packet_ok_Inr: "packet_ok p \<Longrightarrow> packet (fst p) (snd p) = Inr (packet_bytes p)"
  using new_format_tag(1,2) [of "fst p"]
  by (auto simp: packet_bytes_def packet_ok_def packet_def Let_def)

lemma packet_header_packet:
  assumes "packet_ok (tag, body)"
  shows "\<exists>hdr. packet_bytes (tag, body) = hdr @ body \<and>
    packet_header (pre @ (hdr @ body) @ post) (len pre) = Inr (tag, len pre + len hdr, len body)"
proof -
  let ?t = "word_of_int (0xC0 OR tag) :: byte"
  have b: "0 \<le> tag" "tag < 64" "len body < 2 ^ 32" using assms by (auto simp: packet_ok_def)
  note t = new_format_tag [OF b(1,2)]
  consider (short) "len body < 192" | (mid) "192 \<le> len body" "len body < 8384" | (long) "8384 \<le> len body"
    by linarith
  then show ?thesis
  proof cases
    case short
    have u: "uint (word_of_int (len body) :: byte) = len body"
      by (subst uint_word_of_int) (use short in simp)
    with short t show ?thesis
      by (intro exI [of _ "[?t, word_of_int (len body)]"])
        (simp add: packet_bytes_def packet_def Let_def packet_header_def at_def of_option_def index_at_append
          index_at_append1 word_less_def)
  next
    case mid
    let ?n = "len body - 192"
    have n: "0 \<le> ?n" "?n < 8192" using mid by simp_all
    let ?h = "word_of_int (drop_bit 8 ?n + 192) :: byte" and ?l = "word_of_int (?n AND 0xFF) :: byte"
    have d: "drop_bit 8 ?n = ?n div 256" "?n AND 0xFF = ?n mod 256"
      using take_bit_eq_mask [of 8 ?n]
      by (simp_all add: drop_bit_eq_div take_bit_eq_mod mask_eq_exp_minus_1)
    have uh: "uint ?h = ?n div 256 + 192"
      unfolding d uint_word_of_int by (rule mod_pos_pos_trivial) (use n in simp_all)
    have ul: "uint ?l = ?n mod 256"
      unfolding d uint_word_of_int by simp
    have v: "push_bit 8 (uint ?h - 192) + uint ?l + 192 = len body"
      unfolding uh ul by (simp add: push_bit_eq_mult)
    have c: "\<not> ?h < 192" "?h < 224"
      unfolding word_less_def uh using n by simp_all
    show ?thesis
      using mid t v c
      by (intro exI [of _ "[?t, ?h, ?l]"])
        (simp add: packet_bytes_def packet_def Let_def packet_header_def at_def of_option_def index_at_append
          index_at_append1 index_at_append2)
  next
    case long
    have s: "py_slice (pre @ (?t # 0xFF # be_bytes 4 (len body)) @ body @ post) (len pre + 2) (len pre + 6) =
        be_bytes 4 (len body)"
      using slice_middle [of "pre @ [?t, 0xFF]" "be_bytes 4 (len body)" "body @ post"]
      by (simp add: add.commute)
    show ?thesis
      using long b t s
      by (intro exI [of _ "?t # 0xFF # be_bytes 4 (len body)"])
        (simp add: packet_bytes_def packet_def Let_def packet_header_def at_def of_option_def index_at_append
          index_at_append1 word_less_def)
  qed
qed

lemma packet_step_packet:
  assumes "packet_ok p"
  shows "packet_step (pre @ packet_bytes p @ post) (len pre) = Inr (p, len pre + len (packet_bytes p))"
proof -
  obtain hdr where h: "packet_bytes p = hdr @ snd p"
    "packet_header (pre @ (hdr @ snd p) @ post) (len pre) = Inr (fst p, len pre + len hdr, len (snd p))"
    using packet_header_packet [of "fst p" "snd p" pre post] assms by (cases p) auto
  have "py_slice (pre @ (hdr @ snd p) @ post) (len pre + len hdr) (len pre + len hdr + len (snd p)) = snd p"
    using slice_middle [of "pre @ hdr" "snd p" post] by simp
  with h show ?thesis by (cases p) (simp add: packet_step_def)
qed

interpretation pgp_codec: framed_codec packet_step packets_loop packet_bytes packet_ok
  by unfold_locales (rule packet_step_packet)

lemma packets_packet:
  "ps \<noteq> [] \<Longrightarrow> (\<And>p. p \<in> set ps \<Longrightarrow> packet_ok p) \<Longrightarrow> packets (concat (map packet_bytes ps)) = Inr ps"
  by (simp add: packets_def pgp_codec.run_enc)

lemma packets_Inr:
  "packets data = Inr ps \<longleftrightarrow> ps \<noteq> [] \<and> tiles packet_step data 0 ps"
  using pgp.run_tiles [of 0 data "[]" ps] by (auto simp: packets_def split: if_splits)

section \<open>Keys\<close>

definition ascii_upper :: "char \<Rightarrow> char" where
  "ascii_upper c = (if CHR ''a'' \<le> c \<and> c \<le> CHR ''z'' then char_of (of_char c - 32 :: nat) else c)"

definition fingerprint :: "(bytes \<Rightarrow> bytes) \<Rightarrow> bytes \<Rightarrow> pgp_error + string" where
  "fingerprint sha1 public_key_body =
     (if public_key_body = [] \<or> public_key_body ! 0 \<noteq> 4 then Inl Key_version
      else if len public_key_body \<ge> 2 ^ 16 then Inl Pack_error
      else Inr (map ascii_upper (hex (sha1 (0x99 # be_bytes 2 (len public_key_body) @ public_key_body)))))"

definition certificate :: "(bytes \<Rightarrow> bytes) \<Rightarrow> bytes \<Rightarrow> pgp_error + bytes \<times> string" where
  "certificate sha1 data =
     rbind (dearmor data ''PUBLIC KEY BLOCK'') (\<lambda>binary.
     rbind (packets binary) (\<lambda>parsed.
       let tags = map fst parsed
       in if TAG_SECRET_KEY \<in> set tags \<or> TAG_SECRET_SUBKEY \<in> set tags then Inl Secret_key_material
       else if tags ! 0 \<noteq> TAG_PUBLIC_KEY \<or> count_list tags TAG_PUBLIC_KEY \<noteq> 1 then Inl Not_one_certificate
       else if \<not> set tags \<subseteq> CERTIFICATE_TAGS then Inl Foreign_packets
       else rbind (fingerprint sha1 (snd (parsed ! 0))) (\<lambda>f. Inr (binary, f))))"

definition detached_signature :: "bytes \<Rightarrow> pgp_error + bytes" where
  "detached_signature data =
     rbind (dearmor data ''SIGNATURE'') (\<lambda>binary.
     rbind (packets binary) (\<lambda>parsed.
       let tags = map fst parsed
       in if \<exists>tag \<in> set tags. tag \<noteq> TAG_SIGNATURE then Inl Not_detached_signature
       else if len tags \<noteq> 1 then Inl (Signature_count (len tags))
       else Inr binary))"

definition mpi :: "int \<Rightarrow> pgp_error + bytes" where
  "mpi value =
     (let bits = bit_length (nat \<bar>value\<bar>)
      in if int bits \<ge> 2 ^ 16 \<or> value < 0 then Inl Pack_error
      else Inr (be_bytes 2 (int bits) @ be_bytes ((bits + 7) div 8) value))"

definition rsa_public_key :: "int \<Rightarrow> int \<Rightarrow> int \<Rightarrow> pgp_error + bytes" where
  "rsa_public_key modulus exponent created =
     (if created < 0 \<or> created \<ge> 2 ^ 32 then Inl Pack_error
      else rbind (mpi modulus) (\<lambda>m. rbind (mpi exponent) (\<lambda>e.
        Inr ([4] @ be_bytes 4 created @ [1] @ m @ e))))"

definition subpacket :: "int \<Rightarrow> bytes \<Rightarrow> pgp_error + bytes" where
  "subpacket kind value =
     (if len value + 1 > 255 \<or> kind < 0 \<or> kind > 255 then Inl Pack_error
      else Inr ([word_of_int (len value + 1), word_of_int kind] @ value))"

definition rsa_sha256_signature ::
    "(bytes \<Rightarrow> bytes) \<Rightarrow> (bytes \<Rightarrow> bytes) \<Rightarrow> bytes \<Rightarrow> int \<Rightarrow> int \<Rightarrow> bytes \<Rightarrow> (bytes \<Rightarrow> int) \<Rightarrow> int option
      \<Rightarrow> pgp_error + bytes" where
  "rsa_sha256_signature sha1 sha256 public_key_body signature_type created signed_data sign_digest key_flags =
     rbind (fingerprint sha1 public_key_body) (\<lambda>fp.
     rbind (of_option Pack_error (fromhex fp)) (\<lambda>key_fingerprint.
     if created < 0 \<or> created \<ge> 2 ^ 32 then Inl Pack_error else
     rbind (subpacket 2 (be_bytes 4 created)) (\<lambda>h1.
     rbind (subpacket 33 (4 # key_fingerprint)) (\<lambda>h2.
     rbind (case key_flags of None \<Rightarrow> Inr []
       | Some flags \<Rightarrow> if flags < 0 \<or> flags > 255 then Inl Pack_error else subpacket 27 [word_of_int flags]) (\<lambda>h3.
     let hashed = h1 @ h2 @ h3
     in if signature_type < 0 \<or> signature_type > 255 \<or> len hashed \<ge> 2 ^ 16 then Inl Pack_error
     else
       let flds = [4, word_of_int signature_type, 1, 8] @ be_bytes 2 (len hashed) @ hashed;
           digest = sha256 (signed_data @ flds @ [0x04, 0xFF] @ be_bytes 4 (len flds))
       in rbind (subpacket 16 (py_slice key_fingerprint (-8) (len key_fingerprint))) (\<lambda>unhashed.
          rbind (mpi (sign_digest digest)) (\<lambda>signature.
            Inr (flds @ be_bytes 2 (len unhashed) @ unhashed @ py_slice digest 0 2 @ signature))))))))"

definition user_id_certification_data :: "bytes \<Rightarrow> bytes \<Rightarrow> pgp_error + bytes" where
  "user_id_certification_data public_key_body user_id =
     (if len public_key_body \<ge> 2 ^ 16 \<or> len user_id \<ge> 2 ^ 32 then Inl Pack_error
      else Inr (0x99 # be_bytes 2 (len public_key_body) @ public_key_body
        @ 0xB4 # be_bytes 4 (len user_id) @ user_id))"

section \<open>Properties\<close>

lemma mpi_value:
  assumes "mpi value = Inr bs"
  shows "be_int (drop 2 bs) = value" "len bs = 2 + (be_int (take 2 bs) + 7) div 8"
proof -
  define bits where "bits = bit_length (nat \<bar>value\<bar>)"
  have v: "0 \<le> value" "int bits < 2 ^ 16" and bs: "bs = be_bytes 2 (int bits) @ be_bytes ((bits + 7) div 8) value"
    using assms by (auto simp: mpi_def Let_def bits_def split: if_splits)
  have "bits \<le> 8 * ((bits + 7) div 8)" by presburger
  then have "(2 :: int) ^ bits \<le> 2 ^ (8 * ((bits + 7) div 8))" by (rule power_increasing) simp
  also have "\<dots> = 256 ^ ((bits + 7) div 8)" by (simp add: power_mult)
  finally have "value < 256 ^ ((bits + 7) div 8)"
    using bit_length_bound [of "nat \<bar>value\<bar>"] v(1) unfolding bits_def [symmetric]
    by (metis abs_of_nonneg int_nat_eq less_le_trans of_nat_less_iff of_nat_numeral of_nat_power)
  then show "be_int (drop 2 bs) = value" using v bs by simp
  show "len bs = 2 + (be_int (take 2 bs) + 7) div 8" using v(2) bs by (simp add: zdiv_int)
qed

text \<open>
  The packet parser reads back what the packet writer wrote: a non-empty sequence of
  packets with tags below 64, written one behind the other, is parsed into the same sequence,
  for bodies of every length that the length field can hold.
\<close>

theorem packets_roundtrip:
  assumes "ps \<noteq> []" "\<forall>(tag, body) \<in> set ps. 0 \<le> tag \<and> tag < 64 \<and> len body < 2 ^ 32"
  shows "\<exists>encoded. rmap (\<lambda>(tag, body). packet tag body) ps = Inr encoded \<and> packets (concat encoded) = Inr ps"
proof -
  have ok: "packet_ok p" if "p \<in> set ps" for p
    using assms(2) that by (auto simp: packet_ok_def)
  have "rmap (\<lambda>(tag, body). packet tag body) ps = Inr (map packet_bytes ps)"
    using packet_ok_Inr [OF ok] by (auto simp: rmap_Inr_iff list_all2_conv_all_nth split_beta)
  with packets_packet [OF assms(1) ok] show ?thesis by blast
qed

theorem packets_roundtrip_witness:
  "\<exists>encoded. rmap (\<lambda>(tag, body). packet tag body) [(6, [4, 1]), (2, zeros 300)] = Inr encoded \<and>
    packets (concat encoded) = Inr [(6, [4, 1]), (2, zeros 300)]"
  by (rule packets_roundtrip) auto

text \<open>
  A public certificate is accepted exactly when its binary form is, from the first to the
  last byte, one primary key packet followed by packets of user identities, attributes,
  subkeys, signatures and trust only, and the primary key has a fingerprint; the binary form is
  returned unchanged with that fingerprint. So secret key material is never accepted.
\<close>

theorem certificate_accepts:
  "certificate sha1 data = Inr (binary, fp) \<longleftrightarrow>
     dearmor data ''PUBLIC KEY BLOCK'' = Inr binary \<and>
     (\<exists>key rest. tiles packet_step binary 0 ((TAG_PUBLIC_KEY, key) # rest) \<and>
       fst ` set rest \<subseteq> CERTIFICATE_TAGS - {TAG_PUBLIC_KEY} \<and> fingerprint sha1 key = Inr fp)"
  (is "?L = ?R")
proof
  assume ?L
  then obtain ps where d: "dearmor data ''PUBLIC KEY BLOCK'' = Inr binary" "packets binary = Inr ps"
    and c: "map fst ps ! 0 = TAG_PUBLIC_KEY" "count_list (map fst ps) TAG_PUBLIC_KEY = 1"
      "set (map fst ps) \<subseteq> CERTIFICATE_TAGS" "fingerprint sha1 (snd (ps ! 0)) = Inr fp"
    by (auto simp: certificate_def Let_def split: if_splits)
  from d(2) obtain p rest where p: "ps = p # rest" "tiles packet_step binary 0 ps"
    by (auto simp: packets_Inr neq_Nil_conv)
  moreover have "\<forall>q \<in> set rest. fst q \<noteq> TAG_PUBLIC_KEY"
    using c(1,2) p(1) by (simp add: count_list_0_iff image_iff) metis
  moreover obtain key where "p = (TAG_PUBLIC_KEY, key)" using c(1) p(1) by (cases p) simp
  ultimately have "tiles packet_step binary 0 ((TAG_PUBLIC_KEY, key) # rest)"
    "fst ` set rest \<subseteq> CERTIFICATE_TAGS - {TAG_PUBLIC_KEY}" "fingerprint sha1 key = Inr fp"
    using c(3,4) by (auto simp: image_iff)
  with d(1) show ?R by blast
next
  assume ?R
  then obtain key rest where d: "dearmor data ''PUBLIC KEY BLOCK'' = Inr binary"
    and t: "tiles packet_step binary 0 ((TAG_PUBLIC_KEY, key) # rest)"
    and r: "fst ` set rest \<subseteq> CERTIFICATE_TAGS - {TAG_PUBLIC_KEY}" "fingerprint sha1 key = Inr fp"
    by blast
  have "packets binary = Inr ((TAG_PUBLIC_KEY, key) # rest)" using t by (simp only: packets_Inr) simp
  moreover have "TAG_PUBLIC_KEY \<in> CERTIFICATE_TAGS" "TAG_SECRET_KEY \<notin> CERTIFICATE_TAGS"
    "TAG_SECRET_SUBKEY \<notin> CERTIFICATE_TAGS" by (simp_all add: tag_defs)
  moreover have "count_list (map fst rest) TAG_PUBLIC_KEY = 0" using r(1) by (auto simp: count_list_0_iff)
  ultimately show ?L using d r by (auto simp: certificate_def Let_def)
qed

text \<open>
  A detached signature is accepted exactly when its binary form is one signature packet
  and nothing else, and it is returned unchanged.
\<close>

theorem detached_signature_accepts:
  "detached_signature data = Inr binary \<longleftrightarrow>
     dearmor data ''SIGNATURE'' = Inr binary \<and>
     (\<exists>body. packet_step binary 0 = Inr ((TAG_SIGNATURE, body), len binary))"
proof -
  have one: "tiles packet_step binary 0 [p] \<longleftrightarrow> packet_step binary 0 = Inr (p, len binary)" for p
    by simp
  show ?thesis
  proof
    assume "detached_signature data = Inr binary"
    then obtain ps where d: "dearmor data ''SIGNATURE'' = Inr binary" "packets binary = Inr ps"
      "\<forall>p \<in> set ps. fst p = TAG_SIGNATURE" "length ps = 1"
      by (auto simp: detached_signature_def Let_def split: if_splits)
    then obtain body where "ps = [(TAG_SIGNATURE, body)]"
      by (cases ps) auto
    with d show "dearmor data ''SIGNATURE'' = Inr binary \<and>
        (\<exists>body. packet_step binary 0 = Inr ((TAG_SIGNATURE, body), len binary))"
      using one by (auto simp: packets_Inr)
  next
    assume a: "dearmor data ''SIGNATURE'' = Inr binary \<and>
        (\<exists>body. packet_step binary 0 = Inr ((TAG_SIGNATURE, body), len binary))"
    then obtain body where "packets binary = Inr [(TAG_SIGNATURE, body)]"
      using one by (auto simp: packets_Inr)
    with a show "detached_signature data = Inr binary" by (simp add: detached_signature_def)
  qed
qed

end
