(* ===== verification/Efi_Auth.thy ===== *)
theory Efi_Auth
  imports Framed_Stream
begin

text \<open>
  UEFI authenticated variable files \<^verbatim>\<open>mkosi/private/efi_auth.py\<close>: the writer of the ephemeral
  Secure Boot keys and the validator that the signed image build applies to enrolled keys.
\<close>

section \<open>Constants\<close>

definition EFI_CERT_TYPE_PKCS7 :: uuid where
  "EFI_CERT_TYPE_PKCS7 = uuid_of ''4aafd29d-68df-49ee-8aa9-347d375665a7''"

definition EFI_CERT_X509 :: uuid where
  "EFI_CERT_X509 = uuid_of ''a5c059a1-94e4-4aa7-87b5-ab155c2bf072''"

definition EFI_CERT_SHA256 :: uuid where
  "EFI_CERT_SHA256 = uuid_of ''c1c41626-504c-4092-aca9-41f936934328''"

definition EFI_GLOBAL_VARIABLE :: uuid where
  "EFI_GLOBAL_VARIABLE = uuid_of ''8be4df61-93ca-11d2-aa0d-00e098032b8c''"

definition EFI_IMAGE_SECURITY_DATABASE :: uuid where
  "EFI_IMAGE_SECURITY_DATABASE = uuid_of ''d719b2cb-3d3a-4596-a3bc-dad00e67656f''"

definition ATTRIBUTES :: int where "ATTRIBUTES = 0x27"

definition VARIABLES :: "(string \<times> uuid) list" where
  "VARIABLES =
     [(''PK'', EFI_GLOBAL_VARIABLE), (''KEK'', EFI_GLOBAL_VARIABLE),
      (''db'', EFI_IMAGE_SECURITY_DATABASE), (''dbx'', EFI_IMAGE_SECURITY_DATABASE)]"

definition REQUIRED :: "string list" where "REQUIRED = [''PK'', ''KEK'', ''db'']"

definition TIME_SIZE :: int where "TIME_SIZE = 16"
definition WIN_CERTIFICATE_SIZE :: int where "WIN_CERTIFICATE_SIZE = 24"
definition SIGNATURE_LIST_SIZE :: int where "SIGNATURE_LIST_SIZE = 28"
definition WIN_CERT_TYPE_EFI_GUID :: int where "WIN_CERT_TYPE_EFI_GUID = 0x0EF1"
definition WIN_CERT_REVISION :: int where "WIN_CERT_REVISION = 0x0200"

lemmas efi_sizes = TIME_SIZE_def WIN_CERTIFICATE_SIZE_def SIGNATURE_LIST_SIZE_def

datatype efi_error =
    Auth_too_short
  | Invalid_efi_time
  | Nonzero_time_fields
  | Not_uefi_guid_certificate
  | Not_pkcs7
  | Certificate_out_of_bounds
  | Signature_not_der
  | Truncated_signature_list
  | Inconsistent_signature_list
  | Empty_signature_list
  | Unknown_variable string
  | Pk_not_one_certificate
  | No_x509 string
  | Efi_pack_error
  | Efi_key_error

section \<open>Writing\<close>

definition efi_time :: "int \<Rightarrow> int \<Rightarrow> int \<Rightarrow> efi_error + bytes" where
  "efi_time year month day =
     (if year < 0 \<or> year \<ge> 2 ^ 16 \<or> month < 0 \<or> month > 255 \<or> day < 0 \<or> day > 255
      then Inl Efi_pack_error
      else Inr (le_bytes 2 year @ le_bytes 1 month @ le_bytes 1 day @ zeros 12))"

definition signature_list :: "bytes \<Rightarrow> uuid \<Rightarrow> efi_error + bytes" where
  "signature_list certificate_der owner =
     (let sz = SIGNATURE_LIST_SIZE + 16 + len certificate_der
      in if sz \<ge> 2 ^ 32 then Inl Efi_pack_error
      else Inr ((swap_guid EFI_CERT_X509 @ le_bytes 4 sz @ le_bytes 4 0 @ le_bytes 4 (16 + len certificate_der))
        @ swap_guid owner @ certificate_der))"

text \<open>\<^verbatim>\<open>name.encode("utf-16-le")\<close> of an ASCII name.\<close>

definition utf16_ascii :: "string \<Rightarrow> bytes" where
  "utf16_ascii s = concat (map (\<lambda>c. [of_char c, 0]) s)"

definition signed_payload :: "string \<Rightarrow> bytes \<Rightarrow> bytes \<Rightarrow> efi_error + bytes" where
  "signed_payload name timestamp data =
     (case map_of VARIABLES name of
        None \<Rightarrow> Inl Efi_key_error
      | Some vendor \<Rightarrow> Inr (utf16_ascii name @ swap_guid vendor @ le_bytes 4 ATTRIBUTES @ timestamp @ data))"

definition auth_file :: "bytes \<Rightarrow> bytes \<Rightarrow> bytes \<Rightarrow> efi_error + bytes" where
  "auth_file timestamp signed_data data =
     (if WIN_CERTIFICATE_SIZE + len signed_data \<ge> 2 ^ 32 then Inl Efi_pack_error
      else
        let header = le_bytes 4 (WIN_CERTIFICATE_SIZE + len signed_data) @ le_bytes 2 WIN_CERT_REVISION
              @ le_bytes 2 WIN_CERT_TYPE_EFI_GUID @ swap_guid EFI_CERT_TYPE_PKCS7
        in Inr (timestamp @ header @ signed_data @ data))"

section \<open>Parsing\<close>

text \<open>The signed time zone field is zero exactly when its two bytes are.\<close>

definition parse_time :: "bytes \<Rightarrow> efi_error + unit" where
  "parse_time data =
     (if len data < TIME_SIZE + WIN_CERTIFICATE_SIZE then Inl Auth_too_short
      else
        let year = le_at data 0 2; month = le_at data 2 1; day = le_at data 3 1; hour = le_at data 4 1;
            minute = le_at data 5 1; second = le_at data 6 1; pad1 = le_at data 7 1;
            nanosecond = le_at data 8 4; zone = le_at data 12 2; daylight = le_at data 14 1;
            pad2 = le_at data 15 1
        in if \<not> (1 \<le> month \<and> month \<le> 12 \<and> 1 \<le> day \<and> day \<le> 31 \<and> hour < 24 \<and> minute < 60 \<and> second < 60
              \<and> year \<ge> 1900)
        then Inl Invalid_efi_time
        else if pad1 \<noteq> 0 \<or> nanosecond \<noteq> 0 \<or> zone \<noteq> 0 \<or> daylight \<noteq> 0 \<or> pad2 \<noteq> 0
        then Inl Nonzero_time_fields
        else Inr ())"

definition parse_certificate :: "bytes \<Rightarrow> efi_error + bytes \<times> int" where
  "parse_certificate data =
     (let cert_length = le_at data TIME_SIZE 4; revision = le_at data (TIME_SIZE + 4) 2;
          certificate_type = le_at data (TIME_SIZE + 6) 2;
          cert_type = py_slice data (TIME_SIZE + 8) (TIME_SIZE + 24);
          end_off = TIME_SIZE + cert_length
      in if revision \<noteq> WIN_CERT_REVISION \<or> certificate_type \<noteq> WIN_CERT_TYPE_EFI_GUID
      then Inl Not_uefi_guid_certificate
      else if swap_guid cert_type \<noteq> EFI_CERT_TYPE_PKCS7 then Inl Not_pkcs7
      else if cert_length \<le> WIN_CERTIFICATE_SIZE \<or> end_off > len data then Inl Certificate_out_of_bounds
      else
        let signed_data = py_slice data (TIME_SIZE + WIN_CERTIFICATE_SIZE) end_off
        in if py_slice signed_data 0 1 \<noteq> [0x30] then Inl Signature_not_der
        else Inr (signed_data, end_off))"

definition signature_list_step :: "bytes \<Rightarrow> int \<Rightarrow> efi_error + (uuid \<times> bytes list) \<times> int" where
  "signature_list_step data offset =
     (if len data - offset < SIGNATURE_LIST_SIZE then Inl Truncated_signature_list
      else
        let signature_type = py_slice data offset (offset + 16); list_size = le_at data (offset + 16) 4;
            header_size = le_at data (offset + 20) 4; signature_size = le_at data (offset + 24) 4;
            body = offset + SIGNATURE_LIST_SIZE + header_size;
            end_off = offset + list_size
        in if end_off > len data \<or> body > end_off \<or> signature_size \<le> 16
             \<or> (end_off - body) mod signature_size \<noteq> 0
        then Inl Inconsistent_signature_list
        else
          let entries = map (\<lambda>start. py_slice data (start + 16) (start + signature_size))
                (py_range body end_off signature_size)
          in if entries = [] then Inl Empty_signature_list
          else Inr ((swap_guid signature_type, entries), end_off))"

lemma signature_list_step_forward:
  "signature_list_step data offset = Inr (x, next_off) \<Longrightarrow> offset < next_off \<and> next_off \<le> len data"
  using le_at_nonneg [of data "offset + 20" 4]
  by (auto simp: signature_list_step_def Let_def SIGNATURE_LIST_SIZE_def split: if_split_asm
    simp del: le_at_nonneg)

function signature_lists_loop ::
    "bytes \<Rightarrow> int \<Rightarrow> (uuid \<times> bytes list) list \<Rightarrow> efi_error + (uuid \<times> bytes list) list" where
  "signature_lists_loop data offset sigs =
     (if offset < len data then
        rbind (signature_list_step data offset) (\<lambda>(l, next_off).
          signature_lists_loop data next_off (sigs @ [l]))
      else Inr sigs)"
  by pat_completeness auto

termination signature_lists_loop
  by (relation "measure (\<lambda>(data, offset, sigs). nat (len data - offset))")
    (auto dest: signature_list_step_forward)

declare signature_lists_loop.simps [simp del]

interpretation efi: framed_stream signature_list_step signature_lists_loop
  by unfold_locales (simp_all add: signature_lists_loop.simps signature_list_step_forward)

definition signature_lists :: "bytes \<Rightarrow> efi_error + (uuid \<times> bytes list) list" where
  "signature_lists data = signature_lists_loop data 0 []"

definition parse_auth :: "string \<Rightarrow> bytes \<Rightarrow> efi_error + bytes \<times> (uuid \<times> bytes list) list" where
  "parse_auth name data =
     (if name \<notin> fst ` set VARIABLES then Inl (Unknown_variable name)
      else
        rbind (parse_time data) (\<lambda>_.
        rbind (parse_certificate data) (\<lambda>(signed_data, end_off).
        rbind (signature_lists (py_slice data end_off (len data))) (\<lambda>sigs.
          if name = ''PK'' \<and> (length sigs \<noteq> 1 \<or> fst (sigs ! 0) \<noteq> EFI_CERT_X509 \<or> length (snd (sigs ! 0)) \<noteq> 1)
          then Inl Pk_not_one_certificate
          else if name \<in> {''KEK'', ''db''} \<and> \<not> (\<exists>l \<in> set sigs. fst l = EFI_CERT_X509)
          then Inl (No_x509 name)
          else Inr (signed_data, sigs)))))"

definition x509_certificates :: "(uuid \<times> bytes list) list \<Rightarrow> bytes list" where
  "x509_certificates sigs = concat (map snd (filter (\<lambda>l. fst l = EFI_CERT_X509) sigs))"

section \<open>Round trip\<close>

lemma uuid_values:
  "EFI_CERT_X509 = [0xa5, 0xc0, 0x59, 0xa1, 0x94, 0xe4, 0x4a, 0xa7, 0x87, 0xb5, 0xab, 0x15, 0x5c, 0x2b, 0xf0, 0x72]"
  "EFI_CERT_TYPE_PKCS7 = [0x4a, 0xaf, 0xd2, 0x9d, 0x68, 0xdf, 0x49, 0xee, 0x8a, 0xa9, 0x34, 0x7d, 0x37, 0x56, 0x65, 0xa7]"
  by (simp_all add: EFI_CERT_X509_def EFI_CERT_TYPE_PKCS7_def uuid_of_def hex_value_def less_eq_char_def)

lemma length_uuids [simp]: "length EFI_CERT_X509 = 16" "length EFI_CERT_TYPE_PKCS7 = 16"
  by (simp_all add: uuid_values)

definition x509_ok :: "uuid \<Rightarrow> uuid \<times> bytes list \<Rightarrow> bool" where
  "x509_ok owner l \<longleftrightarrow> length owner = 16 \<and> fst l = EFI_CERT_X509 \<and>
     (\<exists>c. snd l = [c] \<and> c \<noteq> [] \<and> 44 + len c < 2 ^ 32)"

definition x509_bytes :: "uuid \<Rightarrow> uuid \<times> bytes list \<Rightarrow> bytes" where
  "x509_bytes owner l = (case signature_list (hd (snd l)) owner of Inr b \<Rightarrow> b | Inl _ \<Rightarrow> [])"

lemma signature_list_fields:
  fixes t :: uuid and post :: bytes
  assumes "length owner = 16" "44 + len c < 2 ^ 32"
  defines "d \<equiv> x509_bytes owner (t, [c]) @ post"
  shows "py_slice d 0 16 = swap_guid EFI_CERT_X509" "le_at d 16 4 = 44 + len c" "le_at d 20 4 = 0"
    "le_at d 24 4 = 16 + len c" "py_slice d 44 (44 + len c) = c"
proof -
  have d: "d = swap_guid EFI_CERT_X509 @ le_bytes 4 (44 + len c) @ le_bytes 4 0 @ le_bytes 4 (16 + len c)
      @ swap_guid owner @ c @ post"
    using assms(2) by (simp add: d_def x509_bytes_def signature_list_def Let_def efi_sizes)
  show "py_slice d 0 16 = swap_guid EFI_CERT_X509" "le_at d 16 4 = 44 + len c" "le_at d 20 4 = 0"
    "le_at d 24 4 = 16 + len c" "py_slice d 44 (44 + len c) = c"
    using assms(1,2) by (simp_all add: d le_at_def slice_simps)
qed

lemma length_x509_bytes:
  "length owner = 16 \<Longrightarrow> 44 + len c < 2 ^ 32 \<Longrightarrow> len (x509_bytes owner (t, [c])) = 44 + len c"
  by (simp add: x509_bytes_def signature_list_def Let_def efi_sizes)

lemma signature_list_step_x509:
  assumes "x509_ok owner l"
  shows "signature_list_step (pre @ x509_bytes owner l @ post) (len pre) =
    Inr (l, len pre + len (x509_bytes owner l))"
proof -
  obtain c where l: "l = (EFI_CERT_X509, [c])" and c: "c \<noteq> []" "44 + len c < 2 ^ 32"
    and ow: "length owner = 16"
    using assms by (cases l) (auto simp: x509_ok_def)
  let ?d = "x509_bytes owner l @ post"
  note f = signature_list_fields [OF ow c(2), where t = EFI_CERT_X509 and post = post, folded l]
    length_x509_bytes [OF ow c(2), of EFI_CERT_X509, folded l]
  have sh: "py_slice (pre @ ?d) (len pre) (len pre + 16) = py_slice ?d 0 16"
    "le_at (pre @ ?d) (len pre + 16) 4 = le_at ?d 16 4" "le_at (pre @ ?d) (len pre + 20) 4 = le_at ?d 20 4"
    "le_at (pre @ ?d) (len pre + 24) 4 = le_at ?d 24 4"
    "py_slice (pre @ ?d) (len pre + 44) (len pre + (44 + len c)) = py_slice ?d 44 (44 + len c)"
    using slice_shift [of 0 16 pre ?d] by (simp_all add: slice_shift le_at_shift del: append.assoc)
  have r: "py_range (len pre + 28) (len pre + (44 + len c)) (16 + len c) = [len pre + 28]"
    using py_range_single [of "16 + len c" "len pre + 28"] by (simp add: add.assoc)
  have m: "(len pre + (44 + len c) - (len pre + 28)) mod (16 + len c) = 0"
    by (simp add: algebra_simps)
  have e: "py_slice (pre @ ?d) (len pre + 28 + 16) (len pre + 28 + (16 + len c)) = c"
    using sh(5) f(5) by (simp add: algebra_simps)
  have n: "0 < len c" using c(1) by simp
  show ?thesis
    using f sh r m e n unfolding signature_list_step_def Let_def SIGNATURE_LIST_SIZE_def
    by (simp add: l)
qed

interpretation efi_codec: framed_codec signature_list_step signature_lists_loop "x509_bytes owner" "x509_ok owner"
  for owner
  by unfold_locales (rule signature_list_step_x509)

lemma length_efi_time: "efi_time year month day = Inr stamp \<Longrightarrow> length stamp = 16"
  by (auto simp: efi_time_def split: if_split_asm)

lemma efi_time_fields:
  assumes "efi_time year month day = Inr stamp"
  shows "le_at (stamp @ rest) 0 2 = year" "le_at (stamp @ rest) 2 1 = month"
    "le_at (stamp @ rest) 3 1 = day" "py_slice (stamp @ rest) 4 16 = zeros 12"
proof -
  have s: "stamp = le_bytes 2 year @ le_bytes 1 month @ le_bytes 1 day @ zeros 12"
    and b: "0 \<le> year" "year < 2 ^ 16" "0 \<le> month" "month < 256" "0 \<le> day" "day < 256"
    using assms by (auto simp: efi_time_def split: if_split_asm)
  show "le_at (stamp @ rest) 0 2 = year" "le_at (stamp @ rest) 2 1 = month"
    "le_at (stamp @ rest) 3 1 = day" "py_slice (stamp @ rest) 4 16 = zeros 12"
    using b by (simp_all add: s le_at_def slice_simps del: le_bytes.simps)
qed

lemma le_int_zeros [simp]: "le_int (zeros n) = 0"
  by (induction n) (simp_all add: zeros_def)

lemma parse_time_efi_time:
  assumes "efi_time year month day = Inr stamp" "1900 \<le> year" "1 \<le> month" "month \<le> 12" "1 \<le> day" "day \<le> 31"
    and "24 \<le> len rest"
  shows "parse_time (stamp @ rest) = Inr ()"
proof -
  note f = efi_time_fields [OF assms(1), of rest]
  have z: "le_at (stamp @ rest) a n = 0" if "4 \<le> a" "0 \<le> n" "a + n \<le> 16" for a n
  proof -
    have "py_slice (stamp @ rest) a (a + n) = py_slice (py_slice (stamp @ rest) 4 16) (a - 4) (a - 4 + n)"
      using that by (subst slice_slice) simp_all
    also have "\<dots> = zeros (nat n)" using that by (simp add: f(4) slice_zeros)
    finally show ?thesis by (simp add: le_at_def)
  qed
  show ?thesis
    using assms f length_efi_time [OF assms(1)] by (simp add: parse_time_def efi_sizes z)
qed

lemma parse_certificate_auth_file:
  assumes "auth_file stamp signed_data data = Inr file" "length stamp = 16" "take 1 signed_data = [0x30]"
  shows "parse_certificate file = Inr (signed_data, 40 + len signed_data)"
    "py_slice file (40 + len signed_data) (len file) = data"
    "\<exists>header. file = stamp @ header @ signed_data @ data \<and> length header = 24"
proof -
  let ?h = "le_bytes 4 (24 + len signed_data) @ le_bytes 2 0x200 @ le_bytes 2 0xEF1 @ swap_guid EFI_CERT_TYPE_PKCS7"
  have b: "24 + len signed_data < 2 ^ 32" and fl: "file = stamp @ ?h @ signed_data @ data"
    using assms(1) by (auto simp: auth_file_def efi_sizes WIN_CERT_REVISION_def WIN_CERT_TYPE_EFI_GUID_def
        split: if_split_asm)
  have h: "length ?h = 24" by simp
  have f: "le_at file 16 4 = 24 + len signed_data" "le_at file 20 2 = 0x200" "le_at file 22 2 = 0xEF1"
    "py_slice file 24 40 = swap_guid EFI_CERT_TYPE_PKCS7"
    using b assms(2) by (simp_all add: fl le_at_def slice_simps)
  have sd: "py_slice file 40 (40 + len signed_data) = signed_data"
    using slice_middle [of "stamp @ ?h" signed_data data] assms(2) h by (simp add: fl)
  have ne: "0 < len signed_data" using assms(3) by (cases signed_data) auto
  have der: "py_slice signed_data 0 1 = [0x30]" using assms(3) by (simp add: slice_nonneg)
  have le: "40 + len signed_data \<le> len file" using assms(2) by (simp add: fl)
  show "parse_certificate file = Inr (signed_data, 40 + len signed_data)"
    using f sd ne der le by (simp add: parse_certificate_def efi_sizes WIN_CERT_REVISION_def
        WIN_CERT_TYPE_EFI_GUID_def)
  show "py_slice file (40 + len signed_data) (len file) = data"
    using slice_shift [of 0 "len data" "stamp @ ?h @ signed_data" data] assms(2) h
    by (simp add: fl add.assoc)
  show "\<exists>header. file = stamp @ header @ signed_data @ data \<and> length header = 24"
    using fl h by blast
qed

lemma auth_file_parses:
  assumes "name \<in> {''PK'', ''KEK'', ''db'', ''dbx''}"
    and "efi_time year month day = Inr stamp" "1900 \<le> year" "1 \<le> month" "month \<le> 12" "1 \<le> day" "day \<le> 31"
    and "signature_list cert owner = Inr data" "length owner = 16" "cert \<noteq> []"
    and "auth_file stamp signed_data data = Inr af" "take 1 signed_data = [0x30]"
  shows "parse_auth name af = Inr (signed_data, [(EFI_CERT_X509, [cert])])"
proof -
  note c = parse_certificate_auth_file [OF assms(11) length_efi_time [OF assms(2)] assms(12)]
  have n: "name \<in> fst ` set VARIABLES" using assms(1) by (auto simp: VARIABLES_def)
  have t: "parse_time af = Inr ()"
    using c(3) parse_time_efi_time [OF assms(2-7)] by auto
  have data: "data = x509_bytes owner (EFI_CERT_X509, [cert])" "44 + len cert < 2 ^ 32"
    using assms(8) by (auto simp: x509_bytes_def signature_list_def Let_def efi_sizes split: if_split_asm)
  then have "x509_ok owner (EFI_CERT_X509, [cert])" using assms(9,10) by (simp add: x509_ok_def)
  then have "signature_lists data = Inr [(EFI_CERT_X509, [cert])]"
    using efi_codec.run_enc [of "[(EFI_CERT_X509, [cert])]" owner] data(1) by (simp add: signature_lists_def)
  then show ?thesis using n t c by (simp add: parse_auth_def)
qed

text \<open>
  C13: The \<^verbatim>\<open>.auth\<close> files that the ephemeral key generator writes pass the validator: for each
  Secure Boot variable, a valid date, a DER signature and a non-empty certificate, parsing the
  written file returns the signature and exactly that one X.509 certificate.
\<close>

theorem auth_file_roundtrip:
  assumes "name \<in> {''PK'', ''KEK'', ''db'', ''dbx''}"
    and "efi_time year month day = Inr stamp" "1900 \<le> year" "1 \<le> month" "month \<le> 12" "1 \<le> day" "day \<le> 31"
    and "signature_list cert owner = Inr data" "length owner = 16" "cert \<noteq> []"
    and "auth_file stamp signed_data data = Inr af" "take 1 signed_data = [0x30]"
  shows "parse_auth name af = Inr (signed_data, [(EFI_CERT_X509, [cert])]) \<and>
    x509_certificates [(EFI_CERT_X509, [cert])] = [cert]"
  using auth_file_parses [OF assms] by (simp_all add: x509_certificates_def)

lemma demo_auth_parts:
  obtains stamp data af where "efi_time 2026 1 1 = Inr stamp" "signature_list [1, 2, 3] (zeros 16) = Inr data"
    "auth_file stamp [0x30, 0] data = Inr af"
  by (simp add: efi_time_def signature_list_def auth_file_def Let_def efi_sizes)

theorem auth_file_roundtrip_witness:
  "\<exists>stamp data af. efi_time 2026 1 1 = Inr stamp \<and> signature_list [1, 2, 3] (zeros 16) = Inr data \<and>
     auth_file stamp [0x30, 0] data = Inr af \<and>
     parse_auth ''PK'' af = Inr ([0x30, 0], [(EFI_CERT_X509, [[1, 2, 3]])])"
proof -
  obtain stamp data af where d: "efi_time 2026 1 1 = Inr stamp" "signature_list [1, 2, 3] (zeros 16) = Inr data"
    "auth_file stamp [0x30, 0] data = Inr af" by (rule demo_auth_parts)
  have "parse_auth ''PK'' af = Inr ([0x30, 0], [(EFI_CERT_X509, [[1, 2, 3]])])"
    by (rule conjunct1 [OF auth_file_roundtrip [OF _ d(1) _ _ _ _ _ d(2) _ _ d(3)]]) simp_all
  with d show ?thesis by blast
qed

section \<open>The layout of an accepted file\<close>

text \<open>
  An \<^verbatim>\<open>EFI_SIGNATURE_LIST\<close> written out: its type, its header and its entries, each an owner and the data of a signature. All entries
  have one size.
\<close>

definition sig_entries :: "(bytes \<times> bytes) list \<Rightarrow> bytes" where
  "sig_entries entries = concat (map (\<lambda>(owner, data). owner @ data) entries)"

definition sig_list_bytes :: "uuid \<times> bytes \<times> (bytes \<times> bytes) list \<Rightarrow> bytes" where
  "sig_list_bytes l = (case l of (ty, header, entries) \<Rightarrow>
     swap_guid ty @ le_bytes 4 (28 + len header + len (sig_entries entries)) @ le_bytes 4 (len header)
       @ le_bytes 4 (16 + len (snd (hd entries))) @ header @ sig_entries entries)"

definition sig_list_ok :: "uuid \<times> bytes \<times> (bytes \<times> bytes) list \<Rightarrow> bool" where
  "sig_list_ok l \<longleftrightarrow> (case l of (ty, header, entries) \<Rightarrow>
     length ty = 16 \<and> entries \<noteq> [] \<and> 28 + len header + len (sig_entries entries) < 2 ^ 32 \<and>
     (\<exists>n > 0. \<forall>(owner, data) \<in> set entries. length owner = 16 \<and> length data = n))"

definition sig_list_view :: "uuid \<times> bytes \<times> (bytes \<times> bytes) list \<Rightarrow> uuid \<times> bytes list" where
  "sig_list_view l = (case l of (ty, header, entries) \<Rightarrow> (ty, map snd entries))"

lemma slice_le_at: "0 \<le> off \<Longrightarrow> off + int n \<le> len data \<Longrightarrow> py_slice data off (off + int n) = le_bytes n (le_at data off (int n))"
  using le_bytes_le_int [of "py_slice data off (off + int n)"] by (simp add: le_at_def length_slice_nat)

lemma slice_le_at_to:
  "0 \<le> off \<Longrightarrow> e = off + int n \<Longrightarrow> e \<le> len data \<Longrightarrow> py_slice data off e = le_bytes n (le_at data off (int n))"
  using slice_le_at by simp

lemma slice_chunks:
  assumes "0 \<le> a" "0 < k" "a + int m * k \<le> len data"
  shows "py_slice data a (a + int m * k) = concat (map (\<lambda>s. py_slice data s (s + k)) (py_range a (a + int m * k) k))"
proof -
  have r: "py_range a (a + int m * k) k = map (\<lambda>i. a + int i * k) [0..<m]"
  proof -
    have "(a + int m * k - a + k - 1) div k = int m" using assms(2) by (intro int_div_pos_eq [where r = "k - 1"]) auto
    then show ?thesis by (simp add: py_range_def)
  qed
  have "py_slice data a (a + int m' * k) = concat (map (\<lambda>i. py_slice data (a + int i * k) (a + int i * k + k)) [0..<m'])"
    if "m' \<le> m" for m'
    using that
  proof (induction m')
    case (Suc m')
    have e: "a + int (Suc m') * k = a + int m' * k + k" by (simp add: algebra_simps)
    have "py_slice data a (a + int m' * k) @ py_slice data (a + int m' * k) (a + int m' * k + k) = py_slice data a (a + int m' * k + k)"
      using assms by (intro slice_append_slice) auto
    with Suc show ?case unfolding e by simp
  qed simp
  from this [of m] show ?thesis by (simp add: r comp_def)
qed

lemma signature_list_step_layout:
  assumes "signature_list_step data off = Inr (l, next_off)" "0 \<le> off"
  shows "\<exists>sl. sig_list_ok sl \<and> l = sig_list_view sl \<and> py_slice data off next_off = sig_list_bytes sl"
proof -
  define list_size where "list_size = le_at data (off + 16) 4"
  define header_size where "header_size = le_at data (off + 20) 4"
  define k where "k = le_at data (off + 24) 4"
  define body where "body = off + 28 + header_size"
  define starts where "starts = py_range body next_off k"
  from assms(1) have s: "off + 28 \<le> len data" "next_off = off + list_size" "next_off \<le> len data" "body \<le> next_off" "16 < k"
      "(next_off - body) mod k = 0" "starts \<noteq> []"
      "l = (swap_guid (py_slice data off (off + 16)), map (\<lambda>start. py_slice data (start + 16) (start + k)) starts)"
    by (auto simp: signature_list_step_def Let_def efi_sizes list_size_def header_size_def k_def body_def starts_def split: if_split_asm)
  have nn: "0 \<le> header_size" "list_size < 2 ^ 32" using le_at_less [of "off + 16" 4 data] assms(2)
    by (simp_all add: header_size_def list_size_def)
  define m where "m = nat ((next_off - body) div k)"
  have m: "body + int m * k = next_off" using s(4-6) by (simp add: m_def pos_imp_zdiv_nonneg_iff mod_0_imp_dvd)
  have b0: "0 \<le> body" using assms(2) nn by (simp add: body_def)
  have inside: "body \<le> start \<and> start + k \<le> next_off" if "start \<in> set starts" for start
  proof -
    have "starts = map (\<lambda>i. body + int i * k) [0..<m]"
    proof -
      have "(int m * k + k - 1) div k = int m" using s(5) by (intro int_div_pos_eq [where r = "k - 1"]) auto
      then show ?thesis by (simp add: starts_def py_range_def flip: m)
    qed
    with that obtain i where "i < m" "start = body + int i * k" by auto
    moreover have "(int i + 1) * k \<le> int m * k" if "i < m" for i using that s(5) by (intro mult_right_mono) auto
    ultimately show ?thesis using s(5) m by (auto simp: algebra_simps)
  qed
  define entries where "entries = map (\<lambda>start. (py_slice data start (start + 16), py_slice data (start + 16) (start + k))) starts"
  define header where "header = py_slice data (off + 28) body"
  have el: "length (fst e) = 16 \<and> length (snd e) = nat (k - 16)" if "e \<in> set entries" for e
    using that inside s(3,5) b0 by (fastforce simp: entries_def length_slice_nat length_slice)
  have body_bytes: "py_slice data body next_off = sig_entries entries"
  proof -
    have "py_slice data body next_off = concat (map (\<lambda>s. py_slice data s (s + k)) starts)"
      using slice_chunks [of body k m data] b0 s(3,5) by (simp add: m starts_def)
    also have "\<dots> = sig_entries entries"
      using inside b0 s(3,5) by (force simp: sig_entries_def entries_def comp_def slice_append_slice intro!: arg_cong [where f = concat])
    finally show ?thesis .
  qed
  have hl: "len header = header_size" using s(3,4) assms(2) nn by (simp add: header_def body_def length_slice)
  have ll: "28 + len header + len (sig_entries entries) = list_size"
    using s(2,3,4) b0 by (simp add: hl flip: body_bytes) (simp add: length_slice body_def)
  have e0: "entries \<noteq> []" using s(7) by (simp add: entries_def)
  then have k: "16 + len (snd (hd entries)) = k" using el [OF hd_in_set] s(5) by simp
  let ?sl = "(swap_guid (py_slice data off (off + 16)), header, entries)"
  have ty: "length (py_slice data off (off + 16)) = 16" using s(1) assms(2) by (simp add: length_slice_nat)
  have "sig_list_ok ?sl"
    using ty e0 ll nn(2) el s(5) by (auto simp: sig_list_ok_def intro!: exI [of _ "nat (k - 16)"])
  moreover have "l = sig_list_view ?sl" using s(8) by (simp add: sig_list_view_def entries_def comp_def)
  moreover have "py_slice data off next_off = sig_list_bytes ?sl"
  proof -
    have "py_slice data off next_off = py_slice data off (off + 16) @ py_slice data (off + 16) (off + 20) @
        py_slice data (off + 20) (off + 24) @ py_slice data (off + 24) (off + 28) @ py_slice data (off + 28) body @ py_slice data body next_off"
      using assms(2) s(4) nn(1) by (simp add: slice_append_slice body_def)
    moreover have "py_slice data (off + 16) (off + 20) = le_bytes 4 list_size" "py_slice data (off + 20) (off + 24) = le_bytes 4 header_size"
        "py_slice data (off + 24) (off + 28) = le_bytes 4 k"
      using slice_le_at_to [of "off + 16" "off + 20" 4 data] slice_le_at_to [of "off + 20" "off + 24" 4 data]
        slice_le_at_to [of "off + 24" "off + 28" 4 data] assms(2) s(1)
      by (simp_all add: list_size_def header_size_def k_def)
    ultimately show ?thesis
      using ty ll [unfolded hl] by (simp add: sig_list_bytes_def hl k body_bytes flip: header_def)
  qed
  ultimately show ?thesis by blast
qed

lemma tiles_layout:
  assumes "tiles signature_list_step data off sigs" "0 \<le> off" "off \<le> len data"
  shows "\<exists>sls. list_all sig_list_ok sls \<and> sigs = map sig_list_view sls \<and>
    py_slice data off (len data) = concat (map sig_list_bytes sls)"
  using assms
proof (induction sigs arbitrary: off)
  case Nil
  then show ?case by (intro exI [of _ "[]"]) simp
next
  case (Cons l sigs)
  then obtain n where n: "signature_list_step data off = Inr (l, n)" "tiles signature_list_step data n sigs" by auto
  note f = signature_list_step_forward [OF n(1)]
  from signature_list_step_layout [OF n(1)] Cons.prems obtain sl where sl: "sig_list_ok sl" "l = sig_list_view sl"
    "py_slice data off n = sig_list_bytes sl" by auto
  from Cons.IH [OF n(2)] f Cons.prems obtain sls where sls: "list_all sig_list_ok sls" "sigs = map sig_list_view sls"
    "py_slice data n (len data) = concat (map sig_list_bytes sls)" by auto
  have "py_slice data off (len data) = py_slice data off n @ py_slice data n (len data)"
    using f Cons.prems by (simp add: slice_append_slice)
  with sl sls show ?case by (intro exI [of _ "sl # sls"]) simp
qed

text \<open>The 40 bytes in front of the signature: a time stamp without fractions and time zone, and the header of a PKCS #7 certificate.\<close>

definition auth_header :: "int \<Rightarrow> int \<Rightarrow> int \<Rightarrow> int \<Rightarrow> int \<Rightarrow> int \<Rightarrow> int \<Rightarrow> bytes" where
  "auth_header year month day hour minute second n =
     le_bytes 2 year @ le_bytes 1 month @ le_bytes 1 day @ le_bytes 1 hour @ le_bytes 1 minute @ le_bytes 1 second @ zeros 9
       @ le_bytes 4 (24 + n) @ le_bytes 2 0x0200 @ le_bytes 2 0x0EF1 @ swap_guid EFI_CERT_TYPE_PKCS7"

definition efi_date_ok :: "int \<Rightarrow> int \<Rightarrow> int \<Rightarrow> int \<Rightarrow> int \<Rightarrow> int \<Rightarrow> bool" where
  "efi_date_ok year month day hour minute second \<longleftrightarrow>
     1900 \<le> year \<and> year < 2 ^ 16 \<and> 1 \<le> month \<and> month \<le> 12 \<and> 1 \<le> day \<and> day \<le> 31 \<and> 0 \<le> hour \<and> hour < 24 \<and>
     0 \<le> minute \<and> minute < 60 \<and> 0 \<le> second \<and> second < 60"

lemma le_bytes_zero: "le_bytes n 0 = zeros n"
  by (induction n) (simp_all add: zeros_unfold)

lemma parse_time_layout:
  assumes "parse_time data = Inr ()"
  shows "\<exists>year month day hour minute second. efi_date_ok year month day hour minute second \<and> 40 \<le> len data \<and>
    py_slice data 0 16 = le_bytes 2 year @ le_bytes 1 month @ le_bytes 1 day @ le_bytes 1 hour @ le_bytes 1 minute @ le_bytes 1 second @ zeros 9"
proof -
  have l: "40 \<le> len data" using assms by (auto simp: parse_time_def efi_sizes split: if_split_asm)
  note f = slice_le_at [of 0 2 data] slice_le_at [of 2 1 data] slice_le_at [of 3 1 data] slice_le_at [of 4 1 data] slice_le_at [of 5 1 data]
    slice_le_at [of 6 1 data] slice_le_at [of 7 1 data] slice_le_at [of 8 4 data] slice_le_at [of 12 2 data] slice_le_at [of 14 1 data]
    slice_le_at [of 15 1 data]
  have z: "le_at data 7 1 = 0" "le_at data 8 4 = 0" "le_at data 12 2 = 0" "le_at data 14 1 = 0" "le_at data 15 1 = 0"
    and d: "efi_date_ok (le_at data 0 2) (le_at data 2 1) (le_at data 3 1) (le_at data 4 1) (le_at data 5 1) (le_at data 6 1)"
    using assms le_at_less [of 0 2 data] by (auto simp: parse_time_def Let_def efi_date_ok_def split: if_split_asm)
  have "py_slice data 0 16 = py_slice data 0 2 @ py_slice data 2 3 @ py_slice data 3 4 @ py_slice data 4 5 @ py_slice data 5 6 @
      py_slice data 6 7 @ py_slice data 7 8 @ py_slice data 8 12 @ py_slice data 12 14 @ py_slice data 14 15 @ py_slice data 15 16"
    by (simp add: slice_append_slice)
  also have "\<dots> = le_bytes 2 (le_at data 0 2) @ le_bytes 1 (le_at data 2 1) @ le_bytes 1 (le_at data 3 1) @ le_bytes 1 (le_at data 4 1) @
      le_bytes 1 (le_at data 5 1) @ le_bytes 1 (le_at data 6 1) @ zeros 9"
    using f l by (simp only: of_nat_numeral of_nat_1 z le_bytes_zero) (simp add: zeros_unfold)
  finally show ?thesis using d l by blast
qed

lemma parse_certificate_layout:
  assumes "parse_certificate data = Inr (signed_data, end_off)" "40 \<le> len data"
  shows "py_slice data 16 40 = le_bytes 4 (24 + len signed_data) @ le_bytes 2 0x0200 @ le_bytes 2 0x0EF1 @ swap_guid EFI_CERT_TYPE_PKCS7"
    and "signed_data = py_slice data 40 end_off" "40 < end_off" "end_off \<le> len data" "24 + len signed_data < 2 ^ 32"
    and "take 1 signed_data = [0x30]"
proof -
  have c: "le_at data 20 2 = 0x0200" "le_at data 22 2 = 0x0EF1" "swap_guid (py_slice data 24 40) = EFI_CERT_TYPE_PKCS7"
      "24 < le_at data 16 4" "end_off = 16 + le_at data 16 4" "end_off \<le> len data"
      "signed_data = py_slice data 40 end_off" "py_slice signed_data 0 1 = [0x30]"
    using assms(1) by (auto simp: parse_certificate_def Let_def efi_sizes WIN_CERT_REVISION_def WIN_CERT_TYPE_EFI_GUID_def split: if_split_asm)
  then show "signed_data = py_slice data 40 end_off" "40 < end_off" "end_off \<le> len data" by simp_all
  have n: "le_at data 16 4 = 24 + len signed_data" using c(4-7) by (simp add: length_slice)
  then show "24 + len signed_data < 2 ^ 32" using le_at_less [of 16 4 data] by simp
  show "take 1 signed_data = [0x30]" using c(8) by (simp add: slice_nonneg)
  have "length (py_slice data 24 40) = 16" using assms(2) by (simp add: length_slice_nat)
  then have "py_slice data 24 40 = swap_guid EFI_CERT_TYPE_PKCS7" using swap_guid_swap_guid c(3) by metis
  moreover have "py_slice data 16 40 = py_slice data 16 20 @ py_slice data 20 22 @ py_slice data 22 24 @ py_slice data 24 40"
    by (simp add: slice_append_slice)
  ultimately show "py_slice data 16 40 = le_bytes 4 (24 + len signed_data) @ le_bytes 2 0x0200 @ le_bytes 2 0x0EF1 @ swap_guid EFI_CERT_TYPE_PKCS7"
    using slice_le_at [of 16 4 data] slice_le_at [of 20 2 data] slice_le_at [of 22 2 data] assms(2) c(1,2) n by simp
qed

lemma parse_auth_layout:
  assumes "parse_auth name data = Inr (signed_data, sigs)"
  shows "\<exists>year month day hour minute second sls. efi_date_ok year month day hour minute second \<and>
      data = auth_header year month day hour minute second (len signed_data) @ signed_data @ concat (map sig_list_bytes sls) \<and>
      24 + len signed_data < 2 ^ 32 \<and> take 1 signed_data = [0x30] \<and> list_all sig_list_ok sls \<and> sigs = map sig_list_view sls"
    and "name \<in> fst ` set VARIABLES"
    and "name = ''PK'' \<Longrightarrow> \<exists>cert. sigs = [(EFI_CERT_X509, [cert])]"
    and "name \<in> {''KEK'', ''db''} \<Longrightarrow> \<exists>entries. (EFI_CERT_X509, entries) \<in> set sigs"
proof -
  obtain end_off where t: "parse_time data = Inr ()"
    and c: "parse_certificate data = Inr (signed_data, end_off)"
    and l: "signature_lists (py_slice data end_off (len data)) = Inr sigs"
    and pk: "name = ''PK'' \<longrightarrow> length sigs = 1 \<and> fst (sigs ! 0) = EFI_CERT_X509 \<and> length (snd (sigs ! 0)) = 1"
    and kek: "name \<in> {''KEK'', ''db''} \<longrightarrow> (\<exists>l \<in> set sigs. fst l = EFI_CERT_X509)"
    and n: "name \<in> fst ` set VARIABLES"
    using assms by (auto simp: parse_auth_def split: if_split_asm prod.split_asm)
  from parse_time_layout [OF t] obtain year month day hour minute second where
    d: "efi_date_ok year month day hour minute second" "40 \<le> len data"
      "py_slice data 0 16 = le_bytes 2 year @ le_bytes 1 month @ le_bytes 1 day @ le_bytes 1 hour @ le_bytes 1 minute @ le_bytes 1 second @ zeros 9"
    by blast
  note p = parse_certificate_layout [OF c d(2)]
  let ?rest = "py_slice data end_off (len data)"
  have "tiles signature_list_step ?rest 0 sigs"
    using l efi.run_tiles [of 0 ?rest "[]" sigs] by (simp add: signature_lists_def)
  from tiles_layout [OF this] obtain sls where sls: "list_all sig_list_ok sls" "sigs = map sig_list_view sls"
    "?rest = concat (map sig_list_bytes sls)" by auto
  have "data = py_slice data 0 16 @ py_slice data 16 40 @ py_slice data 40 end_off @ ?rest"
    using p(3,4) by (simp add: slice_append_slice)
  then have "data = auth_header year month day hour minute second (len signed_data) @ signed_data @ concat (map sig_list_bytes sls)"
    unfolding auth_header_def by (simp only: d(3) p(1) sls(3) append_assoc flip: p(2))
  with d(1) p(5,6) sls(1,2) show "\<exists>year month day hour minute second sls. efi_date_ok year month day hour minute second \<and>
      data = auth_header year month day hour minute second (len signed_data) @ signed_data @ concat (map sig_list_bytes sls) \<and>
      24 + len signed_data < 2 ^ 32 \<and> take 1 signed_data = [0x30] \<and> list_all sig_list_ok sls \<and> sigs = map sig_list_view sls"
    by blast
  show "name \<in> fst ` set VARIABLES" by (rule n)
  show "name = ''PK'' \<Longrightarrow> \<exists>cert. sigs = [(EFI_CERT_X509, [cert])]"
    using pk by (cases sigs) (auto simp: length_Suc_conv)
  show "name \<in> {''KEK'', ''db''} \<Longrightarrow> \<exists>entries. (EFI_CERT_X509, entries) \<in> set sigs"
    using kek by fastforce
qed

text \<open>
  C12: what an accepted \<^verbatim>\<open>.auth\<close> file is, byte for byte: a valid date and time without fractions and time zone, a
  \<^verbatim>\<open>WIN_CERTIFICATE\<close> header of the UEFI revision, type and PKCS #7 GUID whose length is that of the returned signature, the signature, which
  starts like DER, and signature lists up to the last byte. Each list has a type, a header and at least one entry; all its entries are a
  16-byte owner and data of one length, and the sizes in the list are those of its parts. What is returned are the types and the
  data of the entries without their owners. An accepted PK file holds exactly one X.509 certificate, and an
  accepted KEK or db file at least one.
\<close>

theorem parse_auth_sound:
  assumes "parse_auth name data = Inr (signed_data, sigs)"
  shows "(\<exists>year month day hour minute second sls. efi_date_ok year month day hour minute second \<and>
      data = auth_header year month day hour minute second (len signed_data) @ signed_data @ concat (map sig_list_bytes sls) \<and>
      24 + len signed_data < 2 ^ 32 \<and> take 1 signed_data = [0x30] \<and> list_all sig_list_ok sls \<and> sigs = map sig_list_view sls) \<and>
    name \<in> {''PK'', ''KEK'', ''db'', ''dbx''} \<and>
    (name = ''PK'' \<longrightarrow> (\<exists>cert. sigs = [(EFI_CERT_X509, [cert])])) \<and>
    (name \<in> {''KEK'', ''db''} \<longrightarrow> (\<exists>entries. (EFI_CERT_X509, entries) \<in> set sigs))"
  using parse_auth_layout [OF assms] by (auto simp: VARIABLES_def)

theorem parse_auth_sound_witness:
  "\<exists>data. parse_auth ''PK'' data = Inr ([0x30, 0], [(EFI_CERT_X509, [[1, 2, 3]])]) \<and>
     (\<exists>year month day hour minute second sls. efi_date_ok year month day hour minute second \<and>
       data = auth_header year month day hour minute second 2 @ [0x30, 0] @ concat (map sig_list_bytes sls) \<and>
       [(EFI_CERT_X509, [[1, 2, 3]])] = map sig_list_view sls)"
proof -
  obtain stamp data af where d: "efi_time 2026 1 1 = Inr stamp" "signature_list [1, 2, 3] (zeros 16) = Inr data"
    "auth_file stamp [0x30, 0] data = Inr af" by (rule demo_auth_parts)
  have p: "parse_auth ''PK'' af = Inr ([0x30, 0], [(EFI_CERT_X509, [[1, 2, 3]])])"
    by (rule auth_file_parses [OF _ d(1) _ _ _ _ _ d(2) _ _ d(3)]) simp_all
  have "len [0x30 :: byte, 0] = 2" by simp
  with p conjunct1 [OF parse_auth_sound [OF p]] show ?thesis by metis
qed

end
