(* ===== verification/Comparison_Sort.thy ===== *)
theory Comparison_Sort
  imports Py_Prelude "HOL-Library.Multiset"
begin

text \<open>
  Three-way comparisons, as \<^verbatim>\<open>functools.cmp_to_key\<close> takes them: a negative, zero or positive
  integer. \<^verbatim>\<open>sorted\<close> promises a stable sorted permutation only when the comparison is a total
  preorder; the locale states that contract and derives the promise for the stable sort below.
\<close>

fun insert_cmp :: "('a \<Rightarrow> 'a \<Rightarrow> int) \<Rightarrow> 'a \<Rightarrow> 'a list \<Rightarrow> 'a list" where
  "insert_cmp cmp x [] = [x]"
| "insert_cmp cmp x (y # ys) = (if cmp x y \<le> 0 then x # y # ys else y # insert_cmp cmp x ys)"

definition sort_cmp :: "('a \<Rightarrow> 'a \<Rightarrow> int) \<Rightarrow> 'a list \<Rightarrow> 'a list" where
  "sort_cmp cmp xs = foldr (insert_cmp cmp) xs []"

lemma sort_cmp_simps [simp]:
  "sort_cmp cmp [] = []"
  "sort_cmp cmp (x # xs) = insert_cmp cmp x (sort_cmp cmp xs)"
  by (simp_all add: sort_cmp_def)

lemma mset_insert_cmp [simp]: "mset (insert_cmp cmp x xs) = add_mset x (mset xs)"
  by (induction xs) auto

lemma mset_sort_cmp [simp]: "mset (sort_cmp cmp xs) = mset xs"
  by (induction xs) simp_all

lemma set_sort_cmp [simp]: "set (sort_cmp cmp xs) = set xs"
  using mset_sort_cmp [of cmp xs] by (metis set_mset_mset)

lemma sort_cmp_Nil [simp]: "sort_cmp cmp xs = [] \<longleftrightarrow> xs = []"
  by (metis mset_sort_cmp mset_zero_iff)

locale comparison =
  fixes cmp :: "'a \<Rightarrow> 'a \<Rightarrow> int"
  assumes cmp_swap: "sgn (cmp y x) = - sgn (cmp x y)"
    and cmp_trans: "cmp x y \<le> 0 \<Longrightarrow> cmp y z \<le> 0 \<Longrightarrow> cmp x z \<le> 0"
begin

lemma cmp_refl [simp]: "cmp x x = 0"
  using cmp_swap [of x x] by (simp add: sgn_if split: if_splits)

lemma cmp_neg_iff: "cmp y x < 0 \<longleftrightarrow> 0 < cmp x y"
  using cmp_swap [of x y] by (auto simp: sgn_if split: if_splits)

lemma cmp_le_iff: "cmp y x \<le> 0 \<longleftrightarrow> 0 \<le> cmp x y"
  using cmp_swap [of x y] by (auto simp: sgn_if split: if_splits)

lemma cmp_eq_iff: "cmp y x = 0 \<longleftrightarrow> cmp x y = 0"
  using cmp_swap [of x y] by (auto simp: sgn_if split: if_splits)

lemma cmp_total: "cmp x y \<le> 0 \<or> cmp y x \<le> 0"
  using cmp_le_iff [of x y] by linarith

lemma cmp_eq_trans: "cmp x y = 0 \<Longrightarrow> cmp y z = 0 \<Longrightarrow> cmp x z = 0"
proof -
  assume a: "cmp x y = 0" "cmp y z = 0"
  then have "cmp y x = 0" "cmp z y = 0" using cmp_eq_iff [of y x] cmp_eq_iff [of z y] by auto
  then have "cmp z x \<le> 0" using cmp_trans [of z y x] by simp
  moreover have "cmp x z \<le> 0" using cmp_trans [of x y z] a by simp
  ultimately show ?thesis using cmp_le_iff [of z x] by linarith
qed

lemma cmp_less_trans: "cmp x y < 0 \<Longrightarrow> cmp y z \<le> 0 \<Longrightarrow> cmp x z < 0"
proof (rule ccontr)
  assume a: "cmp x y < 0" "cmp y z \<le> 0" "\<not> cmp x z < 0"
  then have "cmp z x \<le> 0" using cmp_le_iff [of z x] by linarith
  then have "cmp y x \<le> 0" using cmp_trans [OF a(2)] by blast
  with a(1) cmp_le_iff [of y x] show False by linarith
qed

abbreviation cmp_sorted :: "'a list \<Rightarrow> bool" where
  "cmp_sorted \<equiv> sorted_wrt (\<lambda>x y. cmp x y \<le> 0)"

lemma set_insert_cmp [simp]: "set (insert_cmp cmp x xs) = insert x (set xs)"
  by (metis mset_insert_cmp set_mset_add_mset_insert set_mset_mset)

lemma sorted_insert_cmp: "cmp_sorted xs \<Longrightarrow> cmp_sorted (insert_cmp cmp x xs)"
proof (induction xs)
  case (Cons y ys)
  then show ?case
    using cmp_total [of x y] cmp_trans [of x y] by auto
qed simp

lemma sorted_sort_cmp: "cmp_sorted (sort_cmp cmp xs)"
  by (induction xs) (simp_all add: sorted_insert_cmp)

text \<open>Equal elements keep their order.\<close>

lemma filter_insert_cmp:
  "cmp_sorted xs \<Longrightarrow> filter (\<lambda>y. cmp z y = 0) (insert_cmp cmp x xs) =
    (if cmp z x = 0 then x # filter (\<lambda>y. cmp z y = 0) xs else filter (\<lambda>y. cmp z y = 0) xs)"
proof (induction xs)
  case (Cons y ys)
  show ?case
  proof (cases "cmp x y \<le> 0")
    case False
    then have "cmp z x = 0 \<Longrightarrow> cmp z y \<noteq> 0"
      using cmp_eq_trans [of x z y] cmp_eq_iff [of z x] by auto
    with False Cons show ?thesis by auto
  qed simp
qed simp

lemma stable_sort_cmp: "filter (\<lambda>y. cmp z y = 0) (sort_cmp cmp xs) = filter (\<lambda>y. cmp z y = 0) xs"
  by (induction xs) (simp_all add: filter_insert_cmp sorted_sort_cmp)

text \<open>The first element is below every other one.\<close>

lemma hd_sort_cmp: "x \<in> set xs \<Longrightarrow> cmp (hd (sort_cmp cmp xs)) x \<le> 0"
proof -
  assume x: "x \<in> set xs"
  then obtain y ys where s: "sort_cmp cmp xs = y # ys"
    by (metis list.exhaust list.set_cases sort_cmp_Nil list.distinct(1))
  with x have "x = y \<or> x \<in> set ys" by (metis set_ConsD set_sort_cmp)
  with sorted_sort_cmp [of xs] s show ?thesis by auto
qed

end

text \<open>A lexicographic combination of comparisons is one.\<close>

definition lex_cmp :: "('a \<Rightarrow> 'a \<Rightarrow> int) \<Rightarrow> ('b \<Rightarrow> 'b \<Rightarrow> int) \<Rightarrow> 'a \<times> 'b \<Rightarrow> 'a \<times> 'b \<Rightarrow> int" where
  "lex_cmp f g p q = (if f (fst p) (fst q) \<noteq> 0 then f (fst p) (fst q) else g (snd p) (snd q))"

lemma comparison_lex:
  assumes "comparison f" "comparison g"
  shows "comparison (lex_cmp f g)"
proof
  fix p q r :: "'a \<times> 'b"
  show "sgn (lex_cmp f g q p) = - sgn (lex_cmp f g p q)"
    using comparison.cmp_swap [OF assms(1), of "fst q" "fst p"] comparison.cmp_eq_iff [OF assms(1), of "fst q" "fst p"]
      comparison.cmp_swap [OF assms(2), of "snd q" "snd p"] by (simp add: lex_cmp_def)
  assume a: "lex_cmp f g p q \<le> 0" "lex_cmp f g q r \<le> 0"
  note lt = comparison.cmp_less_trans [OF assms(1)] and eq = comparison.cmp_eq_trans [OF assms(1)]
    and le = comparison.cmp_trans [OF assms(1)] and g = comparison.cmp_trans [OF assms(2)]
  have f: "f (fst p) (fst q) \<le> 0" "f (fst q) (fst r) \<le> 0" using a by (auto simp: lex_cmp_def split: if_splits)
  show "lex_cmp f g p r \<le> 0"
  proof (cases "f (fst p) (fst q) = 0 \<and> f (fst q) (fst r) = 0")
    case True
    with a have "g (snd p) (snd q) \<le> 0" "g (snd q) (snd r) \<le> 0" by (simp_all add: lex_cmp_def)
    with True eq g show ?thesis by (auto simp: lex_cmp_def)
  next
    case False
    have "f (fst p) (fst r) < 0"
    proof (rule ccontr)
      assume "\<not> f (fst p) (fst r) < 0"
      with le [OF f] have z: "f (fst p) (fst r) = 0" by linarith
      then have "f (fst r) (fst p) = 0" using comparison.cmp_eq_iff [OF assms(1)] by blast
      then have "f (fst q) (fst p) \<le> 0" "f (fst r) (fst q) \<le> 0"
        using le [OF f(2)] le [OF _ f(1), of "fst r"] by auto
      then have "f (fst p) (fst q) = 0" "f (fst q) (fst r) = 0"
        using f comparison.cmp_le_iff [OF assms(1), of "fst q" "fst p"]
          comparison.cmp_le_iff [OF assms(1), of "fst r" "fst q"] by linarith+
      with False show False by blast
    qed
    then show ?thesis by (simp add: lex_cmp_def)
  qed
qed

lemma comparison_pullback: "comparison f \<Longrightarrow> comparison (\<lambda>x y. f (h x) (h y))"
proof -
  assume f: "comparison f"
  show ?thesis
  proof
    show "sgn (f (h y) (h x)) = - sgn (f (h x) (h y))" for x y
      by (rule comparison.cmp_swap [OF f])
    show "f (h x) (h y) \<le> 0 \<Longrightarrow> f (h y) (h z) \<le> 0 \<Longrightarrow> f (h x) (h z) \<le> 0" for x y z
      by (rule comparison.cmp_trans [OF f])
  qed
qed

lemma comparison_reverse: "comparison f \<Longrightarrow> comparison (\<lambda>x y. f y x)"
proof -
  assume f: "comparison f"
  show ?thesis
  proof
    show "sgn (f x y) = - sgn (f y x)" for x y
      by (rule comparison.cmp_swap [OF f])
    show "f y x \<le> 0 \<Longrightarrow> f z y \<le> 0 \<Longrightarrow> f z x \<le> 0" for x y z
      using comparison.cmp_trans [OF f] by blast
  qed
qed

lemma comparison_int: "comparison (\<lambda>x y :: int. x - y)"
  by unfold_locales (auto simp: sgn_if)

lemma comparison_sgn:
  assumes "comparison g" "\<And>x y. sgn (f x y) = sgn (g x y)"
  shows "comparison f"
proof -
  have le: "f x y \<le> 0 \<longleftrightarrow> g x y \<le> 0" for x y
    using assms(2) [of x y] by (auto simp: sgn_if split: if_splits)
  show ?thesis
  proof
    show "sgn (f y x) = - sgn (f x y)" for x y
      unfolding assms(2) by (rule comparison.cmp_swap [OF assms(1)])
    show "f x y \<le> 0 \<Longrightarrow> f y z \<le> 0 \<Longrightarrow> f x z \<le> 0" for x y z
      unfolding le by (rule comparison.cmp_trans [OF assms(1)])
  qed
qed

end
