(* ===== verification/Py_Text.thy ===== *)
theory Py_Text
  imports Py_Prelude
begin

text \<open>
  Python text. A \<^verbatim>\<open>str\<close> is a \<^typ>\<open>string\<close>, whose characters are the code points up to 255; the
  character predicates and the line separators are those of Python on that range. Regular
  expressions of the sources are matched by the functions that model them.
\<close>

abbreviation code :: "char \<Rightarrow> int" where
  "code c \<equiv> of_char c"

lemma char_le_code: "c \<le> d \<longleftrightarrow> code c \<le> code d"
  by (simp add: less_eq_char_def flip: of_nat_of_char [where ?'a = int])

definition isdigit :: "char \<Rightarrow> bool" where
  "isdigit c \<longleftrightarrow> 48 \<le> code c \<and> code c \<le> 57 \<or> code c = 178 \<or> code c = 179 \<or> code c = 185"

definition isalpha :: "char \<Rightarrow> bool" where
  "isalpha c \<longleftrightarrow> 65 \<le> code c \<and> code c \<le> 90 \<or> 97 \<le> code c \<and> code c \<le> 122 \<or> code c = 170 \<or> code c = 181
     \<or> code c = 186 \<or> 192 \<le> code c \<and> code c \<le> 214 \<or> 216 \<le> code c \<and> code c \<le> 246 \<or> 248 \<le> code c"

definition isspace :: "char \<Rightarrow> bool" where
  "isspace c \<longleftrightarrow> 9 \<le> code c \<and> code c \<le> 13 \<or> 28 \<le> code c \<and> code c \<le> 32 \<or> code c = 133 \<or> code c = 160"

text \<open>\<^verbatim>\<open>s.isdigit()\<close> is false for the empty string.\<close>

definition str_isdigit :: "string \<Rightarrow> bool" where
  "str_isdigit s \<longleftrightarrow> s \<noteq> [] \<and> list_all isdigit s"

definition ascii_digit :: "char \<Rightarrow> bool" where
  "ascii_digit c \<longleftrightarrow> 48 \<le> code c \<and> code c \<le> 57"

text \<open>
  \<^verbatim>\<open>int(s)\<close> of a string of digits; \<^const>\<open>None\<close> is \<^verbatim>\<open>ValueError\<close>, which it also raises for digits
  that are not decimal, such as a superscript two, and for more than 4300 digits.
\<close>

definition decimal_value :: "string \<Rightarrow> int" where
  "decimal_value s = foldl (\<lambda>n c. 10 * n + (code c - 48)) 0 s"

definition py_int :: "string \<Rightarrow> int option" where
  "py_int s = (if s \<noteq> [] \<and> list_all ascii_digit s \<and> length s \<le> 4300 then Some (decimal_value s) else None)"

definition lstrip :: "string \<Rightarrow> string" where
  "lstrip s = dropWhile isspace s"

definition strip :: "string \<Rightarrow> string" where
  "strip s = rstrip_of isspace (lstrip s)"

text \<open>\<^verbatim>\<open>s.split()\<close>: the maximal runs without white space.\<close>

function split_ws :: "string \<Rightarrow> string list" where
  "split_ws s =
     (let rest = lstrip s
      in if rest = [] then []
      else takeWhile (\<lambda>c. \<not> isspace c) rest # split_ws (dropWhile (\<lambda>c. \<not> isspace c) rest))"
  by pat_completeness auto

lemma dropWhile_shrinks:
  "dropWhile P xs = y # ys \<Longrightarrow> length (dropWhile (\<lambda>x. \<not> P x) (y # ys)) < length xs"
proof -
  assume a: "dropWhile P xs = y # ys"
  then have "\<not> P y" using hd_dropWhile [of P xs] by simp
  then have "length (dropWhile (\<lambda>x. \<not> P x) (y # ys)) \<le> length ys" by (simp add: length_dropWhile_le)
  also have "\<dots> < length xs" using length_dropWhile_le [of P xs] by (simp add: a)
  finally show ?thesis .
qed

termination split_ws
proof (relation "measure length", goal_cases)
  case (2 s rest)
  then obtain y ys where "dropWhile isspace s = y # ys"
    by (metis lstrip_def neq_Nil_conv)
  with 2 show ?case using dropWhile_shrinks [of isspace s y ys] by (simp add: lstrip_def)
qed simp

declare split_ws.simps [simp del]

text \<open>\<^verbatim>\<open>s.splitlines()\<close>; a carriage return and a line feed together are one separator.\<close>

definition is_linebreak :: "char \<Rightarrow> bool" where
  "is_linebreak c \<longleftrightarrow> 10 \<le> code c \<and> code c \<le> 13 \<or> 28 \<le> code c \<and> code c \<le> 30 \<or> code c = 133"

definition skip_linebreak :: "string \<Rightarrow> string" where
  "skip_linebreak s =
     (case s of
        c # d # rest \<Rightarrow> if code c = 13 \<and> code d = 10 then rest else d # rest
      | _ \<Rightarrow> [])"

function splitlines :: "string \<Rightarrow> string list" where
  "splitlines s =
     (if s = [] then []
      else takeWhile (\<lambda>c. \<not> is_linebreak c) s
        # splitlines (skip_linebreak (dropWhile (\<lambda>c. \<not> is_linebreak c) s)))"
  by pat_completeness auto

lemma skip_linebreak_shrinks: "s \<noteq> [] \<Longrightarrow> length (skip_linebreak s) < length s"
  by (auto simp: skip_linebreak_def split: list.split)

termination splitlines
proof (relation "measure length", goal_cases)
  case (2 s)
  have "length (skip_linebreak (dropWhile (\<lambda>c. \<not> is_linebreak c) s)) < length s"
  proof (cases "dropWhile (\<lambda>c. \<not> is_linebreak c) s = []")
    case True
    then have "skip_linebreak (dropWhile (\<lambda>c. \<not> is_linebreak c) s) = []"
      by (simp only: True skip_linebreak_def list.case)
    with 2 show ?thesis by simp
  next
    case False
    from less_le_trans [OF skip_linebreak_shrinks [OF False] length_dropWhile_le] show ?thesis .
  qed
  then show ?case by simp
qed simp

declare splitlines.simps [simp del]

lemma splitlines_step:
  assumes "list_all (\<lambda>c. \<not> is_linebreak c) l"
  shows "splitlines (l @ ''\<newline>'' @ s) = l # splitlines s"
proof -
  have n: "is_linebreak (CHR ''\<newline>'')" by (simp add: is_linebreak_def)
  have a: "\<forall>c \<in> set l. \<not> is_linebreak c" using assms by (simp add: list_all_iff)
  have "takeWhile (\<lambda>c. \<not> is_linebreak c) (l @ ''\<newline>'' @ s) = l"
    "dropWhile (\<lambda>c. \<not> is_linebreak c) (l @ ''\<newline>'' @ s) = ''\<newline>'' @ s"
    using a n by (simp_all add: takeWhile_append2 dropWhile_append2)
  moreover have "skip_linebreak (''\<newline>'' @ s) = s"
    by (cases s) (simp_all add: skip_linebreak_def)
  ultimately show ?thesis by (subst splitlines.simps) simp
qed

lemma splitlines_lines:
  "list_all (list_all (\<lambda>c. \<not> is_linebreak c)) ls \<Longrightarrow> splitlines (concat (map (\<lambda>l. l @ ''\<newline>'') ls)) = ls"
proof (induction ls)
  case (Cons l ls)
  then show ?case using splitlines_step [of l "concat (map (\<lambda>l. l @ ''\<newline>'') ls)"] by simp
qed (simp add: splitlines.simps)

text \<open>
  \<^verbatim>\<open>s.split(c, 1)\<close> and \<^verbatim>\<open>s.rpartition(c)\<close> for one separator; \<^const>\<open>None\<close> when it does not occur.
\<close>

definition split_first :: "char \<Rightarrow> string \<Rightarrow> (string \<times> string) option" where
  "split_first c s =
     (if c \<in> set s then Some (takeWhile (\<lambda>x. x \<noteq> c) s, tl (dropWhile (\<lambda>x. x \<noteq> c) s)) else None)"

definition split_last :: "char \<Rightarrow> string \<Rightarrow> (string \<times> string) option" where
  "split_last c s =
     map_option (\<lambda>(a, b). (rev b, rev a)) (split_first c (rev s))"

lemma split_first_Some: "split_first c s = Some (a, b) \<longleftrightarrow> s = a @ c # b \<and> c \<notin> set a"
proof
  assume "split_first c s = Some (a, b)"
  then have c: "c \<in> set s" and ab: "a = takeWhile (\<lambda>x. x \<noteq> c) s" "b = tl (dropWhile (\<lambda>x. x \<noteq> c) s)"
    by (auto simp: split_first_def split: if_splits)
  then have "dropWhile (\<lambda>x. x \<noteq> c) s \<noteq> []" by (auto simp: dropWhile_eq_Nil_conv)
  then have "dropWhile (\<lambda>x. x \<noteq> c) s = c # b"
    using hd_dropWhile [of "\<lambda>x. x \<noteq> c" s] ab(2) by (metis list.exhaust_sel)
  then show "s = a @ c # b \<and> c \<notin> set a"
    using ab takeWhile_dropWhile_id [of "\<lambda>x. x \<noteq> c" s] by (auto dest: set_takeWhileD)
next
  assume s: "s = a @ c # b \<and> c \<notin> set a"
  then have "\<forall>x \<in> set a. x \<noteq> c" by auto
  with s have "takeWhile (\<lambda>x. x \<noteq> c) s = a" "dropWhile (\<lambda>x. x \<noteq> c) s = c # b"
    by (simp_all add: takeWhile_append2 dropWhile_append2)
  with s show "split_first c s = Some (a, b)" by (simp add: split_first_def)
qed

lemma split_last_Some: "split_last c s = Some (a, b) \<longleftrightarrow> s = a @ c # b \<and> c \<notin> set b"
proof -
  have "split_last c s = Some (a, b) \<longleftrightarrow> split_first c (rev s) = Some (rev b, rev a)"
    by (auto simp: split_last_def)
  also have "\<dots> \<longleftrightarrow> s = a @ c # b \<and> c \<notin> set b"
    by (auto simp: split_first_Some) (metis append.assoc append_Cons append_Nil rev.simps(2) rev_append rev_rev_ident)
  finally show ?thesis .
qed

text \<open>\<^verbatim>\<open>s.replace(c, t)\<close> for one character.\<close>

definition replace_char :: "char \<Rightarrow> string \<Rightarrow> string \<Rightarrow> string" where
  "replace_char c t s = concat (map (\<lambda>x. if x = c then t else [x]) s)"

text \<open>\<^verbatim>\<open>s.lower()\<close>\<close>

definition char_lower :: "char \<Rightarrow> char" where
  "char_lower c =
     (if 65 \<le> code c \<and> code c \<le> 90 \<or> 192 \<le> code c \<and> code c \<le> 222 \<and> code c \<noteq> 215
      then char_of (code c + 32) else c)"

definition str_lower :: "string \<Rightarrow> string" where
  "str_lower s = map char_lower s"

definition starts_with :: "string \<Rightarrow> string \<Rightarrow> bool" where
  "starts_with p s \<longleftrightarrow> take (length p) s = p"

definition ends_with :: "string \<Rightarrow> string \<Rightarrow> bool" where
  "ends_with p s \<longleftrightarrow> length p \<le> length s \<and> drop (length s - length p) s = p"

lemma starts_with_append [simp]: "starts_with p (p @ s)"
  by (simp add: starts_with_def)

text \<open>Dictionaries in insertion order: \<^verbatim>\<open>d[k] = v\<close> keeps the place of a key that is already there.\<close>

type_synonym ('k, 'v) dict = "('k \<times> 'v) list"

fun dict_set :: "'k \<Rightarrow> 'v \<Rightarrow> ('k, 'v) dict \<Rightarrow> ('k, 'v) dict" where
  "dict_set k v [] = [(k, v)]"
| "dict_set k v ((k', v') # d) = (if k' = k then (k, v) # d else (k', v') # dict_set k v d)"

lemma map_of_dict_set [simp]: "map_of (dict_set k v d) = (map_of d)(k \<mapsto> v)"
  by (induction d) auto

lemma keys_dict_set:
  "map fst (dict_set k v d) = (if k \<in> fst ` set d then map fst d else map fst d @ [k])"
proof (induction d)
  case (Cons p d)
  then show ?case by (cases p) (simp add: image_iff)
qed simp

lemma distinct_dict_set: "distinct (map fst d) \<Longrightarrow> distinct (map fst (dict_set k v d))"
  by (auto simp: keys_dict_set)

lemma set_dict_set: "set (dict_set k v d) \<subseteq> insert (k, v) (set d)"
  by (induction d) (auto split: if_split_asm)

lemma dict_set_new: "k \<notin> fst ` set d \<Longrightarrow> dict_set k v d = d @ [(k, v)]"
  by (induction d) auto

definition dict_get :: "('k, 'v) dict \<Rightarrow> 'k \<Rightarrow> 'v \<Rightarrow> 'v" where
  "dict_get d k v = (case map_of d k of None \<Rightarrow> v | Some x \<Rightarrow> x)"

text \<open>\<^verbatim>\<open>sorted(set(xs))\<close>\<close>

definition sorted_set :: "'a :: linorder list \<Rightarrow> 'a list" where
  "sorted_set xs = sort (remdups xs)"

lemma set_sorted_set [simp]: "set (sorted_set xs) = set xs"
  by (simp add: sorted_set_def)

section \<open>Text encodings\<close>

text \<open>UTF-8 of the code points up to 255; \<^const>\<open>None\<close> is an invalid sequence or a greater code point.\<close>

fun utf8_decode :: "bytes \<Rightarrow> string option" where
  "utf8_decode [] = Some []"
| "utf8_decode (b # bs) =
     (if uint b < 128 then map_option ((#) (char_of (uint b))) (utf8_decode bs)
      else if uint b = 194 \<or> uint b = 195 then
        (case bs of
           c # cs \<Rightarrow>
             if 128 \<le> uint c \<and> uint c < 192
             then map_option ((#) (char_of ((uint b - 192) * 64 + (uint c - 128)))) (utf8_decode cs)
             else None
         | [] \<Rightarrow> None)
      else None)"

definition utf8_char :: "char \<Rightarrow> bytes" where
  "utf8_char c = (if code c < 128 then [of_char c] else [word_of_int (192 + code c div 64), word_of_int (128 + code c mod 64)])"

definition utf8_encode :: "string \<Rightarrow> bytes" where
  "utf8_encode s = concat (map utf8_char s)"

lemma utf8_char_decode: "utf8_decode (utf8_char c @ r) = map_option ((#) c) (utf8_decode r)"
proof -
  have b: "0 \<le> code c" "code c < 256"
    using nat_of_char_less_256 [of c] by (simp_all flip: of_nat_of_char [where ?'a = int])
  show ?thesis
  proof (cases "code c < 128")
    case True
    have "uint (of_char c :: byte) = code c"
      using b by (simp add: unsigned_of_nat take_bit_eq_mod flip: of_nat_of_char [where ?'a = byte] of_nat_of_char [where ?'a = int])
    with True b show ?thesis by (simp add: utf8_char_def)
  next
    case False
    have w: "uint (word_of_int n :: byte) = n" if "0 \<le> n" "n < 256" for n
      using that by (simp add: uint_word_of_int)
    have "uint (word_of_int (192 + code c div 64) :: byte) = 192 + code c div 64"
      "uint (word_of_int (128 + code c mod 64) :: byte) = 128 + code c mod 64"
      using b by (intro w; presburger)+
    moreover have "code c div 64 = 2 \<or> code c div 64 = 3" using b False by presburger
    moreover have "code c div 64 * 64 + code c mod 64 = code c" by simp
    ultimately show ?thesis using False by (simp add: utf8_char_def) (auto simp: char_of_char)
  qed
qed

lemma utf8_decode_encode: "utf8_decode (utf8_encode s) = Some s"
  by (induction s) (simp_all add: utf8_encode_def utf8_char_decode)

lemma utf8_encode_inj: "utf8_encode s = utf8_encode t \<Longrightarrow> s = t"
  by (metis utf8_decode_encode option.inject)

lemma utf8_encode_ascii: "(\<And>c. c \<in> set s \<Longrightarrow> code c < 128) \<Longrightarrow> utf8_encode s = map of_char s"
  by (induction s) (simp_all add: utf8_encode_def utf8_char_def)

end
