(* ===== verification/Debian_Version.thy ===== *)
theory Debian_Version
  imports Comparison_Sort Py_Text
begin

text \<open>
  Debian version comparison of \<^verbatim>\<open>mkosi/debian/generate_lock.py\<close>. A string index of the source is
  the rest of the string here. \<open>fragment_key\<close> is the reference: the comparison of two fragments
  is the comparison of their keys, padded with zeros, so it is a total preorder.
\<close>

section \<open>The comparison of the code\<close>

text \<open>
  One constructor per \<^verbatim>\<open>raise LockError\<close> of the module. \<open>Value_error\<close> is the \<^verbatim>\<open>ValueError\<close> of \<^verbatim>\<open>int\<close>,
  which the module does not turn into a \<^verbatim>\<open>LockError\<close>, and \<open>Undecodable\<close> the \<^verbatim>\<open>UnicodeDecodeError\<close> of
  Release data that is not UTF-8.
\<close>

datatype lock_error =
    Invalid_epoch string
  | Value_error
  | Unsupported_operator string
  | Malformed_relation string
  | Provides_alternatives
  | Provides_version string
  | Malformed_control string
  | Unsupported_architecture "string option"
  | Non_all_package
  | Incomplete_metadata "string option"
  | Conflicting_duplicate string
  | Already_selected string string string string
  | Several_providers string "string list"
  | Missing_packages "string list"
  | Unsatisfiable string string string
  | Not_clear_signed
  | Release_paragraphs
  | Malformed_checksum string
  | Duplicate_checksum string
  | Not_one_source
  | Url_not_https
  | Url_not_snapshot
  | Channel_too_short
  | Invalid_name string
  | Repeated_component
  | Main_missing
  | No_packages_requested
  | Invalid_package_name
  | Not_an_object
  | Unknown_fields "string list"
  | Wrong_version
  | Wrong_archs
  | Payload_mismatch
  | Wrong_codename string "string option"
  | Missing_components "string list"
  | Missing_architecture
  | Not_numeric_release
  | Index_not_listed string
  | Index_checksum string
  | Index_undecodable string
  | Colliding_keys
  | Undecodable
  | Fetch_failed string
  | Spec_not_json
  | Lock_not_json
  | Digest_missing
  | Spec_changed

definition order :: "char \<Rightarrow> int" where
  "order c =
     (if c = CHR ''~'' then -1 else if isdigit c then 0 else if isalpha c then code c else code c + 256)"

definition head_order :: "string \<Rightarrow> int" where
  "head_order s = (case s of [] \<Rightarrow> 0 | c # _ \<Rightarrow> order c)"

definition at_non_digit :: "string \<Rightarrow> bool" where
  "at_non_digit s \<longleftrightarrow> s \<noteq> [] \<and> \<not> isdigit (hd s)"

definition at_digit :: "string \<Rightarrow> bool" where
  "at_digit s \<longleftrightarrow> s \<noteq> [] \<and> isdigit (hd s)"

lemma tl_shrinks: "l \<noteq> [] \<or> r \<noteq> [] \<Longrightarrow> length (tl l) + length (tl r) < length l + length r"
  by (cases l; cases r) auto

function compare_non_digits :: "string \<Rightarrow> string \<Rightarrow> int \<times> string \<times> string" where
  "compare_non_digits l r =
     (if at_non_digit l \<or> at_non_digit r then
        (if head_order l \<noteq> head_order r then (head_order l - head_order r, l, r)
         else compare_non_digits (tl l) (tl r))
      else (0, l, r))"
  by pat_completeness auto

termination compare_non_digits
  by (relation "measure (\<lambda>(l, r). length l + length r)")
    (auto simp: at_non_digit_def simp del: length_tl intro: tl_shrinks)

declare compare_non_digits.simps [simp del]

function compare_digit_runs :: "int \<Rightarrow> string \<Rightarrow> string \<Rightarrow> int \<times> string \<times> string" where
  "compare_digit_runs difference l r =
     (if at_digit l \<and> at_digit r then
        compare_digit_runs (if difference = 0 then code (hd l) - code (hd r) else difference) (tl l) (tl r)
      else if at_digit l then (1, l, r)
      else if at_digit r then (-1, l, r)
      else (difference, l, r))"
  by pat_completeness auto

termination compare_digit_runs
  by (relation "measure (\<lambda>(difference, l, r). length l + length r)")
    (auto simp: at_digit_def simp del: length_tl intro: tl_shrinks)

declare compare_digit_runs.simps [simp del]

definition compare_digits :: "string \<Rightarrow> string \<Rightarrow> int \<times> string \<times> string" where
  "compare_digits l r =
     compare_digit_runs 0 (dropWhile (\<lambda>c. c = CHR ''0'') l) (dropWhile (\<lambda>c. c = CHR ''0'') r)"

text \<open>Each turn of the loop consumes a non-digit or a digit run, or ends with a difference.\<close>

lemma compare_non_digits_shrinks:
  "compare_non_digits l r = (d, l', r') \<Longrightarrow>
   length l' \<le> length l \<and> length r' \<le> length r \<and>
   (d = 0 \<longrightarrow> \<not> at_non_digit l' \<and> \<not> at_non_digit r' \<and>
      (at_non_digit l \<or> at_non_digit r \<longrightarrow> length l' + length r' < length l + length r))"
proof (induction l r rule: compare_non_digits.induct)
  case (1 l r)
  show ?case
  proof (cases "(at_non_digit l \<or> at_non_digit r) \<and> head_order l = head_order r")
    case True
    then have "compare_non_digits (tl l) (tl r) = (d, l', r')"
      using 1(2) by (simp add: compare_non_digits.simps [of l r])
    with 1(1) True have "length l' \<le> length (tl l)" "length r' \<le> length (tl r)"
      "d = 0 \<longrightarrow> \<not> at_non_digit l' \<and> \<not> at_non_digit r'" by auto
    moreover have "length (tl l) + length (tl r) < length l + length r"
      using True by (cases l; cases r) (auto simp: at_non_digit_def)
    ultimately show ?thesis by auto
  qed (use 1(2) in \<open>auto simp: compare_non_digits.simps [of l r] split: if_split_asm\<close>)
qed

lemma compare_digit_runs_shrinks:
  "compare_digit_runs k l r = (d, l', r') \<Longrightarrow>
   length l' \<le> length l \<and> length r' \<le> length r \<and>
   (d = 0 \<longrightarrow> at_digit l \<or> at_digit r \<longrightarrow> length l' + length r' < length l + length r)"
proof (induction k l r rule: compare_digit_runs.induct)
  case (1 k l r)
  show ?case
  proof (cases "at_digit l \<and> at_digit r")
    case True
    then obtain a as b bs where lr: "l = a # as" "r = b # bs" by (auto simp: at_digit_def neq_Nil_conv)
    with True 1 show ?thesis by (auto simp: compare_digit_runs.simps [of k "a # as" "b # bs"])
  qed (use 1(2) in \<open>auto simp: compare_digit_runs.simps [of k l r] split: if_split_asm\<close>)
qed

lemma compare_digits_shrinks:
  assumes "compare_digits l r = (0, l', r')" "at_digit l \<or> at_digit r"
  shows "length l' + length r' < length l + length r"
proof -
  let ?z = "dropWhile (\<lambda>c. c = CHR ''0'')"
  note s = compare_digit_runs_shrinks [OF assms(1) [unfolded compare_digits_def]]
  have le: "length (?z s) \<le> length s" for s by (rule length_dropWhile_le)
  have z: "at_digit s \<Longrightarrow> \<not> at_digit (?z s) \<Longrightarrow> length (?z s) < length s" for s
    by (cases s) (auto simp: at_digit_def le_imp_less_Suc le split: if_split_asm)
  have "at_digit (?z l) \<or> at_digit (?z r) \<or> length (?z l) + length (?z r) < length l + length r"
    using assms(2) z [of l] z [of r] le [of l] le [of r] by linarith
  with s le [of l] le [of r] show ?thesis by auto
qed

lemma fragment_step_shrinks:
  assumes "l \<noteq> [] \<or> r \<noteq> []" "compare_non_digits l r = (0, l1, r1)" "compare_digits l1 r1 = (0, l2, r2)"
  shows "length l2 + length r2 < length l + length r"
proof -
  note n = compare_non_digits_shrinks [OF assms(2)]
  have le: "length l2 \<le> length l1" "length r2 \<le> length r1"
    using compare_digit_runs_shrinks [OF assms(3) [unfolded compare_digits_def]]
      length_dropWhile_le [of "\<lambda>c. c = CHR ''0''" l1] length_dropWhile_le [of "\<lambda>c. c = CHR ''0''" r1]
    by linarith+
  show ?thesis
  proof (cases "at_non_digit l \<or> at_non_digit r")
    case True
    with n le show ?thesis by linarith
  next
    case False
    with assms(1) have "at_digit l \<or> at_digit r" "l1 = l" "r1 = r"
      using assms(2) by (auto simp: at_digit_def at_non_digit_def compare_non_digits.simps [of l r])
    with compare_digits_shrinks [OF assms(3)] show ?thesis by auto
  qed
qed

function compare_fragment :: "string \<Rightarrow> string \<Rightarrow> int" where
  "compare_fragment l r =
     (if l \<noteq> [] \<or> r \<noteq> [] then
        let (d, l1, r1) = compare_non_digits l r
        in if d \<noteq> 0 then d
        else
          let (e, l2, r2) = compare_digits l1 r1
          in if e \<noteq> 0 then e else compare_fragment l2 r2
      else 0)"
  by pat_completeness auto

termination compare_fragment
proof (relation "measure (\<lambda>(l, r). length l + length r)", goal_cases)
  case (2 l r x d y l1 r1 z e w l2 r2)
  then show ?case using fragment_step_shrinks [of l r l1 r1 l2 r2] by auto
qed simp

declare compare_fragment.simps [simp del]

definition split_version :: "string \<Rightarrow> lock_error + int \<times> string \<times> string" where
  "split_version version =
     rbind (case split_first (CHR '':'') version of
         None \<Rightarrow> Inr (0, version)
       | Some (epoch_text, rest) \<Rightarrow>
           if \<not> str_isdigit epoch_text then Inl (Invalid_epoch epoch_text)
           else (case py_int epoch_text of None \<Rightarrow> Inl Value_error | Some epoch \<Rightarrow> Inr (epoch, rest)))
       (\<lambda>(epoch, rest).
         case split_last (CHR ''-'') rest of
           None \<Rightarrow> Inr (epoch, rest, [])
         | Some (upstream, revision) \<Rightarrow> Inr (epoch, upstream, revision))"

definition compare_split :: "int \<times> string \<times> string \<Rightarrow> int \<times> string \<times> string \<Rightarrow> int" where
  "compare_split x y =
     (case (x, y) of ((left_epoch, left_upstream, left_revision), (right_epoch, right_upstream, right_revision)) \<Rightarrow>
        if left_epoch \<noteq> right_epoch then left_epoch - right_epoch
        else
          let u = compare_fragment left_upstream right_upstream
          in if u \<noteq> 0 then u else compare_fragment left_revision right_revision)"

definition compare_versions :: "string \<Rightarrow> string \<Rightarrow> lock_error + int" where
  "compare_versions l r =
     rbind (split_version l) (\<lambda>x. rbind (split_version r) (\<lambda>y. Inr (compare_split x y)))"

definition relation_operator :: "string \<Rightarrow> (int \<Rightarrow> bool) option" where
  "relation_operator op =
     (if op = ''<<'' then Some (\<lambda>result. result < 0)
      else if op = ''<='' \<or> op = ''<'' then Some (\<lambda>result. result \<le> 0)
      else if op = ''='' then Some (\<lambda>result. result = 0)
      else if op = ''>='' \<or> op = ''>'' then Some (\<lambda>result. result \<ge> 0)
      else if op = ''>>'' then Some (\<lambda>result. result > 0)
      else None)"

definition version_satisfies :: "string \<Rightarrow> string \<Rightarrow> string \<Rightarrow> lock_error + bool" where
  "version_satisfies version op required =
     rbind (compare_versions version required) (\<lambda>result.
       case relation_operator op of
         None \<Rightarrow> Inl (Unsupported_operator op)
       | Some test \<Rightarrow> Inr (test result))"

section \<open>The reference order\<close>

text \<open>
  The key of a fragment: for each non-digit run the orders of its characters and a zero, for
  each digit run without leading zeros its length and its digits.
\<close>

definition non_digits :: "string \<Rightarrow> string" where
  "non_digits s = takeWhile (\<lambda>c. \<not> isdigit c) s"

definition digits :: "string \<Rightarrow> string" where
  "digits s = dropWhile (\<lambda>c. c = CHR ''0'') (takeWhile isdigit s)"

definition digits_key :: "string \<Rightarrow> int list" where
  "digits_key s = len (digits s) # map code (digits s)"

abbreviation after_non_digits :: "string \<Rightarrow> string" where
  "after_non_digits s \<equiv> dropWhile (\<lambda>c. \<not> isdigit c) s"

function fragment_key :: "string \<Rightarrow> int list" where
  "fragment_key s =
     (if s = [] then []
      else map order (non_digits s) @ 0 # digits_key (after_non_digits s)
        @ fragment_key (dropWhile isdigit (after_non_digits s)))"
  by pat_completeness auto

lemma fragment_rest_shrinks: "s \<noteq> [] \<Longrightarrow> length (dropWhile isdigit (after_non_digits s)) < length s"
  by (cases s) (auto intro!: le_imp_less_Suc length_dropWhile_le order_trans [OF length_dropWhile_le])

termination fragment_key
  by (relation "measure length") (auto simp: fragment_rest_shrinks)

declare fragment_key.simps [simp del]

text \<open>Comparison of integer lists that are padded with zeros.\<close>

fun pad_cmp :: "int list \<Rightarrow> int list \<Rightarrow> int" where
  "pad_cmp [] [] = 0"
| "pad_cmp (x # xs) [] = (if x \<noteq> 0 then x else pad_cmp xs [])"
| "pad_cmp [] (y # ys) = (if y \<noteq> 0 then - y else pad_cmp [] ys)"
| "pad_cmp (x # xs) (y # ys) = (if x \<noteq> y then x - y else pad_cmp xs ys)"

definition hd0 :: "int list \<Rightarrow> int" where
  "hd0 xs = (case xs of [] \<Rightarrow> 0 | x # _ \<Rightarrow> x)"

lemma pad_cmp_unfold:
  "pad_cmp xs ys = (if hd0 xs \<noteq> hd0 ys then hd0 xs - hd0 ys else pad_cmp (tl xs) (tl ys))"
  by (cases xs; cases ys) (auto simp: hd0_def)

lemma pad_cmp_swap: "pad_cmp ys xs = - pad_cmp xs ys"
  by (induction xs ys rule: pad_cmp.induct) auto

lemma pad_cmp_trans: "pad_cmp xs ys \<le> 0 \<Longrightarrow> pad_cmp ys zs \<le> 0 \<Longrightarrow> pad_cmp xs zs \<le> 0"
proof (induction "length xs + length ys + length zs" arbitrary: xs ys zs rule: less_induct)
  case less
  show ?case
  proof (cases "xs = [] \<and> ys = [] \<and> zs = []")
    case False
    have "length (tl xs) + length (tl ys) + length (tl zs) < length xs + length ys + length zs"
      using False by (cases xs; cases ys; cases zs) auto
    from less(1) [OF this] less(2,3) show ?thesis
      unfolding pad_cmp_unfold [of xs ys] pad_cmp_unfold [of ys zs] pad_cmp_unfold [of xs zs] by (auto split: if_split_asm)
  qed simp
qed

interpretation pad: comparison pad_cmp
proof
  show "sgn (pad_cmp ys xs) = - sgn (pad_cmp xs ys)" for xs ys
    by (subst pad_cmp_swap) (rule sgn_minus)
qed (rule pad_cmp_trans)

lemma pad_cmp_append: "pad_cmp (as @ xs) (as @ ys) = pad_cmp xs ys"
  by (induction as) simp_all

lemma pad_cmp_zeros: "pad_cmp (0 # 0 # xs) [] = pad_cmp xs []" "pad_cmp [] (0 # 0 # xs) = pad_cmp [] xs"
  by simp_all

lemma code_bounds: "0 \<le> code c" "code c < 256"
proof -
  have "code c = int (of_char c)" by (rule of_nat_of_char [symmetric])
  with nat_of_char_less_256 [of c] show "0 \<le> code c" "code c < 256" by linarith+
qed

lemma isalpha_code: "isalpha c \<Longrightarrow> 65 \<le> code c"
  unfolding isalpha_def by presburger

lemma tilde: "\<not> isdigit CHR ''~''"
  by (simp add: isdigit_def)

lemma order_zero: "order c = 0 \<longleftrightarrow> isdigit c"
  using isalpha_code [of c] code_bounds [of c] tilde unfolding order_def by (cases "c = CHR ''~''") auto

lemma order_cases:
  assumes "\<not> isdigit c"
  obtains "c = CHR ''~''" "order c = -1" | "c \<noteq> CHR ''~''" "isalpha c" "order c = code c"
  | "c \<noteq> CHR ''~''" "\<not> isalpha c" "order c = code c + 256"
  using assms unfolding order_def by (metis (full_types))

lemma order_inject: "order c = order d \<Longrightarrow> \<not> isdigit c \<Longrightarrow> c = d"
proof -
  assume o: "order c = order d" and c: "\<not> isdigit c"
  then have d: "\<not> isdigit d" using order_zero by metis
  have inj: "code c = code d \<Longrightarrow> c = d" by (simp add: of_char_eq_iff)
  show ?thesis
    by (rule order_cases [OF c]; rule order_cases [OF d];
        ((rule inj, insert o code_bounds [of c] code_bounds [of d], linarith) | simp))
qed

section \<open>The code implements the reference\<close>

lemma head_order_non_digit: "at_non_digit s \<Longrightarrow> head_order s \<noteq> 0"
  by (cases s) (auto simp: at_non_digit_def head_order_def order_zero)

lemma head_order_digit: "\<not> at_non_digit s \<Longrightarrow> head_order s = 0"
  by (cases s) (auto simp: at_non_digit_def head_order_def order_zero)

definition non_digits_key :: "string \<Rightarrow> int list" where
  "non_digits_key s = map order (non_digits s) @ [0]"

lemma non_digits_key_simps:
  "\<not> at_non_digit s \<Longrightarrow> non_digits_key s = [0]"
  "at_non_digit (c # s) \<Longrightarrow> non_digits_key (c # s) = order c # non_digits_key s"
  "\<not> at_non_digit s \<Longrightarrow> after_non_digits s = s"
  "at_non_digit (c # s) \<Longrightarrow> after_non_digits (c # s) = after_non_digits s"
  by (cases s; auto simp: non_digits_key_def non_digits_def at_non_digit_def)+

lemma hd_non_digits_key: "\<exists>ks. non_digits_key s = head_order s # ks"
  by (cases s) (auto simp: non_digits_key_def non_digits_def head_order_def order_zero)

lemma compare_non_digits_key:
  "compare_non_digits l r = (d, l', r') \<Longrightarrow>
   (d = 0 \<and> non_digits_key l = non_digits_key r \<and> l' = after_non_digits l \<and> r' = after_non_digits r) \<or>
   (d \<noteq> 0 \<and> (\<forall>xs ys. pad_cmp (non_digits_key l @ xs) (non_digits_key r @ ys) = d))"
proof (induction l r rule: compare_non_digits.induct)
  case (1 l r)
  show ?case
  proof (cases "at_non_digit l \<or> at_non_digit r")
    case False
    with 1(2) show ?thesis
      by (simp add: compare_non_digits.simps [of l r] non_digits_key_simps)
  next
    case cond: True
    show ?thesis
    proof (cases "head_order l = head_order r")
      case False
      with cond 1(2) have "d = head_order l - head_order r"
        by (auto simp: compare_non_digits.simps [of l r])
      moreover obtain ks ms where "non_digits_key l = head_order l # ks" "non_digits_key r = head_order r # ms"
        using hd_non_digits_key by meson
      ultimately show ?thesis using False by simp
    next
      case True
      then have both: "at_non_digit l" "at_non_digit r"
        using cond head_order_non_digit head_order_digit by metis+
      then obtain a as b bs where lr: "l = a # as" "r = b # bs" by (auto simp: at_non_digit_def neq_Nil_conv)
      with True have "order a = order b" by (simp add: head_order_def)
      moreover have "compare_non_digits as bs = (d, l', r')"
        using 1(2) True cond lr by (simp add: compare_non_digits.simps [of "a # as" "b # bs"])
      ultimately show ?thesis
        using 1(1) [OF cond] True lr both by (simp add: non_digits_key_simps) (simp add: at_non_digit_def)
    qed
  qed
qed

lemma takeWhile_digit: "\<not> at_digit s \<Longrightarrow> takeWhile isdigit s = []" "\<not> at_digit s \<Longrightarrow> dropWhile isdigit s = s"
  by (cases s; simp add: at_digit_def)+

lemma compare_digit_runs_key:
  assumes "compare_digit_runs k l r = (d, l', r')"
  defines "L \<equiv> takeWhile isdigit l" and "R \<equiv> takeWhile isdigit r"
  shows "(length L = length R \<longrightarrow>
      d = (if k \<noteq> 0 then k else pad_cmp (map code L) (map code R)) \<and>
      (d = 0 \<longrightarrow> l' = dropWhile isdigit l \<and> r' = dropWhile isdigit r)) \<and>
    (length L \<noteq> length R \<longrightarrow> d = (if length R < length L then 1 else -1))"
  using assms(1) unfolding L_def R_def
proof (induction k l r rule: compare_digit_runs.induct)
  case (1 k l r)
  show ?case
  proof (cases "at_digit l \<and> at_digit r")
    case True
    then obtain a as b bs where lr: "l = a # as" "r = b # bs" and ab: "isdigit a" "isdigit b"
      by (auto simp: at_digit_def neq_Nil_conv)
    have "compare_digit_runs k l r = compare_digit_runs (if k = 0 then code a - code b else k) as bs"
      unfolding lr by (subst compare_digit_runs.simps) (simp add: at_digit_def ab)
    then have "compare_digit_runs (if k = 0 then code a - code b else k) as bs = (d, l', r')"
      using 1(2) by simp
    with 1(1) True lr ab show ?thesis by (simp split: if_split_asm)
  next
    case False
    with 1(2) show ?thesis
      by (cases "at_digit l"; cases "at_digit r")
        (auto simp: compare_digit_runs.simps [of k l r] takeWhile_digit at_digit_def neq_Nil_conv)
  qed
qed

lemma strip_zeros:
  "takeWhile isdigit (dropWhile (\<lambda>c. c = CHR ''0'') s) = digits s"
  "dropWhile isdigit (dropWhile (\<lambda>c. c = CHR ''0'') s) = dropWhile isdigit s"
proof -
  have z: "isdigit CHR ''0''" by (simp add: isdigit_def)
  show "takeWhile isdigit (dropWhile (\<lambda>c. c = CHR ''0'') s) = digits s"
    "dropWhile isdigit (dropWhile (\<lambda>c. c = CHR ''0'') s) = dropWhile isdigit s"
    by (induction s) (auto simp: digits_def z)
qed

lemma pad_cmp_same_length:
  "length xs = length ys \<Longrightarrow> pad_cmp (xs @ as) (ys @ bs) = (if pad_cmp xs ys \<noteq> 0 then pad_cmp xs ys else pad_cmp as bs)"
  by (induction xs ys rule: list_induct2) auto

lemma pad_cmp_eq_same_length: "length xs = length ys \<Longrightarrow> pad_cmp xs ys = 0 \<Longrightarrow> xs = ys"
  by (induction xs ys rule: list_induct2) (auto split: if_split_asm)

lemma compare_digits_key:
  assumes "compare_digits l r = (d, l', r')"
  shows "(d = 0 \<and> digits_key l = digits_key r \<and> l' = dropWhile isdigit l \<and> r' = dropWhile isdigit r) \<or>
    (d \<noteq> 0 \<and> (\<forall>xs ys. sgn (pad_cmp (digits_key l @ xs) (digits_key r @ ys)) = sgn d))"
proof -
  note k = compare_digit_runs_key [OF assms [unfolded compare_digits_def], unfolded strip_zeros]
  show ?thesis
  proof (cases "length (digits l) = length (digits r)")
    case True
    let ?p = "pad_cmp (map code (digits l)) (map code (digits r))"
    have "d = ?p" "d = 0 \<longrightarrow> l' = dropWhile isdigit l \<and> r' = dropWhile isdigit r" using k True by auto
    moreover have "?p = 0 \<Longrightarrow> map code (digits l) = map code (digits r)"
      using True by (intro pad_cmp_eq_same_length) simp_all
    moreover have "pad_cmp (digits_key l @ xs) (digits_key r @ ys) = (if ?p \<noteq> 0 then ?p else pad_cmp xs ys)" for xs ys
      using True pad_cmp_same_length [of "map code (digits l)" "map code (digits r)"] by (simp add: digits_key_def)
    ultimately show ?thesis using True by (auto simp: digits_key_def)
  next
    case False
    with k show ?thesis by (auto simp: digits_key_def sgn_if)
  qed
qed

lemma fragment_key_parts:
  "fragment_key s = (if s = [] then []
    else non_digits_key s @ digits_key (after_non_digits s) @ fragment_key (dropWhile isdigit (after_non_digits s)))"
  by (subst fragment_key.simps) (simp add: non_digits_key_def)

text \<open>An empty fragment may be read as one more empty pair of runs.\<close>

lemma fragment_key_padded:
  defines "k \<equiv> \<lambda>s. non_digits_key s @ digits_key (after_non_digits s) @ fragment_key (dropWhile isdigit (after_non_digits s))"
  assumes "l \<noteq> [] \<or> r \<noteq> []"
  shows "pad_cmp (fragment_key l) (fragment_key r) = pad_cmp (k l) (k r)"
proof -
  have e: "k [] = [0, 0]"
    by (simp add: k_def fragment_key.simps non_digits_key_def non_digits_def digits_key_def digits_def)
  have n: "s \<noteq> [] \<Longrightarrow> fragment_key s = k s" for s by (simp add: fragment_key_parts k_def)
  have p: "\<exists>x y zs. k s = x # y # zs" for s
  proof -
    have "Suc (Suc 0) \<le> length (k s)" by (simp add: k_def non_digits_key_def digits_key_def)
    then show ?thesis by (auto simp: Suc_le_length_iff)
  qed
  show ?thesis
  proof (cases "l = [] \<or> r = []")
    case True
    with assms(2) n e show ?thesis
      using p [of l] p [of r] by (auto simp: fragment_key.simps [of "[]"])
  qed (simp add: n)
qed

lemma compare_fragment_key: "sgn (compare_fragment l r) = sgn (pad_cmp (fragment_key l) (fragment_key r))"
proof (induction l r rule: compare_fragment.induct)
  case (1 l r)
  obtain d l1 r1 where n: "compare_non_digits l r = (d, l1, r1)" by (metis prod_cases3)
  obtain e l2 r2 where g: "compare_digits l1 r1 = (e, l2, r2)" by (metis prod_cases3)
  note nk = compare_non_digits_key [OF n] and gk = compare_digits_key [OF g]
  show ?case
  proof (cases "l \<noteq> [] \<or> r \<noteq> []")
    case True
    show ?thesis
    proof (cases "d = 0 \<and> e = 0")
      case False
      with nk gk True n g show ?thesis
        unfolding fragment_key_padded [OF True] compare_fragment.simps [of l r]
        by (cases "d = 0") (auto simp: pad_cmp_append)
    next
      case z: True
      have "compare_fragment l r = compare_fragment l2 r2"
        using True n g z by (simp add: compare_fragment.simps [of l r])
      moreover have "pad_cmp (fragment_key l) (fragment_key r) = pad_cmp (fragment_key l2) (fragment_key r2)"
        unfolding fragment_key_padded [OF True] using nk gk z by (simp add: pad_cmp_append)
      moreover have "sgn (compare_fragment l2 r2) = sgn (pad_cmp (fragment_key l2) (fragment_key r2))"
        using 1 [OF True n [symmetric] refl refl _ g [symmetric] refl refl] z by simp
      ultimately show ?thesis by simp
    qed
  qed (simp add: compare_fragment.simps fragment_key.simps)
qed

section \<open>Properties\<close>

definition version_key :: "int \<times> string \<times> string \<Rightarrow> int \<times> int list \<times> int list" where
  "version_key v = (fst v, fragment_key (fst (snd v)), fragment_key (snd (snd v)))"

abbreviation key_cmp :: "int \<times> int list \<times> int list \<Rightarrow> int \<times> int list \<times> int list \<Rightarrow> int" where
  "key_cmp \<equiv> lex_cmp (\<lambda>x y. x - y) (lex_cmp pad_cmp pad_cmp)"

lemma sgn_lex:
  "sgn f = sgn p \<Longrightarrow> sgn g = sgn q \<Longrightarrow>
   sgn (if f \<noteq> 0 then f else g) = sgn (if p \<noteq> 0 then p else q)" for f p g q :: int
  by (cases "f = 0"; cases "p = 0") (auto simp: sgn_0_0)

lemma compare_split_key: "sgn (compare_split x y) = sgn (key_cmp (version_key x) (version_key y))"
proof -
  obtain e u v e' u' v' where xy: "x = (e, u, v)" "y = (e', u', v')" by (metis prod_cases3)
  have "compare_split x y = (if e - e' \<noteq> 0 then e - e'
      else if compare_fragment u u' \<noteq> 0 then compare_fragment u u' else compare_fragment v v')"
    unfolding xy compare_split_def Let_def by simp
  moreover have "key_cmp (version_key x) (version_key y) = (if e - e' \<noteq> 0 then e - e'
      else if pad_cmp (fragment_key u) (fragment_key u') \<noteq> 0 then pad_cmp (fragment_key u) (fragment_key u')
      else pad_cmp (fragment_key v) (fragment_key v'))"
    unfolding xy lex_cmp_def version_key_def by simp
  ultimately show ?thesis
    by (simp only:) (intro sgn_lex refl compare_fragment_key)
qed

lemma comparison_key_cmp: "comparison (\<lambda>x y. key_cmp (version_key x) (version_key y))"
  by (rule comparison_pullback) (intro comparison_lex comparison_int pad.comparison_axioms)

interpretation version: comparison compare_split
  by (rule comparison_sgn [OF comparison_key_cmp compare_split_key])

lemma compare_versions_Inr:
  "compare_versions l r = Inr d \<longleftrightarrow>
     (\<exists>x y. split_version l = Inr x \<and> split_version r = Inr y \<and> d = compare_split x y)"
  by (auto simp: compare_versions_def)

lemma compare_versions_order_parts:
  "compare_versions l r = Inr d \<Longrightarrow>
     \<exists>x y. split_version l = Inr x \<and> split_version r = Inr y \<and> sgn d = sgn (key_cmp (version_key x) (version_key y))"
  "compare_versions l r = Inr d \<Longrightarrow> \<exists>d'. compare_versions r l = Inr d' \<and> sgn d' = - sgn d"
  "compare_versions l m = Inr d \<Longrightarrow> compare_versions m r = Inr e \<Longrightarrow> d \<le> 0 \<Longrightarrow> e \<le> 0 \<Longrightarrow>
     \<exists>f \<le> 0. compare_versions l r = Inr f"
proof -
  show "compare_versions l r = Inr d \<Longrightarrow>
     \<exists>x y. split_version l = Inr x \<and> split_version r = Inr y \<and> sgn d = sgn (key_cmp (version_key x) (version_key y))"
    using compare_split_key by (auto simp: compare_versions_Inr)
  show "compare_versions l r = Inr d \<Longrightarrow> \<exists>d'. compare_versions r l = Inr d' \<and> sgn d' = - sgn d"
    unfolding compare_versions_Inr using version.cmp_swap by blast
  show "compare_versions l m = Inr d \<Longrightarrow> compare_versions m r = Inr e \<Longrightarrow> d \<le> 0 \<Longrightarrow> e \<le> 0 \<Longrightarrow>
     \<exists>f \<le> 0. compare_versions l r = Inr f"
    unfolding compare_versions_Inr using version.cmp_trans by fastforce
qed

text \<open>
  C17: Version comparison implements the reference order (epoch first, then the padded keys of the
  upstream version and of the revision), and is a total preorder on the versions it accepts:
  swapping the arguments flips the sign, and the order is transitive. So sorting by it is well
  defined.
\<close>

theorem compare_versions_order:
  "(\<forall>d. compare_versions l r = Inr d \<longrightarrow>
     (\<exists>x y. split_version l = Inr x \<and> split_version r = Inr y \<and> sgn d = sgn (key_cmp (version_key x) (version_key y))) \<and>
     (\<exists>d'. compare_versions r l = Inr d' \<and> sgn d' = - sgn d)) \<and>
   (\<forall>m d e. compare_versions l m = Inr d \<and> compare_versions m r = Inr e \<and> d \<le> 0 \<and> e \<le> 0 \<longrightarrow>
     (\<exists>f \<le> 0. compare_versions l r = Inr f))"
  using compare_versions_order_parts by blast

theorem compare_versions_order_witness:
  "(\<exists>d < 0. compare_versions ''1.0~rc1'' ''1.0'' = Inr d \<and>
     (\<exists>x y. split_version ''1.0~rc1'' = Inr x \<and> split_version ''1.0'' = Inr y \<and>
       sgn d = sgn (key_cmp (version_key x) (version_key y)))) \<and>
   (\<exists>d' > 0. compare_versions ''1.0'' ''1.0~rc1'' = Inr d') \<and>
   (\<exists>f \<le> 0. compare_versions ''1.0~rc1'' ''1:0.9-1'' = Inr f)"
proof -
  have v: "split_version ''1.0~rc1'' = Inr (0, ''1.0~rc1'', [])" "split_version ''1.0'' = Inr (0, ''1.0'', [])"
    "split_version ''1:0.9-1'' = Inr (1, ''0.9'', ''1'')"
    by (simp_all add: split_version_def split_first_def split_last_def str_isdigit_def isdigit_def py_int_def
        ascii_digit_def decimal_value_def)
  have n: "sgn (compare_fragment ''1.0~rc1'' ''1.0'') = -1"
    unfolding compare_fragment_key
    by (simp add: fragment_key.simps non_digits_def digits_key_def digits_def isdigit_def order_def isalpha_def)
  have a: "compare_versions ''1.0~rc1'' ''1.0'' = Inr (compare_fragment ''1.0~rc1'' ''1.0'')"
    using n by (auto simp: compare_versions_def v compare_split_def Let_def)
  have b: "compare_versions ''1.0'' ''1:0.9-1'' = Inr (-1)"
    by (simp add: compare_versions_def v compare_split_def)
  have neg: "compare_fragment ''1.0~rc1'' ''1.0'' < 0" using n by (simp add: sgn_if split: if_split_asm)
  obtain d' where d': "compare_versions ''1.0'' ''1.0~rc1'' = Inr d'"
    "sgn d' = - sgn (compare_fragment ''1.0~rc1'' ''1.0'')"
    using compare_versions_order [of "''1.0~rc1''" "''1.0''"] a by blast
  then have "d' > 0" using n by (simp add: sgn_if split: if_split_asm)
  moreover have "\<exists>f \<le> 0. compare_versions ''1.0~rc1'' ''1:0.9-1'' = Inr f"
    using compare_versions_order [of "''1.0~rc1''" "''1:0.9-1''"] a b neg by force
  ultimately show ?thesis
    using neg a d'(1) compare_versions_order [of "''1.0~rc1''" "''1.0''"] by blast
qed

lemma split_version_errors_parts:
  "(\<exists>s. split_version v = Inr s) \<longleftrightarrow>
     (case split_first (CHR '':'') v of None \<Rightarrow> True | Some (e, _) \<Rightarrow> py_int e \<noteq> None)"
  "split_version v = Inl Value_error \<longleftrightarrow>
     (\<exists>e r. v = e @ '':'' @ r \<and> CHR '':'' \<notin> set e \<and> str_isdigit e \<and> py_int e = None)"
  "split_version (CHR 0xB2 # '':1'') = Inl Value_error"
proof -
  have "py_int e = Some n \<Longrightarrow> str_isdigit e" for e n
    by (auto simp: py_int_def str_isdigit_def ascii_digit_def isdigit_def list_all_iff split: if_splits)
  then show "(\<exists>s. split_version v = Inr s) \<longleftrightarrow>
     (case split_first (CHR '':'') v of None \<Rightarrow> True | Some (e, _) \<Rightarrow> py_int e \<noteq> None)"
    by (auto simp: split_version_def split: option.splits)
  show "split_version v = Inl Value_error \<longleftrightarrow>
     (\<exists>e r. v = e @ '':'' @ r \<and> CHR '':'' \<notin> set e \<and> str_isdigit e \<and> py_int e = None)"
  proof -
    have "(\<exists>e r. v = e @ '':'' @ r \<and> CHR '':'' \<notin> set e \<and> str_isdigit e \<and> py_int e = None) \<longleftrightarrow>
      (\<exists>e r. split_first (CHR '':'') v = Some (e, r) \<and> str_isdigit e \<and> py_int e = None)"
      by (auto simp: split_first_Some)
    also have "\<dots> \<longleftrightarrow> split_version v = Inl Value_error"
      by (auto simp: split_version_def split: option.splits)
    finally show ?thesis by simp
  qed
  show "split_version (CHR 0xB2 # '':1'') = Inl Value_error"
    by (simp add: split_version_def split_first_def str_isdigit_def isdigit_def py_int_def ascii_digit_def)
qed

text \<open>
  A version is split without an error exactly when it has no colon or the text before its
  first colon is a decimal number. The epoch check is weaker than that: an epoch of digits that
  are not decimal, such as a superscript two, or of more than 4300 digits passes it, and the
  conversion behind it then raises a plain \<^verbatim>\<open>ValueError\<close> that no caller expects.
\<close>

theorem split_version_errors:
  "((\<exists>s. split_version v = Inr s) \<longleftrightarrow>
     (case split_first (CHR '':'') v of None \<Rightarrow> True | Some (e, _) \<Rightarrow> py_int e \<noteq> None)) \<and>
   (split_version v = Inl Value_error \<longleftrightarrow>
     (\<exists>e r. v = e @ '':'' @ r \<and> CHR '':'' \<notin> set e \<and> str_isdigit e \<and> py_int e = None)) \<and>
   split_version (CHR 0xB2 # '':1'') = Inl Value_error"
  using split_version_errors_parts by blast

end
