(* ===== verification/Debian_Control.thy ===== *)
theory Debian_Control
  imports Py_Text
begin

text \<open>
  The deb822 parser \<^verbatim>\<open>mkosi/private/debian_control.py\<close>, which the lock generator and the snapshot
  staging action share. A paragraph is a dictionary in file order.
\<close>

datatype control_error =
    Continuation_without_field
  | Malformed_field string
  | Duplicate_field string

type_synonym fields822 = "(string, string) dict"

fun paragraphs_loop ::
    "fields822 list \<Rightarrow> fields822 \<Rightarrow> string option \<Rightarrow> string list \<Rightarrow> control_error + fields822 list" where
  "paragraphs_loop result current field [] = Inr (if current \<noteq> [] then result @ [current] else result)"
| "paragraphs_loop result current field (line # lines) =
     (if strip line = [] then
        (if current \<noteq> [] then paragraphs_loop (result @ [current]) [] None lines
         else paragraphs_loop result current field lines)
      else if isspace (hd line) then
        (case field of
           None \<Rightarrow> Inl Continuation_without_field
         | Some f \<Rightarrow>
             paragraphs_loop result (dict_set f (dict_get current f [] @ ''\<newline>'' @ strip line) current) field lines)
      else
        (case split_first (CHR '':'') line of
           None \<Rightarrow> Inl (Malformed_field line)
         | Some (f, value) \<Rightarrow>
             if f \<in> fst ` set current then Inl (Duplicate_field f)
             else paragraphs_loop result (dict_set f (strip value) current) (Some f) lines))"

definition paragraphs :: "string \<Rightarrow> control_error + fields822 list" where
  "paragraphs s = paragraphs_loop [] [] None (splitlines s)"

section \<open>Round trip\<close>

text \<open>
  Control data in its canonical form: a field line and one continuation line for each further
  line of the value, an empty line behind each paragraph.
\<close>

definition field_lines :: "string \<times> string list \<Rightarrow> string list" where
  "field_lines f = (case f of (name, value) \<Rightarrow> (name @ '':'' @ hd value) # map (\<lambda>l. CHR '' '' # l) (tl value))"

definition paragraph_lines :: "(string \<times> string list) list \<Rightarrow> string list" where
  "paragraph_lines fs = concat (map field_lines fs) @ [[]]"

definition render :: "(string \<times> string list) list list \<Rightarrow> string" where
  "render ps = concat (map (\<lambda>l. l @ ''\<newline>'') (concat (map paragraph_lines ps)))"

definition line_ok :: "string \<Rightarrow> bool" where
  "line_ok l \<longleftrightarrow> strip l = l \<and> list_all (\<lambda>c. \<not> is_linebreak c) l"

definition field_ok :: "string \<times> string list \<Rightarrow> bool" where
  "field_ok f \<longleftrightarrow>
     list_all (\<lambda>c. \<not> is_linebreak c \<and> c \<noteq> CHR '':'') (fst f) \<and> \<not> (fst f \<noteq> [] \<and> isspace (hd (fst f))) \<and>
     snd f \<noteq> [] \<and> list_all line_ok (snd f) \<and> [] \<notin> set (tl (snd f))"

definition paragraph_ok :: "(string \<times> string list) list \<Rightarrow> bool" where
  "paragraph_ok fs \<longleftrightarrow> fs \<noteq> [] \<and> distinct (map fst fs) \<and> list_all field_ok fs"

definition value_of :: "string list \<Rightarrow> string" where
  "value_of ls = join_with ''\<newline>'' ls"

lemma strip_Cons_space: "strip (CHR '' '' # l) = strip l"
  by (simp add: strip_def lstrip_def isspace_def)

lemma lstrip_nonspace: "\<not> isspace c \<Longrightarrow> lstrip (c # s) = c # s"
  by (simp add: lstrip_def)

lemma rstrip_of_ne: "x \<in> set xs \<Longrightarrow> \<not> P x \<Longrightarrow> rstrip_of P xs \<noteq> []"
  by (auto simp: rstrip_of_def)

lemma strip_field_line: "field_ok f \<Longrightarrow> strip (hd (field_lines f)) \<noteq> [] \<and> \<not> isspace (hd (hd (field_lines f)))"
proof -
  assume f: "field_ok f"
  obtain name val where nv: "f = (name, val)" by fastforce
  have s: "\<not> isspace CHR '':''" by (simp add: isspace_def)
  have "\<exists>c l. name @ '':'' @ hd val = c # l \<and> \<not> isspace c"
    using f s by (cases name) (auto simp: field_ok_def nv)
  then obtain c l where "name @ '':'' @ hd val = c # l" "\<not> isspace c" by blast
  then show ?thesis
    by (simp add: nv field_lines_def strip_def lstrip_nonspace rstrip_of_ne [of c])
qed

lemma paragraphs_continuation:
  assumes "list_all line_ok ls" "[] \<notin> set ls" "current \<noteq> []" "fst (last current) = f" "distinct (map fst current)"
  shows "paragraphs_loop result current (Some f) (map (\<lambda>l. CHR '' '' # l) ls @ rest) =
    paragraphs_loop result
      (butlast current @ [(f, join_with ''\<newline>'' (snd (last current) # ls))]) (Some f) rest"
  using assms
proof (induction ls arbitrary: current)
  case Nil
  then have "butlast current @ [(f, snd (last current))] = current"
    by (metis append_butlast_last_id prod.collapse)
  then show ?case by simp
next
  case (Cons l ls)
  have c: "current = butlast current @ [(f, snd (last current))]" using Cons.prems(3,4)
    by (metis append_butlast_last_id prod.collapse)
  have nf: "f \<notin> fst ` set (butlast current)"
    using Cons.prems(5) by (subst (asm) c) auto
  have dd: "distinct (map fst (butlast current) @ [f])"
    using Cons.prems(5) by (subst (asm) c) simp
  let ?v = "snd (last current) @ ''\<newline>'' @ l"
  have set_last: "dict_set f w (d @ [(f, v)]) = d @ [(f, w)]" if "f \<notin> fst ` set d" for d v w
    using that by (induction d) auto
  have get: "dict_get current f [] = snd (last current)"
    using nf by (subst c) (simp add: dict_get_def map_add_def map_of_eq_None_iff [THEN iffD2] split: option.split)
  let ?cur = "butlast current @ [(f, ?v)]"
  have "paragraphs_loop result current (Some f) (map (\<lambda>l. CHR '' '' # l) (l # ls) @ rest) =
      paragraphs_loop result (dict_set f (dict_get current f [] @ ''\<newline>'' @ l) current) (Some f)
        (map (\<lambda>l. CHR '' '' # l) ls @ rest)"
  proof -
    have "strip (CHR '' '' # l) = l" "l \<noteq> []" "isspace CHR '' ''"
      using Cons.prems(1,2) by (auto simp: strip_Cons_space line_ok_def isspace_def)
    then show ?thesis by simp
  qed
  also have "dict_set f (dict_get current f [] @ ''\<newline>'' @ l) current = ?cur"
    unfolding get by (subst (2) c) (rule set_last [OF nf])
  also have "paragraphs_loop result ?cur (Some f) (map (\<lambda>l. CHR '' '' # l) ls @ rest) =
      paragraphs_loop result (butlast ?cur @ [(f, join_with ''\<newline>'' (snd (last ?cur) # ls))]) (Some f) rest"
    using Cons.prems(1,2) dd by (intro Cons.IH) simp_all
  also have "join_with ''\<newline>'' (snd (last ?cur) # ls) = join_with ''\<newline>'' (snd (last current) # l # ls)"
    by (cases ls) simp_all
  finally show ?case by simp
qed

lemma paragraphs_field:
  assumes "field_ok f" "fst f \<notin> fst ` set current" "distinct (map fst current)"
  shows "paragraphs_loop result current fld (field_lines f @ rest) =
    paragraphs_loop result (current @ [(fst f, value_of (snd f))]) (Some (fst f)) rest"
proof -
  obtain name v vs where f: "f = (name, v # vs)"
    using assms(1) by (cases f; cases "snd f") (auto simp: field_ok_def)
  have ok: "list_all line_ok vs" "[] \<notin> set vs" "strip v = v" "CHR '':'' \<notin> set name"
    using assms(1) by (auto simp: f field_ok_def line_ok_def list_all_iff)
  have "split_first (CHR '':'') (name @ '':'' @ v) = Some (name, v)"
    using ok(4) by (simp add: split_first_Some)
  then have "paragraphs_loop result current fld (field_lines f @ rest) =
      paragraphs_loop result (current @ [(name, v)]) (Some name) (map (\<lambda>l. CHR '' '' # l) vs @ rest)"
    using strip_field_line [OF assms(1)] ok(3) assms(2) by (simp add: f field_lines_def dict_set_new)
  also have "\<dots> = paragraphs_loop result (current @ [(name, join_with ''\<newline>'' (v # vs))]) (Some name) rest"
    using paragraphs_continuation [OF ok(1,2), of "current @ [(name, v)]" name] assms(2,3) by (simp add: f)
  finally show ?thesis by (simp add: f value_of_def)
qed

lemma paragraphs_fields:
  assumes "list_all field_ok fs" "distinct (map fst (current @ map (\<lambda>f. (fst f, value_of (snd f))) fs))"
  shows "\<exists>fld'. paragraphs_loop result current fld (concat (map field_lines fs) @ rest) =
    paragraphs_loop result (current @ map (\<lambda>f. (fst f, value_of (snd f))) fs) fld' rest"
  using assms
proof (induction fs arbitrary: current fld)
  case (Cons f fs)
  have "paragraphs_loop result current fld (field_lines f @ (concat (map field_lines fs) @ rest)) =
      paragraphs_loop result (current @ [(fst f, value_of (snd f))]) (Some (fst f)) (concat (map field_lines fs) @ rest)"
    using Cons.prems by (intro paragraphs_field) auto
  then show ?case
    using Cons.IH [of "current @ [(fst f, value_of (snd f))]" "Some (fst f)"] Cons.prems by auto
qed auto

lemma paragraphs_lines:
  "list_all paragraph_ok ps \<Longrightarrow> paragraphs_loop result [] fld (concat (map paragraph_lines ps)) =
    Inr (result @ map (map (\<lambda>f. (fst f, value_of (snd f)))) ps)"
proof (induction ps arbitrary: result fld)
  case (Cons p ps)
  obtain fld' where "paragraphs_loop result [] fld (concat (map field_lines p) @ [[]] @ concat (map paragraph_lines ps)) =
      paragraphs_loop result (map (\<lambda>f. (fst f, value_of (snd f))) p) fld' ([[]] @ concat (map paragraph_lines ps))"
    using paragraphs_fields [of p "[]" result fld "[[]] @ concat (map paragraph_lines ps)"] Cons.prems
    by (auto simp: paragraph_ok_def o_def)
  moreover have "p \<noteq> []" using Cons.prems by (simp add: paragraph_ok_def)
  moreover have "strip [] = []" by (simp add: strip_def lstrip_def rstrip_of_def)
  ultimately have "paragraphs_loop result [] fld (concat (map paragraph_lines (p # ps))) =
      paragraphs_loop (result @ [map (\<lambda>f. (fst f, value_of (snd f))) p]) [] None (concat (map paragraph_lines ps))"
    by (simp add: paragraph_lines_def [of p])
  with Cons show ?case by simp
qed simp

text \<open>
  Parsing the canonical text of a list of paragraphs returns these paragraphs, with the
  fields in order and the lines of a multiline value joined by line feeds.
\<close>

theorem paragraphs_roundtrip:
  assumes "list_all paragraph_ok ps"
  shows "paragraphs (render ps) = Inr (map (map (\<lambda>f. (fst f, join_with ''\<newline>'' (snd f)))) ps)"
proof -
  have "list_all (\<lambda>c. \<not> is_linebreak c) l" if "l \<in> set (paragraph_lines p)" "p \<in> set ps" for l p
  proof -
    have p: "paragraph_ok p" using assms that(2) by (simp add: list_all_iff)
    have sp: "\<not> is_linebreak CHR '' ''" "\<not> is_linebreak CHR '':''" by (simp_all add: is_linebreak_def)
    have "list_all (\<lambda>c. \<not> is_linebreak c) l" if lf: "l \<in> set (field_lines f)" and okf: "field_ok f" for f
    proof -
      obtain name v vs where f: "f = (name, v # vs)"
        using okf by (cases f; cases "snd f") (auto simp: field_ok_def)
      let ?n = "\<lambda>c. \<not> is_linebreak c"
      have "list_all ?n name" "list_all ?n v" "\<forall>w \<in> set vs. list_all ?n w"
        using okf unfolding f field_ok_def line_ok_def list_all_iff by simp_all
      moreover have "l = name @ '':'' @ v \<or> (\<exists>w \<in> set vs. l = CHR '' '' # w)"
        using lf unfolding f field_lines_def by auto
      ultimately show ?thesis using sp by auto
    qed
    then show ?thesis
      using that(1) p by (auto simp: paragraph_lines_def paragraph_ok_def list_all_iff)
  qed
  then have "splitlines (render ps) = concat (map paragraph_lines ps)"
    unfolding render_def by (intro splitlines_lines) (auto simp: list_all_iff)
  then show ?thesis using paragraphs_lines [OF assms, of "[]" None] by (simp add: paragraphs_def value_of_def)
qed

theorem paragraphs_roundtrip_witness:
  "paragraphs (render [[(''Package'', [''a'']), (''SHA256'', [[], ''x 1 p'', ''y 2 q''])]]) =
     Inr [[(''Package'', ''a''), (''SHA256'', ''\<newline>x 1 p\<newline>y 2 q'')]]"
proof -
  have "list_all paragraph_ok [[(''Package'', [''a'']), (''SHA256'', [[], ''x 1 p'', ''y 2 q''])]]"
    by (simp add: paragraph_ok_def field_ok_def line_ok_def strip_def lstrip_def rstrip_of_def isspace_def is_linebreak_def)
  from paragraphs_roundtrip [OF this] show ?thesis by simp
qed

end
