(* ===== verification/Debian_Relations.thy ===== *)
theory Debian_Relations
  imports Debian_Version Debian_Control
begin

text \<open>
  Dependency relations and package records of \<^verbatim>\<open>mkosi/debian/generate_lock.py\<close>: the grammar of a
  relation, \<^verbatim>\<open>Provides\<close> fields, and the records of a Packages index.
\<close>

section \<open>Relations\<close>

definition lower_digit :: "char \<Rightarrow> bool" where
  "lower_digit c \<longleftrightarrow> CHR ''a'' \<le> c \<and> c \<le> CHR ''z'' \<or> CHR ''0'' \<le> c \<and> c \<le> CHR ''9''"

definition name_char :: "char \<Rightarrow> bool" where
  "name_char c \<longleftrightarrow> lower_digit c \<or> c \<in> set ''+.-''"

definition arch_char :: "char \<Rightarrow> bool" where
  "arch_char c \<longleftrightarrow> lower_digit c \<or> c = CHR ''-''"

text \<open>\<^verbatim>\<open>[a-z0-9][a-z0-9+.-]+\<close>\<close>

definition is_package_name :: "string \<Rightarrow> bool" where
  "is_package_name s \<longleftrightarrow> length s \<ge> 2 \<and> lower_digit (hd s) \<and> list_all name_char s"

record Relation =
  r_name :: string
  r_arch :: "string option"
  r_operator :: "string option"
  r_version :: "string option"

definition relation_ops :: "string list" where
  "relation_ops = [''<<'', ''<='', ''='', ''>='', ''>>'', ''<'', ''>'']"

fun drop_prefix :: "string \<Rightarrow> string \<Rightarrow> string option" where
  "drop_prefix [] s = Some s"
| "drop_prefix (p # ps) (c # cs) = (if p = c then drop_prefix ps cs else None)"
| "drop_prefix (p # ps) [] = None"

text \<open>
  The version clause behind its opening parenthesis, with the first alternative of the operators
  that leaves a version: operator, version, and the text behind the closing parenthesis.
\<close>

fun match_version :: "string list \<Rightarrow> string \<Rightarrow> (string \<times> string \<times> string) option" where
  "match_version [] s = None"
| "match_version (op # ops) s =
     (case drop_prefix op s of
        None \<Rightarrow> match_version ops s
      | Some rest \<Rightarrow>
          let rest = lstrip rest; is_version = (\<lambda>c. \<not> isspace c \<and> c \<noteq> CHR '')'');
              version = takeWhile is_version rest
          in if version = [] then match_version ops s
          else (case drop_prefix '')'' (lstrip (dropWhile is_version rest)) of
              Some rest' \<Rightarrow> Some (op, version, rest')
            | None \<Rightarrow> match_version ops s))"

text \<open>The build profiles \<^verbatim>\<open>(?:<[^>]*>\s*)*\<close> up to the end of the text.\<close>

function match_profiles :: "string \<Rightarrow> bool" where
  "match_profiles s =
     (if s = [] then True
      else if hd s = CHR ''<'' then
        (case split_first (CHR ''>'') (tl s) of None \<Rightarrow> False | Some (_, rest) \<Rightarrow> match_profiles (lstrip rest))
      else False)"
  by pat_completeness auto

lemma length_lstrip_le: "length (lstrip s) \<le> length s"
  by (simp add: lstrip_def length_dropWhile_le)

termination match_profiles
proof (relation "measure length", goal_cases)
  case (2 s p name rest)
  then have "length rest < length (tl s)" by (auto simp: split_first_Some simp del: length_tl)
  with length_lstrip_le [of rest] show ?case by simp
qed simp

declare match_profiles.simps [simp del]

definition match_tail :: "string \<Rightarrow> bool" where
  "match_tail s =
     (case lstrip s of
        c # rest \<Rightarrow>
          if c = CHR ''['' then
            (case split_first (CHR '']'') rest of None \<Rightarrow> False | Some (_, rest') \<Rightarrow> match_profiles (lstrip rest'))
          else match_profiles (c # rest)
      | [] \<Rightarrow> True)"

definition match_relation :: "string \<Rightarrow> Relation option" where
  "match_relation s =
     (let name = takeWhile name_char s; rest = dropWhile name_char s
      in if \<not> is_package_name name then None
      else
        let (arch, rest) =
              (if rest \<noteq> [] \<and> hd rest = CHR '':'' \<and> takeWhile arch_char (tl rest) \<noteq> []
               then (Some (takeWhile arch_char (tl rest)), dropWhile arch_char (tl rest))
               else (None, rest))
        in case lstrip rest of
             c # clause \<Rightarrow>
               if c = CHR ''('' then
                 (case match_version relation_ops (lstrip clause) of
                    None \<Rightarrow> None
                  | Some (op, version, rest') \<Rightarrow>
                      if match_tail rest'
                      then Some \<lparr>r_name = name, r_arch = arch, r_operator = Some op, r_version = Some version\<rparr>
                      else None)
               else if match_tail rest
               then Some \<lparr>r_name = name, r_arch = arch, r_operator = None, r_version = None\<rparr> else None
           | [] \<Rightarrow> Some \<lparr>r_name = name, r_arch = arch, r_operator = None, r_version = None\<rparr>)"

definition relation_str :: "Relation \<Rightarrow> string" where
  "relation_str r =
     r_name r @ (case r_arch r of None \<Rightarrow> [] | Some a \<Rightarrow> '':'' @ a)
     @ (case (r_operator r, r_version r) of
          (Some op, Some v) \<Rightarrow> '' ('' @ op @ '' '' @ v @ '')'' | _ \<Rightarrow> [])"

definition parse_alternative :: "string \<Rightarrow> lock_error + Relation" where
  "parse_alternative alternative =
     (case match_relation (strip alternative) of
        None \<Rightarrow> Inl (Malformed_relation (strip alternative)) | Some r \<Rightarrow> Inr r)"

definition parse_relations :: "string option \<Rightarrow> lock_error + Relation list list" where
  "parse_relations value =
     rmap (\<lambda>group_text. rmap parse_alternative (split_on (CHR ''|'') group_text))
       (filter (\<lambda>group_text. strip group_text \<noteq> [])
         (split_on (CHR '','') (replace_char (CHR ''\<newline>'') '' '' (case value of None \<Rightarrow> [] | Some v \<Rightarrow> v))))"

definition provide_of :: "Relation list \<Rightarrow> lock_error + string \<times> string option" where
  "provide_of grp =
     (case grp of
        [r] \<Rightarrow>
          if r_operator r \<notin> {None, Some ''=''} then Inl (Provides_version (relation_str r))
          else Inr (r_name r, r_version r)
      | _ \<Rightarrow> Inl Provides_alternatives)"

definition parse_provides :: "string option \<Rightarrow> lock_error + (string \<times> string option) list" where
  "parse_provides value = rbind (parse_relations value) (rmap provide_of)"

section \<open>Package records\<close>

definition ARCHITECTURE :: string where "ARCHITECTURE = ''amd64''"
definition INDEX_ARCHITECTURES :: "string list" where "INDEX_ARCHITECTURES = [ARCHITECTURE, ''all'']"

record Package =
  p_name :: string
  p_version :: string
  p_architecture :: string
  p_component :: string
  p_filename :: string
  p_bytes :: int
  p_sha256 :: string
  p_multi_arch :: string
  p_essential :: bool
  p_priority :: string
  p_pre_depends :: "Relation list list"
  p_depends :: "Relation list list"
  p_provides :: "(string \<times> string option) list"

definition lock_key :: "string \<Rightarrow> string \<Rightarrow> string \<Rightarrow> string" where
  "lock_key name version architecture =
     replace_char (CHR ''+'') ''-p-'' name @ ''_''
     @ replace_char (CHR ''~'') ''-t-'' (replace_char (CHR ''+'') ''-p-'' (replace_char (CHR '':'') ''-'' version))
     @ ''_'' @ architecture"

definition package_key :: "Package \<Rightarrow> string" where
  "package_key p = lock_key (p_name p) (p_version p) (p_architecture p)"

definition is_sha256_hex :: "string \<Rightarrow> bool" where
  "is_sha256_hex s \<longleftrightarrow> length s = 64 \<and>
     list_all (\<lambda>c. CHR ''0'' \<le> c \<and> c \<le> CHR ''9'' \<or> CHR ''a'' \<le> c \<and> c \<le> CHR ''f'') s"

definition lift_control :: "control_error + 'a \<Rightarrow> lock_error + 'a" where
  "lift_control r =
     (case r of
        Inr x \<Rightarrow> Inr x
      | Inl Continuation_without_field \<Rightarrow> Inl (Malformed_control [])
      | Inl (Malformed_field l) \<Rightarrow> Inl (Malformed_control l)
      | Inl (Duplicate_field f) \<Rightarrow> Inl (Malformed_control f))"

definition package_record :: "string \<Rightarrow> string \<Rightarrow> fields822 \<Rightarrow> lock_error + Package" where
  "package_record component index_architecture para =
     (let architecture = map_of para ''Architecture'';
          sz = dict_get para ''Size'' []; digest = dict_get para ''SHA256'' [];
          filename = dict_get para ''Filename'' []
      in if architecture \<notin> Some ` set INDEX_ARCHITECTURES then Inl (Unsupported_architecture architecture)
      else if index_architecture = ''all'' \<and> architecture \<noteq> Some ''all'' then Inl Non_all_package
      else if dict_get para ''Package'' [] = [] \<or> dict_get para ''Version'' [] = [] \<or> \<not> str_isdigit sz
        \<or> \<not> is_sha256_hex digest \<or> \<not> starts_with ''pool/'' filename
      then Inl (Incomplete_metadata (map_of para ''Package''))
      else
        rbind (case py_int sz of None \<Rightarrow> Inl Value_error | Some n \<Rightarrow> Inr n) (\<lambda>n.
        rbind (parse_relations (map_of para ''Pre-Depends'')) (\<lambda>pre_depends.
        rbind (parse_relations (map_of para ''Depends'')) (\<lambda>depends.
        rbind (parse_provides (map_of para ''Provides'')) (\<lambda>provides.
          Inr \<lparr>p_name = dict_get para ''Package'' [], p_version = dict_get para ''Version'' [],
               p_architecture = the architecture, p_component = component, p_filename = filename,
               p_bytes = n, p_sha256 = digest, p_multi_arch = dict_get para ''Multi-Arch'' ''no'',
               p_essential = (map_of para ''Essential'' = Some ''yes''),
               p_priority = dict_get para ''Priority'' ''optional'',
               p_pre_depends = pre_depends, p_depends = depends, p_provides = provides\<rparr>)))))"

definition parse_packages :: "string \<Rightarrow> string \<Rightarrow> string \<Rightarrow> lock_error + Package list" where
  "parse_packages txt_data component index_architecture =
     rbind (lift_control (paragraphs txt_data)) (rmap (package_record component index_architecture))"

end
