(* ===== verification/Debian_Resolver.thy ===== *)
theory Debian_Resolver
  imports Debian_Relations
begin

text \<open>
  The package universe and the dependency resolver of \<^verbatim>\<open>mkosi/debian/generate_lock.py\<close>.
\<close>

section \<open>The universe\<close>

definition priority_rank :: "string \<Rightarrow> int" where
  "priority_rank s =
     (if s = ''required'' then 0 else if s = ''important'' then 1 else if s = ''standard'' then 2
      else if s = ''optional'' then 3 else if s = ''extra'' then 4 else 5)"

type_synonym by_name = "(string, (string \<times> string, Package) dict) dict"

definition add_package :: "Package \<Rightarrow> by_name \<Rightarrow> lock_error + by_name" where
  "add_package p d =
     (let identity = (p_version p, p_architecture p); versions = dict_get d (p_name p) []
      in case map_of versions identity of
           None \<Rightarrow> Inr (dict_set (p_name p) (dict_set identity p versions) d)
         | Some previous \<Rightarrow>
             if previous \<noteq> p\<lparr>p_component := p_component previous\<rparr> then Inl (Conflicting_duplicate (p_name p))
             else Inr d)"

fun add_packages :: "Package list \<Rightarrow> by_name \<Rightarrow> lock_error + by_name" where
  "add_packages [] d = Inr d"
| "add_packages (p # ps) d = rbind (add_package p d) (add_packages ps)"

text \<open>
  \<^verbatim>\<open>sorted(candidates, key=newest_first)\<close>. A list of fewer than two elements is never compared;
  otherwise the first version that does not parse, in list order, raises.
\<close>

definition newest_first :: "Package list \<Rightarrow> lock_error + Package list" where
  "newest_first ps =
     (if length ps < 2 then Inr ps
      else rbind (rmap (\<lambda>p. rbind (split_version (p_version p)) (\<lambda>v. Inr (v, p))) ps) (\<lambda>vs.
        Inr (map snd (sort_cmp (\<lambda>x y. compare_split (fst y) (fst x)) vs))))"

record Universe =
  u_packages :: "(string, Package list) dict"
  u_providers :: "(string, (Package \<times> string option) list) dict"

definition add_provider :: "Package \<Rightarrow> string \<times> string option \<Rightarrow> (string, (Package \<times> string option) list) dict
    \<Rightarrow> (string, (Package \<times> string option) list) dict" where
  "add_provider p prov d = dict_set (fst prov) (dict_get d (fst prov) [] @ [(p, snd prov)]) d"

definition universe :: "Package list \<Rightarrow> lock_error + Universe" where
  "universe packages =
     rbind (add_packages packages []) (\<lambda>d.
     rbind (rmap (\<lambda>(name, versions). rbind (newest_first (map snd versions)) (\<lambda>ordered. Inr (name, ordered))) d)
       (\<lambda>ordered.
         let providers = fold (\<lambda>(name, ps). fold (\<lambda>p. fold (add_provider p) (p_provides p)) ps) ordered []
         in Inr \<lparr>u_packages = ordered,
                 u_providers = map (\<lambda>(name, entries).
                   (name, sort_key (\<lambda>entry. (priority_rank (p_priority (fst entry)), p_name (fst entry))) entries))
                   providers\<rparr>))"

definition universe_packages :: "Universe \<Rightarrow> Package list" where
  "universe_packages u = concat (map snd (u_packages u))"

definition newest :: "Universe \<Rightarrow> string \<Rightarrow> Package option" where
  "newest u name = (case dict_get (u_packages u) name [] of [] \<Rightarrow> None | p # _ \<Rightarrow> Some p)"

definition architecture_matches :: "Package \<Rightarrow> string option \<Rightarrow> bool" where
  "architecture_matches p qualifier =
     (if qualifier \<in> {None, Some ''any'', Some ''native'', Some ARCHITECTURE}
      then p_architecture p \<in> set INDEX_ARCHITECTURES
      else p_multi_arch p = ''foreign'')"

definition version_ok :: "Relation \<Rightarrow> string \<Rightarrow> lock_error + bool" where
  "version_ok r version =
     (case r_operator r of
        None \<Rightarrow> Inr True
      | Some op \<Rightarrow> version_satisfies version op (case r_version r of Some v \<Rightarrow> v | None \<Rightarrow> []))"

fun real_candidates :: "Relation \<Rightarrow> Package list \<Rightarrow> lock_error + Package list" where
  "real_candidates r [] = Inr []"
| "real_candidates r (p # ps) =
     (if architecture_matches p (r_arch r) then
        rbind (version_ok r (p_version p)) (\<lambda>ok.
        rbind (real_candidates r ps) (\<lambda>rest. Inr (if ok then p # rest else rest)))
      else real_candidates r ps)"

fun provider_candidates ::
    "Relation \<Rightarrow> Package list \<Rightarrow> (Package \<times> string option) list \<Rightarrow> lock_error + Package list" where
  "provider_candidates r result [] = Inr result"
| "provider_candidates r result ((p, provided) # ps) =
     (if \<not> architecture_matches p (r_arch r) \<or> p \<in> set result then provider_candidates r result ps
      else
        (case (r_operator r, provided) of
           (None, _) \<Rightarrow> provider_candidates r (result @ [p]) ps
         | (Some _, None) \<Rightarrow> provider_candidates r result ps
         | (Some _, Some v) \<Rightarrow>
             rbind (version_ok r v) (\<lambda>ok. provider_candidates r (if ok then result @ [p] else result) ps)))"

definition candidates :: "Universe \<Rightarrow> Relation \<Rightarrow> lock_error + Package list" where
  "candidates u r =
     rbind (real_candidates r (dict_get (u_packages u) (r_name r) [])) (\<lambda>result.
       provider_candidates r result (dict_get (u_providers u) (r_name r) []))"

section \<open>The closure\<close>

definition format_group :: "Relation list \<Rightarrow> string" where
  "format_group g = join_with '' | '' (map relation_str g)"

record Closure =
  c_selected :: "(string, Package) dict"
  c_edges :: "(string, string set) dict"
  c_queue :: "Package list"

definition empty_closure :: Closure where
  "empty_closure = \<lparr>c_selected = [], c_edges = [], c_queue = []\<rparr>"

definition select :: "Package \<Rightarrow> string \<Rightarrow> Closure \<Rightarrow> lock_error + Closure" where
  "select p reason c =
     (case map_of (c_selected c) (p_name p) of
        Some current \<Rightarrow>
          if current \<noteq> p then Inl (Already_selected reason (p_name p) (p_version p) (p_version current)) else Inr c
      | None \<Rightarrow> Inr \<lparr>c_selected = dict_set (p_name p) p (c_selected c),
                      c_edges = dict_set (p_name p) {} (c_edges c), c_queue = c_queue c @ [p]\<rparr>)"

definition bootstrap_names :: "Universe \<Rightarrow> string list" where
  "bootstrap_names u =
     sorted_set (map p_name (filter (\<lambda>p. p_essential p \<or> p_priority p = ''required'') (universe_packages u)))"

fun select_all :: "string \<Rightarrow> Package list \<Rightarrow> Closure \<Rightarrow> lock_error + Closure" where
  "select_all reason [] c = Inr c"
| "select_all reason (p # ps) c = rbind (select p reason c) (select_all reason ps)"

text \<open>Every bootstrap name is the name of a package, so \<^verbatim>\<open>newest\<close> finds one.\<close>

definition select_bootstrap :: "Universe \<Rightarrow> Closure \<Rightarrow> lock_error + Closure" where
  "select_bootstrap u c = select_all ''the bootstrap set'' (map (\<lambda>n. the (newest u n)) (bootstrap_names u)) c"

definition bare_relation :: "string \<Rightarrow> Relation" where
  "bare_relation name = \<lparr>r_name = name, r_arch = None, r_operator = None, r_version = None\<rparr>"

fun select_requested_loop ::
    "Universe \<Rightarrow> string list \<Rightarrow> string list \<Rightarrow> Closure \<Rightarrow> lock_error + string list \<times> Closure" where
  "select_requested_loop u [] missing c = Inr (missing, c)"
| "select_requested_loop u (name # names) missing c =
     rbind (candidates u (bare_relation name)) (\<lambda>cands.
       case filter (\<lambda>p. p_name p = name) cands of
         p # _ \<Rightarrow> rbind (select p ''the specification'' c) (select_requested_loop u names missing)
       | [] \<Rightarrow>
           (case cands of
              [p] \<Rightarrow> rbind (select p ''the specification'' c) (select_requested_loop u names missing)
            | [] \<Rightarrow> select_requested_loop u names (missing @ [name]) c
            | _ \<Rightarrow> Inl (Several_providers name (sort (map p_name cands)))))"

definition select_requested :: "Universe \<Rightarrow> string list \<Rightarrow> Closure \<Rightarrow> lock_error + Closure" where
  "select_requested u requested c =
     rbind (select_requested_loop u requested [] c) (\<lambda>(missing, c').
       if missing \<noteq> [] then Inl (Missing_packages missing) else Inr c')"

fun first_candidate :: "Universe \<Rightarrow> (Package \<Rightarrow> bool) \<Rightarrow> Relation list \<Rightarrow> lock_error + Package option" where
  "first_candidate u P [] = Inr None"
| "first_candidate u P (r # rs) =
     rbind (candidates u r) (\<lambda>cands.
       case find P cands of Some p \<Rightarrow> Inr (Some p) | None \<Rightarrow> first_candidate u P rs)"

definition satisfying_candidate ::
    "Universe \<Rightarrow> (string, Package) dict \<Rightarrow> Relation list \<Rightarrow> lock_error + Package option" where
  "satisfying_candidate u selected grp =
     rbind (first_candidate u (\<lambda>p. map_of selected (p_name p) = Some p) grp) (\<lambda>found.
       case found of
         Some p \<Rightarrow> Inr (Some p)
       | None \<Rightarrow> first_candidate u (\<lambda>p. map_of selected (p_name p) = None) grp)"

definition add_edge :: "string \<Rightarrow> string \<Rightarrow> Closure \<Rightarrow> Closure" where
  "add_edge from_name to_name c =
     c\<lparr>c_edges := dict_set from_name (insert to_name (dict_get (c_edges c) from_name {})) (c_edges c)\<rparr>"

fun resolve_groups :: "Universe \<Rightarrow> Package \<Rightarrow> Relation list list \<Rightarrow> Closure \<Rightarrow> lock_error + Closure" where
  "resolve_groups u p [] c = Inr c"
| "resolve_groups u p (g # gs) c =
     rbind (satisfying_candidate u (c_selected c) g) (\<lambda>found.
       case found of
         None \<Rightarrow> Inl (Unsatisfiable (p_name p) (p_version p) (format_group g))
       | Some q \<Rightarrow>
           rbind (select q (p_name p @ '' '' @ p_version p) c) (\<lambda>c'.
             resolve_groups u p gs (if p_name q \<noteq> p_name p then add_edge (p_name p) (p_name q) c' else c')))"

abbreviation groups_of :: "Package \<Rightarrow> Relation list list" where
  "groups_of p \<equiv> p_pre_depends p @ p_depends p"

section \<open>Termination\<close>

text \<open>Every candidate is a package of the universe, so the names that are not selected yet bound the loop.\<close>

definition universe_names :: "Universe \<Rightarrow> string set" where
  "universe_names u =
     p_name ` (set (universe_packages u) \<union> fst ` set (concat (map snd (u_providers u))))"

lemma finite_universe_names [simp]: "finite (universe_names u)"
  by (simp add: universe_names_def)

lemma real_candidates_subset: "real_candidates r ps = Inr qs \<Longrightarrow> set qs \<subseteq> set ps"
  by (induction ps arbitrary: qs) (fastforce split: if_split_asm)+

lemma provider_candidates_subset:
  "provider_candidates r result ps = Inr qs \<Longrightarrow> set result \<subseteq> set qs \<and> set qs \<subseteq> set result \<union> fst ` set ps"
proof (induction ps arbitrary: result)
  case (Cons e ps)
  obtain p provided where e: "e = (p, provided)" by fastforce
  have "provider_candidates r result ps = Inr qs \<or> provider_candidates r (result @ [p]) ps = Inr qs"
    using Cons.prems unfolding e by (simp split: if_split_asm option.split_asm) metis+
  with Cons.IH [of result] Cons.IH [of "result @ [p]"] show ?case unfolding e by fastforce
qed simp

lemma dict_get_subset: "x \<in> set (dict_get d k []) \<Longrightarrow> x \<in> set (concat (map snd d))"
proof -
  assume x: "x \<in> set (dict_get d k [])"
  then obtain xs where "map_of d k = Some xs" "x \<in> set xs"
    by (cases "map_of d k") (auto simp: dict_get_def)
  then show ?thesis using map_of_SomeD [of d k xs] by force
qed

lemma candidates_in_universe: "candidates u r = Inr cs \<Longrightarrow> p \<in> set cs \<Longrightarrow> p_name p \<in> universe_names u"
proof -
  assume a: "candidates u r = Inr cs" "p \<in> set cs"
  then obtain rs where "real_candidates r (dict_get (u_packages u) (r_name r) []) = Inr rs"
    "provider_candidates r rs (dict_get (u_providers u) (r_name r) []) = Inr cs"
    by (auto simp: candidates_def)
  with a(2) have "p \<in> set (dict_get (u_packages u) (r_name r) []) \<union> fst ` set (dict_get (u_providers u) (r_name r) [])"
    using real_candidates_subset provider_candidates_subset by blast
  then have "p \<in> set (concat (map snd (u_packages u))) \<union> fst ` set (concat (map snd (u_providers u)))"
    using dict_get_subset [of p "u_packages u"] dict_get_subset [of _ "u_providers u"] by (auto simp del: set_concat)
  then show ?thesis unfolding universe_names_def universe_packages_def by (rule imageI)
qed

lemma first_candidate_Some:
  "first_candidate u P rs = Inr (Some p) \<Longrightarrow> P p \<and> (\<exists>r \<in> set rs. \<exists>cs. candidates u r = Inr cs \<and> p \<in> set cs)"
proof (induction rs)
  case (Cons r rs)
  have "find P cs = Some p \<Longrightarrow> P p \<and> p \<in> set cs" for cs
    by (auto simp: find_Some_iff)
  with Cons show ?case by (auto split: option.split_asm)
qed simp

lemma satisfying_candidate_Some:
  assumes "satisfying_candidate u sel g = Inr (Some p)"
  shows "map_of sel (p_name p) \<in> {None, Some p}" "\<exists>r \<in> set g. \<exists>cs. candidates u r = Inr cs \<and> p \<in> set cs"
  using assms by (auto simp: satisfying_candidate_def split: option.split_asm dest!: first_candidate_Some)

text \<open>What one selection does: nothing, or one more selected package that is queued.\<close>

lemma select_cases:
  assumes "select p reason c = Inr c'"
  shows "c' = c \<and> map_of (c_selected c) (p_name p) = Some p \<or>
    map_of (c_selected c) (p_name p) = None \<and>
    c' = \<lparr>c_selected = c_selected c @ [(p_name p, p)], c_edges = dict_set (p_name p) {} (c_edges c),
          c_queue = c_queue c @ [p]\<rparr>"
proof (cases "map_of (c_selected c) (p_name p)")
  case None
  then have "dict_set (p_name p) p (c_selected c) = c_selected c @ [(p_name p, p)]"
    by (intro dict_set_new) (simp add: map_of_eq_None_iff)
  with None assms show ?thesis by (simp add: select_def)
qed (use assms in \<open>auto simp: select_def split: if_split_asm\<close>)

definition names_left :: "Universe \<Rightarrow> Closure \<Rightarrow> nat" where
  "names_left u c = card (universe_names u - fst ` set (c_selected c))"

lemma select_measure:
  assumes "select p reason c = Inr c'" "p_name p \<in> universe_names u"
  shows "2 * names_left u c' + length (c_queue c') \<le> 2 * names_left u c + length (c_queue c)"
  using select_cases [OF assms(1)]
proof
  assume a: "map_of (c_selected c) (p_name p) = None \<and>
    c' = \<lparr>c_selected = c_selected c @ [(p_name p, p)], c_edges = dict_set (p_name p) {} (c_edges c),
          c_queue = c_queue c @ [p]\<rparr>"
  then have "p_name p \<in> universe_names u - fst ` set (c_selected c)"
    using assms(2) by (simp add: map_of_eq_None_iff)
  then have "card (universe_names u - fst ` set (c_selected c) - {p_name p}) < names_left u c"
    unfolding names_left_def by (intro card_Diff1_less) simp_all
  moreover have "universe_names u - fst ` set (c_selected c') = universe_names u - fst ` set (c_selected c) - {p_name p}"
    using a by auto
  ultimately have "names_left u c' < names_left u c" by (simp add: names_left_def)
  with a show ?thesis by simp
qed simp

lemma add_edge_simps [simp]:
  "c_selected (add_edge a b c) = c_selected c" "c_queue (add_edge a b c) = c_queue c"
  "names_left u (add_edge a b c) = names_left u c"
  by (simp_all add: add_edge_def names_left_def)

lemma resolve_groups_measure:
  "resolve_groups u p gs c = Inr c' \<Longrightarrow>
   2 * names_left u c' + length (c_queue c') \<le> 2 * names_left u c + length (c_queue c)"
proof (induction gs arbitrary: c)
  case (Cons g gs)
  then obtain q c1 where q: "satisfying_candidate u (c_selected c) g = Inr (Some q)"
    and c1: "select q (p_name p @ '' '' @ p_version p) c = Inr c1"
    and r: "resolve_groups u p gs (if p_name q \<noteq> p_name p then add_edge (p_name p) (p_name q) c1 else c1) = Inr c'"
    by (auto split: option.split_asm)
  have "p_name q \<in> universe_names u"
    using satisfying_candidate_Some(2) [OF q] candidates_in_universe by blast
  from select_measure [OF c1 this] Cons.IH [OF r] show ?case by (auto split: if_split_asm)
qed simp

function resolve_loop :: "Universe \<Rightarrow> Closure \<Rightarrow> lock_error + Closure" where
  "resolve_loop u c =
     (case c_queue c of
        [] \<Rightarrow> Inr c
      | p # rest \<Rightarrow> rbind (resolve_groups u p (groups_of p) (c\<lparr>c_queue := rest\<rparr>)) (\<lambda>c'. resolve_loop u c'))"
  by pat_completeness auto

termination resolve_loop
proof (relation "measure (\<lambda>(u, c). 2 * names_left u c + length (c_queue c))", goal_cases)
  case (2 u c p rest c')
  have "names_left u (c\<lparr>c_queue := rest\<rparr>) = names_left u c" by (simp add: names_left_def)
  with resolve_groups_measure [OF 2(2)] 2(1) show ?case by simp
qed simp

declare resolve_loop.simps [simp del]

definition resolve :: "Universe \<Rightarrow> string list
    \<Rightarrow> lock_error + (string, Package) dict \<times> (string, string set) dict" where
  "resolve u requested =
     rbind (select_bootstrap u empty_closure) (\<lambda>c.
     rbind (select_requested u requested c) (\<lambda>c.
     rbind (resolve_loop u c) (\<lambda>c. Inr (c_selected c, c_edges c))))"

end
