(* ===== verification/Debian_Closure.thy ===== *)
theory Debian_Closure
  imports Debian_Resolver
begin

text \<open>
  What the resolver guarantees: its result contains the bootstrap set and the requested packages,
  is closed under Depends and Pre-Depends with edges that name exactly the packages that satisfied
  a group, has one version of each package, and contains nothing else.
\<close>

section \<open>Specification\<close>

text \<open>A package of the selection that satisfies one alternative of a dependency group.\<close>

definition satisfies :: "Universe \<Rightarrow> (string, Package) dict \<Rightarrow> Relation list \<Rightarrow> Package \<Rightarrow> bool" where
  "satisfies u selected g q \<longleftrightarrow>
     map_of selected (p_name q) = Some q \<and> (\<exists>r \<in> set g. \<exists>cs. candidates u r = Inr cs \<and> q \<in> set cs)"

text \<open>Reachable from the roots over the candidates of dependency groups.\<close>

inductive needed :: "Universe \<Rightarrow> Package set \<Rightarrow> Package \<Rightarrow> bool" for u roots where
  root: "p \<in> roots \<Longrightarrow> needed u roots p"
| dependency: "needed u roots p \<Longrightarrow> g \<in> set (groups_of p) \<Longrightarrow> r \<in> set g \<Longrightarrow> candidates u r = Inr cs \<Longrightarrow>
    q \<in> set cs \<Longrightarrow> needed u roots q"

definition edges_from :: "(string, string set) dict \<Rightarrow> string \<Rightarrow> string set" where
  "edges_from edges n = dict_get edges n {}"

definition resolved ::
    "Universe \<Rightarrow> (string, Package) dict \<Rightarrow> (string, string set) dict \<Rightarrow> Package \<Rightarrow> Relation list list \<Rightarrow> bool" where
  "resolved u selected edges p gs \<longleftrightarrow>
     (\<forall>g \<in> set gs. \<exists>q. satisfies u selected g q \<and> (p_name q = p_name p \<or> p_name q \<in> edges_from edges (p_name p)))"

definition justified ::
    "Universe \<Rightarrow> (string, Package) dict \<Rightarrow> (string, string set) dict \<Rightarrow> Package \<Rightarrow> bool" where
  "justified u selected edges p \<longleftrightarrow>
     (\<forall>m \<in> edges_from edges (p_name p). m \<noteq> p_name p \<and>
        (\<exists>g \<in> set (groups_of p). \<exists>q. satisfies u selected g q \<and> p_name q = m))"

section \<open>Invariant\<close>

definition selection_ok :: "Closure \<Rightarrow> bool" where
  "selection_ok c \<longleftrightarrow>
     distinct (map fst (c_selected c)) \<and> (\<forall>(n, p) \<in> set (c_selected c). p_name p = n) \<and>
     fst ` set (c_edges c) = fst ` set (c_selected c) \<and> set (c_queue c) \<subseteq> snd ` set (c_selected c)"

text \<open>\<open>busy\<close> holds the package whose groups are being resolved.\<close>

definition closure_inv :: "Universe \<Rightarrow> Package set \<Rightarrow> Package set \<Rightarrow> Closure \<Rightarrow> bool" where
  "closure_inv u roots busy c \<longleftrightarrow>
     selection_ok c \<and> (\<forall>p \<in> snd ` set (c_selected c). needed u roots p \<and> justified u (c_selected c) (c_edges c) p) \<and>
     (\<forall>p \<in> snd ` set (c_selected c) - set (c_queue c) - busy. resolved u (c_selected c) (c_edges c) p (groups_of p))"

lemma selected_iff:
  assumes ok: "selection_ok c"
  shows "p \<in> snd ` set (c_selected c) \<longleftrightarrow> map_of (c_selected c) (p_name p) = Some p"
proof
  show "map_of (c_selected c) (p_name p) = Some p" if pin: "p \<in> snd ` set (c_selected c)"
  proof -
    obtain n where n: "(n, p) \<in> set (c_selected c)" using pin by force
    with ok have "p_name p = n" "distinct (map fst (c_selected c))" by (auto simp: selection_ok_def)
    with n show ?thesis by simp
  qed
  show "p \<in> snd ` set (c_selected c)" if "map_of (c_selected c) (p_name p) = Some p"
    using map_of_SomeD [OF that] by (metis image_eqI snd_conv)
qed

lemma selected_inject:
  "selection_ok c \<Longrightarrow> p \<in> snd ` set (c_selected c) \<Longrightarrow> q \<in> snd ` set (c_selected c) \<Longrightarrow> p_name p = p_name q \<Longrightarrow> p = q"
  by (metis selected_iff option.inject)

text \<open>How one closure grows into another.\<close>

definition grows :: "Closure \<Rightarrow> Closure \<Rightarrow> bool" where
  "grows c c' \<longleftrightarrow>
     map_of (c_selected c) \<subseteq>\<^sub>m map_of (c_selected c') \<and> (\<forall>n. edges_from (c_edges c) n \<subseteq> edges_from (c_edges c') n)"

lemma grows_refl [simp]: "grows c c"
  by (simp add: grows_def)

lemma grows_trans: "grows a b \<Longrightarrow> grows b c \<Longrightarrow> grows a c"
  unfolding grows_def using map_le_trans by blast

lemma satisfies_grows: "grows c c' \<Longrightarrow> satisfies u (c_selected c) g q \<Longrightarrow> satisfies u (c_selected c') g q"
  by (auto simp: satisfies_def grows_def map_le_def dom_def)

lemma resolved_grows:
  "grows c c' \<Longrightarrow> resolved u (c_selected c) (c_edges c) p gs \<Longrightarrow> resolved u (c_selected c') (c_edges c') p gs"
  unfolding resolved_def by (meson grows_def satisfies_grows subsetD)

lemma justified_grows:
  assumes "grows c c'" "edges_from (c_edges c') (p_name p) = edges_from (c_edges c) (p_name p)"
    and "justified u (c_selected c) (c_edges c) p"
  shows "justified u (c_selected c') (c_edges c') p"
  unfolding justified_def
proof (intro ballI)
  fix m assume "m \<in> edges_from (c_edges c') (p_name p)"
  then have "m \<in> edges_from (c_edges c) (p_name p)" using assms(2) by simp
  with assms(3) obtain g q where "m \<noteq> p_name p" "g \<in> set (groups_of p)" "satisfies u (c_selected c) g q" "p_name q = m"
    unfolding justified_def by blast
  with satisfies_grows [OF assms(1)] show "m \<noteq> p_name p \<and>
      (\<exists>g \<in> set (groups_of p). \<exists>q. satisfies u (c_selected c') g q \<and> p_name q = m)" by blast
qed

lemma edges_from_dict_set: "edges_from (dict_set a e d) n = (if n = a then e else edges_from d n)"
  by (simp add: edges_from_def dict_get_def)

lemma edges_from_absent: "n \<notin> fst ` set d \<Longrightarrow> edges_from d n = {}"
  by (simp add: edges_from_def dict_get_def map_of_eq_None_iff [THEN iffD2])

lemma keys_set: "fst ` set (dict_set k v d) = insert k (fst ` set d)"
  using keys_dict_set [of k v d] by (metis image_set insert_absorb list.simps(15) rotate1.simps(2) set_rotate1)

lemma select_invariant:
  assumes "closure_inv u roots busy c" "select p reason c = Inr c'" "needed u roots p"
  shows "closure_inv u roots busy c'" "grows c c'" "map_of (c_selected c') (p_name p) = Some p"
    "\<And>n. edges_from (c_edges c') n = edges_from (c_edges c) n" "set (c_queue c) \<subseteq> set (c_queue c')"
proof -
  have ok: "selection_ok c" using assms(1) by (simp add: closure_inv_def)
  have "closure_inv u roots busy c' \<and> grows c c' \<and> map_of (c_selected c') (p_name p) = Some p \<and>
      (\<forall>n. edges_from (c_edges c') n = edges_from (c_edges c) n) \<and> set (c_queue c) \<subseteq> set (c_queue c')"
    using select_cases [OF assms(2)]
  proof
    assume a: "map_of (c_selected c) (p_name p) = None \<and>
      c' = \<lparr>c_selected = c_selected c @ [(p_name p, p)], c_edges = dict_set (p_name p) {} (c_edges c),
            c_queue = c_queue c @ [p]\<rparr>"
    then have new: "p_name p \<notin> fst ` set (c_selected c)" by (simp add: map_of_eq_None_iff)
    have edges: "edges_from (c_edges c') n = edges_from (c_edges c) n" for n
      using a new ok edges_from_absent [of "p_name p" "c_edges c"]
      by (simp add: edges_from_dict_set selection_ok_def)
    have le: "map_of (c_selected c) \<subseteq>\<^sub>m map_of (c_selected c')"
      using a by (auto simp: map_le_def dom_def map_add_def split: option.split)
    with edges have gr: "grows c c'" by (simp add: grows_def)
    have look: "map_of (c_selected c') (p_name p) = Some p"
      using a by (simp add: map_add_def)
    have ok': "selection_ok c'"
      using ok new a by (auto simp: selection_ok_def keys_set)
    have just: "justified u (c_selected c') (c_edges c') q" if "justified u (c_selected c) (c_edges c) q" for q
      by (rule justified_grows [OF gr edges that])
    have jp: "justified u (c_selected c') (c_edges c') p"
      using edges_from_absent [of "p_name p" "c_edges c"] new ok
      by (simp add: justified_def edges selection_ok_def)
    have "closure_inv u roots busy c'"
      unfolding closure_inv_def
    proof (intro conjI ballI)
      fix q assume "q \<in> snd ` set (c_selected c')"
      then have "q = p \<or> q \<in> snd ` set (c_selected c)" using a by auto
      then show "needed u roots q" using assms(1,3) unfolding closure_inv_def by blast
    next
      fix q assume "q \<in> snd ` set (c_selected c')"
      then have "q = p \<or> q \<in> snd ` set (c_selected c)" using a by auto
      then show "justified u (c_selected c') (c_edges c') q"
        using assms(1) just jp unfolding closure_inv_def by blast
    next
      fix q assume "q \<in> snd ` set (c_selected c') - set (c_queue c') - busy"
      then have "q \<in> snd ` set (c_selected c) - set (c_queue c) - busy" using a by auto
      then show "resolved u (c_selected c') (c_edges c') q (groups_of q)"
        using assms(1) unfolding closure_inv_def by (blast intro: resolved_grows [OF gr])
    qed (rule ok')
    moreover have "set (c_queue c) \<subseteq> set (c_queue c')" using a by auto
    ultimately show ?thesis using gr look edges by blast
  qed (use assms(1) in auto)
  then show "closure_inv u roots busy c'" "grows c c'" "map_of (c_selected c') (p_name p) = Some p"
    "\<And>n. edges_from (c_edges c') n = edges_from (c_edges c) n" "set (c_queue c) \<subseteq> set (c_queue c')"
    by blast+
qed

lemma add_edge_invariant:
  assumes inv: "closure_inv u roots busy c" and p: "p \<in> snd ` set (c_selected c)"
    and g: "g \<in> set (groups_of p)" "satisfies u (c_selected c) g q" "p_name q \<noteq> p_name p"
  shows "closure_inv u roots busy (add_edge (p_name p) (p_name q) c)" "grows c (add_edge (p_name p) (p_name q) c)"
    "p_name q \<in> edges_from (c_edges (add_edge (p_name p) (p_name q) c)) (p_name p)"
proof -
  let ?c = "add_edge (p_name p) (p_name q) c"
  have ok: "selection_ok c" using inv by (simp add: closure_inv_def)
  have e: "edges_from (c_edges ?c) n =
      (if n = p_name p then insert (p_name q) (edges_from (c_edges c) n) else edges_from (c_edges c) n)" for n
    by (simp add: add_edge_def edges_from_dict_set) (simp add: edges_from_def)
  then show gr: "grows c ?c" by (auto simp: grows_def)
  show "p_name q \<in> edges_from (c_edges ?c) (p_name p)" by (simp add: e)
  have sel: "c_selected ?c = c_selected c" "c_queue ?c = c_queue c" by simp_all
  have "p_name p \<in> fst ` set (c_edges c)"
  proof -
    have "map_of (c_selected c) (p_name p) = Some p" using p by (simp only: selected_iff [OF ok])
    then have "p_name p \<in> fst ` set (c_selected c)" by (metis map_of_eq_None_iff option.distinct(1))
    with ok show ?thesis by (simp add: selection_ok_def)
  qed
  then have "fst ` set (c_edges ?c) = fst ` set (c_edges c)"
    by (simp add: add_edge_def keys_set insert_absorb)
  then have ok': "selection_ok ?c" using ok by (simp add: selection_ok_def)
  have just: "justified u (c_selected c) (c_edges ?c) r" if r: "r \<in> snd ` set (c_selected c)" for r
  proof (cases "p_name r = p_name p")
    case True
    then have "r = p" using selected_inject [OF ok r p] by simp
    moreover have "justified u (c_selected c) (c_edges c) p" using inv p unfolding closure_inv_def by blast
    ultimately show ?thesis using g unfolding justified_def e by auto
  next
    case False
    have "justified u (c_selected c) (c_edges c) r" using inv r unfolding closure_inv_def by blast
    with False show ?thesis by (simp add: justified_def e)
  qed
  show "closure_inv u roots busy ?c"
    using inv ok' just resolved_grows [OF gr] unfolding closure_inv_def sel by blast
qed

lemma resolve_groups_invariant:
  assumes "closure_inv u roots busy c" "p \<in> snd ` set (c_selected c)" "set gs \<subseteq> set (groups_of p)"
    and "resolve_groups u p gs c = Inr c'"
  shows "closure_inv u roots busy c' \<and> grows c c' \<and> resolved u (c_selected c') (c_edges c') p gs"
  using assms
proof (induction gs arbitrary: c)
  case Nil
  then show ?case by (simp add: resolved_def)
next
  case (Cons g gs)
  from Cons.prems(4) obtain q c1 where q: "satisfying_candidate u (c_selected c) g = Inr (Some q)"
    and c1: "select q (p_name p @ '' '' @ p_version p) c = Inr c1"
    and r: "resolve_groups u p gs (if p_name q \<noteq> p_name p then add_edge (p_name p) (p_name q) c1 else c1) = Inr c'"
    by (auto split: option.split_asm)
  define c2 where "c2 = (if p_name q \<noteq> p_name p then add_edge (p_name p) (p_name q) c1 else c1)"
  have g: "g \<in> set (groups_of p)" using Cons.prems(3) by simp
  obtain rel cs where rel: "rel \<in> set g" "candidates u rel = Inr cs" "q \<in> set cs"
    using satisfying_candidate_Some(2) [OF q] by blast
  have "needed u roots p" using Cons.prems(1,2) unfolding closure_inv_def by blast
  then have "needed u roots q" using needed.dependency [OF _ g rel] by blast
  note s = select_invariant [OF Cons.prems(1) c1 this]
  have sat: "satisfies u (c_selected c1) g q" using s(3) rel by (auto simp: satisfies_def)
  have ok: "selection_ok c" "selection_ok c1" using Cons.prems(1) s(1) by (simp_all add: closure_inv_def)
  have p1: "p \<in> snd ` set (c_selected c1)"
    using Cons.prems(2) s(2) by (auto simp: selected_iff [OF ok(1)] selected_iff [OF ok(2)] grows_def map_le_def dom_def)
  have c2: "closure_inv u roots busy c2" "grows c1 c2" "c_selected c2 = c_selected c1"
    "p_name q = p_name p \<or> p_name q \<in> edges_from (c_edges c2) (p_name p)"
    using s(1) add_edge_invariant [OF s(1) p1 g sat] by (simp_all add: c2_def)
  have ih: "closure_inv u roots busy c' \<and> grows c2 c' \<and> resolved u (c_selected c') (c_edges c') p gs"
    using Cons.IH [OF c2(1)] p1 c2(3) Cons.prems(3) r by (simp add: c2_def)
  have "resolved u (c_selected c2) (c_edges c2) p [g]"
    using sat c2(3,4) by (auto simp: resolved_def)
  then have "resolved u (c_selected c') (c_edges c') p [g]"
    using resolved_grows ih by blast
  moreover have "grows c c'" using grows_trans s(2) c2(2) ih by blast
  ultimately show ?case using ih by (simp add: resolved_def)
qed

lemma resolve_loop_invariant:
  "resolve_loop u c = Inr c' \<Longrightarrow> closure_inv u roots {} c \<Longrightarrow>
   closure_inv u roots {} c' \<and> grows c c' \<and> c_queue c' = []"
proof (induction u c rule: resolve_loop.induct)
  case (1 u c)
  show ?case
  proof (cases "c_queue c")
    case Nil
    with 1 show ?thesis by (simp add: resolve_loop.simps [of u c])
  next
    case (Cons p rest)
    from 1(2) Cons obtain c1 where c1: "resolve_groups u p (groups_of p) (c\<lparr>c_queue := rest\<rparr>) = Inr c1"
      and l: "resolve_loop u c1 = Inr c'"
      by (auto simp: resolve_loop.simps [of u c])
    have "closure_inv u roots {p} (c\<lparr>c_queue := rest\<rparr>)"
      using 1(3) Cons by (auto simp: closure_inv_def selection_ok_def)
    moreover have "p \<in> snd ` set (c_selected (c\<lparr>c_queue := rest\<rparr>))"
      using 1(3) Cons by (auto simp: closure_inv_def selection_ok_def)
    ultimately have i: "closure_inv u roots {p} c1 \<and> grows (c\<lparr>c_queue := rest\<rparr>) c1 \<and>
        resolved u (c_selected c1) (c_edges c1) p (groups_of p)"
      using c1 by (intro resolve_groups_invariant) simp_all
    then have "closure_inv u roots {} c1" unfolding closure_inv_def by blast
    moreover have "grows c c1" using i by (simp add: grows_def)
    ultimately show ?thesis using 1(1) [OF Cons c1 l] grows_trans by blast
  qed
qed

section \<open>The universe\<close>

interpretation newest: comparison "\<lambda>x y :: (int \<times> string \<times> string) \<times> Package. compare_split (fst y) (fst x)"
  by (rule comparison_pullback [OF comparison_reverse [OF version.comparison_axioms], where h = fst])

definition by_name_wf :: "by_name \<Rightarrow> bool" where
  "by_name_wf d \<longleftrightarrow> distinct (map fst d) \<and>
     (\<forall>(n, vs) \<in> set d. vs \<noteq> [] \<and> distinct (map fst vs) \<and>
        (\<forall>(i, p) \<in> set vs. p_name p = n \<and> i = (p_version p, p_architecture p)))"

definition listed :: "by_name \<Rightarrow> Package \<Rightarrow> bool" where
  "listed d p \<longleftrightarrow> (\<exists>vs. map_of d (p_name p) = Some vs \<and>
     (\<exists>q \<in> snd ` set vs. p_version q = p_version p \<and> p_architecture q = p_architecture p))"

lemma dict_set_mem: "(k, v) \<in> set (dict_set k v d)"
  by (induction d) auto

lemma dict_set_keeps: "k' \<noteq> k \<Longrightarrow> (k', v') \<in> set d \<Longrightarrow> (k', v') \<in> set (dict_set k v d)"
  by (induction d) auto

lemma dict_set_ne [simp]: "dict_set k v d \<noteq> []"
  using dict_set_mem [of k v d] by auto

lemma add_package_wf:
  assumes "by_name_wf d" "add_package p d = Inr d'"
  shows "by_name_wf d'" "listed d' p" "listed d q \<Longrightarrow> listed d' q"
proof -
  define i where "i = (p_version p, p_architecture p)"
  define vs where "vs = dict_get d (p_name p) []"
  have vs: "vs = [] \<or> (p_name p, vs) \<in> set d" "map_of d (p_name p) = Some vs \<or> map_of d (p_name p) = None \<and> vs = []"
    by (cases "map_of d (p_name p)"; simp add: vs_def dict_get_def map_of_SomeD)+
  have wfvs: "distinct (map fst vs)" "\<forall>(j, q) \<in> set vs. p_name q = p_name p \<and> j = (p_version q, p_architecture q)"
    using vs(1) assms(1) by (auto simp: by_name_wf_def)
  have "by_name_wf d' \<and> listed d' p \<and> (\<forall>q. listed d q \<longrightarrow> listed d' q)"
  proof (cases "map_of vs i")
    case None
    then have d': "d' = dict_set (p_name p) (dict_set i p vs) d"
      using assms(2) by (simp add: add_package_def i_def vs_def)
    have new: "distinct (map fst (dict_set i p vs))"
      "\<forall>(j, q) \<in> set (dict_set i p vs). p_name q = p_name p \<and> j = (p_version q, p_architecture q)"
      using wfvs set_dict_set [of i p vs] by (auto simp: distinct_dict_set i_def)
    have "by_name_wf d'"
      unfolding by_name_wf_def
    proof (intro conjI ballI)
      show "distinct (map fst d')" using assms(1) by (simp add: d' distinct_dict_set by_name_wf_def)
      fix e assume "e \<in> set d'"
      then have "e = (p_name p, dict_set i p vs) \<or> e \<in> set d"
        using set_dict_set [of "p_name p" "dict_set i p vs" d] d' by auto
      then show "case e of (n, ws) \<Rightarrow> ws \<noteq> [] \<and> distinct (map fst ws) \<and>
          (\<forall>(i, p) \<in> set ws. p_name p = n \<and> i = (p_version p, p_architecture p))"
        using new assms(1) by (auto simp: by_name_wf_def)
    qed
    moreover have "listed d' p"
      using dict_set_mem [of i p vs] by (force simp: listed_def d')
    moreover have "listed d' q" if "listed d q" for q
    proof (cases "p_name q = p_name p")
      case True
      with that vs(2) obtain j r where r: "(j, r) \<in> set vs" "p_version r = p_version q" "p_architecture r = p_architecture q"
        by (auto simp: listed_def)
      have "j \<noteq> i" using None r(1) wfvs(1) by (metis map_of_eq_Some_iff option.distinct(1))
      then have "(j, r) \<in> set (dict_set i p vs)" using r(1) by (rule dict_set_keeps)
      with True r show ?thesis by (force simp: listed_def d')
    qed (use that in \<open>simp add: listed_def d'\<close>)
    ultimately show ?thesis by blast
  next
    case (Some r)
    then have "d' = d" "(i, r) \<in> set vs"
      using assms(2) by (auto simp: add_package_def i_def vs_def dest: map_of_SomeD split: if_split_asm)
    moreover from this(2) have "vs \<noteq> []" by auto
    moreover have "i = (p_version r, p_architecture r)" using calculation(2) wfvs(2) by auto
    ultimately show ?thesis
      using assms(1) vs by (force simp: listed_def i_def)
  qed
  then show "by_name_wf d'" "listed d' p" "listed d q \<Longrightarrow> listed d' q" by blast+
qed

lemma add_packages_wf:
  "add_packages ps d = Inr d' \<Longrightarrow> by_name_wf d \<Longrightarrow>
   by_name_wf d' \<and> (\<forall>p \<in> set ps. listed d' p) \<and> (\<forall>q. listed d q \<longrightarrow> listed d' q)"
proof (induction ps arbitrary: d)
  case (Cons p ps)
  then obtain d1 where d1: "add_package p d = Inr d1" "add_packages ps d1 = Inr d'" by auto
  note w = add_package_wf [OF Cons.prems(2) d1(1)]
  from Cons.IH [OF d1(2) w(1)] w show ?case by auto
qed simp

lemma newest_first_Inr:
  assumes "newest_first ps = Inr qs" "p \<in> set ps"
  shows "set qs = set ps"
    and "p_version p = p_version (hd qs) \<or> (\<exists>d \<le> 0. compare_versions (p_version p) (p_version (hd qs)) = Inr d)"
proof -
  have "set qs = set ps \<and> (p_version p = p_version (hd qs) \<or> (\<exists>d \<le> 0. compare_versions (p_version p) (p_version (hd qs)) = Inr d))"
  proof (cases "length ps < 2")
    case True
    then have "ps = [p]" using assms(2) by (cases ps; cases "tl ps") auto
    moreover from this have "qs = [p]" using assms(1) by (simp add: newest_first_def)
    ultimately show ?thesis by simp
  next
    case False
    then obtain vs where vs: "rmap (\<lambda>p. rbind (split_version (p_version p)) (\<lambda>v. Inr (v, p))) ps = Inr vs"
      and qs: "qs = map snd (sort_cmp (\<lambda>x y. compare_split (fst y) (fst x)) vs)"
      using assms(1) by (auto simp: newest_first_def)
    have el: "list_all2 (\<lambda>p e. snd e = p \<and> split_version (p_version p) = Inr (fst e)) ps vs"
      using vs by (auto simp: rmap_Inr_iff elim!: list_all2_mono)
    then have map: "map snd vs = ps" by (auto simp: list_all2_conv_all_nth intro!: nth_equalityI)
    have split: "split_version (p_version (snd e)) = Inr (fst e)" if "e \<in> set vs" for e
      using el that by (auto simp: list_all2_conv_all_nth in_set_conv_nth)
    let ?s = "sort_cmp (\<lambda>x y. compare_split (fst y) (fst x)) vs"
    obtain e where e: "e \<in> set vs" "snd e = p" using assms(2) map by force
    then have ne: "?s \<noteq> []" by (metis empty_iff empty_set sort_cmp_Nil)
    then have h: "hd ?s \<in> set vs" "hd qs = snd (hd ?s)"
      using hd_in_set [OF ne] by (simp_all add: qs hd_map)
    have "compare_split (fst e) (fst (hd ?s)) \<le> 0" using newest.hd_sort_cmp [OF e(1)] by simp
    then have "\<exists>d \<le> 0. compare_versions (p_version p) (p_version (hd qs)) = Inr d"
      using split [OF e(1)] split [OF h(1)] e(2) h(2) by (auto simp: compare_versions_Inr)
    moreover have "set qs = set ps" by (simp add: qs flip: map)
    ultimately show ?thesis by blast
  qed
  then show "set qs = set ps"
    and "p_version p = p_version (hd qs) \<or> (\<exists>d \<le> 0. compare_versions (p_version p) (p_version (hd qs)) = Inr d)"
    by blast+
qed

lemma universe_parts:
  assumes "universe ps = Inr u"
  shows "distinct (map fst (u_packages u))"
    and "(n, qs) \<in> set (u_packages u) \<Longrightarrow> qs \<noteq> [] \<and> (\<forall>q \<in> set qs. p_name q = n)"
    and "p \<in> set ps \<Longrightarrow> \<exists>q. newest u (p_name p) = Some q \<and>
      (p_version p = p_version q \<or> (\<exists>d \<le> 0. compare_versions (p_version p) (p_version q) = Inr d))"
proof -
  obtain d ordered where d: "add_packages ps [] = Inr d"
    and r: "rmap (\<lambda>(name, versions). rbind (newest_first (map snd versions)) (\<lambda>ordered. Inr (name, ordered))) d = Inr ordered"
    and u: "u_packages u = ordered"
    using assms by (auto simp: universe_def Let_def)
  have wf: "by_name_wf d" "\<forall>p \<in> set ps. listed d p"
    using add_packages_wf [OF d] by (auto simp: by_name_wf_def)
  have el: "list_all2 (\<lambda>e f. fst f = fst e \<and> newest_first (map snd (snd e)) = Inr (snd f)) d ordered"
    using r by (auto simp: rmap_Inr_iff split_beta elim!: list_all2_mono)
  then have fsts: "map fst ordered = map fst d"
    by (auto simp: list_all2_conv_all_nth intro!: nth_equalityI)
  then show dist: "distinct (map fst (u_packages u))" using wf(1) by (simp add: u by_name_wf_def)
  have entry: "\<exists>vs. (n, vs) \<in> set d \<and> newest_first (map snd vs) = Inr qs" if "(n, qs) \<in> set ordered" for n qs
    using list_all2_right [OF el that] by auto
  have sub: "qs \<noteq> [] \<and> (\<forall>q \<in> set qs. p_name q = n)" if nq: "(n, qs) \<in> set ordered" for n qs
  proof -
    obtain vs where vs: "(n, vs) \<in> set d" "newest_first (map snd vs) = Inr qs" using entry [OF nq] by blast
    then have "vs \<noteq> []" "\<forall>(i, p) \<in> set vs. p_name p = n" using wf(1) by (auto simp: by_name_wf_def)
    moreover from this obtain p where "p \<in> set (map snd vs)" by (cases vs) auto
    then have "set qs = set (map snd vs)" using newest_first_Inr(1) [OF vs(2)] by blast
    ultimately show ?thesis by (auto simp: split_beta)
  qed
  then show "(n, qs) \<in> set (u_packages u) \<Longrightarrow> qs \<noteq> [] \<and> (\<forall>q \<in> set qs. p_name q = n)" by (simp add: u)
  assume "p \<in> set ps"
  then obtain vs q where vs: "map_of d (p_name p) = Some vs" "q \<in> snd ` set vs" "p_version q = p_version p"
    using wf(2) unfolding listed_def by blast
  then have "p_name p \<in> fst ` set ordered"
    using fsts by (metis image_set map_of_eq_None_iff option.distinct(1))
  then obtain qs where qs: "(p_name p, qs) \<in> set ordered" by auto
  obtain vs' where vs': "(p_name p, vs') \<in> set d" "newest_first (map snd vs') = Inr qs" using entry [OF qs] by blast
  then have "vs' = vs" using vs(1) wf(1) by (simp add: by_name_wf_def)
  then have "p_version q = p_version (hd qs) \<or> (\<exists>d \<le> 0. compare_versions (p_version q) (p_version (hd qs)) = Inr d)"
    using newest_first_Inr(2) [OF vs'(2), of q] vs(2) by simp
  moreover have "newest u (p_name p) = Some (hd qs)"
    using sub [OF qs] qs dist u by (cases qs) (auto simp: newest_def dict_get_def)
  ultimately show "\<exists>q. newest u (p_name p) = Some q \<and>
      (p_version p = p_version q \<or> (\<exists>d \<le> 0. compare_versions (p_version p) (p_version q) = Inr d))"
    using vs(3) by auto
qed

section \<open>The roots\<close>

definition requested_root :: "Universe \<Rightarrow> string \<Rightarrow> Package \<Rightarrow> bool" where
  "requested_root u name p \<longleftrightarrow>
     (\<exists>cs. candidates u (bare_relation name) = Inr cs \<and> p \<in> set cs \<and> (p_name p = name \<or> cs = [p]))"

definition roots :: "Universe \<Rightarrow> string list \<Rightarrow> Package set" where
  "roots u requested =
     {p. \<exists>n \<in> set (bootstrap_names u). newest u n = Some p} \<union> {p. \<exists>n \<in> set requested. requested_root u n p}"

lemma select_all_invariant:
  assumes "closure_inv u rs {} c" "select_all reason ps c = Inr c'" "set ps \<subseteq> rs"
  shows "closure_inv u rs {} c' \<and> grows c c' \<and> (\<forall>p \<in> set ps. map_of (c_selected c') (p_name p) = Some p)"
  using assms
proof (induction ps arbitrary: c)
  case (Cons p ps)
  then obtain c1 where c1: "select p reason c = Inr c1" "select_all reason ps c1 = Inr c'" by auto
  have "needed u rs p" using Cons.prems(3) by (auto intro: needed.root)
  note s = select_invariant [OF Cons.prems(1) c1(1) this]
  have ih: "closure_inv u rs {} c' \<and> grows c1 c' \<and> (\<forall>p \<in> set ps. map_of (c_selected c') (p_name p) = Some p)"
    using Cons.IH [OF s(1) c1(2)] Cons.prems(3) by simp
  moreover have "map_of (c_selected c') (p_name p) = Some p"
    using ih s(3) by (auto simp: grows_def map_le_def dom_def)
  ultimately show ?case using grows_trans s(2) by auto
qed simp

lemma select_requested_invariant:
  assumes "closure_inv u rs {} c" "select_requested_loop u names missing c = Inr (missing', c')"
    and "\<And>n p. n \<in> set names \<Longrightarrow> requested_root u n p \<Longrightarrow> p \<in> rs"
  shows "closure_inv u rs {} c' \<and> grows c c' \<and> set missing \<subseteq> set missing' \<and>
    (\<forall>n \<in> set names. n \<in> set missing' \<or> (\<exists>p. requested_root u n p \<and> map_of (c_selected c') (p_name p) = Some p))"
  using assms
proof (induction names arbitrary: missing c)
  case (Cons n names)
  from Cons.prems(2) obtain cs where cs: "candidates u (bare_relation n) = Inr cs" by auto
  consider (found) p c1 where "requested_root u n p" "select p ''the specification'' c = Inr c1"
      "select_requested_loop u names missing c1 = Inr (missing', c')"
    | (missing) "select_requested_loop u names (missing @ [n]) c = Inr (missing', c')"
  proof -
    have mem: "filter (\<lambda>p. p_name p = n) cs = p # ps \<Longrightarrow> requested_root u n p" for p ps
      using cs by (auto simp: requested_root_def filter_eq_Cons_iff)
    have one: "cs = [p] \<Longrightarrow> requested_root u n p" for p using cs by (auto simp: requested_root_def)
    show thesis
      using Cons.prems(2) cs mem one that
      by (auto split: list.split_asm)
  qed
  then show ?case
  proof cases
    case found
    have "needed u rs p" using Cons.prems(3) [of n p] found(1) by (auto intro: needed.root)
    note s = select_invariant [OF Cons.prems(1) found(2) this]
    have ih: "closure_inv u rs {} c' \<and> grows c1 c' \<and> set missing \<subseteq> set missing' \<and>
        (\<forall>n \<in> set names. n \<in> set missing' \<or> (\<exists>p. requested_root u n p \<and> map_of (c_selected c') (p_name p) = Some p))"
      using Cons.IH [OF s(1) found(3)] Cons.prems(3) by auto
    moreover have "map_of (c_selected c') (p_name p) = Some p"
      using ih s(3) by (auto simp: grows_def map_le_def dom_def)
    ultimately show ?thesis using grows_trans s(2) found(1) by auto
  next
    case missing
    with Cons.IH [OF Cons.prems(1) missing] Cons.prems(3) show ?thesis by auto
  qed
qed simp

lemma resolve_invariant:
  assumes "universe ps = Inr u" "resolve u requested = Inr (selected, edges)"
  shows "\<exists>c. closure_inv u (roots u requested) {} c \<and> c_queue c = [] \<and> c_selected c = selected \<and> c_edges c = edges"
    and "\<forall>n \<in> set (bootstrap_names u). \<exists>p. newest u n = Some p \<and> map_of selected n = Some p"
    and "\<forall>n \<in> set requested. \<exists>p. requested_root u n p \<and> map_of selected (p_name p) = Some p"
proof -
  let ?r = "roots u requested"
  from assms(2) obtain c1 c2 c3 where c1: "select_bootstrap u empty_closure = Inr c1"
    and c2: "select_requested_loop u requested [] c1 = Inr ([], c2)"
    and c3: "resolve_loop u c2 = Inr c3" "selected = c_selected c3" "edges = c_edges c3"
    by (auto simp: resolve_def select_requested_def split: if_split_asm)
  have new: "\<exists>p. newest u n = Some p \<and> p_name p = n" if n: "n \<in> set (bootstrap_names u)" for n
  proof -
    obtain q where "q \<in> set (universe_packages u)" "p_name q = n"
      using n by (auto simp: bootstrap_names_def)
    then obtain m qs where q: "(m, qs) \<in> set (u_packages u)" "q \<in> set qs"
      by (auto simp: universe_packages_def)
    then have "m = n" using universe_parts(2) [OF assms(1) q(1)] \<open>p_name q = n\<close> by auto
    then have "dict_get (u_packages u) n [] = qs"
      using q(1) universe_parts(1) [OF assms(1)] by (simp add: dict_get_def)
    with q universe_parts(2) [OF assms(1) q(1)] \<open>m = n\<close> show ?thesis
      by (cases qs) (auto simp: newest_def)
  qed
  have e: "closure_inv u ?r {} empty_closure"
    by (simp add: closure_inv_def selection_ok_def empty_closure_def)
  have sub: "set (map (\<lambda>n. the (newest u n)) (bootstrap_names u)) \<subseteq> ?r"
    using new by (fastforce simp: roots_def)
  have i1: "closure_inv u ?r {} c1 \<and> grows empty_closure c1 \<and>
      (\<forall>p \<in> set (map (\<lambda>n. the (newest u n)) (bootstrap_names u)). map_of (c_selected c1) (p_name p) = Some p)"
    using select_all_invariant [OF e c1 [unfolded select_bootstrap_def] sub] .
  have rr: "p \<in> ?r" if "n \<in> set requested" "requested_root u n p" for n p
    using that by (auto simp: roots_def)
  have i2: "closure_inv u ?r {} c2 \<and> grows c1 c2 \<and>
      (\<forall>n \<in> set requested. \<exists>p. requested_root u n p \<and> map_of (c_selected c2) (p_name p) = Some p)"
  proof -
    have "closure_inv u ?r {} c2 \<and> grows c1 c2 \<and> set ([] :: string list) \<subseteq> set ([] :: string list) \<and>
      (\<forall>n \<in> set requested. n \<in> set [] \<or> (\<exists>p. requested_root u n p \<and> map_of (c_selected c2) (p_name p) = Some p))"
      by (rule select_requested_invariant [OF conjunct1 [OF i1] c2]) (rule rr)
    then show ?thesis by simp
  qed
  have i3: "closure_inv u ?r {} c3 \<and> grows c2 c3 \<and> c_queue c3 = []"
    by (rule resolve_loop_invariant [OF c3(1)]) (use i2 in simp)
  then show "\<exists>c. closure_inv u ?r {} c \<and> c_queue c = [] \<and> c_selected c = selected \<and> c_edges c = edges"
    using c3 by blast
  have up: "map_of (c_selected c) n = Some p \<Longrightarrow> grows c c' \<Longrightarrow> map_of (c_selected c') n = Some p" for c c' n p
    by (auto simp: grows_def map_le_def dom_def)
  show "\<forall>n \<in> set (bootstrap_names u). \<exists>p. newest u n = Some p \<and> map_of selected n = Some p"
  proof
    fix n assume n: "n \<in> set (bootstrap_names u)"
    obtain p where p: "newest u n = Some p" "p_name p = n" using new [OF n] by blast
    then have "map_of (c_selected c1) n = Some p" using i1 n by force
    then have "map_of (c_selected c3) n = Some p" using up i2 i3 by blast
    with p c3(2) show "\<exists>p. newest u n = Some p \<and> map_of selected n = Some p" by simp
  qed
  show "\<forall>n \<in> set requested. \<exists>p. requested_root u n p \<and> map_of selected (p_name p) = Some p"
    using i2 i3 up c3(2) by metis
qed

section \<open>Properties\<close>

lemma resolve_closed_parts:
  assumes "universe ps = Inr u" "resolve u requested = Inr (selected, edges)"
  shows "distinct (map fst selected)"
    and "map_of selected n = Some p \<Longrightarrow> p_name p = n"
    and "map_of selected n = Some p \<Longrightarrow> g \<in> set (p_pre_depends p @ p_depends p) \<Longrightarrow>
      \<exists>q. satisfies u selected g q \<and> (p_name q = n \<or> p_name q \<in> edges_from edges n)"
    and "map_of selected n = Some p \<Longrightarrow> m \<in> edges_from edges n \<Longrightarrow>
      m \<noteq> n \<and> (\<exists>g \<in> set (p_pre_depends p @ p_depends p). \<exists>q. satisfies u selected g q \<and> p_name q = m)"
proof -
  obtain c where inv: "closure_inv u (roots u requested) {} c" and c: "c_queue c = []" "c_selected c = selected" "c_edges c = edges"
    using resolve_invariant(1) [OF assms] by blast
  have ok: "selection_ok c" using inv by (simp add: closure_inv_def)
  then show "distinct (map fst selected)" by (simp add: selection_ok_def c)
  show name: "p_name p = n" if "map_of selected n = Some p" for n p
    using ok map_of_SomeD [OF that] by (auto simp: selection_ok_def c)
  have mem: "p \<in> snd ` set (c_selected c)" if "map_of selected n = Some p" for n p
    using map_of_SomeD [OF that] c(2) by force
  show "\<exists>q. satisfies u selected g q \<and> (p_name q = n \<or> p_name q \<in> edges_from edges n)"
    if s: "map_of selected n = Some p" and g: "g \<in> set (p_pre_depends p @ p_depends p)"
  proof -
    have "resolved u (c_selected c) (c_edges c) p (groups_of p)"
    proof -
      have "p \<in> snd ` set (c_selected c) - set (c_queue c) - {}" using mem [OF s] unfolding c(1) by simp
      with inv show ?thesis unfolding closure_inv_def by blast
    qed
    then show ?thesis using g name [OF s] unfolding resolved_def c by blast
  qed
  show "m \<noteq> n \<and> (\<exists>g \<in> set (p_pre_depends p @ p_depends p). \<exists>q. satisfies u selected g q \<and> p_name q = m)"
    if s: "map_of selected n = Some p" and m: "m \<in> edges_from edges n"
  proof -
    have "justified u (c_selected c) (c_edges c) p"
      using inv mem [OF s] unfolding closure_inv_def by blast
    then show ?thesis using m name [OF s] unfolding justified_def c by blast
  qed
qed

text \<open>
  C14: A resolved lock is closed under dependencies: it has one package for each name, every
  Depends and Pre-Depends group of every selected package is satisfied by a selected candidate of
  one of its alternatives, recorded as an edge unless the package satisfies the group itself,
  and every edge names a selected package that satisfies a group of its source.
\<close>

theorem resolve_closed:
  assumes "universe ps = Inr u" "resolve u requested = Inr (selected, edges)"
  shows "distinct (map fst selected) \<and>
    (\<forall>n p. map_of selected n = Some p \<longrightarrow> p_name p = n \<and>
      (\<forall>g \<in> set (p_pre_depends p @ p_depends p).
        \<exists>q. satisfies u selected g q \<and> (p_name q = n \<or> p_name q \<in> edges_from edges n)) \<and>
      (\<forall>m \<in> edges_from edges n. m \<noteq> n \<and>
        (\<exists>g \<in> set (p_pre_depends p @ p_depends p). \<exists>q. satisfies u selected g q \<and> p_name q = m)))"
  using resolve_closed_parts [OF assms] by blast

lemma resolve_roots_parts:
  assumes "universe ps = Inr u" "resolve u requested = Inr (selected, edges)"
  shows "q \<in> set (universe_packages u) \<Longrightarrow> p_essential q \<or> p_priority q = ''required'' \<Longrightarrow>
      \<exists>p. newest u (p_name q) = Some p \<and> map_of selected (p_name q) = Some p"
    and "n \<in> set requested \<Longrightarrow> \<exists>p cs. candidates u (bare_relation n) = Inr cs \<and> p \<in> set cs \<and>
      (p_name p = n \<or> cs = [p]) \<and> map_of selected (p_name p) = Some p"
    and "q \<in> set ps \<Longrightarrow> \<exists>p. newest u (p_name q) = Some p \<and>
      (p_version q = p_version p \<or> (\<exists>d \<le> 0. compare_versions (p_version q) (p_version p) = Inr d))"
proof -
  show "\<exists>p. newest u (p_name q) = Some p \<and> map_of selected (p_name q) = Some p"
    if "q \<in> set (universe_packages u)" "p_essential q \<or> p_priority q = ''required''"
  proof -
    have "p_name q \<in> set (bootstrap_names u)" using that by (auto simp: bootstrap_names_def)
    then show ?thesis using resolve_invariant(2) [OF assms] by blast
  qed
  show "n \<in> set requested \<Longrightarrow> \<exists>p cs. candidates u (bare_relation n) = Inr cs \<and> p \<in> set cs \<and>
      (p_name p = n \<or> cs = [p]) \<and> map_of selected (p_name p) = Some p"
    using resolve_invariant(3) [OF assms] unfolding requested_root_def by blast
  show "q \<in> set ps \<Longrightarrow> \<exists>p. newest u (p_name q) = Some p \<and>
      (p_version q = p_version p \<or> (\<exists>d \<le> 0. compare_versions (p_version q) (p_version p) = Inr d))"
    by (rule universe_parts(3) [OF assms(1)])
qed

text \<open>
  C15: A resolved lock contains the newest version of every Essential and every
  \<^verbatim>\<open>Priority: required\<close> package, and for each requested name a package of that name or the only
  package that provides it. Newest means that no listed package of the name has a greater version.
\<close>

theorem resolve_roots:
  assumes "universe ps = Inr u" "resolve u requested = Inr (selected, edges)"
  shows "(\<forall>q \<in> set (universe_packages u). p_essential q \<or> p_priority q = ''required'' \<longrightarrow>
      (\<exists>p. newest u (p_name q) = Some p \<and> map_of selected (p_name q) = Some p)) \<and>
    (\<forall>n \<in> set requested. \<exists>p cs. candidates u (bare_relation n) = Inr cs \<and> p \<in> set cs \<and>
      (p_name p = n \<or> cs = [p]) \<and> map_of selected (p_name p) = Some p) \<and>
    (\<forall>q \<in> set ps. \<exists>p. newest u (p_name q) = Some p \<and>
      (p_version q = p_version p \<or> (\<exists>d \<le> 0. compare_versions (p_version q) (p_version p) = Inr d)))"
  using resolve_roots_parts [OF assms] by blast

text \<open>
  C16: A resolved lock contains nothing else: every selected package is reachable from the
  bootstrap set and the requested packages over candidates of dependency groups.
\<close>

theorem resolve_minimal:
  assumes "universe ps = Inr u" "resolve u requested = Inr (selected, edges)" "map_of selected n = Some p"
  shows "needed u ({p. \<exists>n \<in> set (bootstrap_names u). newest u n = Some p}
    \<union> {p. \<exists>n \<in> set requested. requested_root u n p}) p"
proof -
  obtain c where "closure_inv u (roots u requested) {} c" "c_selected c = selected"
    using resolve_invariant(1) [OF assms(1,2)] by blast
  moreover have "p \<in> snd ` set selected" using map_of_SomeD [OF assms(3)] by force
  ultimately show ?thesis unfolding closure_inv_def roots_def by blast
qed

end
