(* ===== verification/Debian_Fixture.thy ===== *)
theory Debian_Fixture
  imports Debian_Closure
begin

text \<open>
  A small archive for the hypotheses of the resolver theorems: an essential package in two
  versions, and a requested package that depends on a virtual package with one provider.
\<close>

definition demo_package :: "string \<Rightarrow> string \<Rightarrow> bool \<Rightarrow> Relation list list \<Rightarrow> (string \<times> string option) list \<Rightarrow> Package" where
  "demo_package name version ess deps provides =
     \<lparr>p_name = name, p_version = version, p_architecture = ''amd64'', p_component = ''main'',
      p_filename = ''pool/x.deb'', p_bytes = 1, p_sha256 = ''00'', p_multi_arch = ''no'', p_essential = ess,
      p_priority = ''optional'', p_pre_depends = [], p_depends = deps, p_provides = provides\<rparr>"

definition demo_base :: "string \<Rightarrow> Package" where
  "demo_base version = demo_package ''base'' version True [] []"

definition demo_app :: Package where
  "demo_app = demo_package ''app'' ''2'' False [[bare_relation ''virtual'']] []"

definition demo_lib :: Package where
  "demo_lib = demo_package ''lib'' ''3'' False [] [(''virtual'', None)]"

definition demo_archive :: "Package list" where
  "demo_archive = [demo_base ''1'', demo_base ''10'', demo_app, demo_lib]"

definition demo_universe :: Universe where
  "demo_universe =
     \<lparr>u_packages = [(''base'', [demo_base ''10'', demo_base ''1'']), (''app'', [demo_app]), (''lib'', [demo_lib])],
      u_providers = [(''virtual'', [(demo_lib, None)])]\<rparr>"

lemma demo_universe_ok: "universe demo_archive = Inr demo_universe"
  by code_simp

definition demo_selected :: "(string, Package) dict" where
  "demo_selected = [(''base'', demo_base ''10''), (''app'', demo_app), (''lib'', demo_lib)]"

definition demo_edges :: "(string, string set) dict" where
  "demo_edges = [(''base'', {}), (''app'', {''lib''}), (''lib'', {})]"

lemma demo_resolved: "resolve demo_universe [''app''] = Inr (demo_selected, demo_edges)"
  by code_simp

theorem resolve_closed_witness:
  "\<exists>q. satisfies demo_universe demo_selected [bare_relation ''virtual''] q \<and>
     (p_name q = ''app'' \<or> p_name q \<in> edges_from demo_edges ''app'')"
proof -
  have "map_of demo_selected ''app'' = Some demo_app" by (simp add: demo_selected_def)
  moreover have "[bare_relation ''virtual''] \<in> set (p_pre_depends demo_app @ p_depends demo_app)"
    by (simp add: demo_app_def demo_package_def)
  ultimately show ?thesis using resolve_closed [OF demo_universe_ok demo_resolved] by blast
qed

theorem resolve_roots_witness:
  "(\<exists>p. newest demo_universe ''base'' = Some p \<and> map_of demo_selected ''base'' = Some p) \<and>
   (\<exists>p cs. candidates demo_universe (bare_relation ''app'') = Inr cs \<and> p \<in> set cs \<and>
      (p_name p = ''app'' \<or> cs = [p]) \<and> map_of demo_selected (p_name p) = Some p) \<and>
   (\<exists>p. newest demo_universe ''base'' = Some p \<and>
      (''1'' = p_version p \<or> (\<exists>d \<le> 0. compare_versions ''1'' (p_version p) = Inr d)))"
proof -
  note r = resolve_roots [OF demo_universe_ok demo_resolved]
  have b: "demo_base ''1'' \<in> set (universe_packages demo_universe)" "demo_base ''1'' \<in> set demo_archive"
    "p_essential (demo_base ''1'')" "p_name (demo_base ''1'') = ''base''" "p_version (demo_base ''1'') = ''1''"
    by (simp_all add: universe_packages_def demo_universe_def demo_archive_def demo_base_def demo_package_def)
  have "p_essential (demo_base ''1'') \<or> p_priority (demo_base ''1'') = ''required''" using b(3) by simp
  from bspec [OF conjunct1 [OF r] b(1), rule_format, OF this]
    bspec [OF conjunct2 [OF conjunct2 [OF r]] b(2)]
    bspec [OF conjunct1 [OF conjunct2 [OF r]], of "''app''"]
  show ?thesis using b(4,5) by simp
qed

theorem resolve_minimal_witness:
  "needed demo_universe ({p. \<exists>n \<in> set (bootstrap_names demo_universe). newest demo_universe n = Some p}
    \<union> {p. \<exists>n \<in> set [''app'']. requested_root demo_universe n p}) demo_lib"
  by (rule resolve_minimal [OF demo_universe_ok demo_resolved, of "''lib''"]) (simp add: demo_selected_def)

end
