(* ===== verification/Json_Text.thy ===== *)
theory Json_Text
  imports Py_Text
begin

text \<open>
  \<^verbatim>\<open>json.dumps\<close> of the values the program writes, with \<^verbatim>\<open>sort_keys=True\<close> and the default
  \<^verbatim>\<open>ensure_ascii=True\<close>: the compact form that digests are computed of and the indented form of
  lock files. No value the program writes holds a float.
\<close>

section \<open>Numbers and string literals\<close>

fun digits_of :: "nat \<Rightarrow> string" where
  "digits_of n = (if n < 10 then [char_of (48 + n)] else digits_of (n div 10) @ [char_of (48 + n mod 10)])"

declare digits_of.simps [simp del]

definition int_str :: "int \<Rightarrow> string" where
  "int_str i = (if i < 0 then ''-'' else []) @ digits_of (nat \<bar>i\<bar>)"

definition hex_digit_char :: "nat \<Rightarrow> char" where
  "hex_digit_char n = char_of (if n < 10 then 48 + n else 87 + n)"

definition escape_char :: "char \<Rightarrow> string" where
  "escape_char c =
     (if c = CHR 0x22 then [CHR 0x5C, CHR 0x22]
      else if c = CHR 0x5C then [CHR 0x5C, CHR 0x5C]
      else if c = CHR 0x0A then [CHR 0x5C, CHR ''n'']
      else if c = CHR 0x0D then [CHR 0x5C, CHR ''r'']
      else if c = CHR 0x09 then [CHR 0x5C, CHR ''t'']
      else if c = CHR 0x0C then [CHR 0x5C, CHR ''f'']
      else if c = CHR 0x08 then [CHR 0x5C, CHR ''b'']
      else if 32 \<le> code c \<and> code c \<le> 126 then [c]
      else [CHR 0x5C, CHR ''u'', CHR ''0'', CHR ''0'',
            hex_digit_char (of_char c div 16), hex_digit_char (of_char c mod 16)])"

definition json_str :: "string \<Rightarrow> string" where
  "json_str s = [CHR 0x22] @ concat (map escape_char s) @ [CHR 0x22]"

section \<open>Values\<close>

fun json_dumps :: "string json \<Rightarrow> string" where
  "json_dumps JNull = ''null''"
| "json_dumps (JBool b) = (if b then ''true'' else ''false'')"
| "json_dumps (JInt i) = int_str i"
| "json_dumps (JFloat f) = []"
| "json_dumps (JStr s) = json_str s"
| "json_dumps (JList xs) = ''['' @ join_with '','' (map json_dumps xs) @ '']''"
| "json_dumps (JObj kvs) =
     ''{'' @ join_with '','' (map (\<lambda>(k, v). json_str k @ '':'' @ v)
       (sort_key fst (map (\<lambda>(k, v). (k, json_dumps v)) kvs))) @ ''}''"

definition newline_indent :: "nat \<Rightarrow> string" where
  "newline_indent n = CHR ''\<newline>'' # replicate (2 * n) (CHR '' '')"

text \<open>\<^verbatim>\<open>json.dumps(value, indent=2, sort_keys=True)\<close> at nesting depth \<open>n\<close>\<close>

fun json_pretty :: "nat \<Rightarrow> string json \<Rightarrow> string" where
  "json_pretty n (JList xs) =
     (if xs = [] then ''[]''
      else ''['' @ newline_indent (Suc n)
        @ join_with ('','' @ newline_indent (Suc n)) (map (json_pretty (Suc n)) xs)
        @ newline_indent n @ '']'')"
| "json_pretty n (JObj kvs) =
     (if kvs = [] then ''{}''
      else ''{'' @ newline_indent (Suc n)
        @ join_with ('','' @ newline_indent (Suc n)) (map (\<lambda>(k, v). json_str k @ '': '' @ v)
            (sort_key fst (map (\<lambda>(k, v). (k, json_pretty (Suc n) v)) kvs)))
        @ newline_indent n @ ''}'')"
| "json_pretty n v = json_dumps v"

section \<open>String literals are self-delimiting\<close>

lemma escape_char_nonempty [simp]: "escape_char c \<noteq> []"
  by (simp add: escape_char_def)

text \<open>The escape of a character and the closing quote form a prefix code.\<close>

lemma escape_char_no_quote: "escape_char c @ r \<noteq> CHR 0x22 # r'"
  by (auto simp: escape_char_def)

definition hex_char_value :: "char \<Rightarrow> nat" where
  "hex_char_value h = (if of_char h < (58 :: nat) then of_char h - 48 else of_char h - 87)"

definition short_escapes :: "(char \<times> char) list" where
  "short_escapes = [(CHR ''n'', CHR 0x0A), (CHR ''r'', CHR 0x0D), (CHR ''t'', CHR 0x09), (CHR ''f'', CHR 0x0C),
     (CHR ''b'', CHR 0x08), (CHR 0x22, CHR 0x22), (CHR 0x5C, CHR 0x5C)]"

definition unescape :: "string \<Rightarrow> (char \<times> string) option" where
  "unescape s =
     (case s of
        [] \<Rightarrow> None
      | c # r \<Rightarrow>
          if c \<noteq> CHR 0x5C then Some (c, r)
          else (case r of
              [] \<Rightarrow> None
            | d # q \<Rightarrow>
                (case map_of short_escapes d of
                   Some e \<Rightarrow> Some (e, q)
                 | None \<Rightarrow>
                    (case q of
                       _ # _ # h # l # t \<Rightarrow> Some (char_of (hex_char_value h * 16 + hex_char_value l), t)
                     | _ \<Rightarrow> None))))"

lemma hex_char_value [simp]: "n < 16 \<Longrightarrow> hex_char_value (hex_digit_char n) = n"
  by (simp add: hex_char_value_def hex_digit_char_def)

lemma unescape_escape: "unescape (escape_char c @ r) = Some (c, r)"
proof -
  have "(of_char c :: nat) < 256" by simp
  then have h: "of_char c div 16 < (16 :: nat)" "of_char c mod 16 < (16 :: nat)" by (auto simp: less_mult_imp_div_less)
  have e: "char_of (of_char c div 16 * 16 + of_char c mod 16 :: nat) = c"
    by (simp only: div_mult_mod_eq char_of_char)
  show ?thesis
    unfolding escape_char_def by (simp add: unescape_def short_escapes_def h e)
qed

lemma escape_char_inj: "escape_char c @ r = escape_char c' @ r' \<Longrightarrow> c = c' \<and> r = r'"
  by (metis unescape_escape option.inject prod.inject)

lemma json_str_body_inj:
  "concat (map escape_char s) @ [CHR 0x22] @ r = concat (map escape_char s') @ [CHR 0x22] @ r' \<Longrightarrow> s = s' \<and> r = r'"
proof (induction s arbitrary: s')
  case Nil
  then show ?case
    by (cases s') (simp_all, metis append.assoc append_Cons append_Nil escape_char_no_quote)
next
  case (Cons c s)
  then show ?case
  proof (cases s')
    case Nil
    then show ?thesis
      using Cons.prems by simp (metis append.assoc append_Cons append_Nil escape_char_no_quote)
  next
    case (Cons c' t)
    from Cons.prems have "escape_char c @ concat (map escape_char s) @ [CHR 0x22] @ r =
        escape_char c' @ concat (map escape_char t) @ [CHR 0x22] @ r'" unfolding Cons by simp
    from escape_char_inj [OF this] Cons.IH [of t] show ?thesis unfolding Cons by blast
  qed
qed

lemma json_str_inj: "json_str s @ r = json_str s' @ r' \<Longrightarrow> s = s' \<and> r = r'"
  using json_str_body_inj [of s r s' r'] by (simp add: json_str_def)

lemma join_json_strs:
  "join_with '','' (map json_str (x # xs)) @ '']'' @ r =
     json_str x @ (if xs = [] then '']'' @ r else '','' @ join_with '','' (map json_str xs) @ '']'' @ r)"
  by (cases xs) simp_all

lemma json_str_no_bracket: "CHR '']'' # r \<noteq> json_str x @ r'"
  by (simp add: json_str_def)

lemma json_strs_inj:
  "join_with '','' (map json_str xs) @ '']'' @ r = join_with '','' (map json_str ys) @ '']'' @ r' \<Longrightarrow>
     xs = ys \<and> r = r'"
proof (induction xs arbitrary: ys)
  case Nil
  then show ?case
    using json_str_no_bracket [of r] by (cases ys) (simp_all only: join_json_strs, simp_all)
next
  case (Cons x xs)
  then obtain y ys' where ys: "ys = y # ys'"
    using json_str_no_bracket [of r' x] by (cases ys) (simp_all only: join_json_strs, simp_all, metis)
  from Cons.prems have "x = y" and
    rest: "(if xs = [] then '']'' @ r else '','' @ join_with '','' (map json_str xs) @ '']'' @ r) =
      (if ys' = [] then '']'' @ r' else '','' @ join_with '','' (map json_str ys') @ '']'' @ r')"
    unfolding ys join_json_strs using json_str_inj by blast+
  with Cons.IH [of ys'] show ?case by (auto simp: ys split: if_split_asm)
qed

section \<open>Decimal text\<close>

lemma digits_of_value: "foldl (\<lambda>v c. 10 * v + (of_char c - 48)) 0 (digits_of n) = n"
proof (induction n rule: digits_of.induct)
  case (1 n)
  show ?case
  proof (cases "n < 10")
    case True
    then show ?thesis by (simp add: digits_of.simps [of n])
  next
    case False
    have "(48 + n mod 10) mod 256 = 48 + n mod 10" by (intro mod_less) linarith
    with 1 False show ?thesis by (simp add: digits_of.simps [of n])
  qed
qed

lemma digits_of_chars: "c \<in> set (digits_of n) \<Longrightarrow> 48 \<le> (of_char c :: nat) \<and> of_char c < (58 :: nat)"
proof (induction n rule: digits_of.induct)
  case (1 n)
  have m: "(48 + n mod 10) mod 256 = 48 + n mod 10" by (intro mod_less) linarith
  show ?case
  proof (cases "n < 10")
    case True
    with 1(2) m show ?thesis by (simp add: digits_of.simps [of n])
  next
    case False
    with 1(2) consider "c \<in> set (digits_of (n div 10))" | "c = char_of (48 + n mod 10)"
      by (auto simp: digits_of.simps [of n])
    then show ?thesis
    proof cases
      case 2
      with m show ?thesis by simp
    qed (use 1(1) False in simp)
  qed
qed

lemma int_str_inj: "0 \<le> i \<Longrightarrow> 0 \<le> j \<Longrightarrow> int_str i = int_str j \<Longrightarrow> i = j"
proof -
  assume a: "0 \<le> i" "0 \<le> j" "int_str i = int_str j"
  then have "digits_of (nat i) = digits_of (nat j)" by (simp add: int_str_def)
  then have "nat i = nat j" by (metis digits_of_value)
  with a show "i = j" by simp
qed

lemma int_str_no_dot: "0 \<le> i \<Longrightarrow> CHR ''.'' \<notin> set (int_str i)"
proof -
  have "(of_char (CHR ''.'') :: nat) = 46" by simp
  then have "CHR ''.'' \<notin> set (digits_of (nat i))" using digits_of_chars [of "CHR ''.''" "nat i"] by linarith
  moreover assume "0 \<le> i"
  ultimately show ?thesis by (simp add: int_str_def)
qed

lemma dotted_inj:
  assumes "xs \<noteq> []" "ys \<noteq> []" "\<And>x. x \<in> set xs \<union> set ys \<Longrightarrow> 0 \<le> x"
    "join_with ''.'' (map int_str xs) = join_with ''.'' (map int_str ys)"
  shows "xs = ys"
proof -
  have "split_on (CHR ''.'') (join_with ''.'' (map int_str zs)) = map int_str zs"
    if "zs \<noteq> []" "\<And>z. z \<in> set zs \<Longrightarrow> 0 \<le> z" for zs
    using that int_str_no_dot by (intro split_on_join) auto
  then have "map int_str xs = map int_str ys" using assms by (metis UnCI)
  then show ?thesis
    using assms(3) int_str_inj by (intro map_inj_on [of int_str]) (auto simp: inj_on_def)
qed

end
