(* ===== verification/Http_Download.thy ===== *)
theory Http_Download
  imports Py_Text
begin

text \<open>
  The download loop of \<^verbatim>\<open>mkosi/debian/http_download.py\<close>. The server is the sequence of its answers:
  \<open>opener i\<close> is what the attempt with index \<open>i\<close> gets. The result carries the delays that were slept.
\<close>

section \<open>The loop\<close>

text \<open>
  A failed attempt has the HTTP status of the error, if it has one, and its \<^verbatim>\<open>Retry-After\<close> header,
  empty when the error has no headers or not this one.
\<close>

record failure =
  f_code :: "int option"
  f_retry_after :: string

datatype response = Body bytes | Failed failure

text \<open>\<open>Delay_error\<close> is the \<^verbatim>\<open>ValueError\<close> of \<^verbatim>\<open>int(retry_after)\<close>, which the loop does not catch.\<close>

datatype download_error = Download_failed | Delay_error

definition MAX_DELAY_SECONDS :: int where "MAX_DELAY_SECONDS = 60"

definition is_transient :: "failure \<Rightarrow> bool" where
  "is_transient f \<longleftrightarrow> (case f_code f of None \<Rightarrow> True | Some status \<Rightarrow> status = 429 \<or> 500 \<le> status)"

definition retry_delay :: "failure \<Rightarrow> nat \<Rightarrow> download_error + int" where
  "retry_delay f attempt =
     rbind (if str_isdigit (f_retry_after f)
            then (case py_int (f_retry_after f) of None \<Rightarrow> Inl Delay_error | Some n \<Rightarrow> Inr n)
            else Inr (2 ^ attempt))
       (\<lambda>delay. Inr (min delay MAX_DELAY_SECONDS))"

function download_loop ::
    "(nat \<Rightarrow> response) \<Rightarrow> nat \<Rightarrow> nat \<Rightarrow> int list \<Rightarrow> (download_error + bytes) \<times> int list" where
  "download_loop opener attempts attempt slept =
     (if attempt < attempts then
        (case opener attempt of
           Body data \<Rightarrow> (Inr data, slept)
         | Failed f \<Rightarrow>
             if \<not> is_transient f \<or> attempt + 1 = attempts then (Inl Download_failed, slept)
             else (case retry_delay f attempt of
                 Inl e \<Rightarrow> (Inl e, slept)
               | Inr delay \<Rightarrow> download_loop opener attempts (attempt + 1) (slept @ [delay])))
      else (Inl Download_failed, slept))"
  by pat_completeness auto

termination download_loop
  by (relation "measure (\<lambda>(opener, attempts, attempt, slept). attempts - attempt)") auto

declare download_loop.simps [simp del]

definition download :: "(nat \<Rightarrow> response) \<Rightarrow> nat \<Rightarrow> (download_error + bytes) \<times> int list" where
  "download opener attempts = download_loop opener attempts 0 []"

section \<open>Bounds and success\<close>

lemma decimal_value_nonneg: "list_all ascii_digit s \<Longrightarrow> 0 \<le> decimal_value s"
  by (induction s rule: rev_induct) (auto simp: decimal_value_def ascii_digit_def)

lemma retry_delay_bounds: "retry_delay f i = Inr d \<Longrightarrow> d \<in> {0..60}"
  by (auto simp: retry_delay_def MAX_DELAY_SECONDS_def py_int_def decimal_value_nonneg min_def
      split: if_split_asm)

lemma download_loop_bounds:
  assumes "attempt < attempts" "length slept = attempt" "set slept \<subseteq> {0..60}"
    "download_loop opener attempts attempt slept = (result, slept')"
  shows "length slept' < attempts" "set slept' \<subseteq> {0..60}"
proof -
  have "length slept' < attempts \<and> set slept' \<subseteq> {0..60}"
    using assms
  proof (induction opener attempts attempt slept arbitrary: slept' rule: download_loop.induct)
    case (1 opener attempts attempt slept)
    show ?case
    proof (cases "opener attempt")
      case (Body data)
      with 1 show ?thesis by (simp add: download_loop.simps [of _ _ attempt])
    next
      case (Failed f)
      show ?thesis
      proof (cases "\<not> is_transient f \<or> attempt + 1 = attempts")
        case True
        with 1 Failed show ?thesis by (simp add: download_loop.simps [of _ _ attempt])
      next
        case False
        show ?thesis
        proof (cases "retry_delay f attempt")
          case (Inl e)
          with False 1 Failed show ?thesis by (simp add: download_loop.simps [of _ _ attempt])
        next
          case (Inr d)
          with False 1(2,5) Failed
          have "download_loop opener attempts (attempt + 1) (slept @ [d]) = (result, slept')"
            by (simp add: download_loop.simps [of _ _ attempt])
          moreover have "d \<in> {0..60}" by (rule retry_delay_bounds [OF Inr])
          ultimately show ?thesis using 1(1) [OF 1(2) Failed False Inr] 1(2-4) False by auto
        qed
      qed
    qed
  qed
  then show "length slept' < attempts" "set slept' \<subseteq> {0..60}" by simp_all
qed

text \<open>An answer after which the loop tries again.\<close>

definition retried :: "nat \<Rightarrow> response \<Rightarrow> int \<Rightarrow> bool" where
  "retried i r delay \<longleftrightarrow> (\<exists>f. r = Failed f \<and> is_transient f \<and> retry_delay f i = Inr delay)"

lemma download_loop_retries:
  assumes "list_all2 (\<lambda>i d. retried i (opener i) d) [i..<k] delays" "i \<le> k" "k < attempts"
  shows "download_loop opener attempts i slept = download_loop opener attempts k (slept @ delays)"
  using assms
proof (induction "k - i" arbitrary: i slept delays)
  case (Suc n)
  then have "[i..<k] = i # [Suc i..<k]" by (simp add: upt_conv_Cons)
  with Suc.prems(1) obtain d ds where d: "delays = d # ds" "retried i (opener i) d"
    "list_all2 (\<lambda>i d. retried i (opener i) d) [Suc i..<k] ds" by (auto simp: list_all2_Cons1)
  from d(2) obtain f where "opener i = Failed f" "is_transient f" "retry_delay f i = Inr d"
    by (auto simp: retried_def)
  moreover have "i < attempts" "i + 1 \<noteq> attempts" using Suc.hyps(2) Suc.prems(2,3) by simp_all
  ultimately have "download_loop opener attempts i slept = download_loop opener attempts (Suc i) (slept @ [d])"
    by (subst download_loop.simps) simp
  also have "\<dots> = download_loop opener attempts k (slept @ [d] @ ds)"
    using Suc.hyps(1) [of "Suc i" ds] d(3) Suc.hyps(2) Suc.prems by simp
  finally show ?case by (simp add: d(1))
qed simp

text \<open>
  C22: The download ends after at most the given number of attempts, whatever the server answers,
  and every wait between two attempts lasts between 0 and 60 seconds.
\<close>

theorem download_bounded:
  "length (snd (download opener attempts)) \<le> attempts - 1 \<and> set (snd (download opener attempts)) \<subseteq> {0..60}"
proof (cases "0 < attempts")
  case True
  then show ?thesis
    using download_loop_bounds [of 0 attempts "[]" opener] by (cases "download opener attempts") (auto simp: download_def)
qed (simp add: download_def download_loop.simps)

text \<open>
  C21: The download returns a body as soon as the server delivers one within the number of
  attempts, provided every earlier answer was a transient failure with a usable delay; the waits
  are then exactly the delays of these failures.
\<close>

theorem download_succeeds:
  assumes "list_all2 (\<lambda>i d. retried i (opener i) d) [0..<k] delays" "k < attempts" "opener k = Body data"
  shows "download opener attempts = (Inr data, delays)"
  using download_loop_retries [OF assms(1) _ assms(2), of "[]"] assms(2,3)
  by (simp add: download_def download_loop.simps [of _ _ k])

definition demo_server :: "nat \<Rightarrow> response" where
  "demo_server i =
     (if i = 0 then Failed \<lparr>f_code = Some 503, f_retry_after = ''120''\<rparr>
      else if i = 1 then Failed \<lparr>f_code = None, f_retry_after = []\<rparr> else Body [1, 2])"

theorem download_succeeds_witness: "download demo_server 3 = (Inr [1, 2], [60, 2])"
proof (rule download_succeeds [of _ 2])
  have "[0..<2 :: nat] = [0, 1]" by (simp add: upt_rec)
  then show "list_all2 (\<lambda>i d. retried i (demo_server i) d) [0..<2] [60, 2]"
    by (simp add: retried_def demo_server_def is_transient_def retry_delay_def MAX_DELAY_SECONDS_def
        str_isdigit_def isdigit_def py_int_def ascii_digit_def decimal_value_def)
qed (simp_all add: demo_server_def)

lemma retry_delay_errors:
  "retry_delay f k = Inl Delay_error \<longleftrightarrow> str_isdigit (f_retry_after f) \<and> py_int (f_retry_after f) = None"
  "retry_delay f k = Inl e \<Longrightarrow> e = Delay_error"
  by (auto simp: retry_delay_def split: option.splits if_split_asm)

lemma download_loop_escapes:
  "fst (download_loop opener attempts i slept) = Inl Delay_error \<Longrightarrow>
      \<exists>k delays f. list_all2 (\<lambda>i d. retried i (opener i) d) [i..<k] delays \<and> i \<le> k \<and> k + 1 < attempts \<and>
        opener k = Failed f \<and> is_transient f \<and> retry_delay f k = Inl Delay_error"
proof (induction "attempts - i" arbitrary: i slept)
  case 0
  then show ?case by (simp add: download_loop.simps)
next
  case (Suc n)
  then obtain f where f: "opener i = Failed f" "is_transient f" "i + 1 < attempts"
    by (auto simp: download_loop.simps [of _ _ i] split: response.split_asm if_split_asm)
  show ?case
  proof (cases "retry_delay f i")
    case (Inl e)
    then have "list_all2 (\<lambda>i d. retried i (opener i) d) [i..<i] [] \<and> retry_delay f i = Inl Delay_error"
      using retry_delay_errors(2) by auto
    then show ?thesis using f by blast
  next
    case (Inr d)
    with Suc.prems f have "fst (download_loop opener attempts (Suc i) (slept @ [d])) = Inl Delay_error"
      by (simp add: download_loop.simps [of _ _ i])
    moreover have "n = attempts - Suc i" using Suc.hyps(2) by simp
    ultimately obtain k delays g where
      "list_all2 (\<lambda>i d. retried i (opener i) d) [Suc i..<k] delays" "Suc i \<le> k" "k + 1 < attempts"
      "opener k = Failed g" "is_transient g" "retry_delay g k = Inl Delay_error" using Suc.hyps(1) by blast
    moreover from this have "list_all2 (\<lambda>i d. retried i (opener i) d) [i..<k] (d # delays)"
      using f Inr by (simp add: upt_conv_Cons retried_def)
    ultimately show ?thesis using Suc_leD by blast
  qed
qed

text \<open>
  The loop raises an error other than its own exactly when some transient failure that is not
  the last attempt carries a \<^verbatim>\<open>Retry-After\<close> header of digits that \<^verbatim>\<open>int\<close> does not read, such as a
  superscript two, and every answer before it was retried.
\<close>

theorem download_escapes:
  "fst (download opener attempts) = Inl Delay_error \<longleftrightarrow>
     (\<exists>k delays f. list_all2 (\<lambda>i d. retried i (opener i) d) [0..<k] delays \<and> k + 1 < attempts \<and>
        opener k = Failed f \<and> is_transient f \<and>
        str_isdigit (f_retry_after f) \<and> py_int (f_retry_after f) = None)"
proof -
  have "fst (download opener attempts) = Inl Delay_error"
    if a: "list_all2 (\<lambda>i d. retried i (opener i) d) [0..<k] delays" "k + 1 < attempts" "opener k = Failed f"
      "is_transient f" "retry_delay f k = Inl Delay_error" for k delays f
    using download_loop_retries [OF a(1), of attempts "[]"] a(2-5)
    by (simp add: download_def download_loop.simps [of _ _ k])
  with download_loop_escapes [of opener attempts 0 "[]"] show ?thesis
    unfolding retry_delay_errors(1) download_def by blast
qed

end
