(* ===== verification/Debian_Lock.thy ===== *)
theory Debian_Lock
  imports Debian_Resolver Json_Text Http_Download
begin

text \<open>
  The lock generator of \<^verbatim>\<open>mkosi/debian/generate_lock.py\<close> around the resolver: the specification, the
  Release file and its indexes, and the lock. Parameters: \<open>sha256\<close> is \<^verbatim>\<open>hashlib.sha256(data).hexdigest()\<close>,
  \<open>unxz\<close> is \<^verbatim>\<open>lzma.decompress\<close> (\<^const>\<open>None\<close> is its \<^verbatim>\<open>LZMAError\<close>), \<open>fetcher\<close> the download of a URL.
\<close>

section \<open>The Release file\<close>

text \<open>\<^verbatim>\<open>xs.index(x, start)\<close>\<close>

definition index_from :: "'a \<Rightarrow> nat \<Rightarrow> 'a list \<Rightarrow> nat option" where
  "index_from x start xs =
     (if x \<in> set (drop start xs) then Some (start + length (takeWhile (\<lambda>y. y \<noteq> x) (drop start xs))) else None)"

definition dash_unescape :: "string \<Rightarrow> string" where
  "dash_unescape line = (if starts_with ''- '' line then drop 2 line else line)"

definition cleartext_payload :: "bytes \<Rightarrow> lock_error + bytes" where
  "cleartext_payload inrelease =
     (case utf8_decode inrelease of
        None \<Rightarrow> Inl Undecodable
      | Some s \<Rightarrow>
          let lines = split_on (CHR ''\<newline>'') s
          in case index_from ''-----BEGIN PGP SIGNED MESSAGE-----'' 0 lines of
               None \<Rightarrow> Inl Not_clear_signed
             | Some start \<Rightarrow>
                 (case index_from [] start lines of
                    None \<Rightarrow> Inl Not_clear_signed
                  | Some blank \<Rightarrow>
                      (case index_from ''-----BEGIN PGP SIGNATURE-----'' (blank + 1) lines of
                         None \<Rightarrow> Inl Not_clear_signed
                       | Some stop \<Rightarrow>
                           Inr (utf8_encode (join_with ''\<newline>''
                             (map dash_unescape (take (stop - (blank + 1)) (drop (blank + 1) lines))) @ ''\<newline>'')))))"

type_synonym checksums = "(string, string \<times> int) dict"

definition checksum_entry :: "string \<Rightarrow> checksums \<Rightarrow> lock_error + checksums" where
  "checksum_entry line sums =
     (if strip line = [] then Inr sums
      else case split_ws line of
             [digest, sz, path] \<Rightarrow>
               if \<not> is_sha256_hex digest \<or> \<not> str_isdigit sz then Inl (Malformed_checksum line)
               else if path \<in> fst ` set sums then Inl (Duplicate_checksum path)
               else (case py_int sz of None \<Rightarrow> Inl Value_error | Some n \<Rightarrow> Inr (dict_set path (digest, n) sums))
           | _ \<Rightarrow> Inl (Malformed_checksum line))"

fun checksum_entries :: "string list \<Rightarrow> checksums \<Rightarrow> lock_error + checksums" where
  "checksum_entries [] sums = Inr sums"
| "checksum_entries (line # lines) sums = rbind (checksum_entry line sums) (checksum_entries lines)"

definition release_checksums :: "bytes \<Rightarrow> lock_error + fields822 \<times> checksums" where
  "release_checksums release =
     (case utf8_decode release of
        None \<Rightarrow> Inl Undecodable
      | Some s \<Rightarrow>
          rbind (lift_control (paragraphs s)) (\<lambda>ps.
            case ps of
              [flds] \<Rightarrow>
                rbind (checksum_entries (splitlines (dict_get flds ''SHA256'' [])) []) (\<lambda>sums. Inr (flds, sums))
            | _ \<Rightarrow> Inl Release_paragraphs))"

section \<open>The specification\<close>

record Specification =
  s_snapshot_url :: string
  s_snapshot :: string
  s_suite :: string
  s_components :: "string list"
  s_packages :: "string list"

definition ascii_digits :: "nat \<Rightarrow> string \<Rightarrow> bool" where
  "ascii_digits n s \<longleftrightarrow> length s = n \<and> list_all ascii_digit s"

text \<open>\<^verbatim>\<open>[0-9]{8}T[0-9]{6}Z\<close> and \<^verbatim>\<open>[a-z0-9][a-z0-9-]*\<close>\<close>

definition is_snapshot :: "string \<Rightarrow> bool" where
  "is_snapshot s \<longleftrightarrow> length s = 16 \<and> ascii_digits 8 (take 8 s) \<and> s ! 8 = CHR ''T'' \<and>
     ascii_digits 6 (take 6 (drop 9 s)) \<and> s ! 15 = CHR ''Z''"

definition is_identifier :: "string \<Rightarrow> bool" where
  "is_identifier s \<longleftrightarrow> s \<noteq> [] \<and> lower_digit (hd s) \<and> list_all arch_char s"

definition snapshot_source :: "string json \<Rightarrow> lock_error + string json \<times> string \<times> string" where
  "snapshot_source data =
     (case json_get data ''sources'' of
        Some (JList [JObj source]) \<Rightarrow>
          (case (case map_of source ''url'' of None \<Rightarrow> JStr [] | Some url \<Rightarrow> url) of
             JStr url \<Rightarrow>
               if \<not> starts_with ''https://'' url then Inl Url_not_https
               else
                 let url = rstrip_of (\<lambda>c. c = CHR ''/'') url;
                     snapshot = (case split_last (CHR ''/'') url of None \<Rightarrow> url | Some (_, s) \<Rightarrow> s)
                 in if \<not> is_snapshot snapshot then Inl Url_not_snapshot else Inr (JObj source, url, snapshot)
           | _ \<Rightarrow> Inl Url_not_https)
      | _ \<Rightarrow> Inl Not_one_source)"

definition channel :: "string json \<Rightarrow> lock_error + string \<times> string list" where
  "channel source =
     (let words = (case json_get source ''channel'' of Some (JStr c) \<Rightarrow> split_ws c | _ \<Rightarrow> [])
      in case words of
           suite # c # cs \<Rightarrow>
             let components = c # cs
             in (case find (\<lambda>name. \<not> is_identifier name) (suite # components) of
                   Some name \<Rightarrow> Inl (Invalid_name name)
                 | None \<Rightarrow>
                     if \<not> distinct components then Inl Repeated_component
                     else if ''main'' \<notin> set components then Inl Main_missing
                     else Inr (suite, components))
         | _ \<Rightarrow> Inl Channel_too_short)"

text \<open>\<^verbatim>\<open>tuple(dict.fromkeys(xs))\<close>: the first occurrence of each element.\<close>

definition fromkeys :: "'a list \<Rightarrow> 'a list" where
  "fromkeys xs = rev (remdups (rev xs))"

definition package_name :: "string json \<Rightarrow> lock_error + string" where
  "package_name v =
     (case v of JStr s \<Rightarrow> if is_package_name s then Inr s else Inl Invalid_package_name | _ \<Rightarrow> Inl Invalid_package_name)"

definition requested_packages :: "string json \<Rightarrow> lock_error + string list" where
  "requested_packages data =
     (case json_get data ''packages'' of
        Some (JList (v # vs)) \<Rightarrow> rbind (rmap package_name (v # vs)) (\<lambda>names. Inr (fromkeys names))
      | _ \<Rightarrow> Inl No_packages_requested)"

definition SPEC_FIELDS :: "string list" where
  "SPEC_FIELDS = [''version'', ''sources'', ''archs'', ''packages'']"

definition load_specification :: "string json \<Rightarrow> lock_error + Specification" where
  "load_specification data =
     (case data of
        JObj kvs \<Rightarrow>
          let unknown = filter (\<lambda>k. k \<notin> set SPEC_FIELDS) (map fst kvs)
          in if unknown \<noteq> [] then Inl (Unknown_fields (sorted_set unknown))
          else if \<not> (case map_of kvs ''version'' of None \<Rightarrow> False | Some v \<Rightarrow> json_eq_int v 1) then Inl Wrong_version
          else
            rbind (snapshot_source data) (\<lambda>(source, url, snapshot).
            rbind (channel source) (\<lambda>(suite, components).
              if map_of kvs ''archs'' \<noteq> Some (JList [JStr ARCHITECTURE]) then Inl Wrong_archs
              else rbind (requested_packages data) (\<lambda>packages.
                Inr \<lparr>s_snapshot_url = url, s_snapshot = snapshot, s_suite = suite,
                     s_components = ''main'' # sorted_set (filter (\<lambda>c. c \<noteq> ''main'') components),
                     s_packages = packages\<rparr>)))
      | _ \<Rightarrow> Inl Not_an_object)"

definition JStrs :: "string list \<Rightarrow> string json" where
  "JStrs xs = JList (map JStr xs)"

definition canonical_spec :: "Specification \<Rightarrow> string json" where
  "canonical_spec s =
     JObj [(''archs'', JStrs [ARCHITECTURE]), (''components'', JStrs (s_components s)),
       (''packages'', JStrs (s_packages s)), (''snapshot_url'', JStr (s_snapshot_url s)),
       (''suite'', JStr (s_suite s)), (''version'', JInt 1)]"

definition spec_sha256 :: "(bytes \<Rightarrow> string) \<Rightarrow> Specification \<Rightarrow> string" where
  "spec_sha256 sha256 s = sha256 (utf8_encode (json_dumps (canonical_spec s)))"

section \<open>The snapshot\<close>

text \<open>
  \<^verbatim>\<open>fetch\<close>: a download error becomes a \<^verbatim>\<open>LockError\<close>; the \<^verbatim>\<open>ValueError\<close> of a malformed delay escapes.
\<close>

definition fetch :: "(string \<Rightarrow> nat \<Rightarrow> response) \<Rightarrow> string \<Rightarrow> lock_error + bytes" where
  "fetch server url =
     (case fst (download (server url) 8) of
        Inr data \<Rightarrow> Inr data | Inl Download_failed \<Rightarrow> Inl (Fetch_failed url) | Inl Delay_error \<Rightarrow> Inl Value_error)"

definition metadata_entry ::
    "(bytes \<Rightarrow> string) \<Rightarrow> string \<Rightarrow> string \<Rightarrow> bytes \<Rightarrow> string \<Rightarrow> (string \<times> string json) list \<Rightarrow> string json" where
  "metadata_entry sha256 name path data snapshot_url extra =
     JObj ([(''name'', JStr name), (''path'', JStr path), (''sha256'', JStr (sha256 data)),
            (''url'', JStr (snapshot_url @ ''/'' @ path))] @ extra)"

definition index_name :: "string \<Rightarrow> string \<Rightarrow> string" where
  "index_name component architecture =
     (if component = ''main'' then [] else component @ ''_'')
     @ (if architecture = ARCHITECTURE then ''packages_xz'' else ''packages_all_xz'')"

definition fetch_release ::
    "string \<Rightarrow> string \<Rightarrow> (string \<Rightarrow> lock_error + bytes) \<Rightarrow> lock_error + bytes \<times> bytes \<times> bytes" where
  "fetch_release url base fetcher =
     rbind (fetcher (url @ ''/'' @ base @ ''/InRelease'')) (\<lambda>inrelease.
     rbind (fetcher (url @ ''/'' @ base @ ''/Release'')) (\<lambda>release_data.
     rbind (fetcher (url @ ''/'' @ base @ ''/Release.gpg'')) (\<lambda>release_gpg.
     rbind (cleartext_payload inrelease) (\<lambda>payload.
       if payload \<noteq> release_data \<and> payload \<noteq> release_data @ [10] then Inl Payload_mismatch
       else Inr (inrelease, release_data, release_gpg)))))"

definition release_number :: "fields822 \<Rightarrow> Specification \<Rightarrow> string option \<Rightarrow> lock_error + string" where
  "release_number flds spec release =
     (let available = split_ws (dict_get flds ''Components'' []);
          missing = sorted_set (filter (\<lambda>c. c \<notin> set available) (s_components spec));
          given = (case release of None \<Rightarrow> [] | Some r \<Rightarrow> r);
          number = (if given \<noteq> [] then given else takeWhile (\<lambda>c. c \<noteq> CHR ''.'') (dict_get flds ''Version'' []))
      in if map_of flds ''Codename'' \<noteq> Some (s_suite spec)
      then Inl (Wrong_codename (s_suite spec) (map_of flds ''Codename''))
      else if missing \<noteq> [] then Inl (Missing_components missing)
      else if ARCHITECTURE \<notin> set (split_ws (dict_get flds ''Architectures'' [])) then Inl Missing_architecture
      else if \<not> str_isdigit number then Inl Not_numeric_release
      else Inr number)"

definition fetch_index ::
    "(bytes \<Rightarrow> string) \<Rightarrow> string \<Rightarrow> string \<Rightarrow> string \<Rightarrow> checksums \<Rightarrow> (string \<Rightarrow> lock_error + bytes) \<Rightarrow> lock_error + bytes" where
  "fetch_index sha256 url base relative sums fetcher =
     (case map_of sums relative of
        None \<Rightarrow> Inl (Index_not_listed relative)
      | Some (digest, sz) \<Rightarrow>
          rbind (fetcher (url @ ''/'' @ base @ ''/'' @ relative)) (\<lambda>data.
            if len data \<noteq> sz \<or> sha256 data \<noteq> digest then Inl (Index_checksum relative) else Inr data))"

definition decode_index :: "(bytes \<Rightarrow> bytes option) \<Rightarrow> string \<Rightarrow> bytes \<Rightarrow> lock_error + string" where
  "decode_index unxz relative data =
     (case unxz data of
        None \<Rightarrow> Inl (Index_undecodable relative)
      | Some raw \<Rightarrow> (case utf8_decode raw of None \<Rightarrow> Inl (Index_undecodable relative) | Some s \<Rightarrow> Inr s))"

definition index_path :: "string \<Rightarrow> string \<Rightarrow> string" where
  "index_path component architecture = component @ ''/binary-'' @ architecture @ ''/Packages.xz''"

fun fetch_indexes_loop ::
    "(bytes \<Rightarrow> string) \<Rightarrow> (bytes \<Rightarrow> bytes option) \<Rightarrow> string \<Rightarrow> string \<Rightarrow> checksums \<Rightarrow> (string \<Rightarrow> lock_error + bytes)
     \<Rightarrow> (string \<times> string) list \<Rightarrow> lock_error + string json list \<times> Package list" where
  "fetch_indexes_loop sha256 unxz url base sums fetcher [] = Inr ([], [])"
| "fetch_indexes_loop sha256 unxz url base sums fetcher ((component, architecture) # rest) =
     rbind (fetch_index sha256 url base (index_path component architecture) sums fetcher) (\<lambda>data.
     rbind (decode_index unxz (index_path component architecture) data) (\<lambda>s.
     rbind (parse_packages s component architecture) (\<lambda>packages.
     rbind (fetch_indexes_loop sha256 unxz url base sums fetcher rest) (\<lambda>(metadata, more).
       Inr (metadata_entry sha256 (index_name component architecture)
              (base @ ''/'' @ index_path component architecture) data url
              [(''architecture'', JStr architecture), (''component'', JStr component)] # metadata,
            packages @ more)))))"

definition indexes_of :: "Specification \<Rightarrow> (string \<times> string) list" where
  "indexes_of spec = concat (map (\<lambda>component. map (\<lambda>architecture. (component, architecture)) INDEX_ARCHITECTURES)
     (s_components spec))"

definition fetch_indexes ::
    "(bytes \<Rightarrow> string) \<Rightarrow> (bytes \<Rightarrow> bytes option) \<Rightarrow> Specification \<Rightarrow> string \<Rightarrow> checksums
     \<Rightarrow> (string \<Rightarrow> lock_error + bytes) \<Rightarrow> lock_error + string json list \<times> Package list" where
  "fetch_indexes sha256 unxz spec base sums fetcher =
     fetch_indexes_loop sha256 unxz (s_snapshot_url spec) base sums fetcher (indexes_of spec)"

section \<open>The lock\<close>

text \<open>
  The dependencies of a package come out of a set; sorting them by key hides its order, since two
  selected packages with one key are refused below.
\<close>

definition locked_dependency :: "Package \<Rightarrow> string json" where
  "locked_dependency d =
     JObj [(''key'', JStr (package_key d)), (''name'', JStr (p_name d)), (''version'', JStr (p_version d))]"

definition locked_package :: "Package \<Rightarrow> Package list \<Rightarrow> string \<Rightarrow> string json" where
  "locked_package p dependencies url =
     JObj [(''arch'', JStr (p_architecture p)), (''component'', JStr (p_component p)),
       (''dependencies'', JList (map locked_dependency (sort_key package_key dependencies))),
       (''filename'', JStr (p_filename p)), (''key'', JStr (package_key p)), (''name'', JStr (p_name p)),
       (''sha256'', JStr (p_sha256 p)), (''size'', JInt (p_bytes p)),
       (''urls'', JStrs [url @ ''/'' @ p_filename p]), (''version'', JStr (p_version p))]"

definition dependencies_of :: "(string, Package) dict \<Rightarrow> (string, string set) dict \<Rightarrow> string \<Rightarrow> Package list" where
  "dependencies_of selected edges name =
     map (\<lambda>d. the (map_of selected d)) (sorted_list_of_set (dict_get edges name {}))"

definition locked_order :: "(string, Package) dict \<Rightarrow> (string \<times> Package) list" where
  "locked_order selected = sort_key (\<lambda>(name, p). package_key p) selected"

definition locked_packages ::
    "(string, Package) dict \<Rightarrow> (string, string set) dict \<Rightarrow> string \<Rightarrow> lock_error + string json list" where
  "locked_packages selected edges url =
     (if \<not> distinct (map (\<lambda>(name, p). package_key p) (locked_order selected)) then Inl Colliding_keys
      else Inr (map (\<lambda>(name, p). locked_package p (dependencies_of selected edges name) url) (locked_order selected)))"

definition generate ::
    "(bytes \<Rightarrow> string) \<Rightarrow> (bytes \<Rightarrow> bytes option) \<Rightarrow> (string \<Rightarrow> lock_error + bytes) \<Rightarrow> Specification \<Rightarrow> string option
     \<Rightarrow> lock_error + string json" where
  "generate sha256 unxz fetcher spec release =
     (let base = ''dists/'' @ s_suite spec; url = s_snapshot_url spec
      in rbind (fetch_release url base fetcher) (\<lambda>(inrelease, release_data, release_gpg).
         rbind (release_checksums release_data) (\<lambda>(flds, sums).
         rbind (release_number flds spec release) (\<lambda>number.
         rbind (fetch_indexes sha256 unxz spec base sums fetcher) (\<lambda>(index_metadata, packages).
         rbind (universe packages) (\<lambda>u.
         rbind (resolve u (s_packages spec)) (\<lambda>(selected, edges).
         rbind (locked_packages selected edges url) (\<lambda>locked.
           Inr (JObj [(''packages'', JList locked),
             (''repository'', JObj [(''architecture'', JStr ARCHITECTURE), (''codename'', JStr (s_suite spec)),
                (''components'', JStrs (s_components spec)), (''distribution'', JStr ''debian''),
                (''metadata'', JList ([metadata_entry sha256 ''inrelease'' (base @ ''/InRelease'') inrelease url [],
                   metadata_entry sha256 ''release'' (base @ ''/Release'') release_data url [],
                   metadata_entry sha256 ''release_gpg'' (base @ ''/Release.gpg'') release_gpg url []] @ index_metadata)),
                (''release'', JStr number), (''snapshot'', JStr (s_snapshot spec)), (''snapshot_url'', JStr url)]),
             (''spec_sha256'', JStr (spec_sha256 sha256 spec)), (''version'', JInt 1)])))))))))"

definition render_lock_json :: "string json \<Rightarrow> string" where
  "render_lock_json lock = json_pretty 0 lock @ ''\<newline>''"

section \<open>Reading and checking\<close>

text \<open>\<open>json_loads\<close> is \<^verbatim>\<open>json.loads\<close>; \<^const>\<open>None\<close> is its \<^verbatim>\<open>JSONDecodeError\<close>.\<close>

definition read_specification :: "(string \<Rightarrow> string json option) \<Rightarrow> string \<Rightarrow> lock_error + Specification" where
  "read_specification json_loads spec_text =
     (case json_loads spec_text of None \<Rightarrow> Inl Spec_not_json | Some data \<Rightarrow> load_specification data)"

definition render_lock ::
    "(bytes \<Rightarrow> string) \<Rightarrow> (bytes \<Rightarrow> bytes option) \<Rightarrow> (string \<Rightarrow> string json option) \<Rightarrow> (string \<Rightarrow> lock_error + bytes)
     \<Rightarrow> string \<Rightarrow> string option \<Rightarrow> lock_error + string" where
  "render_lock sha256 unxz json_loads fetcher spec_text release =
     rbind (read_specification json_loads spec_text) (\<lambda>spec.
     rbind (generate sha256 unxz fetcher spec release) (\<lambda>lock. Inr (render_lock_json lock)))"

definition check_spec ::
    "(bytes \<Rightarrow> string) \<Rightarrow> (string \<Rightarrow> string json option) \<Rightarrow> string \<Rightarrow> string \<Rightarrow> lock_error + unit" where
  "check_spec sha256 json_loads spec_text lock_text =
     rbind (read_specification json_loads spec_text) (\<lambda>spec.
       let expected = spec_sha256 sha256 spec
       in case json_loads lock_text of
            None \<Rightarrow> Inl Lock_not_json
          | Some lock \<Rightarrow>
              (case json_get lock ''spec_sha256'' of
                 None \<Rightarrow> Inl Digest_missing
               | Some JNull \<Rightarrow> Inl Digest_missing
               | Some recorded \<Rightarrow> if recorded \<noteq> JStr expected then Inl Spec_changed else Inr ()))"

end
