(* ===== verification/Debian_Spec.thy ===== *)
theory Debian_Spec
  imports Debian_Lock
begin

text \<open>
  Normalised specifications: exactly what \<^verbatim>\<open>load_specification\<close> returns, and that the text the
  specification digest is computed of tells them apart.
\<close>

section \<open>Normalised specifications\<close>

definition wf_spec :: "Specification \<Rightarrow> bool" where
  "wf_spec s \<longleftrightarrow>
     starts_with ''https://'' (s_snapshot_url s) \<and> is_snapshot (s_snapshot s) \<and>
     (\<exists>base. s_snapshot_url s = base @ ''/'' @ s_snapshot s) \<and> is_identifier (s_suite s) \<and>
     (\<exists>cs. s_components s = ''main'' # cs \<and> sorted cs \<and> distinct cs \<and> list_all is_identifier cs \<and> ''main'' \<notin> set cs) \<and>
     s_packages s \<noteq> [] \<and> distinct (s_packages s) \<and> list_all is_package_name (s_packages s)"

text \<open>A specification file for a normalised specification.\<close>

definition spec_json :: "Specification \<Rightarrow> string json" where
  "spec_json s =
     JObj [(''version'', JInt 1),
       (''sources'', JList [JObj [(''channel'', JStr (join_with '' '' (s_suite s # s_components s))),
          (''url'', JStr (s_snapshot_url s))]]),
       (''archs'', JStrs [ARCHITECTURE]), (''packages'', JStrs (s_packages s))]"

subsection \<open>Words\<close>

definition word_ok :: "string \<Rightarrow> bool" where
  "word_ok w \<longleftrightarrow> w \<noteq> [] \<and> list_all (\<lambda>c. \<not> isspace c) w"

lemma split_ws_word:
  assumes "word_ok w" "r = [] \<or> isspace (hd r)"
  shows "split_ws (w @ r) = w # split_ws r"
proof -
  obtain c cs where w: "w = c # cs" "\<not> isspace c" "\<forall>x \<in> set w. \<not> isspace x"
    using assms(1) by (cases w) (auto simp: word_ok_def list_all_iff)
  then have "lstrip (w @ r) = w @ r" by (simp add: lstrip_def)
  moreover have "takeWhile (\<lambda>c. \<not> isspace c) (w @ r) = w" "dropWhile (\<lambda>c. \<not> isspace c) (w @ r) = r"
    using w(3) assms(2) by (cases r; simp add: takeWhile_append2 dropWhile_append2)+
  ultimately show ?thesis using w(1) by (subst split_ws.simps) simp
qed

lemma split_ws_space: "split_ws ('' '' @ s) = split_ws s"
  by (simp add: split_ws.simps [of "CHR '' '' # s"] split_ws.simps [of s] lstrip_def isspace_def)

lemma split_ws_join: "list_all word_ok ws \<Longrightarrow> split_ws (join_with '' '' ws) = ws"
proof (induction ws rule: induct_list012)
  case 1
  then show ?case by (simp add: split_ws.simps lstrip_def)
next
  case (2 w)
  then show ?case using split_ws_word [of w "[]"] by (simp add: split_ws.simps [of "[]"] lstrip_def)
next
  case (3 v w ws)
  then have "word_ok v" by simp
  from split_ws_word [OF this, of "'' '' @ join_with '' '' (w # ws)"] 3
  show ?case by (simp add: split_ws_space [simplified] isspace_def)
qed

lemma identifier_word: "is_identifier w \<Longrightarrow> word_ok w"
proof -
  assume w: "is_identifier w"
  have "\<not> isspace c" if "arch_char c" for c
    using that by (auto simp: arch_char_def lower_digit_def isspace_def char_le_code)
  with w show ?thesis by (auto simp: is_identifier_def word_ok_def list_all_iff)
qed

subsection \<open>The snapshot URL\<close>

lemma snapshot_chars: "is_snapshot s \<Longrightarrow> CHR ''/'' \<notin> set s"
proof
  assume s: "is_snapshot s" and "CHR ''/'' \<in> set s"
  then obtain i where i: "i < length s" "s ! i = CHR ''/''" by (auto simp: in_set_conv_nth)
  have l: "length s = 16" and d: "\<forall>c \<in> set (take 8 s) \<union> set (take 6 (drop 9 s)). ascii_digit c"
    and tz: "s ! 8 = CHR ''T''" "s ! 15 = CHR ''Z''"
    using s by (auto simp: is_snapshot_def ascii_digits_def list_all_iff)
  have "i < 8 \<or> i = 8 \<or> 9 \<le> i \<and> i < 15 \<or> i = 15" using i(1) l by arith
  then show False
  proof (elim disjE)
    assume "i < 8"
    then have "take 8 s ! i \<in> set (take 8 s)" using l by (intro nth_mem) simp
    then have "ascii_digit (CHR ''/'')" using d i(2) \<open>i < 8\<close> by simp
    then show False by (simp add: ascii_digit_def)
  next
    assume j: "9 \<le> i \<and> i < 15"
    then have "take 6 (drop 9 s) ! (i - 9) \<in> set (take 6 (drop 9 s))" using l by (intro nth_mem) auto
    moreover have "take 6 (drop 9 s) ! (i - 9) = CHR ''/''" using i(2) j l by auto
    ultimately have "ascii_digit (CHR ''/'')" using d by auto
    then show False by (simp add: ascii_digit_def)
  qed (use i tz in auto)
qed

lemma snapshot_last: "is_snapshot s \<Longrightarrow> s \<noteq> [] \<and> last s = CHR ''Z''"
  by (cases s rule: rev_cases) (auto simp: is_snapshot_def nth_append)

lemma rstrip_of_id: "xs \<noteq> [] \<Longrightarrow> \<not> P (last xs) \<Longrightarrow> rstrip_of P xs = xs"
  by (cases xs rule: rev_cases) (auto simp: rstrip_of_def)

lemma rstrip_of_prefix: "\<exists>r. xs = rstrip_of P xs @ r"
  unfolding rstrip_of_def by (metis rev_append rev_rev_ident takeWhile_dropWhile_id)

lemma snapshot_source_url:
  assumes "starts_with ''https://'' url" "split_last (CHR ''/'') (rstrip_of (\<lambda>c. c = CHR ''/'') url) = Some (b, s)"
    "is_snapshot s"
  shows "starts_with ''https://'' (rstrip_of (\<lambda>c. c = CHR ''/'') url)"
proof -
  define r where "r = rstrip_of (\<lambda>c. c = CHR ''/'') url"
  have "r = b @ CHR ''/'' # s" using assms(2) by (simp add: split_last_Some r_def)
  then have "length ''https://'' \<le> length r" using assms(3) by (simp add: is_snapshot_def)
  moreover obtain t where "url = r @ t" using rstrip_of_prefix [of url] unfolding r_def by blast
  ultimately have "take (length ''https://'') url = take (length ''https://'') r"
    by (simp only: take_append diff_is_0_eq' take0 append_Nil2)
  with assms(1) show ?thesis by (simp only: starts_with_def r_def)
qed

subsection \<open>What is accepted\<close>

lemma fromkeys_props: "set (fromkeys xs) = set xs" "distinct (fromkeys xs)" "distinct xs \<Longrightarrow> fromkeys xs = xs"
  by (simp_all add: fromkeys_def distinct_remdups_id)

lemma rmap_package_name: "rmap package_name vs = Inr ns \<longleftrightarrow> vs = map JStr ns \<and> list_all is_package_name ns"
proof -
  have "package_name v = Inr n \<longleftrightarrow> v = JStr n \<and> is_package_name n" for v n
    by (auto simp: package_name_def split: json.splits)
  then have "list_all2 (\<lambda>x y. package_name x = Inr y) vs ns \<longleftrightarrow> vs = map JStr ns \<and> list_all is_package_name ns"
    by (auto simp: list_all2_conv_all_nth list_eq_iff_nth_eq list_all_length)
  then show ?thesis by (simp add: rmap_Inr_iff)
qed

lemma requested_packages_Inr:
  "requested_packages d = Inr ps \<Longrightarrow> ps \<noteq> [] \<and> distinct ps \<and> list_all is_package_name ps"
proof -
  assume "requested_packages d = Inr ps"
  then obtain v vs ns where r: "rmap package_name (v # vs) = Inr ns" and ps: "ps = fromkeys ns"
    unfolding requested_packages_def by (auto split: option.split_asm json.split_asm list.split_asm simp del: rmap.simps)
  then have "ns \<noteq> []" "list_all is_package_name ns" using r [unfolded rmap_package_name] by auto
  then show ?thesis
    using fromkeys_props(1,2) [of ns] by (auto simp: ps list_all_iff simp flip: set_empty)
qed

lemma channel_Inr:
  "channel src = Inr (suite, cs) \<Longrightarrow> is_identifier suite \<and> list_all is_identifier cs \<and> distinct cs \<and> ''main'' \<in> set cs"
  unfolding channel_def Let_def
  by (auto simp: find_None_iff list_all_iff split: list.split_asm option.split_asm if_split_asm json.split_asm)

lemma snapshot_source_Inr:
  "snapshot_source d = Inr (src, url, snapshot) \<Longrightarrow>
     starts_with ''https://'' url \<and> is_snapshot snapshot \<and> (\<exists>b. url = b @ ''/'' @ snapshot)"
proof -
  assume "snapshot_source d = Inr (src, url, snapshot)"
  then obtain u where u: "starts_with ''https://'' u" "url = rstrip_of (\<lambda>c. c = CHR ''/'') u"
    and s: "snapshot = (case split_last (CHR ''/'') url of None \<Rightarrow> url | Some (_, s) \<Rightarrow> s)" "is_snapshot snapshot"
    unfolding snapshot_source_def Let_def
    by (auto split: option.split_asm json.split_asm list.split_asm if_split_asm)
  show ?thesis
  proof (cases "split_last (CHR ''/'') url")
    case None
    have "CHR ''/'' \<in> set (rstrip_of (\<lambda>c. c = CHR ''/'') u)" if "length url = 16" and "''/'' = [CHR ''/'']"
    proof -
      obtain t where "u = url @ t" using rstrip_of_prefix [of u] unfolding u(2) by blast
      with that u(1) have "''https://'' = take (length ''https://'') url"
        unfolding starts_with_def by (simp add: eval_nat_numeral)
      then have "CHR ''/'' \<in> set (take (length ''https://'') url)" by (metis list.set_intros(1,2))
      then show ?thesis unfolding u(2) [symmetric] by (rule in_set_takeD)
    qed
    moreover have "CHR ''/'' \<notin> set url"
      using None by (auto simp: split_last_def split_first_def split: if_split_asm)
    ultimately have False using s None u(2) by (simp add: is_snapshot_def)
    then show ?thesis ..
  next
    case (Some p)
    then obtain b where "split_last (CHR ''/'') url = Some (b, snapshot)" using s(1) by (cases p) simp
    with snapshot_source_url [OF u(1), folded u(2)] s(2) show ?thesis by (auto simp: split_last_Some)
  qed
qed

lemma load_specification_wf: "load_specification d = Inr s \<Longrightarrow> wf_spec s"
proof -
  assume d: "load_specification d = Inr s"
  then obtain src url snapshot suite cs ps where
    "snapshot_source d = Inr (src, url, snapshot)" "channel src = Inr (suite, cs)" "requested_packages d = Inr ps"
    and s: "s = \<lparr>s_snapshot_url = url, s_snapshot = snapshot, s_suite = suite,
      s_components = ''main'' # sorted_set (filter (\<lambda>c. c \<noteq> ''main'') cs), s_packages = ps\<rparr>"
    by (cases d) (auto simp: load_specification_def Let_def split: if_split_asm)
  from snapshot_source_Inr [OF this(1)] channel_Inr [OF this(2)] requested_packages_Inr [OF this(3)]
  show "wf_spec s" unfolding wf_spec_def s by (simp add: sorted_set_def list_all_iff)
qed

text \<open>
  C20: \<^verbatim>\<open>load_specification\<close> returns exactly the normalised specifications: an https URL that ends
  with its snapshot timestamp, a suite, the main component first and the other components sorted
  and distinct, and a non-empty list of distinct package names. Every one of them is reached.
\<close>

theorem load_specification_range: "(\<exists>d. load_specification d = Inr s) \<longleftrightarrow> wf_spec s"
proof
  assume "\<exists>d. load_specification d = Inr s"
  then show "wf_spec s" using load_specification_wf by blast
next
  assume w: "wf_spec s"
  then obtain cs b where cs: "s_components s = ''main'' # cs" "sorted cs" "distinct cs" "list_all is_identifier cs" "''main'' \<notin> set cs"
    and b: "s_snapshot_url s = b @ CHR ''/'' # s_snapshot s"
    by (auto simp: wf_spec_def)
  have i: "is_identifier ''main''" "is_identifier (s_suite s)"
    using w by (auto simp: wf_spec_def is_identifier_def lower_digit_def arch_char_def char_le_code)
  then have "list_all word_ok (s_suite s # ''main'' # cs)"
    using cs(4) identifier_word by (auto simp: list_all_iff)
  then have words: "split_ws (join_with '' '' (s_suite s # ''main'' # cs)) = s_suite s # ''main'' # cs"
    by (rule split_ws_join)
  have snap: "is_snapshot (s_snapshot s)" "starts_with ''https://'' (s_snapshot_url s)" using w by (auto simp: wf_spec_def)
  have "rstrip_of (\<lambda>c. c = CHR ''/'') (s_snapshot_url s) = s_snapshot_url s"
    using snapshot_last [OF snap(1)] by (intro rstrip_of_id) (auto simp: b)
  moreover have "split_last (CHR ''/'') (s_snapshot_url s) = Some (b, s_snapshot s)"
    using snapshot_chars [OF snap(1)] by (simp add: split_last_Some b)
  ultimately have src: "snapshot_source (spec_json s) =
      Inr (JObj [(''channel'', JStr (join_with '' '' (s_suite s # s_components s))), (''url'', JStr (s_snapshot_url s))],
        s_snapshot_url s, s_snapshot s)"
    using snap by (simp add: snapshot_source_def spec_json_def Let_def)
  have ch: "channel (JObj [(''channel'', JStr (join_with '' '' (s_suite s # s_components s))), (''url'', JStr (s_snapshot_url s))])
      = Inr (s_suite s, ''main'' # cs)"
    using cs i words by (auto simp: channel_def Let_def find_None_iff find_Some_iff list_all_iff split: option.split)
  have "requested_packages (spec_json s) = Inr (s_packages s)"
    using w rmap_package_name [of "map JStr (s_packages s)" "s_packages s"]
    by (cases "s_packages s")
      (auto simp: wf_spec_def requested_packages_def spec_json_def JStrs_def fromkeys_props simp del: rmap.simps)
  moreover have "sorted_set (filter (\<lambda>c. c \<noteq> ''main'') (''main'' # cs)) = cs"
  proof -
    have "filter (\<lambda>c. c \<noteq> ''main'') cs = cs" using cs(5) by (auto simp: filter_id_conv)
    then show ?thesis using cs(2,3) by (simp add: sorted_set_def distinct_remdups_id sorted_sort_id)
  qed
  ultimately have "load_specification (spec_json s) = Inr \<lparr>s_snapshot_url = s_snapshot_url s, s_snapshot = s_snapshot s,
      s_suite = s_suite s, s_components = ''main'' # cs, s_packages = s_packages s\<rparr>"
    using src ch unfolding load_specification_def
    by (simp add: spec_json_def SPEC_FIELDS_def JStrs_def ARCHITECTURE_def)
  also have "\<dots> = Inr s" by (simp flip: cs(1))
  finally show "\<exists>d. load_specification d = Inr s" by blast
qed

section \<open>The digest\<close>

lemma sorted_spec_keys:
  "sorted [''archs'', ''components'', ''packages'', ''snapshot_url'', ''suite'', ''version'']"
  by code_simp

lemma canonical_text:
  "json_dumps (canonical_spec s) =
     ''{'' @ json_str ''archs'' @ '':['' @ json_str ARCHITECTURE @ ''],'' @ json_str ''components'' @ '':[''
     @ join_with '','' (map json_str (s_components s)) @ '']'' @ '','' @ json_str ''packages'' @ '':[''
     @ join_with '','' (map json_str (s_packages s)) @ '']'' @ '','' @ json_str ''snapshot_url'' @ '':''
     @ json_str (s_snapshot_url s) @ '','' @ json_str ''suite'' @ '':'' @ json_str (s_suite s) @ '',''
     @ json_str ''version'' @ '':'' @ int_str 1 @ ''}''"
proof -
  have "sort_key fst (map (\<lambda>(k, v). (k, json_dumps v)) kvs) = map (\<lambda>(k, v). (k, json_dumps v)) kvs"
    if "sorted (map fst kvs)" for kvs
    using that by (intro sort_key_id_if_sorted) (simp add: comp_def split_beta)
  then show ?thesis
    using sorted_spec_keys by (simp add: canonical_spec_def JStrs_def comp_def)
qed

lemma canonical_inj:
  assumes "wf_spec s" "wf_spec t" "json_dumps (canonical_spec s) = json_dumps (canonical_spec t)"
  shows "s = t"
proof -
  from assms(3) have "join_with '','' (map json_str (s_components s)) @ '']'' @ '','' @ json_str ''packages'' @ '':[''
     @ join_with '','' (map json_str (s_packages s)) @ '']'' @ '','' @ json_str ''snapshot_url'' @ '':''
     @ json_str (s_snapshot_url s) @ '','' @ json_str ''suite'' @ '':'' @ json_str (s_suite s) @ '',''
     @ json_str ''version'' @ '':'' @ int_str 1 @ ''}'' =
     join_with '','' (map json_str (s_components t)) @ '']'' @ '','' @ json_str ''packages'' @ '':[''
     @ join_with '','' (map json_str (s_packages t)) @ '']'' @ '','' @ json_str ''snapshot_url'' @ '':''
     @ json_str (s_snapshot_url t) @ '','' @ json_str ''suite'' @ '':'' @ json_str (s_suite t) @ '',''
     @ json_str ''version'' @ '':'' @ int_str 1 @ ''}''"
    unfolding canonical_text same_append_eq .
  from json_strs_inj [OF this] have "s_components s = s_components t" and
    rest: "join_with '','' (map json_str (s_packages s)) @ '']'' @ '','' @ json_str ''snapshot_url'' @ '':''
     @ json_str (s_snapshot_url s) @ '','' @ json_str ''suite'' @ '':'' @ json_str (s_suite s) @ '',''
     @ json_str ''version'' @ '':'' @ int_str 1 @ ''}'' =
     join_with '','' (map json_str (s_packages t)) @ '']'' @ '','' @ json_str ''snapshot_url'' @ '':''
     @ json_str (s_snapshot_url t) @ '','' @ json_str ''suite'' @ '':'' @ json_str (s_suite t) @ '',''
     @ json_str ''version'' @ '':'' @ int_str 1 @ ''}''"
    by (simp_all only: same_append_eq)
  from json_strs_inj [OF rest] have "s_packages s = s_packages t" and
    rest: "json_str (s_snapshot_url s) @ '','' @ json_str ''suite'' @ '':'' @ json_str (s_suite s) @ '',''
     @ json_str ''version'' @ '':'' @ int_str 1 @ ''}'' =
     json_str (s_snapshot_url t) @ '','' @ json_str ''suite'' @ '':'' @ json_str (s_suite t) @ '',''
     @ json_str ''version'' @ '':'' @ int_str 1 @ ''}''"
    by (simp_all only: same_append_eq)
  from json_str_inj [OF rest] have url: "s_snapshot_url s = s_snapshot_url t" and
    rest: "json_str (s_suite s) @ '','' @ json_str ''version'' @ '':'' @ int_str 1 @ ''}'' =
     json_str (s_suite t) @ '','' @ json_str ''version'' @ '':'' @ int_str 1 @ ''}''"
    by (simp_all only: same_append_eq)
  from json_str_inj [OF rest] have "s_suite s = s_suite t" by blast
  moreover have "s_snapshot s = s_snapshot t"
    using assms(1,2) url by (auto simp: wf_spec_def is_snapshot_def)
  ultimately show ?thesis
    using \<open>s_components s = s_components t\<close> \<open>s_packages s = s_packages t\<close> url by simp
qed

end
