(* ===== verification/Debian_Lock_Safety.thy ===== *)
theory Debian_Lock_Safety
  imports Debian_Closure Debian_Spec
begin

text \<open>
  What a generated lock guarantees: every package of it is a record of a Packages index whose
  size and digest the signed Release file lists, the entries are sorted by distinct keys, and its
  specification digest tells any two normalised specifications apart.
\<close>

section \<open>Packages of the universe\<close>

definition members :: "Universe \<Rightarrow> Package set" where
  "members u = set (universe_packages u) \<union> fst ` set (concat (map snd (u_providers u)))"

lemma candidates_members: "candidates u r = Inr cs \<Longrightarrow> set cs \<subseteq> members u"
proof
  fix p assume a: "candidates u r = Inr cs" "p \<in> set cs"
  then obtain rs where "real_candidates r (dict_get (u_packages u) (r_name r) []) = Inr rs"
    "provider_candidates r rs (dict_get (u_providers u) (r_name r) []) = Inr cs"
    by (auto simp: candidates_def)
  with a(2) have "p \<in> set (dict_get (u_packages u) (r_name r) []) \<union> fst ` set (dict_get (u_providers u) (r_name r) [])"
    using real_candidates_subset provider_candidates_subset by blast
  then show "p \<in> members u"
    unfolding members_def universe_packages_def
    using dict_get_subset [of p "u_packages u"] dict_get_subset [of _ "u_providers u"] by (auto simp del: set_concat)
qed

lemma newest_members: "newest u n = Some p \<Longrightarrow> p \<in> members u"
  using dict_get_subset [of p "u_packages u" n]
  by (auto simp: newest_def members_def universe_packages_def split: list.split_asm)

lemma needed_members: "needed u (roots u requested) p \<Longrightarrow> p \<in> members u"
proof (induction rule: needed.induct)
  case (root p)
  then show ?case
    using newest_members candidates_members by (fastforce simp: roots_def requested_root_def)
next
  case (dependency p g r cs q)
  then show ?case using candidates_members by blast
qed

lemma concat_dict_set: "set (concat (map snd (dict_set k es d))) \<subseteq> set es \<union> set (concat (map snd d))"
  using set_dict_set [of k es d] by fastforce

definition packages_in :: "by_name \<Rightarrow> Package set" where
  "packages_in d = snd ` set (concat (map snd d))"

lemma add_package_in: "add_package p d = Inr d' \<Longrightarrow> packages_in d' \<subseteq> insert p (packages_in d)"
proof -
  assume a: "add_package p d = Inr d'"
  let ?vs = "dict_get d (p_name p) []" and ?i = "(p_version p, p_architecture p)"
  have "set (dict_set ?i p ?vs) \<subseteq> insert (?i, p) (set (concat (map snd d)))"
    using set_dict_set [of ?i p ?vs] dict_get_subset [of _ d "p_name p"] by blast
  then have "set (concat (map snd (dict_set (p_name p) (dict_set ?i p ?vs) d))) \<subseteq>
      insert (?i, p) (set (concat (map snd d)))"
    using concat_dict_set [of "p_name p" "dict_set ?i p ?vs" d] by blast
  from image_mono [OF this, of snd]
  have "packages_in (dict_set (p_name p) (dict_set ?i p ?vs) d) \<subseteq> insert p (packages_in d)"
    by (simp only: packages_in_def image_insert snd_conv)
  moreover have "d' = d \<or> d' = dict_set (p_name p) (dict_set ?i p ?vs) d"
    using a unfolding add_package_def Let_def by (simp split: option.split_asm if_split_asm)
  ultimately show ?thesis by blast
qed

lemma add_packages_in: "add_packages ps d = Inr d' \<Longrightarrow> packages_in d' \<subseteq> set ps \<union> packages_in d"
proof (induction ps arbitrary: d)
  case (Cons p ps)
  then obtain d1 where "add_package p d = Inr d1" "add_packages ps d1 = Inr d'" by auto
  with Cons.IH add_package_in show ?case by fastforce
qed simp

definition providers_in :: "(string, (Package \<times> string option) list) dict \<Rightarrow> Package set" where
  "providers_in d = fst ` set (concat (map snd d))"

lemma add_provider_in: "providers_in (add_provider p prov d) \<subseteq> insert p (providers_in d)"
proof -
  let ?es = "dict_get d (fst prov) []"
  from concat_dict_set [of "fst prov" "?es @ [(p, snd prov)]" d] dict_get_subset [of _ d "fst prov"]
  show ?thesis unfolding add_provider_def providers_in_def by (force simp del: set_concat)
qed

lemma fold_subset:
  assumes "\<And>x d. x \<in> set xs \<Longrightarrow> g (f x d) \<subseteq> A \<union> g d"
  shows "g (fold f xs d) \<subseteq> A \<union> g d"
  using assms
proof (induction xs arbitrary: d)
  case (Cons x xs)
  from Cons.IH [of "f x d"] Cons.prems [of x d] Cons.prems show ?case by fastforce
qed simp

lemma providers_from:
  "providers_in (fold (\<lambda>(name, ps). fold (\<lambda>p. fold (add_provider p) (p_provides p)) ps) ordered []) \<subseteq>
     set (concat (map snd ordered))"
proof -
  have "providers_in (fold (add_provider p) prov d) \<subseteq> {p} \<union> providers_in d" for p prov d
    using add_provider_in by (intro fold_subset) auto
  then have "providers_in (fold (\<lambda>p. fold (add_provider p) (p_provides p)) ps d) \<subseteq> set ps \<union> providers_in d" for ps d
    by (intro fold_subset [of ps providers_in]) blast
  then have "providers_in ((\<lambda>(name, ps). fold (\<lambda>p. fold (add_provider p) (p_provides p)) ps) e d) \<subseteq>
      set (snd e) \<union> providers_in d" for e d
    by (simp only: split_beta)
  moreover have "set (snd e) \<subseteq> set (concat (map snd ordered))" if "e \<in> set ordered" for e
    using that by auto
  ultimately have "providers_in (fold (\<lambda>(name, ps). fold (\<lambda>p. fold (add_provider p) (p_provides p)) ps) ordered []) \<subseteq>
     set (concat (map snd ordered)) \<union> providers_in []"
    by (intro fold_subset [of ordered providers_in]) blast
  then show ?thesis by (simp add: providers_in_def)
qed

lemma universe_members:
  assumes "universe ps = Inr u"
  shows "members u \<subseteq> set ps"
proof -
  obtain d ordered where d: "add_packages ps [] = Inr d"
    and r: "rmap (\<lambda>(name, versions). rbind (newest_first (map snd versions)) (\<lambda>ordered. Inr (name, ordered))) d = Inr ordered"
    and u: "u_packages u = ordered" "u_providers u = map (\<lambda>(name, entries).
        (name, sort_key (\<lambda>entry. (priority_rank (p_priority (fst entry)), p_name (fst entry))) entries))
      (fold (\<lambda>(name, ps). fold (\<lambda>p. fold (add_provider p) (p_provides p)) ps) ordered [])"
    using assms by (auto simp: universe_def Let_def)
  have "set (concat (map snd ordered)) \<subseteq> packages_in d"
  proof
    fix p assume "p \<in> set (concat (map snd ordered))"
    then obtain n qs where q: "(n, qs) \<in> set ordered" "p \<in> set qs" by auto
    then obtain vs where vs: "(n, vs) \<in> set d" "newest_first (map snd vs) = Inr qs"
      using r list_all2_right [OF r [unfolded rmap_Inr_iff] q(1)] by auto
    have "vs \<noteq> []" using vs(2) q(2) by (auto simp: newest_first_def)
    then obtain v where "v \<in> set (map snd vs)" by (cases vs) auto
    with newest_first_Inr(1) [OF vs(2)] q(2) have "p \<in> set (map snd vs)" by blast
    then obtain v where "v \<in> set vs" "p = snd v" by auto
    moreover from this vs(1) have "v \<in> set (concat (map snd d))" by force
    ultimately show "p \<in> packages_in d" unfolding packages_in_def by blast
  qed
  also have "\<dots> \<subseteq> set ps" using add_packages_in [OF d] by (auto simp: packages_in_def)
  finally have o: "set (concat (map snd ordered)) \<subseteq> set ps" .
  have "fst ` set (concat (map snd (u_providers u))) \<subseteq> set (concat (map snd ordered))"
    using providers_from [of ordered] unfolding u providers_in_def by (auto simp: split_beta)
  with o show ?thesis by (auto simp: members_def universe_packages_def u(1) simp del: set_concat)
qed

lemma selected_from:
  assumes "universe ps = Inr u" "resolve u requested = Inr (selected, edges)"
  shows "snd ` set selected \<subseteq> set ps"
proof -
  obtain c where "closure_inv u (roots u requested) {} c" "c_selected c = selected"
    using resolve_invariant(1) [OF assms] by blast
  then have "\<forall>p \<in> snd ` set selected. needed u (roots u requested) p" unfolding closure_inv_def by blast
  with needed_members universe_members [OF assms(1)] show ?thesis by blast
qed

section \<open>Authenticated packages\<close>

text \<open>
  A package record is authentic for a specification when it is a record of one of the indexes of
  the specification, fetched below the snapshot, and the SHA-256 list of the Release file that
  InRelease carries has its length and digest.
\<close>

definition release_of ::
    "(string \<Rightarrow> lock_error + bytes) \<Rightarrow> Specification \<Rightarrow> fields822 \<Rightarrow> checksums \<Rightarrow> bool" where
  "release_of fetcher spec flds sums \<longleftrightarrow>
     (\<exists>inrelease release.
        fetcher (s_snapshot_url spec @ ''/dists/'' @ s_suite spec @ ''/InRelease'') = Inr inrelease \<and>
        fetcher (s_snapshot_url spec @ ''/dists/'' @ s_suite spec @ ''/Release'') = Inr release \<and>
        cleartext_payload inrelease \<in> {Inr release, Inr (release @ [10])} \<and>
        release_checksums release = Inr (flds, sums))"

definition authentic ::
    "(bytes \<Rightarrow> string) \<Rightarrow> (bytes \<Rightarrow> bytes option) \<Rightarrow> (string \<Rightarrow> lock_error + bytes) \<Rightarrow> Specification \<Rightarrow> checksums
     \<Rightarrow> Package \<Rightarrow> bool" where
  "authentic sha256 unxz fetcher spec sums p \<longleftrightarrow>
     (\<exists>component architecture data s ps.
        component \<in> set (s_components spec) \<and> architecture \<in> set INDEX_ARCHITECTURES \<and>
        fetcher (s_snapshot_url spec @ ''/dists/'' @ s_suite spec @ ''/'' @ index_path component architecture) = Inr data \<and>
        map_of sums (index_path component architecture) = Some (sha256 data, len data) \<and>
        decode_index unxz (index_path component architecture) data = Inr s \<and>
        parse_packages s component architecture = Inr ps \<and> p \<in> set ps)"

lemma fetch_indexes_authentic:
  assumes "fetch_indexes sha256 unxz spec (''dists/'' @ s_suite spec) sums fetcher = Inr (metadata, packages)"
    "p \<in> set packages"
  shows "authentic sha256 unxz fetcher spec sums p"
proof -
  have "authentic sha256 unxz fetcher spec sums p"
    if "fetch_indexes_loop sha256 unxz (s_snapshot_url spec) (''dists/'' @ s_suite spec) sums fetcher ixs = Inr (md, ps)"
      "p \<in> set ps" "set ixs \<subseteq> set (indexes_of spec)" for ixs md ps
    using that
  proof (induction ixs arbitrary: md ps)
    case (Cons ix ixs)
    obtain c a where ix: "ix = (c, a)" by fastforce
    from Cons.prems(1) obtain data s qs md' more where f:
      "fetch_index sha256 (s_snapshot_url spec) (''dists/'' @ s_suite spec) (index_path c a) sums fetcher = Inr data"
      "decode_index unxz (index_path c a) data = Inr s" "parse_packages s c a = Inr qs"
      "fetch_indexes_loop sha256 unxz (s_snapshot_url spec) (''dists/'' @ s_suite spec) sums fetcher ixs = Inr (md', more)"
      "ps = qs @ more" unfolding ix by (auto simp: split_beta)
    show ?case
    proof (cases "p \<in> set more")
      case True
      with Cons.IH [OF f(4)] Cons.prems(3) show ?thesis by simp
    next
      case False
      with Cons.prems(2) f(5) have "p \<in> set qs" by simp
      moreover have "c \<in> set (s_components spec)" "a \<in> set INDEX_ARCHITECTURES"
        using Cons.prems(3) by (auto simp: ix indexes_of_def)
      moreover have "fetcher (s_snapshot_url spec @ ''/dists/'' @ s_suite spec @ ''/'' @ index_path c a) = Inr data \<and>
          map_of sums (index_path c a) = Some (sha256 data, len data)"
        using f(1) by (auto simp: fetch_index_def split: option.split_asm if_split_asm)
      ultimately show ?thesis unfolding authentic_def using f(2,3) by blast
    qed
  qed simp
  from this [OF assms(1) [unfolded fetch_indexes_def] assms(2)] show ?thesis by simp
qed

lemma generate_parts:
  assumes "generate sha256 unxz fetcher spec release = Inr lock"
  obtains flds sums metadata packages u selected edges locked number where
    "release_of fetcher spec flds sums" "release_number flds spec release = Inr number"
    "fetch_indexes sha256 unxz spec (''dists/'' @ s_suite spec) sums fetcher = Inr (metadata, packages)"
    "universe packages = Inr u" "resolve u (s_packages spec) = Inr (selected, edges)"
    "locked_packages selected edges (s_snapshot_url spec) = Inr locked"
    "json_get lock ''packages'' = Some (JList locked)"
    "json_get lock ''spec_sha256'' = Some (JStr (spec_sha256 sha256 spec))"
  using assms unfolding generate_def Let_def
  by (auto simp: fetch_release_def release_of_def split_beta split: if_split_asm)

text \<open>
  C18: Every package of a generated lock is authentic: InRelease carries the Release file, that
  lists the length and the digest of the fetched index, and the package is a record of this
  index. The lock lists one entry for each selected package, in the strict order of their keys,
  and the selection is the resolution of the authentic records, so it is closed under
  dependencies.
\<close>

theorem generate_authentic:
  assumes "generate sha256 unxz fetcher spec release = Inr lock"
  shows "\<exists>flds sums packages u selected edges.
    release_of fetcher spec flds sums \<and> (\<forall>p \<in> set packages. authentic sha256 unxz fetcher spec sums p) \<and>
    universe packages = Inr u \<and> resolve u (s_packages spec) = Inr (selected, edges) \<and>
    snd ` set selected \<subseteq> set packages \<and>
    json_get lock ''packages'' = Some (JList (map (\<lambda>(name, p).
      locked_package p (dependencies_of selected edges name) (s_snapshot_url spec)) (locked_order selected))) \<and>
    set (locked_order selected) = set selected \<and>
    sorted_wrt (\<lambda>x y. package_key (snd x) < package_key (snd y)) (locked_order selected)"
proof -
  from assms obtain flds sums metadata packages u selected edges locked number where g:
    "release_of fetcher spec flds sums"
    "fetch_indexes sha256 unxz spec (''dists/'' @ s_suite spec) sums fetcher = Inr (metadata, packages)"
    "universe packages = Inr u" "resolve u (s_packages spec) = Inr (selected, edges)"
    "locked_packages selected edges (s_snapshot_url spec) = Inr locked"
    "json_get lock ''packages'' = Some (JList locked)" by (rule generate_parts)
  have l: "distinct (map (\<lambda>(name, p). package_key p) (locked_order selected))"
    "locked = map (\<lambda>(name, p). locked_package p (dependencies_of selected edges name) (s_snapshot_url spec))
      (locked_order selected)"
    using g(5) by (auto simp: locked_packages_def split: if_split_asm)
  have "sorted (map (\<lambda>(name, p). package_key p) (locked_order selected))"
    by (simp add: locked_order_def)
  with l(1) have "sorted_wrt (<) (map (\<lambda>(name, p). package_key p) (locked_order selected))"
    by (simp add: strict_sorted_iff)
  then have "sorted_wrt (\<lambda>x y. package_key (snd x) < package_key (snd y)) (locked_order selected)"
    by (simp add: sorted_wrt_map split_beta)
  moreover have "\<forall>p \<in> set packages. authentic sha256 unxz fetcher spec sums p"
    using fetch_indexes_authentic [OF g(2)] by blast
  moreover have "set (locked_order selected) = set selected" by (simp add: locked_order_def)
  ultimately show ?thesis
    using g(1,3,4,6) l(2) selected_from [OF g(3,4)] by blast
qed

section \<open>Stale locks\<close>

text \<open>
  \<^verbatim>\<open>json.dumps\<close> with \<^verbatim>\<open>sort_keys=True\<close> orders the keys of every object, and \<^verbatim>\<open>json.loads\<close>
  keeps the order of the text: reading a written value back gives the value with all keys sorted.
\<close>

fun json_sort :: "string json \<Rightarrow> string json" where
  "json_sort (JList xs) = JList (map json_sort xs)"
| "json_sort (JObj kvs) = JObj (sort_key fst (map (\<lambda>(k, v). (k, json_sort v)) kvs))"
| "json_sort v = v"

lemma map_of_filter_key: "map_of (filter (\<lambda>x. fst x = k) xs) k = map_of xs k"
  by (induction xs) auto

lemma map_of_sort_key: "map_of (sort_key fst xs) k = map_of xs k"
  by (metis map_of_filter_key sort_key_stable)

lemma json_get_sort: "json_get (json_sort v) k = map_option json_sort (json_get v k)"
  by (cases v) (simp_all add: map_of_sort_key map_of_map)

text \<open>
  C19: Let a lock be rendered from a specification file: the text that is written is the sorted,
  indented JSON of the generated lock. The offline check of this text against a second
  specification file passes exactly when the second file normalises to the same specification, as
  long as the digest does not collide on the two canonical texts. So reformatting the file,
  reordering the components, repeating a package or a trailing slash keep a lock valid, and every
  other change is detected. The JSON parser has to read the written lock back, with the keys in
  the sorted order of the text.
\<close>

theorem check_spec_exact:
  assumes "render_lock sha256 unxz json_loads fetcher old_text release = Inr lock_text"
    and "read_specification json_loads old_text = Inr old" "read_specification json_loads spec_text = Inr spec"
    and "\<And>lock. generate sha256 unxz fetcher old release = Inr lock \<Longrightarrow>
      json_loads (render_lock_json lock) = Some (json_sort lock)"
    and "spec_sha256 sha256 spec = spec_sha256 sha256 old \<Longrightarrow>
      utf8_encode (json_dumps (canonical_spec spec)) = utf8_encode (json_dumps (canonical_spec old))"
  shows "check_spec sha256 json_loads spec_text lock_text = Inr () \<longleftrightarrow> spec = old"
proof -
  from assms(1,2) obtain lock where g: "generate sha256 unxz fetcher old release = Inr lock"
    and t: "lock_text = render_lock_json lock"
    by (auto simp: render_lock_def)
  from g have "json_get lock ''spec_sha256'' = Some (JStr (spec_sha256 sha256 old))"
    by (rule generate_parts)
  then have d: "json_get (json_sort lock) ''spec_sha256'' = Some (JStr (spec_sha256 sha256 old))"
    by (simp add: json_get_sort)
  have "wf_spec s" if "read_specification json_loads x = Inr s" for s x
    using that load_specification_wf by (auto simp: read_specification_def split: option.split_asm)
  with assms(2,3) have "wf_spec spec" "wf_spec old" by blast+
  then have "spec_sha256 sha256 spec = spec_sha256 sha256 old \<longleftrightarrow> spec = old"
    using assms(5) canonical_inj utf8_encode_inj by blast
  then show ?thesis
    using assms(3,4) g by (simp add: check_spec_def d t) metis
qed

end
