(* ===== verification/Debian_Lock_Fixture.thy ===== *)
theory Debian_Lock_Fixture
  imports Debian_Lock_Safety
begin

text \<open>A snapshot with one package, and the lock that is generated from it.\<close>

definition demo_digest :: string where
  "demo_digest = replicate 64 (CHR ''0'')"

definition demo_line :: "string \<Rightarrow> string" where
  "demo_line s = s @ ''\<newline>''"

definition demo_index :: string where
  "demo_index = demo_line ''Package: base'' @ demo_line ''Version: 1'' @ demo_line ''Architecture: amd64''
     @ demo_line ''Size: 7'' @ demo_line (''SHA256: '' @ demo_digest) @ demo_line ''Filename: pool/b''
     @ demo_line ''Essential: yes''"

definition demo_release :: string where
  "demo_release = demo_line ''Codename: sid'' @ demo_line ''Components: main'' @ demo_line ''Architectures: amd64''
     @ demo_line ''Version: 13.1'' @ demo_line ''SHA256:''
     @ demo_line ('' '' @ demo_digest @ '' 158 main/binary-amd64/Packages.xz'')
     @ demo_line ('' '' @ demo_digest @ '' 0 main/binary-all/Packages.xz'')"

definition demo_inrelease :: string where
  "demo_inrelease = demo_line ''-----BEGIN PGP SIGNED MESSAGE-----'' @ demo_line [] @ demo_release
     @ demo_line ''-----BEGIN PGP SIGNATURE-----''"

definition demo_url :: string where
  "demo_url = ''https://h/20250814T000000Z''"

definition demo_fetcher :: "string \<Rightarrow> lock_error + bytes" where
  "demo_fetcher url =
     (if ends_with ''/InRelease'' url then Inr (utf8_encode demo_inrelease)
      else if ends_with ''/Release'' url then Inr (utf8_encode demo_release)
      else if ends_with ''/Release.gpg'' url then Inr []
      else if ends_with ''/main/binary-amd64/Packages.xz'' url then Inr (utf8_encode demo_index)
      else if ends_with ''/main/binary-all/Packages.xz'' url then Inr []
      else Inl (Fetch_failed url))"

text \<open>The digest of the indexes is the listed one, of any other text the text itself.\<close>

definition demo_sha :: "bytes \<Rightarrow> string" where
  "demo_sha data = (if data \<in> {[], utf8_encode demo_index} then demo_digest else map (\<lambda>b. char_of (uint b)) data)"

definition demo_spec :: "string \<Rightarrow> Specification" where
  "demo_spec name = \<lparr>s_snapshot_url = demo_url, s_snapshot = ''20250814T000000Z'', s_suite = ''sid'',
     s_components = [''main''], s_packages = [name]\<rparr>"

definition demo_record :: Package where
  "demo_record = \<lparr>p_name = ''base'', p_version = ''1'', p_architecture = ''amd64'', p_component = ''main'',
     p_filename = ''pool/b'', p_bytes = 7, p_sha256 = demo_digest, p_multi_arch = ''no'', p_essential = True,
     p_priority = ''optional'', p_pre_depends = [], p_depends = [], p_provides = []\<rparr>"

lemma demo_packages: "parse_packages demo_index ''main'' ''amd64'' = Inr [demo_record]"
  by code_simp

lemma demo_payload: "cleartext_payload (utf8_encode demo_inrelease) = Inr (utf8_encode demo_release)"
proof -
  let ?lines = "split_on (CHR ''\<newline>'') demo_inrelease"
  have "index_from ''-----BEGIN PGP SIGNED MESSAGE-----'' 0 ?lines = Some 0" "index_from [] 0 ?lines = Some 1"
    "index_from ''-----BEGIN PGP SIGNATURE-----'' 2 ?lines = Some 9"
    "join_with ''\<newline>'' (map dash_unescape (take (9 - 2) (drop 2 ?lines))) @ ''\<newline>'' = demo_release"
    by code_simp+
  then show ?thesis by (simp add: cleartext_payload_def utf8_decode_encode Let_def numeral_2_eq_2)
qed

definition demo_sums :: checksums where
  "demo_sums = [(''main/binary-amd64/Packages.xz'', (demo_digest, 158)), (''main/binary-all/Packages.xz'', (demo_digest, 0))]"

definition demo_fields :: fields822 where
  "demo_fields = (case paragraphs demo_release of Inr [flds] \<Rightarrow> flds | _ \<Rightarrow> [])"

lemma demo_checksums: "release_checksums (utf8_encode demo_release) = Inr (demo_fields, demo_sums)"
proof -
  have "paragraphs demo_release = Inr [demo_fields]"
    "checksum_entries (splitlines (dict_get demo_fields ''SHA256'' [])) [] = Inr demo_sums"
    by code_simp+
  then show ?thesis by (simp add: release_checksums_def utf8_decode_encode lift_control_def)
qed

lemma demo_number: "release_number demo_fields (demo_spec ''base'') None = Inr ''13''"
  by code_simp

lemma demo_index_length: "length (utf8_encode demo_index) = 158"
  by code_simp

lemma demo_urls:
  "demo_fetcher (demo_url @ ''/dists/sid/InRelease'') = Inr (utf8_encode demo_inrelease)"
  "demo_fetcher (demo_url @ ''/dists/sid/Release'') = Inr (utf8_encode demo_release)"
  "demo_fetcher (demo_url @ ''/dists/sid/Release.gpg'') = Inr []"
  "demo_fetcher (demo_url @ ''/dists/sid/main/binary-amd64/Packages.xz'') = Inr (utf8_encode demo_index)"
  "demo_fetcher (demo_url @ ''/dists/sid/main/binary-all/Packages.xz'') = Inr []"
  by (simp_all add: demo_fetcher_def demo_url_def ends_with_def)

definition demo_selection :: "(string, Package) dict" where
  "demo_selection = [(''base'', demo_record)]"

lemma demo_resolution:
  "\<exists>u. universe [demo_record] = Inr u \<and> resolve u [''base''] = Inr (demo_selection, [(''base'', {})])"
proof -
  have "rbind (universe [demo_record]) (\<lambda>u. resolve u [''base'']) = Inr (demo_selection, [(''base'', {})])"
    by code_simp
  then show ?thesis by simp
qed

lemma demo_indexes:
  "\<exists>metadata. fetch_indexes demo_sha Some (demo_spec ''base'') ''dists/sid'' demo_sums demo_fetcher = Inr (metadata, [demo_record])"
proof -
  have "fetch_index demo_sha demo_url ''dists/sid'' ''main/binary-amd64/Packages.xz'' demo_sums demo_fetcher =
      Inr (utf8_encode demo_index)"
    "fetch_index demo_sha demo_url ''dists/sid'' ''main/binary-all/Packages.xz'' demo_sums demo_fetcher = Inr []"
    using demo_urls(4,5) by (simp_all add: fetch_index_def demo_sums_def demo_sha_def demo_index_length)
  moreover have "parse_packages [] ''main'' ''all'' = Inr []" by code_simp
  ultimately show ?thesis
    using demo_packages
    by (simp add: fetch_indexes_def indexes_of_def INDEX_ARCHITECTURES_def ARCHITECTURE_def index_path_def
        decode_index_def utf8_decode_encode demo_spec_def del: rbind_eq_Inr)
qed

lemma demo_lock: "\<exists>lock. generate demo_sha Some demo_fetcher (demo_spec ''base'') None = Inr lock"
proof -
  have "fetch_release demo_url ''dists/sid'' demo_fetcher = Inr (utf8_encode demo_inrelease, utf8_encode demo_release, [])"
    using demo_urls by (simp add: fetch_release_def demo_payload)
  moreover have "\<exists>locked. locked_packages demo_selection [(''base'', {})] demo_url = Inr locked"
    by (simp add: locked_packages_def demo_selection_def locked_order_def)
  moreover have "s_suite (demo_spec n) = ''sid''" "s_snapshot_url (demo_spec n) = demo_url" "s_packages (demo_spec n) = [n]" for n
    by (simp_all add: demo_spec_def)
  ultimately show ?thesis
    using demo_checksums demo_number demo_indexes demo_resolution by (auto simp: generate_def)
qed

theorem generate_authentic_witness:
  "\<exists>lock flds sums p. generate demo_sha Some demo_fetcher (demo_spec ''base'') None = Inr lock \<and>
     release_of demo_fetcher (demo_spec ''base'') flds sums \<and>
     authentic demo_sha Some demo_fetcher (demo_spec ''base'') sums p"
proof -
  obtain lock where lock: "generate demo_sha Some demo_fetcher (demo_spec ''base'') None = Inr lock"
    using demo_lock by blast
  from generate_authentic [OF this] obtain flds sums packages u selected edges where g:
    "release_of demo_fetcher (demo_spec ''base'') flds sums"
    "\<forall>p \<in> set packages. authentic demo_sha Some demo_fetcher (demo_spec ''base'') sums p"
    "universe packages = Inr u" "resolve u (s_packages (demo_spec ''base'')) = Inr (selected, edges)"
    "snd ` set selected \<subseteq> set packages" by (elim exE conjE) (rule that)
  have "\<exists>p cs. candidates u (bare_relation ''base'') = Inr cs \<and> p \<in> set cs \<and> map_of selected (p_name p) = Some p"
    using resolve_invariant(3) [OF g(3,4)] by (auto simp: demo_spec_def requested_root_def)
  then obtain p where "map_of selected (p_name p) = Some p" by blast
  then have "p \<in> snd ` set selected" using imageI [OF map_of_SomeD, of selected _ p snd] by simp
  then have "p \<in> set packages" using g(5) by (rule rev_subsetD)
  with lock g(1,2) show ?thesis by blast
qed

text \<open>A parser for two specification files, and for the text of one lock.\<close>

definition demo_json :: "string json \<Rightarrow> string \<Rightarrow> string json option" where
  "demo_json lock s =
     (if s = ''old'' then Some (spec_json (demo_spec ''base''))
      else if s = ''spec'' then Some (spec_json (demo_spec ''curl''))
      else if s = render_lock_json lock then Some (json_sort lock) else None)"

theorem check_spec_exact_witness:
  "\<exists>lock lock_text. generate demo_sha Some demo_fetcher (demo_spec ''base'') None = Inr lock \<and>
     render_lock demo_sha Some (demo_json lock) demo_fetcher ''old'' None = Inr lock_text \<and>
     check_spec demo_sha (demo_json lock) ''spec'' lock_text \<noteq> Inr ()"
proof -
  obtain lock where lock: "generate demo_sha Some demo_fetcher (demo_spec ''base'') None = Inr lock"
    using demo_lock by blast
  have "load_specification (spec_json (demo_spec n)) = Inr (demo_spec n)" if "n = ''curl'' \<or> n = ''base''" for n
    using that by (elim disjE) (simp only:, code_simp)+
  then have r: "read_specification (demo_json lock) ''spec'' = Inr (demo_spec ''curl'')"
    "read_specification (demo_json lock) ''old'' = Inr (demo_spec ''base'')"
    by (simp_all add: read_specification_def demo_json_def)
  have t: "render_lock demo_sha Some (demo_json lock) demo_fetcher ''old'' None = Inr (render_lock_json lock)"
    by (simp add: render_lock_def r(2) lock)
  have l: "demo_json lock (render_lock_json lock) = Some (json_sort lock)"
    using lock by (auto simp: demo_json_def render_lock_json_def dest: arg_cong [of _ _ last])
  have "spec_sha256 demo_sha (demo_spec ''curl'') \<noteq> spec_sha256 demo_sha (demo_spec ''base'')" by code_simp
  then have "check_spec demo_sha (demo_json lock) ''spec'' (render_lock_json lock) = Inr () \<longleftrightarrow>
      demo_spec ''curl'' = demo_spec ''base''"
    using l lock by (intro check_spec_exact [OF t r(2,1)]) auto
  moreover have "demo_spec ''curl'' \<noteq> demo_spec ''base''" by (simp add: demo_spec_def)
  ultimately have "check_spec demo_sha (demo_json lock) ''spec'' (render_lock_json lock) \<noteq> Inr ()" by simp
  with lock t show ?thesis by blast
qed

end
