(* ===== verification/Verity_Metadata.thy ===== *)
theory Verity_Metadata
  imports Gpt_Metadata Json_Text
begin

text \<open>
  The dm-verity verifier \<^verbatim>\<open>mkosi/private/verity_metadata.py\<close>: the superblock of a hash artifact, the
  hash tree recomputed level by level from the root artifact, and the projected geometry. A file
  is its bytes, a spool file the digests written to it. \<open>hash_new\<close> is \<^verbatim>\<open>hashlib.new\<close>: for an algorithm
  name, \<^const>\<open>None\<close> for an unknown one, the digest size and the digest of a byte string, which is
  \<^const>\<open>None\<close> for an extendable-output algorithm, whose \<^verbatim>\<open>digest\<close> raises \<^verbatim>\<open>TypeError\<close> without a length.
\<close>

section \<open>Geometry\<close>

type_synonym hashes = "string \<Rightarrow> (int \<times> (bytes \<Rightarrow> bytes option)) option"

definition MAX_ARTIFACT_BYTES :: int where "MAX_ARTIFACT_BYTES = 16 * 1024 ^ 3"
definition MAX_BLOCKS :: int where "MAX_BLOCKS = 2 ^ 32"
definition MAX_LEVELS :: nat where "MAX_LEVELS = 64"
definition MAX_SPOOL_BYTES :: int where "MAX_SPOOL_BYTES = 2 * 1024 ^ 3"
definition SUPERBLOCK_SIZE :: int where "SUPERBLOCK_SIZE = 512"

text \<open>\<open>Digest_type_error\<close>, \<open>Shape_error\<close> are the errors that \<^verbatim>\<open>main\<close> does not catch.\<close>

datatype verity_error =
    Unsupported_algorithm
  | Invalid_data_block_size
  | Invalid_hash_block_size
  | Slots_do_not_divide
  | No_superblock
  | Algorithm_not_ascii
  | Unsupported_format
  | Invalid_block_count
  | Invalid_salt_size
  | Root_truncated
  | Too_many_levels
  | Spools_too_large
  | Spool_truncated
  | Hash_mismatch nat nat
  | Root_spool_size
  | Not_one_root_pair
  | Signature_partition
  | Artifact_too_large
  | Root_size_mismatch
  | Hash_size_mismatch
  | Padding_not_zero
  | Trailing_bytes string
  | Geometry_exceeds_root
  | Root_hash_mismatch
  | Missing_key string
  | Metadata_not_json
  | Digest_type_error
  | Shape_error

record verity_geometry =
  v_algorithm :: string
  v_data_block_size :: int
  v_data_blocks :: int
  v_digest_size :: int
  v_hash_block_size :: int
  v_slot_size :: int
  v_salt :: bytes
  v_superblock :: bytes

definition digest_size_of :: "hashes \<Rightarrow> string \<Rightarrow> verity_error + int" where
  "digest_size_of hash_new algorithm =
     (case hash_new algorithm of None \<Rightarrow> Inl Unsupported_algorithm | Some (n, _) \<Rightarrow> Inr n)"

definition py_bit_length :: "int \<Rightarrow> nat" where
  "py_bit_length n = bit_length (nat \<bar>n\<bar>)"

definition slot_size :: "int \<Rightarrow> int \<Rightarrow> int \<Rightarrow> verity_error + int" where
  "slot_size data_block_size hash_block_size digest_size =
     (let slot = 2 ^ py_bit_length (digest_size - 1)
      in if data_block_size < 512 \<or> 1024 * 1024 < data_block_size \<or> data_block_size AND (data_block_size - 1) \<noteq> 0
      then Inl Invalid_data_block_size
      else if hash_block_size < digest_size \<or> 1024 * 1024 < hash_block_size \<or> hash_block_size AND (hash_block_size - 1) \<noteq> 0
      then Inl Invalid_hash_block_size
      else if hash_block_size < slot \<or> hash_block_size mod slot \<noteq> 0 then Inl Slots_do_not_divide
      else Inr slot)"

definition ascii_decode :: "bytes \<Rightarrow> string option" where
  "ascii_decode bs = (if list_all (\<lambda>b. uint b < 128) bs then Some (map (\<lambda>b. char_of (uint b)) bs) else None)"

definition SUPERBLOCK_MAGIC :: bytes where
  "SUPERBLOCK_MAGIC = map of_char ''verity'' @ [0, 0]"

definition read_superblock :: "hashes \<Rightarrow> bytes \<Rightarrow> verity_error + verity_geometry" where
  "read_superblock hash_new source =
     (let sb = py_slice source 0 SUPERBLOCK_SIZE
      in if len sb \<noteq> SUPERBLOCK_SIZE \<or> py_slice sb 0 8 \<noteq> SUPERBLOCK_MAGIC then Inl No_superblock
      else
        let version = le_at sb 8 4; hash_type = le_at sb 12 4;
            data_block_size = le_at sb 64 4; hash_block_size = le_at sb 68 4;
            data_blocks = le_at sb 72 8; salt_size = le_at sb 80 2
        in case ascii_decode (takeWhile (\<lambda>b. b \<noteq> 0) (py_slice sb 32 64)) of
             None \<Rightarrow> Inl Algorithm_not_ascii
           | Some algorithm \<Rightarrow>
               if version \<noteq> 1 \<or> hash_type \<noteq> 1 then Inl Unsupported_format
               else
                 rbind (digest_size_of hash_new algorithm) (\<lambda>digest_size.
                 rbind (slot_size data_block_size hash_block_size digest_size) (\<lambda>slot.
                   if data_blocks = 0 \<or> MAX_BLOCKS < data_blocks then Inl Invalid_block_count
                   else if 256 < salt_size then Inl Invalid_salt_size
                   else Inr \<lparr>v_algorithm = algorithm, v_data_block_size = data_block_size,
                       v_data_blocks = data_blocks, v_digest_size = digest_size,
                       v_hash_block_size = hash_block_size, v_slot_size = slot,
                       v_salt = py_slice sb 88 (88 + salt_size), v_superblock = sb\<rparr>)))"

section \<open>The hash tree\<close>

definition salted_digest :: "hashes \<Rightarrow> verity_geometry \<Rightarrow> bytes \<Rightarrow> verity_error + bytes" where
  "salted_digest hash_new g data =
     (case hash_new (v_algorithm g) of
        None \<Rightarrow> Inl Unsupported_algorithm
      | Some (_, digest) \<Rightarrow>
          (case digest (v_salt g @ data) of None \<Rightarrow> Inl Digest_type_error | Some d \<Rightarrow> Inr d))"

text \<open>The blocks are read one after the other; \<open>source\<close> is what is still to be read.\<close>

fun leaf_digests :: "hashes \<Rightarrow> verity_geometry \<Rightarrow> nat \<Rightarrow> bytes \<Rightarrow> verity_error + bytes list" where
  "leaf_digests hash_new g 0 source = Inr []"
| "leaf_digests hash_new g (Suc n) source =
     (let block = take (nat (v_data_block_size g)) source
      in if len block \<noteq> v_data_block_size g then Inl Root_truncated
      else rbind (salted_digest hash_new g block) (\<lambda>d.
           rbind (leaf_digests hash_new g n (drop (nat (v_data_block_size g)) source)) (\<lambda>ds. Inr (d # ds))))"

function level_counts_loop :: "int list \<Rightarrow> int \<Rightarrow> int \<Rightarrow> verity_error + int list" where
  "level_counts_loop counts digests per_block =
     (if 1 < digests then
        let blocks = (digests + per_block - 1) div per_block
        in if MAX_LEVELS < length counts + 1 then Inl Too_many_levels
           else level_counts_loop (counts @ [blocks]) blocks per_block
      else Inr counts)"
  by pat_completeness auto

termination level_counts_loop
  by (relation "measure (\<lambda>(counts, digests, per_block). MAX_LEVELS + 1 - length counts)") auto

declare level_counts_loop.simps [simp del]

definition level_counts :: "int \<Rightarrow> int \<Rightarrow> verity_error + int list" where
  "level_counts data_blocks per_block = level_counts_loop [] data_blocks per_block"

definition check_spool_budget :: "verity_geometry \<Rightarrow> int list \<Rightarrow> verity_error + unit" where
  "check_spool_budget g counts =
     (let leaf_bytes = v_data_blocks g * v_digest_size g;
          next_bytes = (case counts of [] \<Rightarrow> 0 | c # _ \<Rightarrow> c * v_digest_size g)
      in if MAX_SPOOL_BYTES < leaf_bytes + next_bytes then Inl Spools_too_large else Inr ())"

fun level_offsets_loop :: "int list \<Rightarrow> int \<Rightarrow> int \<Rightarrow> int \<Rightarrow> int list \<times> int" where
  "level_offsets_loop [] tree_offset block_size preceding = ([], preceding)"
| "level_offsets_loop (c # cs) tree_offset block_size preceding =
     (let (offsets, total) = level_offsets_loop cs tree_offset block_size (preceding + c)
      in ((tree_offset + preceding * block_size) # offsets, total))"

definition level_offsets :: "int list \<Rightarrow> int \<Rightarrow> int \<Rightarrow> int list \<times> int" where
  "level_offsets counts tree_offset block_size =
     (let (offsets, preceding) = level_offsets_loop (rev counts) tree_offset block_size 0
      in (rev offsets, preceding * block_size))"

text \<open>
  A spool holds the digests of a level one after the other, each of the digest size, so reading
  one digest takes the next of the list; the end of the list is the truncated spool.
\<close>

fun expected_digests :: "verity_geometry \<Rightarrow> nat \<Rightarrow> bytes list \<Rightarrow> verity_error + bytes \<times> bytes list" where
  "expected_digests g 0 current = Inr ([], current)"
| "expected_digests g (Suc n) [] = Inl Spool_truncated"
| "expected_digests g (Suc n) (d # ds) =
     rbind (expected_digests g n ds) (\<lambda>(block, rest).
       Inr (d @ zeros (nat (v_slot_size g - v_digest_size g)) @ block, rest))"

definition expected_block :: "verity_geometry \<Rightarrow> nat \<Rightarrow> bytes list \<Rightarrow> verity_error + bytes \<times> bytes list" where
  "expected_block g digests current =
     rbind (expected_digests g digests current) (\<lambda>(block, rest).
       Inr (block @ zeros (nat (v_hash_block_size g - len block)), rest))"

definition per_block :: "verity_geometry \<Rightarrow> int" where
  "per_block g = v_hash_block_size g div v_slot_size g"

fun verify_level_loop ::
    "hashes \<Rightarrow> verity_geometry \<Rightarrow> nat \<Rightarrow> nat \<Rightarrow> nat \<Rightarrow> int \<Rightarrow> int \<Rightarrow> bytes list \<Rightarrow> bytes \<Rightarrow> verity_error + bytes list" where
  "verify_level_loop hash_new g level block_index 0 digest_count consumed current emitted = Inr []"
| "verify_level_loop hash_new g level block_index (Suc n) digest_count consumed current emitted =
     (let digests = min (per_block g) (digest_count - consumed)
      in rbind (expected_block g (nat digests) current) (\<lambda>(block, current').
           if take (nat (v_hash_block_size g)) emitted \<noteq> block then Inl (Hash_mismatch level block_index)
           else
             rbind (salted_digest hash_new g block) (\<lambda>d.
             rbind (verify_level_loop hash_new g level (block_index + 1) n digest_count (consumed + digests) current'
                 (drop (nat (v_hash_block_size g)) emitted)) (\<lambda>ds. Inr (d # ds)))))"

definition verify_level ::
    "hashes \<Rightarrow> verity_geometry \<Rightarrow> nat \<Rightarrow> int \<Rightarrow> bytes list \<Rightarrow> int \<Rightarrow> bytes \<Rightarrow> verity_error + bytes list" where
  "verify_level hash_new g level block_count below digest_count emitted =
     verify_level_loop hash_new g level 0 (nat block_count) digest_count 0 below emitted"

definition read_root_digest :: "bytes list \<Rightarrow> verity_error + bytes" where
  "read_root_digest spool = (case spool of [d] \<Rightarrow> Inr d | _ \<Rightarrow> Inl Root_spool_size)"

fun verify_levels ::
    "hashes \<Rightarrow> verity_geometry \<Rightarrow> bytes \<Rightarrow> nat \<Rightarrow> (int \<times> int) list \<Rightarrow> bytes list \<Rightarrow> int \<Rightarrow> verity_error + bytes list" where
  "verify_levels hash_new g hash_image level [] below digest_count = Inr below"
| "verify_levels hash_new g hash_image level ((block_count, emitted_offset) # rest) below digest_count =
     rbind (verify_level hash_new g level block_count below digest_count (drop (nat emitted_offset) hash_image)) (\<lambda>spool.
       verify_levels hash_new g hash_image (level + 1) rest spool block_count)"

definition verify_tree ::
    "hashes \<Rightarrow> bytes \<Rightarrow> bytes \<Rightarrow> verity_geometry \<Rightarrow> int \<Rightarrow> verity_error + int list \<times> bytes \<times> int" where
  "verify_tree hash_new root_image hash_image g tree_offset =
     rbind (level_counts (v_data_blocks g) (per_block g)) (\<lambda>counts.
     rbind (check_spool_budget g counts) (\<lambda>_.
       let (offsets, tree_size) = level_offsets counts tree_offset (v_hash_block_size g)
       in rbind (leaf_digests hash_new g (nat (v_data_blocks g)) root_image) (\<lambda>leaf.
          rbind (verify_levels hash_new g hash_image 0 (zip counts offsets) leaf (v_data_blocks g)) (\<lambda>spool.
          rbind (read_root_digest spool) (\<lambda>root. Inr (counts, root, tree_size))))))"

section \<open>Partitions and artifacts\<close>

definition json_key :: "string \<Rightarrow> string json \<Rightarrow> verity_error + string json" where
  "json_key k v =
     (case v of
        JObj kvs \<Rightarrow> (case map_of kvs k of None \<Rightarrow> Inl (Missing_key k) | Some x \<Rightarrow> Inr x)
      | _ \<Rightarrow> Inl Shape_error)"

definition slot_types :: "string json list" where
  "slot_types = [JStr ROOT_X86_64, JStr ROOT_X86_64_VERITY]"

text \<open>
  The populated partitions with their types, in the order of the file. The type GUID of a
  partition becomes a dictionary key, so one that is a list or an object raises \<^verbatim>\<open>TypeError\<close>.
\<close>

fun populated :: "string json list \<Rightarrow> verity_error + (string json \<times> string json) list" where
  "populated [] = Inr []"
| "populated (p # ps) =
     (case p of
        JObj kvs \<Rightarrow>
          rbind (json_key ''type_guid'' p) (\<lambda>guid.
            if map_of kvs ''label'' = Some (JStr ''_empty'') \<and> guid \<in> set slot_types then populated ps
            else (case guid of
                JList _ \<Rightarrow> Inl Shape_error
              | JObj _ \<Rightarrow> Inl Shape_error
              | _ \<Rightarrow> rbind (populated ps) (\<lambda>rest. Inr ((guid, p) # rest))))
      | _ \<Rightarrow> Inl Shape_error)"

definition of_type :: "string \<Rightarrow> (string json \<times> string json) list \<Rightarrow> string json list" where
  "of_type guid ps = map snd (filter (\<lambda>(t, p). t = JStr guid) ps)"

definition root_partitions :: "string json \<Rightarrow> verity_error + string json \<times> string json" where
  "root_partitions metadata =
     rbind (json_key ''partitions'' metadata) (\<lambda>partitions.
       case partitions of
         JList ps \<Rightarrow>
           rbind (populated ps) (\<lambda>by_type.
             case (of_type ROOT_X86_64 by_type, of_type ROOT_X86_64_VERITY by_type) of
               ([r], [h]) \<Rightarrow>
                 if of_type ROOT_X86_64_VERITY_SIG by_type \<noteq> [] then Inl Signature_partition else Inr (r, h)
             | _ \<Rightarrow> Inl Not_one_root_pair)
       | _ \<Rightarrow> Inl Shape_error)"

definition artifact_sizes ::
    "bytes \<Rightarrow> bytes \<Rightarrow> string json \<Rightarrow> string json \<Rightarrow> verity_error + int \<times> int" where
  "artifact_sizes root_image hash_image root_partition hash_partition =
     (if MAX_ARTIFACT_BYTES < len root_image \<or> MAX_ARTIFACT_BYTES < len hash_image then Inl Artifact_too_large
      else
        rbind (json_key ''size_bytes'' root_partition) (\<lambda>root_size.
        if \<not> json_eq_int root_size (len root_image) then Inl Root_size_mismatch
        else
          rbind (json_key ''size_bytes'' hash_partition) (\<lambda>hash_size.
          if \<not> json_eq_int hash_size (len hash_image) then Inl Hash_size_mismatch
          else Inr (len root_image, len hash_image))))"

definition all_zero :: "bytes \<Rightarrow> bool" where
  "all_zero bs \<longleftrightarrow> list_all (\<lambda>b. b = 0) bs"

definition check_superblock_padding :: "bytes \<Rightarrow> int \<Rightarrow> verity_error + unit" where
  "check_superblock_padding hash_image tree_offset =
     (let header_block = py_slice hash_image 0 tree_offset
      in if len header_block \<noteq> tree_offset \<or> \<not> all_zero (drop (nat SUPERBLOCK_SIZE) header_block)
      then Inl Padding_not_zero else Inr ())"

definition check_zero_trailer :: "bytes \<Rightarrow> int \<Rightarrow> string \<Rightarrow> verity_error + unit" where
  "check_zero_trailer data offset name =
     (if \<not> all_zero (drop (nat offset) data) then Inl (Trailing_bytes name) else Inr ())"

definition artifact :: "(bytes \<Rightarrow> string) \<Rightarrow> bytes \<Rightarrow> int \<Rightarrow> string json" where
  "artifact sha256 data n = JObj [(''sha256'', JStr (sha256 data)), (''size'', JInt n)]"

text \<open>
  \<open>root_hash_file\<close> is the content of the root hash file, \<open>root_hash_text\<close> its decoded text; the
  metadata is the decoded partition metadata file.
\<close>

definition project ::
    "hashes \<Rightarrow> (bytes \<Rightarrow> string) \<Rightarrow> bytes \<Rightarrow> string \<Rightarrow> string json option \<Rightarrow> bytes \<Rightarrow> bytes \<Rightarrow> verity_error + string json" where
  "project hash_new sha256 root_hash_file root_hash_text metadata root_image hash_image =
     (let root_hash = str_lower (strip root_hash_text)
      in rbind (case metadata of None \<Rightarrow> Inl Metadata_not_json | Some m \<Rightarrow> root_partitions m) (\<lambda>(root_partition, hash_partition).
         rbind (artifact_sizes root_image hash_image root_partition hash_partition) (\<lambda>(root_size, hash_size).
         rbind (read_superblock hash_new hash_image) (\<lambda>g.
           if root_size < v_data_blocks g * v_data_block_size g then Inl Geometry_exceeds_root
           else
             rbind (check_zero_trailer root_image (v_data_blocks g * v_data_block_size g) ''root'') (\<lambda>_.
             let tree_offset = v_hash_block_size g
             in rbind (check_superblock_padding hash_image tree_offset) (\<lambda>_.
                rbind (verify_tree hash_new root_image hash_image g tree_offset) (\<lambda>(levels, verified_root, tree_size).
                rbind (check_zero_trailer hash_image (tree_offset + tree_size) ''hash'') (\<lambda>_.
                  if root_hash \<noteq> hex verified_root then Inl Root_hash_mismatch
                  else
                    rbind (json_key ''number'' root_partition) (\<lambda>data_partition.
                    rbind (json_key ''number'' hash_partition) (\<lambda>hash_number.
                      Inr (JObj [
                        (''artifacts'', JObj [(''root'', artifact sha256 root_image root_size),
                           (''root_hash'', artifact sha256 root_hash_file (len root_hash_file)),
                           (''verity'', artifact sha256 hash_image hash_size)]),
                        (''data_block_size'', JInt (v_data_block_size g)), (''data_blocks'', JInt (v_data_blocks g)),
                        (''data_partition'', data_partition), (''digest_size'', JInt (v_digest_size g)),
                        (''digest_slot_size'', JInt (v_slot_size g)),
                        (''format_version'', JStr ''mkosi-verity-metadata-v2''),
                        (''hash_algorithm'', JStr (v_algorithm g)), (''hash_block_size'', JInt (v_hash_block_size g)),
                        (''hash_levels'', JInt (len levels)), (''hash_partition'', hash_number),
                        (''root_hash'', JStr root_hash), (''salt'', JStr (hex (v_salt g))),
                        (''signature_partition'', JNull), (''tree_offset'', JInt tree_offset),
                        (''tree_size'', JInt tree_size)])))))))))))"

end
