(* ===== verification/Verity_Tree.thy ===== *)
theory Verity_Tree
  imports Verity_Metadata
begin

text \<open>
  The hash tree that dm-verity defines, and that the streaming verifier accepts exactly it: the
  leaf digests of the data blocks, packed into zero-padded hash blocks, level by level up to a
  single digest, and the levels stored top first.
\<close>

section \<open>The tree\<close>

function chunks :: "nat \<Rightarrow> 'a list \<Rightarrow> 'a list list" where
  "chunks n xs = (if xs = [] \<or> n = 0 then [] else take n xs # chunks n (drop n xs))"
  by pat_completeness auto

termination chunks
  by (relation "measure (\<lambda>(n, xs). length xs)") auto

declare chunks.simps [simp del]

lemma chunks_Nil [simp]: "chunks n [] = []"
  by (simp add: chunks.simps)

lemma concat_chunks: "0 < n \<Longrightarrow> concat (chunks n xs) = xs"
  by (induction n xs rule: chunks.induct) (simp add: chunks.simps)

lemma length_chunks:
  assumes "0 < n"
  shows "length (chunks n xs) = (length xs + n - 1) div n"
  using assms
proof (induction n xs rule: chunks.induct)
  case (1 n xs)
  show ?case
  proof (cases "xs = []")
    case False
    have "length (chunks n xs) = Suc ((length xs - n + n - 1) div n)"
      using 1 False by (simp add: chunks.simps [of n xs])
    also have "\<dots> = (length xs + n - 1) div n"
    proof (cases "n \<le> length xs")
      case True
      then have e: "length xs + n - 1 = (length xs - n + n - 1) + n" using 1(2) by simp
      show ?thesis unfolding e using div_add_self2 [of n "length xs - n + n - 1"] 1(2) by linarith
    next
      case small: False
      have "(length xs + n - 1) div n = 1"
        using small False by (intro div_nat_eqI) (cases xs; simp)+
      moreover have "(length xs - n + n - 1) div n = 0" using small 1(2) by simp
      ultimately show ?thesis by simp
    qed
    finally show ?thesis .
  qed (use 1(2) in simp)
qed

definition pack :: "verity_geometry \<Rightarrow> bytes list \<Rightarrow> bytes" where
  "pack g ds =
     (let b = concat (map (\<lambda>d. d @ zeros (nat (v_slot_size g - v_digest_size g))) ds)
      in b @ zeros (nat (v_hash_block_size g - len b)))"

definition level_blocks :: "verity_geometry \<Rightarrow> bytes list \<Rightarrow> bytes list" where
  "level_blocks g ds = map (pack g) (chunks (nat (per_block g)) ds)"

fun tree_levels :: "verity_geometry \<Rightarrow> (bytes \<Rightarrow> bytes) \<Rightarrow> nat \<Rightarrow> bytes list \<Rightarrow> bytes list list \<times> bytes list" where
  "tree_levels g H 0 ds = ([], ds)"
| "tree_levels g H (Suc n) ds =
     (let blocks = level_blocks g ds; (levels, top) = tree_levels g H n (map H blocks) in (blocks # levels, top))"

definition leaves :: "verity_geometry \<Rightarrow> (bytes \<Rightarrow> bytes) \<Rightarrow> bytes \<Rightarrow> bytes list" where
  "leaves g H root_image =
     map H (chunks (nat (v_data_block_size g)) (take (nat (v_data_blocks g * v_data_block_size g)) root_image))"

text \<open>The bytes of the tree in the hash artifact.\<close>

definition tree_bytes :: "bytes list list \<Rightarrow> bytes" where
  "tree_bytes levels = concat (map concat (rev levels))"

section \<open>Well-formed geometry\<close>

definition geometry_ok :: "verity_geometry \<Rightarrow> bool" where
  "geometry_ok g \<longleftrightarrow> 0 \<le> v_digest_size g \<and> v_digest_size g \<le> v_slot_size g \<and> 0 < v_slot_size g \<and>
     v_slot_size g \<le> v_hash_block_size g \<and> v_slot_size g dvd v_hash_block_size g \<and>
     0 < v_data_block_size g \<and> 0 < v_data_blocks g"

definition digests_with :: "hashes \<Rightarrow> verity_geometry \<Rightarrow> (bytes \<Rightarrow> bytes) \<Rightarrow> bool" where
  "digests_with hash_new g H \<longleftrightarrow> (\<forall>x. salted_digest hash_new g x = Inr (H x) \<and> len (H x) = v_digest_size g)"

lemma per_block_pos: "geometry_ok g \<Longrightarrow> 0 < per_block g"
  by (simp add: geometry_ok_def per_block_def pos_imp_zdiv_pos_iff)

lemma length_pack:
  assumes "geometry_ok g" "list_all (\<lambda>d. len d = v_digest_size g) ds" "len ds \<le> per_block g"
  shows "len (pack g ds) = v_hash_block_size g"
proof -
  let ?b = "concat (map (\<lambda>d. d @ zeros (nat (v_slot_size g - v_digest_size g))) ds)"
  have "length ?b = length ds * nat (v_slot_size g)"
  proof -
    have "length ?b = length (map (\<lambda>d. d @ zeros (nat (v_slot_size g - v_digest_size g))) ds) * nat (v_slot_size g)"
      using assms(1,2) by (intro length_concat_equal) (auto simp: geometry_ok_def list_all_iff)
    then show ?thesis by simp
  qed
  moreover have "len ds * v_slot_size g \<le> v_hash_block_size g"
  proof -
    have "len ds * v_slot_size g \<le> per_block g * v_slot_size g"
      using assms(1,3) by (intro mult_right_mono) (auto simp: geometry_ok_def)
    also have "\<dots> = v_hash_block_size g" using assms(1) by (simp add: geometry_ok_def per_block_def)
    finally show ?thesis .
  qed
  ultimately have "len ?b \<le> v_hash_block_size g" using assms(1) by (simp add: geometry_ok_def)
  then show ?thesis by (simp add: pack_def Let_def)
qed

section \<open>One level\<close>

lemma expected_digests_take:
  "n \<le> length ds \<Longrightarrow> expected_digests g n ds =
     Inr (concat (map (\<lambda>d. d @ zeros (nat (v_slot_size g - v_digest_size g))) (take n ds)), drop n ds)"
  by (induction g n ds rule: expected_digests.induct) simp_all

lemma expected_block_pack: "n \<le> length ds \<Longrightarrow> expected_block g n ds = Inr (pack g (take n ds), drop n ds)"
  by (simp add: expected_block_def expected_digests_take pack_def Let_def)

lemma take_eq_append:
  assumes "length b = k"
  shows "take (k + m) xs = b @ c \<longleftrightarrow> take k xs = b \<and> take m (drop k xs) = c"
proof
  assume a: "take (k + m) xs = b @ c"
  from arg_cong [OF this, of "take k"] arg_cong [OF this, of "drop k"] assms
  show "take k xs = b \<and> take m (drop k xs) = c" by (simp add: min_def drop_take)
qed (simp add: take_add)

lemma list_all_take_drop: "list_all P xs \<Longrightarrow> list_all P (take n xs) \<and> list_all P (drop n xs)"
  by (metis append_take_drop_id list_all_append)

lemma verify_level_loop_exact:
  assumes "geometry_ok g" "digests_with hash_new g H" "list_all (\<lambda>d. len d = v_digest_size g) current"
    "digest_count - consumed = len current" "n = length (level_blocks g current)"
  shows "verify_level_loop hash_new g level i n digest_count consumed current emitted = Inr out \<longleftrightarrow>
    take (n * nat (v_hash_block_size g)) emitted = concat (level_blocks g current) \<and>
    out = map H (level_blocks g current)"
  using assms(3-5)
proof (induction n arbitrary: i consumed current emitted out)
  case 0
  then show ?case by auto
next
  case (Suc n)
  note pb = per_block_pos [OF assms(1)]
  let ?k = "nat (per_block g)" and ?bs = "nat (v_hash_block_size g)"
  from Suc.prems(3) have ne: "current \<noteq> []" by (auto simp: level_blocks_def)
  with pb have lv: "level_blocks g current = pack g (take ?k current) # level_blocks g (drop ?k current)"
    by (simp add: level_blocks_def chunks.simps [of ?k current])
  define ds where "ds = take ?k current"
  have m: "nat (min (per_block g) (digest_count - consumed)) = min ?k (length current)"
    using Suc.prems(2) pb by simp
  then have eb: "expected_block g (nat (min (per_block g) (digest_count - consumed))) current =
      Inr (pack g ds, drop ?k current)"
    using expected_block_pack [of "min ?k (length current)" current g] by (simp add: ds_def min_def)
  have len_pack: "length (pack g ds) = ?bs"
  proof -
    have "list_all (\<lambda>d. len d = v_digest_size g) ds" "len ds \<le> per_block g"
      using Suc.prems(1) list_all_take_drop pb by (auto simp: ds_def)
    from length_pack [OF assms(1) this] show ?thesis by simp
  qed
  have next_count: "digest_count - (consumed + min (per_block g) (digest_count - consumed)) = len (drop ?k current)"
    using Suc.prems(2) pb by auto
  have IH: "verify_level_loop hash_new g level (Suc i) n digest_count
      (consumed + min (per_block g) (digest_count - consumed)) (drop ?k current) (drop ?bs emitted) = Inr out' \<longleftrightarrow>
      take (n * ?bs) (drop ?bs emitted) = concat (level_blocks g (drop ?k current)) \<and>
      out' = map H (level_blocks g (drop ?k current))" for out'
    using Suc.prems(1,3) lv list_all_take_drop by (intro Suc.IH next_count) auto
  have "take (Suc n * ?bs) emitted = concat (level_blocks g current) \<longleftrightarrow>
      take ?bs emitted = pack g ds \<and> take (n * ?bs) (drop ?bs emitted) = concat (level_blocks g (drop ?k current))"
    using take_eq_append [OF len_pack, of "n * ?bs" emitted] by (simp add: lv ds_def)
  then show ?case
    using assms(2) by (auto simp: eb IH lv ds_def digests_with_def Let_def)
qed

lemma digests_ok: "digests_with hash_new g H \<Longrightarrow> list_all (\<lambda>d. len d = v_digest_size g) (map H xs)"
  by (simp add: digests_with_def list_all_iff)

lemma length_level_blocks:
  assumes "geometry_ok g"
  shows "len (level_blocks g ds) = (len ds + per_block g - 1) div per_block g"
proof -
  have p: "0 < nat (per_block g)" using per_block_pos [OF assms] by simp
  have "int (length ds + nat (per_block g) - 1) = len ds + per_block g - 1"
    using per_block_pos [OF assms] by simp
  then show ?thesis
    using length_chunks [OF p, of ds] per_block_pos [OF assms] by (simp add: level_blocks_def zdiv_int)
qed

lemma length_level_bytes:
  assumes "geometry_ok g" "list_all (\<lambda>d. len d = v_digest_size g) ds"
  shows "length (concat (level_blocks g ds)) = length (level_blocks g ds) * nat (v_hash_block_size g)"
proof -
  have "list_all (\<lambda>d. len d = v_digest_size g) c \<and> len c \<le> per_block g"
    if "c \<in> set (chunks (nat (per_block g)) ds)" for c
    using that assms(2)
  proof (induction "nat (per_block g)" ds rule: chunks.induct)
    case (1 xs)
    show ?case
    proof (cases "c = take (nat (per_block g)) xs")
      case True
      then show ?thesis using 1(3) list_all_take_drop per_block_pos [OF assms(1)] by auto
    next
      case False
      with 1(2) have "c \<in> set (chunks (nat (per_block g)) (drop (nat (per_block g)) xs))" "xs \<noteq> []"
        by (auto simp: chunks.simps [of _ xs] split: if_split_asm)
      moreover have "list_all (\<lambda>d. len d = v_digest_size g) (drop (nat (per_block g)) xs)"
        using 1(3) list_all_take_drop by blast
      ultimately show ?thesis using 1(1) per_block_pos [OF assms(1)] by simp
    qed
  qed
  then have "length b = nat (v_hash_block_size g)" if "b \<in> set (level_blocks g ds)" for b
    using that length_pack [OF assms(1)] by (fastforce simp: level_blocks_def)
  then show ?thesis by (rule length_concat_equal)
qed

section \<open>All levels\<close>

text \<open>The counts of the levels above \<open>d\<close> digests.\<close>

fun counts_chain :: "int \<Rightarrow> int \<Rightarrow> int list \<Rightarrow> bool" where
  "counts_chain per d [] \<longleftrightarrow> d \<le> 1"
| "counts_chain per d (c # cs) \<longleftrightarrow> 1 < d \<and> c = (d + per - 1) div per \<and> counts_chain per c cs"

lemma level_counts_loop_chain:
  "level_counts_loop acc d per = Inr counts \<Longrightarrow> \<exists>cs. counts = acc @ cs \<and> counts_chain per d cs"
proof (induction acc d per rule: level_counts_loop.induct)
  case (1 acc d per)
  show ?case
  proof (cases "1 < d")
    case True
    with 1(2) have "level_counts_loop (acc @ [(d + per - 1) div per]) ((d + per - 1) div per) per = Inr counts"
      "\<not> MAX_LEVELS < length acc + 1"
      by (auto simp: level_counts_loop.simps [of acc d per] Let_def split: if_split_asm)
    with 1(1) [OF True refl] obtain cs where "counts = (acc @ [(d + per - 1) div per]) @ cs"
      "counts_chain per ((d + per - 1) div per) cs" by blast
    with True show ?thesis by (intro exI [of _ "(d + per - 1) div per # cs"]) simp
  next
    case False
    with 1(2) show ?thesis by (intro exI [of _ "[]"]) (simp add: level_counts_loop.simps [of acc d per])
  qed
qed

lemma level_counts_chain: "level_counts d per = Inr counts \<Longrightarrow> counts_chain per d counts"
  using level_counts_loop_chain [of "[]"] by (auto simp: level_counts_def)

text \<open>Each level is stored behind all the levels above it.\<close>

fun offsets_of :: "int \<Rightarrow> int \<Rightarrow> int list \<Rightarrow> int list" where
  "offsets_of off bs [] = []"
| "offsets_of off bs (c # cs) = (off + sum_list cs * bs) # offsets_of off bs cs"

lemma level_offsets_loop_append:
  "level_offsets_loop (xs @ [c]) off bs p =
     (fst (level_offsets_loop xs off bs p) @ [off + (p + sum_list xs) * bs], p + sum_list xs + c)"
  by (induction xs arbitrary: p) (simp_all add: split_beta Let_def algebra_simps)

lemma level_offsets_loop_total: "snd (level_offsets_loop xs off bs p) = p + sum_list xs"
  by (induction xs arbitrary: p) (simp_all add: split_beta Let_def)

lemma level_offsets_eq: "level_offsets counts off bs = (offsets_of off bs counts, sum_list counts * bs)"
proof -
  have "rev (fst (level_offsets_loop (rev counts) off bs 0)) = offsets_of off bs counts"
    by (induction counts) (simp_all add: level_offsets_loop_append sum_list_rev)
  then show ?thesis
    by (simp add: level_offsets_def split_beta level_offsets_loop_total sum_list_rev)
qed

lemma chain_count:
  assumes "geometry_ok g" "counts_chain (per_block g) (len ds) (c # cs)"
  shows "c = len (level_blocks g ds)"
  using assms by (simp add: length_level_blocks)

lemma counts_nonneg: "0 < per \<Longrightarrow> counts_chain per d cs \<Longrightarrow> 0 \<le> sum_list cs"
  by (induction per d cs rule: counts_chain.induct) (auto intro!: add_nonneg_nonneg simp: pos_imp_zdiv_nonneg_iff)

lemma tree_bytes_Cons: "tree_bytes (l # ls) = tree_bytes ls @ concat l"
  by (simp add: tree_bytes_def)

lemma length_tree_bytes:
  assumes "geometry_ok g" "digests_with hash_new g H"
    and "list_all (\<lambda>d. len d = v_digest_size g) ds" "counts_chain (per_block g) (len ds) counts"
  shows "len (tree_bytes (fst (tree_levels g H (length counts) ds))) = sum_list counts * v_hash_block_size g"
  using assms(3,4)
proof (induction counts arbitrary: ds)
  case (Cons c cs)
  have c: "c = len (level_blocks g ds)" by (rule chain_count [OF assms(1) Cons.prems(2)])
  have "len (tree_bytes (fst (tree_levels g H (length cs) (map H (level_blocks g ds))))) = sum_list cs * v_hash_block_size g"
    using Cons.prems(2) digests_ok [OF assms(2)] unfolding c by (intro Cons.IH) auto
  moreover have "0 \<le> v_hash_block_size g" using assms(1) by (simp add: geometry_ok_def)
  ultimately show ?case
    using length_level_bytes [OF assms(1) Cons.prems(1)] by (simp add: c tree_bytes_Cons split_beta Let_def algebra_simps)
qed (simp add: tree_bytes_def)

lemma verify_levels_exact:
  assumes "geometry_ok g" "digests_with hash_new g H" "0 \<le> off"
    and "list_all (\<lambda>d. len d = v_digest_size g) ds" "counts_chain (per_block g) (len ds) counts"
  shows "verify_levels hash_new g img level (zip counts (offsets_of off (v_hash_block_size g) counts)) ds (len ds) = Inr out \<longleftrightarrow>
    out = snd (tree_levels g H (length counts) ds) \<and>
    take (nat (sum_list counts * v_hash_block_size g)) (drop (nat off) img) =
      tree_bytes (fst (tree_levels g H (length counts) ds))"
  using assms(4,5)
proof (induction counts arbitrary: level ds)
  case (Cons c cs)
  let ?bs = "v_hash_block_size g" and ?lv = "level_blocks g ds"
  have c: "c = len ?lv" by (rule chain_count [OF assms(1) Cons.prems(2)])
  have bs: "0 \<le> ?bs" using assms(1) by (simp add: geometry_ok_def)
  have chain: "counts_chain (per_block g) (len (map H ?lv)) cs"
    using Cons.prems(2) unfolding c counts_chain.simps length_map by blast
  then have pos: "0 \<le> sum_list cs" by (rule counts_nonneg [OF per_block_pos [OF assms(1)]])
  have one: "verify_level hash_new g level c ds (len ds) (drop (nat (off + sum_list cs * ?bs)) img) = Inr spool \<longleftrightarrow>
      take (nat (c * ?bs)) (drop (nat (off + sum_list cs * ?bs)) img) = concat ?lv \<and> spool = map H ?lv" for spool
    using verify_level_loop_exact [OF assms(1,2) Cons.prems(1), of "len ds" 0 "length ?lv"] bs
    by (simp add: verify_level_def c nat_mult_distrib)
  have "length (tree_bytes (fst (tree_levels g H (length cs) (map H ?lv)))) = nat (sum_list cs * ?bs)"
    using length_tree_bytes [OF assms(1,2) digests_ok [OF assms(2)] chain] by simp
  note split = take_eq_append [OF this, of "nat (c * ?bs)" "drop (nat off) img" "concat ?lv"]
  have "nat (sum_list cs * ?bs) + nat (c * ?bs) = nat (sum_list (c # cs) * ?bs)"
    "nat (sum_list cs * ?bs) + nat off = nat (off + sum_list cs * ?bs)"
    using pos bs assms(3) by (simp_all add: c nat_add_distrib flip: nat_add_distrib distrib_right) (simp add: add.commute)
  then have "take (nat (sum_list (c # cs) * ?bs)) (drop (nat off) img) = tree_bytes (fst (tree_levels g H (length (c # cs)) ds)) \<longleftrightarrow>
      take (nat (sum_list cs * ?bs)) (drop (nat off) img) = tree_bytes (fst (tree_levels g H (length cs) (map H ?lv))) \<and>
      take (nat (c * ?bs)) (drop (nat (off + sum_list cs * ?bs)) img) = concat ?lv"
    using split by (simp add: tree_bytes_Cons split_beta Let_def)
  moreover have "verify_levels hash_new g img level (zip (c # cs) (offsets_of off ?bs (c # cs))) ds (len ds) = Inr out \<longleftrightarrow>
      take (nat (c * ?bs)) (drop (nat (off + sum_list cs * ?bs)) img) = concat ?lv \<and>
      verify_levels hash_new g img (Suc level) (zip cs (offsets_of off ?bs cs)) (map H ?lv) c = Inr out"
    using one by auto
  moreover have "verify_levels hash_new g img (Suc level) (zip cs (offsets_of off ?bs cs)) (map H ?lv) c = Inr out \<longleftrightarrow>
      out = snd (tree_levels g H (length (c # cs)) ds) \<and>
      take (nat (sum_list cs * ?bs)) (drop (nat off) img) = tree_bytes (fst (tree_levels g H (length cs) (map H ?lv)))"
    using Cons.IH [OF digests_ok [OF assms(2)] chain, of "Suc level"] by (simp add: c split_beta Let_def)
  ultimately show ?case by blast
qed (auto simp: tree_bytes_def)

lemma leaf_digests_exact:
  assumes "digests_with hash_new g H" "0 < v_data_block_size g"
  shows "leaf_digests hash_new g n source = Inr ds \<longleftrightarrow>
    n * nat (v_data_block_size g) \<le> length source \<and>
    ds = map H (chunks (nat (v_data_block_size g)) (take (n * nat (v_data_block_size g)) source))"
proof (induction n arbitrary: source ds)
  case (Suc n)
  let ?b = "nat (v_data_block_size g)"
  have "chunks ?b (take (Suc n * ?b) source) = take ?b source # chunks ?b (take (n * ?b) (drop ?b source))"
    if "Suc n * ?b \<le> length source"
    using that assms(2) by (subst chunks.simps) (auto simp: min_def drop_take)
  moreover have "len (take ?b source) = v_data_block_size g \<longleftrightarrow> ?b \<le> length source"
    using assms(2) by (auto simp: min_def)
  ultimately show ?case using assms(1) Suc.IH by (auto simp: Let_def digests_with_def)
qed auto

lemma level_lengths:
  assumes "geometry_ok g"
  shows "counts_chain (per_block g) (len ds) counts \<Longrightarrow>
    map (\<lambda>l. len l) (fst (tree_levels g H (length counts) ds)) = counts"
proof (induction counts arbitrary: ds)
  case (Cons c cs)
  have c: "c = len (level_blocks g ds)" by (rule chain_count [OF assms Cons.prems])
  have "counts_chain (per_block g) (len (map H (level_blocks g ds))) cs"
    using Cons.prems unfolding c counts_chain.simps length_map by blast
  from Cons.IH [OF this] show ?case by (simp add: c split_beta Let_def)
qed simp

section \<open>Accepted artifacts\<close>

text \<open>
  What \<^verbatim>\<open>hashlib\<close> documents: a digest size is not negative, and the digest of an algorithm is always
  of that size, unless the algorithm has no fixed size and gives none.
\<close>

definition hashes_ok :: "hashes \<Rightarrow> bool" where
  "hashes_ok hash_new \<longleftrightarrow>
     (\<forall>a n f. hash_new a = Some (n, f) \<longrightarrow>
        0 \<le> n \<and> ((\<forall>x. f x = None) \<or> (\<forall>x. \<exists>d. f x = Some d \<and> len d = n)))"

lemma slot_holds_digest: "0 \<le> d \<Longrightarrow> d \<le> 2 ^ py_bit_length (d - 1)"
proof -
  assume "0 \<le> d"
  have "int (nat \<bar>d - 1\<bar>) < int (2 ^ py_bit_length (d - 1))"
    unfolding py_bit_length_def using bit_length_bound by (simp only: of_nat_less_iff)
  then show ?thesis using \<open>0 \<le> d\<close> by simp
qed

lemma read_superblock_ok:
  assumes "hashes_ok hash_new" "read_superblock hash_new img = Inr g"
  shows "geometry_ok g" "hash_new (v_algorithm g) \<noteq> None"
proof -
  obtain algorithm n f dbs hbs slot blocks where h: "hash_new algorithm = Some (n, f)" "slot_size dbs hbs n = Inr slot"
    and g: "v_algorithm g = algorithm" "v_data_block_size g = dbs" "v_hash_block_size g = hbs" "v_slot_size g = slot"
      "v_digest_size g = n" "v_data_blocks g = blocks" "0 \<le> blocks" "blocks \<noteq> 0"
    using assms(2) unfolding read_superblock_def Let_def digest_size_of_def
    by (auto split: if_split_asm option.split_asm)
  have n: "0 \<le> n" using assms(1) h(1) unfolding hashes_ok_def by blast
  from h(2) have "slot = 2 ^ py_bit_length (n - 1)" "512 \<le> dbs" "slot \<le> hbs" "hbs mod slot = 0"
    by (auto simp: slot_size_def Let_def split: if_split_asm)
  with n slot_holds_digest [OF n] show "geometry_ok g" using g by (auto simp: geometry_ok_def)
  show "hash_new (v_algorithm g) \<noteq> None" using h(1) g(1) by simp
qed

lemma leaf_digests_total:
  assumes "hashes_ok hash_new" "leaf_digests hash_new g n source = Inr ds" "0 < n"
    and "fst (the (hash_new (v_algorithm g))) = v_digest_size g"
  obtains H where "digests_with hash_new g H"
proof -
  from assms(2,3) obtain block d where d: "salted_digest hash_new g block = Inr d"
    by (cases n) (auto simp: Let_def split: if_split_asm)
  then obtain m f where f: "hash_new (v_algorithm g) = Some (m, f)" "f (v_salt g @ block) = Some d"
    by (auto simp: salted_digest_def split: option.split_asm)
  then have total: "\<exists>d. f x = Some d \<and> len d = m" for x
    using assms(1) unfolding hashes_ok_def by fastforce
  have "salted_digest hash_new g x = Inr (the (f (v_salt g @ x))) \<and> len (the (f (v_salt g @ x))) = v_digest_size g" for x
    using total [of "v_salt g @ x"] assms(4) f(1) by (auto simp: salted_digest_def)
  then have "digests_with hash_new g (\<lambda>x. the (f (v_salt g @ x)))" unfolding digests_with_def by blast
  then show thesis by (rule that)
qed

lemma read_superblock_digest:
  "read_superblock hash_new img = Inr g \<Longrightarrow> fst (the (hash_new (v_algorithm g))) = v_digest_size g"
  unfolding read_superblock_def Let_def digest_size_of_def by (auto split: if_split_asm option.split_asm)

lemma read_root_digest_Inr: "read_root_digest spool = Inr r \<longleftrightarrow> spool = [r]"
  by (auto simp: read_root_digest_def split: list.split)

lemma verify_tree_exact:
  assumes "geometry_ok g" "digests_with hash_new g H" "0 \<le> off"
    and "verify_tree hash_new root_image hash_image g off = Inr (counts, root, n)"
  obtains levels where "level_counts (v_data_blocks g) (per_block g) = Inr (map (\<lambda>l. len l) levels)"
    "counts = map (\<lambda>l. len l) levels"
    "tree_levels g H (length levels) (leaves g H root_image) = (levels, [root])"
    "take (nat n) (drop (nat off) hash_image) = tree_bytes levels" "n = len (tree_bytes levels)"
proof -
  let ?bs = "v_hash_block_size g" and ?ds = "leaves g H root_image"
  obtain leaf where l: "level_counts (v_data_blocks g) (per_block g) = Inr counts"
    and n: "n = sum_list counts * ?bs"
    and leaf: "leaf_digests hash_new g (nat (v_data_blocks g)) root_image = Inr leaf"
    and v: "verify_levels hash_new g hash_image 0 (zip counts (offsets_of off ?bs counts)) leaf (v_data_blocks g) = Inr [root]"
    using assms(4) unfolding verify_tree_def by (auto simp: level_offsets_eq read_root_digest_Inr)
  have pos: "0 < v_data_block_size g" "0 < v_data_blocks g" using assms(1) by (auto simp: geometry_ok_def)
  have bytes: "nat (v_data_blocks g) * nat (v_data_block_size g) = nat (v_data_blocks g * v_data_block_size g)"
    using pos by (simp add: nat_mult_distrib)
  from leaf [unfolded leaf_digests_exact [OF assms(2) pos(1)] bytes]
  have leaf_eq: "leaf = ?ds" and enough: "nat (v_data_blocks g * v_data_block_size g) \<le> length root_image"
    by (simp_all add: leaves_def)
  have "length ?ds = nat (v_data_blocks g)"
  proof -
    have "length ?ds = (nat (v_data_blocks g) * nat (v_data_block_size g) + nat (v_data_block_size g) - 1) div nat (v_data_block_size g)"
      using pos enough by (simp add: leaves_def length_chunks bytes)
    also have "\<dots> = nat (v_data_blocks g)"
      using pos(1) by (intro div_nat_eqI) (simp_all add: algebra_simps)
    finally show ?thesis .
  qed
  then have blocks: "len ?ds = v_data_blocks g" using pos by simp
  have chain: "counts_chain (per_block g) (len ?ds) counts" using level_counts_chain [OF l] by (simp add: blocks)
  have ok: "list_all (\<lambda>d. len d = v_digest_size g) ?ds" using digests_ok [OF assms(2)] by (simp add: leaves_def)
  from v [unfolded leaf_eq blocks [symmetric] verify_levels_exact [OF assms(1,2,3) ok chain]]
  have t: "[root] = snd (tree_levels g H (length counts) ?ds)"
    "take (nat n) (drop (nat off) hash_image) = tree_bytes (fst (tree_levels g H (length counts) ?ds))"
    by (simp_all add: n)
  note lens = level_lengths [OF assms(1) chain, of H]
  have "length (fst (tree_levels g H (length counts) ?ds)) = length counts" using lens by (metis length_map)
  then show thesis
    using that [of "fst (tree_levels g H (length counts) ?ds)"] l t lens length_tree_bytes [OF assms(1,2) ok chain]
    by (simp add: n)
qed

lemma all_zero_zeros: "all_zero bs \<Longrightarrow> bs = zeros (length bs)"
  unfolding all_zero_def zeros_def list_all_iff by (intro replicate_eqI) auto

lemma project_parts:
  assumes "project hash_new sha256 root_hash_file root_hash_text metadata root_image hash_image = Inr md"
  obtains g counts root n where "read_superblock hash_new hash_image = Inr g"
    "v_data_blocks g * v_data_block_size g \<le> len root_image"
    "all_zero (drop (nat (v_data_blocks g * v_data_block_size g)) root_image)"
    "v_hash_block_size g \<le> len hash_image" "all_zero (drop 512 (take (nat (v_hash_block_size g)) hash_image))"
    "verify_tree hash_new root_image hash_image g (v_hash_block_size g) = Inr (counts, root, n)"
    "all_zero (drop (nat (v_hash_block_size g + n)) hash_image)" "str_lower (strip root_hash_text) = hex root"
proof -
  obtain m r h rs hs g counts root n where p: "artifact_sizes root_image hash_image r h = Inr (rs, hs)"
    and g: "read_superblock hash_new hash_image = Inr g" "\<not> rs < v_data_blocks g * v_data_block_size g"
    and z: "check_zero_trailer root_image (v_data_blocks g * v_data_block_size g) ''root'' = Inr ()"
      "check_superblock_padding hash_image (v_hash_block_size g) = Inr ()"
      "verify_tree hash_new root_image hash_image g (v_hash_block_size g) = Inr (counts, root, n)"
      "check_zero_trailer hash_image (v_hash_block_size g + n) ''hash'' = Inr ()"
      "str_lower (strip root_hash_text) = hex root"
    using assms unfolding project_def Let_def by (auto split: if_split_asm)
  have "rs = len root_image" using p by (auto simp: artifact_sizes_def split: if_split_asm)
  moreover have "0 \<le> v_hash_block_size g"
    using g(1) unfolding read_superblock_def Let_def by (auto split: if_split_asm option.split_asm)
  ultimately show thesis
    using g z by (intro that [of g counts root n])
      (auto simp: check_zero_trailer_def check_superblock_padding_def SUPERBLOCK_SIZE_def Let_def slice_nonneg min_def
        split: if_split_asm)
qed

text \<open>
  C23: An accepted pair of artifacts is the canonical dm-verity image of its data: behind the first
  hash block the hash artifact holds exactly the hash tree recomputed from the data blocks of the
  root artifact, top level first, and then only zeros; the superblock is padded with zeros, the
  root artifact holds only zeros behind its data blocks, the level sizes are those of the geometry,
  and the supplied root hash is the digest at the top of this tree.
\<close>

theorem project_canonical:
  assumes "hashes_ok hash_new"
    and "project hash_new sha256 root_hash_file root_hash_text metadata root_image hash_image = Inr md"
  shows "\<exists>g H levels root. read_superblock hash_new hash_image = Inr g \<and> digests_with hash_new g H \<and>
    level_counts (v_data_blocks g) (per_block g) = Inr (map (\<lambda>l. len l) levels) \<and>
    tree_levels g H (length levels) (leaves g H root_image) = (levels, [root]) \<and>
    (\<exists>k. hash_image = take (nat (v_hash_block_size g)) hash_image @ tree_bytes levels @ zeros k) \<and>
    all_zero (drop 512 (take (nat (v_hash_block_size g)) hash_image)) \<and>
    (\<exists>k. root_image = take (nat (v_data_blocks g * v_data_block_size g)) root_image @ zeros k) \<and>
    str_lower (strip root_hash_text) = hex root"
proof -
  from project_parts [OF assms(2)] obtain g counts root n where p: "read_superblock hash_new hash_image = Inr g"
    "all_zero (drop (nat (v_data_blocks g * v_data_block_size g)) root_image)"
    "all_zero (drop 512 (take (nat (v_hash_block_size g)) hash_image))"
    "verify_tree hash_new root_image hash_image g (v_hash_block_size g) = Inr (counts, root, n)"
    "all_zero (drop (nat (v_hash_block_size g + n)) hash_image)" "str_lower (strip root_hash_text) = hex root"
    by metis
  note ok = read_superblock_ok(1) [OF assms(1) p(1)]
  have pos: "0 \<le> v_hash_block_size g" "0 < nat (v_data_blocks g)" using ok by (auto simp: geometry_ok_def)
  obtain leaf where "leaf_digests hash_new g (nat (v_data_blocks g)) root_image = Inr leaf"
    using p(4) unfolding verify_tree_def by (auto simp: split_beta Let_def)
  then obtain H where H: "digests_with hash_new g H"
    using leaf_digests_total [OF assms(1) _ pos(2) read_superblock_digest [OF p(1)]] by blast
  from verify_tree_exact [OF ok H pos(1) p(4)] obtain levels where l:
    "level_counts (v_data_blocks g) (per_block g) = Inr (map (\<lambda>l. len l) levels)"
    "tree_levels g H (length levels) (leaves g H root_image) = (levels, [root])"
    "take (nat n) (drop (nat (v_hash_block_size g)) hash_image) = tree_bytes levels" "n = len (tree_bytes levels)"
    by blast
  have "hash_image = take (nat (v_hash_block_size g)) hash_image @ take (nat n) (drop (nat (v_hash_block_size g)) hash_image)
      @ drop (nat n) (drop (nat (v_hash_block_size g)) hash_image)" by (simp only: append_take_drop_id)
  moreover have "drop (nat n) (drop (nat (v_hash_block_size g)) hash_image) = drop (nat (v_hash_block_size g + n)) hash_image"
    using l(4) pos(1) by (simp add: nat_add_distrib add.commute)
  ultimately have "\<exists>k. hash_image = take (nat (v_hash_block_size g)) hash_image @ tree_bytes levels @ zeros k"
    using all_zero_zeros [OF p(5)] l(3) by metis
  moreover have "\<exists>k. root_image = take (nat (v_data_blocks g * v_data_block_size g)) root_image @ zeros k"
    using all_zero_zeros [OF p(2)] append_take_drop_id by metis
  ultimately show ?thesis using p(1,3,6) l(1,2) H by blast
qed

section \<open>The level limit\<close>

lemma level_counts_loop_halves:
  "2 \<le> per \<Longrightarrow> d \<le> 2 ^ (MAX_LEVELS - length acc) \<Longrightarrow> length acc \<le> MAX_LEVELS \<Longrightarrow>
     \<exists>counts. level_counts_loop acc d per = Inr counts"
proof (induction acc d per rule: level_counts_loop.induct)
  case (1 acc d per)
  show ?case
  proof (cases "1 < d")
    case True
    with 1(3) have "length acc \<noteq> MAX_LEVELS" by auto
    then obtain k where k: "MAX_LEVELS - length acc = Suc k" using 1(4) by (cases "MAX_LEVELS - length acc") auto
    have "(d + per - 1) div per \<le> 2 ^ k"
    proof -
      have "d \<le> 2 * 2 ^ k" using 1(3) k by simp
      also have "\<dots> \<le> per * 2 ^ k" using 1(2) by (intro mult_right_mono) auto
      finally have "(d + per - 1) div per \<le> ((per - 1) + per * 2 ^ k) div per"
        using 1(2) by (intro zdiv_mono1) auto
      also have "\<dots> = 2 ^ k" using 1(2) by simp
      finally show ?thesis .
    qed
    moreover have "MAX_LEVELS - length (acc @ [(d + per - 1) div per]) = k" "\<not> MAX_LEVELS < length acc + 1"
      using k by auto
    ultimately show ?thesis
      using 1(1) [OF True refl] 1(2) True by (subst level_counts_loop.simps) (auto simp: Let_def)
  qed (simp add: level_counts_loop.simps [of acc d per])
qed

lemma level_counts_loop_stuck:
  "1 < d \<Longrightarrow> level_counts_loop acc d 1 = Inl Too_many_levels"
proof (induction acc d "1 :: int" rule: level_counts_loop.induct)
  case (1 acc d)
  then show ?case by (subst level_counts_loop.simps) (auto simp: Let_def)
qed

text \<open>
  The loop over the levels ends for every geometry, within 64 levels. For a geometry within
  the limits of the superblock it reports too many levels exactly when a hash block holds a single
  digest, so that no level is smaller than the one below it, and there is more than one data block.
\<close>

theorem level_counts_limit:
  assumes "0 < data_blocks" "data_blocks \<le> MAX_BLOCKS" "0 < per"
  shows "level_counts data_blocks per = Inl Too_many_levels \<longleftrightarrow> per = 1 \<and> 1 < data_blocks"
proof (cases "per = 1")
  case True
  then show ?thesis
    using level_counts_loop_stuck [of data_blocks "[]"]
    by (cases "1 < data_blocks") (auto simp: level_counts_def level_counts_loop.simps [of "[]" data_blocks])
next
  case False
  have "data_blocks \<le> 2 ^ (MAX_LEVELS - length ([] :: int list))"
    using assms(2) by (simp add: MAX_BLOCKS_def MAX_LEVELS_def)
  with False assms(3) level_counts_loop_halves [of per data_blocks "[]"] show ?thesis
    by (auto simp: level_counts_def)
qed

theorem level_counts_limit_witness:
  "level_counts 2 1 = Inl Too_many_levels"
  using level_counts_limit [of 2 1] by (simp add: MAX_BLOCKS_def)

end
