(* ===== verification/Verity_Fixture.thy ===== *)
theory Verity_Fixture
  imports Verity_Tree
begin

text \<open>Two data blocks under a one-byte digest, and the artifacts that the verifier accepts for them.\<close>

definition demo_hashes :: hashes where
  "demo_hashes a = (if a = ''x'' then Some (1, \<lambda>x. Some [7]) else None)"

definition demo_superblock :: bytes where
  "demo_superblock = SUPERBLOCK_MAGIC @ le_bytes 4 1 @ le_bytes 4 1 @ zeros 16 @ [120] @ zeros 31
     @ le_bytes 4 512 @ le_bytes 4 512 @ le_bytes 8 2 @ le_bytes 2 0 @ zeros 430"

definition demo_hash_image :: bytes where
  "demo_hash_image = demo_superblock @ [7, 7] @ zeros 510"

definition demo_root_image :: bytes where
  "demo_root_image = zeros 1024"

definition demo_partitions :: "string json" where
  "demo_partitions = JObj [(''partitions'', JList [
     JObj [(''number'', JInt 1), (''type_guid'', JStr ROOT_X86_64), (''size_bytes'', JInt 1024)],
     JObj [(''number'', JInt 2), (''type_guid'', JStr ROOT_X86_64_VERITY), (''size_bytes'', JInt 1024)]])]"

definition demo_project :: "verity_error + string json" where
  "demo_project = project demo_hashes (\<lambda>_. []) [48, 55] ''07'' (Some demo_partitions) demo_root_image demo_hash_image"

lemma demo_project_ok: "\<exists>md. demo_project = Inr md"
proof -
  have "(case demo_project of Inl _ \<Rightarrow> False | Inr _ \<Rightarrow> True)" by code_simp
  then show ?thesis by (auto split: sum.split_asm)
qed

lemma demo_hashes_ok: "hashes_ok demo_hashes"
  by (auto simp: hashes_ok_def demo_hashes_def split: if_split_asm)

theorem project_canonical_witness:
  "\<exists>md g H levels root. demo_project = Inr md \<and> read_superblock demo_hashes demo_hash_image = Inr g \<and>
     digests_with demo_hashes g H \<and>
     tree_levels g H (length levels) (leaves g H demo_root_image) = (levels, [root]) \<and> ''07'' = hex root"
proof -
  obtain md where md: "demo_project = Inr md" using demo_project_ok by blast
  have t: "str_lower (strip ''07'') = ''07''" by code_simp
  from project_canonical [OF demo_hashes_ok md [unfolded demo_project_def], unfolded t] show ?thesis
    using md by (elim exE conjE) blast
qed

end
