(* ===== verification/Fs_Tree.thy ===== *)
theory Fs_Tree
  imports Py_Text
begin

text \<open>
  A directory tree under construction: the output directory that a script fills. A path is the
  list of its components below the output directory, which is the empty path and always a
  directory. The system calls that the scripts use are functions on the tree; an \<^verbatim>\<open>OSError\<close> is a
  value. Owners and times are not modelled, and a hard link is a second name for the same mode and
  data, since no script writes to a file after it has linked it.
\<close>

section \<open>Trees\<close>

type_synonym path = "string list"

text \<open>The modes 0755 and 0644.\<close>

definition mode_755 :: int where "mode_755 = 7 * 64 + 5 * 8 + 5"
definition mode_644 :: int where "mode_644 = 6 * 64 + 4 * 8 + 4"

datatype node = Dir int | File int bytes | Symlink string

type_synonym fs = "(path, node) dict"

definition path_str :: "path \<Rightarrow> string" where
  "path_str p = join_with ''/'' p"

definition fs_lookup :: "fs \<Rightarrow> path \<Rightarrow> node option" where
  "fs_lookup fs p = (if p = [] then Some (Dir mode_755) else map_of fs p)"

definition lexists :: "fs \<Rightarrow> path \<Rightarrow> bool" where
  "lexists fs p \<longleftrightarrow> fs_lookup fs p \<noteq> None"

definition is_real_dir :: "fs \<Rightarrow> path \<Rightarrow> bool" where
  "is_real_dir fs p \<longleftrightarrow> (case fs_lookup fs p of Some (Dir _) \<Rightarrow> True | _ \<Rightarrow> False)"

definition is_link :: "fs \<Rightarrow> path \<Rightarrow> bool" where
  "is_link fs p \<longleftrightarrow> (case fs_lookup fs p of Some (Symlink _) \<Rightarrow> True | _ \<Rightarrow> False)"

definition is_regular :: "fs \<Rightarrow> path \<Rightarrow> bool" where
  "is_regular fs p \<longleftrightarrow> (case fs_lookup fs p of Some (File _ _) \<Rightarrow> True | _ \<Rightarrow> False)"

text \<open>The sorted names of the entries of a directory.\<close>

definition listdir :: "fs \<Rightarrow> path \<Rightarrow> string list" where
  "listdir fs d = sort (map (last \<circ> fst) (filter (\<lambda>e. fst e \<noteq> [] \<and> butlast (fst e) = d) fs))"

section \<open>System calls\<close>

datatype os_error = Eexist path | Enotdir path | Enoent path | Eisdir path | Enotempty path

text \<open>
  A call below a symbolic link, or on one that it follows, has its effect where the link leads, which
  may be anywhere. The tree records such an effect as an entry below the link; no well-formed tree has
  one.
\<close>

definition add_node :: "path \<Rightarrow> node \<Rightarrow> fs \<Rightarrow> os_error + fs" where
  "add_node p n fs =
     (if lexists fs p then Inl (Eexist p)
      else case fs_lookup fs (butlast p) of
        Some (Dir _) \<Rightarrow> Inr (fs @ [(p, n)])
      | Some (Symlink _) \<Rightarrow> Inr (fs @ [(p, n)])
      | Some (File _ _) \<Rightarrow> Inl (Enotdir p)
      | None \<Rightarrow> Inl (Enoent p))"

definition behind_link :: "path \<Rightarrow> node \<Rightarrow> fs \<Rightarrow> fs" where
  "behind_link p n fs = fs @ [(p @ [[]], n)]"

definition mkdir :: "path \<Rightarrow> fs \<Rightarrow> os_error + fs" where
  "mkdir p = add_node p (Dir mode_755)"

definition symlink :: "string \<Rightarrow> path \<Rightarrow> fs \<Rightarrow> os_error + fs" where
  "symlink target p = add_node p (Symlink target)"

definition hardlink :: "path \<Rightarrow> path \<Rightarrow> fs \<Rightarrow> os_error + fs" where
  "hardlink src p fs =
     (case fs_lookup fs src of
        Some (File mode data) \<Rightarrow> add_node p (File mode data) fs
      | Some (Symlink t) \<Rightarrow> add_node p (Symlink t) fs
      | Some (Dir _) \<Rightarrow> Inl (Eisdir src)
      | None \<Rightarrow> Inl (Enoent src))"

text \<open>\<^verbatim>\<open>open(p, "wb")\<close> and writing \<open>data\<close>; a new file is created with mode 0644.\<close>

definition write_data :: "path \<Rightarrow> bytes \<Rightarrow> fs \<Rightarrow> os_error + fs" where
  "write_data p data fs =
     (case fs_lookup fs p of
        None \<Rightarrow> add_node p (File mode_644 data) fs
      | Some (File mode _) \<Rightarrow> Inr (dict_set p (File mode data) fs)
      | Some (Dir _) \<Rightarrow> Inl (Eisdir p)
      | Some (Symlink _) \<Rightarrow> Inr (behind_link p (File mode_644 data) fs))"

definition chmod :: "path \<Rightarrow> int \<Rightarrow> fs \<Rightarrow> os_error + fs" where
  "chmod p mode fs =
     (if p = [] then Inr fs
      else case map_of fs p of
        Some (Dir _) \<Rightarrow> Inr (dict_set p (Dir mode) fs)
      | Some (File _ data) \<Rightarrow> Inr (dict_set p (File mode data) fs)
      | Some (Symlink _) \<Rightarrow> Inr (behind_link p (File mode []) fs)
      | None \<Rightarrow> Inl (Enoent p))"

definition remove_node :: "path \<Rightarrow> fs \<Rightarrow> fs" where
  "remove_node p fs = filter (\<lambda>e. fst e \<noteq> p) fs"

definition unlink :: "path \<Rightarrow> fs \<Rightarrow> os_error + fs" where
  "unlink p fs =
     (case fs_lookup fs p of
        None \<Rightarrow> Inl (Enoent p) | Some (Dir _) \<Rightarrow> Inl (Eisdir p) | Some _ \<Rightarrow> Inr (remove_node p fs))"

definition rmdir :: "path \<Rightarrow> fs \<Rightarrow> os_error + fs" where
  "rmdir p fs =
     (if p = [] \<or> \<not> is_real_dir fs p then Inl (Enotdir p)
      else if listdir fs p \<noteq> [] then Inl (Enotempty p)
      else Inr (remove_node p fs))"

section \<open>The tree invariant\<close>

text \<open>
  Every component is a proper file name, so a path cannot leave the tree, and the parent of every
  entry is a real directory, so no entry lies behind a symbolic link.
\<close>

definition safe_component :: "string \<Rightarrow> bool" where
  "safe_component c \<longleftrightarrow> c \<noteq> [] \<and> c \<noteq> ''.'' \<and> c \<noteq> ''..'' \<and> CHR ''/'' \<notin> set c"

definition safe_path :: "path \<Rightarrow> bool" where
  "safe_path p \<longleftrightarrow> list_all safe_component p"

definition fs_wf :: "fs \<Rightarrow> bool" where
  "fs_wf fs \<longleftrightarrow> distinct (map fst fs) \<and>
     (\<forall>p \<in> fst ` set fs. p \<noteq> [] \<and> safe_path p \<and> is_real_dir fs (butlast p))"

lemma fs_wf_Nil [simp]: "fs_wf []"
  by (simp add: fs_wf_def)

lemma fs_lookup_append:
  "fs_lookup (fs @ [(p, n)]) q = (case fs_lookup fs q of Some m \<Rightarrow> Some m | None \<Rightarrow> if q = p then Some n else None)"
  by (auto simp: fs_lookup_def map_add_def split: option.split)

lemma is_real_dir_append: "is_real_dir fs q \<Longrightarrow> is_real_dir (fs @ [(p, n)]) q"
  by (auto simp: is_real_dir_def fs_lookup_append split: option.splits)

lemma lookup_key: "p \<noteq> [] \<Longrightarrow> fs_lookup fs p \<noteq> None \<longleftrightarrow> p \<in> fst ` set fs"
  by (simp add: fs_lookup_def map_of_eq_None_iff)

lemma add_node_Inr:
  "add_node p n fs = Inr fs' \<Longrightarrow> fs' = fs @ [(p, n)] \<and> \<not> lexists fs p \<and> p \<noteq> []"
  by (auto simp: add_node_def lexists_def fs_lookup_def split: if_split_asm option.split_asm node.split_asm)

lemma add_node_wf:
  assumes "fs_wf fs" "safe_path p" "is_real_dir fs (butlast p)" "add_node p n fs = Inr fs'"
  shows "fs_wf fs'"
proof -
  from add_node_Inr [OF assms(4)] have f: "fs' = fs @ [(p, n)]" "\<not> lexists fs p" "p \<noteq> []" by blast+
  moreover from f(2,3) have "p \<notin> fst ` set fs" by (simp add: lexists_def lookup_key [symmetric])
  ultimately show ?thesis
    using assms(1-3) is_real_dir_append by (auto simp: fs_wf_def f(1))
qed

text \<open>Replacing a node by one that is a directory if the old one was.\<close>

lemma dict_set_keys: "p \<in> fst ` set fs \<Longrightarrow> map fst (dict_set p n fs) = map fst fs"
  by (simp add: keys_dict_set)

lemma replace_wf:
  assumes "fs_wf fs" "map_of fs p = Some m" "(\<exists>a. m = Dir a) \<Longrightarrow> (\<exists>b. n = Dir b)"
  shows "fs_wf (dict_set p n fs)"
proof -
  have p: "p \<in> fst ` set fs" using assms(2) by (metis map_of_eq_None_iff option.distinct(1))
  have "is_real_dir (dict_set p n fs) q" if "is_real_dir fs q" for q
    using that assms(2,3) by (auto simp: is_real_dir_def fs_lookup_def split: option.splits node.splits if_split_asm)
  moreover have "fst ` set (dict_set p n fs) = fst ` set fs" using dict_set_keys [OF p] by (metis list.set_map)
  ultimately show ?thesis using assms(1) dict_set_keys [OF p] by (simp add: fs_wf_def)
qed

lemma remove_wf:
  assumes "fs_wf fs" "\<And>q. q \<in> fst ` set fs \<Longrightarrow> butlast q \<noteq> p"
  shows "fs_wf (remove_node p fs)"
proof -
  have "map_of (remove_node p fs) q = (if q = p then None else map_of fs q)" for q
    unfolding remove_node_def by (induction fs) auto
  then have "is_real_dir (remove_node p fs) q" if "is_real_dir fs q" "q \<noteq> p" for q
    using that by (auto simp: is_real_dir_def fs_lookup_def)
  moreover have "distinct (map fst (remove_node p fs))"
    using assms(1) by (simp add: remove_node_def fs_wf_def distinct_map_filter)
  ultimately show ?thesis using assms by (auto simp: fs_wf_def remove_node_def)
qed

section \<open>Steps that keep the invariant\<close>

text \<open>Running an effectful step for each element of a list.\<close>

fun rfold :: "('a \<Rightarrow> 's \<Rightarrow> 'e + 's) \<Rightarrow> 'a list \<Rightarrow> 's \<Rightarrow> 'e + 's" where
  "rfold f [] s = Inr s"
| "rfold f (x # xs) s = rbind (f x s) (rfold f xs)"

lemma rfold_append: "rfold f (xs @ ys) s = rbind (rfold f xs s) (rfold f ys)"
proof (induction xs arbitrary: s)
  case (Cons x xs)
  then show ?case by (cases "f x s") simp_all
qed simp

lemma rfold_cong [fundef_cong]:
  "xs = ys \<Longrightarrow> s = t \<Longrightarrow> (\<And>x s. x \<in> set ys \<Longrightarrow> f x s = g x s) \<Longrightarrow> rfold f xs s = rfold g ys t"
proof (induction xs arbitrary: ys s t)
  case (Cons x xs)
  from Cons.prems Cons.IH [of xs] show ?case by (auto intro!: rbind_cong)
qed simp

text \<open>
  The contract of a script step: it keeps an invariant of its state, or raises. \<open>ok\<close> is what the step
  needs of its argument.
\<close>

locale tree_step =
  fixes inv :: "'s \<Rightarrow> bool" and step :: "'a \<Rightarrow> 's \<Rightarrow> 'e + 's" and ok :: "'a \<Rightarrow> bool"
  assumes step_inv: "ok x \<Longrightarrow> inv fs \<Longrightarrow> step x fs = Inr fs' \<Longrightarrow> inv fs'"
begin

lemma run_inv: "list_all ok xs \<Longrightarrow> inv fs \<Longrightarrow> rfold step xs fs = Inr fs' \<Longrightarrow> inv fs'"
proof (induction xs arbitrary: fs)
  case (Cons x xs)
  then obtain fs1 where "step x fs = Inr fs1" "rfold step xs fs1 = Inr fs'" by auto
  with Cons.prems(1,2) Cons.IH [of fs1] step_inv [of x fs fs1] show ?case by simp
qed simp

end

lemma write_wf:
  assumes "fs_wf fs" "safe_path p" "is_real_dir fs (butlast p)" "\<not> is_link fs p" "write_data p data fs = Inr fs'"
  shows "fs_wf fs'"
proof (cases "fs_lookup fs p")
  case None
  with assms show ?thesis by (auto simp: write_data_def add_node_wf)
next
  case (Some n)
  with assms(4,5) obtain mode old where "n = File mode old" "fs' = dict_set p (File mode data) fs" "p \<noteq> []"
    by (auto simp: write_data_def fs_lookup_def is_link_def split: node.split_asm if_split_asm)
  with Some assms(1) show ?thesis by (auto simp: fs_lookup_def intro: replace_wf)
qed

lemma chmod_wf:
  assumes "fs_wf fs" "\<not> is_link fs p" "chmod p mode fs = Inr fs'"
  shows "fs_wf fs'"
proof (cases "p = []")
  case False
  with assms(2,3) obtain m n where "map_of fs p = Some m" "fs' = dict_set p n fs" "(\<exists>a. m = Dir a) \<Longrightarrow> (\<exists>b. n = Dir b)"
    by (auto simp: chmod_def is_link_def fs_lookup_def split: option.split_asm node.split_asm)
  with assms(1) replace_wf show ?thesis by blast
qed (use assms in \<open>simp add: chmod_def\<close>)

lemma listdir_Nil: "listdir fs d = [] \<longleftrightarrow> (\<forall>q \<in> fst ` set fs. q \<noteq> [] \<longrightarrow> butlast q \<noteq> d)"
  by (auto simp: listdir_def filter_empty_conv simp flip: set_empty)

lemma not_dir_leaf:
  "fs_wf fs \<Longrightarrow> \<not> is_real_dir fs p \<Longrightarrow> q \<in> fst ` set fs \<Longrightarrow> butlast q \<noteq> p"
  by (auto simp: fs_wf_def)

interpretation unlink_step: tree_step fs_wf unlink "\<lambda>_. True"
proof
  fix p fs fs' assume "fs_wf fs" "unlink p fs = Inr fs'"
  moreover from this have "\<not> is_real_dir fs p" "fs' = remove_node p fs"
    by (auto simp: unlink_def is_real_dir_def split: option.split_asm node.split_asm)
  ultimately show "fs_wf fs'" using remove_wf not_dir_leaf by blast
qed

interpretation rmdir_step: tree_step fs_wf rmdir "\<lambda>_. True"
proof
  fix p fs fs' assume "fs_wf fs" "rmdir p fs = Inr fs'"
  moreover from this have "fs' = remove_node p fs" "listdir fs p = []"
    by (auto simp: rmdir_def split: if_split_asm)
  moreover from this \<open>fs_wf fs\<close> have "butlast q \<noteq> p" if "q \<in> fst ` set fs" for q
    using that by (auto simp: listdir_Nil fs_wf_def)
  ultimately show "fs_wf fs'" using remove_wf by blast
qed

section \<open>Steps that keep what is there\<close>

lemma lookup_add_node: "add_node p n fs = Inr fs' \<Longrightarrow> fs_lookup fs' = (fs_lookup fs)(p \<mapsto> n)"
  by (auto dest!: add_node_Inr simp: lexists_def fs_lookup_append split: option.split)

lemma lookup_dict_set: "p \<noteq> [] \<Longrightarrow> fs_lookup (dict_set p n fs) = (fs_lookup fs)(p \<mapsto> n)"
  by (auto simp: fs_lookup_def)

fun with_mode :: "int \<Rightarrow> node \<Rightarrow> node" where
  "with_mode mode (Dir _) = Dir mode"
| "with_mode mode (File _ data) = File mode data"
| "with_mode mode (Symlink t) = Symlink t"

lemma lookup_chmod:
  "chmod p mode fs = Inr fs' \<Longrightarrow> p \<noteq> [] \<Longrightarrow> \<not> is_link fs p \<Longrightarrow>
     \<exists>n. fs_lookup fs p = Some n \<and> fs_lookup fs' = (fs_lookup fs)(p \<mapsto> with_mode mode n)"
  by (auto simp: chmod_def fs_lookup_def is_link_def lookup_dict_set split: option.split_asm node.split_asm)

lemma lookup_write_new:
  "write_data p data fs = Inr fs' \<Longrightarrow> \<not> lexists fs p \<Longrightarrow> fs_lookup fs' = (fs_lookup fs)(p \<mapsto> File mode_644 data)"
  by (auto simp: write_data_def lexists_def dest: lookup_add_node split: option.split_asm)

text \<open>
  A tree grows when every entry keeps its kind, a link its target and a file its mode and data, with
  the exception of the files in \<open>exempt\<close>.
\<close>

definition keeps_node :: "node \<Rightarrow> node \<Rightarrow> bool" where
  "keeps_node n n' \<longleftrightarrow> n' = n \<or> (\<exists>a b. n = Dir a \<and> n' = Dir b)"

definition grows_to :: "path set \<Rightarrow> fs \<Rightarrow> fs \<Rightarrow> bool" where
  "grows_to exempt fs fs' \<longleftrightarrow>
     (\<forall>p n. p \<notin> exempt \<longrightarrow> fs_lookup fs p = Some n \<longrightarrow> (\<exists>n'. fs_lookup fs' p = Some n' \<and> keeps_node n n'))"

lemma grows_to_refl [simp]: "grows_to e fs fs"
  by (simp add: grows_to_def keeps_node_def)

lemma keeps_node_trans: "keeps_node a b \<Longrightarrow> keeps_node b c \<Longrightarrow> keeps_node a c"
  by (auto simp: keeps_node_def)

lemma grows_to_trans: "grows_to e a b \<Longrightarrow> grows_to e b c \<Longrightarrow> grows_to e a c"
  unfolding grows_to_def by (meson keeps_node_trans)

lemma grows_to_add:
  "fs_lookup fs' = (fs_lookup fs)(p \<mapsto> n) \<Longrightarrow> \<not> lexists fs p \<or> (\<exists>m. fs_lookup fs p = Some m \<and> keeps_node m n) \<Longrightarrow> grows_to e fs fs'"
  by (auto simp: grows_to_def lexists_def keeps_node_def)

locale growing_step = tree_step fs_wf step ok for step :: "'a \<Rightarrow> fs \<Rightarrow> 'e + fs" and ok +
  fixes exempt :: "path set"
  assumes step_grows: "ok x \<Longrightarrow> fs_wf fs \<Longrightarrow> step x fs = Inr fs' \<Longrightarrow> grows_to exempt fs fs'"
begin

lemma run_grows: "list_all ok xs \<Longrightarrow> fs_wf fs \<Longrightarrow> rfold step xs fs = Inr fs' \<Longrightarrow> grows_to exempt fs fs'"
proof (induction xs arbitrary: fs)
  case (Cons x xs)
  then obtain fs1 where s: "step x fs = Inr fs1" "rfold step xs fs1 = Inr fs'" by auto
  from Cons.prems have x: "ok x" "list_all ok xs" by simp_all
  from step_grows [OF x(1) Cons.prems(2) s(1)] Cons.IH [OF x(2) step_inv [OF x(1) Cons.prems(2) s(1)] s(2)]
  show ?case by (rule grows_to_trans)
qed simp

text \<open>What one element of the list leaves behind is still there at the end.\<close>

lemma run_keeps:
  "list_all ok xs \<Longrightarrow> fs_wf fs \<Longrightarrow> rfold step xs fs = Inr fs' \<Longrightarrow> x \<in> set xs \<Longrightarrow>
     \<exists>fs1 fs2. fs_wf fs1 \<and> step x fs1 = Inr fs2 \<and> grows_to exempt fs2 fs'"
proof (induction xs arbitrary: fs)
  case (Cons y ys)
  from Cons.prems(3) obtain fs1 where s: "step y fs = Inr fs1" "rfold step ys fs1 = Inr fs'" by auto
  from Cons.prems(1) have y: "ok y" "list_all ok ys" by simp_all
  note w = step_inv [OF y(1) Cons.prems(2) s(1)]
  show ?case
  proof (cases "x = y")
    case True
    with Cons.prems(2) s run_grows [OF y(2) w s(2)] show ?thesis by blast
  next
    case False
    with Cons.prems(4) have "x \<in> set ys" by simp
    with Cons.IH [OF y(2) w s(2)] show ?thesis by simp
  qed
qed simp

end

lemma grows_to_rbind:
  "rbind r f = Inr fs' \<Longrightarrow> (\<And>fs1. r = Inr fs1 \<Longrightarrow> fs_wf fs1 \<and> grows_to e fs fs1) \<Longrightarrow>
   (\<And>fs1. fs_wf fs1 \<Longrightarrow> f fs1 = Inr fs' \<Longrightarrow> fs_wf fs' \<and> grows_to e fs1 fs') \<Longrightarrow> fs_wf fs' \<and> grows_to e fs fs'"
  by (cases r) (auto intro: grows_to_trans)

end
