(* ===== verification/Extract_Tree.thy ===== *)
theory Extract_Tree
  imports Fs_Tree
begin

text \<open>
  The extraction of the Debian tools archive, \<^verbatim>\<open>mkosi/debian/extract_tree.py\<close>. A relative path of the
  source is the list of its components. \<open>sha256\<close> is the digest of the archive and \<open>tar_members\<close> its
  members in order (\<^const>\<open>None\<close> is a \<^verbatim>\<open>TarError\<close>), both of the standard library; the output directory
  is fresh. Owners and times are not modelled, so \<^verbatim>\<open>set_deterministic_metadata\<close> is not.
\<close>

section \<open>Members\<close>

datatype member_kind = MDir | MFile | MSym | MLnk | MOther

record Member =
  m_name :: string
  m_kind :: member_kind
  m_mode :: int
  m_linkname :: string
  m_data :: "bytes option"

text \<open>One constructor per \<^verbatim>\<open>raise ValueError\<close>; \<open>Os\<close> is an \<^verbatim>\<open>OSError\<close>.\<close>

datatype extract_error =
    Absolute_member string
  | Unsafe_member string
  | Parent_not_directory path
  | Symlink_escapes path
  | Symlink_cycle path
  | Bound_exceeded path
  | Dangling_symlink path
  | Path_collision path
  | Absolute_hardlink string
  | Hardlink_cycle path
  | Dangling_hardlink path
  | Hardlink_not_file path
  | Duplicate_member
  | No_data path
  | Unsupported_member path
  | Mount_root_not_directory path
  | Legacy_collision path
  | Populated_tmp
  | Digest_required
  | Digest_mismatch
  | Tar_error
  | Key_error path
  | Recursion_error path
  | Os os_error

definition lift_os :: "os_error + 'a \<Rightarrow> extract_error + 'a" where
  "lift_os r = (case r of Inl e \<Rightarrow> Inl (Os e) | Inr x \<Rightarrow> Inr x)"

lemma lift_os_Inr [simp]: "lift_os r = Inr x \<longleftrightarrow> r = Inr x"
  by (simp add: lift_os_def split: sum.split)

fun strip_dot_slash :: "string \<Rightarrow> string" where
  "strip_dot_slash (a # b # s) = (if a = CHR ''.'' \<and> b = CHR ''/'' then strip_dot_slash s else a # b # s)"
| "strip_dot_slash s = s"

definition member_path :: "string \<Rightarrow> extract_error + path" where
  "member_path name =
     (if starts_with ''/'' name then Inl (Absolute_member name)
      else
        let name = strip_dot_slash name
        in if name \<in> {[], ''.''} then Inr []
           else
             let parts = split_on (CHR ''/'') name;
                 parts = (if last parts = [] then butlast parts else parts)
             in if parts = [] \<or> list_ex (\<lambda>part. part \<in> {[], ''.'', ''..''}) parts then Inl (Unsafe_member name)
                else Inr parts)"

section \<open>Directories and files\<close>

text \<open>The proper prefixes of a path, shortest first: the directories that \<^verbatim>\<open>_parent\<close> visits.\<close>

definition parents :: "path \<Rightarrow> path list" where
  "parents relative = map (\<lambda>i. take i relative) [1..<length relative]"

definition ensure_dir :: "path \<Rightarrow> path \<Rightarrow> fs \<Rightarrow> extract_error + fs" where
  "ensure_dir relative parent fs =
     (if lexists fs parent then
        (if \<not> is_real_dir fs parent then Inl (Parent_not_directory relative) else Inr fs)
      else rbind (lift_os (mkdir parent fs)) (\<lambda>fs. lift_os (chmod parent mode_755 fs)))"

definition make_parent :: "path \<Rightarrow> fs \<Rightarrow> extract_error + fs" where
  "make_parent relative = rfold (ensure_dir relative) (parents relative)"

definition materialize_directory :: "path \<Rightarrow> Member \<Rightarrow> fs \<Rightarrow> extract_error + fs" where
  "materialize_directory relative member fs =
     rbind (make_parent relative fs) (\<lambda>fs.
       if lexists fs relative \<and> \<not> is_real_dir fs relative then Inl (Path_collision relative)
       else
         rbind (if lexists fs relative then Inr fs else lift_os (mkdir relative fs)) (\<lambda>fs.
           lift_os (chmod relative (m_mode member mod 4096) fs)))"

definition materialize_file :: "path \<Rightarrow> Member \<Rightarrow> fs \<Rightarrow> extract_error + fs" where
  "materialize_file relative member fs =
     rbind (make_parent relative fs) (\<lambda>fs.
       if lexists fs relative then Inl (Path_collision relative)
       else
         (case m_data member of
            None \<Rightarrow> Inl (No_data relative)
          | Some data \<Rightarrow>
              rbind (lift_os (write_data relative data fs)) (\<lambda>fs.
                lift_os (chmod relative (m_mode member mod 4096) fs))))"

definition materialize_member :: "path \<times> Member \<Rightarrow> fs \<Rightarrow> extract_error + fs" where
  "materialize_member rm fs =
     (case rm of (relative, member) \<Rightarrow>
        (case m_kind member of
           MDir \<Rightarrow> materialize_directory relative member fs
         | MFile \<Rightarrow> materialize_file relative member fs
         | MSym \<Rightarrow> Inr fs
         | MLnk \<Rightarrow> Inr fs
         | MOther \<Rightarrow> Inl (Unsupported_member relative)))"

definition materialize_regular_members :: "(path \<times> Member) list \<Rightarrow> fs \<Rightarrow> extract_error + fs" where
  "materialize_regular_members members =
     rfold materialize_member (sort_key (\<lambda>(relative, member). (length relative, path_str relative)) members)"

fun index_members :: "Member list \<Rightarrow> (path, Member) dict \<Rightarrow> extract_error + (path, Member) dict" where
  "index_members [] members = Inr members"
| "index_members (m # ms) members =
     rbind (member_path (m_name m)) (\<lambda>relative.
       if relative = [] then index_members ms members
       else if relative \<in> fst ` set members then Inl Duplicate_member
       else index_members ms (members @ [(relative, m)]))"

section \<open>Package-specific files\<close>

definition path_of :: "string \<Rightarrow> path" where
  "path_of s = split_on (CHR ''/'') s"

text \<open>
  \<^verbatim>\<open>os.walk\<close> of a directory, top down with sorted names: the files of the directory before those of
  its subdirectories.
\<close>

definition depth_bound :: "fs \<Rightarrow> nat" where
  "depth_bound fs = fold max (map (length \<circ> fst) fs) 0"

lemma fold_max_start: "m \<le> fold max xs (m :: nat)"
proof (induction xs arbitrary: m)
  case (Cons y xs)
  from Cons.IH [of "max y m"] show ?case by simp
qed simp

lemma fold_max_bound: "x \<in> set xs \<Longrightarrow> x \<le> fold max xs (m :: nat)"
proof (induction xs arbitrary: m)
  case (Cons y xs)
  then show ?case using fold_max_start [of "max y m" xs] by auto
qed simp

lemma depth_bound: "p \<in> fst ` set fs \<Longrightarrow> length p \<le> depth_bound fs"
  unfolding depth_bound_def by (rule fold_max_bound) auto

lemma listdir_child: "n \<in> set (listdir fs d) \<Longrightarrow> d @ [n] \<in> fst ` set fs"
proof -
  assume "n \<in> set (listdir fs d)"
  then obtain p where "p \<in> fst ` set fs" "p \<noteq> []" "butlast p = d" "last p = n" by (auto simp: listdir_def)
  then show ?thesis by (metis append_butlast_last_id)
qed

function os_walk_files :: "fs \<Rightarrow> path \<Rightarrow> path list" where
  "os_walk_files fs d =
     map (\<lambda>n. d @ [n]) (filter (\<lambda>n. \<not> is_real_dir fs (d @ [n])) (listdir fs d))
     @ concat (map (\<lambda>n. os_walk_files fs (d @ [n])) (filter (\<lambda>n. is_real_dir fs (d @ [n])) (listdir fs d)))"
  by pat_completeness auto

termination os_walk_files
proof (relation "measure (\<lambda>(fs, d). Suc (depth_bound fs) - length d)", goal_cases)
  case (2 fs d n)
  then have "d @ [n] \<in> fst ` set fs" using listdir_child [of n fs d] by simp
  from depth_bound [OF this] show ?case by simp
qed simp

declare os_walk_files.simps [simp del]

definition file_data :: "fs \<Rightarrow> path \<Rightarrow> bytes" where
  "file_data fs p = (case fs_lookup fs p of Some (File _ data) \<Rightarrow> data | _ \<Rightarrow> [])"

definition write_ca_bundle :: "fs \<Rightarrow> extract_error + fs" where
  "write_ca_bundle fs =
     (let certificate_root = path_of ''usr/share/ca-certificates'';
          bundle = path_of ''etc/ssl/certs/ca-certificates.crt'';
          certificates = (if is_real_dir fs certificate_root
            then filter (\<lambda>p. ends_with ''.crt'' (last p) \<and> is_regular fs p) (os_walk_files fs certificate_root) else [])
      in if certificates = [] then Inr fs
      else
        rbind (make_parent bundle fs) (\<lambda>fs'.
        rbind (lift_os (write_data bundle (concat (map (\<lambda>c. file_data fs c @ [10]) certificates)) fs')) (\<lambda>fs'.
          lift_os (chmod bundle mode_644 fs'))))"

definition touch :: "path \<Rightarrow> fs \<Rightarrow> extract_error + fs" where
  "touch p fs = rbind (lift_os (write_data p [] fs)) (\<lambda>fs. lift_os (chmod p mode_644 fs))"

definition runtime_link_targets :: "path list" where
  "runtime_link_targets =
     map path_of [''etc/environment'', ''etc/localtime'', ''dev/null'', ''etc/modules'', ''usr/sbin/rmt'']"

definition materialize_runtime_link_target :: "path \<Rightarrow> fs \<Rightarrow> extract_error + fs" where
  "materialize_runtime_link_target p fs =
     (if lexists fs p then Inr fs else rbind (make_parent p fs) (touch p))"

definition EMPTY_DIRECTORY_SYMLINK_TARGETS :: "(path \<times> path \<times> string) list" where
  "EMPTY_DIRECTORY_SYMLINK_TARGETS =
     [(path_of ''etc/xdg/systemd/user'', path_of ''etc/systemd/user'', ''../../systemd/user''),
      (path_of ''usr/lib/ssl/private'', path_of ''etc/ssl/private'', ''/etc/ssl/private'')]"

definition materialize_empty_directory_target ::
    "(path, Member) dict \<Rightarrow> path \<times> path \<times> string \<Rightarrow> fs \<Rightarrow> extract_error + fs" where
  "materialize_empty_directory_target symlinks e fs =
     (case e of (relative, target, expected_linkname) \<Rightarrow>
        (case map_of symlinks relative of
           None \<Rightarrow> Inr fs
         | Some member \<Rightarrow>
             if m_linkname member \<noteq> expected_linkname \<or> \<not> is_real_dir fs target then Inr fs
             else
               let marker = target @ [''.rules_mkosi_empty_directory'']
               in if lexists fs marker then Inr fs else touch marker fs))"

section \<open>Symbolic links\<close>

definition raw_link_components :: "path \<Rightarrow> string \<Rightarrow> string list" where
  "raw_link_components relative linkname =
     (if starts_with ''/'' linkname then split_on (CHR ''/'') linkname
      else butlast relative @ split_on (CHR ''/'') linkname)"

definition link_paths :: "(path, Member) dict \<Rightarrow> path set" where
  "link_paths members = fst ` set (filter (\<lambda>e. m_kind (snd e) = MSym) members)"

definition is_link_member :: "(path, Member) dict \<Rightarrow> path \<Rightarrow> bool" where
  "is_link_member members p \<longleftrightarrow> (case map_of members p of Some m \<Rightarrow> m_kind m = MSym | None \<Rightarrow> False)"

lemma is_link_member_in: "is_link_member members p \<Longrightarrow> p \<in> link_paths members"
  by (force simp: is_link_member_def link_paths_def split: option.split_asm dest: map_of_SomeD)

text \<open>
  The loop of \<^verbatim>\<open>_resolve_link_path\<close>: what is left of the path, the resolved components, and the links
  that were followed. The set \<^verbatim>\<open>seen\<close> holds these links and \<^verbatim>\<open>resolutions\<close> is their number.
\<close>

function resolve_loop_links ::
    "(path, Member) dict \<Rightarrow> nat \<Rightarrow> path \<Rightarrow> string list \<Rightarrow> path \<Rightarrow> path list \<Rightarrow> extract_error + path \<times> path list" where
  "resolve_loop_links members link_count relative components resolved dependencies =
     (case components of
        [] \<Rightarrow> Inr (resolved, dependencies)
      | component # rest \<Rightarrow>
          if component \<in> {[], ''.''} then resolve_loop_links members link_count relative rest resolved dependencies
          else if component = ''..'' then
            (if resolved = [] then Inl (Symlink_escapes relative)
             else resolve_loop_links members link_count relative rest (butlast resolved) dependencies)
          else
            let current = resolved @ [component]
            in if is_link_member members current then
                 (if current \<in> set dependencies then Inl (Symlink_cycle current)
                  else
                    let expanded = raw_link_components current (m_linkname (the (map_of members current))) @ rest
                    in if length dependencies + 1 > link_count + length expanded + 1 then Inl (Bound_exceeded relative)
                       else resolve_loop_links members link_count relative expanded [] (dependencies @ [current]))
               else resolve_loop_links members link_count relative rest current dependencies)"
  by pat_completeness auto

termination resolve_loop_links
proof (relation "measures [\<lambda>(members, link_count, relative, components, resolved, dependencies).
      card (link_paths members - set dependencies), \<lambda>(members, link_count, relative, components, resolved, dependencies).
      length components]", goal_cases)
  case (4 members link_count relative components resolved dependencies component rest current expanded)
  then have "current \<in> link_paths members - set dependencies" by (auto dest: is_link_member_in)
  moreover have "finite (link_paths members)" by (simp add: link_paths_def)
  ultimately have "card (link_paths members - set (dependencies @ [current])) < card (link_paths members - set dependencies)"
    by (intro psubset_card_mono) auto
  then show ?case by simp
qed auto

declare resolve_loop_links.simps [simp del]

definition resolve_link_path ::
    "path \<Rightarrow> (path, Member) dict \<Rightarrow> (path, Member) dict \<Rightarrow> extract_error + path \<times> path list" where
  "resolve_link_path relative symlinks members =
     (case map_of symlinks relative of
        None \<Rightarrow> Inl (Key_error relative)
      | Some member \<Rightarrow>
          resolve_loop_links members (length symlinks) relative (raw_link_components relative (m_linkname member)) [] [])"

definition ALLOWED_DANGLING_SYMLINKS :: "path list" where
  "ALLOWED_DANGLING_SYMLINKS = map path_of [''etc/modules-load.d/modules.conf'', ''etc/rmt'',
     ''usr/lib/environment.d/99-environment.conf'', ''usr/lib/systemd/system/cryptdisks-early.service'',
     ''usr/lib/systemd/system/cryptdisks.service'', ''usr/lib/systemd/system/hwclock.service'',
     ''usr/lib/systemd/system/x11-common.service'', ''usr/share/zoneinfo/localtime'']"

text \<open>
  The depth-first \<^verbatim>\<open>visit\<close> of \<^verbatim>\<open>_validate_symlink_graph\<close>. The links whose state is \<^verbatim>\<open>visiting\<close> are those of
  the call stack, the links that are \<^verbatim>\<open>done\<close> have an entry in \<open>v_resolved\<close>; an error ends the whole
  extraction. No link has been created yet, so a path exists exactly when it is in the tree.
\<close>

record validation =
  v_resolved :: "(path, path) dict"
  v_dependencies :: "(path, path list) dict"

definition finish_visit :: "path \<Rightarrow> path \<Rightarrow> path list \<Rightarrow> fs \<Rightarrow> validation \<Rightarrow> extract_error + validation" where
  "finish_visit relative target direct fs st =
     (if \<not> lexists fs target \<and> relative \<notin> set ALLOWED_DANGLING_SYMLINKS then Inl (Dangling_symlink relative)
      else Inr \<lparr>v_resolved = dict_set relative target (v_resolved st),
                v_dependencies = dict_set relative direct (v_dependencies st)\<rparr>)"

function visit_symlink ::
    "fs \<Rightarrow> (path, Member) dict \<Rightarrow> (path, Member) dict \<Rightarrow> path list \<Rightarrow> path \<Rightarrow> validation \<Rightarrow> extract_error + validation" where
  "visit_symlink fs symlinks members visiting relative st =
     (if relative \<in> set visiting then Inl (Symlink_cycle relative)
      else if relative \<in> fst ` set (v_resolved st) then Inr st
      else if relative \<notin> fst ` set symlinks then Inl (Key_error relative)
      else
        rbind (resolve_link_path relative symlinks members) (\<lambda>(target, direct).
        rbind (rfold (visit_symlink fs symlinks members (relative # visiting))
                 (filter (\<lambda>d. d \<noteq> relative) direct) st) (\<lambda>st.
          finish_visit relative target direct fs st)))"
  by pat_completeness auto

termination visit_symlink
proof (relation "measure (\<lambda>(fs, symlinks, members, visiting, relative, st).
      card (fst ` set symlinks - set visiting))", goal_cases)
  case (2 fs symlinks members visiting relative st)
  then have "card (fst ` set symlinks - set (relative # visiting)) < card (fst ` set symlinks - set visiting)"
    by (intro psubset_card_mono) auto
  then show ?case by simp
qed simp

declare visit_symlink.simps [simp del]

definition validate_symlink_graph ::
    "fs \<Rightarrow> (path, Member) dict \<Rightarrow> (path, Member) dict \<Rightarrow> extract_error + validation" where
  "validate_symlink_graph fs symlinks members =
     rfold (visit_symlink fs symlinks members []) (sort_key path_str (map fst symlinks))
       \<lparr>v_resolved = [], v_dependencies = []\<rparr>"

text \<open>
  The recursion of \<^verbatim>\<open>depth\<close> over the recorded dependencies, with a bound on its depth; running into
  the bound is a \<^verbatim>\<open>RecursionError\<close>.
\<close>

fun link_depth :: "nat \<Rightarrow> (path, path list) dict \<Rightarrow> path \<Rightarrow> extract_error + nat" where
  "link_depth 0 dependencies relative = Inl (Recursion_error relative)"
| "link_depth (Suc n) dependencies relative =
     (case map_of dependencies relative of
        None \<Rightarrow> Inl (Key_error relative)
      | Some ds \<Rightarrow> rbind (rmap (link_depth n dependencies) ds) (\<lambda>depths. Inr (fold max depths 0 + 1)))"

text \<open>\<^verbatim>\<open>os.path.relpath\<close> of two paths below the output directory.\<close>

fun common_prefix :: "'a list \<Rightarrow> 'a list \<Rightarrow> nat" where
  "common_prefix (x # xs) (y # ys) = (if x = y then Suc (common_prefix xs ys) else 0)"
| "common_prefix _ _ = 0"

definition relpath :: "path \<Rightarrow> path \<Rightarrow> string list" where
  "relpath target start =
     (let i = common_prefix target start; parts = replicate (length start - i) ''..'' @ drop i target
      in if parts = [] then [''.''] else parts)"

definition create_symlink :: "(path, path) dict \<Rightarrow> path \<times> Member \<Rightarrow> fs \<Rightarrow> extract_error + fs" where
  "create_symlink resolved rm fs =
     (case rm of (relative, member) \<Rightarrow>
        rbind (make_parent relative fs) (\<lambda>fs.
          if lexists fs relative then Inl (Path_collision relative)
          else
            let linkname = (if starts_with ''/'' (m_linkname member)
                  then path_str (relpath (the (map_of resolved relative)) (butlast relative)) else m_linkname member)
            in lift_os (symlink linkname relative fs)))"

definition resolve_symlink_graph ::
    "(path, Member) dict \<Rightarrow> (path, Member) dict \<Rightarrow> fs \<Rightarrow> extract_error + fs" where
  "resolve_symlink_graph symlinks members fs =
     rbind (validate_symlink_graph fs symlinks members) (\<lambda>v.
     rbind (rmap (\<lambda>(relative, member). rbind (link_depth (length symlinks + 1) (v_dependencies v) relative) (\<lambda>d.
              Inr (d, relative, member))) symlinks) (\<lambda>keyed.
       rfold (create_symlink (v_resolved v))
         (map snd (sort_key (\<lambda>(d, relative, member). (d, path_str relative)) keyed)) fs))"

section \<open>Hard links\<close>

definition hardlink_target :: "string \<Rightarrow> extract_error + path" where
  "hardlink_target linkname =
     (if starts_with ''/'' linkname then Inl (Absolute_hardlink linkname) else member_path linkname)"

text \<open>The recursion of \<^verbatim>\<open>visit\<close>, with the call stack as the links in state \<^verbatim>\<open>visiting\<close>.\<close>

function visit_hardlink ::
    "(path, Member) dict \<Rightarrow> (path, Member) dict \<Rightarrow> path list \<Rightarrow> path \<Rightarrow> (path, path) dict
     \<Rightarrow> extract_error + path \<times> (path, path) dict" where
  "visit_hardlink hardlinks members visiting relative targets =
     (if relative \<in> set visiting then Inl (Hardlink_cycle relative)
      else case map_of targets relative of
        Some target \<Rightarrow> Inr (target, targets)
      | None \<Rightarrow>
          (case map_of hardlinks relative of
             None \<Rightarrow> Inl (Key_error relative)
           | Some member \<Rightarrow>
               rbind (hardlink_target (m_linkname member)) (\<lambda>target.
                 case map_of members target of
                   None \<Rightarrow> Inl (Dangling_hardlink relative)
                 | Some target_member \<Rightarrow>
                     rbind (if m_kind target_member = MLnk
                            then visit_hardlink hardlinks members (relative # visiting) target targets
                            else if m_kind target_member \<noteq> MFile then Inl (Hardlink_not_file relative)
                            else Inr (target, targets))
                       (\<lambda>(target, targets). Inr (target, dict_set relative target targets)))))"
  by pat_completeness auto

termination visit_hardlink
proof (relation "measure (\<lambda>(hardlinks, members, visiting, relative, targets).
      card (fst ` set hardlinks - set visiting))", goal_cases)
  case (2 hardlinks members visiting relative targets member target target_member)
  then have "relative \<in> fst ` set hardlinks" by (metis map_of_eq_None_iff option.distinct(1))
  with 2 have "card (fst ` set hardlinks - set (relative # visiting)) < card (fst ` set hardlinks - set visiting)"
    by (intro psubset_card_mono) auto
  then show ?case by simp
qed simp

declare visit_hardlink.simps [simp del]

definition create_hardlink ::
    "(path, Member) dict \<Rightarrow> (path, Member) dict \<Rightarrow> path \<Rightarrow> fs \<times> (path, path) dict
     \<Rightarrow> extract_error + fs \<times> (path, path) dict" where
  "create_hardlink hardlinks members relative st =
     (case st of (fs, targets) \<Rightarrow>
        rbind (visit_hardlink hardlinks members [] relative targets) (\<lambda>(target, targets).
        rbind (make_parent relative fs) (\<lambda>fs.
          if lexists fs relative then Inl (Path_collision relative)
          else rbind (lift_os (hardlink target relative fs)) (\<lambda>fs. Inr (fs, targets)))))"

definition resolve_hardlink_graph ::
    "(path, Member) dict \<Rightarrow> (path, Member) dict \<Rightarrow> fs \<Rightarrow> extract_error + fs" where
  "resolve_hardlink_graph hardlinks members fs =
     rbind (rfold (create_hardlink hardlinks members) (sort_key path_str (map fst hardlinks)) (fs, [])) (\<lambda>(fs, _). Inr fs)"

section \<open>The extraction\<close>

definition extract_members :: "Member list \<Rightarrow> fs \<Rightarrow> extract_error + fs" where
  "extract_members source fs =
     rbind (index_members source []) (\<lambda>members.
       let symlinks = filter (\<lambda>e. m_kind (snd e) = MSym) members;
           hardlinks = filter (\<lambda>e. m_kind (snd e) = MLnk) members
       in rbind (materialize_regular_members members fs) (\<lambda>fs.
          rbind (write_ca_bundle fs) (\<lambda>fs.
          rbind (rfold materialize_runtime_link_target runtime_link_targets fs) (\<lambda>fs.
          rbind (rfold (materialize_empty_directory_target symlinks) EMPTY_DIRECTORY_SYMLINK_TARGETS fs) (\<lambda>fs.
          rbind (resolve_hardlink_graph hardlinks members fs) (\<lambda>fs.
            resolve_symlink_graph symlinks members fs))))))"

definition MOUNT_ROOTS :: "path list" where
  "MOUNT_ROOTS = [[''etc''], [''root''], [''tmp''], [''proc''], [''dev''], [''workspace''], [''inputs''], [''outputs'']]"

definition prepare_mount_root :: "path \<Rightarrow> fs \<Rightarrow> extract_error + fs" where
  "prepare_mount_root relative fs =
     rbind (if lexists fs relative
            then (if \<not> is_real_dir fs relative then Inl (Mount_root_not_directory relative) else Inr fs)
            else rbind (make_parent relative fs) (\<lambda>fs. lift_os (mkdir relative fs)))
       (\<lambda>fs. lift_os (chmod relative mode_755 fs))"

definition prepare_mount_roots :: "fs \<Rightarrow> extract_error + fs" where
  "prepare_mount_roots fs =
     rbind (rfold prepare_mount_root MOUNT_ROOTS fs) (\<lambda>fs.
       if lexists fs [''etc'', ''resolv.conf''] then Inr fs else touch [''etc'', ''resolv.conf''] fs)"

definition LEGACY_MERGED_USR_LINKS :: "(path \<times> string) list" where
  "LEGACY_MERGED_USR_LINKS = [([''bin''], ''usr/bin''), ([''sbin''], ''usr/sbin''), ([''lib''], ''usr/lib''),
     ([''lib64''], ''usr/lib/x86_64-linux-gnu'')]"

definition link_legacy :: "path \<times> string \<Rightarrow> fs \<Rightarrow> extract_error + fs" where
  "link_legacy e fs =
     (case e of (legacy, target) \<Rightarrow>
        rbind (if is_link fs legacy then lift_os (unlink legacy fs)
               else if is_real_dir fs legacy then lift_os (rmdir legacy fs)
               else if lexists fs legacy then Inl (Legacy_collision legacy)
               else Inr fs)
          (\<lambda>fs. lift_os (symlink target legacy fs)))"

definition reject_populated_tmp :: "fs \<Rightarrow> extract_error + unit" where
  "reject_populated_tmp fs =
     (if is_real_dir fs [''tmp''] \<and> listdir fs [''tmp''] \<noteq> [] then Inl Populated_tmp else Inr ())"

definition authenticate :: "(bytes \<Rightarrow> string) \<Rightarrow> bytes \<Rightarrow> string \<Rightarrow> extract_error + unit" where
  "authenticate sha256 archive expected_digest =
     (if sha256 archive \<noteq> expected_digest then Inl Digest_mismatch else Inr ())"

definition extract_archive ::
    "(bytes \<Rightarrow> string) \<Rightarrow> (bytes \<Rightarrow> Member list option) \<Rightarrow> bytes \<Rightarrow> string \<Rightarrow> extract_error + fs" where
  "extract_archive sha256 tar_members archive expected_digest =
     (if expected_digest = [] then Inl Digest_required
      else
        rbind (authenticate sha256 archive expected_digest) (\<lambda>_.
        rbind (case tar_members archive of None \<Rightarrow> Inl Tar_error | Some source \<Rightarrow> extract_members source []) (\<lambda>fs.
        rbind (prepare_mount_roots fs) (\<lambda>fs.
        rbind (rfold link_legacy LEGACY_MERGED_USR_LINKS fs) (\<lambda>fs.
        rbind (reject_populated_tmp fs) (\<lambda>_. Inr fs))))))"

end
