(* ===== verification/Extract_Safety.thy ===== *)
theory Extract_Safety
  imports Extract_Tree
begin

text \<open>
  What the extraction guarantees: exactly which member names are accepted, that the output stays a
  tree whose entries all lie below real directories, and that every member of the archive is in it.
\<close>

section \<open>Member names\<close>

lemma split_on_parts: "x \<in> set (split_on (CHR ''/'') s) \<Longrightarrow> CHR ''/'' \<notin> set x"
  by (rule split_on_clean)

lemma strip_dot_slash_shape: "\<exists>k. name = concat (replicate k ''./'') @ strip_dot_slash name"
proof (induction name rule: strip_dot_slash.induct)
  case (1 a b s)
  show ?case
  proof (cases "a = CHR ''.'' \<and> b = CHR ''/''")
    case True
    with 1 obtain k where "s = concat (replicate k ''./'') @ strip_dot_slash s" by blast
    with True have "a # b # s = concat (replicate (Suc k) ''./'') @ strip_dot_slash (a # b # s)" by simp
    then show ?thesis by blast
  qed (auto intro: exI [of _ 0])
qed (auto intro: exI [of _ 0])

lemma strip_dot_slash_replicate [simp]: "strip_dot_slash (concat (replicate k ''./'') @ s) = strip_dot_slash s"
  by (induction k) simp_all

lemma strip_dot_slash_id: "\<not> starts_with ''./'' s \<Longrightarrow> strip_dot_slash s = s"
  by (cases s rule: strip_dot_slash.cases) (auto simp: starts_with_def)

lemma split_on_trailing:
  "ps \<noteq> [] \<Longrightarrow> \<forall>p \<in> set ps. c \<notin> set p \<Longrightarrow> split_on c (join_with [c] ps @ [c]) = ps @ [[]]"
proof (induction ps rule: induct_list012)
  case (2 p)
  then show ?case using split_on_append [of c p "[]"] by simp
next
  case (3 p q ps)
  then have "split_on c (p @ c # (join_with [c] (q # ps) @ [c])) = p # split_on c (join_with [c] (q # ps) @ [c])"
    by (intro split_on_append) simp
  with 3 show ?case by simp
qed simp

lemma bad_component_iff:
  "(\<forall>x \<in> set parts. CHR ''/'' \<notin> set x) \<Longrightarrow>
     list_ex (\<lambda>part. part \<in> {[], ''.'', ''..''}) parts \<longleftrightarrow> \<not> safe_path parts"
  by (auto simp: safe_path_def safe_component_def list_ex_iff list_all_iff)

lemma member_path_sound:
  assumes "member_path name = Inr p"
  shows "safe_path p \<and> (\<exists>k tail. name = concat (replicate k ''./'') @ path_str p @ tail \<and>
    tail \<in> (if p = [] then {[], ''.''} else {[], ''/''}))"
proof -
  obtain k where k: "name = concat (replicate k ''./'') @ strip_dot_slash name"
    using strip_dot_slash_shape by blast
  define s where "s = strip_dot_slash name"
  have ks: "name = concat (replicate k ''./'') @ s" unfolding s_def by (rule k)
  show ?thesis
  proof (cases "s \<in> {[], ''.''}")
    case True
    with assms have "p = []" by (auto simp: member_path_def s_def Let_def split: if_split_asm)
    with True ks show ?thesis by (auto simp: path_str_def safe_path_def)
  next
    case False
    define parts where "parts = split_on (CHR ''/'') s"
    define ps where "ps = (if last parts = [] then butlast parts else parts)"
    have p: "p = ps" "ps \<noteq> []" "\<not> list_ex (\<lambda>part. part \<in> {[], ''.'', ''..''}) ps"
      using assms False by (auto simp: member_path_def Let_def s_def parts_def ps_def split: if_split_asm)
    have clean: "\<forall>x \<in> set ps. CHR ''/'' \<notin> set x"
      using split_on_parts by (auto simp: ps_def parts_def dest: in_set_butlastD)
    have parts_ne: "parts \<noteq> []" by (simp add: parts_def)
    have js: "join_with ''/'' parts = s" by (simp add: parts_def)
    have sp: "s = path_str p @ (if last parts = [] then ''/'' else [])"
    proof (cases "last parts = []")
      case True
      then have e: "parts = ps @ [[]]" using parts_ne append_butlast_last_id [of parts] by (simp add: ps_def)
      have "join_with ''/'' (ps @ [[]]) = join_with ''/'' ps @ ''/''"
        using p(2) by (induction ps rule: induct_list012) simp_all
      with True js e show ?thesis by (simp add: p(1) path_str_def)
    qed (use js p(1) in \<open>simp add: ps_def path_str_def\<close>)
    have "name = concat (replicate k ''./'') @ path_str p @ (if last parts = [] then ''/'' else [])"
      using ks by (simp only: sp)
    moreover have "safe_path p" using p clean bad_component_iff by blast
    moreover have "p \<noteq> []" using p(1,2) by simp
    ultimately show ?thesis by (intro conjI exI [of _ k] exI [of _ "if last parts = [] then ''/'' else []"]) auto
  qed
qed

lemma safe_path_str_start: "safe_path p \<Longrightarrow> p \<noteq> [] \<Longrightarrow> tail \<in> {[], ''/''} \<Longrightarrow>
   \<not> starts_with ''./'' (path_str p @ tail) \<and> \<not> starts_with ''/'' (path_str p @ tail) \<and> path_str p @ tail \<notin> {[], ''.''}"
proof -
  assume a: "safe_path p" "p \<noteq> []" "tail \<in> {[], ''/''}"
  then obtain c cs where p: "p = c # cs" "safe_component c" by (cases p) (auto simp: safe_path_def)
  obtain rest where r: "path_str p @ tail = c @ rest" "rest = [] \<or> hd rest = CHR ''/''"
    using a(3) by (cases cs) (auto simp: p path_str_def)
  then show ?thesis
    using p(2) by (cases c; cases "tl c"; cases rest) (auto simp: safe_component_def starts_with_def)
qed

lemma member_path_iff:
  "member_path name = Inr p \<longleftrightarrow>
     safe_path p \<and> (\<exists>k tail. name = concat (replicate k ''./'') @ path_str p @ tail \<and>
       tail \<in> (if p = [] then {[], ''.''} else {[], ''/''}))"
proof
  assume "safe_path p \<and> (\<exists>k tail. name = concat (replicate k ''./'') @ path_str p @ tail \<and>
       tail \<in> (if p = [] then {[], ''.''} else {[], ''/''}))"
  then obtain k tail where s: "safe_path p" and n: "name = concat (replicate k ''./'') @ path_str p @ tail"
    and t: "tail \<in> (if p = [] then {[], ''.''} else {[], ''/''})" by blast
  show "member_path name = Inr p"
  proof (cases "p = []")
    case True
    with n t have "strip_dot_slash name \<in> {[], ''.''}" by (auto simp: path_str_def)
    moreover have "\<not> starts_with ''/'' name" using n t True by (cases k) (auto simp: path_str_def starts_with_def)
    ultimately show ?thesis using True by (auto simp: member_path_def Let_def)
  next
    case False
    with t have t: "tail \<in> {[], ''/''}" by simp
    note st = safe_path_str_start [OF s False t]
    have strip: "strip_dot_slash name = path_str p @ tail" unfolding n using st strip_dot_slash_id by simp
    have "\<not> starts_with ''/'' name" using st n by (cases k) (auto simp: starts_with_def)
    moreover have clean: "\<forall>x \<in> set p. CHR ''/'' \<notin> set x"
      using s by (auto simp: safe_path_def safe_component_def list_all_iff)
    have "(if last (split_on (CHR ''/'') (path_str p @ tail)) = [] then butlast (split_on (CHR ''/'') (path_str p @ tail))
        else split_on (CHR ''/'') (path_str p @ tail)) = p"
    proof (cases "tail = []")
      case True
      have "last p \<noteq> []" using s False by (auto simp: safe_path_def safe_component_def list_all_iff)
      then show ?thesis using True split_on_join [OF False clean] by (simp add: path_str_def)
    next
      case False
      then show ?thesis using t split_on_trailing [OF \<open>p \<noteq> []\<close> clean] by (simp add: path_str_def)
    qed
    moreover have "\<not> list_ex (\<lambda>part. part \<in> {[], ''.'', ''..''}) p" using s bad_component_iff [OF clean] by blast
    ultimately show ?thesis
      using strip st False unfolding member_path_def Let_def by (simp only: if_False) simp
  qed
qed (rule member_path_sound)

text \<open>
  A member name is accepted exactly when, after any number of leading \<^verbatim>\<open>./\<close>, it is a sequence of
  proper file names joined by single slashes, with at most one trailing slash, or the archive root;
  the result is this sequence of names. So an accepted name has no empty, \<^verbatim>\<open>.\<close> or \<^verbatim>\<open>..\<close> component and
  cannot point outside the output directory, and no such name is rejected.
\<close>

theorem member_path_exact:
  "member_path name = Inr p \<longleftrightarrow>
     safe_path p \<and> (\<exists>k tail. name = concat (replicate k ''./'') @ path_str p @ tail \<and>
       tail \<in> (if p = [] then {[], ''.''} else {[], ''/''}))"
  by (rule member_path_iff)

section \<open>The tree invariant\<close>

text \<open>
  The paths whose entry the extraction may replace: the certificate bundle it writes itself and the
  links of the merged \<^verbatim>\<open>/usr\<close>.
\<close>

definition rewritten :: "path set" where
  "rewritten = insert (path_of ''etc/ssl/certs/ca-certificates.crt'') (fst ` set LEGACY_MERGED_USR_LINKS)"

lemma mkdir_grows: "mkdir p fs = Inr fs' \<Longrightarrow> grows_to e fs fs'"
  unfolding mkdir_def by (rule grows_to_add [OF lookup_add_node]) (auto simp: add_node_def split: if_split_asm)

lemma real_dir_Nil [simp]: "is_real_dir fs []"
  by (simp add: is_real_dir_def fs_lookup_def)

lemma real_dir_not_link: "is_real_dir fs p \<Longrightarrow> \<not> is_link fs p"
  by (auto simp: is_real_dir_def is_link_def split: option.split_asm node.split_asm)

lemma parent_real: "fs_wf fs \<Longrightarrow> lexists fs p \<Longrightarrow> is_real_dir fs (butlast p)"
  using lookup_key [of p fs] by (cases "p = []") (auto simp: lexists_def fs_wf_def)

lemma mkdir_chmod:
  assumes "safe_path p" "fs_wf fs" "is_real_dir fs (butlast p)" "mkdir p fs = Inr fs1" "chmod p mode fs1 = Inr fs'"
  shows "fs_wf fs' \<and> grows_to e fs fs' \<and> fs_lookup fs' = (fs_lookup fs)(p \<mapsto> Dir mode)"
proof -
  have l: "fs_lookup fs1 = (fs_lookup fs)(p \<mapsto> Dir mode_755)" and n: "\<not> lexists fs p"
    using assms(4) by (auto simp: mkdir_def lookup_add_node add_node_def split: if_split_asm)
  then have p: "p \<noteq> []" and nl: "\<not> is_link fs1 p" by (auto simp: lexists_def is_link_def) (simp add: fs_lookup_def)
  from lookup_chmod [OF assms(5) p nl] l have l': "fs_lookup fs' = (fs_lookup fs)(p \<mapsto> Dir mode)" by auto
  with n have "grows_to e fs fs'" by (intro grows_to_add) auto
  moreover have "fs_wf fs1" using add_node_wf [OF assms(2,1,3)] assms(4) by (simp add: mkdir_def)
  ultimately show ?thesis using l' chmod_wf [OF _ nl assms(5)] by blast
qed

lemma ensure_dir_keeps:
  assumes "safe_path q" "fs_wf fs" "is_real_dir fs (butlast q)" "ensure_dir r q fs = Inr fs'"
  shows "fs_wf fs' \<and> grows_to e fs fs' \<and> is_real_dir fs' q"
proof (cases "lexists fs q")
  case False
  with assms(4) obtain fs1 where "mkdir q fs = Inr fs1" "chmod q mode_755 fs1 = Inr fs'" by (auto simp: ensure_dir_def)
  from mkdir_chmod [OF assms(1-3) this] show ?thesis by (simp add: is_real_dir_def)
qed (use assms in \<open>auto simp: ensure_dir_def split: if_split_asm\<close>)

text \<open>Each directory of the loop lies in the one before it, so after the loop the parent is real.\<close>

lemma ensure_dirs_keep:
  "safe_path r \<Longrightarrow> fs_wf fs \<Longrightarrow> n < length r \<Longrightarrow> rfold (ensure_dir r) (map (\<lambda>i. take i r) [1..<Suc n]) fs = Inr fs' \<Longrightarrow>
     fs_wf fs' \<and> grows_to e fs fs' \<and> is_real_dir fs' (take n r)"
proof (induction n arbitrary: fs')
  case (Suc n)
  from Suc.prems(4) obtain fs1 where s: "rfold (ensure_dir r) (map (\<lambda>i. take i r) [1..<Suc n]) fs = Inr fs1"
      "ensure_dir r (take (Suc n) r) fs1 = Inr fs'" by (auto simp: rfold_append)
  from Suc.IH [OF Suc.prems(1,2) _ s(1)] Suc.prems(3) have k: "fs_wf fs1" "grows_to e fs fs1" "is_real_dir fs1 (take n r)" by auto
  have "safe_path (take (Suc n) r)" using Suc.prems(1) by (auto simp: safe_path_def list_all_iff dest: in_set_takeD)
  moreover have "butlast (take (Suc n) r) = take n r" using Suc.prems(3) by (simp add: take_Suc_conv_app_nth)
  ultimately show ?case using ensure_dir_keeps [of "take (Suc n) r" fs1 r fs' e] k s(2) grows_to_trans by auto
qed simp

lemma make_parent_keeps:
  assumes "safe_path r" "fs_wf fs" "make_parent r fs = Inr fs'"
  shows "fs_wf fs' \<and> grows_to e fs fs' \<and> is_real_dir fs' (butlast r)"
proof (cases "r = []")
  case False
  then have "rfold (ensure_dir r) (map (\<lambda>i. take i r) [1..<Suc (length r - 1)]) fs = Inr fs'"
    using assms(3) by (simp add: make_parent_def parents_def)
  from ensure_dirs_keep [OF assms(1,2) _ this] False show ?thesis by (simp add: butlast_conv_take)
qed (use assms in \<open>simp add: make_parent_def parents_def\<close>)

lemma parents_safe: "safe_path r \<Longrightarrow> list_all safe_path (parents r)"
  by (auto simp: parents_def list_all_iff safe_path_def dest: in_set_takeD)

lemma ensure_dir_other:
  assumes "ensure_dir r q fs = Inr fs'" "p \<noteq> q"
  shows "fs_lookup fs' p = fs_lookup fs p"
proof (cases "lexists fs q")
  case False
  with assms(1) obtain fs1 where s: "mkdir q fs = Inr fs1" "chmod q mode_755 fs1 = Inr fs'" by (auto simp: ensure_dir_def)
  from False have "q \<noteq> []" by (auto simp: lexists_def fs_lookup_def)
  moreover have "\<not> is_link fs1 q" using s(1) by (auto simp: mkdir_def is_link_def dest!: lookup_add_node)
  ultimately show ?thesis using lookup_chmod [OF s(2)] s(1) assms(2) by (auto simp: mkdir_def dest!: lookup_add_node)
qed (use assms in \<open>auto simp: ensure_dir_def split: if_split_asm\<close>)

lemma make_parent_self: "make_parent r fs = Inr fs' \<Longrightarrow> fs_lookup fs' r = fs_lookup fs r"
proof -
  have "rfold (ensure_dir r) qs fs = Inr fs' \<Longrightarrow> r \<notin> set qs \<Longrightarrow> fs_lookup fs' r = fs_lookup fs r" for qs
  proof (induction qs arbitrary: fs)
    case (Cons q qs)
    then obtain fs1 where "ensure_dir r q fs = Inr fs1" "rfold (ensure_dir r) qs fs1 = Inr fs'" by auto
    with Cons.IH [of fs1] Cons.prems(2) ensure_dir_other [of r q fs fs1 r] show ?case by simp
  qed simp
  moreover have "length q < length r" if "q \<in> set (parents r)" for q using that by (auto simp: parents_def)
  then have "r \<notin> set (parents r)" by blast
  ultimately show "make_parent r fs = Inr fs' \<Longrightarrow> fs_lookup fs' r = fs_lookup fs r" by (simp add: make_parent_def)
qed

lemma write_chmod:
  assumes "safe_path p" "fs_wf fs" "is_real_dir fs (butlast p)" "\<not> lexists fs p"
    and "write_data p data fs = Inr fs1" "chmod p mode fs1 = Inr fs'"
  shows "fs_wf fs' \<and> grows_to e fs fs' \<and> fs_lookup fs' p = Some (File mode data)"
proof -
  note l = lookup_write_new [OF assms(5,4)]
  have p: "p \<noteq> []" and nl: "\<not> is_link fs p" "\<not> is_link fs1 p"
    using assms(4) l by (auto simp: lexists_def fs_lookup_def is_link_def)
  from lookup_chmod [OF assms(6) p nl(2)] l have l': "fs_lookup fs' = (fs_lookup fs)(p \<mapsto> File mode data)" by auto
  with assms(4) have "grows_to e fs fs'" by (intro grows_to_add) auto
  moreover have "fs_wf fs1" using write_wf [OF assms(2,1,3) nl(1) assms(5)] .
  ultimately show ?thesis using chmod_wf [OF _ nl(2) assms(6)] l' by simp
qed

lemma touch_keeps:
  assumes "safe_path p" "fs_wf fs" "is_real_dir fs (butlast p)" "\<not> lexists fs p" "touch p fs = Inr fs'"
  shows "fs_wf fs' \<and> grows_to e fs fs'"
  using write_chmod [OF assms(1-4)] assms(5) by (auto simp: touch_def)

lemma chmod_grows_dir:
  "chmod p mode fs = Inr fs' \<Longrightarrow> is_real_dir fs p \<Longrightarrow> grows_to e fs fs'"
proof (cases "p = []")
  case False
  assume a: "chmod p mode fs = Inr fs'" "is_real_dir fs p"
  from lookup_chmod [OF a(1) False real_dir_not_link [OF a(2)]] obtain n
    where n: "fs_lookup fs p = Some n" "fs_lookup fs' = (fs_lookup fs)(p \<mapsto> with_mode mode n)" by blast
  with a(2) have "keeps_node n (with_mode mode n)" by (cases n) (auto simp: is_real_dir_def keeps_node_def)
  with n grows_to_add show ?thesis by blast
qed (simp add: chmod_def)

lemma dir_after_mkdir: "mkdir p fs = Inr fs' \<Longrightarrow> is_real_dir fs' p"
  by (auto simp: mkdir_def dest!: lookup_add_node simp: is_real_dir_def)

lemma dir_after_chmod: "chmod p mode fs = Inr fs' \<Longrightarrow> is_real_dir fs p \<Longrightarrow> is_real_dir fs' p"
proof (cases "p = []")
  case False
  assume a: "chmod p mode fs = Inr fs'" "is_real_dir fs p"
  from lookup_chmod [OF a(1) False real_dir_not_link [OF a(2)]] a(2) show ?thesis
    by (auto simp: is_real_dir_def split: option.split_asm node.split_asm)
qed (simp add: is_real_dir_def fs_lookup_def)

text \<open>A directory that is there, or is made, and then gets its mode.\<close>

lemma dir_chmod_keeps:
  assumes "safe_path p" "fs_wf fs" "is_real_dir fs (butlast p)"
    and "if is_real_dir fs p then fs1 = fs else mkdir p fs = Inr fs1" "chmod p mode fs1 = Inr fs'"
  shows "fs_wf fs' \<and> grows_to e fs fs' \<and> is_real_dir fs' p"
proof -
  have "fs_wf fs1 \<and> grows_to e fs fs1 \<and> is_real_dir fs1 p"
    using assms(1-4) add_node_wf mkdir_grows dir_after_mkdir by (auto simp: mkdir_def split: if_split_asm)
  then show ?thesis using chmod_wf real_dir_not_link chmod_grows_dir dir_after_chmod grows_to_trans assms(5) by blast
qed

lemma materialize_directory_keeps:
  assumes "safe_path r" "fs_wf fs" "materialize_directory r m fs = Inr fs'"
  shows "fs_wf fs' \<and> grows_to e fs fs' \<and> is_real_dir fs' r"
proof -
  from assms(3) obtain fs1 fs2 where s: "make_parent r fs = Inr fs1"
      "if is_real_dir fs1 r then fs2 = fs1 else mkdir r fs1 = Inr fs2" "chmod r (m_mode m mod 4096) fs2 = Inr fs'"
    by (auto simp: materialize_directory_def is_real_dir_def lexists_def split: if_split_asm)
  from make_parent_keeps [OF assms(1,2) s(1)] have p: "fs_wf fs1" "grows_to e fs fs1" "is_real_dir fs1 (butlast r)" by blast+
  from dir_chmod_keeps [OF assms(1) p(1,3) s(2,3)] p(2) grows_to_trans show ?thesis by blast
qed

lemma materialize_file_keeps:
  assumes "safe_path r" "fs_wf fs" "materialize_file r m fs = Inr fs'"
  shows "fs_wf fs' \<and> grows_to e fs fs' \<and> (\<exists>data. m_data m = Some data \<and> fs_lookup fs' r = Some (File (m_mode m mod 4096) data))"
proof -
  from assms(3) obtain fs1 data fs2 where s: "make_parent r fs = Inr fs1" "\<not> lexists fs1 r" "m_data m = Some data"
      "write_data r data fs1 = Inr fs2" "chmod r (m_mode m mod 4096) fs2 = Inr fs'"
    by (auto simp: materialize_file_def split: if_split_asm option.split_asm)
  from make_parent_keeps [OF assms(1,2) s(1)] have p: "fs_wf fs1" "grows_to e fs fs1" "is_real_dir fs1 (butlast r)" by blast+
  from write_chmod [OF assms(1) p(1,3) s(2,4,5)] p(2) s(3) grows_to_trans show ?thesis by blast
qed

interpretation materialize_step: growing_step materialize_member "\<lambda>(r, m). safe_path r" e
proof
  fix x fs fs' assume a: "(\<lambda>(r, m). safe_path r) x" "fs_wf fs" "materialize_member x fs = Inr fs'"
  obtain r m where x: "x = (r, m)" by fastforce
  with a have "fs' = fs \<or> materialize_directory r m fs = Inr fs' \<or> materialize_file r m fs = Inr fs'"
    by (auto simp: materialize_member_def split: member_kind.split_asm)
  moreover from a(1) x have "safe_path r" by simp
  ultimately show "fs_wf fs'" "grows_to e fs fs'"
    using materialize_directory_keeps materialize_file_keeps a(2) grows_to_refl by blast+
qed

interpretation runtime_step: growing_step materialize_runtime_link_target safe_path e
proof
  fix p fs fs' assume a: "safe_path p" "fs_wf fs" "materialize_runtime_link_target p fs = Inr fs'"
  have "fs_wf fs' \<and> grows_to e fs fs'"
  proof (cases "lexists fs p")
    case False
    with a(3) obtain fs1 where s: "make_parent p fs = Inr fs1" "touch p fs1 = Inr fs'"
      by (auto simp: materialize_runtime_link_target_def)
    from make_parent_keeps [OF a(1,2) s(1)] have p: "fs_wf fs1" "grows_to e fs fs1" "is_real_dir fs1 (butlast p)" by blast+
    have "\<not> lexists fs1 p" using make_parent_self [OF s(1)] False by (simp add: lexists_def)
    from touch_keeps [OF a(1) p(1,3) this s(2)] p(2) grows_to_trans show ?thesis by blast
  qed (use a in \<open>simp add: materialize_runtime_link_target_def\<close>)
  then show "fs_wf fs'" "grows_to e fs fs'" by blast+
qed

lemma safe_path_constants [simp]:
  "list_all safe_path runtime_link_targets"
  "list_all (\<lambda>(relative, target, linkname). safe_path target) EMPTY_DIRECTORY_SYMLINK_TARGETS"
  "list_all safe_path MOUNT_ROOTS"
  "list_all (\<lambda>(legacy, target). safe_path legacy) LEGACY_MERGED_USR_LINKS"
  "safe_path [''etc'', ''resolv.conf'']"
  "safe_path (path_of ''etc/ssl/certs/ca-certificates.crt'')"
  "safe_component ''.rules_mkosi_empty_directory''"
  by code_simp+

interpretation empty_directory_step:
  growing_step "materialize_empty_directory_target symlinks" "\<lambda>(relative, target, linkname). safe_path target" e
proof
  fix x fs fs'
  assume a: "(\<lambda>(relative, target, linkname). safe_path target) x" "fs_wf fs"
    "materialize_empty_directory_target symlinks x fs = Inr fs'"
  obtain r t l where x: "x = (r, t, l)" by (cases x) blast
  define marker where "marker = t @ [''.rules_mkosi_empty_directory'']"
  have "safe_path marker" using a(1) by (simp add: x marker_def safe_path_def)
  moreover have "fs' = fs \<or> is_real_dir fs (butlast marker) \<and> \<not> lexists fs marker \<and> touch marker fs = Inr fs'"
    using a(3) by (auto simp: x materialize_empty_directory_target_def marker_def Let_def split: option.split_asm if_split_asm)
  ultimately show "fs_wf fs'" "grows_to e fs fs'" using touch_keeps a(2) grows_to_refl by blast+
qed

text \<open>Writing a file that may be there.\<close>

lemma lookup_write:
  assumes "write_data p data fs = Inr fs'" "\<not> is_link fs p"
  shows "\<exists>mode. fs_lookup fs' = (fs_lookup fs)(p \<mapsto> File mode data)"
proof (cases "lexists fs p")
  case True
  with assms obtain mode where "p \<noteq> []" "fs' = dict_set p (File mode data) fs"
    by (auto simp: write_data_def lexists_def fs_lookup_def is_link_def split: node.split_asm if_split_asm)
  then show ?thesis using lookup_dict_set by blast
qed (use lookup_write_new [OF assms(1)] in blast)

lemma grows_to_exempt: "fs_lookup fs' = (fs_lookup fs)(p := n) \<Longrightarrow> p \<in> e \<Longrightarrow> grows_to e fs fs'"
  by (auto simp: grows_to_def keeps_node_def)

lemma overwrite_keeps:
  assumes "safe_path p" "p \<noteq> []" "fs_wf fs" "is_real_dir fs (butlast p)" "\<not> is_link fs p" "p \<in> e"
    and "write_data p data fs = Inr fs1" "chmod p mode fs1 = Inr fs'"
  shows "fs_wf fs' \<and> grows_to e fs fs'"
proof -
  obtain m where l: "fs_lookup fs1 = (fs_lookup fs)(p \<mapsto> File m data)" using lookup_write [OF assms(7,5)] by blast
  then have nl: "\<not> is_link fs1 p" by (simp add: is_link_def)
  obtain n' where "fs_lookup fs' = (fs_lookup fs1)(p \<mapsto> n')" using lookup_chmod [OF assms(8,2) nl] by blast
  with l have "grows_to e fs fs'" using grows_to_exempt [OF _ assms(6)] grows_to_trans by blast
  with chmod_wf [OF write_wf [OF assms(3,1,4,5,7)] nl assms(8)] show ?thesis by simp
qed

text \<open>
  Until the links of the archive are created the tree has none, so the certificate bundle is written
  to the file of that name and nowhere else.
\<close>

definition no_links :: "fs \<Rightarrow> bool" where
  "no_links fs \<longleftrightarrow> (\<forall>p. \<not> is_link fs p)"

lemma no_links_Nil [simp]: "no_links []"
  by (simp add: no_links_def is_link_def fs_lookup_def)

lemma no_links_update: "no_links fs \<Longrightarrow> fs_lookup fs' = (fs_lookup fs)(p \<mapsto> n) \<Longrightarrow> (\<And>t. n \<noteq> Symlink t) \<Longrightarrow> no_links fs'"
  by (auto simp: no_links_def is_link_def split: node.split)

lemma no_links_chmod: "no_links fs \<Longrightarrow> chmod p mode fs = Inr fs' \<Longrightarrow> no_links fs'"
proof (cases "p = []")
  case False
  assume a: "no_links fs" "chmod p mode fs = Inr fs'"
  then have nl: "\<not> is_link fs p" by (simp add: no_links_def)
  from lookup_chmod [OF a(2) False nl] obtain n
    where n: "fs_lookup fs p = Some n" "fs_lookup fs' = (fs_lookup fs)(p \<mapsto> with_mode mode n)" by blast
  have "with_mode mode n \<noteq> Symlink t" for t using nl n(1) by (cases n) (auto simp: is_link_def)
  with no_links_update [OF a(1) n(2)] show ?thesis by blast
qed (simp add: chmod_def)

interpretation ensure_dir_step: tree_step no_links "ensure_dir r" "\<lambda>_. True"
  by unfold_locales
    (auto simp: ensure_dir_def mkdir_def dest!: lookup_add_node intro: no_links_chmod no_links_update split: if_split_asm)

lemma no_links_make_parent: "no_links fs \<Longrightarrow> make_parent r fs = Inr fs' \<Longrightarrow> no_links fs'"
  unfolding make_parent_def by (erule ensure_dir_step.run_inv [rotated]) (simp_all add: list_all_iff)

interpretation materialize_no_links: tree_step no_links materialize_member "\<lambda>_. True"
proof
  fix x fs fs' assume a: "no_links fs" "materialize_member x fs = Inr fs'"
  obtain r m where x: "x = (r, m)" by fastforce
  consider "fs' = fs" | fs1 fs2 where "make_parent r fs = Inr fs1" "fs2 = fs1 \<or> add_node r (Dir mode_755) fs1 = Inr fs2"
      "chmod r (m_mode m mod 4096) fs2 = Inr fs'"
    | fs1 fs2 data where "make_parent r fs = Inr fs1" "\<not> lexists fs1 r" "write_data r data fs1 = Inr fs2"
      "chmod r (m_mode m mod 4096) fs2 = Inr fs'"
    using a(2) by (auto simp: x materialize_member_def materialize_directory_def materialize_file_def mkdir_def
        split: member_kind.split_asm if_split_asm option.split_asm)
  then show "no_links fs'"
  proof cases
    case 2
    from no_links_make_parent [OF a(1) 2(1)] 2(2) have "no_links fs2"
      using no_links_update [OF _ lookup_add_node] by blast
    with 2(3) no_links_chmod show ?thesis by blast
  next
    case 3
    from no_links_update [OF no_links_make_parent [OF a(1) 3(1)] lookup_write_new [OF 3(3,2)]] have "no_links fs2" by blast
    with 3(4) no_links_chmod show ?thesis by blast
  qed (use a in simp)
qed

lemma write_ca_bundle_keeps:
  assumes "fs_wf fs" "no_links fs" "write_ca_bundle fs = Inr fs'"
  shows "fs_wf fs' \<and> grows_to rewritten fs fs'"
proof -
  define crt where "crt = path_of ''etc/ssl/certs/ca-certificates.crt''"
  have b: "safe_path crt" "crt \<noteq> []" "crt \<in> rewritten"
    unfolding crt_def rewritten_def by (simp_all add: path_of_def) code_simp
  consider "fs' = fs" | fs1 data fs2 where "make_parent crt fs = Inr fs1" "write_data crt data fs1 = Inr fs2"
      "chmod crt mode_644 fs2 = Inr fs'"
    using assms(3) unfolding write_ca_bundle_def crt_def [symmetric] Let_def by (auto split: if_split_asm)
  then show ?thesis
  proof cases
    case 2
    from make_parent_keeps [OF b(1) assms(1) 2(1)]
    have p: "fs_wf fs1" "grows_to rewritten fs fs1" "is_real_dir fs1 (butlast crt)" by blast+
    have "\<not> is_link fs1 crt" using no_links_make_parent [OF assms(2) 2(1)] by (simp add: no_links_def)
    from overwrite_keeps [OF b(1,2) p(1,3) this b(3) 2(2,3)] p(2) grows_to_trans show ?thesis by blast
  qed (use assms in simp)
qed

lemma add_node_keeps:
  "safe_path p \<Longrightarrow> fs_wf fs \<Longrightarrow> is_real_dir fs (butlast p) \<Longrightarrow> add_node p n fs = Inr fs' \<Longrightarrow>
     fs_wf fs' \<and> grows_to e fs fs' \<and> fs_lookup fs' p = Some n"
  using add_node_wf [of fs p n fs'] lookup_add_node [of p n fs fs'] grows_to_add [of fs' fs p n]
  by (auto simp: add_node_def split: if_split_asm)

interpretation create_symlink_step: growing_step "create_symlink resolved" "\<lambda>(r, m). safe_path r" e
proof
  fix x fs fs' assume a: "(\<lambda>(r, m). safe_path r) x" "fs_wf fs" "create_symlink resolved x fs = Inr fs'"
  obtain r m where x: "x = (r, m)" by fastforce
  with a(3) obtain fs1 l where s: "make_parent r fs = Inr fs1" "add_node r (Symlink l) fs1 = Inr fs'"
    by (auto simp: create_symlink_def symlink_def Let_def split: if_split_asm)
  have r: "safe_path r" using a(1) x by simp
  from make_parent_keeps [OF r a(2) s(1)] have p: "fs_wf fs1" "grows_to e fs fs1" "is_real_dir fs1 (butlast r)" by blast+
  from add_node_keeps [OF r p(1,3) s(2)] p(2) grows_to_trans show "fs_wf fs'" "grows_to e fs fs'" by blast+
qed

interpretation mount_root_step: growing_step prepare_mount_root safe_path e
proof
  fix r fs fs' assume a: "safe_path r" "fs_wf fs" "prepare_mount_root r fs = Inr fs'"
  have "\<exists>fs1 fs2. (fs1 = fs \<and> lexists fs r \<or> make_parent r fs = Inr fs1) \<and>
      (if is_real_dir fs1 r then fs2 = fs1 else mkdir r fs1 = Inr fs2) \<and> chmod r mode_755 fs2 = Inr fs'"
  proof (cases "lexists fs r")
    case True
    with a(3) show ?thesis by (auto simp: prepare_mount_root_def split: if_split_asm)
  next
    case False
    with a(3) obtain fs1 fs2 where s: "make_parent r fs = Inr fs1" "mkdir r fs1 = Inr fs2" "chmod r mode_755 fs2 = Inr fs'"
      by (auto simp: prepare_mount_root_def)
    moreover have "\<not> is_real_dir fs1 r" using make_parent_self [OF s(1)] False by (simp add: is_real_dir_def lexists_def)
    ultimately show ?thesis by auto
  qed
  then obtain fs1 fs2 where s: "fs1 = fs \<and> lexists fs r \<or> make_parent r fs = Inr fs1"
      "if is_real_dir fs1 r then fs2 = fs1 else mkdir r fs1 = Inr fs2" "chmod r mode_755 fs2 = Inr fs'" by blast
  from s(1) make_parent_keeps [OF a(1,2)] a(2) parent_real
  have p: "fs_wf fs1" "grows_to e fs fs1" "is_real_dir fs1 (butlast r)" by auto
  from dir_chmod_keeps [OF a(1) p(1,3) s(2,3)] p(2) grows_to_trans show "fs_wf fs'" "grows_to e fs fs'" by blast+
qed

lemma map_of_remove: "map_of (remove_node p fs) q = (if q = p then None else map_of fs q)"
  unfolding remove_node_def by (induction fs) auto

lemma lookup_remove: "p \<noteq> [] \<Longrightarrow> fs_lookup (remove_node p fs) = (fs_lookup fs)(p := None)"
  by (auto simp: fs_lookup_def fun_eq_iff map_of_remove)

interpretation legacy_step: growing_step link_legacy "\<lambda>e. e \<in> set LEGACY_MERGED_USR_LINKS" rewritten
proof
  fix x fs fs' assume a: "x \<in> set LEGACY_MERGED_USR_LINKS" "fs_wf fs" "link_legacy x fs = Inr fs'"
  obtain p t where x: "x = (p, t)" by fastforce
  have p: "safe_path p" "p \<in> rewritten" using a(1) safe_path_constants(4) by (force simp: x list_all_iff rewritten_def)+
  from a(3) obtain fs1 where s: "fs1 = fs \<or> unlink p fs = Inr fs1 \<or> rmdir p fs = Inr fs1" "add_node p (Symlink t) fs1 = Inr fs'"
    by (auto simp: x link_legacy_def symlink_def split: if_split_asm)
  then have "fs1 = fs \<or> fs1 = remove_node p fs"
    by (auto simp: unlink_def rmdir_def split: if_split_asm option.split_asm node.split_asm)
  moreover from a(1) have "p \<noteq> []" and r: "butlast p = []" by (auto simp: x LEGACY_MERGED_USR_LINKS_def)
  ultimately have "grows_to rewritten fs fs1" using grows_to_exempt [OF lookup_remove p(2)] by auto
  moreover have "fs_wf fs1" using s(1) a(2) unlink_step.step_inv rmdir_step.step_inv by blast
  moreover from r have "is_real_dir fs1 (butlast p)" by simp
  ultimately show "fs_wf fs'" "grows_to rewritten fs fs'"
    using add_node_keeps [OF p(1) _ _ s(2)] grows_to_trans by blast+
qed

text \<open>The hard links: each one gets the node of its target.\<close>

lemma create_hardlink_keeps:
  assumes "safe_path r" "fs_wf fs" "create_hardlink hardlinks members r (fs, targets) = Inr (fs', targets')"
  shows "fs_wf fs' \<and> grows_to e fs fs'"
proof -
  from assms(3) obtain target fs1 where s: "make_parent r fs = Inr fs1" "hardlink target r fs1 = Inr fs'"
    by (auto simp: create_hardlink_def split: if_split_asm)
  from make_parent_keeps [OF assms(1,2) s(1)] have p: "fs_wf fs1" "grows_to e fs fs1" "is_real_dir fs1 (butlast r)" by blast+
  from s(2) obtain n where "add_node r n fs1 = Inr fs'" by (auto simp: hardlink_def split: option.split_asm node.split_asm)
  from add_node_keeps [OF assms(1) p(1,3) this] p(2) grows_to_trans show ?thesis by blast
qed

lemma hardlinks_keep:
  "list_all safe_path rs \<Longrightarrow> fs_wf fs \<Longrightarrow> rfold (create_hardlink hardlinks members) rs (fs, targets) = Inr (fs', targets') \<Longrightarrow>
     fs_wf fs' \<and> grows_to e fs fs'"
proof (induction rs arbitrary: fs targets)
  case (Cons r rs)
  then obtain fs1 targets1 where s: "create_hardlink hardlinks members r (fs, targets) = Inr (fs1, targets1)"
      "rfold (create_hardlink hardlinks members) rs (fs1, targets1) = Inr (fs', targets')" by auto
  from Cons.prems(1) have r: "safe_path r" "list_all safe_path rs" by simp_all
  from create_hardlink_keeps [OF r(1) Cons.prems(2) s(1)] have p: "fs_wf fs1" "grows_to e fs fs1" by blast+
  from Cons.IH [OF r(2) p(1) s(2)] p(2) grows_to_trans show ?case by blast
qed simp

section \<open>The whole extraction\<close>

lemma member_path_safe: "member_path name = Inr p \<Longrightarrow> safe_path p"
  using member_path_sound by blast

lemma index_members_sound:
  "index_members ms acc = Inr members \<Longrightarrow> list_all (\<lambda>(r, m). safe_path r) acc \<Longrightarrow> distinct (map fst acc) \<Longrightarrow>
     list_all (\<lambda>(r, m). safe_path r) members \<and> distinct (map fst members) \<and> set acc \<subseteq> set members \<and>
     (\<forall>m p. m \<in> set ms \<longrightarrow> member_path (m_name m) = Inr p \<longrightarrow> p = [] \<or> (p, m) \<in> set members)"
proof (induction ms arbitrary: acc)
  case (Cons m ms)
  then obtain r where r: "member_path (m_name m) = Inr r" by auto
  show ?case
  proof (cases "r = []")
    case True
    with Cons r show ?thesis by auto
  next
    case False
    with Cons.prems(1) r have "index_members ms (acc @ [(r, m)]) = Inr members" "r \<notin> fst ` set acc"
      by (auto split: if_split_asm)
    moreover from this Cons.prems r have "list_all (\<lambda>(r, m). safe_path r) (acc @ [(r, m)])" "distinct (map fst (acc @ [(r, m)]))"
      by (auto simp: member_path_safe)
    ultimately have "list_all (\<lambda>(r, m). safe_path r) members \<and> distinct (map fst members) \<and> set (acc @ [(r, m)]) \<subseteq> set members \<and>
     (\<forall>m p. m \<in> set ms \<longrightarrow> member_path (m_name m) = Inr p \<longrightarrow> p = [] \<or> (p, m) \<in> set members)"
      using Cons.IH by blast
    with r show ?thesis by auto
  qed
qed simp

text \<open>What a member of the archive is found as in the output.\<close>

definition delivered :: "fs \<Rightarrow> path \<Rightarrow> Member \<Rightarrow> bool" where
  "delivered fs p m =
     (case m_kind m of
        MDir \<Rightarrow> is_real_dir fs p
      | MFile \<Rightarrow> (case m_data m of Some data \<Rightarrow> fs_lookup fs p = Some (File (m_mode m mod 4096) data) | None \<Rightarrow> False)
      | MSym \<Rightarrow> is_link fs p
      | MLnk \<Rightarrow> lexists fs p \<and> \<not> is_real_dir fs p
      | MOther \<Rightarrow> False)"

lemma delivered_grows: "delivered fs p m \<Longrightarrow> grows_to e fs fs' \<Longrightarrow> p \<notin> e \<Longrightarrow> delivered fs' p m"
proof -
  assume a: "delivered fs p m" "grows_to e fs fs'" "p \<notin> e"
  then obtain n n' where "fs_lookup fs p = Some n" "fs_lookup fs' p = Some n'" "keeps_node n n'"
    unfolding delivered_def is_real_dir_def is_link_def lexists_def grows_to_def
    by (cases "fs_lookup fs p") (auto split: member_kind.split_asm option.split_asm)
  with a(1) show ?thesis
    by (auto simp: delivered_def is_real_dir_def is_link_def lexists_def keeps_node_def
        split: member_kind.splits option.splits node.splits)
qed

lemma dir_grows: "is_real_dir fs p \<Longrightarrow> grows_to e fs fs' \<Longrightarrow> p \<notin> e \<Longrightarrow> is_real_dir fs' p"
  using delivered_grows [of fs p "\<lparr>m_name = [], m_kind = MDir, m_mode = 0, m_linkname = [], m_data = None\<rparr>" e fs']
  by (simp add: delivered_def)

lemma materialize_member_delivers:
  assumes "safe_path p" "fs_wf fs" "materialize_member (p, m) fs = Inr fs'" "m_kind m \<noteq> MSym" "m_kind m \<noteq> MLnk"
  shows "delivered fs' p m"
  using assms materialize_directory_keeps [of p fs m fs' "{}"] materialize_file_keeps [of p fs m fs' "{}"]
  by (auto simp: materialize_member_def delivered_def split: member_kind.split_asm)

lemma create_symlink_delivers:
  "create_symlink resolved (p, m) fs = Inr fs' \<Longrightarrow> m_kind m = MSym \<Longrightarrow> delivered fs' p m"
  by (auto simp: create_symlink_def symlink_def delivered_def is_link_def Let_def dest!: lookup_add_node split: if_split_asm)

lemma create_hardlink_delivers:
  "create_hardlink hardlinks members p (fs, targets) = Inr (fs', targets') \<Longrightarrow> m_kind m = MLnk \<Longrightarrow> delivered fs' p m"
  by (auto simp: create_hardlink_def hardlink_def delivered_def lexists_def is_real_dir_def
      dest!: lookup_add_node split: if_split_asm option.split_asm node.split_asm)

lemma hardlinks_deliver:
  "list_all safe_path rs \<Longrightarrow> fs_wf fs \<Longrightarrow> rfold (create_hardlink hardlinks members) rs (fs, targets) = Inr (fs', targets') \<Longrightarrow>
     p \<in> set rs \<Longrightarrow> m_kind m = MLnk \<Longrightarrow> delivered fs' p m"
proof (induction rs arbitrary: fs targets)
  case (Cons r rs)
  then obtain fs1 targets1 where s: "create_hardlink hardlinks members r (fs, targets) = Inr (fs1, targets1)"
      "rfold (create_hardlink hardlinks members) rs (fs1, targets1) = Inr (fs', targets')" by auto
  from Cons.prems(1) have r: "safe_path r" "list_all safe_path rs" by simp_all
  have w: "fs_wf fs1" using create_hardlink_keeps [OF r(1) Cons.prems(2) s(1)] by blast
  show ?case
  proof (cases "p = r")
    case True
    with create_hardlink_delivers s(1) Cons.prems(5) have "delivered fs1 p m" by blast
    moreover have "grows_to {} fs1 fs'" using hardlinks_keep [OF r(2) w s(2)] by blast
    ultimately show ?thesis using delivered_grows by blast
  next
    case False
    with Cons.prems Cons.IH [OF r(2) w s(2)] show ?thesis by simp
  qed
qed simp

lemma rmap_keyed: "rmap (\<lambda>x. rbind (f x) (\<lambda>d. Inr (d, x))) xs = Inr ys \<Longrightarrow> map snd ys = xs"
  by (induction xs arbitrary: ys) auto

lemma symlinks_keep:
  assumes "list_all (\<lambda>(r, m). safe_path r) symlinks" "fs_wf fs" "resolve_symlink_graph symlinks members fs = Inr fs'"
  shows "fs_wf fs' \<and> grows_to e fs fs' \<and> (\<forall>(p, m) \<in> set symlinks. m_kind m = MSym \<longrightarrow> delivered fs' p m)"
proof -
  from assms(3) obtain v :: validation and keyed where
      k: "rmap (\<lambda>(relative, member). rbind (link_depth (length symlinks + 1) (v_dependencies v) relative) (\<lambda>d.
              Inr (d, relative, member))) symlinks = Inr keyed"
    and r: "rfold (create_symlink (v_resolved v))
         (map snd (sort_key (\<lambda>(d, relative, member). (d, path_str relative)) keyed)) fs = Inr fs'"
    by (simp only: resolve_symlink_graph_def rbind_eq_Inr) blast
  define links where "links = map snd (sort_key (\<lambda>(d, relative, member). (d, path_str relative)) keyed)"
  have "map snd keyed = symlinks"
    using k rmap_keyed [of "\<lambda>x. link_depth (length symlinks + 1) (v_dependencies v) (fst x)" symlinks keyed]
    by (simp add: case_prod_unfold)
  then have l: "set links = set symlinks" unfolding links_def by force
  then have ok: "list_all (\<lambda>(r, m). safe_path r) links" using assms(1) by (simp add: list_all_iff)
  note r = r [folded links_def]
  have "delivered fs' p m" if "(p, m) \<in> set symlinks" "m_kind m = MSym" for p m
  proof -
    from that(1) l have "(p, m) \<in> set links" by simp
    from create_symlink_step.run_keeps [OF ok assms(2) r this] obtain fs1 fs2
      where "create_symlink (v_resolved v) (p, m) fs1 = Inr fs2" "grows_to {} fs2 fs'" by blast
    with create_symlink_delivers that(2) delivered_grows show ?thesis by blast
  qed
  with create_symlink_step.run_inv [OF ok assms(2) r] create_symlink_step.run_grows [OF ok assms(2) r]
  show ?thesis by blast
qed

lemma extract_members_steps:
  assumes "extract_members source fs = Inr fs'"
  obtains members fs1 fs2 fs3 fs4 fs5 targets where "index_members source [] = Inr members"
    and "materialize_regular_members members fs = Inr fs1" "write_ca_bundle fs1 = Inr fs2"
    and "rfold materialize_runtime_link_target runtime_link_targets fs2 = Inr fs3"
    and "rfold (materialize_empty_directory_target (filter (\<lambda>e. m_kind (snd e) = MSym) members)) EMPTY_DIRECTORY_SYMLINK_TARGETS fs3 = Inr fs4"
    and "rfold (create_hardlink (filter (\<lambda>e. m_kind (snd e) = MLnk) members) members)
      (sort_key path_str (map fst (filter (\<lambda>e. m_kind (snd e) = MLnk) members))) (fs4, []) = Inr (fs5, targets)"
    and "resolve_symlink_graph (filter (\<lambda>e. m_kind (snd e) = MSym) members) members fs5 = Inr fs'"
  using assms unfolding extract_members_def resolve_hardlink_graph_def Let_def by auto

lemma extract_members_sound:
  assumes "fs_wf fs" "no_links fs" "extract_members source fs = Inr fs'"
  shows "fs_wf fs' \<and> grows_to rewritten fs fs' \<and>
    (\<forall>m p. m \<in> set source \<longrightarrow> member_path (m_name m) = Inr p \<longrightarrow> p \<noteq> [] \<longrightarrow> p \<notin> rewritten \<longrightarrow> delivered fs' p m)"
proof -
  from assms(3) show ?thesis
  proof (rule extract_members_steps, goal_cases)
    case (1 members fs1 fs2 fs3 fs4 fs5 targets)
    let ?symlinks = "filter (\<lambda>e. m_kind (snd e) = MSym) members"
    define order where "order = sort_key (\<lambda>(relative, member :: Member). (length relative, path_str relative)) members"
    have m: "list_all (\<lambda>(r, m). safe_path r) members"
      and ix: "m \<in> set source \<Longrightarrow> member_path (m_name m) = Inr p \<Longrightarrow> p = [] \<or> (p, m) \<in> set members" for m p
      using index_members_sound [OF 1(1)] by auto
    from m have ok: "list_all (\<lambda>(r, m). safe_path r) order" by (simp add: order_def list_all_iff)
    from 1(2) have r1: "rfold materialize_member order fs = Inr fs1" by (simp add: order_def materialize_regular_members_def)
    have s1: "fs_wf fs1" "grows_to rewritten fs fs1"
      using materialize_step.run_inv [OF ok assms(1) r1] materialize_step.run_grows [OF ok assms(1) r1] by blast+
    have "no_links fs1" using materialize_no_links.run_inv [OF _ assms(2) r1] by (simp add: list_all_iff)
    from write_ca_bundle_keeps [OF s1(1) this 1(3)] have s2: "fs_wf fs2" "grows_to rewritten fs1 fs2" by blast+
    note s3 = runtime_step.run_inv [OF safe_path_constants(1) s2(1) 1(4)]
      runtime_step.run_grows [OF safe_path_constants(1) s2(1) 1(4), of rewritten]
    note s4 = empty_directory_step.run_inv [OF safe_path_constants(2) s3(1) 1(5)]
      empty_directory_step.run_grows [OF safe_path_constants(2) s3(1) 1(5), of rewritten]
    have h: "list_all safe_path (sort_key path_str (map fst (filter (\<lambda>e. m_kind (snd e) = MLnk) members)))"
      and l: "list_all (\<lambda>(r, m). safe_path r) ?symlinks" using m by (auto simp: list_all_iff)
    from hardlinks_keep [OF h s4(1) 1(6)] have s5: "fs_wf fs5" "grows_to rewritten fs4 fs5" by blast+
    from symlinks_keep [OF l s5(1) 1(7)] have s6: "fs_wf fs'" "grows_to rewritten fs5 fs'"
      and sym: "(p, m) \<in> set ?symlinks \<Longrightarrow> m_kind m = MSym \<Longrightarrow> delivered fs' p m" for p m by blast+
    have g: "grows_to rewritten fs1 fs'" using s2(2) s3(2) s4(2) s5(2) s6(2) by (meson grows_to_trans)
    have "delivered fs' p m" if "(p, m) \<in> set members" "p \<notin> rewritten" for p m
    proof (cases "m_kind m = MSym \<or> m_kind m = MLnk")
      case False
      from that(1) have "(p, m) \<in> set order" by (simp add: order_def)
      from materialize_step.run_keeps [OF ok assms(1) r1 this] obtain fsa fsb
        where "fs_wf fsa" "materialize_member (p, m) fsa = Inr fsb" "grows_to rewritten fsb fs1" by blast
      moreover have "safe_path p" using m that(1) by (auto simp: list_all_iff)
      ultimately have "delivered fs1 p m" using materialize_member_delivers False delivered_grows that(2) by blast
      with delivered_grows g that(2) show ?thesis by blast
    next
      case True
      then show ?thesis
      proof
        assume k: "m_kind m = MLnk"
        with that(1) have "p \<in> set (sort_key path_str (map fst (filter (\<lambda>e. m_kind (snd e) = MLnk) members)))" by force
        with hardlinks_deliver [OF h s4(1) 1(6)] k have "delivered fs5 p m" by blast
        with delivered_grows s6(2) that(2) show ?thesis by blast
      qed (use sym that in simp)
    qed
    with ix s6(1) g s1(2) grows_to_trans show ?case by meson
  qed
qed

lemma extract_archive_steps:
  assumes "extract_archive sha256 tar_members archive expected = Inr fs"
  obtains source fs1 fs2 where "sha256 archive = expected" "tar_members archive = Some source"
    and "extract_members source [] = Inr fs1" "prepare_mount_roots fs1 = Inr fs2"
    and "rfold link_legacy LEGACY_MERGED_USR_LINKS fs2 = Inr fs" "reject_populated_tmp fs = Inr ()"
  using assms unfolding extract_archive_def authenticate_def
  by (auto split: if_split_asm option.split_asm)

lemma prepare_mount_roots_keeps:
  assumes "fs_wf fs" "prepare_mount_roots fs = Inr fs'"
  shows "fs_wf fs' \<and> grows_to rewritten fs fs' \<and> list_all (is_real_dir fs') MOUNT_ROOTS"
proof -
  from assms(2) obtain fs1 where r: "rfold prepare_mount_root MOUNT_ROOTS fs = Inr fs1"
    and t: "fs' = fs1 \<or> \<not> lexists fs1 [''etc'', ''resolv.conf''] \<and> touch [''etc'', ''resolv.conf''] fs1 = Inr fs'"
    by (auto simp: prepare_mount_roots_def split: if_split_asm)
  note s = mount_root_step.run_inv [OF safe_path_constants(3) assms(1) r] mount_root_step.run_grows [OF safe_path_constants(3) assms(1) r]
  have m: "is_real_dir fs1 p" if p: "p \<in> set MOUNT_ROOTS" for p
  proof -
    from mount_root_step.run_keeps [OF safe_path_constants(3) assms(1) r p] obtain fsa fsb
      where "prepare_mount_root p fsa = Inr fsb" "grows_to {} fsb fs1" by blast
    moreover from this(1) have "is_real_dir fsb p"
      by (auto simp: prepare_mount_root_def dest: dir_after_chmod dir_after_mkdir split: if_split_asm)
    ultimately show ?thesis using dir_grows by blast
  qed
  then have "is_real_dir fs1 (butlast [''etc'', ''resolv.conf''])" by (simp add: MOUNT_ROOTS_def)
  with t touch_keeps [OF safe_path_constants(5) s(1)] s(1) have g: "fs_wf fs' \<and> grows_to e fs1 fs'" for e by auto
  have "is_real_dir fs' p" if "p \<in> set MOUNT_ROOTS" for p using g [of "{}"] m that dir_grows by blast
  with g [of rewritten] s(1) s(2) [of rewritten] grows_to_trans show ?thesis by (auto simp: list_all_iff)
qed

lemma legacy_ok: "list_all (\<lambda>e. e \<in> set LEGACY_MERGED_USR_LINKS) LEGACY_MERGED_USR_LINKS"
  by (simp add: list_all_iff)

text \<open>
  C24: When the extraction succeeds, the archive has the expected digest and the output is a tree: every
  entry has a path of proper file names and a parent that is a real directory, so nothing was written
  outside the output directory or through a link; the eight mount points are real directories and
  \<^verbatim>\<open>/tmp\<close> is empty.
\<close>

theorem extract_confined:
  assumes "extract_archive sha256 tar_members archive expected = Inr fs"
  shows "sha256 archive = expected \<and> fs_wf fs \<and> list_all (is_real_dir fs) MOUNT_ROOTS \<and> listdir fs [''tmp''] = []"
  using assms
proof (rule extract_archive_steps, goal_cases)
  case (1 source fs1 fs2)
  from extract_members_sound [OF fs_wf_Nil no_links_Nil 1(3)] have "fs_wf fs1" by blast
  from prepare_mount_roots_keeps [OF this 1(4)] have s2: "fs_wf fs2" and m: "list_all (is_real_dir fs2) MOUNT_ROOTS" by blast+
  note s = legacy_step.run_inv [OF legacy_ok s2 1(5)] legacy_step.run_grows [OF legacy_ok s2 1(5)]
  have "is_real_dir fs p" if "p \<in> set MOUNT_ROOTS" for p
  proof -
    have "p \<notin> rewritten" using that by (auto simp: MOUNT_ROOTS_def rewritten_def LEGACY_MERGED_USR_LINKS_def path_of_def)
    moreover have "is_real_dir fs2 p" using m that by (simp add: list_all_iff)
    ultimately show ?thesis using dir_grows s(2) by blast
  qed
  moreover from this have "is_real_dir fs [''tmp'']" by (simp add: MOUNT_ROOTS_def)
  ultimately show ?case using s(1) 1(1,6) by (auto simp: reject_populated_tmp_def list_all_iff split: if_split_asm)
qed


end
