(* ===== verification/Extract_Links.thy ===== *)
theory Extract_Links
  imports Extract_Tree
begin

text \<open>
  The resolution of symbolic links against the path walk of POSIX. The kernel keeps the directory it
  has reached and continues a relative link from there; \<^verbatim>\<open>_resolve_link_path\<close> prepends the directory of
  the link and starts again at the root. Both reach the same path.
\<close>

section \<open>Path walk\<close>

text \<open>\<open>walks members components base target\<close>: from the directory \<open>base\<close> the components lead to \<open>target\<close>.\<close>

inductive walks :: "(path, Member) dict \<Rightarrow> string list \<Rightarrow> path \<Rightarrow> path \<Rightarrow> bool" for members where
  arrive: "walks members [] base base"
| stay: "c \<in> {[], ''.''} \<Longrightarrow> walks members cs base t \<Longrightarrow> walks members (c # cs) base t"
| up: "base \<noteq> [] \<Longrightarrow> walks members cs (butlast base) t \<Longrightarrow> walks members (''..'' # cs) base t"
| enter: "c \<notin> {[], ''.'', ''..''} \<Longrightarrow> \<not> is_link_member members (base @ [c]) \<Longrightarrow>
    walks members cs (base @ [c]) t \<Longrightarrow> walks members (c # cs) base t"
| follow: "c \<notin> {[], ''.'', ''..''} \<Longrightarrow> map_of members (base @ [c]) = Some m \<Longrightarrow> m_kind m = MSym \<Longrightarrow>
    walks members (split_on (CHR ''/'') (m_linkname m) @ cs) (if starts_with ''/'' (m_linkname m) then [] else base) t \<Longrightarrow>
    walks members (c # cs) base t"

inductive_cases walks_NilE: "walks members [] base t"
inductive_cases walks_ConsE: "walks members (c # cs) base t"

lemma walks_deterministic: "walks members cs base t \<Longrightarrow> walks members cs base t' \<Longrightarrow> t = t'"
proof (induction rule: walks.induct)
  case (arrive base)
  then show ?case by (rule walks_NilE) simp
next
  case (stay c cs base t)
  from stay.prems stay.hyps(1) stay.IH show ?case by (auto elim: walks_ConsE)
next
  case (up base cs t)
  from up.prems up.IH show ?case by (auto elim: walks_ConsE)
next
  case (enter c base cs t)
  from enter.prems enter.hyps(1,2) enter.IH show ?case by (auto elim!: walks_ConsE simp: is_link_member_def)
next
  case (follow c base m cs t)
  from follow.prems follow.hyps(1-3) follow.IH show ?case by (auto elim!: walks_ConsE simp: is_link_member_def)
qed

section \<open>The resolver\<close>

text \<open>Nothing on the way to a resolved directory is a link, so walking to it again leads to it.\<close>

definition settled :: "(path, Member) dict \<Rightarrow> path \<Rightarrow> bool" where
  "settled members p \<longleftrightarrow> (\<forall>i < length p. p ! i \<notin> {[], ''.'', ''..''} \<and> \<not> is_link_member members (take (Suc i) p))"

lemma settled_Nil [simp]: "settled members []"
  by (simp add: settled_def)

lemma settled_butlast: "settled members p \<Longrightarrow> settled members (butlast p)"
  by (auto simp: settled_def nth_butlast take_butlast)

lemma settled_snoc:
  "settled members (p @ [c]) \<longleftrightarrow> settled members p \<and> c \<notin> {[], ''.'', ''..''} \<and> \<not> is_link_member members (p @ [c])"
  by (auto simp: settled_def nth_append less_Suc_eq)

lemma rewalk: "settled members (base @ p) \<Longrightarrow> walks members (p @ cs) base t \<Longrightarrow> walks members cs (base @ p) t"
proof (induction p arbitrary: base)
  case (Cons c p)
  have "settled members ((base @ [c]) @ p)" using Cons.prems(1) by simp
  moreover from Cons.prems(1) have "c \<notin> {[], ''.'', ''..''}" "\<not> is_link_member members (base @ [c])"
    unfolding settled_def by (force dest: spec [of _ "length base"])+
  with Cons.prems(2) have "walks members (p @ cs) (base @ [c]) t"
    by (auto elim!: walks_ConsE simp: is_link_member_def)
  ultimately show ?case using Cons.IH by fastforce
qed simp

lemma link_paths_filter: "link_paths members = fst ` set (filter (\<lambda>e. m_kind (snd e) = MSym) members)"
  by (simp add: link_paths_def)

definition link_error :: "(path, Member) dict \<Rightarrow> path \<Rightarrow> extract_error \<Rightarrow> bool" where
  "link_error members r e \<longleftrightarrow> e = Symlink_escapes r \<or> (\<exists>q \<in> link_paths members. e = Symlink_cycle q)"

definition resolution_ok :: "(path, Member) dict \<Rightarrow> path \<Rightarrow> string list \<Rightarrow> path \<Rightarrow> extract_error + path \<times> path list \<Rightarrow> bool" where
  "resolution_ok members r cs base res \<longleftrightarrow>
     (case res of
        Inr (t, deps) \<Rightarrow> walks members cs base t \<and> settled members t \<and> distinct deps \<and> set deps \<subseteq> link_paths members
      | Inl e \<Rightarrow> link_error members r e)"

lemma resolve_loop_ok:
  assumes "settled members base" "distinct deps" "set deps \<subseteq> link_paths members" "card (link_paths members) \<le> n"
  shows "resolution_ok members r cs base (resolve_loop_links members n r cs base deps)"
  using assms
proof (induction members n r cs base deps rule: resolve_loop_links.induct)
  case (1 members n r cs base deps)
  show ?case
  proof (cases cs)
    case Nil
    with "1.prems" show ?thesis by (simp add: resolve_loop_links.simps resolution_ok_def arrive)
  next
    case (Cons c rest)
    note eq = resolve_loop_links.simps [of members n r "c # rest" base deps]
    consider "c \<in> {[], ''.''}" | "c = ''..''" | "c \<notin> {[], ''.'', ''..''}" "\<not> is_link_member members (base @ [c])"
      | "c \<notin> {[], ''.'', ''..''}" "is_link_member members (base @ [c])" by blast
    then show ?thesis
    proof cases
      case 1
      then have "resolve_loop_links members n r cs base deps = resolve_loop_links members n r rest base deps"
        by (auto simp: eq Cons)
      moreover have "resolution_ok members r rest base (resolve_loop_links members n r rest base deps)"
        using "1.IH"(1) [OF Cons 1] "1.prems" by blast
      ultimately show ?thesis using stay [OF 1, of members rest base] Cons
        by (auto simp: resolution_ok_def split: sum.split)
    next
      case 2
      show ?thesis
      proof (cases "base = []")
        case True
        with 2 have "resolve_loop_links members n r cs base deps = Inl (Symlink_escapes r)" using eq by (simp add: Cons)
        then show ?thesis by (simp add: resolution_ok_def link_error_def)
      next
        case False
        with 2 have "resolve_loop_links members n r cs base deps = resolve_loop_links members n r rest (butlast base) deps"
          using eq by (simp add: Cons)
        moreover have "resolution_ok members r rest (butlast base) (resolve_loop_links members n r rest (butlast base) deps)"
          using "1.IH"(2) [OF Cons _ 2 False] "1.prems" settled_butlast 2 by blast
        ultimately show ?thesis using up [OF False, of members rest] Cons 2
          by (auto simp: resolution_ok_def split: sum.split)
      qed
    next
      case 3
      then have "resolve_loop_links members n r cs base deps = resolve_loop_links members n r rest (base @ [c]) deps"
        by (auto simp: eq Cons)
      moreover have "resolution_ok members r rest (base @ [c]) (resolve_loop_links members n r rest (base @ [c]) deps)"
        using "1.IH"(4) [OF Cons _ _ refl 3(2)] 3 "1.prems" by (simp add: settled_snoc)
      ultimately show ?thesis using enter [OF 3, of rest] Cons
        by (auto simp: resolution_ok_def split: sum.split)
    next
      case 4
      then obtain m where m: "map_of members (base @ [c]) = Some m" "m_kind m = MSym"
        by (auto simp: is_link_member_def split: option.split_asm)
      define more where "more = raw_link_components (base @ [c]) (m_linkname m) @ rest"
      have in_links: "base @ [c] \<in> link_paths members" using 4(2) by (rule is_link_member_in)
      show ?thesis
      proof (cases "base @ [c] \<in> set deps")
        case True
        with 4 in_links show ?thesis by (auto simp: eq Cons resolution_ok_def link_error_def)
      next
        case False
        let ?deps = "deps @ [base @ [c]]"
        have "card (set ?deps) \<le> card (link_paths members)"
          using "1.prems"(3) in_links by (intro card_mono) (auto simp: link_paths_def)
        then have bound: "length ?deps \<le> n" using "1.prems"(2,4) False by (simp add: distinct_card)
        then have run: "resolve_loop_links members n r cs base deps = resolve_loop_links members n r more [] ?deps"
          using 4 False m by (auto simp: eq Cons more_def Let_def)
        have "resolution_ok members r more [] (resolve_loop_links members n r more [] ?deps)"
          unfolding more_def
          by (rule "1.IH"(3) [OF Cons _ _ refl 4(2) False, of "raw_link_components (base @ [c]) (m_linkname m) @ rest"])
            (use 4 False m bound "1.prems" in_links in auto)
        moreover have "walks members cs base t" if w: "walks members more [] t" for t
        proof -
          have "walks members (split_on (CHR ''/'') (m_linkname m) @ rest)
              (if starts_with ''/'' (m_linkname m) then [] else base) t"
            using w rewalk [of members "[]" base] "1.prems"(1) by (auto simp: more_def raw_link_components_def)
          from follow [OF 4(1) m this] show ?thesis by (simp add: Cons)
        qed
        ultimately show ?thesis unfolding run by (auto simp: resolution_ok_def split: sum.split)
      qed
    qed
  qed
qed

text \<open>
  C26: The resolution of a symbolic link is the path walk of the kernel below the output root: when
  it succeeds, the walk along the link leads to the resolved path, which has no link on the way, and
  the dependencies are the links it met, each once. It fails only for a member that is no link, for a
  walk above the root and for a link that is met twice; the bound on the number of resolutions is
  never reached.
\<close>

theorem resolve_link_walks:
  "case resolve_link_path r (filter (\<lambda>e. m_kind (snd e) = MSym) members) members of
     Inr (t, deps) \<Rightarrow>
       (\<exists>m. map_of (filter (\<lambda>e. m_kind (snd e) = MSym) members) r = Some m \<and>
            walks members (raw_link_components r (m_linkname m)) [] t) \<and>
       settled members t \<and> distinct deps \<and> set deps \<subseteq> link_paths members
   | Inl e \<Rightarrow> e = Key_error r \<or> e = Symlink_escapes r \<or> (\<exists>q. q \<in> link_paths members \<and> e = Symlink_cycle q)"
proof (cases "map_of (filter (\<lambda>e. m_kind (snd e) = MSym) members) r")
  case (Some m)
  have "card (link_paths members) \<le> length (filter (\<lambda>e. m_kind (snd e) = MSym) members)"
    unfolding link_paths_def using card_image_le card_length le_trans by blast
  from resolve_loop_ok [of members "[]" "[]", OF _ _ _ this, of r "raw_link_components r (m_linkname m)"] Some show ?thesis
    by (auto simp: resolve_link_path_def resolution_ok_def link_error_def split: sum.split_asm)
qed (simp add: resolve_link_path_def)

text \<open>
  The set of links that were met is not the set of links that are being followed: a walk that passes
  through the same link twice is rejected as a cycle, although it ends.
\<close>

definition revisit_members :: "(path, Member) dict" where
  "revisit_members =
     (let entry = \<lambda>name kind link. ([name], \<lparr>m_name = name, m_kind = kind, m_mode = mode_755, m_linkname = link, m_data = None\<rparr>)
      in [entry ''d'' MDir [], entry ''l'' MSym ''d'', entry ''x'' MSym ''l/../l/f''])"

text \<open>
  With a directory \<^verbatim>\<open>d\<close> and a link \<^verbatim>\<open>l\<close> to it, the link \<^verbatim>\<open>x -> l/../l/f\<close> leads to \<^verbatim>\<open>d/f\<close> but is
  rejected as part of a cycle.
\<close>

theorem revisited_link_rejected:
  "walks revisit_members (raw_link_components [''x''] ''l/../l/f'') [] [''d'', ''f''] \<and>
   resolve_link_path [''x''] (filter (\<lambda>e. m_kind (snd e) = MSym) revisit_members) revisit_members = Inl (Symlink_cycle [''l''])"
proof
  have raw: "raw_link_components [''x''] ''l/../l/f'' = [''l'', ''..'', ''l'', ''f'']" "split_on (CHR ''/'') ''d'' = [''d'']"
    by code_simp+
  have l: "map_of revisit_members [''l''] = Some \<lparr>m_name = ''l'', m_kind = MSym, m_mode = mode_755, m_linkname = ''d'', m_data = None\<rparr>"
    by (simp add: revisit_members_def)
  have d: "\<not> is_link_member revisit_members [''d'']" "\<not> is_link_member revisit_members [''d'', ''f'']"
    by (simp_all add: is_link_member_def revisit_members_def)
  have f: "walks revisit_members [''f''] [''d''] [''d'', ''f'']"
    by (rule enter) (simp_all add: d arrive)
  have lf: "walks revisit_members [''l'', ''f''] [] [''d'', ''f'']"
    by (rule follow [where m = "the (map_of revisit_members [''l''])"]) (simp_all add: l raw enter d f starts_with_def)
  have "walks revisit_members [''..'', ''l'', ''f''] [''d''] [''d'', ''f'']" by (rule up) (simp_all add: lf)
  then have "walks revisit_members [''l'', ''..'', ''l'', ''f''] [] [''d'', ''f'']"
    by (intro follow [where m = "the (map_of revisit_members [''l''])"]) (simp_all add: l raw enter d starts_with_def)
  then show "walks revisit_members (raw_link_components [''x''] ''l/../l/f'') [] [''d'', ''f'']" by (simp only: raw)
qed code_simp

end
