(* ===== verification/Extract_Fixture.thy ===== *)
theory Extract_Fixture
  imports Extract_Safety Extract_Links
begin

text \<open>A small archive with a member of every kind, for the theorems about the extraction.\<close>

definition sample_members :: "Member list" where
  "sample_members =
     (let entry = \<lambda>name kind link data. \<lparr>m_name = name, m_kind = kind, m_mode = mode_755, m_linkname = link, m_data = data\<rparr>
      in [entry ''./'' MDir [] None, entry ''./usr/'' MDir [] None, entry ''./usr/bin/tool'' MFile [] (Some [1, 2]),
          entry ''./usr/bin/alias'' MSym ''/usr/bin/tool'' None, entry ''./usr/bin/copy'' MLnk ''./usr/bin/tool'' None,
          entry ''./usr/share/ca-certificates/a.crt'' MFile [] (Some [7])])"

definition sample_tree :: fs where
  "sample_tree =
     [([''usr''], Dir 493), ([''usr'', ''bin''], Dir 493), ([''usr'', ''bin'', ''tool''], File 493 [1, 2]),
      ([''usr'', ''share''], Dir 493), ([''usr'', ''share'', ''ca-certificates''], Dir 493),
      ([''usr'', ''share'', ''ca-certificates'', ''a.crt''], File 493 [7]),
      ([''etc''], Dir 493), ([''etc'', ''ssl''], Dir 493), ([''etc'', ''ssl'', ''certs''], Dir 493),
      ([''etc'', ''ssl'', ''certs'', ''ca-certificates.crt''], File 420 [7, 10]),
      ([''etc'', ''environment''], File 420 []), ([''etc'', ''localtime''], File 420 []), ([''dev''], Dir 493),
      ([''dev'', ''null''], File 420 []), ([''etc'', ''modules''], File 420 []), ([''usr'', ''sbin''], Dir 493),
      ([''usr'', ''sbin'', ''rmt''], File 420 []), ([''usr'', ''bin'', ''copy''], File 493 [1, 2]),
      ([''usr'', ''bin'', ''alias''], Symlink ''tool''),
      ([''root''], Dir 493), ([''tmp''], Dir 493), ([''proc''], Dir 493), ([''workspace''], Dir 493),
      ([''inputs''], Dir 493), ([''outputs''], Dir 493), ([''etc'', ''resolv.conf''], File 420 []),
      ([''bin''], Symlink ''usr/bin''), ([''sbin''], Symlink ''usr/sbin''), ([''lib''], Symlink ''usr/lib''),
      ([''lib64''], Symlink ''usr/lib/x86_64-linux-gnu'')]"

lemma sample_extraction: "extract_archive (\<lambda>_. ''d'') (\<lambda>_. Some sample_members) [] ''d'' = Inr sample_tree"
  by code_simp

theorem extract_confined_witness:
  "fs_wf sample_tree \<and> list_all (is_real_dir sample_tree) MOUNT_ROOTS \<and> listdir sample_tree [''tmp''] = []"
  using extract_confined [OF sample_extraction] by blast

lemma alias_member:
  "sample_members ! 3 \<in> set sample_members" "member_path (m_name (sample_members ! 3)) = Inr [''usr'', ''bin'', ''alias'']"
  "[''usr'', ''bin'', ''alias''] \<notin> rewritten"
  by (simp add: sample_members_def Let_def, code_simp, simp add: rewritten_def path_of_def LEGACY_MERGED_USR_LINKS_def)


end
