(* ===== verification/Hw_Tables.thy ===== *)
theory Hw_Tables
  imports Json_Text
begin

text \<open>
  The tables of \<^verbatim>\<open>ci/hardware_qualification_schemas.py\<close>: hardware classes, Secure Boot states and checks, and
  the checks and update results that a passed run of a class in a state needs. A text is its UTF-8
  encoding, one character per byte.
\<close>

section \<open>Constants\<close>

definition DOC :: string where "DOC = ''docs/hardware-qualification.md''"
definition RESULT_SCHEMA :: string where "RESULT_SCHEMA = ''docs/hardware-qualification-result.schema.json''"
definition SIGNOFF_SCHEMA :: string where "SIGNOFF_SCHEMA = ''docs/hardware-qualification-signoff.schema.json''"
definition SCHEMA_BASE :: string where "SCHEMA_BASE = ''https://github.com/maxbirkner/rules_mkosi/blob/main/''"

definition TRANSPORTS :: "(string, string) dict" where
  "TRANSPORTS = [(''nvme'', ''NVMe''), (''sata'', ''SATA''), (''mmc'', ''eMMC''), (''usb'', ''USB'')]"

definition NETWORKS :: "(string, string \<times> string) dict" where
  "NETWORKS = [(''wired'', (''Wired'', ''network-wired'')), (''wifi'', (''Wi-Fi'', ''network-wifi''))]"

definition CONSOLES :: "(string, string \<times> string) dict" where
  "CONSOLES = [(''serial'', (''Serial'', ''console-serial'')), (''graphical'', (''Graphical'', ''console-graphical''))]"

definition TPM2 :: "(string, string \<times> string list) dict" where
  "TPM2 = [(''present'', (''Present'', [''firmware'', ''discrete''])), (''absent'', (''Absent'', [''absent''])),
     (''any'', (''Any'', [''firmware'', ''discrete'', ''absent'']))]"

text \<open>Subscripting one of these tables; every key that a class uses is there.\<close>

definition entry :: "('k, 'v) dict \<Rightarrow> 'k \<Rightarrow> 'v" where
  "entry d k = the (map_of d k)"

record HardwareClass =
  hc_name :: string
  hc_machine :: string
  hc_generation :: string
  hc_tier :: string
  hc_boot_mode :: string
  hc_secure_boot :: "string list"
  hc_transports :: "string list"
  hc_network :: "string list"
  hc_network_note :: string
  hc_consoles :: "string list"
  hc_console_note :: string
  hc_tpm2 :: string

text \<open>A text between backquotes.\<close>

definition code_span :: "string \<Rightarrow> string" where
  "code_span s = [CHR 0x60] @ s @ [CHR 0x60]"

definition CLASSES :: "HardwareClass list" where
  "CLASSES =
     [\<lparr>hc_name = ''uefi-modern-desktop'', hc_machine =
       ''Desktop, small form factor, or mini PC with a plug-in GPU or NIC'', hc_generation = ''2019 or newer'',
       hc_tier = ''uefi'', hc_boot_mode = ''uefi'', hc_secure_boot = [''disabled'', ''setup-mode'',
       ''custom-keys''], hc_transports = [''nvme''], hc_network = [''wired''], hc_network_note = [], hc_consoles
       = [''graphical''], hc_console_note = [], hc_tpm2 = ''present''\<rparr>,
      \<lparr>hc_name = ''uefi-mobile-apu'', hc_machine = ''Laptop or handheld with an AMD APU or Intel mobile SoC'',
       hc_generation = ''2020 or newer'', hc_tier = ''uefi'', hc_boot_mode = ''uefi'', hc_secure_boot =
       [''disabled'', ''setup-mode''], hc_transports = [''nvme''], hc_network = [''wifi''], hc_network_note =
       ''with firmware'', hc_consoles = [''graphical''], hc_console_note = ''internal display'', hc_tpm2 =
       ''present''\<rparr>,
      \<lparr>hc_name = ''uefi-embedded-headless'', hc_machine = ''Fanless industrial box without display'',
       hc_generation = ''2016 or newer'', hc_tier = ''uefi'', hc_boot_mode = ''uefi'', hc_secure_boot =
       [''setup-mode'', ''custom-keys''], hc_transports = [''mmc'', ''sata''], hc_network = [''wired''],
       hc_network_note = ''several ports'', hc_consoles = [''serial''], hc_console_note = [], hc_tpm2 = ''any''\<rparr>,
      \<lparr>hc_name = ''uefi-older-generation'', hc_machine = ''Office desktop of an early UEFI generation'',
       hc_generation = ''2012 to 2018'', hc_tier = ''uefi'', hc_boot_mode = ''uefi'', hc_secure_boot =
       [''disabled'', ''microsoft-factory-keys''], hc_transports = [''sata''], hc_network = [''wired''],
       hc_network_note = [], hc_consoles = [''graphical''], hc_console_note = [], hc_tpm2 = ''absent''\<rparr>,
      \<lparr>hc_name = ''uefi-removable-usb'', hc_machine =
       ''Any UEFI machine starting from the removable-media path'', hc_generation = ''Any'', hc_tier = ''uefi'',
       hc_boot_mode = ''uefi'', hc_secure_boot = [''disabled''], hc_transports = [''usb''], hc_network =
       [''wired''], hc_network_note = [], hc_consoles = [''graphical''], hc_console_note = [], hc_tpm2 = ''any''\<rparr>,
      \<lparr>hc_name = ''bios-legacy-only'', hc_machine = ''Desktop without UEFI'', hc_generation = ''2006 to 2012'',
       hc_tier = ''bios'', hc_boot_mode = ''bios'', hc_secure_boot = [''not-applicable''], hc_transports =
       [''sata''], hc_network = [''wired''], hc_network_note = [], hc_consoles = [''graphical''],
       hc_console_note = ''VGA text, serial if present'', hc_tpm2 = ''absent''\<rparr>,
      \<lparr>hc_name = ''bios-csm'', hc_machine = ''UEFI machine booting through its Compatibility Support Module'',
       hc_generation = ''2012 to 2020'', hc_tier = ''bios'', hc_boot_mode = ''csm'', hc_secure_boot =
       [''not-applicable''], hc_transports = [''sata''], hc_network = [''wired''], hc_network_note = [],
       hc_consoles = [''graphical''], hc_console_note = [], hc_tpm2 = ''any''\<rparr>]"


definition SECURE_BOOT_STATES :: "(string \<times> string \<times> string \<times> string) list" where
  "SECURE_BOOT_STATES =
     [(''disabled'', ''Secure Boot off'', ''Unsigned UEFI release image'', ''Boots; '' @ code_span
       ''bootctl status'' @ '' reports Secure Boot disabled.''),
      (''setup-mode'', ''Secure Boot on, no PK enrolled'', ''['' @ code_span ''secure_boot_signed_image'' @
       ''](secure-boot.md#signed-disk-images-and-key-auto-enrollment) with '' @ code_span ''auto_enroll_keys'' @
       '' and '' @ code_span (''secure_boot_enroll = '' @ [CHR 0x22] @ ''force'' @ [CHR 0x22]),
       ''systemd-boot enrolls the keys and resets; then Secure Boot is enforced.''),
      (''custom-keys'', ''Qualification PK, KEK, and db already enrolled'', code_span
       ''secure_boot_signed_image'' @ '' without '' @ code_span ''auto_enroll_keys'',
       ''Signed binaries boot; an unsigned UKI is refused.''),
      (''microsoft-factory-keys'', ''Vendor default keys'', code_span ''secure_boot_signed_image'' @
       '' without '' @ code_span ''auto_enroll_keys'',
       ''The firmware refuses the custom-signed systemd-boot, which proves enforcement and the need for enrollment.''),
      (''not-applicable'', ''BIOS or CSM boot, Secure Boot off'', ''BIOS release image'',
       ''Secure Boot does not apply.'')]"

definition STATES :: "string list" where "STATES = map fst SECURE_BOOT_STATES"
definition FACTORY_KEYS :: string where "FACTORY_KEYS = ''microsoft-factory-keys''"
definition SIGNED_STATES :: "string list" where "SIGNED_STATES = [''setup-mode'', ''custom-keys'', FACTORY_KEYS]"
definition ENFORCING_STATES :: "string list" where "ENFORCING_STATES = [''setup-mode'', ''custom-keys'']"
definition AUTO_ENROLL_KEYS :: "string list" where "AUTO_ENROLL_KEYS = [''PK.auth'', ''KEK.auth'', ''db.auth'']"

definition FACTORY_KEY_CHECKS :: "string list" where
  "FACTORY_KEY_CHECKS = [''artifact-digest'', ''identity'', ''secure-boot-enforcement'']"

record Check =
  ck_id :: string
  ck_when :: string
  ck_passes :: string
  ck_values :: "string list"

definition CHECKS :: "Check list" where
  "CHECKS =
     [\<lparr>ck_id = ''artifact-digest'', ck_when = ''always'', ck_passes = code_span ''sha256sum'' @
       '' of the written file and of the device read back to the file'' @ [CHR 0x27] @ ''s size match '' @
       code_span ''written_sha256'' @ ''.'', ck_values = []\<rparr>,
      \<lparr>ck_id = ''identity'', ck_when = ''always'', ck_passes = code_span ''/sys/class/dmi/id/'' @ '' and '' @
       code_span ''/proc/cpuinfo'' @ '' values are recorded in '' @ code_span ''machine'' @ ''.'', ck_values =
       []\<rparr>,
      \<lparr>ck_id = ''firmware-boot'', ck_when = ''always'', ck_passes =
       ''The firmware starts the boot loader from the boot disk without a manually created boot entry.'',
       ck_values = []\<rparr>,
      \<lparr>ck_id = ''boot-chain'', ck_when = ''always'', ck_passes = code_span ''uefi'' @ '': '' @ code_span
       ''bootctl status'' @ '' reports systemd-boot and the UKI'' @ [CHR 0x27] @ ''s systemd-stub. '' @
       code_span ''bios'' @ '': '' @ code_span ''/sys/firmware/efi'' @
       '' is absent and the console shows GRUB.'', ck_values = []\<rparr>,
      \<lparr>ck_id = ''boot-to-userspace'', ck_when = ''always'', ck_passes = code_span
       ''systemctl is-system-running --wait'' @ '' prints '' @ code_span ''running'' @ ''.'', ck_values = []\<rparr>,
      \<lparr>ck_id = ''storage'', ck_when = ''always'', ck_passes = code_span ''lsblk -d -o NAME,TRAN,MODEL'' @
       '' shows the class'' @ [CHR 0x27] @ ''s transport for the boot disk, and '' @ code_span
       ''journalctl -k -p err'' @ '' has no storage errors.'', ck_values = []\<rparr>,
      \<lparr>ck_id = ''reboot-poweroff'', ck_when = ''always'', ck_passes = code_span ''systemctl reboot'' @ '' and ''
       @ code_span ''systemctl poweroff'' @ '' complete within two minutes each.'', ck_values = []\<rparr>,
      \<lparr>ck_id = ''tpm2'', ck_when = ''always'', ck_passes = code_span ''systemd-creds has-tpm2'' @ '' matches ''
       @ code_span ''machine.tpm2'' @ '', and boot does not depend on the TPM.'', ck_values = []\<rparr>,
      \<lparr>ck_id = ''verity-root'', ck_when = ''uefi'', ck_passes = code_span ''findmnt -no SOURCE,OPTIONS /'' @
       '' shows a read-only '' @ code_span ''/dev/mapper/'' @ '' device, and '' @ code_span ''/proc/cmdline'' @
       '' contains '' @ code_span ''roothash='' @ ''.'', ck_values = []\<rparr>,
      \<lparr>ck_id = ''ab-update'', ck_when = ''uefi'', ck_passes = ''Release N+1 installs with '' @ code_span
       ''systemd-sysupdate'' @
       '' and is blessed, and release N+2, whose health check fails, rolls back to N+1, as in [boot assessment](sysupdate-ab.md#boot-assessment-and-rollback).'',
       ck_values = []\<rparr>,
      \<lparr>ck_id = ''network-wired'', ck_when = ''network'', ck_passes = ''The interface is '' @ code_span
       ''routable'' @ '' in '' @ code_span ''networkctl status'' @ ''; for '' @ code_span ''uefi'' @ '', the ''
       @ code_span ''ab-update'' @
       '' releases download [over HTTP](sysupdate-ab.md#updates-over-http) through it.'', ck_values =
       [''wired'']\<rparr>,
      \<lparr>ck_id = ''network-wifi'', ck_when = ''network'', ck_passes = code_span ''journalctl -k'' @
       '' shows the firmware loaded without errors, and the interface is '' @ code_span ''routable'' @
       '' on a test access point.'', ck_values = [''wifi'']\<rparr>,
      \<lparr>ck_id = ''console-serial'', ck_when = ''console'', ck_passes =
       ''The serial capture shows boot loader, kernel, and login prompt.'', ck_values = [''serial'']\<rparr>,
      \<lparr>ck_id = ''console-graphical'', ck_when = ''console'', ck_passes =
       ''The display shows the boot menu, kernel output, and login prompt; attach a photo or recording.'',
       ck_values = [''graphical'']\<rparr>,
      \<lparr>ck_id = ''secure-boot-state'', ck_when = ''uefi'', ck_passes = code_span ''bootctl status'' @
       '' reports the state that the run expects.'', ck_values = []\<rparr>,
      \<lparr>ck_id = ''secure-boot-enrollment'', ck_when = ''states'', ck_passes = ''The console shows '' @ code_span
       ''Custom Secure Boot keys successfully enrolled'' @ '', and the next boot reports Secure Boot '' @
       code_span ''enabled (user)'' @ ''.'', ck_values = [''setup-mode'']\<rparr>,
      \<lparr>ck_id = ''secure-boot-enforcement'', ck_when = ''states'', ck_passes = code_span ''setup-mode'' @ '', ''
       @ code_span ''custom-keys'' @ '': release N+3 with an unsigned UKI is refused, systemd-boot logs '' @
       code_span (''Error loading '' @ [CHR 0xE2] @ [CHR 0x80] @ [CHR 0xA6] @ '': Access denied'') @
       '', and N+1 boots after one reset, as in [refused releases](secure-boot.md#releases-that-the-firmware-refuses). ''
       @ code_span ''microsoft-factory-keys'' @
       '': the firmware refuses the custom-signed systemd-boot itself and shows its Secure Boot violation screen; attach a photo.'',
       ck_values = SIGNED_STATES\<rparr>,
      \<lparr>ck_id = ''option-rom'', ck_when = ''class-states'', ck_passes =
       ''Display and network of the plug-in card work with Secure Boot enforced.'', ck_values =
       [''uefi-modern-desktop'', ''setup-mode'', ''custom-keys'']\<rparr>]"

definition CHECK_IDS :: "string list" where "CHECK_IDS = map ck_id CHECKS"

definition FAILURE_CATEGORIES :: "string list" where
  "FAILURE_CATEGORIES = [''provisioning'', ''firmware-boot'', ''secure-boot'', ''boot-loader'', ''kernel-initrd'',
     ''root-integrity'', ''storage'', ''network'', ''console'', ''update-rollback'', ''tpm'', ''power-state'', ''hardware-fault'']"

definition ATTRIBUTIONS :: "string list" where
  "ATTRIBUTIONS = [''rules-mkosi'', ''image-configuration'', ''firmware'', ''hardware'', ''procedure'']"

definition INVALIDATING :: "string list" where "INVALIDATING = [''procedure'', ''hardware'']"

section \<open>What a passed run needs\<close>

definition checks_when :: "string \<Rightarrow> string list" where
  "checks_when w = map ck_id (filter (\<lambda>check. ck_when check = w) CHECKS)"

text \<open>The checks that the network and console kinds of a class require.\<close>

definition dimensions :: "HardwareClass \<Rightarrow> string list" where
  "dimensions c = map (\<lambda>kind. snd (entry NETWORKS kind)) (hc_network c) @ map (\<lambda>kind. snd (entry CONSOLES kind)) (hc_consoles c)"

definition is_required :: "HardwareClass \<Rightarrow> string \<Rightarrow> Check \<Rightarrow> bool" where
  "is_required c state check \<longleftrightarrow>
     ck_when check = ''always''
     \<or> ck_when check = ''uefi'' \<and> hc_tier c = ''uefi''
     \<or> ck_when check \<in> {''network'', ''console''} \<and> ck_id check \<in> set (dimensions c)
     \<or> ck_when check = ''states'' \<and> state \<in> set (ck_values check)
     \<or> ck_when check = ''class-states'' \<and> hc_name c = hd (ck_values check) \<and> state \<in> set (tl (ck_values check))"

definition required_checks :: "HardwareClass \<Rightarrow> string \<Rightarrow> string list" where
  "required_checks c state =
     (if state = FACTORY_KEYS then filter (\<lambda>check. check \<in> set FACTORY_KEY_CHECKS) CHECK_IDS
      else map ck_id (filter (is_required c state) CHECKS))"

definition expected_payloads :: "HardwareClass \<Rightarrow> string \<Rightarrow> string list" where
  "expected_payloads c state =
     (if hc_tier c \<noteq> ''uefi'' \<or> state = FACTORY_KEYS then []
      else [''blessed'', ''rolled-back''] @ (if state \<in> set ENFORCING_STATES then [''refused''] else []))"

end
