(* ===== verification/Json_Schema.thy ===== *)
theory Json_Schema
  imports Json_Text
begin

text \<open>
  JSON Schema as the validator of \<^verbatim>\<open>ci/hardware_qualification_schemas_test.py\<close> reads it: whether an instance
  has no errors against a schema that uses the keywords of the generated schemas. \<open>re_search\<close> is
  \<^verbatim>\<open>re.search\<close>. The recursion through \<^verbatim>\<open>$ref\<close> is bounded by \<open>n\<close>; a reference at the bound is an error.
\<close>

section \<open>Validator\<close>

fun sort_json :: "string json \<Rightarrow> string json" where
  "sort_json (JList xs) = JList (map sort_json xs)"
| "sort_json (JObj kvs) = JObj (sort_key fst (map (\<lambda>(k, v). (k, sort_json v)) kvs))"
| "sort_json v = v"

fun type_ok :: "string \<Rightarrow> string json \<Rightarrow> bool" where
  "type_ok t (JObj _) \<longleftrightarrow> t = ''object''"
| "type_ok t (JList _) \<longleftrightarrow> t = ''array''"
| "type_ok t (JStr _) \<longleftrightarrow> t = ''string''"
| "type_ok t (JBool _) \<longleftrightarrow> t = ''boolean''"
| "type_ok t _ \<longleftrightarrow> False"

definition defs_prefix :: string where "defs_prefix = ''#/$defs/''"

definition ref_target :: "string json \<Rightarrow> string \<Rightarrow> string json option" where
  "ref_target root r =
     (if starts_with defs_prefix r then Option.bind (json_get root ''$defs'') (\<lambda>d. json_get d (drop (length defs_prefix) r))
      else None)"

text \<open>The keywords whose value is no schema.\<close>

definition plain_keyword :: "(string \<Rightarrow> string \<Rightarrow> bool) \<Rightarrow> string \<Rightarrow> string json \<Rightarrow> string json \<Rightarrow> bool" where
  "plain_keyword re_search k s v =
     (if k = ''const'' then v = s
      else if k = ''enum'' then (case s of JList xs \<Rightarrow> v \<in> set xs | _ \<Rightarrow> False)
      else if k = ''type'' then (case s of JStr t \<Rightarrow> type_ok t v | _ \<Rightarrow> False)
      else if k = ''pattern'' then (case (s, v) of (JStr p, JStr t) \<Rightarrow> re_search p t | _ \<Rightarrow> True)
      else if k = ''minLength'' then (case (s, v) of (JInt i, JStr t) \<Rightarrow> i \<le> int (length t) | _ \<Rightarrow> True)
      else if k = ''required'' then
        (case (s, v) of (JList ks, JObj vs) \<Rightarrow> list_all (\<lambda>key. key \<in> JStr ` fst ` set vs) ks | _ \<Rightarrow> True)
      else if k = ''minProperties'' then (case (s, v) of (JInt i, JObj vs) \<Rightarrow> i \<le> int (length vs) | _ \<Rightarrow> True)
      else if k = ''minItems'' then (case (s, v) of (JInt i, JList xs) \<Rightarrow> i \<le> int (length xs) | _ \<Rightarrow> True)
      else if k = ''maxItems'' then (case (s, v) of (JInt i, JList xs) \<Rightarrow> int (length xs) \<le> i | _ \<Rightarrow> True)
      else if k = ''uniqueItems'' then
        (case (s, v) of (JBool b, JList xs) \<Rightarrow> b \<longrightarrow> distinct (map sort_json xs) | _ \<Rightarrow> True)
      else True)"

definition declared_properties :: "(string \<times> string json) list \<Rightarrow> string set" where
  "declared_properties kvs = (case map_of kvs ''properties'' of Some (JObj ps) \<Rightarrow> fst ` set ps | _ \<Rightarrow> {})"

lemma size_member:
  "(k, s) \<in> set kvs \<Longrightarrow> size s < size_list (size_prod (\<lambda>_. 0) size) (kvs :: ('s \<times> 's json) list)"
  by (induction kvs) auto

lemma size_item: "s \<in> set ss \<Longrightarrow> size s < size_list size (ss :: 's json list)"
  by (induction ss) auto

function schema_valid ::
    "(string \<Rightarrow> string \<Rightarrow> bool) \<Rightarrow> string json \<Rightarrow> nat \<Rightarrow> string json \<Rightarrow> string json \<Rightarrow> bool" where
  "schema_valid re_search root n (JObj kvs) v =
     list_all (\<lambda>(k, s).
       if k = ''$ref'' then
         (case n of
            0 \<Rightarrow> False
          | Suc n \<Rightarrow> (case s of JStr r \<Rightarrow>
              (case ref_target root r of Some t \<Rightarrow> schema_valid re_search root n t v | None \<Rightarrow> False) | _ \<Rightarrow> False))
       else if k = ''if'' then
         (if schema_valid re_search root n s v
          then (case map_of kvs ''then'' of Some t \<Rightarrow> schema_valid re_search root n t v | None \<Rightarrow> True)
          else (case map_of kvs ''else'' of Some t \<Rightarrow> schema_valid re_search root n t v | None \<Rightarrow> True))
       else if k = ''not'' then \<not> schema_valid re_search root n s v
       else if k = ''allOf'' then
         (case s of JList ss \<Rightarrow> list_all (\<lambda>sub. schema_valid re_search root n sub v) ss | _ \<Rightarrow> False)
       else if k = ''properties'' then
         (case (s, v) of (JObj ps, JObj vs) \<Rightarrow>
            list_all (\<lambda>(name, sub). case map_of vs name of Some x \<Rightarrow> schema_valid re_search root n sub x | None \<Rightarrow> True) ps
          | _ \<Rightarrow> True)
       else if k = ''additionalProperties'' then
         (case v of JObj vs \<Rightarrow>
            list_all (\<lambda>(name, x). name \<in> declared_properties kvs \<or> schema_valid re_search root n s x) vs
          | _ \<Rightarrow> True)
       else if k = ''propertyNames'' then
         (case v of JObj vs \<Rightarrow> list_all (\<lambda>(name, x). schema_valid re_search root n s (JStr name)) vs | _ \<Rightarrow> True)
       else if k = ''items'' then (case v of JList xs \<Rightarrow> list_all (schema_valid re_search root n s) xs | _ \<Rightarrow> True)
       else if k = ''contains'' then (case v of JList xs \<Rightarrow> list_ex (schema_valid re_search root n s) xs | _ \<Rightarrow> True)
       else plain_keyword re_search k s v) kvs"
| "schema_valid re_search root n (JBool b) v = b"
| "schema_valid re_search root n JNull v = False"
| "schema_valid re_search root n (JInt i) v = False"
| "schema_valid re_search root n (JFloat f) v = False"
| "schema_valid re_search root n (JStr s) v = False"
| "schema_valid re_search root n (JList xs) v = False"
  by pat_completeness auto

termination schema_valid
  by (relation "measures [\<lambda>(re_search, root, n, s, v). n, \<lambda>(re_search, root, n, s, v). size s]")
    (auto dest!: size_member size_item map_of_SomeD intro: less_trans le_less_trans)

declare schema_valid.simps(1) [simp del]

section \<open>Meaning of the keywords\<close>

named_theorems keyword_simps

definition field_ok :: "string json \<Rightarrow> string \<Rightarrow> (string json \<Rightarrow> bool) \<Rightarrow> bool" where
  "field_ok v k P = (case json_get v k of Some x \<Rightarrow> P x | None \<Rightarrow> True)"

lemma field_ok_Some [simp]: "json_get v k = Some x \<Longrightarrow> field_ok v k P = P x"
  by (simp add: field_ok_def)

definition has_keys :: "string json \<Rightarrow> string list \<Rightarrow> bool" where
  "has_keys v ks \<longleftrightarrow> (case v of JObj vs \<Rightarrow> set ks \<subseteq> fst ` set vs | _ \<Rightarrow> True)"

lemma valid_Nil [keyword_simps]: "schema_valid re root n (JObj []) v"
  by (simp add: schema_valid.simps)

lemma valid_const [keyword_simps]: "schema_valid re root n (JObj [(''const'', s)]) v \<longleftrightarrow> v = s"
  by (simp add: schema_valid.simps plain_keyword_def)

lemma valid_enum [keyword_simps]: "schema_valid re root n (JObj [(''enum'', JList xs)]) v \<longleftrightarrow> v \<in> set xs"
  by (simp add: schema_valid.simps plain_keyword_def)

lemma valid_not [keyword_simps]: "schema_valid re root n (JObj [(''not'', s)]) v \<longleftrightarrow> \<not> schema_valid re root n s v"
  by (simp add: schema_valid.simps)

lemma valid_allOf [keyword_simps]:
  "schema_valid re root n (JObj [(''allOf'', JList ss)]) v \<longleftrightarrow> list_all (\<lambda>s. schema_valid re root n s v) ss"
  by (simp add: schema_valid.simps)

lemma valid_if_then [keyword_simps]:
  "schema_valid re root n (JObj [(''if'', c), (''then'', t)]) v \<longleftrightarrow> (schema_valid re root n c v \<longrightarrow> schema_valid re root n t v)"
  by (simp add: schema_valid.simps plain_keyword_def)

lemma valid_properties [keyword_simps]:
  "schema_valid re root n (JObj [(''properties'', JObj ps)]) v \<longleftrightarrow> list_all (\<lambda>(k, s). field_ok v k (schema_valid re root n s)) ps"
  by (cases v) (auto simp: schema_valid.simps field_ok_def list_all_iff)

lemma valid_required [keyword_simps]: "schema_valid re root n (JObj [(''required'', JList (map JStr ks))]) v \<longleftrightarrow> has_keys v ks"
  by (cases v) (auto simp: schema_valid.simps plain_keyword_def has_keys_def list_all_iff)

lemma valid_contains [keyword_simps]:
  "schema_valid re root n (JObj [(''contains'', s)]) (JList xs) \<longleftrightarrow> list_ex (schema_valid re root n s) xs"
  by (simp add: schema_valid.simps)

lemma valid_additional [keyword_simps]:
  "schema_valid re root n (JObj [(''additionalProperties'', s)]) (JObj vs) \<longleftrightarrow> list_all (\<lambda>(k, x). schema_valid re root n s x) vs"
  by (simp add: schema_valid.simps declared_properties_def)

lemma valid_ref [keyword_simps]:
  "schema_valid re root n (JObj [(''$ref'', JStr r)]) v \<longleftrightarrow>
     (\<exists>m t. n = Suc m \<and> ref_target root r = Some t \<and> schema_valid re root m t v)"
  by (auto simp: schema_valid.simps split: nat.split option.split)

lemma valid_required_properties [keyword_simps]:
  "schema_valid re root n (JObj [(''required'', JList (map JStr ks)), (''properties'', JObj ps)]) v \<longleftrightarrow>
     has_keys v ks \<and> list_all (\<lambda>(k, s). field_ok v k (schema_valid re root n s)) ps"
  by (cases v) (auto simp: schema_valid.simps plain_keyword_def has_keys_def field_ok_def list_all_iff)

text \<open>What validity against a schema with more keywords says, keyword by keyword.\<close>

lemma valid_member:
  "schema_valid re root n (JObj kvs) v \<Longrightarrow> (k, s) \<in> set kvs \<Longrightarrow> k \<notin> {''if'', ''additionalProperties''} \<Longrightarrow>
     schema_valid re root n (JObj [(k, s)]) v"
  unfolding schema_valid.simps(1) list_all_iff by fastforce

end
