(* ===== verification/Hw_Schema.thy ===== *)
theory Hw_Schema
  imports Hw_Tables Json_Schema
begin

text \<open>
  The JSON Schemas that \<^verbatim>\<open>ci/hardware_qualification_schemas.py\<close> generates for one qualification run and for a
  release sign-off.
\<close>

type_synonym schema = "string json"

section \<open>Building blocks\<close>

definition strs :: "string list \<Rightarrow> schema" where "strs xs = JList (map JStr xs)"
definition one :: "string \<Rightarrow> schema \<Rightarrow> schema" where "one k s = JObj [(k, s)]"
definition string_type :: "string \<times> schema" where "string_type = (''type'', JStr ''string'')"

definition SHA256 :: schema where "SHA256 = one ''$ref'' (JStr ''#/$defs/sha256'')"
definition NONEMPTY :: schema where "NONEMPTY = one ''$ref'' (JStr ''#/$defs/nonempty_string'')"

definition enum_of :: "string list \<Rightarrow> schema" where
  "enum_of values = (if length values = 1 then one ''const'' (JStr (hd values)) else one ''enum'' (strs values))"

definition obj_extra :: "(string \<times> schema) list \<Rightarrow> string list \<Rightarrow> (string \<times> schema) list \<Rightarrow> (string \<times> schema) list" where
  "obj_extra properties required extra =
     [(''type'', JStr ''object''), (''additionalProperties'', JBool False), (''properties'', JObj properties)]
     @ (if required = [] then [] else [(''required'', strs required)]) @ extra"

definition obj :: "(string \<times> schema) list \<Rightarrow> string list \<Rightarrow> schema" where
  "obj properties required = JObj (obj_extra properties required [])"

definition array_extra :: "schema \<Rightarrow> (string \<times> schema) list \<Rightarrow> schema" where
  "array_extra items extra = JObj ([(''type'', JStr ''array''), (''items'', items)] @ extra)"

abbreviation array_of :: "schema \<Rightarrow> schema" where
  "array_of items \<equiv> array_extra items []"

definition when_part :: "string \<times> string list \<Rightarrow> schema" where
  "when_part condition =
     (case condition of (key, values) \<Rightarrow>
        if key = ''not_secure_boot'' then
          one ''properties'' (one ''firmware'' (one ''properties'' (one ''secure_boot'' (one ''not'' (enum_of values)))))
        else if key \<in> {''secure_boot'', ''tier''} then
          one ''properties'' (one ''firmware'' (one ''properties'' (one key (enum_of values))))
        else one ''properties'' (one key (enum_of values)))"

definition when_schema :: "(string \<times> string list) list \<Rightarrow> schema" where
  "when_schema conditions =
     (let parts = map when_part conditions in if length parts = 1 then hd parts else one ''allOf'' (JList parts))"

definition passed_checks :: "string list \<Rightarrow> schema" where
  "passed_checks ids =
     one ''properties'' (one ''checks''
       (JObj [(''required'', strs ids),
              (''properties'', JObj (map (\<lambda>check. (check, one ''$ref'' (JStr ''#/$defs/passed_check''))) ids))]))"

definition payloads_expected :: "string list \<Rightarrow> schema" where
  "payloads_expected expected =
     one ''properties'' (one ''subject''
       (JObj [(''required'', strs [''update_payloads'']),
              (''properties'', one ''update_payloads'' (one ''allOf''
                 (JList (map (\<lambda>value. one ''contains'' (one ''properties'' (one ''expected'' (one ''const'' (JStr value))))) expected))))]))"

definition some_check :: "string \<Rightarrow> schema" where
  "some_check definition_ref =
     one ''properties'' (one ''checks'' (one ''not'' (one ''additionalProperties'' (one ''not'' (one ''$ref'' (JStr definition_ref))))))"

definition if_then :: "schema \<Rightarrow> schema \<Rightarrow> schema" where
  "if_then c t = JObj [(''if'', c), (''then'', t)]"

section \<open>Rules of a result\<close>

definition class_rule :: "HardwareClass \<Rightarrow> schema" where
  "class_rule c =
     (let firmware = [(''tier'', enum_of [hc_tier c]), (''boot_mode'', enum_of [hc_boot_mode c]),
            (''secure_boot'', enum_of (hc_secure_boot c))];
          machine = [(''boot_disk'', one ''properties'' (one ''transport'' (enum_of (hc_transports c)))),
            (''tpm2'', enum_of (snd (entry TPM2 (hc_tpm2 c))))]
      in if_then (when_schema [(''class'', [hc_name c])])
           (one ''properties'' (JObj [(''firmware'', one ''properties'' (JObj firmware)), (''machine'', one ''properties'' (JObj machine))])))"

definition class_rules :: "schema list" where
  "class_rules = map class_rule CLASSES"

definition signed_image_rules :: "schema list" where
  "signed_image_rules =
     (let keys = map (\<lambda>key. one ''contains'' (one ''properties'' (one ''name'' (one ''const'' (JStr key))))) AUTO_ENROLL_KEYS;
          signed = JObj [(''required'', strs [''signed_binaries'', ''signed_image_record_sha256'']),
            (''properties'', one ''signed_binaries'' (one ''minItems'' (JInt 1)))];
          enrolled = JObj [(''required'', strs [''auto_enroll_keys'']),
            (''properties'', one ''auto_enroll_keys'' (one ''allOf'' (JList keys)))];
          image_rule = \<lambda>s. one ''properties'' (one ''subject'' (one ''properties'' (one ''image'' s)))
      in [if_then (when_schema [(''secure_boot'', SIGNED_STATES)]) (image_rule signed),
          if_then (when_schema [(''secure_boot'', [''setup-mode''])]) (image_rule enrolled)])"

abbreviation outcome_passed :: "string \<times> string list" where
  "outcome_passed \<equiv> (''outcome'', [''passed''])"

definition check_rule :: "Check \<Rightarrow> schema list" where
  "check_rule check =
     (if ck_when check = ''states'' then
        [if_then (when_schema [outcome_passed, (''secure_boot'', filter (\<lambda>state. state \<noteq> FACTORY_KEYS) (ck_values check))])
           (passed_checks [ck_id check])]
      else if ck_when check = ''class-states'' then
        [if_then (when_schema [outcome_passed, (''secure_boot'', tl (ck_values check)), (''class'', [hd (ck_values check)])])
           (passed_checks [ck_id check])]
      else [])"

definition dimension_rule :: "HardwareClass \<Rightarrow> schema" where
  "dimension_rule c =
     if_then (when_schema [outcome_passed, (''not_secure_boot'', [FACTORY_KEYS]), (''class'', [hc_name c])])
       (passed_checks (dimensions c))"

definition not_failed :: schema where
  "not_failed = one ''additionalProperties'' (one ''properties'' (one ''status'' (one ''enum'' (strs [''passed'', ''not-applicable'']))))"

definition passed_rules :: "schema list" where
  "passed_rules =
     [if_then (when_schema [outcome_passed]) (one ''properties'' (one ''checks'' not_failed)),
      if_then (when_schema [outcome_passed, (''not_secure_boot'', [FACTORY_KEYS])]) (passed_checks (checks_when ''always'')),
      if_then (when_schema [outcome_passed, (''secure_boot'', [FACTORY_KEYS])]) (passed_checks FACTORY_KEY_CHECKS),
      if_then (when_schema [outcome_passed, (''tier'', [''uefi'']), (''not_secure_boot'', [FACTORY_KEYS])])
        (one ''allOf'' (JList [passed_checks (checks_when ''uefi''), payloads_expected [''blessed'', ''rolled-back'']])),
      if_then (when_schema [outcome_passed, (''secure_boot'', ENFORCING_STATES)]) (payloads_expected [''refused''])]
     @ concat (map check_rule CHECKS) @ map dimension_rule CLASSES"

definition outcome_rules :: "schema list" where
  "outcome_rules =
     (let failed = some_check ''#/$defs/failed_check''; invalidating = some_check ''#/$defs/invalidating_check''
      in [if_then (when_schema [(''outcome'', [''failed''])]) (one ''allOf'' (JList [failed, one ''not'' invalidating])),
          if_then (when_schema [(''outcome'', [''invalid''])]) invalidating])"

section \<open>Parts of a result\<close>

definition string_pattern :: "string \<Rightarrow> schema" where
  "string_pattern p = JObj [string_type, (''pattern'', JStr p)]"

definition string_format :: "string \<Rightarrow> schema" where
  "string_format f = JObj [string_type, (''format'', JStr f)]"

definition subject_schema :: schema where
  "subject_schema =
     (let signed_binary = obj
            [(''esp_path'', JObj [string_type, (''description'', JStr ''Empty for the UKI, as in the signing request.'')]),
             (''sha256'', SHA256)] [''esp_path'', ''sha256''];
          key = obj [(''name'', one ''enum'' (strs (AUTO_ENROLL_KEYS @ [''dbx.auth'']))), (''sha256'', SHA256)] [''name'', ''sha256''];
          img = obj
            [(''reproducibility_manifest_sha256'', SHA256), (''canonical_sha256'', SHA256), (''written_sha256'', SHA256),
             (''signed_image_record_sha256'', SHA256), (''signed_binaries'', array_of signed_binary), (''auto_enroll_keys'', array_of key)]
            [''reproducibility_manifest_sha256'', ''canonical_sha256'', ''written_sha256''];
          payload = obj
            [(''version'', string_pattern ''^[A-Za-z0-9.]+$''), (''sha256sums_sha256'', SHA256),
             (''expected'', one ''enum'' (strs [''blessed'', ''rolled-back'', ''refused'']))]
            [''version'', ''sha256sums_sha256'', ''expected''];
          rules_mkosi = obj
            [(''commit'', string_pattern ''^[0-9a-f]{40}$''),
             (''version'', string_pattern (''^[0-9]+'' @ [CHR 0x5C] @ ''.[0-9]+'' @ [CHR 0x5C] @ ''.[0-9]+$'')),
             (''archive_sha256'', SHA256)]
            [''commit'']
      in obj [(''rules_mkosi'', rules_mkosi), (''image'', img), (''update_payloads'', array_of payload)] [''rules_mkosi'', ''image''])"

definition machine_schema :: schema where
  "machine_schema =
     (let required_dmi = [''sys_vendor'', ''product_name'', ''bios_vendor'', ''bios_version'', ''bios_date''];
          optional_dmi = [''product_version'', ''board_vendor'', ''board_name''];
          dmi = map (\<lambda>name. (name, NONEMPTY)) required_dmi @ map (\<lambda>name. (name, JObj [string_type])) optional_dmi;
          network = obj [(''kind'', one ''enum'' (strs (map fst NETWORKS))), (''driver'', NONEMPTY), (''firmware'', array_of NONEMPTY)]
            [''kind'', ''driver'']
      in obj
           [(''dmi'', obj dmi required_dmi), (''cpu'', NONEMPTY),
            (''boot_disk'', obj [(''transport'', one ''enum'' (strs (map fst TRANSPORTS))), (''model'', NONEMPTY)] [''transport'', ''model'']),
            (''network'', array_of network),
            (''consoles'', array_extra (one ''enum'' (strs (map fst CONSOLES))) [(''minItems'', JInt 1), (''uniqueItems'', JBool True)]),
            (''tpm2'', one ''enum'' (strs (snd (entry TPM2 ''any''))))]
           [''dmi'', ''cpu'', ''boot_disk'', ''network'', ''consoles'', ''tpm2''])"

definition firmware_schema :: schema where
  "firmware_schema = obj
     [(''tier'', one ''enum'' (strs [''uefi'', ''bios''])), (''boot_mode'', one ''enum'' (strs [''uefi'', ''csm'', ''bios''])),
      (''secure_boot'', one ''enum'' (strs STATES)), (''db_includes_microsoft_uefi_ca'', one ''type'' (JStr ''boolean'')),
      (''settings'', array_of NONEMPTY)]
     [''tier'', ''boot_mode'', ''secure_boot'']"

definition status_is :: "string \<Rightarrow> schema" where
  "status_is status = one ''properties'' (one ''status'' (one ''const'' (JStr status)))"

definition check_schema :: schema where
  "check_schema =
     (let some_logs = (''properties'', one ''logs'' (one ''minItems'' (JInt 1)));
          no_failure = (''not'', one ''required'' (strs [''failure'']))
      in JObj (obj_extra
           [(''status'', one ''enum'' (strs [''passed'', ''failed'', ''not-applicable''])),
            (''logs'', array_of (one ''$ref'' (JStr ''#/$defs/log''))),
            (''failure'', one ''$ref'' (JStr ''#/$defs/failure'')), (''notes'', JObj [string_type])]
           [''status'', ''logs'']
           [(''allOf'', JList
              [if_then (status_is ''failed'') (JObj [(''required'', strs [''failure'']), some_logs]),
               if_then (status_is ''passed'') (JObj [no_failure, some_logs]),
               if_then (status_is ''not-applicable'') (JObj [no_failure])])]))"

definition result_defs :: "(string \<times> schema) list" where
  "result_defs =
     (let failure = JObj (obj_extra
            [(''category'', one ''enum'' (strs FAILURE_CATEGORIES)), (''attribution'', one ''enum'' (strs ATTRIBUTIONS)),
             (''summary'', NONEMPTY), (''issue'', string_format ''uri'')]
            [''category'', ''attribution'', ''summary'']
            [(''if'', one ''properties'' (one ''category'' (one ''const'' (JStr ''hardware-fault'')))),
             (''then'', one ''properties'' (one ''attribution'' (one ''const'' (JStr ''hardware''))))]);
          invalidating_failure = one ''properties'' (one ''attribution'' (one ''enum'' (strs INVALIDATING)));
          log_path = string_pattern ''^logs/[A-Za-z0-9._-]+(/[A-Za-z0-9._-]+)*$''
      in [(''check'', check_schema),
          (''failure'', failure),
          (''failed_check'', status_is ''failed''),
          (''invalidating_check'', one ''properties''
             (JObj [(''status'', one ''const'' (JStr ''failed'')), (''failure'', invalidating_failure)])),
          (''passed_check'', status_is ''passed''),
          (''log'', obj [(''path'', log_path), (''sha256'', SHA256)] [''path'', ''sha256'']),
          (''nonempty_string'', JObj [string_type, (''minLength'', JInt 1)]),
          (''sha256'', string_pattern ''^[0-9a-f]{64}$'')])"

definition result_properties :: "(string \<times> schema) list" where
  "result_properties =
     [(''format_version'', one ''const'' (JStr ''rules-mkosi-hardware-qualification-result-v1'')),
      (''class'', one ''enum'' (strs (map hc_name CLASSES))),
      (''subject'', subject_schema),
      (''machine'', machine_schema),
      (''firmware'', firmware_schema),
      (''operator'', NONEMPTY),
      (''started_at'', string_format ''date-time''),
      (''finished_at'', string_format ''date-time''),
      (''checks'', JObj [(''type'', JStr ''object''), (''minProperties'', JInt 1),
         (''propertyNames'', one ''enum'' (strs CHECK_IDS)), (''additionalProperties'', one ''$ref'' (JStr ''#/$defs/check''))]),
      (''outcome'', one ''enum'' (strs [''passed'', ''failed'', ''invalid'']))]"

definition result_schema :: schema where
  "result_schema = JObj
     ([(''$schema'', JStr ''https://json-schema.org/draft/2020-12/schema''),
       (''$id'', JStr (SCHEMA_BASE @ RESULT_SCHEMA)),
       (''title'', JStr ''rules_mkosi hardware qualification result''),
       (''description'', JStr (''One physical qualification run of one machine in one firmware configuration; see '' @ DOC @ ''.''))]
      @ obj_extra result_properties (map fst result_properties)
          [(''allOf'', JList (class_rules @ signed_image_rules @ passed_rules @ outcome_rules))]
      @ [(''$defs'', JObj result_defs)])"

section \<open>Sign-off\<close>

definition signoff_class :: "HardwareClass \<Rightarrow> schema" where
  "signoff_class c =
     one ''allOf'' (JList
       [one ''$ref'' (JStr ''#/$defs/class_entry''),
        one ''properties'' (one ''results'' (one ''items'' (one ''properties'' (one ''secure_boot'' (enum_of (hc_secure_boot c)))))),
        if_then (status_is ''qualified'')
          (one ''properties'' (one ''results'' (one ''allOf'' (JList
             (map (\<lambda>state. one ''contains'' (one ''properties'' (one ''secure_boot'' (one ''const'' (JStr state))))) (hc_secure_boot c))))))])"

definition signoff_defs :: "(string \<times> schema) list" where
  "signoff_defs =
     (let result = obj [(''asset'', NONEMPTY), (''sha256'', SHA256), (''secure_boot'', one ''enum'' (strs STATES))]
            [''asset'', ''sha256'', ''secure_boot''];
          status_rules =
            [if_then (status_is ''failed'') (one ''properties'' (one ''results'' (one ''minItems'' (JInt 1)))),
             if_then (status_is ''not-tested'') (one ''properties'' (one ''results'' (one ''maxItems'' (JInt 0))))];
          class_entry = JObj (obj_extra
            [(''status'', one ''enum'' (strs [''qualified'', ''failed'', ''not-tested''])),
             (''results'', array_extra (one ''$ref'' (JStr ''#/$defs/result'')) [(''uniqueItems'', JBool True)]),
             (''known_issues'', array_of (string_format ''uri''))]
            [''status'', ''results''] [(''allOf'', JList status_rules)])
      in [(''class_entry'', class_entry),
          (''nonempty_string'', JObj [string_type, (''minLength'', JInt 1)]),
          (''result'', result),
          (''sha256'', string_pattern ''^[0-9a-f]{64}$'')])"

definition signoff_schema :: schema where
  "signoff_schema =
     (let release = obj
            [(''tag'', string_pattern (''^v[0-9]+'' @ [CHR 0x5C] @ ''.[0-9]+'' @ [CHR 0x5C] @ ''.[0-9]+$'')),
             (''commit'', string_pattern ''^[0-9a-f]{40}$''), (''archive_sha256'', SHA256)]
            [''tag'', ''commit'', ''archive_sha256''];
          vm_gates = obj [(''ci_run'', string_format ''uri''), (''conclusion'', one ''const'' (JStr ''success''))] [''ci_run'', ''conclusion''];
          classes = map (\<lambda>c. (hc_name c, signoff_class c)) CLASSES;
          properties =
            [(''format_version'', one ''const'' (JStr ''rules-mkosi-hardware-qualification-signoff-v1'')),
             (''release'', release),
             (''vm_gates'', vm_gates),
             (''classes'', obj classes (map fst classes)),
             (''signed_off_by'', NONEMPTY),
             (''signed_off_at'', string_format ''date-time'')]
      in JObj
           ([(''$schema'', JStr ''https://json-schema.org/draft/2020-12/schema''),
             (''$id'', JStr (SCHEMA_BASE @ SIGNOFF_SCHEMA)),
             (''title'', JStr ''rules_mkosi hardware qualification sign-off''),
             (''description'', JStr (''The hardware classes that one rules_mkosi release claims, with their attached results; see '' @ DOC @ ''.''))]
            @ obj_extra properties (map fst properties) [] @ [(''$defs'', JObj signoff_defs)]))"

end
