(* ===== verification/Hw_Safety.thy ===== *)
theory Hw_Safety
  imports Hw_Schema
begin

text \<open>
  What the generated schemas demand: a passed run has exactly the checks and update results that
  \<^verbatim>\<open>required_checks\<close> and \<^verbatim>\<open>expected_payloads\<close> list for its class and Secure Boot state.
\<close>

section \<open>Building blocks\<close>

lemma valid_enum_of [keyword_simps]: "schema_valid re root n (enum_of xs) v \<longleftrightarrow> v \<in> JStr ` set xs"
proof (cases "length xs = 1")
  case True
  then obtain x where "xs = [x]" by (cases xs) auto
  then show ?thesis by (simp add: enum_of_def one_def keyword_simps)
qed (simp add: enum_of_def one_def strs_def keyword_simps)

lemma valid_when [keyword_simps]:
  "schema_valid re root n (when_schema conds) v \<longleftrightarrow> list_all (\<lambda>c. schema_valid re root n (when_part c) v) conds"
proof (cases "length conds = 1")
  case True
  then obtain c where "conds = [c]" by (cases conds) auto
  then show ?thesis by (simp add: when_schema_def)
qed (simp add: when_schema_def one_def keyword_simps list_all_iff Let_def)

text \<open>A run: its record with class, tier, Secure Boot state, outcome and checks.\<close>

definition is_run :: "string json \<Rightarrow> HardwareClass \<Rightarrow> string \<Rightarrow> string \<Rightarrow> (string \<times> string json) list \<Rightarrow> bool" where
  "is_run r c state outcome checks \<longleftrightarrow>
     json_get r ''class'' = Some (JStr (hc_name c)) \<and>
     (\<exists>fw. json_get r ''firmware'' = Some fw \<and> json_get fw ''tier'' = Some (JStr (hc_tier c)) \<and>
        json_get fw ''secure_boot'' = Some (JStr state)) \<and>
     json_get r ''outcome'' = Some (JStr outcome) \<and> json_get r ''checks'' = Some (JObj checks)"

definition cond_holds :: "HardwareClass \<Rightarrow> string \<Rightarrow> string \<Rightarrow> string \<times> string list \<Rightarrow> bool" where
  "cond_holds c state outcome cond \<longleftrightarrow>
     (case cond of (k, vs) \<Rightarrow>
        if k = ''not_secure_boot'' then state \<notin> set vs
        else if k = ''secure_boot'' then state \<in> set vs
        else if k = ''tier'' then hc_tier c \<in> set vs
        else if k = ''class'' then hc_name c \<in> set vs
        else outcome \<in> set vs)"

lemma valid_when_part:
  assumes r: "is_run r c state outcome checks"
    and k: "fst cond \<in> {''not_secure_boot'', ''secure_boot'', ''tier'', ''class'', ''outcome''}"
  shows "schema_valid re root n (when_part cond) r \<longleftrightarrow> cond_holds c state outcome cond"
proof -
  obtain k vs where cond: "cond = (k, vs)" by fastforce
  from r obtain fw where f: "json_get r ''class'' = Some (JStr (hc_name c))" "json_get r ''firmware'' = Some fw"
      "json_get fw ''tier'' = Some (JStr (hc_tier c))" "json_get fw ''secure_boot'' = Some (JStr state)"
      "json_get r ''outcome'' = Some (JStr outcome)" by (auto simp: is_run_def)
  have [simp]: "JStr x \<in> JStr ` A \<longleftrightarrow> x \<in> A" for x :: string and A by auto
  from k have "k = ''not_secure_boot'' \<or> k = ''secure_boot'' \<or> k = ''tier'' \<or> k = ''class'' \<or> k = ''outcome''"
    unfolding cond by simp
  then show ?thesis
    by (elim disjE) (simp_all add: cond when_part_def cond_holds_def one_def keyword_simps f)
qed

definition status_ok :: "string json \<Rightarrow> bool" where
  "status_ok ck \<longleftrightarrow> field_ok ck ''status'' (\<lambda>st. st = JStr ''passed'')"

definition check_passed :: "(string \<times> string json) list \<Rightarrow> string \<Rightarrow> bool" where
  "check_passed checks i \<longleftrightarrow> (\<exists>ck. map_of checks i = Some ck \<and> status_ok ck)"

lemma result_defs_of: "json_get result_schema ''$defs'' = Some (JObj result_defs)"
  by (simp add: result_schema_def obj_extra_def)

lemma defs_ref: "ref_target root (defs_prefix @ name) = Option.bind (json_get root ''$defs'') (\<lambda>d. json_get d name)"
  by (simp add: ref_target_def starts_with_def)

lemma result_ref:
  "ref_target result_schema ''#/$defs/passed_check'' = Some (status_is ''passed'')"
  "ref_target result_schema ''#/$defs/failed_check'' = Some (status_is ''failed'')"
  "ref_target result_schema ''#/$defs/check'' = Some check_schema"
  using defs_ref [of result_schema "''passed_check''"] defs_ref [of result_schema "''failed_check''"]
    defs_ref [of result_schema "''check''"]
  by (simp_all add: defs_prefix_def result_defs_of result_defs_def)

lemma valid_status_is [keyword_simps]:
  "schema_valid re root n (status_is st) v \<longleftrightarrow> field_ok v ''status'' (\<lambda>x. x = JStr st)"
  by (simp add: status_is_def one_def keyword_simps field_ok_def split: option.split)

lemma check_passed_iff:
  "check_passed checks i \<longleftrightarrow> i \<in> fst ` set checks \<and> (case map_of checks i of Some ck \<Rightarrow> status_ok ck | None \<Rightarrow> True)"
  unfolding check_passed_def using map_of_eq_None_iff [of checks i] by (cases "map_of checks i") auto

lemma valid_passed_checks:
  assumes "json_get r ''checks'' = Some (JObj checks)"
  shows "schema_valid re result_schema (Suc n) (passed_checks ids) r \<longleftrightarrow> list_all (check_passed checks) ids"
proof -
  have "field_ok (JObj checks) i (schema_valid re result_schema (Suc n) (one ''$ref'' (JStr ''#/$defs/passed_check'')))
      \<longleftrightarrow> (case map_of checks i of Some ck \<Rightarrow> status_ok ck | None \<Rightarrow> True)" for i
    by (simp add: field_ok_def one_def keyword_simps result_ref status_ok_def split: option.split)
  then show ?thesis
    using assms by (auto simp: passed_checks_def one_def strs_def keyword_simps has_keys_def list_all_iff check_passed_iff)
qed

definition payload_recorded :: "string json \<Rightarrow> string \<Rightarrow> bool" where
  "payload_recorded r e \<longleftrightarrow>
     (\<exists>subject xs. json_get r ''subject'' = Some subject \<and> json_get subject ''update_payloads'' = Some (JList xs) \<and>
        list_ex (\<lambda>x. field_ok x ''expected'' (\<lambda>v. v = JStr e)) xs)"

text \<open>A subject as the schema admits it: an object whose update payloads, if there are any, are a list.\<close>

definition subject_shaped :: "string json \<Rightarrow> bool" where
  "subject_shaped r \<longleftrightarrow>
     (\<exists>sj. json_get r ''subject'' = Some (JObj sj) \<and> (\<forall>v. map_of sj ''update_payloads'' = Some v \<longrightarrow> (\<exists>xs. v = JList xs)))"

lemma valid_payloads_expected:
  assumes "subject_shaped r" "es \<noteq> []"
  shows "schema_valid re root n (payloads_expected es) r \<longleftrightarrow> list_all (payload_recorded r) es"
proof -
  from assms(1) obtain sj where sj: "json_get r ''subject'' = Some (JObj sj)"
    and l: "\<And>v. map_of sj ''update_payloads'' = Some v \<Longrightarrow> \<exists>xs. v = JList xs" unfolding subject_shaped_def by blast
  have e: "schema_valid re root n (one ''contains'' (one ''properties'' (one ''expected'' (one ''const'' (JStr e))))) (JList xs)
      \<longleftrightarrow> list_ex (\<lambda>x. field_ok x ''expected'' (\<lambda>v. v = JStr e)) xs" for e xs
    by (simp add: one_def keyword_simps list_ex_iff field_ok_def split: option.split)
  show ?thesis
  proof (cases "map_of sj ''update_payloads''")
    case None
    then have "''update_payloads'' \<notin> fst ` set sj" by (simp add: map_of_eq_None_iff)
    with None assms(2) sj show ?thesis
      by (cases es) (simp_all add: payloads_expected_def one_def strs_def has_keys_def payload_recorded_def
          valid_properties valid_required_properties valid_required_properties [of _ _ _ "[_]", simplified])
  next
    case (Some v)
    with l obtain xs where xs: "map_of sj ''update_payloads'' = Some (JList xs)" by blast
    then have "''update_payloads'' \<in> fst ` set sj" by (force dest: map_of_SomeD)
    with xs sj e [unfolded one_def] show ?thesis
      by (simp add: payloads_expected_def one_def strs_def has_keys_def payload_recorded_def list_all_iff
          valid_properties valid_allOf valid_required_properties [of _ _ _ "[_]", simplified])
  qed
qed

section \<open>The rules of a passed run\<close>

text \<open>The conditions and the checks of the rules, as data.\<close>

definition check_conditions :: "Check \<Rightarrow> ((string \<times> string list) list \<times> string list) list" where
  "check_conditions check =
     (if ck_when check = ''states'' then
        [([outcome_passed, (''secure_boot'', filter (\<lambda>state. state \<noteq> FACTORY_KEYS) (ck_values check))], [ck_id check])]
      else if ck_when check = ''class-states'' then
        [([outcome_passed, (''secure_boot'', tl (ck_values check)), (''class'', [hd (ck_values check)])], [ck_id check])]
      else [])"

definition check_table :: "((string \<times> string list) list \<times> string list) list" where
  "check_table =
     [([outcome_passed, (''not_secure_boot'', [FACTORY_KEYS])], checks_when ''always''),
      ([outcome_passed, (''secure_boot'', [FACTORY_KEYS])], FACTORY_KEY_CHECKS),
      ([outcome_passed, (''tier'', [''uefi'']), (''not_secure_boot'', [FACTORY_KEYS])], checks_when ''uefi'')]
     @ concat (map check_conditions CHECKS)
     @ map (\<lambda>c. ([outcome_passed, (''not_secure_boot'', [FACTORY_KEYS]), (''class'', [hc_name c])], dimensions c)) CLASSES"

definition payload_table :: "((string \<times> string list) list \<times> string list) list" where
  "payload_table =
     [([outcome_passed, (''tier'', [''uefi'']), (''not_secure_boot'', [FACTORY_KEYS])], [''blessed'', ''rolled-back'']),
      ([outcome_passed, (''secure_boot'', ENFORCING_STATES)], [''refused''])]"

definition demanded :: "((string \<times> string list) list \<times> string list) list \<Rightarrow> HardwareClass \<Rightarrow> string \<Rightarrow> string list" where
  "demanded tab c state =
     concat (map snd (filter (\<lambda>(conds, ids). list_all (cond_holds c state ''passed'') conds) tab))"

lemma table_check:
  "list_all (\<lambda>c. list_all (\<lambda>state. set (demanded check_table c state) = set (required_checks c state)) (hc_secure_boot c)) CLASSES"
  "list_all (\<lambda>c. list_all (\<lambda>state. set (demanded payload_table c state) = set (expected_payloads c state)) (hc_secure_boot c)) CLASSES"
  by code_simp+

definition known_conditions :: "(string \<times> string list) list \<Rightarrow> bool" where
  "known_conditions conds \<longleftrightarrow> list_all (\<lambda>c. fst c \<in> {''not_secure_boot'', ''secure_boot'', ''tier'', ''class'', ''outcome''}) conds"

lemma valid_rule:
  assumes "is_run r c state outcome checks" "known_conditions conds"
  shows "schema_valid re root n (if_then (when_schema conds) t) r \<longleftrightarrow>
    (list_all (cond_holds c state outcome) conds \<longrightarrow> schema_valid re root n t r)"
  using assms valid_when_part [OF assms(1)] by (simp add: if_then_def keyword_simps known_conditions_def list_all_iff)

text \<open>The rules hold when every entry of the tables whose conditions hold is satisfied.\<close>

lemma demanded_all:
  "(\<forall>(conds, ids) \<in> set tab. list_all (cond_holds c state ''passed'') conds \<longrightarrow> list_all P ids) \<longleftrightarrow>
     (\<forall>i \<in> set (demanded tab c state). P i)"
  by (auto simp: demanded_def list_all_iff)

lemma valid_check_rule:
  assumes "is_run r c state ''passed'' checks"
  shows "list_all (\<lambda>rule. schema_valid re result_schema (Suc n) rule r) (check_rule check) \<longleftrightarrow>
    (\<forall>(conds, ids) \<in> set (check_conditions check).
       list_all (cond_holds c state ''passed'') conds \<longrightarrow> list_all (check_passed checks) ids)"
proof -
  have "json_get r ''checks'' = Some (JObj checks)" using assms by (simp add: is_run_def)
  note p = valid_passed_checks [OF this]
  show ?thesis
    by (simp add: check_rule_def check_conditions_def valid_rule [OF assms] known_conditions_def p)
qed

definition no_failed_check :: "(string \<times> string json) list \<Rightarrow> bool" where
  "no_failed_check checks \<longleftrightarrow>
     list_all (\<lambda>(i, ck). field_ok ck ''status'' (\<lambda>st. st \<in> {JStr ''passed'', JStr ''not-applicable''})) checks"

lemma valid_not_failed: "schema_valid re root n not_failed (JObj checks) \<longleftrightarrow> no_failed_check checks"
  by (simp add: not_failed_def one_def strs_def keyword_simps no_failed_check_def list_all_iff field_ok_def
      case_prod_unfold valid_enum [of _ _ _ "[_, _]", simplified] split: option.split)

lemma list_all_concat_map: "list_all P (concat (map f xs)) \<longleftrightarrow> (\<forall>x \<in> set xs. list_all P (f x))"
  by (auto simp: list_all_iff)

lemma check_table_all:
  "(\<forall>(conds, ids) \<in> set check_table. R conds ids) \<longleftrightarrow>
     R [outcome_passed, (''not_secure_boot'', [FACTORY_KEYS])] (checks_when ''always'') \<and>
     R [outcome_passed, (''secure_boot'', [FACTORY_KEYS])] FACTORY_KEY_CHECKS \<and>
     R [outcome_passed, (''tier'', [''uefi'']), (''not_secure_boot'', [FACTORY_KEYS])] (checks_when ''uefi'') \<and>
     (\<forall>ck \<in> set CHECKS. \<forall>(conds, ids) \<in> set (check_conditions ck). R conds ids) \<and>
     (\<forall>c \<in> set CLASSES. R [outcome_passed, (''not_secure_boot'', [FACTORY_KEYS]), (''class'', [hc_name c])] (dimensions c))"
  by (simp only: check_table_def set_append set_simps set_concat set_map ball_Un ball_UN ball_simps image_image prod.case
      simp_thms HOL.conj_assoc)

lemma payload_table_all:
  "(\<forall>(conds, es) \<in> set payload_table. R conds es) \<longleftrightarrow>
     R [outcome_passed, (''tier'', [''uefi'']), (''not_secure_boot'', [FACTORY_KEYS])] [''blessed'', ''rolled-back''] \<and>
     R [outcome_passed, (''secure_boot'', ENFORCING_STATES)] [''refused'']"
  by (simp only: payload_table_def set_simps ball_simps prod.case simp_thms)

lemma table_check_for:
  assumes "c \<in> set CLASSES" "state \<in> set (hc_secure_boot c)"
  shows "set (demanded check_table c state) = set (required_checks c state)"
    and "set (demanded payload_table c state) = set (expected_payloads c state)"
  using table_check assms by (simp_all add: list_all_iff)

lemma passed_rules_iff:
  assumes "c \<in> set CLASSES" "state \<in> set (hc_secure_boot c)" "is_run r c state ''passed'' checks" "subject_shaped r"
  shows "list_all (\<lambda>rule. schema_valid re_search result_schema (Suc n) rule r) passed_rules \<longleftrightarrow>
    no_failed_check checks \<and> set (required_checks c state) \<subseteq> Collect (check_passed checks) \<and>
    set (expected_payloads c state) \<subseteq> Collect (payload_recorded r)"
proof -
  let ?V = "\<lambda>rule. schema_valid re_search result_schema (Suc n) rule r"
  let ?H = "list_all (cond_holds c state ''passed'')"
  let ?P = "list_all (check_passed checks)" and ?Q = "list_all (payload_recorded r)"
  have ck: "json_get r ''checks'' = Some (JObj checks)" using assms(3) by (simp add: is_run_def)
  note v = valid_rule [OF assms(3)] valid_passed_checks [OF ck] valid_payloads_expected [OF assms(4)]
  let ?always = "[outcome_passed, (''not_secure_boot'', [FACTORY_KEYS])]"
  let ?factory = "[outcome_passed, (''secure_boot'', [FACTORY_KEYS])]"
  let ?uefi = "[outcome_passed, (''tier'', [''uefi'']), (''not_secure_boot'', [FACTORY_KEYS])]"
  let ?enforcing = "[outcome_passed, (''secure_boot'', ENFORCING_STATES)]"
  let ?of_class = "\<lambda>c. [outcome_passed, (''not_secure_boot'', [FACTORY_KEYS]), (''class'', [hc_name c])]"
  have k: "known_conditions [outcome_passed]" "known_conditions ?always" "known_conditions ?factory"
    "known_conditions ?uefi" "known_conditions ?enforcing" "\<And>c. known_conditions (?of_class c)"
    by (simp_all add: known_conditions_def)
  have h0: "?H [outcome_passed]" by (simp add: cond_holds_def)
  have nf: "?V (one ''properties'' (one ''checks'' not_failed)) \<longleftrightarrow> no_failed_check checks"
    using ck by (simp add: one_def keyword_simps valid_not_failed)
  have dim: "?V (dimension_rule c) \<longleftrightarrow> (?H (?of_class c) \<longrightarrow> ?P (dimensions c))" for c
    unfolding dimension_rule_def v(1) [OF k(6)] v(2) by (rule refl)
  have all_of: "?V (one ''allOf'' (JList [a, b])) \<longleftrightarrow> ?V a \<and> ?V b" for a b by (simp add: one_def keyword_simps)
  have nonempty: "[''blessed'', ''rolled-back''] \<noteq> []" "[''refused''] \<noteq> []" by simp_all
  have "list_all ?V passed_rules \<longleftrightarrow>
      no_failed_check checks \<and> (?H ?always \<longrightarrow> ?P (checks_when ''always'')) \<and> (?H ?factory \<longrightarrow> ?P FACTORY_KEY_CHECKS) \<and>
      (?H ?uefi \<longrightarrow> ?P (checks_when ''uefi'') \<and> ?Q [''blessed'', ''rolled-back'']) \<and> (?H ?enforcing \<longrightarrow> ?Q [''refused'']) \<and>
      (\<forall>ck \<in> set CHECKS. list_all ?V (check_rule ck)) \<and> (\<forall>c \<in> set CLASSES. ?H (?of_class c) \<longrightarrow> ?P (dimensions c))"
    using k h0 nf
    by (simp only: passed_rules_def dim list_all_append list.pred_inject list_all_concat_map list.pred_map
        comp_def v list_all_iff [of _ CLASSES] all_of nonempty simp_thms HOL.conj_assoc)
  also have "\<dots> \<longleftrightarrow> no_failed_check checks \<and>
      (\<forall>(conds, ids) \<in> set check_table. ?H conds \<longrightarrow> ?P ids) \<and> (\<forall>(conds, ids) \<in> set payload_table. ?H conds \<longrightarrow> ?Q ids)"
    unfolding valid_check_rule [OF assms(3)] check_table_all payload_table_all by argo
  also have "\<dots> \<longleftrightarrow> no_failed_check checks \<and> (\<forall>i \<in> set (required_checks c state). check_passed checks i) \<and>
      (\<forall>e \<in> set (expected_payloads c state). payload_recorded r e)"
    unfolding demanded_all table_check_for [OF assms(1,2)] by simp
  finally show ?thesis by (simp only: subset_iff mem_Collect_eq) blast
qed


text \<open>
  C29: The rules that the result schema has for passed runs demand exactly what \<^verbatim>\<open>required_checks\<close> and
  \<^verbatim>\<open>expected_payloads\<close> say: for a run of a class in one of its Secure Boot states, they hold if and only if
  no check failed, every required check is recorded as passed, and every expected update result is
  recorded.
\<close>

theorem passed_rules_exact:
  assumes "c \<in> set CLASSES" "state \<in> set (hc_secure_boot c)" "is_run r c state ''passed'' checks" "subject_shaped r"
  shows "list_all (\<lambda>rule. schema_valid re_search result_schema (Suc n) rule r) passed_rules \<longleftrightarrow>
    no_failed_check checks \<and> set (required_checks c state) \<subseteq> Collect (check_passed checks) \<and>
    set (expected_payloads c state) \<subseteq> Collect (payload_recorded r)"
  by (rule passed_rules_iff [OF assms])

section \<open>The whole result schema\<close>

lemma obj_parts:
  assumes "schema_valid re root n (JObj kvs) r" "set (obj_extra ps req []) \<subseteq> set kvs" "req \<noteq> []"
  shows "\<exists>vs. r = JObj vs" and "k \<in> set req \<Longrightarrow> (k, s) \<in> set ps \<Longrightarrow> \<exists>x. json_get r k = Some x \<and> schema_valid re root n s x"
    and "(k, s) \<in> set ps \<Longrightarrow> json_get r k = Some x \<Longrightarrow> schema_valid re root n s x"
proof -
  note m = valid_member [OF assms(1)]
  have "schema_valid re root n (JObj [(''type'', JStr ''object'')]) r"
    by (rule m) (use assms(2) in \<open>auto simp: obj_extra_def\<close>)
  then show r: "\<exists>vs. r = JObj vs" by (cases r) (simp_all add: schema_valid.simps plain_keyword_def)
  have "schema_valid re root n (JObj [(''required'', JList (map JStr req))]) r"
    by (rule m) (use assms(2,3) in \<open>auto simp: obj_extra_def strs_def\<close>)
  then have q: "has_keys r req" by (simp add: keyword_simps)
  have "schema_valid re root n (JObj [(''properties'', JObj ps)]) r"
    by (rule m) (use assms(2) in \<open>auto simp: obj_extra_def\<close>)
  then have p: "list_all (\<lambda>(k, s). field_ok r k (schema_valid re root n s)) ps" by (simp add: keyword_simps)
  have p': "schema_valid re root n s x" if "(k, s) \<in> set ps" "json_get r k = Some x" for k s x
    using p that by (fastforce simp: list_all_iff)
  then show "(k, s) \<in> set ps \<Longrightarrow> json_get r k = Some x \<Longrightarrow> schema_valid re root n s x" .
  assume k: "k \<in> set req" and s: "(k, s) \<in> set ps"
  obtain vs where vs: "r = JObj vs" using r by blast
  with q k have "k \<in> fst ` set vs" unfolding has_keys_def by auto
  then have "map_of vs k \<noteq> None" by (simp only: map_of_eq_None_iff not_not)
  then obtain y where "json_get r k = Some y" by (auto simp: vs)
  with p' [OF s] show "\<exists>x. json_get r k = Some x \<and> schema_valid re root n s x" by blast
qed

end
