(* ===== verification/Hw_Result.thy ===== *)
theory Hw_Result
  imports Hw_Safety
begin

text \<open>
  Validity against the whole result schema: what every accepted record of a passed run has, and how
  the outcome of a record is tied to its checks.
\<close>

section \<open>Parts of a valid record\<close>

lemma result_keywords:
  "\<exists>kvs. result_schema = JObj kvs \<and> set (obj_extra result_properties (map fst result_properties) []) \<subseteq> set kvs \<and>
     (''allOf'', JList (class_rules @ signed_image_rules @ passed_rules @ outcome_rules)) \<in> set kvs"
  by (intro exI conjI, rule result_schema_def) (auto simp: obj_extra_def)

definition valid_result :: "(string \<Rightarrow> string \<Rightarrow> bool) \<Rightarrow> nat \<Rightarrow> string json \<Rightarrow> bool" where
  "valid_result re_search n r \<longleftrightarrow> schema_valid re_search result_schema n result_schema r"

lemma valid_result_field:
  assumes "valid_result re n r" "(k, s) \<in> set result_properties"
  shows "\<exists>x. json_get r k = Some x \<and> schema_valid re result_schema n s x"
proof -
  from result_keywords obtain kvs where k: "result_schema = JObj kvs"
    "set (obj_extra result_properties (map fst result_properties) []) \<subseteq> set kvs" by blast
  have v: "schema_valid re result_schema n (JObj kvs) r" using assms(1) by (simp add: valid_result_def k(1))
  from assms(2) have "k \<in> set (map fst result_properties)" by force
  moreover have "map fst result_properties \<noteq> []" by (simp add: result_properties_def)
  ultimately show ?thesis using obj_parts(2) [OF v k(2) _ _ assms(2)] by blast
qed

lemma valid_result_rules:
  assumes "valid_result re n r"
  shows "list_all (\<lambda>rule. schema_valid re result_schema n rule r) (class_rules @ signed_image_rules @ passed_rules @ outcome_rules)"
proof -
  from result_keywords obtain kvs where k: "result_schema = JObj kvs"
    "(''allOf'', JList (class_rules @ signed_image_rules @ passed_rules @ outcome_rules)) \<in> set kvs" by blast
  have v: "schema_valid re result_schema n (JObj kvs) r" using assms(1) by (simp add: valid_result_def k(1))
  have "schema_valid re result_schema n (JObj [(''allOf'', JList (class_rules @ signed_image_rules @ passed_rules @ outcome_rules))]) r"
    by (rule valid_member [OF v k(2)]) simp
  then show ?thesis by (simp only: valid_allOf)
qed

lemma valid_obj:
  assumes "schema_valid re root n (obj ps req) r" "req \<noteq> []"
  shows "\<exists>vs. r = JObj vs" and "k \<in> set req \<Longrightarrow> (k, s) \<in> set ps \<Longrightarrow> \<exists>x. json_get r k = Some x \<and> schema_valid re root n s x"
    and "(k, s) \<in> set ps \<Longrightarrow> json_get r k = Some x \<Longrightarrow> schema_valid re root n s x"
  using obj_parts [OF assms(1) [unfolded obj_def] subset_refl assms(2)] by blast+

lemma valid_array: "schema_valid re root n (array_of s) v \<Longrightarrow> \<exists>xs. v = JList xs"
  by (cases v) (simp_all add: array_extra_def schema_valid.simps plain_keyword_def)

text \<open>The bound on references cannot be zero, since every record names its operator.\<close>

lemma valid_result_bound: "valid_result re n r \<Longrightarrow> \<exists>m. n = Suc m"
proof -
  assume v: "valid_result re n r"
  have "(''operator'', NONEMPTY) \<in> set result_properties" by (simp add: result_properties_def)
  from valid_result_field [OF v this] show ?thesis by (auto simp: NONEMPTY_def one_def keyword_simps)
qed

lemma valid_result_class:
  assumes "valid_result re n r"
  shows "\<exists>c \<in> set CLASSES. json_get r ''class'' = Some (JStr (hc_name c))"
proof -
  have "(''class'', one ''enum'' (strs (map hc_name CLASSES))) \<in> set result_properties" by (simp add: result_properties_def)
  from valid_result_field [OF assms this] show ?thesis by (auto simp: one_def strs_def keyword_simps)
qed

lemma valid_result_firmware:
  assumes "valid_result re n r" "c \<in> set CLASSES" "json_get r ''class'' = Some (JStr (hc_name c))"
  shows "\<exists>fw state. json_get r ''firmware'' = Some fw \<and> json_get fw ''tier'' = Some (JStr (hc_tier c)) \<and>
    json_get fw ''secure_boot'' = Some (JStr state) \<and> state \<in> set (hc_secure_boot c)"
proof -
  have "(''firmware'', firmware_schema) \<in> set result_properties" by (simp add: result_properties_def)
  from valid_result_field [OF assms(1) this] obtain fw where f: "json_get r ''firmware'' = Some fw"
    "schema_valid re result_schema n firmware_schema fw" by blast
  note o = valid_obj(2) [OF f(2) [unfolded firmware_schema_def], simplified]
  obtain tier state where t: "json_get fw ''tier'' = Some tier" "json_get fw ''secure_boot'' = Some state"
    using o [of "''tier''"] o [of "''secure_boot''"] by auto
  have "schema_valid re result_schema n (class_rule c) r"
    using valid_result_rules [OF assms(1)] assms(2) by (auto simp: class_rules_def list_all_iff)
  moreover have "schema_valid re result_schema n (when_schema [(''class'', [hc_name c])]) r"
    using assms(3) by (simp add: keyword_simps when_part_def one_def)
  ultimately have "tier = JStr (hc_tier c)" "state \<in> JStr ` set (hc_secure_boot c)"
    using f(1) t by (auto simp: class_rule_def Let_def if_then_def one_def keyword_simps)
  with f(1) t show ?thesis by auto
qed

lemma obj_extra_mono: "set (obj_extra ps req []) \<subseteq> set (obj_extra ps req extra)"
  by (auto simp: obj_extra_def)

lemma check_status: "schema_valid re result_schema n check_schema ck \<Longrightarrow> \<exists>st. json_get ck ''status'' = Some (JStr st)"
proof -
  assume "schema_valid re result_schema n check_schema ck"
  from obj_parts(2) [OF this [unfolded check_schema_def Let_def] obj_extra_mono, where k = "''status''"]
  show ?thesis by (force simp: one_def strs_def valid_enum)
qed

lemma valid_result_checks:
  assumes "valid_result re n r"
  shows "\<exists>checks. json_get r ''checks'' = Some (JObj checks) \<and>
    (\<forall>ck \<in> snd ` set checks. \<exists>m. schema_valid re result_schema m check_schema ck)"
proof -
  let ?s = "JObj [(''type'', JStr ''object''), (''minProperties'', JInt 1),
    (''propertyNames'', one ''enum'' (strs CHECK_IDS)), (''additionalProperties'', one ''$ref'' (JStr ''#/$defs/check''))]"
  have "(''checks'', ?s) \<in> set result_properties" by (simp add: result_properties_def)
  from valid_result_field [OF assms this] obtain x where x: "json_get r ''checks'' = Some x"
    "schema_valid re result_schema n ?s x" by blast
  then obtain checks where c: "x = JObj checks" by (cases x) (simp_all add: schema_valid.simps plain_keyword_def)
  have "\<exists>m. schema_valid re result_schema m check_schema ck" if "(i, ck) \<in> set checks" for i ck
  proof -
    from x(2) that have "schema_valid re result_schema n (one ''$ref'' (JStr ''#/$defs/check'')) ck"
      by (auto simp: c schema_valid.simps(1) [of _ _ _ "[_, _, _, _]"] declared_properties_def list_all_iff)
    then show ?thesis by (auto simp: one_def keyword_simps result_ref)
  qed
  with x(1) c show ?thesis by auto
qed

lemma valid_result_subject:
  assumes "valid_result re n r"
  shows "subject_shaped r"
proof -
  have "(''subject'', subject_schema) \<in> set result_properties" by (simp add: result_properties_def)
  from valid_result_field [OF assms this] obtain x where x: "json_get r ''subject'' = Some x"
    "schema_valid re result_schema n subject_schema x" by blast
  note o = valid_obj [OF x(2) [unfolded subject_schema_def Let_def], simplified]
  from o(1) obtain sj where "x = JObj sj" by blast
  moreover have "\<exists>xs. v = JList xs" if "json_get x ''update_payloads'' = Some v" for v
    using o(3) [of "''update_payloads''", OF _ that] valid_array by fastforce
  ultimately show ?thesis using x(1) unfolding subject_shaped_def by auto
qed

lemma valid_result_run:
  assumes "valid_result re n r" "json_get r ''outcome'' = Some (JStr outcome)"
  shows "\<exists>c state checks. c \<in> set CLASSES \<and> state \<in> set (hc_secure_boot c) \<and> is_run r c state outcome checks \<and>
    (\<forall>ck \<in> snd ` set checks. \<exists>m. schema_valid re result_schema m check_schema ck)"
proof -
  from valid_result_class [OF assms(1)] obtain c where c: "c \<in> set CLASSES" "json_get r ''class'' = Some (JStr (hc_name c))" by blast
  from valid_result_firmware [OF assms(1) c] valid_result_checks [OF assms(1)] c assms(2) show ?thesis
    unfolding is_run_def by blast
qed

text \<open>
  C27: A record that the result schema accepts with outcome \<^verbatim>\<open>passed\<close> is a run of one of the hardware
  classes in one of the Secure Boot states of that class, has every check that \<^verbatim>\<open>required_checks\<close> lists for
  them with status \<^verbatim>\<open>passed\<close>, no check with status \<^verbatim>\<open>failed\<close>, and every update result that
  \<^verbatim>\<open>expected_payloads\<close> lists.
\<close>

theorem passed_result_complete:
  assumes "schema_valid re_search result_schema n result_schema r" "json_get r ''outcome'' = Some (JStr ''passed'')"
  shows "\<exists>c state checks. c \<in> set CLASSES \<and> state \<in> set (hc_secure_boot c) \<and> is_run r c state ''passed'' checks \<and>
    set (required_checks c state) \<subseteq> {i. \<exists>ck. map_of checks i = Some ck \<and> json_get ck ''status'' = Some (JStr ''passed'')} \<and>
    snd ` set checks \<inter> {ck. json_get ck ''status'' = Some (JStr ''failed'')} = {} \<and>
    set (expected_payloads c state) \<subseteq> Collect (payload_recorded r)"
proof -
  have v: "valid_result re_search n r" using assms(1) by (simp add: valid_result_def)
  from valid_result_run [OF v assms(2)] obtain c state checks
    where c: "c \<in> set CLASSES" "state \<in> set (hc_secure_boot c)" "is_run r c state ''passed'' checks"
      and ok: "\<forall>ck \<in> snd ` set checks. \<exists>m. schema_valid re_search result_schema m check_schema ck" by blast
  from ok check_status have st: "\<forall>ck \<in> snd ` set checks. \<exists>st. json_get ck ''status'' = Some (JStr st)" by blast
  from valid_result_bound [OF v] obtain m where m: "n = Suc m" by blast
  have "list_all (\<lambda>rule. schema_valid re_search result_schema (Suc m) rule r) passed_rules"
    using valid_result_rules [OF v] by (simp add: m)
  then have p: "no_failed_check checks" "set (required_checks c state) \<subseteq> Collect (check_passed checks)"
    "set (expected_payloads c state) \<subseteq> Collect (payload_recorded r)"
    using passed_rules_iff [OF c valid_result_subject [OF v]] by blast+
  have "json_get ck ''status'' = Some (JStr ''passed'')" if "map_of checks i = Some ck" "status_ok ck" for i ck
    using that st by (fastforce dest: map_of_SomeD simp: status_ok_def)
  with p(2) have "set (required_checks c state) \<subseteq> {i. \<exists>ck. map_of checks i = Some ck \<and> json_get ck ''status'' = Some (JStr ''passed'')}"
    unfolding check_passed_def by blast
  moreover have "snd ` set checks \<inter> {ck. json_get ck ''status'' = Some (JStr ''failed'')} = {}"
    using p(1) by (fastforce simp: no_failed_check_def list_all_iff field_ok_def)
  ultimately show ?thesis using c p(3) by blast
qed

section \<open>Outcome and checks\<close>

definition is_failed :: "string json \<Rightarrow> bool" where
  "is_failed ck \<longleftrightarrow> json_get ck ''status'' = Some (JStr ''failed'')"

definition is_invalidating :: "string json \<Rightarrow> bool" where
  "is_invalidating ck \<longleftrightarrow> is_failed ck \<and>
     (\<exists>f a. json_get ck ''failure'' = Some f \<and> json_get f ''attribution'' = Some (JStr a) \<and> a \<in> set INVALIDATING)"

text \<open>The outcome that the checks call for.\<close>

definition outcome_of :: "(string \<times> string json) list \<Rightarrow> string" where
  "outcome_of checks =
     (if list_ex (is_invalidating \<circ> snd) checks then ''invalid''
      else if list_ex (is_failed \<circ> snd) checks then ''failed''
      else ''passed'')"

lemma valid_some_check:
  assumes "json_get r ''checks'' = Some (JObj checks)"
  shows "schema_valid re root n (some_check d) r \<longleftrightarrow>
    list_ex (\<lambda>(i, ck). schema_valid re root n (one ''$ref'' (JStr d)) ck) checks"
  using assms by (auto simp: some_check_def one_def keyword_simps list_all_iff list_ex_iff case_prod_unfold)

lemma invalidating_ref:
  "ref_target result_schema ''#/$defs/invalidating_check'' = Some (one ''properties''
     (JObj [(''status'', one ''const'' (JStr ''failed'')), (''failure'', one ''properties'' (one ''attribution'' (one ''enum'' (strs INVALIDATING))))]))"
  using defs_ref [of result_schema "''invalidating_check''"]
  by (simp add: defs_prefix_def result_defs_of result_defs_def)

definition failure_properties :: "(string \<times> schema) list" where
  "failure_properties =
     [(''category'', one ''enum'' (strs FAILURE_CATEGORIES)), (''attribution'', one ''enum'' (strs ATTRIBUTIONS)),
      (''summary'', NONEMPTY), (''issue'', string_format ''uri'')]"

lemma failure_ref:
  "\<exists>extra. ref_target result_schema ''#/$defs/failure'' =
     Some (JObj (obj_extra failure_properties [''category'', ''attribution'', ''summary''] extra))"
  using defs_ref [of result_schema "''failure''"]
  by (auto simp: defs_prefix_def result_defs_of result_defs_def failure_properties_def)

text \<open>A failed check has a failure with an attribution.\<close>

lemma check_failure:
  assumes "schema_valid re result_schema n check_schema ck" "is_failed ck"
  shows "\<exists>f a. json_get ck ''failure'' = Some f \<and> json_get f ''attribution'' = Some (JStr a)"
proof -
  note v = assms(1) [unfolded check_schema_def Let_def]
  note o = obj_parts [OF v obj_extra_mono, simplified]
  have "schema_valid re result_schema n (if_then (status_is ''failed'')
      (JObj [(''required'', strs [''failure'']), (''properties'', one ''logs'' (one ''minItems'' (JInt 1)))])) ck"
    using valid_member [OF v, of "''allOf''"] by (auto simp: obj_extra_def keyword_simps)
  with assms(2) have "has_keys ck [''failure'']"
    by (simp add: if_then_def strs_def one_def keyword_simps is_failed_def valid_required_properties [of _ _ _ "[_]", simplified])
  moreover obtain vs where vs: "ck = JObj vs" using o(1) by blast
  ultimately have "map_of vs ''failure'' \<noteq> None" by (simp add: has_keys_def map_of_eq_None_iff)
  then obtain f where f: "json_get ck ''failure'' = Some f" by (auto simp: vs)
  have "schema_valid re result_schema n (one ''$ref'' (JStr ''#/$defs/failure'')) f"
    by (rule o(3) [OF _ f]) simp
  then obtain m extra where "schema_valid re result_schema m
      (JObj (obj_extra failure_properties [''category'', ''attribution'', ''summary''] extra)) f"
    using failure_ref by (auto simp: one_def keyword_simps)
  from obj_parts(2) [OF this obj_extra_mono, of "''attribution''" "one ''enum'' (strs ATTRIBUTIONS)"]
  have "\<exists>a. json_get f ''attribution'' = Some (JStr a)"
    by (auto simp: failure_properties_def one_def strs_def keyword_simps)
  with f show ?thesis by blast
qed

lemma failed_check_iff:
  assumes "\<exists>st. json_get ck ''status'' = Some (JStr st)"
  shows "schema_valid re result_schema (Suc n) (one ''$ref'' (JStr ''#/$defs/failed_check'')) ck \<longleftrightarrow> is_failed ck"
  using assms by (auto simp: one_def keyword_simps result_ref is_failed_def)

lemma invalidating_check_iff:
  assumes "schema_valid re result_schema m check_schema ck"
  shows "schema_valid re result_schema (Suc n) (one ''$ref'' (JStr ''#/$defs/invalidating_check'')) ck \<longleftrightarrow> is_invalidating ck"
proof -
  from check_status [OF assms] obtain st where st: "json_get ck ''status'' = Some (JStr st)" by blast
  have "schema_valid re result_schema (Suc n) (one ''$ref'' (JStr ''#/$defs/invalidating_check'')) ck \<longleftrightarrow>
      is_failed ck \<and> field_ok ck ''failure'' (\<lambda>f. field_ok f ''attribution'' (\<lambda>a. a \<in> JStr ` set INVALIDATING))"
    by (auto simp: invalidating_ref one_def strs_def keyword_simps st is_failed_def field_ok_def split: option.splits)
  also have "\<dots> \<longleftrightarrow> is_invalidating ck"
    using check_failure [OF assms] by (auto simp: is_invalidating_def)
  finally show ?thesis .
qed

text \<open>
  C28: The outcome of every record that the result schema accepts is determined by its checks: \<^verbatim>\<open>invalid\<close>
  if a failed check is attributed to the procedure or the hardware, otherwise \<^verbatim>\<open>failed\<close> if a check failed,
  otherwise \<^verbatim>\<open>passed\<close>.
\<close>

theorem outcome_determined:
  assumes "schema_valid re_search result_schema n result_schema r"
  shows "\<exists>checks. json_get r ''checks'' = Some (JObj checks) \<and> json_get r ''outcome'' = Some (JStr (outcome_of checks))"
proof -
  have v: "valid_result re_search n r" using assms(1) by (simp add: valid_result_def)
  have "(''outcome'', one ''enum'' (strs [''passed'', ''failed'', ''invalid''])) \<in> set result_properties"
    by (simp add: result_properties_def)
  from valid_result_field [OF v this] obtain out where out: "json_get r ''outcome'' = Some (JStr out)"
    "out \<in> {''passed'', ''failed'', ''invalid''}" by (auto simp: one_def strs_def valid_enum)
  from valid_result_run [OF v out(1)] obtain c state checks where run: "is_run r c state out checks"
    and c: "c \<in> set CLASSES" "state \<in> set (hc_secure_boot c)"
    and ok: "\<forall>ck \<in> snd ` set checks. \<exists>m. schema_valid re_search result_schema m check_schema ck" by blast
  from valid_result_bound [OF v] obtain m where m: "n = Suc m" by blast
  have ck: "json_get r ''checks'' = Some (JObj checks)" using run by (simp add: is_run_def)
  let ?V = "\<lambda>rule. schema_valid re_search result_schema (Suc m) rule r"
  have pt: "schema_valid re_search result_schema (Suc m) (one ''$ref'' (JStr ''#/$defs/failed_check'')) (snd x) = is_failed (snd x)"
    "schema_valid re_search result_schema (Suc m) (one ''$ref'' (JStr ''#/$defs/invalidating_check'')) (snd x) = is_invalidating (snd x)"
    if "x \<in> set checks" for x
    using that ok failed_check_iff [OF check_status] invalidating_check_iff by blast+
  have f: "?V (some_check ''#/$defs/failed_check'') \<longleftrightarrow> list_ex (is_failed \<circ> snd) checks"
    and i: "?V (some_check ''#/$defs/invalidating_check'') \<longleftrightarrow> list_ex (is_invalidating \<circ> snd) checks"
    unfolding valid_some_check [OF ck] list_ex_iff case_prod_unfold comp_def using pt by (intro bex_cong refl, simp)+
  have rules: "list_all ?V outcome_rules" "list_all ?V passed_rules" using valid_result_rules [OF v] by (simp_all add: m)
  have k: "known_conditions [(''outcome'', [x])]" for x by (simp add: known_conditions_def)
  have all_of: "?V (one ''allOf'' (JList [a, b])) \<longleftrightarrow> ?V a \<and> ?V b" "?V (one ''not'' a) \<longleftrightarrow> \<not> ?V a" for a b
    by (simp_all add: one_def keyword_simps)
  from rules(1) have r: "out = ''failed'' \<Longrightarrow> list_ex (is_failed \<circ> snd) checks \<and> \<not> list_ex (is_invalidating \<circ> snd) checks"
    "out = ''invalid'' \<Longrightarrow> list_ex (is_invalidating \<circ> snd) checks"
    by (simp_all add: outcome_rules_def Let_def valid_rule [OF run k] cond_holds_def all_of f i)
  have p: "\<not> list_ex (is_failed \<circ> snd) checks" if "out = ''passed''"
  proof -
    have "no_failed_check checks"
      using passed_rules_iff [OF c run [unfolded that] valid_result_subject [OF v], of re_search m] rules(2) by blast
    then show ?thesis by (fastforce simp: no_failed_check_def list_all_iff list_ex_iff is_failed_def)
  qed
  have "is_invalidating x \<Longrightarrow> is_failed x" for x by (simp add: is_invalidating_def)
  then have imp: "list_ex (is_invalidating \<circ> snd) checks \<Longrightarrow> list_ex (is_failed \<circ> snd) checks" by (auto simp: list_ex_iff)
  from out(2) have "out = ''passed'' \<or> out = ''failed'' \<or> out = ''invalid''" by simp
  then have "out = outcome_of checks" using r p imp unfolding outcome_of_def by (elim disjE) auto
  with out(1) ck show ?thesis by blast
qed

end
