(* ===== verification/Hw_Fixture.thy ===== *)
theory Hw_Fixture
  imports Hw_Result
begin

text \<open>A minimal passed run of the class \<^verbatim>\<open>bios-csm\<close>, for the theorems about the result schema.\<close>

definition sample_checks :: "(string \<times> string json) list" where
  "sample_checks = map (\<lambda>i. (i, JObj [(''status'', JStr ''passed''),
       (''logs'', JList [JObj [(''path'', JStr ''logs/check.txt''), (''sha256'', JStr ''f'')]])]))
     [''artifact-digest'', ''identity'', ''firmware-boot'', ''boot-chain'', ''boot-to-userspace'', ''storage'',
      ''reboot-poweroff'', ''tpm2'', ''network-wired'', ''console-graphical'']"

definition sample_result :: "string json" where
  "sample_result = JObj
     [(''format_version'', JStr ''rules-mkosi-hardware-qualification-result-v1''),
      (''class'', JStr ''bios-csm''),
      (''subject'', JObj [(''rules_mkosi'', JObj [(''commit'', JStr ''0'')]),
         (''image'', JObj [(''reproducibility_manifest_sha256'', JStr ''1''), (''canonical_sha256'', JStr ''1''), (''written_sha256'', JStr ''2'')])]),
      (''machine'', JObj
         [(''dmi'', JObj [(''sys_vendor'', JStr ''x''), (''product_name'', JStr ''x''), (''bios_vendor'', JStr ''x''),
             (''bios_version'', JStr ''x''), (''bios_date'', JStr ''x'')]),
          (''cpu'', JStr ''x''), (''boot_disk'', JObj [(''transport'', JStr ''sata''), (''model'', JStr ''x'')]),
          (''network'', JList [JObj [(''kind'', JStr ''wired''), (''driver'', JStr ''x'')]]),
          (''consoles'', JList [JStr ''graphical'']), (''tpm2'', JStr ''absent'')]),
      (''firmware'', JObj [(''tier'', JStr ''bios''), (''boot_mode'', JStr ''csm''), (''secure_boot'', JStr ''not-applicable'')]),
      (''operator'', JStr ''x''), (''started_at'', JStr ''t''), (''finished_at'', JStr ''t''),
      (''checks'', JObj sample_checks), (''outcome'', JStr ''passed'')]"

section \<open>The sample is valid\<close>

abbreviation sample_ok :: "nat \<Rightarrow> schema \<Rightarrow> string json \<Rightarrow> bool" where
  "sample_ok n s v \<equiv> schema_valid (\<lambda>_ _. True) result_schema n s v"

lemmas evaluate = schema_valid.simps(1) plain_keyword_def one_def strs_def declared_properties_def obj_extra_def obj_def
  string_pattern_def string_format_def string_type_def array_extra_def enum_of_def

lemma sample_refs:
  "ref_target result_schema ''#/$defs/sha256'' = Some (string_pattern ''^[0-9a-f]{64}$'')"
  "ref_target result_schema ''#/$defs/nonempty_string'' = Some (JObj [string_type, (''minLength'', JInt 1)])"
  "ref_target result_schema ''#/$defs/log'' = Some (obj [(''path'', string_pattern ''^logs/[A-Za-z0-9._-]+(/[A-Za-z0-9._-]+)*$''),
     (''sha256'', SHA256)] [''path'', ''sha256''])"
  using defs_ref [of result_schema "''sha256''"] defs_ref [of result_schema "''nonempty_string''"] defs_ref [of result_schema "''log''"]
  by (simp_all add: defs_prefix_def result_defs_of result_defs_def)

lemma sha256_ok: "sample_ok (Suc n) SHA256 (JStr x)"
  by (simp add: SHA256_def evaluate sample_refs)

lemma nonempty_ok: "x \<noteq> [] \<Longrightarrow> sample_ok (Suc n) NONEMPTY (JStr x)"
  by (cases x) (simp_all add: NONEMPTY_def evaluate sample_refs)

lemma check_ok:
  "sample_ok 2 check_schema (JObj [(''status'', JStr ''passed''),
     (''logs'', JList [JObj [(''path'', JStr ''logs/check.txt''), (''sha256'', JStr ''f'')]])])"
  by (simp add: check_schema_def Let_def evaluate if_then_def status_is_def sample_refs numeral_2_eq_2
      sha256_ok)

lemma subject_ok: "sample_ok 3 subject_schema (the (json_get sample_result ''subject''))"
  by (simp add: subject_schema_def Let_def sample_result_def evaluate numeral_3_eq_3 sha256_ok)

lemma machine_ok: "sample_ok 3 machine_schema (the (json_get sample_result ''machine''))"
  by (simp add: machine_schema_def Let_def sample_result_def evaluate numeral_3_eq_3 nonempty_ok NETWORKS_def CONSOLES_def
      TRANSPORTS_def TPM2_def entry_def)

lemma firmware_ok: "sample_ok 3 firmware_schema (the (json_get sample_result ''firmware''))"
  by (simp add: firmware_schema_def sample_result_def evaluate STATES_def SECURE_BOOT_STATES_def)

lemma checks_ok:
  "sample_ok 3 (JObj [(''type'', JStr ''object''), (''minProperties'', JInt 1), (''propertyNames'', one ''enum'' (strs CHECK_IDS)),
     (''additionalProperties'', one ''$ref'' (JStr ''#/$defs/check''))]) (JObj sample_checks)"
  by (simp add: evaluate sample_checks_def CHECK_IDS_def CHECKS_def numeral_3_eq_3 result_ref check_ok [unfolded numeral_2_eq_2])

definition sample_class :: HardwareClass where
  "sample_class = CLASSES ! 6"

lemma sample_class: "sample_class \<in> set CLASSES" "hc_name sample_class = ''bios-csm''" "hc_tier sample_class = ''bios''"
  "hc_boot_mode sample_class = ''csm''" "hc_secure_boot sample_class = [''not-applicable'']"
  by (simp_all add: sample_class_def CLASSES_def)

lemma sample_run: "is_run sample_result sample_class ''not-applicable'' ''passed'' sample_checks"
  by (simp add: is_run_def sample_class sample_result_def)

lemma sample_shaped: "subject_shaped sample_result"
  by (simp add: subject_shaped_def sample_result_def)

lemma sample_required: "required_checks sample_class ''not-applicable'' = map fst sample_checks"
  "expected_payloads sample_class ''not-applicable'' = []"
  by code_simp+

lemma sample_complete:
  "no_failed_check sample_checks \<and> set (required_checks sample_class ''not-applicable'') \<subseteq> Collect (check_passed sample_checks) \<and>
   set (expected_payloads sample_class ''not-applicable'') \<subseteq> Collect (payload_recorded sample_result)"
  unfolding sample_required
  by (simp add: no_failed_check_def sample_checks_def check_passed_def status_ok_def)

lemma passed_rules_ok: "list_all (\<lambda>rule. sample_ok 3 rule sample_result) passed_rules"
  using passed_rules_iff [OF sample_class(1) _ sample_run sample_shaped, of "\<lambda>_ _. True" 2] sample_complete
  by (simp add: sample_class numeral_3_eq_3 numeral_2_eq_2)

lemma class_rules_ok: "list_all (\<lambda>rule. sample_ok 3 rule sample_result) class_rules"
  by (simp add: class_rules_def CLASSES_def class_rule_def Let_def if_then_def when_schema_def when_part_def evaluate
      sample_result_def TPM2_def entry_def)

lemma image_rules_ok: "list_all (\<lambda>rule. sample_ok 3 rule sample_result) signed_image_rules"
  by (simp add: signed_image_rules_def Let_def if_then_def when_schema_def when_part_def evaluate sample_result_def
      SIGNED_STATES_def FACTORY_KEYS_def)

lemma outcome_rules_ok: "list_all (\<lambda>rule. sample_ok 3 rule sample_result) outcome_rules"
  by (simp add: outcome_rules_def Let_def if_then_def when_schema_def when_part_def evaluate sample_result_def)

lemma properties_ok: "list_all (\<lambda>(k, s). field_ok sample_result k (sample_ok 3 s)) result_properties"
  using subject_ok machine_ok firmware_ok checks_ok
  by (simp add: result_properties_def sample_result_def field_ok_def numeral_3_eq_3 nonempty_ok keyword_simps
      one_def strs_def string_format_def string_type_def CLASSES_def schema_valid.simps(1) [of _ _ _ "[_, (''format'', _)]"] plain_keyword_def)

lemma schema_objectI:
  assumes "fst ` set vs = fst ` set ps" "list_all (\<lambda>(k, s). field_ok (JObj vs) k (schema_valid re root n s)) ps"
    and "list_all (\<lambda>rule. schema_valid re root n rule (JObj vs)) rules"
  shows "schema_valid re root n (JObj ([(''$schema'', a), (''$id'', b), (''title'', c), (''description'', d)]
    @ obj_extra ps (map fst ps) [(''allOf'', JList rules)] @ [(''$defs'', e)])) (JObj vs)"
  using assms by (auto simp: schema_valid.simps(1) [of re root n "_ # _"] obj_extra_def plain_keyword_def declared_properties_def
      field_ok_def strs_def list_all_iff) (metis fst_conv image_eqI)

lemma sample_valid: "schema_valid (\<lambda>_ _. True) result_schema 3 result_schema sample_result"
proof -
  have "\<exists>vs. sample_result = JObj vs \<and> map fst vs = map fst result_properties"
    by (simp add: sample_result_def result_properties_def)
  then obtain vs where vs: "sample_result = JObj vs" and k: "fst ` set vs = fst ` set result_properties" by (metis set_map)
  have "schema_valid (\<lambda>_ _. True) root 3 result_schema sample_result" if root: "root = result_schema" for root
    unfolding result_schema_def vs
    by (rule schema_objectI)
      (use k properties_ok class_rules_ok image_rules_ok passed_rules_ok outcome_rules_ok in \<open>simp_all add: vs root\<close>)
  then show ?thesis by blast
qed

lemma sample_outcome: "json_get sample_result ''outcome'' = Some (JStr ''passed'')"
  by (simp add: sample_result_def)

section \<open>Witnesses\<close>

theorem passed_result_complete_witness:
  "\<exists>c state checks. c \<in> set CLASSES \<and> state \<in> set (hc_secure_boot c) \<and> is_run sample_result c state ''passed'' checks \<and>
    set (required_checks c state) \<subseteq> {i. \<exists>ck. map_of checks i = Some ck \<and> json_get ck ''status'' = Some (JStr ''passed'')}"
  using passed_result_complete [OF sample_valid sample_outcome] by blast

theorem outcome_determined_witness:
  "\<exists>checks. json_get sample_result ''checks'' = Some (JObj checks) \<and> json_get sample_result ''outcome'' = Some (JStr (outcome_of checks))"
  using outcome_determined [OF sample_valid] .

theorem passed_rules_exact_witness:
  "list_all (\<lambda>rule. schema_valid (\<lambda>_ _. True) result_schema (Suc 2) rule sample_result) passed_rules"
  using passed_rules_exact [OF sample_class(1) _ sample_run sample_shaped, of "\<lambda>_ _. True" 2] sample_complete
  by (simp add: sample_class)

end
