(* ===== verification/Hw_Doc.thy ===== *)
theory Hw_Doc
  imports Hw_Schema
begin

text \<open>
  The generated files: the tables of the document, their insertion between the markers of the document,
  and the check or rewriting of the committed files. The repository is the list of its files.
\<close>

section \<open>Tables\<close>

definition NL :: char where "NL = CHR 0x0A"

definition code_list :: "string list \<Rightarrow> string" where
  "code_list values = join_with '', '' (map code_span values)"

definition labeled :: "string list \<Rightarrow> string \<Rightarrow> string" where
  "labeled labels note = join_with '', '' labels @ (if note = [] then [] else '' ('' @ note @ '')'')"

definition table_row :: "string list \<Rightarrow> string" where
  "table_row row = ''| '' @ join_with '' | '' row @ '' |''"

definition md_table :: "string list \<Rightarrow> string list list \<Rightarrow> string" where
  "md_table header rows =
     join_with [NL] ([table_row header, table_row (map (\<lambda>_. ''---'') header)] @ map table_row rows)"

definition class_row :: "HardwareClass \<Rightarrow> string list" where
  "class_row c =
     [code_span (hc_name c), hc_machine c, hc_generation c,
      join_with '' or '' (map (entry TRANSPORTS) (hc_transports c)),
      labeled (map (\<lambda>kind. fst (entry NETWORKS kind)) (hc_network c)) (hc_network_note c),
      labeled (map (\<lambda>kind. fst (entry CONSOLES kind)) (hc_consoles c)) (hc_console_note c),
      code_list (hc_secure_boot c), fst (entry TPM2 (hc_tpm2 c))]"

definition classes_table :: string where
  "classes_table =
     md_table [''Class'', ''Representative machine'', ''Generation'', ''Boot disk'', ''Network'', ''Console'', ''Secure Boot states'', ''TPM2'']
       (map class_row CLASSES)"

definition secure_boot_table :: string where
  "secure_boot_table =
     md_table [''State'', ''Firmware before the first boot'', ''Image'', ''Expected result'']
       (map (\<lambda>(name, firmware, img, expected). [code_span name, firmware, img, expected]) SECURE_BOOT_STATES)"

definition required_when :: "Check \<Rightarrow> string" where
  "required_when check =
     (if ck_when check = ''always'' then ''Always''
      else if ck_when check = ''uefi'' then code_span ''uefi''
      else if ck_when check = ''network'' then fst (entry NETWORKS (hd (ck_values check))) @ '' network''
      else if ck_when check = ''console'' then fst (entry CONSOLES (hd (ck_values check))) @ '' console''
      else if ck_when check = ''states'' then code_list (ck_values check)
      else code_span (hd (ck_values check)) @ '' in '' @ join_with '' or '' (map code_span (tl (ck_values check))))"

definition checks_table :: string where
  "checks_table =
     md_table [''Check'', ''Required when'', ''Passes when'']
       (map (\<lambda>check. [code_span (ck_id check), required_when check, ck_passes check]) CHECKS)"

definition TABLES :: "(string, string) dict" where
  "TABLES = [(''classes'', classes_table), (''secure-boot-states'', secure_boot_table), (''checks'', checks_table)]"

section \<open>Markers\<close>

datatype hw_error = Marker_count string nat | No_file string

definition begin_marker :: "string \<Rightarrow> string" where
  "begin_marker name = ''<!-- BEGIN GENERATED '' @ name @ '': python3 ci/hardware_qualification_schemas.py --write -->''"

definition end_marker :: "string \<Rightarrow> string" where
  "end_marker name = ''<!-- END GENERATED '' @ name @ '' -->''"

text \<open>What comes before and after the first occurrence of a text.\<close>

fun split_sub :: "string \<Rightarrow> string \<Rightarrow> (string \<times> string) option" where
  "split_sub needle [] = (if needle = [] then Some ([], []) else None)"
| "split_sub needle (c # s) =
     (if starts_with needle (c # s) then Some ([], drop (length needle) (c # s))
      else map_option (\<lambda>(a, b). (c # a, b)) (split_sub needle s))"

text \<open>
  \<^verbatim>\<open>subn\<close> with the pattern of an opening text, the shortest possible middle and a closing text: every
  match is replaced, and the matches are counted. The opening and the closing text are not empty, so
  every match shortens the rest.
\<close>

definition match_at :: "string \<Rightarrow> string \<Rightarrow> string \<Rightarrow> (string \<times> string) option" where
  "match_at lead trail s =
     (if starts_with lead s then split_sub trail (drop (length lead) s) else None)"

function sub_between :: "string \<Rightarrow> string \<Rightarrow> string \<Rightarrow> string \<Rightarrow> string \<times> nat" where
  "sub_between lead trail replacement [] = ([], 0)"
| "sub_between lead trail replacement (c # s) =
     (case match_at lead trail (c # s) of
        Some (mid, rest) \<Rightarrow>
          if length rest \<le> length s then
            (case sub_between lead trail replacement rest of (t, n) \<Rightarrow> (replacement @ t, Suc n))
          else (c # s, 0)
      | None \<Rightarrow> (case sub_between lead trail replacement s of (t, n) \<Rightarrow> (c # t, n)))"
  by pat_completeness auto

termination sub_between
  by (relation "measure (\<lambda>(lead, trail, replacement, s). length s)") auto

definition render_table :: "string \<Rightarrow> string \<Rightarrow> string \<Rightarrow> hw_error + string" where
  "render_table text_in name content =
     (let replacement = begin_marker name @ [NL, NL] @ content @ [NL, NL] @ end_marker name
      in case sub_between (begin_marker name @ [NL]) ([NL] @ end_marker name) replacement text_in of
           (text_out, found) \<Rightarrow> if found \<noteq> 1 then Inl (Marker_count name found) else Inr text_out)"

fun render_tables :: "(string, string) dict \<Rightarrow> string \<Rightarrow> hw_error + string" where
  "render_tables [] text_in = Inr text_in"
| "render_tables ((name, content) # tables) text_in = rbind (render_table text_in name content) (render_tables tables)"

definition render_doc :: "string \<Rightarrow> hw_error + string" where
  "render_doc = render_tables TABLES"

section \<open>The command\<close>

definition dump_schema :: "schema \<Rightarrow> string" where
  "dump_schema s = json_pretty 0 s @ [NL]"

definition read_file_text :: "(string, string) dict \<Rightarrow> string \<Rightarrow> hw_error + string" where
  "read_file_text files p = (case map_of files p of None \<Rightarrow> Inl (No_file p) | Some t \<Rightarrow> Inr t)"

definition expected_files :: "(string, string) dict \<Rightarrow> hw_error + (string, string) dict" where
  "expected_files files =
     rbind (read_file_text files DOC) (\<lambda>t.
     rbind (render_doc t) (\<lambda>doc.
       Inr [(RESULT_SCHEMA, dump_schema result_schema), (SIGNOFF_SCHEMA, dump_schema signoff_schema), (DOC, doc)]))"

fun check_files :: "bool \<Rightarrow> (string, string) dict \<Rightarrow> (string, string) dict \<Rightarrow> hw_error + (string, string) dict \<times> string list" where
  "check_files write [] files = Inr (files, [])"
| "check_files write ((p, content) # expected) files =
     rbind (read_file_text files p) (\<lambda>t.
       let stale = t \<noteq> content; files = (if stale \<and> write then dict_set p content files else files)
       in rbind (check_files write expected files) (\<lambda>(files, rest). Inr (files, (if stale then p # rest else rest))))"

definition hw_main :: "bool \<Rightarrow> (string, string) dict \<Rightarrow> hw_error + (string, string) dict \<times> int" where
  "hw_main write files =
     rbind (expected_files files) (\<lambda>expected.
     rbind (check_files write expected files) (\<lambda>(files, stale).
       Inr (files, if stale \<noteq> [] \<and> \<not> write then 1 else 0)))"

section \<open>Rendering a table is stable\<close>

lemma starts_with_split: "starts_with p s \<longleftrightarrow> (\<exists>r. s = p @ r)"
  by (metis append_take_drop_id starts_with_append starts_with_def)

lemma split_sub_Some: "split_sub needle s = Some (a, b) \<Longrightarrow> s = a @ needle @ b"
proof (induction needle s arbitrary: a rule: split_sub.induct)
  case (2 needle c s)
  then show ?case by (auto simp: starts_with_split split: if_split_asm)
qed (simp split: if_split_asm)

lemma split_sub_exists: "split_sub needle (a @ needle @ b) \<noteq> None"
proof (induction a)
  case Nil
  then show ?case by (cases needle; cases b) (simp_all add: starts_with_def)
qed auto

text \<open>No occurrence of a text starts before the given one.\<close>

definition fresh_before :: "string \<Rightarrow> string \<Rightarrow> bool" where
  "fresh_before pre needle \<longleftrightarrow> (\<forall>i < length pre. \<not> starts_with needle (drop i (pre @ needle)))"

lemma fresh_before_Cons:
  "fresh_before (c # pre) needle \<longleftrightarrow> \<not> starts_with needle (c # pre @ needle) \<and> fresh_before pre needle"
  by (auto simp: fresh_before_def less_Suc_eq_0_disj)

lemma starts_with_longer: "length p \<le> length s \<Longrightarrow> starts_with p (s @ r) = starts_with p s"
  by (simp add: starts_with_def)

lemma split_sub_fresh:
  assumes "needle \<noteq> []" "fresh_before a needle"
  shows "split_sub needle (a @ needle @ b) = Some (a, b)"
  using assms(2)
proof (induction a)
  case Nil
  then show ?case using assms(1) by (cases needle) (simp_all add: starts_with_def)
next
  case (Cons c a)
  have "starts_with needle (c # a @ needle @ b) = starts_with needle (c # a @ needle)"
    using starts_with_longer [of needle "c # a @ needle" b] by simp
  with Cons show ?case by (simp add: fresh_before_Cons)
qed

lemma sub_between_none: "sub_between lead trail replacement s = (t, 0) \<Longrightarrow> t = s"
proof (induction lead trail replacement s arbitrary: t rule: sub_between.induct)
  case (2 lead trail replacement c s)
  show ?case
  proof (cases "match_at lead trail (c # s)")
    case None
    with 2 show ?thesis by (auto split: prod.split_asm)
  next
    case (Some mr)
    with "2.prems" show ?thesis by (cases mr) (auto split: prod.split_asm if_split_asm)
  qed
qed simp

lemma sub_between_one:
  assumes "sub_between lead trail replacement s = (t, 1)" "trail \<noteq> []"
  shows "\<exists>pre mid post. s = pre @ lead @ mid @ trail @ post \<and> t = pre @ replacement @ post \<and>
    sub_between lead trail replacement post = (post, 0) \<and> fresh_before pre lead"
  using assms
proof (induction lead trail replacement s arbitrary: t rule: sub_between.induct)
  case (2 lead trail replacement c s)
  show ?case
  proof (cases "match_at lead trail (c # s)")
    case None
    with "2.prems"(1) obtain t' where t: "sub_between lead trail replacement s = (t', 1)" "t = c # t'"
      by (auto split: prod.split_asm)
    from "2.IH"(1) [OF None t(1) "2.prems"(2)] obtain pre mid post where p: "s = pre @ lead @ mid @ trail @ post"
      "t' = pre @ replacement @ post" "sub_between lead trail replacement post = (post, 0)" "fresh_before pre lead" by blast
    have "\<not> starts_with lead (c # pre @ lead)"
    proof
      assume a: "starts_with lead (c # pre @ lead)"
      then obtain x where x: "c # pre @ lead = lead @ x" by (auto simp: starts_with_split)
      then have cs: "c # s = lead @ x @ mid @ trail @ post" unfolding p(1) by (metis append.assoc append_Cons)
      then have "match_at lead trail (c # s) = split_sub trail ((x @ mid) @ trail @ post)"
        unfolding match_at_def by (simp add: starts_with_split)
      with None split_sub_exists show False by metis
    qed
    with p t(2) show ?thesis
      by (intro exI [of _ "c # pre"] exI [of _ mid] exI [of _ post]) (simp add: fresh_before_Cons)
  next
    case (Some mr)
    then obtain mid rest where m: "match_at lead trail (c # s) = Some (mid, rest)" by (cases mr) auto
    with "2.prems"(1) obtain t' where t: "sub_between lead trail replacement rest = (t', 0)" "t = replacement @ t'"
      by (auto split: prod.split_asm if_split_asm)
    from m have "c # s = lead @ mid @ trail @ rest"
      by (auto simp: match_at_def starts_with_split dest: split_sub_Some split: if_split_asm)
    with t sub_between_none [OF t(1)] show ?thesis
      by (intro exI [of _ "[]"] exI [of _ mid] exI [of _ rest]) (simp add: fresh_before_def)
  qed
qed simp

lemma sub_between_here:
  assumes "lead \<noteq> []" "trail \<noteq> []" "fresh_before pre lead" "fresh_before mid trail" "sub_between lead trail replacement post = (post, 0)"
  shows "sub_between lead trail replacement (pre @ lead @ mid @ trail @ post) = (pre @ replacement @ post, 1)"
  using assms(3)
proof (induction pre)
  case Nil
  obtain c lead' where l: "lead = c # lead'" using assms(1) by (cases lead) auto
  have "match_at lead trail (lead @ mid @ trail @ post) = Some (mid, post)"
    using split_sub_fresh [OF assms(2,4)] by (simp add: match_at_def starts_with_def)
  with assms(5) show ?case by (simp add: l)
next
  case (Cons c pre)
  have "starts_with lead (c # pre @ lead @ mid @ trail @ post) = starts_with lead (c # pre @ lead)"
    using starts_with_longer [of lead "c # pre @ lead" "mid @ trail @ post"] by simp
  with Cons have "match_at lead trail (c # pre @ lead @ mid @ trail @ post) = None"
    by (simp add: match_at_def fresh_before_Cons)
  with Cons show ?case by (simp add: fresh_before_Cons)
qed

text \<open>A text in which no line starts like a marker.\<close>

fun no_marker_line :: "string \<Rightarrow> bool" where
  "no_marker_line (c # d # s) \<longleftrightarrow> \<not> (c = NL \<and> d = CHR ''<'') \<and> no_marker_line (d # s)"
| "no_marker_line s \<longleftrightarrow> True"

lemma no_marker_line_fresh: "no_marker_line (mid @ [NL]) \<Longrightarrow> fresh_before mid (NL # CHR ''<'' # rest)"
proof (induction mid)
  case (Cons c mid)
  from Cons.prems have "\<not> starts_with (NL # CHR ''<'' # rest) (c # mid @ NL # CHR ''<'' # rest)" "no_marker_line (mid @ [NL])"
    by (cases mid; auto simp: starts_with_def NL_def)+
  with Cons.IH show ?case by (simp add: fresh_before_Cons)
qed (simp add: fresh_before_def)

definition plain :: "string \<Rightarrow> bool" where
  "plain s \<longleftrightarrow> NL \<notin> set s"

lemma plain_append [simp]: "plain (a @ b) \<longleftrightarrow> plain a \<and> plain b"
  by (auto simp: plain_def)

lemma plain_join: "plain sep \<Longrightarrow> list_all plain xs \<Longrightarrow> plain (join_with sep xs)"
  by (induction xs rule: induct_list012) (auto simp: plain_def)

lemma plain_code_span [simp]: "plain (code_span s) \<longleftrightarrow> plain s"
  by (auto simp: code_span_def plain_def NL_def)

lemma no_marker_line_plain: "plain s \<Longrightarrow> no_marker_line (s @ NL # r) \<longleftrightarrow> no_marker_line (NL # r)"
proof (induction s)
  case (Cons c s)
  then show ?case by (cases s) (auto simp: plain_def)
qed simp

lemma lines_no_marker:
  "list_all (\<lambda>l. plain l \<and> starts_with ''|'' l) ls \<Longrightarrow> ls \<noteq> [] \<Longrightarrow> no_marker_line (NL # join_with [NL] ls @ [NL, NL])"
proof (induction ls rule: induct_list012)
  case (2 l)
  then obtain l' where "l = CHR ''|'' # l'" by (auto simp: starts_with_split)
  with 2 show ?case using no_marker_line_plain [of l "[NL]"] by (simp add: NL_def)
next
  case (3 l m ls)
  then obtain l' where "l = CHR ''|'' # l'" by (auto simp: starts_with_split)
  with 3 show ?case using no_marker_line_plain [of l "join_with [NL] (m # ls) @ [NL, NL]"] by (simp add: NL_def)
qed simp

lemma table_row_plain: "list_all plain row \<Longrightarrow> plain (table_row row) \<and> starts_with ''|'' (table_row row)"
  using plain_join [of "'' | ''" row] by (simp add: table_row_def starts_with_def) (simp add: plain_def NL_def)

lemma md_table_no_marker:
  "list_all plain header \<Longrightarrow> list_all (list_all plain) rows \<Longrightarrow> no_marker_line (NL # md_table header rows @ [NL, NL])"
proof -
  assume h: "list_all plain header" and r: "list_all (list_all plain) rows"
  have "list_all plain (map (\<lambda>_. ''---'') header)" by (simp add: list_all_iff plain_def NL_def)
  with h r table_row_plain show ?thesis
    unfolding md_table_def by (intro lines_no_marker) (simp_all add: list_all_iff)
qed

lemma table_cells_plain:
  "list_all (list_all plain) (map class_row CLASSES)"
  "list_all (list_all plain) (map (\<lambda>(name, firmware, img, expected). [code_span name, firmware, img, expected]) SECURE_BOOT_STATES)"
  "list_all (list_all plain) (map (\<lambda>check. [code_span (ck_id check), required_when check, ck_passes check]) CHECKS)"
  by (simp_all add: CLASSES_def class_row_def entry_def TRANSPORTS_def NETWORKS_def CONSOLES_def TPM2_def labeled_def code_list_def
      SECURE_BOOT_STATES_def CHECKS_def required_when_def SIGNED_STATES_def FACTORY_KEYS_def) (simp_all add: plain_def NL_def code_span_def)

lemma tables_no_marker: "list_all (\<lambda>(name, content). no_marker_line (NL # content @ [NL, NL])) TABLES"
  using md_table_no_marker [OF _ table_cells_plain(1)] md_table_no_marker [OF _ table_cells_plain(2)]
    md_table_no_marker [OF _ table_cells_plain(3)]
  by (simp add: TABLES_def classes_table_def secure_boot_table_def checks_table_def) (simp add: plain_def NL_def)

text \<open>
  Inserting a generated table replaces exactly the text between the one pair of its markers and is
  stable: inserting it again changes nothing, so a document that was just rewritten is up to date.
\<close>

theorem render_table_stable:
  assumes "(name, content) \<in> set TABLES" "render_table text_in name content = Inr text_out"
  shows "render_table text_out name content = Inr text_out \<and>
    (\<exists>pre mid post. text_in = pre @ begin_marker name @ NL # mid @ NL # end_marker name @ post \<and>
       text_out = pre @ begin_marker name @ [NL, NL] @ content @ [NL, NL] @ end_marker name @ post)"
proof -
  let ?lead = "begin_marker name @ [NL]" and ?trail = "[NL] @ end_marker name"
  let ?mid = "NL # content @ [NL]"
  let ?new = "?lead @ ?mid @ ?trail"
  from assms(2) have "sub_between ?lead ?trail ?new text_in = (text_out, 1)"
    by (auto simp: render_table_def Let_def split: prod.split_asm if_split_asm)
  from sub_between_one [OF this] obtain pre mid post where p: "text_in = pre @ ?lead @ mid @ ?trail @ post"
    "text_out = pre @ ?new @ post" "sub_between ?lead ?trail ?new post = (post, 0)" "fresh_before pre ?lead" by auto
  have "no_marker_line (?mid @ [NL])" using tables_no_marker assms(1) by (auto simp: list_all_iff)
  from no_marker_line_fresh [OF this] have "fresh_before ?mid ?trail" by (simp add: end_marker_def)
  from sub_between_here [OF _ _ p(4) this p(3)] have "sub_between ?lead ?trail ?new text_out = (text_out, 1)"
    unfolding p(2) by simp
  then have "render_table text_out name content = Inr text_out" by (simp add: render_table_def Let_def)
  with p(1,2) show ?thesis by auto
qed

text \<open>A document with one pair of markers, for the theorem.\<close>

definition sample_doc :: string where
  "sample_doc = ''intro'' @ [NL] @ begin_marker ''checks'' @ [NL] @ ''old'' @ [NL] @ end_marker ''checks'' @ [NL]"

theorem render_table_stable_witness:
  "\<exists>text_out. render_table sample_doc ''checks'' checks_table = Inr text_out \<and>
     render_table text_out ''checks'' checks_table = Inr text_out"
proof -
  have t: "(''checks'', checks_table) \<in> set TABLES" by (simp add: TABLES_def)
  have "fresh_before (''intro'' @ [NL]) (begin_marker ''checks'' @ [NL])" by code_simp
  moreover have "fresh_before ''old'' ([NL] @ end_marker ''checks'')" by code_simp
  ultimately have "\<exists>out. render_table sample_doc ''checks'' checks_table = Inr out"
    using sub_between_here [of "begin_marker ''checks'' @ [NL]" "[NL] @ end_marker ''checks''" "''intro'' @ [NL]" "''old''" _ "[NL]"]
    by (simp add: render_table_def sample_doc_def Let_def match_at_def starts_with_def begin_marker_def)
  then obtain out where "render_table sample_doc ''checks'' checks_table = Inr out" by blast
  with render_table_stable [OF t this] show ?thesis by blast
qed

end
