(* ===== verification/Package_Archive.thy ===== *)
theory Package_Archive
  imports Extract_Tree
begin

text \<open>
  The archive of a package closure, \<^verbatim>\<open>mkosi/debian/package_archive.py\<close>: the \<^verbatim>\<open>ar\<close> reader for Debian packages,
  the authentication of the packages against the manifest, and the merged list of members of the
  archive that \<^verbatim>\<open>extract_tree.py\<close> unpacks. \<open>sha256\<close> and the tar reader \<open>tar_members\<close> are of the standard
  library. A computation that may not return has an option type; \<^const>\<open>None\<close> is an endless loop.
\<close>

datatype pkg_error =
    Not_ar
  | Truncated_header
  | Invalid_header
  | Not_ascii
  | Bad_size
  | Truncated_member
  | No_data_archive
  | Bad_manifest
  | Manifest_mismatch
  | Absent_package string
  | Duplicated_package string
  | Package_digest string
  | Member_error extract_error
  | Package_no_data path
  | Unsupported_package_member path
  | Package_tar_error
  | Package_os os_error

section \<open>The ar reader\<close>

definition decode_ascii :: "bytes \<Rightarrow> pkg_error + string" where
  "decode_ascii bs = (if list_all (\<lambda>b. uint b < 128) bs then Inr (map (\<lambda>b. char_of (uint b)) bs) else Inl Not_ascii)"

text \<open>
  \<^verbatim>\<open>int(s)\<close> of a short ASCII text without surrounding white space: an optional sign, then digits with
  single underscores between them.
\<close>

definition int_digits :: "string \<Rightarrow> int option" where
  "int_digits s =
     (let runs = split_on (CHR ''_'') s
      in if list_all (\<lambda>run. run \<noteq> [] \<and> list_all ascii_digit run) runs then Some (decimal_value (concat runs)) else None)"

definition int_text :: "string \<Rightarrow> int option" where
  "int_text s =
     (case s of
        [] \<Rightarrow> None
      | c # t \<Rightarrow>
          if c = CHR ''-'' then map_option uminus (int_digits t)
          else if c = CHR ''+'' then int_digits t
          else int_digits s)"

text \<open>The name, the contents and the offset of the next member of the member at an offset.\<close>

definition ar_header :: "bytes \<Rightarrow> int \<Rightarrow> pkg_error + string \<times> bytes \<times> int" where
  "ar_header data offset =
     (if offset + 60 > len data then Inl Truncated_header
      else
        let header = py_slice data offset (offset + 60)
        in if py_slice header 58 60 \<noteq> [0x60, 0x0A] then Inl Invalid_header
           else
             rbind (decode_ascii (py_slice header 0 16)) (\<lambda>name.
             rbind (decode_ascii (py_slice header 48 58)) (\<lambda>size_text.
               case int_text (strip size_text) of
                 None \<Rightarrow> Inl Bad_size
               | Some n \<Rightarrow>
                   let start = offset + 60; stop = start + n
                   in if stop > len data then Inl Truncated_member
                      else Inr (rstrip_of (\<lambda>c. c = CHR ''/'') (strip name), py_slice data start stop, stop + stop mod 2))))"

partial_function (option) ar_search :: "bytes \<Rightarrow> int \<Rightarrow> (pkg_error + bytes) option" where
  "ar_search data offset =
     (if offset < len data then
        (case ar_header data offset of
           Inl e \<Rightarrow> Some (Inl e)
         | Inr (name, member, next_offset) \<Rightarrow>
             if starts_with ''data.tar'' name then Some (Inr member) else ar_search data next_offset)
      else Some (Inl No_data_archive))"

definition AR_MAGIC :: bytes where "AR_MAGIC = [0x21, 0x3C, 0x61, 0x72, 0x63, 0x68, 0x3E, 0x0A]"

definition package_data :: "bytes \<Rightarrow> (pkg_error + bytes) option" where
  "package_data data = (if take 8 data \<noteq> AR_MAGIC then Some (Inl Not_ar) else ar_search data 8)"

section \<open>Termination of the reader\<close>

text \<open>The offsets at which the reader parses a header.\<close>

inductive ar_reached :: "bytes \<Rightarrow> int \<Rightarrow> bool" for data where
  first: "take 8 data = AR_MAGIC \<Longrightarrow> 8 < len data \<Longrightarrow> ar_reached data 8"
| further: "ar_reached data offset \<Longrightarrow> ar_header data offset = Inr (name, member, next_offset) \<Longrightarrow>
    \<not> starts_with ''data.tar'' name \<Longrightarrow> next_offset < len data \<Longrightarrow> ar_reached data next_offset"

lemma ar_search_returns:
  assumes "\<And>offset name member next_offset. ar_reached data offset \<Longrightarrow>
      ar_header data offset = Inr (name, member, next_offset) \<Longrightarrow> offset < next_offset"
    and "ar_reached data offset"
  shows "ar_search data offset \<noteq> None"
  using assms(2)
proof (induction "nat (len data - offset)" arbitrary: offset rule: less_induct)
  case less
  show ?case
  proof (cases "ar_header data offset")
    case (Inr r)
    obtain name member next_offset where r: "r = (name, member, next_offset)" by (cases r)
    note h = Inr [unfolded r]
    show ?thesis
    proof (cases "starts_with ''data.tar'' name \<or> \<not> offset < len data")
      case True
      then show ?thesis by (subst ar_search.simps) (auto simp: h)
    next
      case False
      note p = assms(1) [OF less.prems h]
      show ?thesis
      proof (cases "next_offset < len data")
        case True
        have "ar_reached data next_offset" using further [OF less.prems h _ True] False by blast
        moreover have "nat (len data - next_offset) < nat (len data - offset)" using p True by linarith
        ultimately have "ar_search data next_offset \<noteq> None" using less.hyps by blast
        with False show ?thesis by (subst ar_search.simps) (simp add: h)
      next
        case past: False
        then have "ar_search data next_offset = Some (Inl No_data_archive)" by (subst ar_search.simps) simp
        with False show ?thesis by (subst ar_search.simps) (simp add: h)
      qed
    qed
  qed (subst ar_search.simps, simp)
qed


text \<open>A header with the size -60 points to itself.\<close>

definition ascii_bytes :: "string \<Rightarrow> bytes" where
  "ascii_bytes s = map (\<lambda>c. of_nat (of_char c)) s"

definition looping_package :: bytes where
  "looping_package = AR_MAGIC @ ascii_bytes (''debian-binary   '' @ replicate 32 (CHR ''0'') @ ''-60       '' @ [CHR 0x60, CHR 0x0A])"

lemma looping_header: "ar_header looping_package 8 = Inr (''debian-binary'', [], 8)" "8 < len looping_package"
  "take 8 looping_package = AR_MAGIC"
  by code_simp+

lemma ar_search_loops: "ar_search looping_package 8 = None"
proof (rule ccontr)
  assume "ar_search looping_package 8 \<noteq> None"
  then obtain y where y: "ar_search looping_package 8 = Some y" by blast
  have "\<not> (looping_package = looping_package \<and> (8 :: int) = 8)"
  proof (rule ar_search.raw_induct [where P = "\<lambda>data offset _. \<not> (data = looping_package \<and> offset = 8)", OF _ y])
    fix f :: "bytes \<Rightarrow> int \<Rightarrow> (pkg_error + bytes) option" and data offset r
    assume "\<And>data offset r. f data offset = Some r \<Longrightarrow> \<not> (data = looping_package \<and> offset = 8)"
      and "(if offset < len data
        then case ar_header data offset of Inl e \<Rightarrow> Some (Inl e)
          | Inr (name, member, next_offset) \<Rightarrow> if starts_with ''data.tar'' name then Some (Inr member) else f data next_offset
        else Some (Inl No_data_archive)) = Some r"
    then show "\<not> (data = looping_package \<and> offset = 8)" using looping_header by (auto simp: starts_with_def) blast
  qed
  then show False by simp
qed


section \<open>Collecting the packages\<close>

datatype pkg_object = PDir int | PFile int path | PSymlink int string | PHardlink int string

text \<open>\<open>objects\<close> in the order of insertion, and the files extracted below the work directory.\<close>

type_synonym collection = "(path, pkg_object) dict \<times> fs"

fun ensure_parents :: "path list \<Rightarrow> (path, pkg_object) dict \<Rightarrow> (path, pkg_object) dict" where
  "ensure_parents [] objects = objects"
| "ensure_parents (current # rest) objects =
     ensure_parents rest (if current \<in> fst ` set objects then objects else dict_set current (PDir mode_755) objects)"

definition ensure_parent :: "(path, pkg_object) dict \<Rightarrow> path \<Rightarrow> (path, pkg_object) dict" where
  "ensure_parent objects relative = ensure_parents (parents relative) objects"

text \<open>\<^verbatim>\<open>str.split("|", 2)\<close>\<close>

definition split_pipe2 :: "string \<Rightarrow> string list" where
  "split_pipe2 s =
     (case split_first (CHR ''|'') s of
        None \<Rightarrow> [s]
      | Some (a, t) \<Rightarrow> (case split_first (CHR ''|'') t of None \<Rightarrow> [a, t] | Some (b, c) \<Rightarrow> [a, b, c]))"

fun read_manifest :: "string list \<Rightarrow> (string, string) dict \<Rightarrow> pkg_error + (string, string) dict" where
  "read_manifest [] expected = Inr expected"
| "read_manifest (line # rest) expected =
     (case split_pipe2 (rstrip_of (\<lambda>c. c = CHR 0x0A) line) of
        [name, digest, _] \<Rightarrow>
          if name \<in> fst ` set expected then Inl Bad_manifest else read_manifest rest (expected @ [(name, digest)])
      | _ \<Rightarrow> Inl Bad_manifest)"

definition basename :: "string \<Rightarrow> string" where
  "basename p = last (split_on (CHR ''/'') p)"

definition open_authenticated :: "(bytes \<Rightarrow> string) \<Rightarrow> string \<times> bytes \<Rightarrow> string \<Rightarrow> pkg_error + bytes" where
  "open_authenticated sha256 package expected_digest =
     (if sha256 (snd package) \<noteq> expected_digest then Inl (Package_digest (basename (fst package))) else Inr (snd package))"

fun authenticate_packages ::
    "(bytes \<Rightarrow> string) \<Rightarrow> (string, string) dict \<Rightarrow> (string \<times> bytes) list \<Rightarrow> string list \<Rightarrow> pkg_error + bytes list \<times> string list" where
  "authenticate_packages sha256 expected [] seen = Inr ([], seen)"
| "authenticate_packages sha256 expected (package # rest) seen =
     (let name = basename (fst package)
      in case map_of expected name of
           None \<Rightarrow> Inl (Absent_package name)
         | Some digest \<Rightarrow>
             if name \<in> set seen then Inl (Duplicated_package name)
             else
               rbind (open_authenticated sha256 package digest) (\<lambda>stream.
               rbind (authenticate_packages sha256 expected rest (seen @ [name])) (\<lambda>(streams, seen).
                 Inr (stream # streams, seen))))"

definition authenticated_streams ::
    "(bytes \<Rightarrow> string) \<Rightarrow> (string \<times> bytes) list \<Rightarrow> (string, string) dict \<Rightarrow> pkg_error + bytes list" where
  "authenticated_streams sha256 packages expected =
     (if length expected \<noteq> length packages then Inl Manifest_mismatch
      else rbind (authenticate_packages sha256 expected packages []) (\<lambda>(streams, seen).
        if set seen \<noteq> fst ` set expected then Inl Manifest_mismatch else Inr streams))"

definition lift_pkg :: "('e \<Rightarrow> pkg_error) \<Rightarrow> 'e + 'a \<Rightarrow> pkg_error + 'a" where
  "lift_pkg f r = (case r of Inl e \<Rightarrow> Inl (f e) | Inr x \<Rightarrow> Inr x)"

definition make_dir :: "path \<Rightarrow> fs \<Rightarrow> os_error + fs" where
  "make_dir d work = (if is_real_dir work d then Inr work else mkdir d work)"

definition extract_file :: "Member \<Rightarrow> path \<Rightarrow> fs \<Rightarrow> pkg_error + fs" where
  "extract_file member relative work =
     rbind (lift_pkg Package_os (rfold make_dir (parents relative) work)) (\<lambda>work.
       case m_data member of
         None \<Rightarrow> Inl (Package_no_data relative)
       | Some data \<Rightarrow> lift_pkg Package_os (write_data relative data work))"

definition member_object :: "Member \<Rightarrow> path \<Rightarrow> fs \<Rightarrow> pkg_error + pkg_object \<times> fs" where
  "member_object member relative work =
     (let mode = m_mode member mod 4096
      in case m_kind member of
           MDir \<Rightarrow> Inr (PDir mode, work)
         | MFile \<Rightarrow> rbind (extract_file member relative work) (\<lambda>work. Inr (PFile mode relative, work))
         | MSym \<Rightarrow> Inr (PSymlink mode (m_linkname member), work)
         | MLnk \<Rightarrow> Inr (PHardlink mode (m_linkname member), work)
         | MOther \<Rightarrow> Inl (Unsupported_package_member relative))"

definition collect_member :: "Member \<Rightarrow> collection \<Rightarrow> pkg_error + collection" where
  "collect_member member st =
     (case st of (objects, work) \<Rightarrow>
        rbind (lift_pkg Member_error (member_path (m_name member))) (\<lambda>relative.
          if relative = [] then Inr (objects, work)
          else
            rbind (member_object member relative work) (\<lambda>(new, work).
              Inr (dict_set relative new (ensure_parent objects relative), work))))"

definition collect_package :: "(bytes \<Rightarrow> Member list option) \<Rightarrow> bytes \<Rightarrow> collection \<Rightarrow> (pkg_error + collection) option" where
  "collect_package tar_members stream st =
     (case package_data stream of
        None \<Rightarrow> None
      | Some (Inl e) \<Rightarrow> Some (Inl e)
      | Some (Inr data) \<Rightarrow>
          Some (case tar_members data of None \<Rightarrow> Inl Package_tar_error | Some source \<Rightarrow> rfold collect_member source st))"

fun collect_packages :: "(bytes \<Rightarrow> Member list option) \<Rightarrow> bytes list \<Rightarrow> collection \<Rightarrow> (pkg_error + collection) option" where
  "collect_packages tar_members [] st = Some (Inr st)"
| "collect_packages tar_members (stream # rest) st =
     (case collect_package tar_members stream st of
        Some (Inr st) \<Rightarrow> collect_packages tar_members rest st
      | r \<Rightarrow> r)"

definition collect ::
    "(bytes \<Rightarrow> string) \<Rightarrow> (bytes \<Rightarrow> Member list option) \<Rightarrow> (string \<times> bytes) list \<Rightarrow> string list \<Rightarrow> (pkg_error + collection) option" where
  "collect sha256 tar_members packages manifest =
     (case rbind (read_manifest manifest []) (authenticated_streams sha256 packages) of
        Inl e \<Rightarrow> Some (Inl e)
      | Inr streams \<Rightarrow> collect_packages tar_members streams ([], []))"

section \<open>The archive\<close>

definition archive_member :: "fs \<Rightarrow> path \<times> pkg_object \<Rightarrow> Member" where
  "archive_member work e =
     (case e of (relative, ob) \<Rightarrow>
        let member = \<lambda>kind mode link data.
          \<lparr>m_name = ''./'' @ path_str relative, m_kind = kind, m_mode = mode, m_linkname = link, m_data = data\<rparr>
        in case ob of
             PDir mode \<Rightarrow> member MDir mode [] None
           | PFile mode source \<Rightarrow> member MFile mode [] (Some (file_data work source))
           | PSymlink mode link \<Rightarrow> member MSym mode link None
           | PHardlink mode link \<Rightarrow> member MLnk mode link None)"

definition archive_members :: "collection \<Rightarrow> Member list" where
  "archive_members st =
     (case st of (objects, work) \<Rightarrow>
        map (archive_member work) (sort_key (\<lambda>(relative, ob). (length relative, path_str relative)) objects))"

end
