(* ===== verification/Package_Safety.thy ===== *)
theory Package_Safety
  imports Package_Archive Extract_Safety "HOL-Library.Multiset"
begin

text \<open>
  What the archive of a package closure is: every path that a package or a parent of one names, once,
  with a name that the extraction accepts.
\<close>

section \<open>The collection invariant\<close>

text \<open>Distinct, safe paths that are closed under parents.\<close>

definition objects_wf :: "(path, pkg_object) dict \<Rightarrow> bool" where
  "objects_wf objects \<longleftrightarrow> distinct (map fst objects) \<and>
     (\<forall>p \<in> fst ` set objects. p \<noteq> [] \<and> safe_path p \<and> set (parents p) \<subseteq> fst ` set objects)"

lemma keys_set_dict_set: "fst ` set (dict_set k v d) = insert k (fst ` set d)"
  unfolding set_map [symmetric] keys_dict_set by auto

lemma ensure_parents_keys: "fst ` set (ensure_parents ps objects) = set ps \<union> fst ` set objects"
  by (induction ps objects rule: ensure_parents.induct) (auto simp: keys_set_dict_set)

lemma ensure_parents_distinct: "distinct (map fst objects) \<Longrightarrow> distinct (map fst (ensure_parents ps objects))"
  by (induction ps objects rule: ensure_parents.induct) (auto simp: distinct_dict_set)

lemma parents_of_parent: "q \<in> set (parents p) \<Longrightarrow> q \<noteq> [] \<and> set (parents q) \<subseteq> set (parents p)"
  by (auto simp: parents_def min_def)

lemma ensure_parent_wf:
  assumes "objects_wf objects" "safe_path p" "p \<noteq> []"
  shows "objects_wf (dict_set p ob (ensure_parent objects p))"
proof -
  have k: "fst ` set (dict_set p ob (ensure_parent objects p)) = insert p (set (parents p) \<union> fst ` set objects)"
    by (simp add: ensure_parent_def keys_set_dict_set ensure_parents_keys)
  have "distinct (map fst (dict_set p ob (ensure_parent objects p)))"
    using assms(1) by (simp add: ensure_parent_def objects_wf_def distinct_dict_set ensure_parents_distinct)
  moreover have "q \<noteq> [] \<and> safe_path q \<and> set (parents q) \<subseteq> insert p (set (parents p) \<union> fst ` set objects)"
    if "q \<in> insert p (set (parents p) \<union> fst ` set objects)" for q
  proof -
    consider "q = p" | "q \<in> set (parents p)" | "q \<in> fst ` set objects" using \<open>q \<in> _\<close> by blast
    then show ?thesis
    proof cases
      case 2
      then show ?thesis using parents_of_parent [OF 2] parents_safe [OF assms(2)] by (auto simp: list_all_iff)
    next
      case 3
      with assms(1) show ?thesis unfolding objects_wf_def by blast
    qed (use assms in blast)
  qed
  ultimately show ?thesis unfolding objects_wf_def k by blast
qed

lemma collect_member_wf:
  assumes "objects_wf objects" "collect_member m (objects, work) = Inr (objects', work')"
  shows "objects_wf objects'"
proof -
  from assms(2) obtain p where p: "member_path (m_name m) = Inr p"
    by (auto simp: collect_member_def lift_pkg_def split: sum.split_asm)
  then have s: "safe_path p" by (rule member_path_safe)
  show ?thesis
  proof (cases "p = []")
    case True
    with assms p show ?thesis by (simp add: collect_member_def lift_pkg_def)
  next
    case False
    with assms(2) p obtain ob where "objects' = dict_set p ob (ensure_parent objects p)"
      by (auto simp: collect_member_def lift_pkg_def)
    with ensure_parent_wf [OF assms(1) s False] show ?thesis by simp
  qed
qed

lemma collect_members_wf:
  "objects_wf (fst st) \<Longrightarrow> rfold collect_member ms st = Inr st' \<Longrightarrow> objects_wf (fst st')"
proof (induction ms arbitrary: st)
  case (Cons m ms)
  then obtain st1 where s: "collect_member m st = Inr st1" "rfold collect_member ms st1 = Inr st'" by auto
  with Cons.prems(1) have "objects_wf (fst st1)"
    using collect_member_wf [of "fst st" m "snd st" "fst st1" "snd st1"] by simp
  with Cons.IH s(2) show ?case by blast
qed simp

lemma collect_packages_wf:
  "objects_wf (fst st) \<Longrightarrow> collect_packages tar_members streams st = Some (Inr st') \<Longrightarrow> objects_wf (fst st')"
proof (induction streams arbitrary: st)
  case (Cons stream streams)
  then obtain st1 where s: "collect_package tar_members stream st = Some (Inr st1)"
    "collect_packages tar_members streams st1 = Some (Inr st')" by (auto split: option.split_asm sum.split_asm)
  then obtain source where "rfold collect_member source st = Inr st1"
    by (auto simp: collect_package_def split: option.split_asm sum.split_asm)
  from collect_members_wf [OF Cons.prems(1) this] s(2) Cons.IH show ?case by blast
qed simp

lemma collect_wf: "collect sha256 tar_members packages manifest = Some (Inr st) \<Longrightarrow> objects_wf (fst st)"
  using collect_packages_wf [of "([], [])"] by (auto simp: collect_def objects_wf_def split: sum.split_asm)

section \<open>The archive and its extraction\<close>

lemma member_path_dot: "safe_path p \<Longrightarrow> p \<noteq> [] \<Longrightarrow> member_path (''./'' @ path_str p) = Inr p"
  unfolding member_path_iff by (intro conjI exI [of _ 1] exI [of _ "[]"]) auto

lemma m_name_archive_member [simp]: "m_name (archive_member work e) = ''./'' @ path_str (fst e)"
  by (cases e) (simp add: archive_member_def split: pkg_object.split)

lemma index_archive:
  assumes "list_all (\<lambda>e. fst e \<noteq> [] \<and> safe_path (fst e)) es" "distinct (map fst acc @ map fst es)"
  shows "index_members (map (archive_member work) es) acc = Inr (acc @ map (\<lambda>e. (fst e, archive_member work e)) es)"
  using assms
proof (induction es arbitrary: acc)
  case (Cons e es)
  have "member_path (m_name (archive_member work e)) = Inr (fst e)" using Cons.prems(1) member_path_dot by simp
  moreover have "fst e \<notin> fst ` set acc" "fst e \<noteq> []" using Cons.prems by auto
  ultimately show ?case using Cons.IH [of "acc @ [(fst e, archive_member work e)]"] Cons.prems by simp
qed simp

text \<open>
  C31: The archive of a package closure can be indexed by the extraction: the collected paths are distinct,
  consist of proper file names and include all their parent directories, no member of the archive is
  rejected for its name or as a duplicate, and the extraction sees every collected path with its object.
\<close>

theorem archive_extractable:
  assumes "collect sha256 tar_members packages manifest = Some (Inr (objects, work))"
  shows "objects_wf objects \<and>
    (\<exists>es. mset es = mset objects \<and>
       index_members (archive_members (objects, work)) [] = Inr (map (\<lambda>e. (fst e, archive_member work e)) es))"
proof -
  have w: "objects_wf objects" using collect_wf [OF assms] by simp
  define es where "es = sort_key (\<lambda>(relative, ob :: pkg_object). (length relative, path_str relative)) objects"
  have m: "mset es = mset objects" by (simp add: es_def)
  then have d: "distinct (map fst es)" using w by (metis distinct_map mset_eq_setD mset_map objects_wf_def mset_eq_imp_distinct_iff)
  have "list_all (\<lambda>e. fst e \<noteq> [] \<and> safe_path (fst e)) es"
    using w mset_eq_setD [OF m] by (auto simp: list_all_iff objects_wf_def)
  from index_archive [OF this, of "[]" work] d have "index_members (archive_members (objects, work)) [] =
      Inr (map (\<lambda>e. (fst e, archive_member work e)) es)" by (simp add: archive_members_def es_def)
  with w m show ?thesis by blast
qed

section \<open>A sample package\<close>

definition sample_package :: bytes where
  "sample_package = AR_MAGIC @ ascii_bytes (''data.tar        '' @ replicate 32 (CHR ''0'') @ ''1         '' @ [CHR 0x60, CHR 0x0A]) @ [7]"

definition package_members :: "Member list" where
  "package_members =
     [\<lparr>m_name = ''./usr/bin/tool'', m_kind = MFile, m_mode = mode_755, m_linkname = [], m_data = Some [1]\<rparr>]"

definition sample_objects :: "(path, pkg_object) dict" where
  "sample_objects = [([''usr''], PDir 493), ([''usr'', ''bin''], PDir 493), ([''usr'', ''bin'', ''tool''], PFile 493 [''usr'', ''bin'', ''tool''])]"

definition sample_work :: fs where
  "sample_work = [([''usr''], Dir 493), ([''usr'', ''bin''], Dir 493), ([''usr'', ''bin'', ''tool''], File 420 [1])]"

lemma sample_package_data: "package_data sample_package = Some (Inr [7])"
proof -
  have "ar_header sample_package 8 = Inr (''data.tar'', [7], 70)" "8 < len sample_package" by code_simp+
  then have "ar_search sample_package 8 = Some (Inr [7])" by (subst ar_search.simps) (simp add: starts_with_def)
  moreover have "take 8 sample_package = AR_MAGIC" by code_simp
  ultimately show ?thesis by (simp add: package_data_def)
qed

lemma sample_collection:
  "collect (\<lambda>_. ''d'') (\<lambda>_. Some package_members) [(''pool/t.deb'', sample_package)] [''t.deb|d|x'' @ [CHR 0x0A]]
     = Some (Inr (sample_objects, sample_work))"
proof -
  have streams: "rbind (read_manifest [''t.deb|d|x'' @ [CHR 0x0A]] []) (authenticated_streams (\<lambda>_. ''d'') [(''pool/t.deb'', sample_package)]) =
      Inr [sample_package]" by code_simp
  have "rfold collect_member package_members ([], []) = Inr (sample_objects, sample_work)" by code_simp
  then show ?thesis unfolding collect_def streams by (simp add: collect_package_def sample_package_data)
qed

theorem archive_extractable_witness:
  "objects_wf sample_objects \<and>
    (\<exists>es. mset es = mset sample_objects \<and>
       index_members (archive_members (sample_objects, sample_work)) [] = Inr (map (\<lambda>e. (fst e, archive_member sample_work e)) es))"
  using archive_extractable [OF sample_collection] .

end
