(* ===== verification/Host_Tree.thy ===== *)
theory Host_Tree
  imports Extract_Tree
begin

text \<open>
  Paths of \<^verbatim>\<open>pathlib\<close> and a file system that a script reads: the node at every absolute path, and the
  working directory. A path is looked up one component at a time the way the kernel does it, links
  included; the owner, mode and times of a node play no role for the scripts that read it.
\<close>

section \<open>Pure paths\<close>

record pure_path =
  pp_root :: string
  pp_comps :: "string list"

definition path_comps :: "string \<Rightarrow> string list" where
  "path_comps s = filter (\<lambda>c. c \<notin> {[], ''.''}) (split_on (CHR ''/'') s)"

text \<open>Exactly two leading slashes are a root of their own.\<close>

definition path_root :: "string \<Rightarrow> string" where
  "path_root s =
     (if starts_with ''//'' s \<and> \<not> starts_with ''///'' s then ''//''
      else if starts_with ''/'' s then ''/'' else [])"

definition parse_path :: "string \<Rightarrow> pure_path" where
  "parse_path s = \<lparr>pp_root = path_root s, pp_comps = path_comps s\<rparr>"

definition abs_path :: "path \<Rightarrow> pure_path" where
  "abs_path p = \<lparr>pp_root = ''/'', pp_comps = p\<rparr>"

definition is_absolute :: "pure_path \<Rightarrow> bool" where
  "is_absolute p \<longleftrightarrow> pp_root p \<noteq> []"

definition path_parts :: "pure_path \<Rightarrow> string list" where
  "path_parts p = (if is_absolute p then [pp_root p] else []) @ pp_comps p"

definition pure_str :: "pure_path \<Rightarrow> string" where
  "pure_str p = (if path_parts p = [] then ''.'' else pp_root p @ join_with ''/'' (pp_comps p))"

text \<open>The operators \<^verbatim>\<open>p / s\<close>, \<^verbatim>\<open>p.parent\<close> and \<^verbatim>\<open>p.name\<close>.\<close>

definition path_div :: "pure_path \<Rightarrow> string \<Rightarrow> pure_path" where
  "path_div p s = (if is_absolute (parse_path s) then parse_path s else p\<lparr>pp_comps := pp_comps p @ path_comps s\<rparr>)"

definition path_parent :: "pure_path \<Rightarrow> pure_path" where
  "path_parent p = p\<lparr>pp_comps := butlast (pp_comps p)\<rparr>"

definition path_name :: "pure_path \<Rightarrow> string" where
  "path_name p = (if pp_comps p = [] then [] else last (pp_comps p))"

text \<open>\<^verbatim>\<open>p.is_relative_to(q)\<close> for two absolute paths.\<close>

definition relative_to :: "path \<Rightarrow> path \<Rightarrow> bool" where
  "relative_to p q \<longleftrightarrow> take (length q) p = q"

text \<open>\<^verbatim>\<open>posixpath.normpath\<close>\<close>

fun norm_comps :: "bool \<Rightarrow> string list \<Rightarrow> string list \<Rightarrow> string list" where
  "norm_comps rooted new [] = new"
| "norm_comps rooted new (c # cs) =
     (if c \<in> {[], ''.''} then norm_comps rooted new cs
      else if c \<noteq> ''..'' \<or> (\<not> rooted \<and> new = []) \<or> (new \<noteq> [] \<and> last new = ''..'')
      then norm_comps rooted (new @ [c]) cs
      else norm_comps rooted (butlast new) cs)"

definition normpath :: "string \<Rightarrow> string" where
  "normpath s =
     (if s = [] then ''.''
      else
        let p = path_root s @ join_with ''/'' (norm_comps (path_root s \<noteq> []) [] (split_on (CHR ''/'') s))
        in if p = [] then ''.'' else p)"

section \<open>The host\<close>

datatype host_node = HDir | HFile bytes | HLink string | HOther

record host =
  h_nodes :: "(path, host_node) dict"
  h_cwd :: path

definition host_lookup :: "host \<Rightarrow> path \<Rightarrow> host_node option" where
  "host_lookup h p = (if p = [] then Some HDir else map_of (h_nodes h) p)"

text \<open>
  Looking up a path: the components left, and the real path reached so far. A link may only lead
  through as many nested links as there are nodes; a deeper nesting follows some link again and never
  ends. A lookup through a missing component or through a file fails.
\<close>

function (sequential) host_walk :: "host \<Rightarrow> nat \<Rightarrow> path \<Rightarrow> string list \<Rightarrow> path option" where
  "host_walk h n reached [] = Some reached"
| "host_walk h n reached (c # rest) =
     (if host_lookup h reached \<noteq> Some HDir then None
      else if c \<in> {[], ''.''} then host_walk h n reached rest
      else if c = ''..'' then host_walk h n (butlast reached) rest
      else case host_lookup h (reached @ [c]) of
        None \<Rightarrow> None
      | Some (HLink t) \<Rightarrow>
          (case n of
             0 \<Rightarrow> None
           | Suc m \<Rightarrow>
               (case host_walk h m (if starts_with ''/'' t then [] else reached) (split_on (CHR ''/'') t) of
                  None \<Rightarrow> None
                | Some q \<Rightarrow> host_walk h n q rest))
      | Some _ \<Rightarrow> host_walk h n (reached @ [c]) rest)"
  by pat_completeness auto

termination host_walk
  by (relation "measures [\<lambda>(h, n, reached, comps). n, \<lambda>(h, n, reached, comps). length comps]") auto

text \<open>\<^verbatim>\<open>p.resolve()\<close> for a path that exists; the scripts reject every other path.\<close>

definition host_resolve :: "host \<Rightarrow> pure_path \<Rightarrow> path option" where
  "host_resolve h p = host_walk h (length (h_nodes h)) (if is_absolute p then [] else h_cwd h) (pp_comps p)"

definition host_stat :: "host \<Rightarrow> pure_path \<Rightarrow> host_node option" where
  "host_stat h p = (case host_resolve h p of Some q \<Rightarrow> host_lookup h q | None \<Rightarrow> None)"

definition host_lstat :: "host \<Rightarrow> pure_path \<Rightarrow> host_node option" where
  "host_lstat h p =
     (if pp_comps p = [] \<or> path_name p = ''..'' then host_stat h p
      else case host_resolve h (path_parent p) of
        Some q \<Rightarrow> if host_lookup h q = Some HDir then host_lookup h (q @ [path_name p]) else None
      | None \<Rightarrow> None)"

definition host_exists :: "host \<Rightarrow> pure_path \<Rightarrow> bool" where
  "host_exists h p \<longleftrightarrow> host_stat h p \<noteq> None"

definition host_is_dir :: "host \<Rightarrow> pure_path \<Rightarrow> bool" where
  "host_is_dir h p \<longleftrightarrow> host_stat h p = Some HDir"

definition host_is_file :: "host \<Rightarrow> pure_path \<Rightarrow> bool" where
  "host_is_file h p \<longleftrightarrow> (case host_stat h p of Some (HFile _) \<Rightarrow> True | _ \<Rightarrow> False)"

definition host_readlink :: "host \<Rightarrow> pure_path \<Rightarrow> string option" where
  "host_readlink h p = (case host_lstat h p of Some (HLink t) \<Rightarrow> Some t | _ \<Rightarrow> None)"

definition host_is_symlink :: "host \<Rightarrow> pure_path \<Rightarrow> bool" where
  "host_is_symlink h p \<longleftrightarrow> host_readlink h p \<noteq> None"

definition host_data :: "host \<Rightarrow> pure_path \<Rightarrow> bytes option" where
  "host_data h p = (case host_stat h p of Some (HFile data) \<Rightarrow> Some data | _ \<Rightarrow> None)"

text \<open>The names in a real directory, sorted.\<close>

definition host_names :: "host \<Rightarrow> path \<Rightarrow> string list" where
  "host_names h d = sort (map (last \<circ> fst) (filter (\<lambda>e. fst e \<noteq> [] \<and> butlast (fst e) = d) (h_nodes h)))"

text \<open>A file system: every name is a proper file name and every node lies in a directory.\<close>

definition host_wf :: "host \<Rightarrow> bool" where
  "host_wf h \<longleftrightarrow> distinct (map fst (h_nodes h)) \<and> host_lookup h (h_cwd h) = Some HDir \<and>
     (\<forall>p \<in> fst ` set (h_nodes h). p \<noteq> [] \<and> safe_path p \<and> host_lookup h (butlast p) = Some HDir)"

text \<open>A tree under construction, read back.\<close>

definition host_of :: "fs \<Rightarrow> host" where
  "host_of fs =
     \<lparr>h_nodes = map (\<lambda>(p, n). (p, case n of Dir _ \<Rightarrow> HDir | File _ data \<Rightarrow> HFile data | Symlink t \<Rightarrow> HLink t)) fs, h_cwd = []\<rparr>"

section \<open>Real paths\<close>

lemma host_key: "p \<noteq> [] \<Longrightarrow> host_lookup h p = Some n \<Longrightarrow> p \<in> fst ` set (h_nodes h)"
  by (force simp: host_lookup_def dest: map_of_SomeD)

lemma host_safe: "host_wf h \<Longrightarrow> host_lookup h p = Some n \<Longrightarrow> safe_path p"
  using host_key [of p h n] unfolding host_wf_def by (cases "p = []") (simp add: safe_path_def, blast)

lemma host_parent: "host_wf h \<Longrightarrow> host_lookup h p = Some n \<Longrightarrow> host_lookup h (butlast p) = Some HDir"
  using host_key [of p h n] unfolding host_wf_def by (cases "p = []") (simp add: host_lookup_def, blast)

lemma host_prefix: "host_wf h \<Longrightarrow> host_lookup h (p @ q) = Some n \<Longrightarrow> q \<noteq> [] \<Longrightarrow> host_lookup h p = Some HDir"
proof (induction q arbitrary: n rule: rev_induct)
  case (snoc c q)
  then have d: "host_lookup h (p @ q) = Some HDir" using host_parent [of h "p @ q @ [c]" n] by (simp add: butlast_append)
  with snoc.IH [OF snoc.prems(1)] show ?case by (cases "q = []") auto
qed simp

lemma host_walk_real:
  assumes "host_wf h"
  shows "host_lookup h (reached @ comps) = Some m \<Longrightarrow> (\<And>t. m \<noteq> HLink t) \<Longrightarrow> host_walk h n reached comps = Some (reached @ comps)"
proof (induction comps arbitrary: reached)
  case (Cons c rest)
  have d: "host_lookup h reached = Some HDir" using host_prefix [OF assms Cons.prems(1)] by simp
  have "safe_component c" using host_safe [OF assms Cons.prems(1)] by (simp add: safe_path_def)
  then have s: "c \<notin> {[], ''.''}" "c \<noteq> ''..''" by (auto simp: safe_component_def)
  obtain k where k: "host_lookup h (reached @ [c]) = Some k" "\<And>t. k \<noteq> HLink t"
    using Cons.prems host_prefix [OF assms, of "reached @ [c]" rest m] by (cases "rest = []") auto
  with d s Cons.IH [of "reached @ [c]"] Cons.prems show ?case by (auto split: host_node.split)
qed simp

lemma host_resolve_real:
  "host_wf h \<Longrightarrow> host_lookup h p = Some m \<Longrightarrow> (\<And>t. m \<noteq> HLink t) \<Longrightarrow> host_resolve h (abs_path p) = Some p"
  using host_walk_real [of h "[]" p m] by (simp add: host_resolve_def abs_path_def is_absolute_def)

end
