(* ===== verification/Stage_Inputs.thy ===== *)
theory Stage_Inputs
  imports Host_Tree Json_Text
begin

text \<open>
  Staging of declared inputs, \<^verbatim>\<open>mkosi/private/stage_inputs.py\<close>: the mappings of a build are collected in
  a manifest, which is checked as a whole before the output tree is written. The sources are read from
  the host as it is before the output directory is reset, the output tree is modelled below its
  directory. Times are not modelled.
\<close>

section \<open>Entries and errors\<close>

datatype entry_kind = KDirectory | KFile | KSymlink

fun kind_str :: "entry_kind \<Rightarrow> string" where
  "kind_str KDirectory = ''directory''"
| "kind_str KFile = ''file''"
| "kind_str KSymlink = ''symlink''"

text \<open>The tuple of owner, kind, source and link target.\<close>

record stage_entry =
  e_owner :: string
  e_kind :: entry_kind
  e_source :: pure_path
  e_link :: "string option"

type_synonym manifest = "(string, stage_entry) dict"

text \<open>One constructor per \<^verbatim>\<open>raise ValueError\<close>.\<close>

datatype stage_error =
    Invalid_staged_path string
  | Not_canonical_link path
  | Link_escapes path
  | Transport_link_not_file path
  | Unsupported_entry path
  | Not_a_directory pure_path
  | Source_overlap path
  | Source_is_symlink string
  | Not_below_package string
  | Too_many_links string
  | Tree_not_directory pure_path
  | Source_file_is_directory pure_path
  | Not_regular_file pure_path
  | Unknown_role string
  | Destination_required
  | Prefix_collision string string
  | Source_missing pure_path
  | Exact_collision string
  | Staged_link_escapes string
  | Staged_link_dangling string
  | Staged_link_aliases string
  | File_dir_collision string
  | Executable_not_file string
  | Output_not_directory
  | Output_exists
  | Stage_index_error
  | Stage_os os_error

definition lift_stage :: "os_error + 'a \<Rightarrow> stage_error + 'a" where
  "lift_stage r = (case r of Inl e \<Rightarrow> Inl (Stage_os e) | Inr x \<Rightarrow> Inr x)"

lemma lift_stage_Inr [simp]: "lift_stage r = Inr x \<longleftrightarrow> r = Inr x" "lift_stage (Inr x) = Inr x"
  by (simp_all add: lift_stage_def split: sum.split)

definition normalise_relative :: "string \<Rightarrow> stage_error + string" where
  "normalise_relative s =
     (let p = parse_path s
      in if path_parts p = [] \<or> is_absolute p \<or> list_ex (\<lambda>part. part \<in> {[], ''.'', ''..''}) (path_parts p)
         then Inl (Invalid_staged_path s)
         else Inr (join_with ''/'' (path_parts p)))"

section \<open>Declared trees\<close>

definition canonical_link :: "string \<Rightarrow> bool" where
  "canonical_link t \<longleftrightarrow> \<not> (t = [] \<or> CHR 0x5C \<in> set t \<or> starts_with ''/'' t \<or> ends_with ''/'' t \<or> normpath t \<noteq> t)"

definition check_link :: "host \<Rightarrow> path \<Rightarrow> string \<Rightarrow> path \<Rightarrow> stage_error + string" where
  "check_link h source_path link_target root =
     (if \<not> canonical_link link_target then Inl (Not_canonical_link source_path)
      else case host_resolve h (path_div (abs_path (butlast source_path)) link_target) of
        None \<Rightarrow> Inl (Link_escapes source_path)
      | Some resolved \<Rightarrow>
          if \<not> relative_to resolved root \<or> \<not> host_exists h (abs_path resolved) then Inl (Link_escapes source_path)
          else Inr link_target)"

definition tree_item_entry :: "host \<Rightarrow> path \<Rightarrow> path \<Rightarrow> string \<Rightarrow> bool \<Rightarrow> stage_error + stage_entry" where
  "tree_item_entry h source_path source owner generated =
     (case host_lookup h source_path of
        Some (HLink t) \<Rightarrow>
          if generated \<and> starts_with ''/'' t then
            (case host_resolve h (abs_path source_path) of
               None \<Rightarrow> Inl (Transport_link_not_file source_path)
             | Some resolved \<Rightarrow>
                 if \<not> host_is_file h (abs_path resolved) then Inl (Transport_link_not_file source_path)
                 else Inr \<lparr>e_owner = owner, e_kind = KFile, e_source = abs_path resolved, e_link = None\<rparr>)
          else
            rbind (check_link h source_path t source) (\<lambda>link_target.
              Inr \<lparr>e_owner = owner, e_kind = KSymlink, e_source = abs_path source_path, e_link = Some link_target\<rparr>)
      | Some HDir \<Rightarrow> Inr \<lparr>e_owner = owner, e_kind = KDirectory, e_source = abs_path source_path, e_link = None\<rparr>
      | Some (HFile _) \<Rightarrow> Inr \<lparr>e_owner = owner, e_kind = KFile, e_source = abs_path source_path, e_link = None\<rparr>
      | _ \<Rightarrow> Inl (Unsupported_entry source_path))"

definition join_nonempty :: "string list \<Rightarrow> string" where
  "join_nonempty parts = join_with ''/'' (filter (\<lambda>part. part \<noteq> []) parts)"

definition host_depth :: "host \<Rightarrow> nat" where
  "host_depth h = fold max (map (length \<circ> fst) (h_nodes h)) 0"

lemma host_child: "name \<in> set (host_names h d) \<Longrightarrow> length (d @ [name]) \<le> host_depth h"
proof -
  assume "name \<in> set (host_names h d)"
  then obtain e where e: "e \<in> set (h_nodes h)" "fst e \<noteq> []" "butlast (fst e) = d" by (auto simp: host_names_def)
  then have "length (fst e) \<le> host_depth h" unfolding host_depth_def by (intro fold_max_bound) auto
  moreover have "length (fst e) = Suc (length d)" using e(2) by (simp add: e(3) [symmetric])
  ultimately show ?thesis by simp
qed

text \<open>The inner function \<^verbatim>\<open>visit\<close> of \<^verbatim>\<open>_tree_entries\<close>.\<close>

function visit_tree ::
    "host \<Rightarrow> string \<Rightarrow> path \<Rightarrow> string \<Rightarrow> bool \<Rightarrow> path \<Rightarrow> string \<Rightarrow> manifest \<Rightarrow> stage_error + manifest" where
  "visit_tree h destination source owner generated source_dir relative entries =
     rfold (\<lambda>name entries.
       rbind (tree_item_entry h (source_dir @ [name]) source owner generated) (\<lambda>entry.
         let entries = dict_set (join_nonempty [destination, relative, name]) entry entries
         in if e_kind entry = KDirectory
            then visit_tree h destination source owner generated (source_dir @ [name]) (join_nonempty [relative, name]) entries
            else Inr entries))
       (host_names h source_dir) entries"
  by pat_completeness auto

termination visit_tree
proof (relation "measure (\<lambda>(h, destination, source, owner, generated, source_dir, relative, entries).
      Suc (host_depth h) - length source_dir)", goal_cases)
  case (2 h destination source owner generated source_dir relative entries name)
  then have "length (source_dir @ [name]) \<le> host_depth h" using host_child [of name h source_dir] by simp
  then show ?case by simp
qed simp

declare visit_tree.simps [simp del]

definition tree_entries :: "host \<Rightarrow> pure_path \<Rightarrow> string \<Rightarrow> string \<Rightarrow> bool \<Rightarrow> stage_error + manifest" where
  "tree_entries h source_path destination owner generated =
     (case host_resolve h source_path of
        None \<Rightarrow> Inl (Not_a_directory source_path)
      | Some source \<Rightarrow>
          if \<not> host_is_dir h (abs_path source) then Inl (Not_a_directory source_path)
          else
            let destination = rstrip_of (\<lambda>c. c = CHR ''/'') destination;
                entries = (if destination = [] then []
                  else [(destination, \<lparr>e_owner = owner, e_kind = KDirectory, e_source = abs_path source, e_link = None\<rparr>)])
            in visit_tree h destination source owner generated source [] entries)"

text \<open>The canonical paths of the sources so far, each with the source as declared.\<close>

definition check_source_overlap ::
    "host \<Rightarrow> (path, pure_path) dict \<Rightarrow> pure_path \<Rightarrow> stage_error + (path, pure_path) dict" where
  "check_source_overlap h canonical_sources source =
     (case host_resolve h source of
        None \<Rightarrow> Inl (Source_missing source)
      | Some canonical \<Rightarrow>
          if list_ex (\<lambda>(prior, _). canonical = prior \<or> relative_to canonical prior \<or> relative_to prior canonical) canonical_sources
          then Inl (Source_overlap canonical)
          else Inr (dict_set canonical source canonical_sources))"

section \<open>Source files behind the links of Bazel\<close>

definition MAX_BAZEL_LINKS :: nat where "MAX_BAZEL_LINKS = 8"

definition REPOSITORY_MARKERS :: "string list" where
  "REPOSITORY_MARKERS = [''MODULE.bazel'', ''REPO.bazel'', ''WORKSPACE'', ''WORKSPACE.bazel'']"

definition is_repository_root :: "host \<Rightarrow> pure_path \<Rightarrow> bool" where
  "is_repository_root h directory \<longleftrightarrow> list_ex (\<lambda>name. host_is_file h (path_div directory name)) REPOSITORY_MARKERS"

definition marker_name :: "string \<Rightarrow> string" where
  "marker_name name = ''@'' @ name @ ''.marker''"

definition is_bazel_tree :: "host \<Rightarrow> pure_path \<Rightarrow> bool" where
  "is_bazel_tree h directory \<longleftrightarrow>
     list_ex (\<lambda>name. host_is_symlink h (path_div directory name)) REPOSITORY_MARKERS \<or>
     (case host_resolve h directory of
        None \<Rightarrow> False
      | Some resolved \<Rightarrow>
          let parent = path_parent (abs_path resolved)
          in path_name parent = ''external'' \<and> host_is_file h (path_div parent (marker_name (path_name (abs_path resolved)))))"

definition is_source_checkout :: "host \<Rightarrow> pure_path \<Rightarrow> bool" where
  "is_source_checkout h directory \<longleftrightarrow> is_repository_root h directory \<and> \<not> is_bazel_tree h directory"

text \<open>\<^verbatim>\<open>os.path.join(directory, name)\<close>\<close>

definition path_join :: "pure_path \<Rightarrow> string \<Rightarrow> string" where
  "path_join directory name =
     pure_str directory @ (if ends_with ''/'' (pure_str directory) then [] else ''/'') @ name"

definition mirrors :: "host \<Rightarrow> pure_path \<Rightarrow> pure_path \<Rightarrow> bool" where
  "mirrors h repository directory \<longleftrightarrow>
     (case host_resolve h directory of
        None \<Rightarrow> False
      | Some d \<Rightarrow>
          host_lookup h d = Some HDir \<and> host_names h d \<noteq> [] \<and>
          list_all (\<lambda>name. host_readlink h (path_div repository name) = Some (path_join directory name)) (host_names h d))"

definition bazel_hop ::
    "host \<Rightarrow> pure_path \<Rightarrow> string \<Rightarrow> string list \<Rightarrow> nat \<Rightarrow> nat \<Rightarrow> stage_error + (pure_path \<times> nat) option" where
  "bazel_hop h link target parts index repository_depth =
     (if \<not> starts_with ''/'' target then Inr None
      else
        let prefix = join_with ''/'' (take (index + 1) parts);
            root = parse_path (take (length target - length prefix) target);
            directory = path_parent (parse_path target);
            top_level = (index = repository_depth \<and> path_name (parse_path target) = parts ! index);
            otherwise = (if top_level \<and> (is_repository_root h directory \<or> mirrors h (path_parent link) directory)
              then Some (directory, index) else None)
        in if target \<noteq> ''/'' @ prefix \<and> ends_with (''/'' @ prefix) target then
             (if hd parts = ''external'' then
                (if length parts < 2 then Inl Stage_index_error
                 else if is_repository_root h root \<or>
                     host_is_file h (path_div (path_div root ''external'') (marker_name (parts ! 1)))
                   then Inr (Some (root, 0)) else Inr otherwise)
              else if is_repository_root h root then Inr (Some (root, 0)) else Inr otherwise)
           else Inr otherwise)"

text \<open>The loop of \<^verbatim>\<open>_walk_source_file\<close> from \<open>index\<close> on, below \<open>current\<close>.\<close>

function walk_parts ::
    "host \<Rightarrow> string list \<Rightarrow> int \<Rightarrow> string \<Rightarrow> nat \<Rightarrow> bool \<Rightarrow> pure_path \<Rightarrow> nat \<Rightarrow> stage_error + (pure_path \<times> nat) option" where
  "walk_parts h parts package_depth source repository_depth in_checkout current index =
     (if length parts \<le> index then Inr None
      else
        let current = path_div current (parts ! index);
            next = walk_parts h parts package_depth source repository_depth
              (if index + 1 = repository_depth then is_source_checkout h current else in_checkout) current (index + 1)
        in case host_readlink h current of
             None \<Rightarrow> next
           | Some target \<Rightarrow>
               rbind (if in_checkout then Inr None else bazel_hop h current target parts index repository_depth) (\<lambda>hop.
                 case hop of
                   Some hop \<Rightarrow> Inr (Some hop)
                 | None \<Rightarrow> if int index \<ge> package_depth then Inl (Source_is_symlink source) else next))"
  by pat_completeness auto

termination walk_parts
  by (relation "measure (\<lambda>(h, parts, package_depth, source, repository_depth, in_checkout, current, index).
      length parts - index)") auto

declare walk_parts.simps [simp del]

definition walk_source_file ::
    "host \<Rightarrow> pure_path \<Rightarrow> string list \<Rightarrow> int \<Rightarrow> string \<Rightarrow> stage_error + (pure_path \<times> nat) option" where
  "walk_source_file h root parts package_depth source =
     (let repository_depth = (if hd parts = ''external'' then 2 else 0);
          in_checkout = (repository_depth = 0 \<and> is_source_checkout h root)
      in walk_parts h parts package_depth source repository_depth in_checkout root 0)"

fun follow_hops ::
    "host \<Rightarrow> string list \<Rightarrow> int \<Rightarrow> string \<Rightarrow> nat \<Rightarrow> pure_path \<Rightarrow> nat \<Rightarrow> stage_error + unit" where
  "follow_hops h parts package_depth source 0 root consumed = Inl (Too_many_links source)"
| "follow_hops h parts package_depth source (Suc n) root consumed =
     rbind (walk_source_file h root (drop consumed parts) (package_depth - int consumed) source) (\<lambda>hop.
       case hop of
         None \<Rightarrow> Inr ()
       | Some (root, skipped) \<Rightarrow> follow_hops h parts package_depth source n root (consumed + skipped))"

definition check_source_file :: "host \<Rightarrow> string \<Rightarrow> string \<Rightarrow> stage_error + unit" where
  "check_source_file h source package =
     (if package \<noteq> [] \<and> \<not> starts_with (package @ ''/'') source then Inl (Not_below_package source)
      else
        follow_hops h (split_on (CHR ''/'') source)
          (if package = [] then 0 else int (length (split_on (CHR ''/'') package))) source MAX_BAZEL_LINKS (parse_path ''.'') 0)"

section \<open>Mappings\<close>

definition TREE_ROLES :: "string list" where "TREE_ROLES = [''tree'', ''generated-tree'']"

definition mapping_entries :: "host \<Rightarrow> pure_path \<Rightarrow> string \<Rightarrow> string \<Rightarrow> string \<Rightarrow> stage_error + manifest" where
  "mapping_entries h source destination owner role =
     (if role \<in> set TREE_ROLES \<and> \<not> host_is_dir h source then Inl (Tree_not_directory source)
      else if role = ''source-file'' \<and> host_is_dir h source then Inl (Source_file_is_directory source)
      else if role \<in> {''file'', ''source-file''} \<and> \<not> host_is_file h source then Inl (Not_regular_file source)
      else if role \<in> set TREE_ROLES then tree_entries h source destination owner (role = ''generated-tree'')
      else if role \<notin> {''file'', ''source-file''} then Inl (Unknown_role role)
      else if destination = [] then Inl Destination_required
      else Inr [(destination, \<lparr>e_owner = owner, e_kind = KFile, e_source = source, e_link = None\<rparr>)])"

definition below :: "string \<Rightarrow> string \<Rightarrow> bool" where
  "below s d \<longleftrightarrow> starts_with (d @ ''/'') s"

fun check_prefix_collisions :: "manifest \<Rightarrow> string \<Rightarrow> string \<Rightarrow> stage_error + unit" where
  "check_prefix_collisions [] destination owner = Inr ()"
| "check_prefix_collisions ((prior_path, prior) # entries) destination owner =
     (if e_owner prior = owner \<or> destination = [] \<or> prior_path = [] then check_prefix_collisions entries destination owner
      else if below destination prior_path \<and> e_kind prior = KDirectory \<and> ends_with '' -> .'' (e_owner prior)
      then check_prefix_collisions entries destination owner
      else if destination = prior_path \<or> below destination prior_path \<or> below prior_path destination
      then Inl (Prefix_collision destination prior_path)
      else check_prefix_collisions entries destination owner)"

text \<open>What the mappings so far have built: the three dictionaries that \<^verbatim>\<open>_manifest\<close> passes around.\<close>

record staging =
  st_entries :: manifest
  st_canonical :: "(path, pure_path) dict"
  st_shared :: "(string, string set) dict"

fun add_entry :: "bool \<Rightarrow> string \<Rightarrow> string \<times> stage_entry \<Rightarrow> staging \<Rightarrow> stage_error + staging" where
  "add_entry merge owner (p, entry) st =
     (case map_of (st_entries st) p of
        None \<Rightarrow> Inr (st\<lparr>st_entries := dict_set p entry (st_entries st)\<rparr>)
      | Some prior \<Rightarrow>
          let merged = (merge \<and> e_kind prior = e_kind entry \<and> e_kind entry = KDirectory)
          in if e_owner prior \<noteq> owner \<and> \<not> merged then Inl (Exact_collision p)
             else if merged
             then Inr (st\<lparr>st_shared := dict_set p (insert owner (dict_get (st_shared st) p {e_owner prior})) (st_shared st)\<rparr>)
             else Inr (st\<lparr>st_entries := dict_set p entry (st_entries st)\<rparr>))"

definition add_mapping ::
    "host \<Rightarrow> bool \<Rightarrow> string \<times> string \<times> string \<Rightarrow> staging \<Rightarrow> stage_error + staging" where
  "add_mapping h merge mapping st =
     (case mapping of (source_string, destination_string, role) \<Rightarrow>
        let source = parse_path source_string
        in if \<not> host_exists h source then Inl (Source_missing source)
           else
             rbind (if merge then Inr (st_canonical st) else check_source_overlap h (st_canonical st) source) (\<lambda>canonical.
             rbind (if destination_string = ''.'' then Inr [] else normalise_relative destination_string) (\<lambda>destination.
               let owner = pure_str source @ '' -> '' @ (if destination = [] then ''.'' else destination)
               in rbind (mapping_entries h source destination owner role) (\<lambda>new.
                  rbind (rfold (add_entry merge owner) new (st\<lparr>st_canonical := canonical\<rparr>)) (\<lambda>st.
                  rbind (if merge then Inr () else check_prefix_collisions (st_entries st) destination owner) (\<lambda>_. Inr st))))))"

section \<open>The layout of the manifest\<close>

definition check_staged_symlink ::
    "manifest \<Rightarrow> string \<Rightarrow> stage_entry \<Rightarrow> (string, string set) dict \<Rightarrow> stage_error + unit" where
  "check_staged_symlink entries p entry shared =
     (let target = path_div (path_parent (parse_path p)) (case e_link entry of Some t \<Rightarrow> t | None \<Rightarrow> []);
          normalised = parse_path (normpath (pure_str target));
          target_path = join_with ''/'' (path_parts normalised)
      in if is_absolute normalised \<or> ''..'' \<in> set (path_parts normalised) then Inl (Staged_link_escapes p)
         else case map_of entries target_path of
           None \<Rightarrow> Inl (Staged_link_dangling p)
         | Some target_entry \<Rightarrow>
             if e_owner target_entry \<noteq> e_owner entry \<and> e_owner entry \<notin> dict_get shared target_path {}
             then Inl (Staged_link_aliases p) else Inr ())"

text \<open>The inner loop of \<^verbatim>\<open>_check_layout\<close> over the paths after \<open>p\<close>, up to its \<^verbatim>\<open>break\<close>.\<close>

fun check_children :: "string \<Rightarrow> entry_kind \<Rightarrow> string list \<Rightarrow> stage_error + unit" where
  "check_children p k [] = Inr ()"
| "check_children p k (other # others) =
     (if \<not> below other p then Inr ()
      else if k \<noteq> KDirectory then Inl (File_dir_collision p)
      else check_children p k others)"

fun check_paths :: "manifest \<Rightarrow> (string, string set) dict \<Rightarrow> (string \<times> stage_entry) list \<Rightarrow> stage_error + unit" where
  "check_paths entries shared [] = Inr ()"
| "check_paths entries shared ((p, entry) # rest) =
     rbind (check_children p (e_kind entry) (map fst rest)) (\<lambda>_.
     rbind (if e_kind entry = KSymlink then check_staged_symlink entries p entry shared else Inr ()) (\<lambda>_.
       check_paths entries shared rest))"

definition check_layout :: "manifest \<Rightarrow> (string, string set) dict \<Rightarrow> stage_error + unit" where
  "check_layout entries shared = check_paths entries shared (sort_key fst entries)"

definition build_manifest :: "host \<Rightarrow> (string \<times> string \<times> string) list \<Rightarrow> bool \<Rightarrow> stage_error + manifest" where
  "build_manifest h mappings merge =
     rbind (rfold (add_mapping h merge) mappings \<lparr>st_entries = [], st_canonical = [], st_shared = []\<rparr>) (\<lambda>st.
     rbind (check_layout (st_entries st) (st_shared st)) (\<lambda>_. Inr (st_entries st)))"

section \<open>Writing the output tree\<close>

definition out_is_dir :: "fs \<Rightarrow> path \<Rightarrow> bool" where
  "out_is_dir fs p \<longleftrightarrow> host_is_dir (host_of fs) (abs_path p)"

text \<open>\<^verbatim>\<open>p.mkdir(exist_ok=True)\<close> without and with \<^verbatim>\<open>parents=True\<close>\<close>

definition mkdir_exist_ok :: "path \<Rightarrow> fs \<Rightarrow> os_error + fs" where
  "mkdir_exist_ok p fs =
     (case mkdir p fs of
        Inr fs' \<Rightarrow> Inr fs'
      | Inl (Enoent q) \<Rightarrow> Inl (Enoent q)
      | Inl e \<Rightarrow> if out_is_dir fs p then Inr fs else Inl e)"

function mkdir_parents :: "path \<Rightarrow> fs \<Rightarrow> os_error + fs" where
  "mkdir_parents p fs =
     (case mkdir p fs of
        Inr fs' \<Rightarrow> Inr fs'
      | Inl (Enoent q) \<Rightarrow>
          if p = [] then Inl (Enoent q) else rbind (mkdir_parents (butlast p) fs) (mkdir_exist_ok p)
      | Inl e \<Rightarrow> if out_is_dir fs p then Inr fs else Inl e)"
  by pat_completeness auto

termination mkdir_parents
  by (relation "measure (length \<circ> fst)") auto

declare mkdir_parents.simps [simp del]

definition entry_path :: "string \<Rightarrow> path" where
  "entry_path s = split_on (CHR ''/'') s"

definition entry_directories :: "manifest \<Rightarrow> path list" where
  "entry_directories entries =
     remdups ([] # concat (map (\<lambda>(p, e). parents (entry_path p) @ (if e_kind e = KDirectory then [entry_path p] else [])) entries))"

definition make_directory :: "string \<times> stage_entry \<Rightarrow> fs \<Rightarrow> stage_error + fs" where
  "make_directory pe fs =
     (case pe of (p, e) \<Rightarrow>
        if e_kind e = KDirectory then lift_stage (mkdir_parents (entry_path p) fs) else Inr fs)"

definition copy_entry :: "host \<Rightarrow> string set \<Rightarrow> string \<times> stage_entry \<Rightarrow> fs \<Rightarrow> stage_error + fs" where
  "copy_entry h executables pe fs =
     (case pe of (p, e) \<Rightarrow>
        let target = entry_path p
        in case e_kind e of
             KSymlink \<Rightarrow>
               lift_stage (rbind (mkdir_parents (butlast target) fs)
                 (symlink (case e_link e of Some t \<Rightarrow> t | None \<Rightarrow> []) target))
           | KFile \<Rightarrow>
               rbind (lift_stage (mkdir_parents (butlast target) fs)) (\<lambda>fs.
                 case host_data h (e_source e) of
                   None \<Rightarrow> Inl (Not_regular_file (e_source e))
                 | Some data \<Rightarrow>
                     lift_stage (rbind (write_data target data fs)
                       (chmod target (if p \<in> executables then mode_755 else mode_644))))
           | KDirectory \<Rightarrow> Inr fs)"

definition copy_manifest :: "host \<Rightarrow> manifest \<Rightarrow> string set \<Rightarrow> fs \<Rightarrow> stage_error + fs" where
  "copy_manifest h entries executables fs =
     rbind (rfold make_directory (sort_key fst entries) fs) (\<lambda>fs.
     rbind (rfold (copy_entry h executables) (sort_key fst entries) fs) (\<lambda>fs.
       rfold (\<lambda>d fs. lift_stage (chmod d mode_755 fs)) (rev (sort (entry_directories entries))) fs))"

definition manifest_json :: "manifest \<Rightarrow> string set \<Rightarrow> string" where
  "manifest_json entries executables =
     json_dumps (JList (map (\<lambda>(p, e).
       JObj [(''path'', JStr p), (''kind'', JStr (kind_str (e_kind e))),
         (''link_target'', case e_link e of Some t \<Rightarrow> JStr t | None \<Rightarrow> JNull),
         (''mode'', JInt (if p \<in> executables then mode_755 else mode_644))]) (sort_key fst entries)))
     @ [CHR ''\<newline>'']"

definition executable_paths :: "string list \<Rightarrow> manifest \<Rightarrow> stage_error + string set" where
  "executable_paths executables entries =
     rbind (rmap normalise_relative executables) (\<lambda>ps.
       case find (\<lambda>p. case map_of entries p of Some e \<Rightarrow> e_kind e \<noteq> KFile | None \<Rightarrow> True) ps of
         Some p \<Rightarrow> Inl (Executable_not_file p)
       | None \<Rightarrow> Inr (set ps))"

definition reset_output :: "host \<Rightarrow> pure_path \<Rightarrow> stage_error + fs" where
  "reset_output h output =
     (if host_exists h output \<and> \<not> host_is_dir h output then Inl Output_not_directory else Inr [])"

text \<open>
  \<^verbatim>\<open>main\<close> after the parsing of the arguments: the output tree and the text of the manifest file.
\<close>

definition stage_inputs ::
    "host \<Rightarrow> pure_path \<Rightarrow> (string \<times> string \<times> string) list \<Rightarrow> (string \<times> string \<times> string) list \<Rightarrow> bool
     \<Rightarrow> string list \<Rightarrow> stage_error + fs \<times> string" where
  "stage_inputs h output mappings source_files merge executables =
     (if host_is_symlink h output then Inl Output_exists
      else
        rbind (rmap (\<lambda>(source, _, package). check_source_file h source package) source_files) (\<lambda>_.
        rbind (build_manifest h (mappings @ map (\<lambda>(source, destination, _). (source, destination, ''source-file'')) source_files) merge) (\<lambda>entries.
        rbind (executable_paths executables entries) (\<lambda>paths.
        rbind (reset_output h output) (\<lambda>fs.
        rbind (copy_manifest h entries paths fs) (\<lambda>fs. Inr (fs, manifest_json entries paths)))))))"

end
