(* ===== verification/Stage_Safety.thy ===== *)
theory Stage_Safety
  imports Stage_Inputs Extract_Safety "HOL-Library.Multiset"
begin

text \<open>
  What the checks of a manifest establish: the layout check finds every collision between names
  without small characters, and every entry has a path of proper file names and a readable source.
\<close>

section \<open>The layout check\<close>

text \<open>
  The check relies on the paths below a path following it directly in the sorted order. This needs
  that no path has a character that sorts before the slash.
\<close>

definition plain_name :: "string \<Rightarrow> bool" where
  "plain_name s \<longleftrightarrow> list_all (\<lambda>c. CHR ''/'' \<le> c) s"

lemma below_iff: "below s d \<longleftrightarrow> (\<exists>x. s = d @ CHR ''/'' # x)"
proof
  assume "below s d"
  then have "s = (d @ ''/'') @ drop (length (d @ ''/'')) s"
    unfolding below_def starts_with_def by (metis append_take_drop_id)
  then show "\<exists>x. s = d @ CHR ''/'' # x" by (metis append.assoc append_Cons append_Nil)
qed (auto simp: below_def starts_with_def)

lemma below_greater: "below s d \<Longrightarrow> d < s"
proof -
  have "d < d @ CHR ''/'' # x" for x by (induction d) auto
  then show "below s d \<Longrightarrow> d < s" by (auto simp: below_iff)
qed

lemma between_below: "p < q \<Longrightarrow> q \<le> p @ CHR ''/'' # x \<Longrightarrow> plain_name q \<Longrightarrow> below q p"
proof (induction p arbitrary: q)
  case Nil
  then show ?case by (cases q) (auto simp: below_iff plain_name_def)
next
  case (Cons a p)
  then obtain r where r: "q = a # r" "p < r" "r \<le> p @ CHR ''/'' # x" by (cases q) auto
  with Cons.IH [of r] Cons.prems(3) have "below r p" by (simp add: plain_name_def)
  with r(1) show ?case by (auto simp: below_iff)
qed

lemma check_children_iff:
  "sorted (p # others) \<Longrightarrow> p \<notin> set others \<Longrightarrow> list_all plain_name others \<Longrightarrow>
     check_children p k others = Inr u \<longleftrightarrow> k = KDirectory \<or> (\<forall>q \<in> set others. \<not> below q p)"
proof (induction others)
  case (Cons q others)
  have "below q p" if "r \<in> set others" "below r p" for r
  proof -
    from that(2) obtain x where "r = p @ CHR ''/'' # x" by (auto simp: below_iff)
    moreover have "p < q" "q \<le> r" using Cons.prems that(1) by (auto simp: less_le)
    ultimately show ?thesis using between_below Cons.prems(3) by simp
  qed
  with Cons show ?case by auto
qed simp

definition clear_below :: "string set \<Rightarrow> string \<times> stage_entry \<Rightarrow> bool" where
  "clear_below ps x \<longleftrightarrow> (\<forall>q \<in> ps. below q (fst x) \<longrightarrow> e_kind (snd x) = KDirectory)"

definition link_ok :: "manifest \<Rightarrow> (string, string set) dict \<Rightarrow> string \<times> stage_entry \<Rightarrow> bool" where
  "link_ok entries shared x \<longleftrightarrow>
     (e_kind (snd x) = KSymlink \<longrightarrow> check_staged_symlink entries (fst x) (snd x) shared = Inr ())"

lemma check_paths_iff:
  "sorted (map fst es) \<Longrightarrow> distinct (map fst es) \<Longrightarrow> list_all (plain_name \<circ> fst) es \<Longrightarrow>
     check_paths entries shared es = Inr () \<longleftrightarrow>
     (\<forall>x \<in> set es. clear_below (fst ` set es) x \<and> link_ok entries shared x)"
proof (induction es)
  case (Cons x es)
  have c: "check_children (fst x) k (map fst es) = Inr () \<longleftrightarrow> k = KDirectory \<or> (\<forall>q \<in> fst ` set es. \<not> below q (fst x))" for k
    using check_children_iff [of "fst x" "map fst es" k "()"] Cons.prems by (auto simp: list_all_iff)
  have n: "\<not> below (fst x) q" if "q \<in> insert (fst x) (fst ` set es)" for q
    using below_greater [of "fst x" q] that Cons.prems(1) by (auto simp: not_less)
  then have "clear_below (fst ` set (x # es)) x \<longleftrightarrow> e_kind (snd x) = KDirectory \<or> (\<forall>q \<in> fst ` set es. \<not> below q (fst x))"
    unfolding clear_below_def by simp blast
  moreover have "clear_below (fst ` set (x # es)) y \<longleftrightarrow> clear_below (fst ` set es) y" if "y \<in> set es" for y
    using n [of "fst y"] that unfolding clear_below_def by simp
  moreover have "check_paths entries shared (x # es) = Inr () \<longleftrightarrow>
      check_children (fst x) (e_kind (snd x)) (map fst es) = Inr () \<and> link_ok entries shared x \<and> check_paths entries shared es = Inr ()"
    by (cases x) (auto simp: link_ok_def)
  ultimately show ?case using Cons.IH Cons.prems c [of "e_kind (snd x)"] by simp
qed simp

definition layout_ok :: "manifest \<Rightarrow> bool" where
  "layout_ok entries \<longleftrightarrow> (\<forall>x \<in> set entries. clear_below (fst ` set entries) x)"

lemma sort_key_keys: "map fst (sort_key fst es) = sort (map fst es)"
  by (rule properties_for_sort [symmetric]) simp_all

lemma check_layout_iff:
  assumes "distinct (map fst entries)" "list_all (plain_name \<circ> fst) entries"
  shows "check_layout entries shared = Inr () \<longleftrightarrow> layout_ok entries \<and> (\<forall>x \<in> set entries. link_ok entries shared x)"
proof -
  have "list_all (plain_name \<circ> fst) (sort_key fst entries)" using assms(2) by (simp add: list_all_iff)
  then show ?thesis
    unfolding check_layout_def using check_paths_iff [of "sort_key fst entries" entries shared] assms(1)
    by (auto simp: layout_ok_def sort_key_keys)
qed

section \<open>The entries of the manifest\<close>

text \<open>
  Every staged path is a sequence of proper file names, the source of a file can be read, and a link
  has a target.
\<close>

definition entry_ok :: "host \<Rightarrow> string \<times> stage_entry \<Rightarrow> bool" where
  "entry_ok h x \<longleftrightarrow>
     (\<exists>p. safe_path p \<and> p \<noteq> [] \<and> fst x = path_str p) \<and>
     (e_kind (snd x) = KFile \<longrightarrow> host_data h (e_source (snd x)) \<noteq> None)"

definition manifest_ok :: "host \<Rightarrow> manifest \<Rightarrow> bool" where
  "manifest_ok h entries \<longleftrightarrow> distinct (map fst entries) \<and> list_all (entry_ok h) entries"

lemma manifest_ok_set: "manifest_ok h entries \<Longrightarrow> entry_ok h (k, e) \<Longrightarrow> manifest_ok h (dict_set k e entries)"
  using set_dict_set [of k e entries] by (auto simp: manifest_ok_def distinct_dict_set list_all_iff)

lemma safe_clean: "safe_path p \<Longrightarrow> \<forall>c \<in> set p. CHR ''/'' \<notin> set c"
  by (auto simp: safe_path_def safe_component_def list_all_iff)

lemma safe_path_append [simp]: "safe_path (p @ q) \<longleftrightarrow> safe_path p \<and> safe_path q"
  by (simp add: safe_path_def)

lemma path_str_Nil: "safe_path p \<Longrightarrow> path_str p = [] \<longleftrightarrow> p = []"
  by (cases p; cases "tl p") (auto simp: path_str_def safe_path_def safe_component_def)

lemma join_with_append: "p \<noteq> [] \<Longrightarrow> q \<noteq> [] \<Longrightarrow> join_with s (p @ q) = join_with s p @ s @ join_with s q"
proof (induction p rule: induct_list012)
  case (2 a)
  then show ?case by (cases q) simp_all
qed simp_all

lemma join_nonempty_paths:
  "safe_path p \<Longrightarrow> safe_path q \<Longrightarrow> safe_component c \<Longrightarrow>
     join_nonempty [path_str p, path_str q, c] = path_str (p @ q @ [c]) \<and> join_nonempty [path_str q, c] = path_str (q @ [c])"
proof -
  assume a: "safe_path p" "safe_path q" "safe_component c"
  have "c \<noteq> []" using a(3) by (simp add: safe_component_def)
  moreover have "path_str [c] = c" by (simp add: path_str_def)
  moreover have "path_str (u @ v) = path_str u @ ''/'' @ path_str v" if "u \<noteq> []" "v \<noteq> []" for u v
    using join_with_append [OF that] by (simp add: path_str_def)
  ultimately show ?thesis
    using path_str_Nil [OF a(1)] path_str_Nil [OF a(2)] by (cases "p = []"; cases "q = []") (simp_all add: join_nonempty_def)
qed

lemma normalise_relative_safe:
  assumes "normalise_relative s = Inr d"
  shows "\<exists>p. safe_path p \<and> p \<noteq> [] \<and> d = path_str p"
proof -
  define p where "p = path_comps s"
  have "path_parts (parse_path s) = p" "p \<noteq> []" "\<not> list_ex (\<lambda>part. part \<in> {[], ''.'', ''..''}) p" "d = path_str p"
    using assms by (auto simp: normalise_relative_def Let_def path_parts_def parse_path_def path_str_def p_def split: if_split_asm)
  moreover have "\<forall>x \<in> set p. CHR ''/'' \<notin> set x" using split_on_parts by (auto simp: p_def path_comps_def)
  ultimately show ?thesis using bad_component_iff [of p] by blast
qed

lemma rstrip_path: "safe_path p \<Longrightarrow> rstrip_of (\<lambda>c. c = CHR ''/'') (path_str p) = path_str p"
proof (cases p rule: rev_exhaust)
  case (snoc q c)
  assume "safe_path p"
  then have c: "c \<noteq> []" "CHR ''/'' \<notin> set c" using snoc by (auto simp: safe_path_def safe_component_def)
  have "\<exists>s. path_str p = s @ c"
    using join_with_append [of q "[c]" "''/''"] by (cases "q = []") (auto simp: snoc path_str_def)
  then obtain s where s: "path_str p = s @ c" by blast
  from c(1) obtain cs x where "c = cs @ [x]" by (cases c rule: rev_exhaust) auto
  with c(2) have "dropWhile (\<lambda>x. x = CHR ''/'') (rev c @ rev s) = rev c @ rev s" by auto
  then show ?thesis by (simp add: rstrip_of_def s)
qed (simp add: path_str_def rstrip_of_def)

text \<open>The entry of an item of a declared tree.\<close>

lemma tree_item_entry_ok:
  assumes "host_wf h" "tree_item_entry h (d @ [name]) source owner generated = Inr e"
  shows "safe_component name \<and> (e_kind e = KFile \<longrightarrow> host_data h (e_source e) \<noteq> None)"
proof -
  from assms(2) obtain n where n: "host_lookup h (d @ [name]) = Some n"
    by (auto simp: tree_item_entry_def split: option.split_asm)
  from host_safe [OF assms(1) n] have "safe_component name" by (simp add: safe_path_def)
  moreover have "host_data h (e_source e) \<noteq> None" if k: "e_kind e = KFile"
  proof (cases n)
    case (HFile data)
    with n host_resolve_real [OF assms(1) n] assms(2) show ?thesis
      by (auto simp: tree_item_entry_def host_data_def host_stat_def)
  next
    case (HLink t)
    with n k assms(2) show ?thesis
      by (auto simp: tree_item_entry_def host_data_def host_is_file_def split: if_split_asm option.split_asm host_node.split_asm)
  qed (use n k assms(2) in \<open>auto simp: tree_item_entry_def\<close>)
  ultimately show ?thesis by blast
qed

lemma rfold_inv:
  "rfold f xs s = Inr t \<Longrightarrow> P s \<Longrightarrow> (\<And>x s t. x \<in> set xs \<Longrightarrow> P s \<Longrightarrow> f x s = Inr t \<Longrightarrow> P t) \<Longrightarrow> P t"
proof (induction xs arbitrary: s)
  case (Cons x xs)
  then obtain s1 where "f x s = Inr s1" "rfold f xs s1 = Inr t" by auto
  with Cons.IH [of s1] Cons.prems show ?case by auto
qed simp

lemma visit_tree_ok:
  "visit_tree h destination source owner generated d relative entries = Inr entries' \<Longrightarrow> host_wf h \<Longrightarrow>
     destination = path_str dst \<Longrightarrow> safe_path dst \<Longrightarrow> safe_path rel \<Longrightarrow> relative = path_str rel \<Longrightarrow>
     manifest_ok h entries \<Longrightarrow> manifest_ok h entries'"
proof (induction h destination source owner generated d relative entries arbitrary: rel entries' rule: visit_tree.induct)
  case (1 h destination source owner generated d relative entries)
  from "1.prems"(1) [unfolded visit_tree.simps [of h destination source owner generated d relative entries]] show ?case
  proof (rule rfold_inv [where P = "manifest_ok h"])
    fix name es es'
    assume n: "name \<in> set (host_names h d)" and es: "manifest_ok h es"
      and step: "rbind (tree_item_entry h (d @ [name]) source owner generated) (\<lambda>entry.
         let entries = dict_set (join_nonempty [destination, relative, name]) entry es
         in if e_kind entry = KDirectory
            then visit_tree h destination source owner generated (d @ [name]) (join_nonempty [relative, name]) entries
            else Inr entries) = Inr es'"
    from step obtain e where e: "tree_item_entry h (d @ [name]) source owner generated = Inr e" by auto
    from tree_item_entry_ok [OF "1.prems"(2) e] have c: "safe_component name"
      and f: "e_kind e = KFile \<longrightarrow> host_data h (e_source e) \<noteq> None" by blast+
    note j = join_nonempty_paths [OF "1.prems"(4,5) c]
    have "safe_path (dst @ rel @ [name])" "safe_path (rel @ [name])" using "1.prems"(4,5) c by (simp_all add: safe_path_def)
    with f j have ok: "entry_ok h (join_nonempty [destination, relative, name], e)"
      unfolding entry_ok_def "1.prems"(3,6) by (intro conjI exI [of _ "dst @ rel @ [name]"]) simp_all
    note m = manifest_ok_set [OF es ok]
    show "manifest_ok h es'"
    proof (cases "e_kind e = KDirectory")
      case True
      with step e have "visit_tree h destination source owner generated (d @ [name]) (join_nonempty [relative, name])
          (dict_set (join_nonempty [destination, relative, name]) e es) = Inr es'" by simp
      from "1.IH" [OF n e refl True this "1.prems"(2,3,4) \<open>safe_path (rel @ [name])\<close> _ m] j "1.prems"(6)
      show ?thesis by simp
    next
      case False
      with step e m show ?thesis by simp
    qed
  qed (use "1.prems" in simp)
qed

lemma mapping_entries_ok:
  assumes "host_wf h" "safe_path dst" "mapping_entries h source (path_str dst) owner role = Inr entries"
  shows "manifest_ok h entries"
proof (cases "role \<in> set TREE_ROLES")
  case True
  define start :: manifest where "start = (if dst = [] then []
    else [(path_str dst, \<lparr>e_owner = owner, e_kind = KDirectory, e_source = abs_path (the (host_resolve h source)), e_link = None\<rparr>)])"
  from True assms(3) have "visit_tree h (path_str dst) (the (host_resolve h source)) owner (role = ''generated-tree'')
      (the (host_resolve h source)) (path_str []) start = Inr entries"
    using rstrip_path [OF assms(2)] path_str_Nil [OF assms(2)]
    by (auto simp: mapping_entries_def tree_entries_def start_def Let_def path_str_def TREE_ROLES_def split: if_split_asm option.split_asm)
  moreover have "manifest_ok h start"
    using assms(2) by (auto simp: start_def manifest_ok_def entry_ok_def)
  ultimately show ?thesis using visit_tree_ok [OF _ assms(1) refl assms(2) _ refl, of _ _ _ _ "[]"] by (auto simp: safe_path_def)
next
  case False
  with assms(2,3) path_str_Nil [OF assms(2)] show ?thesis
    by (auto simp: mapping_entries_def manifest_ok_def entry_ok_def host_is_file_def host_data_def
        split: if_split_asm option.split_asm host_node.split_asm)
qed

text \<open>The invariant of \<^verbatim>\<open>_manifest\<close> over its mappings.\<close>

interpretation add_entry_step: tree_step "\<lambda>st. manifest_ok h (st_entries st)" "add_entry merge owner" "entry_ok h"
proof
  fix x st st' assume "entry_ok h x" "manifest_ok h (st_entries st)" "add_entry merge owner x st = Inr st'"
  then show "manifest_ok h (st_entries st')"
    by (cases x) (auto simp: Let_def manifest_ok_set split: option.split_asm if_split_asm)
qed

interpretation add_mapping_step: tree_step "\<lambda>st. manifest_ok h (st_entries st)" "add_mapping h merge" "\<lambda>_. host_wf h"
proof
  fix x st st' assume a: "host_wf h" "manifest_ok h (st_entries st)" "add_mapping h merge x st = Inr st'"
  obtain src dst role where x: "x = (src, dst, role)" by (cases x)
  from a(3) obtain st1 destination owner new where
      d: "(if dst = ''.'' then Inr [] else normalise_relative dst) = Inr destination"
    and m: "mapping_entries h (parse_path src) destination owner role = Inr new"
    and r: "rfold (add_entry merge owner) new st1 = Inr st'" "st_entries st1 = st_entries st"
    by (simp only: x add_mapping_def Let_def prod.case rbind_eq_Inr split: if_split_asm) auto
  have "\<exists>p. safe_path p \<and> destination = path_str p"
    using d normalise_relative_safe [of dst destination] by (auto simp: safe_path_def path_str_def split: if_split_asm intro: exI [of _ "[]"])
  with mapping_entries_ok [OF a(1)] m have "manifest_ok h new" by blast
  then have "list_all (entry_ok h) new" by (simp add: manifest_ok_def)
  from add_entry_step.run_inv [OF this _ r(1)] r(2) a(2) show "manifest_ok h (st_entries st')" by simp
qed

lemma build_manifest_ok:
  assumes "host_wf h" "build_manifest h mappings merge = Inr entries" "list_all (plain_name \<circ> fst) entries"
  shows "manifest_ok h entries \<and> layout_ok entries"
proof -
  from assms(2) obtain st :: staging where
      r: "rfold (add_mapping h merge) mappings \<lparr>st_entries = [], st_canonical = [], st_shared = []\<rparr> = Inr st"
    and l: "check_layout (st_entries st) (st_shared st) = Inr ()" and e: "entries = st_entries st"
    by (auto simp: build_manifest_def)
  have "manifest_ok h (st_entries st)"
    using add_mapping_step.run_inv [OF _ _ r] assms(1) by (simp add: list_all_iff manifest_ok_def)
  with check_layout_iff [of "st_entries st" "st_shared st"] l assms(3) show ?thesis by (simp add: e manifest_ok_def)
qed

end
