(* ===== verification/Stage_Copy.thy ===== *)
theory Stage_Copy
  imports Stage_Safety
begin

text \<open>The output tree: a manifest that passed the checks is written exactly as it says.\<close>

section \<open>The tree that a manifest describes\<close>

definition staged_node :: "host \<Rightarrow> string set \<Rightarrow> string \<times> stage_entry \<Rightarrow> node" where
  "staged_node h executables x =
     (case e_kind (snd x) of
        KDirectory \<Rightarrow> Dir mode_755
      | KFile \<Rightarrow> File (if fst x \<in> executables then mode_755 else mode_644) (the (host_data h (e_source (snd x))))
      | KSymlink \<Rightarrow> Symlink (case e_link (snd x) of Some t \<Rightarrow> t | None \<Rightarrow> []))"

definition staged_tree :: "host \<Rightarrow> manifest \<Rightarrow> string set \<Rightarrow> path \<Rightarrow> node option" where
  "staged_tree h entries executables p =
     (if p \<in> set (entry_directories entries) then Some (Dir mode_755)
      else map_of (map (\<lambda>x. (entry_path (fst x), staged_node h executables x)) entries) p)"

text \<open>What the checks establish of a manifest.\<close>

definition staged_ok :: "host \<Rightarrow> manifest \<Rightarrow> bool" where
  "staged_ok h entries \<longleftrightarrow> manifest_ok h entries \<and> layout_ok entries"

lemma entry_path_str: "safe_path p \<Longrightarrow> p \<noteq> [] \<Longrightarrow> entry_path (path_str p) = p"
  unfolding entry_path_def path_str_def by (rule split_on_join [OF _ safe_clean])

lemma entry_path_ok:
  "staged_ok h entries \<Longrightarrow> x \<in> set entries \<Longrightarrow> safe_path (entry_path (fst x)) \<and> entry_path (fst x) \<noteq> [] \<and> path_str (entry_path (fst x)) = fst x"
proof -
  assume "staged_ok h entries" "x \<in> set entries"
  then obtain p where "safe_path p" "p \<noteq> []" "fst x = path_str p"
    by (auto simp: staged_ok_def manifest_ok_def list_all_iff entry_ok_def)
  then show ?thesis by (simp add: entry_path_str)
qed

lemma entry_path_inj: "staged_ok h entries \<Longrightarrow> inj_on (\<lambda>x. entry_path (fst x)) (set entries)"
proof (rule inj_onI)
  fix x y assume a: "staged_ok h entries" "x \<in> set entries" "y \<in> set entries" "entry_path (fst x) = entry_path (fst y)"
  then have "fst x = fst y" using entry_path_ok by metis
  with a show "x = y" by (auto simp: staged_ok_def manifest_ok_def distinct_map dest: inj_onD)
qed

lemma entry_directories_iff:
  "p \<in> set (entry_directories entries) \<longleftrightarrow>
     p = [] \<or> (\<exists>x \<in> set entries. p \<in> set (parents (entry_path (fst x))) \<or> e_kind (snd x) = KDirectory \<and> p = entry_path (fst x))"
  by (force simp: entry_directories_def)

lemma parents_iff: "p \<in> set (parents q) \<longleftrightarrow> p \<noteq> [] \<and> (\<exists>r. r \<noteq> [] \<and> q = p @ r)"
proof
  assume "p \<in> set (parents q)"
  then obtain i where i: "p = take i q" "0 < i" "i < length q" by (auto simp: parents_def)
  then have "q = p @ drop i q" "drop i q \<noteq> []" by simp_all
  with i show "p \<noteq> [] \<and> (\<exists>r. r \<noteq> [] \<and> q = p @ r)" by (metis length_0_conv length_take less_nat_zero_code min_less_iff_conj take_eq_Nil)
next
  assume "p \<noteq> [] \<and> (\<exists>r. r \<noteq> [] \<and> q = p @ r)"
  then obtain r where "p \<noteq> []" "r \<noteq> []" "q = p @ r" by blast
  then have "p = take (length p) q" "length p \<in> set [1..<length q]" by (auto simp: Suc_le_eq)
  then show "p \<in> set (parents q)" unfolding parents_def by (metis imageI list.set_map)
qed

lemma directories_closed:
  assumes "p \<in> set (entry_directories entries)"
  shows "butlast p \<in> set (entry_directories entries)"
proof (cases "butlast p = []")
  case False
  have "p = butlast p @ [last p]" using False by (cases p) auto
  with assms False have "\<exists>x \<in> set entries. butlast p \<in> set (parents (entry_path (fst x)))"
    unfolding entry_directories_iff parents_iff by (metis Nil_is_append_conv append.assoc butlast.simps(1) not_Cons_self2)
  then show ?thesis unfolding entry_directories_iff by blast
qed (simp add: entry_directories_iff)

lemma parent_in_directories: "x \<in> set entries \<Longrightarrow> butlast (entry_path (fst x)) \<in> set (entry_directories entries)"
proof (cases "butlast (entry_path (fst x)) = []")
  case False
  assume x: "x \<in> set entries"
  have "entry_path (fst x) = butlast (entry_path (fst x)) @ [last (entry_path (fst x))]"
    using False by (cases "entry_path (fst x)") auto
  with False have "butlast (entry_path (fst x)) \<in> set (parents (entry_path (fst x)))" unfolding parents_iff by blast
  with x show ?thesis unfolding entry_directories_iff by blast
qed (simp add: entry_directories_iff)

lemma directories_safe:
  assumes "staged_ok h entries" "p \<in> set (entry_directories entries)"
  shows "safe_path p"
proof (cases "p = []")
  case False
  with assms(2) obtain x r where "x \<in> set entries" "entry_path (fst x) = p @ r"
    unfolding entry_directories_iff parents_iff by (metis append_Nil2)
  with entry_path_ok [OF assms(1)] show ?thesis by (metis safe_path_append)
qed (simp add: safe_path_def)

text \<open>No file or link is where a directory is needed.\<close>

lemma leaf_not_directory:
  assumes "staged_ok h entries" "x \<in> set entries" "e_kind (snd x) \<noteq> KDirectory"
  shows "entry_path (fst x) \<notin> set (entry_directories entries)"
proof
  assume "entry_path (fst x) \<in> set (entry_directories entries)"
  then consider y where "y \<in> set entries" "entry_path (fst x) \<in> set (parents (entry_path (fst y)))"
    | y where "y \<in> set entries" "e_kind (snd y) = KDirectory" "entry_path (fst x) = entry_path (fst y)"
    using entry_path_ok [OF assms(1,2)] unfolding entry_directories_iff by blast
  then show False
  proof cases
    case 1
    from 1(2) obtain r where r: "r \<noteq> []" "entry_path (fst y) = entry_path (fst x) @ r" by (auto simp: parents_iff)
    have "fst y = path_str (entry_path (fst x) @ r)" using entry_path_ok [OF assms(1) 1(1)] r(2) by simp
    also have "\<dots> = fst x @ ''/'' @ path_str r"
      using entry_path_ok [OF assms(1,2)] join_with_append [of "entry_path (fst x)" r "''/''"] r(1) by (simp add: path_str_def)
    finally have "below (fst y) (fst x)" by (auto simp: below_iff)
    with assms 1(1) show False by (auto simp: staged_ok_def layout_ok_def clear_below_def)
  next
    case 2
    with entry_path_inj [OF assms(1)] assms(2) have "x = y" by (auto dest: inj_onD)
    with 2(2) assms(3) show False by simp
  qed
qed

lemma staged_tree_entry:
  assumes "staged_ok h entries" "x \<in> set entries"
  shows "staged_tree h entries executables (entry_path (fst x)) = Some (staged_node h executables x)"
proof (cases "e_kind (snd x) = KDirectory")
  case True
  with assms(2) show ?thesis by (auto simp: staged_tree_def staged_node_def entry_directories_iff)
next
  case False
  have "distinct (map fst (map (\<lambda>x. (entry_path (fst x), staged_node h executables x)) entries))"
    using entry_path_inj [OF assms(1)] assms(1)
    by (simp add: distinct_map staged_ok_def manifest_ok_def comp_def)
  then show ?thesis
    using leaf_not_directory [OF assms False] assms(2) by (auto simp: staged_tree_def intro!: map_of_is_SomeI)
qed

lemma staged_tree_dom:
  "staged_tree h entries executables p = Some n \<Longrightarrow> p \<in> set (entry_directories entries) \<or> (\<exists>x \<in> set entries. p = entry_path (fst x))"
  by (auto simp: staged_tree_def split: if_split_asm dest!: map_of_SomeD)

section \<open>Filling in the tree\<close>

text \<open>
  A step fills in a described tree: it only adds nodes, the nodes that the description has, and only
  at the paths \<open>new\<close>.
\<close>

definition part_of :: "(path \<Rightarrow> node option) \<Rightarrow> fs \<Rightarrow> bool" where
  "part_of tree fs \<longleftrightarrow> fs_wf fs \<and> fs_lookup fs \<subseteq>\<^sub>m tree"

definition fills :: "(path \<Rightarrow> node option) \<Rightarrow> path set \<Rightarrow> fs \<Rightarrow> fs \<Rightarrow> bool" where
  "fills tree new fs fs' \<longleftrightarrow>
     part_of tree fs' \<and> fs_lookup fs \<subseteq>\<^sub>m fs_lookup fs' \<and> (\<forall>q. q \<notin> new \<longrightarrow> fs_lookup fs' q = fs_lookup fs q)"

lemma fills_refl: "part_of tree fs \<Longrightarrow> fills tree new fs fs"
  by (simp add: fills_def)

lemma fills_trans: "fills tree a fs fs1 \<Longrightarrow> fills tree b fs1 fs2 \<Longrightarrow> fills tree (a \<union> b) fs fs2"
  by (auto simp: fills_def intro: map_le_trans)

lemma fills_mono: "fills tree a fs fs' \<Longrightarrow> a \<subseteq> b \<Longrightarrow> fills tree b fs fs'"
  by (auto simp: fills_def)

lemma fills_lexists: "fills tree new fs fs' \<Longrightarrow> lexists fs p \<Longrightarrow> lexists fs' p"
  by (auto simp: fills_def lexists_def map_le_def dom_def)

lemma fills_add:
  assumes "part_of tree fs" "fs_wf fs'" "fs_lookup fs' = (fs_lookup fs)(p \<mapsto> n)" "tree p = Some n" "\<not> lexists fs p"
  shows "fills tree {p} fs fs'"
  using assms by (auto simp: fills_def part_of_def map_le_def lexists_def dom_def)

text \<open>The contract of the two loops: each element is filled in at a place of its own or below \<open>shared\<close>.\<close>

locale filling_step =
  fixes tree :: "path \<Rightarrow> node option" and shared :: "path set" and place :: "'a \<Rightarrow> path"
    and step :: "'a \<Rightarrow> fs \<Rightarrow> 'e + fs" and ok :: "'a \<Rightarrow> bool" and leaves :: "'a \<Rightarrow> bool"
  assumes step_fills: "ok x \<Longrightarrow> part_of tree fs \<Longrightarrow> place x \<in> shared \<or> \<not> lexists fs (place x) \<Longrightarrow>
    \<exists>fs'. step x fs = Inr fs' \<and> fills tree ({q. leaves x \<and> q = place x} \<union> shared) fs fs' \<and> (leaves x \<longrightarrow> lexists fs' (place x))"
begin

lemma run_fills:
  "list_all ok xs \<Longrightarrow> distinct (map place xs) \<Longrightarrow> part_of tree fs \<Longrightarrow>
   (\<And>x. x \<in> set xs \<Longrightarrow> place x \<in> shared \<or> \<not> lexists fs (place x)) \<Longrightarrow>
   \<exists>fs'. rfold step xs fs = Inr fs' \<and> fills tree (place ` {x \<in> set xs. leaves x} \<union> shared) fs fs' \<and>
     (\<forall>x \<in> set xs. leaves x \<longrightarrow> lexists fs' (place x))"
proof (induction xs arbitrary: fs)
  case Nil
  then show ?case by (auto intro: fills_refl)
next
  case (Cons x xs)
  from step_fills [of x fs] Cons.prems obtain fs1 where s: "step x fs = Inr fs1"
      "fills tree ({q. leaves x \<and> q = place x} \<union> shared) fs fs1" "leaves x \<longrightarrow> lexists fs1 (place x)" by auto
  have "place y \<in> shared \<or> \<not> lexists fs1 (place y)" if "y \<in> set xs" for y
  proof -
    have "place y \<noteq> place x" using Cons.prems(2) that by (auto simp: image_iff)
    then have "place y \<in> shared \<or> fs_lookup fs1 (place y) = fs_lookup fs (place y)" using s(2) by (auto simp: fills_def)
    then show ?thesis using Cons.prems(4) [of y] that by (auto simp: lexists_def)
  qed
  moreover have "part_of tree fs1" using s(2) by (simp add: fills_def)
  ultimately obtain fs2 where r: "rfold step xs fs1 = Inr fs2" "fills tree (place ` {x \<in> set xs. leaves x} \<union> shared) fs1 fs2"
      "\<forall>y \<in> set xs. leaves y \<longrightarrow> lexists fs2 (place y)" using Cons.IH [of fs1] Cons.prems(1,2) by auto
  have "fills tree (place ` {y \<in> set (x # xs). leaves y} \<union> shared) fs fs2"
    by (rule fills_mono [OF fills_trans [OF s(2) r(2)]]) auto
  with s(1,3) r fills_lexists [OF r(2)] show ?case by auto
qed

end

section \<open>Making directories\<close>

lemma host_of_lookup:
  "host_lookup (host_of fs) p = map_option (\<lambda>n. case n of Dir _ \<Rightarrow> HDir | File _ data \<Rightarrow> HFile data | Symlink t \<Rightarrow> HLink t) (fs_lookup fs p)"
proof -
  have "map_of (map (\<lambda>(p, n). (p, f n)) fs) p = map_option f (map_of fs p)" for f :: "node \<Rightarrow> host_node"
    by (induction fs) auto
  then show ?thesis by (simp add: host_lookup_def host_of_def fs_lookup_def)
qed

lemma host_of_wf: "fs_wf fs \<Longrightarrow> host_wf (host_of fs)"
proof -
  assume a: "fs_wf fs"
  have k: "map fst (h_nodes (host_of fs)) = map fst fs" by (simp add: host_of_def comp_def case_prod_unfold)
  have "host_lookup (host_of fs) p = Some HDir" if "is_real_dir fs p" for p
    using that by (auto simp: host_of_lookup is_real_dir_def split: option.split_asm node.split_asm)
  moreover have "fst ` set (h_nodes (host_of fs)) = fst ` set fs" using k by (metis list.set_map)
  moreover have "h_cwd (host_of fs) = []" by (simp add: host_of_def)
  ultimately show ?thesis using a k by (auto simp: host_wf_def fs_wf_def)
qed

lemma out_is_dir_real: "fs_wf fs \<Longrightarrow> is_real_dir fs p \<Longrightarrow> out_is_dir fs p"
proof -
  assume a: "fs_wf fs" "is_real_dir fs p"
  then have l: "host_lookup (host_of fs) p = Some HDir"
    by (auto simp: host_of_lookup is_real_dir_def split: option.split_asm node.split_asm)
  from host_resolve_real [OF host_of_wf [OF a(1)] l] l show ?thesis by (simp add: out_is_dir_def host_is_dir_def host_stat_def)
qed

definition all_dirs :: "(path \<Rightarrow> node option) \<Rightarrow> path set \<Rightarrow> bool" where
  "all_dirs tree ds \<longleftrightarrow> (\<forall>p \<in> ds. tree p = Some (Dir mode_755) \<and> butlast p \<in> ds \<and> safe_path p)"

lemma part_of_dir: "part_of tree fs \<Longrightarrow> all_dirs tree ds \<Longrightarrow> p \<in> ds \<Longrightarrow> lexists fs p \<Longrightarrow> is_real_dir fs p"
  by (auto simp: part_of_def all_dirs_def is_real_dir_def lexists_def map_le_def dom_def split: option.split)

lemma mkdir_fills:
  assumes "part_of tree fs" "all_dirs tree ds" "p \<in> ds" "lexists fs (butlast p)" "\<not> lexists fs p"
  shows "\<exists>fs'. mkdir p fs = Inr fs' \<and> fills tree ds fs fs' \<and> lexists fs' p"
proof -
  have b: "butlast p \<in> ds" "safe_path p" "tree p = Some (Dir mode_755)" using assms(2,3) by (auto simp: all_dirs_def)
  have d: "is_real_dir fs (butlast p)" using part_of_dir [OF assms(1,2) b(1) assms(4)] .
  with assms(5) have m: "mkdir p fs = Inr (fs @ [(p, Dir mode_755)])"
    by (auto simp: mkdir_def add_node_def is_real_dir_def split: option.split_asm node.split_asm)
  then have l: "fs_lookup (fs @ [(p, Dir mode_755)]) = (fs_lookup fs)(p \<mapsto> Dir mode_755)" by (simp add: mkdir_def lookup_add_node)
  have "fs_wf (fs @ [(p, Dir mode_755)])"
    using add_node_wf [OF _ b(2) d] m assms(1) by (simp add: mkdir_def part_of_def)
  from fills_add [OF assms(1) this l b(3) assms(5)] have "fills tree ds fs (fs @ [(p, Dir mode_755)])"
    by (rule fills_mono) (use assms(3) in simp)
  with m l show ?thesis by (simp add: lexists_def)
qed

lemma mkdir_parents_fills:
  assumes "all_dirs tree ds"
  shows "part_of tree fs \<Longrightarrow> p \<in> ds \<Longrightarrow> \<exists>fs'. mkdir_parents p fs = Inr fs' \<and> fills tree ds fs fs' \<and> lexists fs' p"
proof (induction p rule: rev_induct)
  case Nil
  then have "mkdir_parents [] fs = Inr fs"
    using out_is_dir_real [of fs "[]"]
    by (simp add: mkdir_parents.simps mkdir_def add_node_def lexists_def fs_lookup_def part_of_def)
  with Nil show ?case by (auto simp: lexists_def fs_lookup_def intro: fills_refl)
next
  case (snoc c p)
  note mk = mkdir_parents.simps [of "p @ [c]" fs]
  have p: "p \<in> ds" using snoc.prems(2) assms by (force simp: all_dirs_def)
  consider "lexists fs (p @ [c])" | "\<not> lexists fs (p @ [c])" "lexists fs p" | "\<not> lexists fs (p @ [c])" "\<not> lexists fs p" by blast
  then show ?case
  proof cases
    case 1
    have "out_is_dir fs (p @ [c])"
      using out_is_dir_real part_of_dir [OF snoc.prems(1) assms snoc.prems(2) 1] snoc.prems(1) by (simp add: part_of_def)
    with 1 mk have "mkdir_parents (p @ [c]) fs = Inr fs" by (simp add: mkdir_def add_node_def)
    with 1 snoc.prems(1) show ?thesis by (auto intro: fills_refl)
  next
    case 2
    from mkdir_fills [OF snoc.prems(1) assms snoc.prems(2) _ 2(1)] 2(2) mk show ?thesis by auto
  next
    case 3
    from snoc.IH [OF snoc.prems(1) p] obtain fs1 where s: "mkdir_parents p fs = Inr fs1" "fills tree ds fs fs1" "lexists fs1 p" by blast
    have m: "mkdir (p @ [c]) fs = Inl (Enoent (p @ [c]))" using 3 by (auto simp: mkdir_def add_node_def lexists_def split: option.split)
    have w: "part_of tree fs1" using s(2) by (simp add: fills_def)
    have "\<exists>fs2. mkdir_exist_ok (p @ [c]) fs1 = Inr fs2 \<and> fills tree ds fs1 fs2 \<and> lexists fs2 (p @ [c])"
    proof (cases "lexists fs1 (p @ [c])")
      case True
      have "out_is_dir fs1 (p @ [c])"
        using out_is_dir_real part_of_dir [OF w assms snoc.prems(2) True] w by (simp add: part_of_def)
      with True have "mkdir_exist_ok (p @ [c]) fs1 = Inr fs1" by (simp add: mkdir_exist_ok_def mkdir_def add_node_def)
      with True w show ?thesis by (auto intro: fills_refl)
    next
      case False
      from mkdir_fills [OF w assms snoc.prems(2) _ False] s(3) show ?thesis by (auto simp: mkdir_exist_ok_def)
    qed
    then obtain fs2 where "mkdir_exist_ok (p @ [c]) fs1 = Inr fs2" "fills tree ds fs1 fs2" "lexists fs2 (p @ [c])" by blast
    moreover from fills_trans [OF s(2) this(2)] have "fills tree ds fs fs2" by simp
    ultimately show ?thesis using mk m s(1) by simp
  qed
qed

section \<open>Copying\<close>

lemma write_chmod_total:
  assumes "part_of tree fs" "is_real_dir fs (butlast p)" "safe_path p" "\<not> lexists fs p" "tree p = Some (File mode data)"
  shows "\<exists>fs'. rbind (write_data p data fs) (chmod p mode) = Inr fs' \<and> fills tree {p} fs fs' \<and> lexists fs' p"
proof -
  have wf: "fs_wf fs" and n: "fs_lookup fs p = None" using assms(1,4) by (simp_all add: part_of_def lexists_def)
  then have p: "p \<noteq> []" by (auto simp: fs_lookup_def)
  define fs1 where "fs1 = fs @ [(p, File mode_644 data)]"
  have w: "write_data p data fs = Inr fs1"
    using assms(2) n by (auto simp: write_data_def add_node_def lexists_def is_real_dir_def fs1_def split: option.split_asm node.split_asm)
  have l: "fs_lookup fs1 = (fs_lookup fs)(p \<mapsto> File mode_644 data)" using lookup_write_new [OF w assms(4)] .
  then have nl: "\<not> is_link fs1 p" and m: "map_of fs1 p = Some (File mode_644 data)"
    using p by (simp_all add: is_link_def) (metis fs_lookup_def fun_upd_same)
  then have c: "chmod p mode fs1 = Inr (dict_set p (File mode data) fs1)" using p by (simp add: chmod_def)
  have "fs_lookup (dict_set p (File mode data) fs1) = (fs_lookup fs)(p \<mapsto> File mode data)" using lookup_dict_set [OF p] l by simp
  moreover have "fs_wf (dict_set p (File mode data) fs1)"
    using chmod_wf [OF write_wf [OF wf assms(3,2) _ w] nl c] n by (simp add: is_link_def)
  ultimately have "fills tree {p} fs (dict_set p (File mode data) fs1)" "lexists (dict_set p (File mode data) fs1) p"
    using fills_add assms(1,4,5) by (auto simp: lexists_def)
  with w c show ?thesis by simp
qed

lemma symlink_total:
  assumes "part_of tree fs" "is_real_dir fs (butlast p)" "safe_path p" "\<not> lexists fs p" "tree p = Some (Symlink t)"
  shows "\<exists>fs'. symlink t p fs = Inr fs' \<and> fills tree {p} fs fs' \<and> lexists fs' p"
proof -
  have s: "symlink t p fs = Inr (fs @ [(p, Symlink t)])"
    using assms(2,4) by (auto simp: symlink_def add_node_def is_real_dir_def split: option.split_asm node.split_asm)
  then have l: "fs_lookup (fs @ [(p, Symlink t)]) = (fs_lookup fs)(p \<mapsto> Symlink t)" by (simp add: symlink_def lookup_add_node)
  have "fs_wf (fs @ [(p, Symlink t)])"
    using add_node_wf [OF _ assms(3,2)] s assms(1) by (simp add: symlink_def part_of_def)
  from fills_add [OF assms(1) this l assms(5,4)] s l show ?thesis by (auto simp: lexists_def)
qed

lemma staged_all_dirs: "staged_ok h entries \<Longrightarrow> all_dirs (staged_tree h entries executables) (set (entry_directories entries))"
  by (auto simp: all_dirs_def staged_tree_def directories_closed directories_safe)

text \<open>The two loops of \<^verbatim>\<open>_copy_manifest\<close> fill in the tree.\<close>

interpretation make_directory_step:
  filling_step "staged_tree h entries executables" "set (entry_directories entries)" "\<lambda>x. entry_path (fst x)"
    make_directory "\<lambda>x. staged_ok h entries \<and> x \<in> set entries" "\<lambda>x. e_kind (snd x) = KDirectory"
proof
  fix x :: "string \<times> stage_entry" and fs
  assume x: "staged_ok h entries \<and> x \<in> set entries" and p: "part_of (staged_tree h entries executables) fs"
  show "\<exists>fs'. make_directory x fs = Inr fs' \<and>
      fills (staged_tree h entries executables)
        ({q. e_kind (snd x) = KDirectory \<and> q = entry_path (fst x)} \<union> set (entry_directories entries)) fs fs' \<and>
      (e_kind (snd x) = KDirectory \<longrightarrow> lexists fs' (entry_path (fst x)))"
  proof (cases "e_kind (snd x) = KDirectory")
    case True
    with x have "entry_path (fst x) \<in> set (entry_directories entries)" by (auto simp: entry_directories_iff)
    from mkdir_parents_fills [OF _ p this] staged_all_dirs x obtain fs'
      where m: "mkdir_parents (entry_path (fst x)) fs = Inr fs'" "lexists fs' (entry_path (fst x))"
        and "fills (staged_tree h entries executables) (set (entry_directories entries)) fs fs'" by blast
    from fills_mono [OF this(3)] m True show ?thesis by (auto simp: make_directory_def case_prod_unfold)
  qed (use p in \<open>auto simp: make_directory_def case_prod_unfold intro: fills_refl\<close>)
qed

interpretation copy_entry_step:
  filling_step "staged_tree h entries executables" "set (entry_directories entries)" "\<lambda>x. entry_path (fst x)"
    "copy_entry h executables" "\<lambda>x. staged_ok h entries \<and> x \<in> set entries" "\<lambda>x. e_kind (snd x) \<noteq> KDirectory"
proof
  fix x :: "string \<times> stage_entry" and fs
  let ?tree = "staged_tree h entries executables" and ?ds = "set (entry_directories entries)" and ?p = "entry_path (fst x)"
  assume x: "staged_ok h entries \<and> x \<in> set entries" and p: "part_of ?tree fs" and f: "?p \<in> ?ds \<or> \<not> lexists fs ?p"
  show "\<exists>fs'. copy_entry h executables x fs = Inr fs' \<and> fills ?tree ({q. e_kind (snd x) \<noteq> KDirectory \<and> q = ?p} \<union> ?ds) fs fs' \<and>
      (e_kind (snd x) \<noteq> KDirectory \<longrightarrow> lexists fs' ?p)"
  proof (cases "e_kind (snd x) = KDirectory")
    case True
    with p show ?thesis by (auto simp: copy_entry_def case_prod_unfold Let_def intro: fills_refl)
  next
    case False
    with x leaf_not_directory have nd: "?p \<notin> ?ds" by blast
    have ad: "all_dirs ?tree ?ds" using staged_all_dirs x by blast
    have pd: "butlast ?p \<in> ?ds" using parent_in_directories x by blast
    from mkdir_parents_fills [OF ad p pd] obtain fs1 where m: "mkdir_parents (butlast ?p) fs = Inr fs1"
        "fills ?tree ?ds fs fs1" "lexists fs1 (butlast ?p)" by blast
    have p1: "part_of ?tree fs1" using m(2) by (simp add: fills_def)
    have n: "\<not> lexists fs1 ?p" using f nd m(2) by (simp add: fills_def lexists_def)
    have t: "?tree ?p = Some (staged_node h executables x)" using staged_tree_entry x by blast
    have s: "safe_path ?p" using entry_path_ok x by blast
    note d = part_of_dir [OF p1 ad pd m(3)]
    have "\<exists>fs'. copy_entry h executables x fs = Inr fs' \<and> fills ?tree {?p} fs1 fs' \<and> lexists fs' ?p"
    proof (cases "e_kind (snd x)")
      case KFile
      with x obtain data where data: "host_data h (e_source (snd x)) = Some data"
        by (auto simp: staged_ok_def manifest_ok_def list_all_iff entry_ok_def)
      with KFile t have "?tree ?p = Some (File (if fst x \<in> executables then mode_755 else mode_644) data)"
        by (simp add: staged_node_def)
      from write_chmod_total [OF p1 d s n this] KFile data m(1) show ?thesis
        by (auto simp: copy_entry_def case_prod_unfold Let_def)
    next
      case KSymlink
      with t have "?tree ?p = Some (Symlink (case e_link (snd x) of Some t \<Rightarrow> t | None \<Rightarrow> []))" by (simp add: staged_node_def)
      from symlink_total [OF p1 d s n this] KSymlink m(1) show ?thesis
        by (auto simp: copy_entry_def case_prod_unfold Let_def)
    qed (use False in simp)
    then obtain fs' where c: "copy_entry h executables x fs = Inr fs'" "fills ?tree {?p} fs1 fs'" "lexists fs' ?p" by blast
    have "fills ?tree ({q. e_kind (snd x) \<noteq> KDirectory \<and> q = ?p} \<union> ?ds) fs fs'"
      by (rule fills_mono [OF fills_trans [OF m(2) c(2)]]) (use False in auto)
    with c show ?thesis by blast
  qed
qed

lemma chmod_directories:
  "part_of tree fs \<Longrightarrow> (\<And>d. d \<in> set ds \<Longrightarrow> fs_lookup fs d = Some (Dir mode_755)) \<Longrightarrow>
     \<exists>fs'. rfold (\<lambda>d fs. lift_stage (chmod d mode_755 fs)) ds fs = Inr fs' \<and> fs_wf fs' \<and> fs_lookup fs' = fs_lookup fs"
proof (induction ds arbitrary: fs)
  case (Cons d ds)
  have l: "fs_lookup fs d = Some (Dir mode_755)" using Cons.prems(2) by simp
  obtain fs1 where c: "chmod d mode_755 fs = Inr fs1" "fs_lookup fs1 = fs_lookup fs"
  proof (cases "d = []")
    case True
    then show ?thesis using that by (simp add: chmod_def)
  next
    case False
    then have "chmod d mode_755 fs = Inr (dict_set d (Dir mode_755) fs)" using l by (simp add: chmod_def fs_lookup_def)
    moreover have "fs_lookup (dict_set d (Dir mode_755) fs) = fs_lookup fs"
      using lookup_dict_set [OF False] l by (simp add: fun_upd_idem)
    ultimately show ?thesis using that by blast
  qed
  have "part_of tree fs1"
    using chmod_wf [OF _ _ c(1)] Cons.prems(1) l c(2) by (simp add: part_of_def is_link_def)
  from Cons.IH [OF this] Cons.prems(2) c show ?case by auto
qed (simp add: part_of_def)

lemma prefix_lexists: "fs_wf fs \<Longrightarrow> lexists fs (p @ r) \<Longrightarrow> lexists fs p"
proof (induction r rule: rev_induct)
  case (snoc c r)
  then have "is_real_dir fs (p @ r)" using parent_real [of fs "p @ r @ [c]"] by (simp add: butlast_append)
  then have "lexists fs (p @ r)" by (auto simp: is_real_dir_def lexists_def split: option.split_asm)
  with snoc show ?case by simp
qed simp

lemma directory_entry: "x \<in> set entries \<Longrightarrow> e_kind (snd x) = KDirectory \<Longrightarrow> entry_path (fst x) \<in> set (entry_directories entries)"
  by (force simp: entry_directories_iff)

text \<open>A part of the described tree that has every entry is the whole tree.\<close>

lemma all_present:
  assumes "part_of (staged_tree h entries executables) fs" "\<And>x. x \<in> set entries \<Longrightarrow> lexists fs (entry_path (fst x))"
  shows "fs_lookup fs = staged_tree h entries executables"
proof
  fix p
  have wf: "fs_wf fs" and le: "fs_lookup fs \<subseteq>\<^sub>m staged_tree h entries executables" using assms(1) by (simp_all add: part_of_def)
  have "lexists fs p" if t: "staged_tree h entries executables p = Some n" for n
  proof -
    from staged_tree_dom [OF t] consider "p = []" | x r where "x \<in> set entries" "entry_path (fst x) = p @ r"
      unfolding entry_directories_iff parents_iff by (metis append_Nil2)
    then show ?thesis
    proof cases
      case 2
      with assms(2) [OF 2(1)] prefix_lexists [OF wf] show ?thesis by simp
    qed (simp add: lexists_def fs_lookup_def)
  qed
  moreover have "staged_tree h entries executables p = Some n" if "fs_lookup fs p = Some n" for n
    using le that by (auto simp: map_le_def dom_def)
  ultimately show "fs_lookup fs p = staged_tree h entries executables p"
    by (cases "fs_lookup fs p"; cases "staged_tree h entries executables p") (simp_all add: lexists_def)
qed

lemma copy_manifest_exact:
  assumes "staged_ok h entries"
  shows "\<exists>fs. copy_manifest h entries executables [] = Inr fs \<and> fs_wf fs \<and> fs_lookup fs = staged_tree h entries executables"
proof -
  let ?tree = "staged_tree h entries executables" and ?ds = "set (entry_directories entries)"
  define xs where "xs = sort_key fst entries"
  have set_xs: "set xs = set entries" by (simp add: xs_def)
  have ok: "list_all (\<lambda>x. staged_ok h entries \<and> x \<in> set entries) xs" using assms by (simp add: list_all_iff set_xs)
  have "distinct xs" using assms by (metis distinct_map distinct_sort manifest_ok_def staged_ok_def xs_def)
  then have dx: "distinct (map (\<lambda>x. entry_path (fst x)) xs)"
    using entry_path_inj [OF assms] by (simp add: distinct_map set_xs)
  have t0: "?tree [] = Some (Dir mode_755)" by (simp add: staged_tree_def entry_directories_iff)
  then have p0: "part_of ?tree []" by (auto simp: part_of_def map_le_def fs_lookup_def dom_def)
  have e0: "\<not> lexists [] (entry_path (fst x))" if "x \<in> set xs" for x
    using entry_path_ok [OF assms, of x] that by (simp add: set_xs lexists_def fs_lookup_def)
  from make_directory_step.run_fills [OF ok dx p0] e0 obtain fs1 where r1: "rfold make_directory xs [] = Inr fs1"
      "fills ?tree ((\<lambda>x. entry_path (fst x)) ` {x \<in> set xs. e_kind (snd x) = KDirectory} \<union> ?ds) [] fs1"
      and l1: "\<And>x. x \<in> set xs \<Longrightarrow> e_kind (snd x) = KDirectory \<Longrightarrow> lexists fs1 (entry_path (fst x))" by blast
  have f1: "fills ?tree ?ds [] fs1"
    by (rule fills_mono [OF r1(2)]) (auto simp: set_xs intro: directory_entry)
  then have p1: "part_of ?tree fs1" by (simp add: fills_def)
  have "entry_path (fst x) \<in> ?ds \<or> \<not> lexists fs1 (entry_path (fst x))" if "x \<in> set xs" for x
    using f1 e0 [OF that] by (auto simp: fills_def lexists_def)
  from copy_entry_step.run_fills [OF ok dx p1 this] obtain fs2 where r2: "rfold (copy_entry h executables) xs fs1 = Inr fs2"
      "fills ?tree ((\<lambda>x. entry_path (fst x)) ` {x \<in> set xs. e_kind (snd x) \<noteq> KDirectory} \<union> ?ds) fs1 fs2"
      and l2: "\<And>x. x \<in> set xs \<Longrightarrow> e_kind (snd x) \<noteq> KDirectory \<Longrightarrow> lexists fs2 (entry_path (fst x))" by blast
  then have p2: "part_of ?tree fs2" by (simp add: fills_def)
  have l: "lexists fs2 (entry_path (fst x))" if "x \<in> set entries" for x
    using l1 l2 fills_lexists [OF r2(2)] that by (cases "e_kind (snd x) = KDirectory") (auto simp: set_xs)
  have eq: "fs_lookup fs2 = ?tree" using all_present [OF p2] l by blast
  from chmod_directories [OF p2, of "rev (sort (entry_directories entries))"] obtain fs3
    where "rfold (\<lambda>d fs. lift_stage (chmod d mode_755 fs)) (rev (sort (entry_directories entries))) fs2 = Inr fs3"
      "fs_wf fs3" "fs_lookup fs3 = fs_lookup fs2" by (auto simp: eq staged_tree_def)
  with r1(1) r2(1) eq show ?thesis by (auto simp: copy_manifest_def xs_def)
qed

text \<open>
  C32: A manifest that passes the checks is staged exactly. When the manifest of some mappings is built,
  and its paths have no character that sorts before the slash, then writing it succeeds whatever paths
  are executable, and the output tree is the tree that the manifest describes: it has a directory
  with mode 0755 for every entry that is a directory and for every parent of an entry, for every file
  entry a file with the contents of its source, mode 0755 for an executable and 0644 otherwise, for
  every link entry a link with its target, and nothing else. Nothing is written through a link.
\<close>

theorem staging_exact:
  assumes "host_wf h" "build_manifest h mappings merge = Inr entries" "list_all (plain_name \<circ> fst) entries"
  shows "\<exists>fs. copy_manifest h entries executables [] = Inr fs \<and> fs_wf fs \<and> fs_lookup fs = staged_tree h entries executables"
  using build_manifest_ok [OF assms(1-3)] by (intro copy_manifest_exact) (simp add: staged_ok_def)

end
