(* ===== verification/Stage_Fixture.thy ===== *)
theory Stage_Fixture
  imports Stage_Copy
begin

text \<open>Small source trees for the theorems about staging.\<close>

section \<open>A tree and a file\<close>

definition sample_host :: host where
  "sample_host =
     \<lparr>h_nodes = [([''w''], HDir), ([''w'', ''extra''], HFile [2]), ([''w'', ''cfg''], HDir),
        ([''w'', ''cfg'', ''a''], HLink ''d/c''), ([''w'', ''cfg'', ''d''], HDir), ([''w'', ''cfg'', ''d'', ''c''], HFile [1])],
      h_cwd = [''w'']\<rparr>"

definition sample_mappings :: "(string \<times> string \<times> string) list" where
  "sample_mappings = [(''extra'', ''x/e'', ''file''), (''cfg'', ''t'', ''tree'')]"

definition sample_entries :: manifest where
  "sample_entries =
     [(''x/e'', \<lparr>e_owner = ''extra -> x/e'', e_kind = KFile, e_source = parse_path ''extra'', e_link = None\<rparr>),
      (''t'', \<lparr>e_owner = ''cfg -> t'', e_kind = KDirectory, e_source = abs_path [''w'', ''cfg''], e_link = None\<rparr>),
      (''t/a'', \<lparr>e_owner = ''cfg -> t'', e_kind = KSymlink, e_source = abs_path [''w'', ''cfg'', ''a''], e_link = Some ''d/c''\<rparr>),
      (''t/d'', \<lparr>e_owner = ''cfg -> t'', e_kind = KDirectory, e_source = abs_path [''w'', ''cfg'', ''d''], e_link = None\<rparr>),
      (''t/d/c'', \<lparr>e_owner = ''cfg -> t'', e_kind = KFile, e_source = abs_path [''w'', ''cfg'', ''d'', ''c''], e_link = None\<rparr>)]"

lemma sample_manifest: "build_manifest sample_host sample_mappings False = Inr sample_entries"
  by code_simp

lemma sample_host_wf: "host_wf sample_host" "list_all (plain_name \<circ> fst) sample_entries"
  by code_simp+

theorem staging_exact_witness:
  "\<exists>fs. copy_manifest sample_host sample_entries {} [] = Inr fs \<and> fs_wf fs \<and>
     fs_lookup fs = staged_tree sample_host sample_entries {}"
  by (rule staging_exact [OF sample_host_wf(1) sample_manifest sample_host_wf(2)])

section \<open>A collision that the layout check misses\<close>

definition gap_host :: host where
  "gap_host =
     \<lparr>h_nodes = [([''w''], HDir), ([''w'', ''extra''], HFile [2]), ([''w'', ''cfg''], HDir),
        ([''w'', ''cfg'', ''a''], HLink ''d''), ([''w'', ''cfg'', ''a-b''], HFile [3]),
        ([''w'', ''cfg'', ''d''], HDir), ([''w'', ''cfg'', ''d'', ''c''], HFile [1])],
      h_cwd = [''w'']\<rparr>"

definition gap_mappings :: "(string \<times> string \<times> string) list" where
  "gap_mappings = [(''extra'', ''a/c'', ''file''), (''cfg'', ''.'', ''tree'')]"


end
