(* ===== verification/Debian_Snapshot.thy ===== *)
theory Debian_Snapshot
  imports Debian_Lock Stage_Inputs
begin

text \<open>
  The staging of an authenticated APT repository, \<^verbatim>\<open>mkosi/private/debian_snapshot.py\<close>. The input files are
  their contents. Parameters: \<open>sha256\<close> is the digest of a file, \<open>unxz\<close> its decompression (\<^const>\<open>None\<close> is an
  \<^verbatim>\<open>LZMAError\<close>), \<open>sqv_cleartext\<close> the payload of a clear-signed file whose signature \<^verbatim>\<open>sqv\<close> accepts and
  \<open>sqv_detached\<close> its verdict on a detached signature. The output directory is fresh.
\<close>

section \<open>Arguments and errors\<close>

record snapshot_args =
  a_inrelease :: bytes
  a_release :: bytes
  a_release_gpg :: bytes
  a_packages_xz :: bytes
  a_packages_all_xz :: bytes
  a_inrelease_sha256 :: string
  a_release_sha256 :: string
  a_release_gpg_sha256 :: string
  a_packages_xz_sha256 :: string
  a_packages_all_xz_sha256 :: string
  a_packages_path :: string
  a_packages_all_path :: string
  a_codename :: string
  a_component_indexes :: "string list"
  a_component_index_files :: "bytes list"
  a_package_records :: "string list"
  a_packages :: "bytes list"
  a_package_names :: "string list"

text \<open>One constructor per \<^verbatim>\<open>raise ValueError\<close>, and the exceptions of the library that the code lets through.\<close>

datatype snapshot_error =
    Digest_differs string
  | Size_differs string
  | Malformed_entry
  | Malformed_digest
  | Malformed_size
  | Duplicate_entry
  | Not_one_entry
  | Release_size_differs
  | Release_digest_differs
  | Signature_failed string
  | Unsafe_package_path string
  | Bad_architecture
  | Non_all_in_all_index
  | Incomplete_package
  | Conflicting_metadata
  | Index_counts_differ
  | Index_record_fields
  | Invalid_component string
  | Bad_index_architecture string
  | Index_misplaced string
  | Duplicate_index string string
  | Missing_index
  | Release_differs
  | Locked_record_fields
  | Locked_size_invalid
  | Duplicate_locked
  | Path_reused string
  | Duplicate_local_name string
  | Locked_not_in_metadata
  | Metadata_disagrees string
  | Names_differ
  | Package_counts_differ
  | Invalid_codename string
  | Not_utf8
  | Bad_integer
  | Bad_control control_error
  | Bad_xz
  | Snapshot_os os_error

definition lift_snapshot :: "os_error + 'a \<Rightarrow> snapshot_error + 'a" where
  "lift_snapshot r = (case r of Inl e \<Rightarrow> Inl (Snapshot_os e) | Inr x \<Rightarrow> Inr x)"

lemma lift_snapshot_Inr [simp]: "lift_snapshot r = Inr x \<longleftrightarrow> r = Inr x"
  by (simp add: lift_snapshot_def split: sum.split)

definition decode_text :: "bytes \<Rightarrow> snapshot_error + string" where
  "decode_text data = (case utf8_decode data of None \<Rightarrow> Inl Not_utf8 | Some s \<Rightarrow> Inr s)"

definition parse_int :: "string \<Rightarrow> snapshot_error + int" where
  "parse_int s = (case py_int s of None \<Rightarrow> Inl Bad_integer | Some n \<Rightarrow> Inr n)"

section \<open>Digests\<close>

definition verify_digest :: "(bytes \<Rightarrow> string) \<Rightarrow> bytes \<Rightarrow> string \<Rightarrow> string \<Rightarrow> snapshot_error + unit" where
  "verify_digest sha256 data expected description =
     (if sha256 data \<noteq> expected then Inl (Digest_differs description) else Inr ())"

definition verify_package :: "(bytes \<Rightarrow> string) \<Rightarrow> bytes \<Rightarrow> string \<Rightarrow> int \<Rightarrow> string \<Rightarrow> snapshot_error + unit" where
  "verify_package sha256 data expected_digest expected_bytes description =
     rbind (verify_digest sha256 data expected_digest description) (\<lambda>_.
       if len data \<noteq> expected_bytes then Inl (Size_differs description) else Inr ())"

section \<open>The Release file\<close>

text \<open>\<^verbatim>\<open>[0-9a-fA-F]{64}\<close>\<close>

definition is_hex64 :: "string \<Rightarrow> bool" where
  "is_hex64 s \<longleftrightarrow> length s = 64 \<and>
     list_all (\<lambda>c. CHR ''0'' \<le> c \<and> c \<le> CHR ''9'' \<or> CHR ''a'' \<le> c \<and> c \<le> CHR ''f'' \<or> CHR ''A'' \<le> c \<and> c \<le> CHR ''F'') s"

type_synonym release_entry = "string \<times> int \<times> string"

definition sha256_entry :: "string set \<Rightarrow> string \<Rightarrow> snapshot_error + release_entry" where
  "sha256_entry seen line =
     (case split_ws line of
        [digest, sz, listed] \<Rightarrow>
          if \<not> is_hex64 digest then Inl Malformed_digest
          else if \<not> str_isdigit sz then Inl Malformed_size
          else if listed \<in> seen then Inl Duplicate_entry
          else rbind (parse_int sz) (\<lambda>n. Inr (digest, n, listed))
      | _ \<Rightarrow> Inl Malformed_entry)"

fun sha256_lines :: "bool \<Rightarrow> string set \<Rightarrow> string list \<Rightarrow> snapshot_error + release_entry list" where
  "sha256_lines in_sha256 seen [] = Inr []"
| "sha256_lines in_sha256 seen (line # lines) =
     (if line = [] then sha256_lines in_sha256 seen lines
      else if \<not> isspace (hd line) \<and> ends_with '':'' line then sha256_lines (line = ''SHA256:'') seen lines
      else if \<not> in_sha256 then sha256_lines in_sha256 seen lines
      else
        rbind (sha256_entry seen line) (\<lambda>entry.
        rbind (sha256_lines in_sha256 (insert (snd (snd entry)) seen) lines) (\<lambda>entries. Inr (entry # entries))))"

definition sha256_entries :: "bytes \<Rightarrow> snapshot_error + release_entry list" where
  "sha256_entries release = rbind (decode_text release) (\<lambda>s. sha256_lines False {} (splitlines s))"

text \<open>The path without its first two components, \<^verbatim>\<open>path.split("/", 2)[2]\<close>.\<close>

definition release_path :: "string \<Rightarrow> string" where
  "release_path relative_path =
     (if starts_with ''dists/'' relative_path then join_with ''/'' (drop 2 (split_on (CHR ''/'') relative_path)) else relative_path)"

definition release_hash :: "bytes \<Rightarrow> string \<Rightarrow> int \<Rightarrow> string \<Rightarrow> snapshot_error + unit" where
  "release_hash release relative_path expected_bytes expected_digest =
     rbind (sha256_entries release) (\<lambda>entries.
       case filter (\<lambda>(digest, sz, listed). listed = release_path relative_path) entries of
         [(digest, sz, _)] \<Rightarrow>
           if sz \<noteq> expected_bytes then Inl Release_size_differs
           else if str_lower digest \<noteq> str_lower expected_digest then Inl Release_digest_differs
           else Inr ()
       | _ \<Rightarrow> Inl Not_one_entry)"

definition release_matches :: "bytes \<Rightarrow> bytes \<Rightarrow> bool" where
  "release_matches payload release \<longleftrightarrow> payload = release \<or> payload @ [10] = release"

section \<open>The indexes\<close>

record package_index =
  x_component :: string
  x_architecture :: string
  x_relative :: string
  x_digest :: string
  x_data :: bytes

definition index_record :: "string \<times> bytes \<Rightarrow> snapshot_error + package_index" where
  "index_record rd =
     (case split_on (CHR ''|'') (fst rd) of
        [component, architecture, relative, digest] \<Rightarrow>
          Inr \<lparr>x_component = component, x_architecture = architecture, x_relative = relative, x_digest = digest, x_data = snd rd\<rparr>
      | _ \<Rightarrow> Inl Index_record_fields)"

definition index_location :: "string \<Rightarrow> string \<Rightarrow> string \<Rightarrow> string" where
  "index_location codename component architecture =
     ''dists/'' @ codename @ ''/'' @ component @ ''/binary-'' @ architecture @ ''/Packages.xz''"

fun check_indexes :: "string \<Rightarrow> (string \<times> string) set \<Rightarrow> package_index list \<Rightarrow> snapshot_error + (string \<times> string) set" where
  "check_indexes codename seen [] = Inr seen"
| "check_indexes codename seen (x # xs) =
     (if \<not> is_identifier (x_component x) then Inl (Invalid_component (x_component x))
      else if x_architecture x \<notin> {''amd64'', ''all''} then Inl (Bad_index_architecture (x_architecture x))
      else if x_relative x \<noteq> index_location codename (x_component x) (x_architecture x) then Inl (Index_misplaced (x_relative x))
      else if (x_component x, x_architecture x) \<in> seen then Inl (Duplicate_index (x_component x) (x_architecture x))
      else check_indexes codename (insert (x_component x, x_architecture x) seen) xs)"

definition component_indexes :: "snapshot_args \<Rightarrow> snapshot_error + package_index list" where
  "component_indexes args =
     (if length (a_component_indexes args) \<noteq> length (a_component_index_files args) then Inl Index_counts_differ
      else
        rbind (rmap index_record (zip (a_component_indexes args) (a_component_index_files args))) (\<lambda>more_indexes.
          let indexes =
            [\<lparr>x_component = ''main'', x_architecture = ''amd64'', x_relative = a_packages_path args,
              x_digest = a_packages_xz_sha256 args, x_data = a_packages_xz args\<rparr>,
             \<lparr>x_component = ''main'', x_architecture = ''all'', x_relative = a_packages_all_path args,
              x_digest = a_packages_all_xz_sha256 args, x_data = a_packages_all_xz args\<rparr>] @ more_indexes
          in rbind (check_indexes (a_codename args) {} indexes) (\<lambda>seen.
               if seen \<noteq> (x_component ` set indexes) \<times> {''amd64'', ''all''} then Inl Missing_index
               else Inr indexes)))"

definition verify_index_digest :: "(bytes \<Rightarrow> string) \<Rightarrow> package_index \<Rightarrow> snapshot_error + unit" where
  "verify_index_digest sha256 x = verify_digest sha256 (x_data x) (x_digest x) (x_component x @ ''/'' @ x_architecture x)"

definition verify_input_digests :: "(bytes \<Rightarrow> string) \<Rightarrow> snapshot_args \<Rightarrow> package_index list \<Rightarrow> snapshot_error + unit" where
  "verify_input_digests sha256 args indexes =
     rbind (verify_digest sha256 (a_inrelease args) (a_inrelease_sha256 args) ''InRelease'') (\<lambda>_.
     rbind (verify_digest sha256 (a_release args) (a_release_sha256 args) ''Release'') (\<lambda>_.
     rbind (verify_digest sha256 (a_release_gpg args) (a_release_gpg_sha256 args) ''Release.gpg'') (\<lambda>_.
     rbind (rmap (verify_index_digest sha256) indexes) (\<lambda>_. Inr ()))))"

text \<open>The two runs of \<^verbatim>\<open>sqv\<close>; the result is what the first one writes to \<^verbatim>\<open>verified-release\<close>.\<close>

definition verify_signature ::
    "(bytes \<Rightarrow> bytes option) \<Rightarrow> (bytes \<Rightarrow> bytes \<Rightarrow> bool) \<Rightarrow> snapshot_args \<Rightarrow> snapshot_error + bytes" where
  "verify_signature sqv_cleartext sqv_detached args =
     (case sqv_cleartext (a_inrelease args) of
        None \<Rightarrow> Inl (Signature_failed ''InRelease'')
      | Some payload \<Rightarrow>
          if \<not> sqv_detached (a_release args) (a_release_gpg args) then Inl (Signature_failed ''Release'')
          else Inr payload)"

definition verify_authenticated_release :: "bytes \<Rightarrow> bytes \<Rightarrow> package_index list \<Rightarrow> snapshot_error + unit" where
  "verify_authenticated_release payload release indexes =
     (if \<not> release_matches payload release then Inl Release_differs
      else rbind (rmap (\<lambda>x. release_hash payload (x_relative x) (len (x_data x)) (x_digest x)) indexes) (\<lambda>_. Inr ()))"

section \<open>Locked packages\<close>

definition safe_package_path :: "string \<Rightarrow> snapshot_error + pure_path" where
  "safe_package_path filename =
     (let relative = parse_path filename
      in if is_absolute relative \<or> ''..'' \<in> set (path_parts relative) \<or> pure_str relative \<noteq> filename
            \<or> \<not> starts_with ''pool/'' (pure_str relative)
         then Inl (Unsafe_package_path filename) else Inr relative)"

text \<open>The key of a package, name, version and architecture, and what the lock records of it.\<close>

type_synonym package_id = "string option \<times> string option \<times> string"

record locked_record =
  l_filename :: string
  l_bytes :: int
  l_digest :: string
  l_local :: string

type_synonym lock_table = "(package_id, locked_record) dict"

definition add_locked :: "string \<Rightarrow> lock_table \<Rightarrow> snapshot_error + lock_table" where
  "add_locked package expected =
     (case split_on (CHR ''|'') package of
        [name, version, architecture, filename, sz, digest, local_name] \<Rightarrow>
          if \<not> str_isdigit sz then Inl Locked_size_invalid
          else
            rbind (safe_package_path filename) (\<lambda>relative.
              let key = (Some name, Some version, architecture); filename = pure_str relative
              in if key \<in> fst ` set expected then Inl Duplicate_locked
                 else if filename \<in> (l_filename \<circ> snd) ` set expected then Inl (Path_reused filename)
                 else if local_name \<in> (l_local \<circ> snd) ` set expected then Inl (Duplicate_local_name local_name)
                 else rbind (parse_int sz) (\<lambda>n.
                   Inr (dict_set key \<lparr>l_filename = filename, l_bytes = n, l_digest = digest, l_local = local_name\<rparr> expected)))
      | _ \<Rightarrow> Inl Locked_record_fields)"

definition locked_records :: "string list \<Rightarrow> snapshot_error + lock_table" where
  "locked_records package_records = rfold add_locked package_records []"

text \<open>The record of a paragraph of an index: path, size and digest.\<close>

type_synonym index_data = "string \<times> int \<times> string"

definition nonempty_field :: "fields822 \<Rightarrow> string \<Rightarrow> string option" where
  "nonempty_field paragraph f = (case map_of paragraph f of Some (c # cs) \<Rightarrow> Some (c # cs) | _ \<Rightarrow> None)"

definition paragraph_data :: "string \<Rightarrow> fields822 \<Rightarrow> snapshot_error + package_id \<times> index_data" where
  "paragraph_data index_architecture paragraph =
     (case map_of paragraph ''Architecture'' of
        None \<Rightarrow> Inl Bad_architecture
      | Some architecture \<Rightarrow>
          if architecture \<notin> {''amd64'', ''all''} then Inl Bad_architecture
          else if index_architecture = ''all'' \<and> architecture \<noteq> ''all'' then Inl Non_all_in_all_index
          else
            (case (nonempty_field paragraph ''Filename'', nonempty_field paragraph ''Size'', nonempty_field paragraph ''SHA256'') of
               (Some filename, Some sz, Some digest) \<Rightarrow>
                 if \<not> str_isdigit sz then Inl Incomplete_package
                 else rbind (parse_int sz) (\<lambda>n.
                   Inr ((map_of paragraph ''Package'', map_of paragraph ''Version'', architecture), filename, n, digest))
             | _ \<Rightarrow> Inl Incomplete_package))"

definition add_paragraph ::
    "package_id set \<Rightarrow> string \<Rightarrow> fields822 \<Rightarrow> (package_id, index_data) dict \<Rightarrow> snapshot_error + (package_id, index_data) dict" where
  "add_paragraph expected index_architecture paragraph actual =
     rbind (paragraph_data index_architecture paragraph) (\<lambda>(key, data).
       if (case map_of actual key of Some prior \<Rightarrow> prior \<noteq> data | None \<Rightarrow> False) then Inl Conflicting_metadata
       else if key \<in> expected then Inr (dict_set key data actual)
       else Inr actual)"

definition index_paragraphs :: "bytes \<Rightarrow> snapshot_error + fields822 list" where
  "index_paragraphs data =
     rbind (decode_text data) (\<lambda>s. case paragraphs s of Inl e \<Rightarrow> Inl (Bad_control e) | Inr ps \<Rightarrow> Inr ps)"

definition add_index ::
    "package_id set \<Rightarrow> bytes \<times> string \<Rightarrow> (package_id, index_data) dict \<Rightarrow> snapshot_error + (package_id, index_data) dict" where
  "add_index expected x actual =
     rbind (index_paragraphs (fst x)) (\<lambda>ps. rfold (add_paragraph expected (snd x)) ps actual)"

definition read_package_metadata ::
    "(bytes \<times> string) list \<Rightarrow> package_id set \<Rightarrow> snapshot_error + (package_id, index_data) dict" where
  "read_package_metadata indexes expected = rfold (add_index expected) indexes []"

definition verify_package_metadata :: "(bytes \<times> string) list \<Rightarrow> lock_table \<Rightarrow> snapshot_error + unit" where
  "verify_package_metadata staged_indexes expected =
     rbind (read_package_metadata staged_indexes (fst ` set expected)) (\<lambda>actual.
       if fst ` set actual \<noteq> fst ` set expected then Inl Locked_not_in_metadata
       else case find (\<lambda>(key, r). map_of actual key \<noteq> Some (l_filename r, l_bytes r, l_digest r))
              (sort_key (\<lambda>((name, version, architecture), r). (the name, the version, architecture)) expected) of
              Some ((name, _), _) \<Rightarrow> Inl (Metadata_disagrees (case name of Some n \<Rightarrow> n | None \<Rightarrow> []))
            | None \<Rightarrow> Inr ())"

section \<open>Writing the repository\<close>

definition copy_out :: "path \<Rightarrow> bytes \<Rightarrow> fs \<Rightarrow> snapshot_error + fs" where
  "copy_out destination data fs =
     rbind (lift_snapshot (mkdir_parents (butlast destination) fs)) (\<lambda>fs.
     rbind (lift_snapshot (write_data destination data fs)) (\<lambda>fs.
       lift_snapshot (chmod destination mode_644 fs)))"

definition decompress_out :: "(bytes \<Rightarrow> bytes option) \<Rightarrow> bytes \<Rightarrow> path \<Rightarrow> fs \<Rightarrow> snapshot_error + bytes \<times> fs" where
  "decompress_out unxz source destination fs =
     (case unxz source of
        None \<Rightarrow> Inl Bad_xz
      | Some data \<Rightarrow> rbind (copy_out destination data fs) (\<lambda>fs. Inr (data, fs)))"

text \<open>Where the decompressed index goes: the path without \<^verbatim>\<open>.xz\<close>.\<close>

definition index_destination :: "package_index \<Rightarrow> path" where
  "index_destination x = pp_comps (parse_path (take (length (x_relative x) - 3) (x_relative x)))"

fun stage_indexes ::
    "(bytes \<Rightarrow> bytes option) \<Rightarrow> package_index list \<Rightarrow> fs \<Rightarrow> snapshot_error + (bytes \<times> string) list \<times> fs" where
  "stage_indexes unxz [] fs = Inr ([], fs)"
| "stage_indexes unxz (x # xs) fs =
     rbind (decompress_out unxz (x_data x) (index_destination x) fs) (\<lambda>(data, fs).
     rbind (stage_indexes unxz xs fs) (\<lambda>(staged, fs). Inr ((data, x_architecture x) # staged, fs)))"

definition stage_release_files ::
    "(bytes \<Rightarrow> bytes option) \<Rightarrow> snapshot_args \<Rightarrow> package_index list \<Rightarrow> fs \<Rightarrow> snapshot_error + (bytes \<times> string) list \<times> fs" where
  "stage_release_files unxz args indexes fs =
     (let dists = [''dists'', a_codename args]
      in rbind (copy_out (dists @ [''InRelease'']) (a_inrelease args) fs) (\<lambda>fs.
         rbind (copy_out (dists @ [''Release'']) (a_release args) fs) (\<lambda>fs.
         rbind (copy_out (dists @ [''Release.gpg'']) (a_release_gpg args) fs) (\<lambda>fs.
           stage_indexes unxz indexes fs))))"

definition stage_package :: "(bytes \<Rightarrow> string) \<Rightarrow> lock_table \<Rightarrow> bytes \<times> string \<Rightarrow> fs \<Rightarrow> snapshot_error + fs" where
  "stage_package sha256 expected package fs =
     (case find (\<lambda>(key, r). l_local r = snd package) expected of
        None \<Rightarrow> Inl Names_differ
      | Some (key, r) \<Rightarrow>
          rbind (verify_package sha256 (fst package) (l_digest r) (l_bytes r) (snd package)) (\<lambda>_.
          rbind (safe_package_path (l_filename r)) (\<lambda>relative. copy_out (pp_comps relative) (fst package) fs)))"

definition stage_packages ::
    "(bytes \<Rightarrow> string) \<Rightarrow> snapshot_args \<Rightarrow> lock_table \<Rightarrow> fs \<Rightarrow> snapshot_error + fs" where
  "stage_packages sha256 args expected fs =
     (if (l_local \<circ> snd) ` set expected \<noteq> set (a_package_names args) then Inl Names_differ
      else if length (a_packages args) \<noteq> length (a_package_names args) then Inl Package_counts_differ
      else rfold (stage_package sha256 expected) (zip (a_packages args) (a_package_names args)) fs)"

text \<open>\<^verbatim>\<open>_set_deterministic_metadata\<close>, less the times: the walk reaches every entry of the tree.\<close>

definition set_deterministic_metadata :: "fs \<Rightarrow> fs" where
  "set_deterministic_metadata fs =
     map (\<lambda>(p, n). (p, case n of Dir _ \<Rightarrow> Dir mode_755 | File _ data \<Rightarrow> File mode_644 data | Symlink t \<Rightarrow> Symlink t)) fs"

definition stage_snapshot ::
    "(bytes \<Rightarrow> string) \<Rightarrow> (bytes \<Rightarrow> bytes option) \<Rightarrow> (bytes \<Rightarrow> bytes option) \<Rightarrow> (bytes \<Rightarrow> bytes \<Rightarrow> bool) \<Rightarrow> snapshot_args
     \<Rightarrow> snapshot_error + fs" where
  "stage_snapshot sha256 unxz sqv_cleartext sqv_detached args =
     (if \<not> is_identifier (a_codename args) then Inl (Invalid_codename (a_codename args))
      else
        rbind (component_indexes args) (\<lambda>indexes.
        rbind (verify_input_digests sha256 args indexes) (\<lambda>_.
        rbind (verify_signature sqv_cleartext sqv_detached args) (\<lambda>payload.
        rbind (verify_authenticated_release payload (a_release args) indexes) (\<lambda>_.
        rbind (stage_release_files unxz args indexes [([''verified-release''], File mode_644 payload)]) (\<lambda>(staged_indexes, fs).
        rbind (locked_records (a_package_records args)) (\<lambda>expected.
        rbind (verify_package_metadata staged_indexes expected) (\<lambda>_.
        rbind (stage_packages sha256 args expected fs) (\<lambda>fs.
        rbind (lift_snapshot (unlink [''verified-release''] fs)) (\<lambda>fs.
          Inr (set_deterministic_metadata fs)))))))))))"

end
