(* ===== verification/Snapshot_Safety.thy ===== *)
theory Snapshot_Safety
  imports Debian_Snapshot Stage_Copy
begin

text \<open>
  The chain of trust of a staged repository: every file of it is a signed release file, an index that
  the signed release lists, or a package that such an index and the lock describe.
\<close>

section \<open>What the files of a repository are\<close>

definition authentic_index :: "(bytes \<Rightarrow> string) \<Rightarrow> bytes \<Rightarrow> package_index \<Rightarrow> bool" where
  "authentic_index sha256 payload x \<longleftrightarrow> sha256 (x_data x) = x_digest x \<and>
     (\<exists>entries digest. sha256_entries payload = Inr entries \<and>
        (digest, len (x_data x), release_path (x_relative x)) \<in> set entries \<and> str_lower digest = str_lower (x_digest x))"

definition index_lists :: "(bytes \<Rightarrow> bytes option) \<Rightarrow> package_index \<Rightarrow> package_id \<times> locked_record \<Rightarrow> bool" where
  "index_lists unxz x kr \<longleftrightarrow>
     (\<exists>data ps paragraph. unxz (x_data x) = Some data \<and> index_paragraphs data = Inr ps \<and> paragraph \<in> set ps \<and>
        paragraph_data (x_architecture x) paragraph =
          Inr (fst kr, l_filename (snd kr), l_bytes (snd kr), l_digest (snd kr)))"

definition release_file :: "snapshot_args \<Rightarrow> path \<Rightarrow> bytes \<Rightarrow> bool" where
  "release_file args p data \<longleftrightarrow>
     (p, data) \<in> {([''dists'', a_codename args, ''InRelease''], a_inrelease args),
       ([''dists'', a_codename args, ''Release''], a_release args),
       ([''dists'', a_codename args, ''Release.gpg''], a_release_gpg args)}"

definition package_file :: "(bytes \<Rightarrow> string) \<Rightarrow> lock_table \<Rightarrow> path \<Rightarrow> bytes \<Rightarrow> bool" where
  "package_file sha256 expected p data \<longleftrightarrow>
     (\<exists>kr \<in> set expected. p = path_comps (l_filename (snd kr)) \<and> len data = l_bytes (snd kr) \<and> sha256 data = l_digest (snd kr))"

definition index_file :: "(bytes \<Rightarrow> bytes option) \<Rightarrow> package_index list \<Rightarrow> path \<Rightarrow> bytes \<Rightarrow> bool" where
  "index_file unxz indexes p data \<longleftrightarrow> (\<exists>x \<in> set indexes. p = index_destination x \<and> unxz (x_data x) = Some data)"

section \<open>Writing files\<close>

definition only_files :: "(path \<Rightarrow> bytes \<Rightarrow> bool) \<Rightarrow> fs \<Rightarrow> bool" where
  "only_files Q fs \<longleftrightarrow> fs_wf fs \<and> no_links fs \<and> (\<forall>p m data. fs_lookup fs p = Some (File m data) \<longrightarrow> Q p data)"

definition keeps_files :: "fs \<Rightarrow> fs \<Rightarrow> bool" where
  "keeps_files fs fs' \<longleftrightarrow> (\<forall>p. is_regular fs p \<longrightarrow> is_regular fs' p)"

lemma keeps_files_refl [simp]: "keeps_files fs fs"
  by (simp add: keeps_files_def)

lemma keeps_files_trans: "keeps_files a b \<Longrightarrow> keeps_files b c \<Longrightarrow> keeps_files a c"
  by (simp add: keeps_files_def)

text \<open>Without links a lookup is the plain path.\<close>

lemma host_walk_plain:
  "(\<And>p t. host_lookup h p \<noteq> Some (HLink t)) \<Longrightarrow> safe_path comps \<Longrightarrow> host_walk h n reached comps = Some q \<Longrightarrow> q = reached @ comps"
proof (induction comps arbitrary: reached)
  case (Cons c rest)
  have c: "c \<noteq> []" "c \<noteq> ''.''" "c \<noteq> ''..''" using Cons.prems(2) by (auto simp: safe_path_def safe_component_def)
  then have "host_walk h n (reached @ [c]) rest = Some q"
    using Cons.prems(1) [of "reached @ [c]"] Cons.prems(3)
    by (auto split: if_split_asm option.split_asm host_node.split_asm)
  with Cons.IH [of "reached @ [c]"] Cons.prems(1,2) show ?case by (simp add: safe_path_def)
qed simp

lemma out_is_dir_plain: "no_links fs \<Longrightarrow> safe_path p \<Longrightarrow> out_is_dir fs p \<Longrightarrow> is_real_dir fs p"
proof -
  assume a: "no_links fs" "safe_path p" "out_is_dir fs p"
  have nl: "host_lookup (host_of fs) q \<noteq> Some (HLink t)" for q t
    using a(1) [unfolded no_links_def is_link_def, rule_format, of q] by (auto simp: host_of_lookup split: node.split_asm)
  from a(3) obtain q where q: "host_resolve (host_of fs) (abs_path p) = Some q" "host_lookup (host_of fs) q = Some HDir"
    by (auto simp: out_is_dir_def host_is_dir_def host_stat_def split: option.split_asm)
  from host_walk_plain [OF nl a(2)] q(1) have "q = p" by (auto simp: host_resolve_def abs_path_def is_absolute_def)
  with q(2) show ?thesis by (cases "fs_lookup fs p") (auto simp: host_of_lookup is_real_dir_def split: node.splits)
qed

lemma only_files_add:
  assumes "only_files Q fs" "safe_path p" "is_real_dir fs (butlast p)" "add_node p n fs = Inr fs'"
    and "\<And>t. n \<noteq> Symlink t" "\<And>m data. n = File m data \<Longrightarrow> Q p data"
  shows "only_files Q fs' \<and> keeps_files fs fs' \<and> fs_lookup fs' = (fs_lookup fs)(p \<mapsto> n)"
proof -
  note l = lookup_add_node [OF assms(4)]
  have "\<not> lexists fs p" using add_node_Inr [OF assms(4)] by blast
  then have "keeps_files fs fs'" using l by (auto simp: keeps_files_def is_regular_def lexists_def)
  moreover have "no_links fs'" using no_links_update [OF _ l assms(5)] assms(1) by (simp add: only_files_def)
  moreover have "fs_wf fs'" using add_node_wf [OF _ assms(2-4)] assms(1) by (simp add: only_files_def)
  ultimately show ?thesis using assms(1,6) l by (auto simp: only_files_def)
qed

lemma mkdir_only_files:
  assumes "only_files Q fs" "safe_path p" "is_real_dir fs (butlast p)" "mkdir p fs = Inr fs'"
  shows "only_files Q fs' \<and> keeps_files fs fs' \<and> is_real_dir fs' p"
  using only_files_add [OF assms(1-3), of "Dir mode_755" fs'] assms(4) by (simp add: mkdir_def is_real_dir_def)

lemma mkdir_error_dir:
  "mkdir p fs = Inr fs' \<Longrightarrow> no_links fs \<Longrightarrow> is_real_dir fs (butlast p)"
  by (auto simp: mkdir_def add_node_def is_real_dir_def no_links_def is_link_def split: if_split_asm option.split_asm node.split_asm)

lemma mkdir_exist_ok_only_files:
  assumes "only_files Q fs" "safe_path p" "mkdir_exist_ok p fs = Inr fs'"
  shows "only_files Q fs' \<and> keeps_files fs fs' \<and> is_real_dir fs' p"
proof -
  have nl: "no_links fs" using assms(1) by (simp add: only_files_def)
  from assms(3) consider "mkdir p fs = Inr fs'" | "fs' = fs" "out_is_dir fs p"
    by (auto simp: mkdir_exist_ok_def split: sum.split_asm os_error.split_asm if_split_asm)
  then show ?thesis
  proof cases
    case 1
    from mkdir_only_files [OF assms(1,2) mkdir_error_dir [OF 1 nl] 1] show ?thesis .
  next
    case 2
    with assms(1) out_is_dir_plain [OF nl assms(2)] show ?thesis by simp
  qed
qed

lemma mkdir_parents_cases:
  assumes "mkdir_parents p fs = Inr fs'"
  shows "mkdir_exist_ok p fs = Inr fs' \<or> p \<noteq> [] \<and> (\<exists>fs1. mkdir_parents (butlast p) fs = Inr fs1 \<and> mkdir_exist_ok p fs1 = Inr fs')"
proof (cases "\<exists>q. mkdir p fs = Inl (Enoent q)")
  case True
  with assms show ?thesis by (auto simp: mkdir_parents.simps [of p] split: if_split_asm)
next
  case False
  with assms show ?thesis
    by (simp add: mkdir_parents.simps [of p] mkdir_exist_ok_def split: sum.split_asm os_error.split_asm)
qed

lemma mkdir_parents_only_files:
  "only_files Q fs \<Longrightarrow> safe_path p \<Longrightarrow> mkdir_parents p fs = Inr fs' \<Longrightarrow>
     only_files Q fs' \<and> keeps_files fs fs' \<and> is_real_dir fs' p"
proof (induction p arbitrary: fs' rule: rev_induct)
  case Nil
  then have "mkdir_exist_ok [] fs = Inr fs'" using mkdir_parents_cases by blast
  with mkdir_exist_ok_only_files [OF Nil(1,2)] show ?case by blast
next
  case (snoc c p)
  have s: "safe_path p" using snoc.prems(2) by simp
  from snoc.prems(3) consider "mkdir_exist_ok (p @ [c]) fs = Inr fs'"
    | fs1 where "mkdir_parents p fs = Inr fs1" "mkdir_exist_ok (p @ [c]) fs1 = Inr fs'"
    using mkdir_parents_cases [of "p @ [c]"] by auto
  then show ?case
  proof cases
    case 1
    from mkdir_exist_ok_only_files [OF snoc.prems(1,2) 1] show ?thesis .
  next
    case 2
    from snoc.IH [OF snoc.prems(1) s 2(1)] have w: "only_files Q fs1" "keeps_files fs fs1" by blast+
    from mkdir_exist_ok_only_files [OF w(1) snoc.prems(2) 2(2)] w(2) keeps_files_trans show ?thesis by blast
  qed
qed

lemma only_files_replace:
  assumes "only_files Q fs" "fs_lookup fs' = (fs_lookup fs)(p \<mapsto> File m data)" "fs_wf fs'" "Q p data"
  shows "only_files Q fs' \<and> keeps_files fs fs' \<and> is_regular fs' p"
proof -
  have "no_links fs'" using no_links_update [OF _ assms(2)] assms(1) by (simp add: only_files_def)
  then show ?thesis using assms by (auto simp: only_files_def keeps_files_def is_regular_def)
qed

lemma copy_out_only_files:
  assumes "only_files Q fs" "safe_path p" "p \<noteq> []" "Q p data" "copy_out p data fs = Inr fs'"
  shows "only_files Q fs' \<and> keeps_files fs fs' \<and> is_regular fs' p"
proof -
  from assms(5) obtain fs1 fs2 where s: "mkdir_parents (butlast p) fs = Inr fs1" "write_data p data fs1 = Inr fs2"
      "chmod p mode_644 fs2 = Inr fs'" by (auto simp: copy_out_def)
  have sb: "safe_path (butlast p)" using assms(2) by (auto simp: safe_path_def list_all_iff dest: in_set_butlastD)
  from mkdir_parents_only_files [OF assms(1) sb s(1)]
  have w: "only_files Q fs1" "keeps_files fs fs1" "is_real_dir fs1 (butlast p)" by blast+
  have nl: "\<not> is_link fs1 p" and wf: "fs_wf fs1" using w(1) by (simp_all add: only_files_def no_links_def)
  obtain m where l: "fs_lookup fs2 = (fs_lookup fs1)(p \<mapsto> File m data)" using lookup_write [OF s(2) nl] by blast
  have nl2: "\<not> is_link fs2 p" by (simp add: is_link_def l)
  from lookup_chmod [OF s(3) assms(3) nl2] l have l': "fs_lookup fs' = (fs_lookup fs1)(p \<mapsto> File mode_644 data)" by auto
  have "fs_wf fs'" using chmod_wf [OF write_wf [OF wf assms(2) w(3) nl s(2)] nl2 s(3)] .
  from only_files_replace [OF w(1) l' this assms(4)] w(2) keeps_files_trans show ?thesis by blast
qed

section \<open>Paths\<close>

lemma path_comps_str: "safe_path p \<Longrightarrow> p \<noteq> [] \<Longrightarrow> path_comps (path_str p) = p"
  using split_on_join [OF _ safe_clean, of p]
  by (auto simp: path_comps_def path_str_def safe_path_def safe_component_def list_all_iff intro!: filter_True)

lemma identifier_safe: "is_identifier s \<Longrightarrow> safe_component s"
proof -
  assume "is_identifier s"
  then have "s \<noteq> []" "lower_digit (hd s)" "list_all arch_char s" by (simp_all add: is_identifier_def)
  moreover have "\<not> lower_digit (CHR ''.'')" "\<not> arch_char (CHR ''/'')" by code_simp+
  ultimately show ?thesis by (cases s) (auto simp: safe_component_def list_all_iff)
qed

text \<open>Where the files of an index go, and that every part of such a path is a proper name.\<close>

definition index_ok :: "string \<Rightarrow> package_index \<Rightarrow> bool" where
  "index_ok codename x \<longleftrightarrow> is_identifier (x_component x) \<and> x_architecture x \<in> {''amd64'', ''all''} \<and>
     x_relative x = index_location codename (x_component x) (x_architecture x)"

lemma index_destination_ok:
  assumes "is_identifier codename" "index_ok codename x"
  shows "index_destination x = [''dists'', codename, x_component x, ''binary-'' @ x_architecture x, ''Packages''] \<and>
    safe_path (index_destination x)"
proof -
  let ?p = "[''dists'', codename, x_component x, ''binary-'' @ x_architecture x, ''Packages'']"
  have "safe_component (''binary-'' @ x_architecture x)" using assms(2) by (auto simp: index_ok_def safe_component_def)
  moreover have "safe_component ''dists''" "safe_component ''Packages''" by code_simp+
  ultimately have s: "safe_path ?p"
    using identifier_safe assms by (simp add: safe_path_def index_ok_def)
  have "x_relative x = path_str ?p @ ''.xz''" using assms(2) by (simp add: index_ok_def index_location_def path_str_def)
  then have "take (length (x_relative x) - 3) (x_relative x) = path_str ?p" by simp
  with path_comps_str [OF s] s show ?thesis by (simp add: index_destination_def parse_path_def)
qed

lemma check_indexes_ok: "check_indexes codename seen xs = Inr seen' \<Longrightarrow> list_all (index_ok codename) xs"
  by (induction xs arbitrary: seen) (auto simp: index_ok_def split: if_split_asm)

lemma component_indexes_ok: "component_indexes args = Inr indexes \<Longrightarrow> list_all (index_ok (a_codename args)) indexes"
  by (auto simp: component_indexes_def Let_def simp del: check_indexes.simps append_Cons
      dest!: check_indexes_ok split: if_split_asm)

lemma safe_package_path_ok:
  assumes "safe_package_path filename = Inr relative"
  shows "pp_comps relative = path_comps filename \<and> pure_str relative = filename \<and> safe_path (path_comps filename) \<and>
    path_comps filename \<noteq> [] \<and> path_comps filename \<noteq> [''verified-release'']"
proof -
  from assms have r: "relative = parse_path filename" "pp_root relative = []" "''..'' \<notin> set (path_comps filename)"
      "pure_str relative = filename" "starts_with ''pool/'' filename"
    by (auto simp: safe_package_path_def Let_def is_absolute_def path_parts_def parse_path_def split: if_split_asm)
  then have c: "pp_comps relative = path_comps filename" by (simp add: parse_path_def)
  have clean: "\<forall>x \<in> set (path_comps filename). CHR ''/'' \<notin> set x" using split_on_parts by (auto simp: path_comps_def)
  have "safe_path (path_comps filename)"
    using r(3) bad_component_iff [OF clean] by (auto simp: path_comps_def list_ex_iff)
  moreover have "filename = (if path_comps filename = [] then ''.'' else path_str (path_comps filename))"
    using r(2,4) c by (auto simp: pure_str_def path_parts_def is_absolute_def path_str_def split: if_split_asm)
  then have "path_comps filename \<noteq> []" "path_comps filename \<noteq> [''verified-release'']"
    using r(5) by (auto simp: starts_with_def path_str_def)
  ultimately show ?thesis using c r(4) by simp
qed

section \<open>The lock\<close>

definition locked_ok :: "lock_table \<Rightarrow> bool" where
  "locked_ok expected \<longleftrightarrow> distinct (map (l_local \<circ> snd) expected) \<and>
     (\<forall>kr \<in> set expected. \<exists>relative. safe_package_path (l_filename (snd kr)) = Inr relative)"

interpretation add_locked_step: tree_step locked_ok add_locked "\<lambda>_. True"
proof
  fix package expected expected' assume a: "locked_ok expected" "add_locked package expected = Inr expected'"
  from a(2) obtain name version architecture filename sz digest local_name relative n where
      r: "safe_package_path filename = Inr relative" "(Some name, Some version, architecture) \<notin> fst ` set expected"
        "local_name \<notin> (l_local \<circ> snd) ` set expected"
      and e: "expected' = dict_set (Some name, Some version, architecture)
         \<lparr>l_filename = pure_str relative, l_bytes = n, l_digest = digest, l_local = local_name\<rparr> expected"
    by (auto simp: add_locked_def Let_def split: list.split_asm if_split_asm)
  from safe_package_path_ok [OF r(1)] have "pure_str relative = filename" by blast
  with r(1) a(1) r(3) show "locked_ok expected'"
    unfolding e dict_set_new [OF r(2)] by (auto simp: locked_ok_def)
qed

lemma locked_records_ok: "locked_records records = Inr expected \<Longrightarrow> locked_ok expected"
  unfolding locked_records_def using add_locked_step.run_inv [of records "[]" expected]
  by (simp add: list_all_iff locked_ok_def)

section \<open>The indexes\<close>

lemma release_hash_listed:
  assumes "release_hash payload relative n digest = Inr ()"
  shows "\<exists>entries d. sha256_entries payload = Inr entries \<and> (d, n, release_path relative) \<in> set entries \<and> str_lower d = str_lower digest"
proof -
  from assms obtain entries where e: "sha256_entries payload = Inr entries" by (auto simp: release_hash_def)
  define found where "found = filter (\<lambda>(digest, sz, listed). listed = release_path relative) entries"
  from assms e obtain t where t: "found = [t]"
    unfolding found_def [symmetric] release_hash_def by (cases found; cases "tl found") (auto simp: found_def [symmetric])
  obtain d m l where d: "t = (d, m, l)" by (cases t)
  with assms e t have "m = n" "str_lower d = str_lower digest"
    by (auto simp: release_hash_def found_def [symmetric] split: if_split_asm)
  moreover from t have "t \<in> set found" by simp
  then have "(d, m, release_path relative) \<in> set entries" by (auto simp: d found_def)
  ultimately show ?thesis using e by blast
qed

lemma rmap_all: "rmap f xs = Inr ys \<Longrightarrow> x \<in> set xs \<Longrightarrow> \<exists>y. f x = Inr y"
  by (induction xs arbitrary: ys) auto

lemma indexes_authentic:
  assumes "verify_input_digests sha256 args indexes = Inr u" "verify_authenticated_release payload release indexes = Inr v" "x \<in> set indexes"
  shows "authentic_index sha256 payload x"
proof -
  from assms(1) obtain ys where "rmap (verify_index_digest sha256) indexes = Inr ys" by (auto simp: verify_input_digests_def)
  from rmap_all [OF this assms(3)] have "sha256 (x_data x) = x_digest x"
    by (auto simp: verify_index_digest_def verify_digest_def split: if_split_asm)
  moreover from assms(2) obtain zs where "rmap (\<lambda>x. release_hash payload (x_relative x) (len (x_data x)) (x_digest x)) indexes = Inr zs"
    by (auto simp: verify_authenticated_release_def split: if_split_asm)
  from rmap_all [OF this assms(3)] have "release_hash payload (x_relative x) (len (x_data x)) (x_digest x) = Inr ()" by auto
  ultimately show ?thesis using release_hash_listed unfolding authentic_index_def by blast
qed

text \<open>Every record that the metadata yields is a paragraph of one of the indexes.\<close>

definition listed_in :: "(bytes \<times> string) list \<Rightarrow> package_id \<times> index_data \<Rightarrow> bool" where
  "listed_in staged kd \<longleftrightarrow>
     (\<exists>x \<in> set staged. \<exists>ps paragraph. index_paragraphs (fst x) = Inr ps \<and> paragraph \<in> set ps \<and>
        paragraph_data (snd x) paragraph = Inr kd)"

lemma read_package_metadata_listed:
  assumes "read_package_metadata staged keys = Inr actual"
  shows "\<forall>kd \<in> set actual. listed_in staged kd"
proof (rule rfold_inv [where P = "\<lambda>actual. \<forall>kd \<in> set actual. listed_in staged kd", OF assms [unfolded read_package_metadata_def]])
  fix x a b assume x: "x \<in> set staged" and a: "\<forall>kd \<in> set a. listed_in staged kd" and s: "add_index keys x a = Inr b"
  from s obtain ps where ps: "index_paragraphs (fst x) = Inr ps" "rfold (add_paragraph keys (snd x)) ps a = Inr b"
    by (auto simp: add_index_def)
  show "\<forall>kd \<in> set b. listed_in staged kd"
  proof (rule rfold_inv [where P = "\<lambda>c. \<forall>kd \<in> set c. listed_in staged kd", OF ps(2) a])
    fix para c d
    assume p: "para \<in> set ps" and c: "\<forall>kd \<in> set c. listed_in staged kd" and t: "add_paragraph keys (snd x) para c = Inr d"
    from t obtain key data where k: "paragraph_data (snd x) para = Inr (key, data)" "d = c \<or> d = dict_set key data c"
      by (auto simp: add_paragraph_def split: if_split_asm)
    have "listed_in staged (key, data)" using x ps(1) p k(1) unfolding listed_in_def by blast
    with c k(2) set_dict_set [of key data c] show "\<forall>kd \<in> set d. listed_in staged kd" by blast
  qed
qed simp

lemma verify_package_metadata_listed:
  assumes "verify_package_metadata staged expected = Inr u" "kr \<in> set expected"
  shows "listed_in staged (fst kr, l_filename (snd kr), l_bytes (snd kr), l_digest (snd kr))"
proof -
  from assms(1) obtain actual where a: "read_package_metadata staged (fst ` set expected) = Inr actual"
    and f: "find (\<lambda>(key, r). map_of actual key \<noteq> Some (l_filename r, l_bytes r, l_digest r))
        (sort_key (\<lambda>((name, version, architecture), r). (the name, the version, architecture)) expected) = None"
    by (auto simp: verify_package_metadata_def split: if_split_asm option.split_asm)
  from f assms(2) have "map_of actual (fst kr) = Some (l_filename (snd kr), l_bytes (snd kr), l_digest (snd kr))"
    by (cases kr; cases "fst kr") (auto simp: find_None_iff)
  from map_of_SomeD [OF this] read_package_metadata_listed [OF a] show ?thesis by blast
qed

lemma stage_indexes_sound:
  assumes "is_identifier codename"
  shows "stage_indexes unxz xs fs = Inr (staged, fs') \<Longrightarrow> only_files Q fs \<Longrightarrow> list_all (index_ok codename) xs \<Longrightarrow>
    (\<And>x data. x \<in> set xs \<Longrightarrow> unxz (x_data x) = Some data \<Longrightarrow> Q (index_destination x) data) \<Longrightarrow>
    only_files Q fs' \<and> (\<forall>da \<in> set staged. \<exists>x \<in> set xs. unxz (x_data x) = Some (fst da) \<and> snd da = x_architecture x)"
proof (induction xs arbitrary: fs staged)
  case (Cons x xs)
  from Cons.prems(1) obtain data fs1 rest where s: "unxz (x_data x) = Some data"
      "copy_out (index_destination x) data fs = Inr fs1" "stage_indexes unxz xs fs1 = Inr (rest, fs')"
      "staged = (data, x_architecture x) # rest"
    by (auto simp: decompress_out_def split: option.split_asm)
  have ok: "index_ok codename x" using Cons.prems(3) by simp
  have d: "safe_path (index_destination x)" "index_destination x \<noteq> []"
    using conjunct2 [OF index_destination_ok [OF assms ok]] conjunct1 [OF index_destination_ok [OF assms ok]] by simp_all
  from copy_out_only_files [OF Cons.prems(2) d Cons.prems(4) s(2)] s(1) have "only_files Q fs1" by simp
  from Cons.IH [OF s(3) this] Cons.prems(3,4) s(1,4) show ?case by auto
qed simp

section \<open>The packages\<close>

lemma stage_package_sound:
  assumes "only_files Q fs" "locked_ok expected" "stage_package sha256 expected package fs = Inr fs'"
    and "\<And>p data. package_file sha256 expected p data \<Longrightarrow> Q p data"
  shows "only_files Q fs' \<and> keeps_files fs fs' \<and>
    (\<exists>kr \<in> set expected. l_local (snd kr) = snd package \<and> is_regular fs' (path_comps (l_filename (snd kr))))"
proof -
  from assms(3) obtain key r relative where f: "find (\<lambda>(key, r). l_local r = snd package) expected = Some (key, r)"
    and v: "sha256 (fst package) = l_digest r" "len (fst package) = l_bytes r"
    and c: "safe_package_path (l_filename r) = Inr relative" "copy_out (pp_comps relative) (fst package) fs = Inr fs'"
    by (auto simp: stage_package_def verify_package_def verify_digest_def split: option.split_asm if_split_asm)
  from f have m: "(key, r) \<in> set expected" "l_local r = snd package"
    by (auto simp: find_Some_iff) (metis nth_mem)
  from safe_package_path_ok [OF c(1)] have p: "pp_comps relative = path_comps (l_filename r)"
      "safe_path (path_comps (l_filename r))" "path_comps (l_filename r) \<noteq> []" by blast+
  have "package_file sha256 expected (path_comps (l_filename r)) (fst package)"
    using m(1) v unfolding package_file_def by (intro bexI [of _ "(key, r)"]) simp_all
  from copy_out_only_files [OF assms(1) p(2,3) assms(4) [OF this] c(2) [unfolded p(1)]] m show ?thesis by force
qed

lemma stage_package_run:
  "rfold (stage_package sha256 expected) packages fs = Inr fs' \<Longrightarrow> only_files Q fs \<Longrightarrow> locked_ok expected \<Longrightarrow>
   (\<And>p data. package_file sha256 expected p data \<Longrightarrow> Q p data) \<Longrightarrow>
   only_files Q fs' \<and> keeps_files fs fs' \<and>
     (\<forall>package \<in> set packages. \<exists>kr \<in> set expected. l_local (snd kr) = snd package \<and>
        is_regular fs' (path_comps (l_filename (snd kr))))"
proof (induction packages arbitrary: fs)
  case (Cons package packages)
  then obtain fs1 where s: "stage_package sha256 expected package fs = Inr fs1"
      "rfold (stage_package sha256 expected) packages fs1 = Inr fs'" by auto
  from stage_package_sound [OF Cons.prems(2,3) s(1) Cons.prems(4)] have w: "only_files Q fs1" "keeps_files fs fs1"
      "\<exists>kr \<in> set expected. l_local (snd kr) = snd package \<and> is_regular fs1 (path_comps (l_filename (snd kr)))" by blast+
  from Cons.IH [OF s(2) w(1) Cons.prems(3,4)] have r: "only_files Q fs'" "keeps_files fs1 fs'"
      "\<forall>package \<in> set packages. \<exists>kr \<in> set expected. l_local (snd kr) = snd package \<and>
        is_regular fs' (path_comps (l_filename (snd kr)))" by blast+
  from w(3) r(2) have "\<exists>kr \<in> set expected. l_local (snd kr) = snd package \<and> is_regular fs' (path_comps (l_filename (snd kr)))"
    by (auto simp: keeps_files_def)
  with r keeps_files_trans [OF w(2) r(2)] show ?case by simp
qed simp

lemma stage_packages_sound:
  assumes "stage_packages sha256 args expected fs = Inr fs'" "only_files Q fs" "locked_ok expected"
    and "\<And>p data. package_file sha256 expected p data \<Longrightarrow> Q p data"
  shows "only_files Q fs' \<and> (\<forall>kr \<in> set expected. is_regular fs' (path_comps (l_filename (snd kr))))"
proof -
  from assms(1) have n: "(l_local \<circ> snd) ` set expected = set (a_package_names args)"
    and l: "length (a_packages args) = length (a_package_names args)"
    and r: "rfold (stage_package sha256 expected) (zip (a_packages args) (a_package_names args)) fs = Inr fs'"
    by (simp_all add: stage_packages_def split: if_split_asm)
  note run = stage_package_run [OF r assms(2-4)]
  have "is_regular fs' (path_comps (l_filename (snd kr)))" if kr: "kr \<in> set expected" for kr
  proof -
    have "l_local (snd kr) \<in> set (a_package_names args)" using kr by (simp add: n [symmetric])
    then obtain i where i: "i < length (a_package_names args)" "a_package_names args ! i = l_local (snd kr)"
      by (auto simp: in_set_conv_nth)
    then have "(a_packages args ! i, l_local (snd kr)) \<in> set (zip (a_packages args) (a_package_names args))"
      using l by (auto simp: in_set_zip)
    with run obtain kr' where k: "kr' \<in> set expected" "l_local (snd kr') = l_local (snd kr)"
        "is_regular fs' (path_comps (l_filename (snd kr')))" by fastforce
    have "kr' = kr"
      using assms(3) k(1,2) kr by (auto simp: locked_ok_def distinct_map dest!: inj_onD [where x = kr' and y = kr])
    with k(3) show ?thesis by simp
  qed
  with run show ?thesis by blast
qed

section \<open>The whole repository\<close>

lemma metadata_lookup:
  "fs_lookup (set_deterministic_metadata fs) p =
     map_option (\<lambda>n. case n of Dir _ \<Rightarrow> Dir mode_755 | File _ data \<Rightarrow> File mode_644 data | Symlink t \<Rightarrow> Symlink t) (fs_lookup fs p)"
proof -
  have "map_of (map (\<lambda>(p, n). (p, f n)) fs) p = map_option f (map_of fs p)" for f :: "node \<Rightarrow> node"
    by (induction fs) auto
  then show ?thesis by (simp add: fs_lookup_def set_deterministic_metadata_def)
qed

lemma metadata_file:
  "fs_lookup (set_deterministic_metadata fs) p = Some (File m data) \<longleftrightarrow> m = mode_644 \<and> (\<exists>m'. fs_lookup fs p = Some (File m' data))"
  unfolding metadata_lookup by (cases "fs_lookup fs p") (auto split: node.split)

lemma metadata_regular: "is_regular (set_deterministic_metadata fs) p \<longleftrightarrow> is_regular fs p"
  "is_link (set_deterministic_metadata fs) p \<longleftrightarrow> is_link fs p"
  unfolding is_regular_def is_link_def metadata_lookup by (cases "fs_lookup fs p"; auto split: node.split)+

lemma metadata_wf: "fs_wf fs \<Longrightarrow> fs_wf (set_deterministic_metadata fs)"
proof -
  assume a: "fs_wf fs"
  have k: "map fst (set_deterministic_metadata fs) = map fst fs"
    by (simp add: set_deterministic_metadata_def comp_def case_prod_unfold)
  then have "fst ` set (set_deterministic_metadata fs) = fst ` set fs" by (metis list.set_map)
  moreover have "is_real_dir (set_deterministic_metadata fs) p" if "is_real_dir fs p" for p
    using that by (auto simp: is_real_dir_def metadata_lookup split: option.split_asm node.split_asm)
  ultimately show ?thesis using a k by (auto simp: fs_wf_def)
qed

lemma stage_snapshot_steps:
  assumes "stage_snapshot sha256 unxz sqv_cleartext sqv_detached args = Inr fs"
  obtains indexes u payload v staged fs1 expected w fs2 fs3 where "is_identifier (a_codename args)" "component_indexes args = Inr indexes"
    and "verify_input_digests sha256 args indexes = Inr u" "verify_signature sqv_cleartext sqv_detached args = Inr payload"
    and "verify_authenticated_release payload (a_release args) indexes = Inr v"
    and "stage_release_files unxz args indexes [([''verified-release''], File mode_644 payload)] = Inr (staged, fs1)"
    and "locked_records (a_package_records args) = Inr expected" "verify_package_metadata staged expected = Inr w"
    and "stage_packages sha256 args expected fs1 = Inr fs2" "unlink [''verified-release''] fs2 = Inr fs3"
    and "fs = set_deterministic_metadata fs3"
  using assms unfolding stage_snapshot_def by (auto split: if_split_asm)

definition repository_file ::
    "(bytes \<Rightarrow> string) \<Rightarrow> (bytes \<Rightarrow> bytes option) \<Rightarrow> snapshot_args \<Rightarrow> package_index list \<Rightarrow> lock_table \<Rightarrow> path \<Rightarrow> bytes \<Rightarrow> bool" where
  "repository_file sha256 unxz args indexes expected p data \<longleftrightarrow>
     release_file args p data \<or> index_file unxz indexes p data \<or> package_file sha256 expected p data"

lemma stage_release_files_sound:
  assumes "stage_release_files unxz args indexes fs = Inr (staged, fs')" "only_files Q fs" "is_identifier (a_codename args)"
    and "list_all (index_ok (a_codename args)) indexes"
    and "\<And>p data. release_file args p data \<or> index_file unxz indexes p data \<Longrightarrow> Q p data"
  shows "only_files Q fs' \<and> (\<forall>da \<in> set staged. \<exists>x \<in> set indexes. unxz (x_data x) = Some (fst da) \<and> snd da = x_architecture x)"
proof -
  let ?d = "[''dists'', a_codename args]"
  from assms(1) obtain fs1 fs2 fs3 where s: "copy_out (?d @ [''InRelease'']) (a_inrelease args) fs = Inr fs1"
      "copy_out (?d @ [''Release'']) (a_release args) fs1 = Inr fs2"
      "copy_out (?d @ [''Release.gpg'']) (a_release_gpg args) fs2 = Inr fs3" "stage_indexes unxz indexes fs3 = Inr (staged, fs')"
    by (auto simp: stage_release_files_def Let_def)
  have "safe_component ''dists''" "safe_component ''InRelease''" "safe_component ''Release''" "safe_component ''Release.gpg''" by code_simp+
  with identifier_safe [OF assms(3)] have p: "safe_path (?d @ [''InRelease''])" "safe_path (?d @ [''Release''])" "safe_path (?d @ [''Release.gpg''])"
    by (simp_all add: safe_path_def)
  have q: "Q (?d @ [''InRelease'']) (a_inrelease args)" "Q (?d @ [''Release'']) (a_release args)" "Q (?d @ [''Release.gpg'']) (a_release_gpg args)"
    using assms(5) by (simp_all add: release_file_def)
  note w1 = copy_out_only_files [OF assms(2) p(1) _ q(1) s(1)]
  then have "only_files Q fs1" by simp
  from copy_out_only_files [OF this p(2) _ q(2) s(2)] have "only_files Q fs2" by simp
  from copy_out_only_files [OF this p(3) _ q(3) s(3)] have "only_files Q fs3" by simp
  from stage_indexes_sound [OF assms(3) s(4) this assms(4)] assms(5) show ?thesis by (auto simp: index_file_def)
qed

text \<open>
  C34: A staged repository is authentic and complete. When staging succeeds, \<^verbatim>\<open>sqv\<close> accepted both signatures
  and the Release file is the signed payload of InRelease, up to a final newline; every index has the
  digest and length that the signed payload lists for it; every locked package is described with its
  path, size and digest by a paragraph of one of these indexes; and the output is a tree without links
  whose files, all with mode 0644, are exactly of three kinds: a release file, a decompressed index, or
  a package with the size and the digest of its locked record. Every locked package is there.
\<close>

theorem snapshot_authentic:
  assumes "stage_snapshot sha256 unxz sqv_cleartext sqv_detached args = Inr fs"
  shows "\<exists>payload indexes expected.
    sqv_cleartext (a_inrelease args) = Some payload \<and> sqv_detached (a_release args) (a_release_gpg args) \<and>
    a_release args \<in> {payload, payload @ [10]} \<and>
    component_indexes args = Inr indexes \<and> locked_records (a_package_records args) = Inr expected \<and>
    (\<forall>x \<in> set indexes. authentic_index sha256 payload x) \<and>
    (\<forall>kr \<in> set expected. \<exists>x \<in> set indexes. index_lists unxz x kr) \<and>
    fs_wf fs \<and> no_links fs \<and>
    (\<forall>p m data. fs_lookup fs p = Some (File m data) \<longrightarrow> m = mode_644 \<and> repository_file sha256 unxz args indexes expected p data) \<and>
    (\<forall>kr \<in> set expected. is_regular fs (path_comps (l_filename (snd kr))))"
  using assms
proof (rule stage_snapshot_steps, goal_cases)
  case (1 indexes u payload v staged fs1 expected w fs2 fs3)
  define Q where "Q p data \<longleftrightarrow> repository_file sha256 unxz args indexes expected p data \<or> p = [''verified-release'']" for p data
  have q0: "only_files Q [([''verified-release''], File mode_644 payload)]"
  proof -
    have "safe_component ''verified-release''" by code_simp
    then show ?thesis by (auto simp: only_files_def fs_wf_def safe_path_def no_links_def is_link_def fs_lookup_def Q_def split: if_split_asm)
  qed
  note ix = component_indexes_ok [OF 1(2)] and lk = locked_records_ok [OF 1(7)]
  have r1: "only_files Q fs1"
    and st: "\<forall>da \<in> set staged. \<exists>x \<in> set indexes. unxz (x_data x) = Some (fst da) \<and> snd da = x_architecture x"
    using stage_release_files_sound [OF 1(6) q0 1(1) ix] by (auto simp: Q_def repository_file_def)
  have r2: "only_files Q fs2" and reg: "\<forall>kr \<in> set expected. is_regular fs2 (path_comps (l_filename (snd kr)))"
    using stage_packages_sound [OF 1(9) r1 lk] by (auto simp: Q_def repository_file_def)
  have l3: "fs_lookup fs3 = (fs_lookup fs2)([''verified-release''] := None)"
    using 1(10) by (auto simp: unlink_def lookup_remove split: option.split_asm node.split_asm)
  have wf3: "fs_wf fs3" using unlink_step.step_inv [OF _ _ 1(10)] r2 by (simp add: only_files_def)
  have wf: "fs_wf fs" using metadata_wf [OF wf3] 1(11) by simp
  have nl: "no_links fs" using r2 unfolding 1(11) no_links_def metadata_regular by (simp add: only_files_def no_links_def is_link_def l3)
  have files: "m = mode_644 \<and> repository_file sha256 unxz args indexes expected p data" if "fs_lookup fs p = Some (File m data)" for p m data
    using that r2 unfolding 1(11) metadata_file by (auto simp: only_files_def l3 Q_def split: if_split_asm)
  have pk: "is_regular fs (path_comps (l_filename (snd kr)))" if "kr \<in> set expected" for kr
  proof -
    from lk that obtain relative where "safe_package_path (l_filename (snd kr)) = Inr relative" unfolding locked_ok_def by blast
    with safe_package_path_ok have "path_comps (l_filename (snd kr)) \<noteq> [''verified-release'']" by blast
    with reg that show ?thesis unfolding 1(11) metadata_regular by (simp add: is_regular_def l3)
  qed
  have il: "\<exists>x \<in> set indexes. index_lists unxz x kr" if "kr \<in> set expected" for kr
  proof -
    from verify_package_metadata_listed [OF 1(8) that] obtain da ps para where "da \<in> set staged" "index_paragraphs (fst da) = Inr ps"
        "para \<in> set ps" "paragraph_data (snd da) para = Inr (fst kr, l_filename (snd kr), l_bytes (snd kr), l_digest (snd kr))"
      unfolding listed_in_def by blast
    with st show ?thesis unfolding index_lists_def by metis
  qed
  from 1(4) have sg: "sqv_cleartext (a_inrelease args) = Some payload" "sqv_detached (a_release args) (a_release_gpg args)"
    by (auto simp: verify_signature_def split: option.split_asm if_split_asm)
  have "release_matches payload (a_release args)" using 1(5) by (auto simp: verify_authenticated_release_def split: if_split_asm)
  then have "a_release args \<in> {payload, payload @ [10]}" by (auto simp: release_matches_def)
  with sg 1(2,7) indexes_authentic [OF 1(3,5)] il wf nl files pk show ?case by blast
qed

end
