(* ===== verification/Snapshot_Fixture.thy ===== *)
theory Snapshot_Fixture
  imports Snapshot_Safety
begin

text \<open>A repository with one package, under a constant digest.\<close>

definition zero_digest :: string where
  "zero_digest = replicate 64 (CHR ''0'')"

definition sample_index :: string where
  "sample_index = ''Package: a\<newline>Version: 1\<newline>Architecture: amd64\<newline>Filename: pool/a.deb\<newline>Size: 2\<newline>SHA256: '' @ zero_digest @ ''\<newline>''"

definition sample_release :: string where
  "sample_release = ''Suite: s\<newline>SHA256:\<newline> '' @ zero_digest @ '' 144 main/binary-amd64/Packages.xz\<newline> '' @ zero_digest
     @ '' 0 main/binary-all/Packages.xz\<newline>''"

definition sample_args :: snapshot_args where
  "sample_args =
     \<lparr>a_inrelease = utf8_encode sample_release, a_release = utf8_encode sample_release, a_release_gpg = [1],
      a_packages_xz = utf8_encode sample_index, a_packages_all_xz = [],
      a_inrelease_sha256 = zero_digest, a_release_sha256 = zero_digest, a_release_gpg_sha256 = zero_digest,
      a_packages_xz_sha256 = zero_digest, a_packages_all_xz_sha256 = zero_digest,
      a_packages_path = ''dists/t/main/binary-amd64/Packages.xz'', a_packages_all_path = ''dists/t/main/binary-all/Packages.xz'',
      a_codename = ''t'', a_component_indexes = [], a_component_index_files = [],
      a_package_records = [''a|1|amd64|pool/a.deb|2|'' @ zero_digest @ ''|a.deb''], a_packages = [[7, 8]], a_package_names = [''a.deb'']\<rparr>"

definition sample_staging :: "snapshot_error + fs" where
  "sample_staging = stage_snapshot (\<lambda>_. zero_digest) Some Some (\<lambda>_ _. True) sample_args"

definition sample_repository :: fs where
  "sample_repository = projr sample_staging"

lemma sample_staged: "stage_snapshot (\<lambda>_. zero_digest) Some Some (\<lambda>_ _. True) sample_args = Inr sample_repository"
proof -
  have "\<not> isl sample_staging" by code_simp
  from sum.collapse(2) [OF this] show ?thesis unfolding sample_repository_def sample_staging_def by (rule sym)
qed

theorem snapshot_authentic_witness:
  "fs_wf sample_repository \<and> no_links sample_repository \<and>
   (\<exists>indexes. component_indexes sample_args = Inr indexes \<and>
      authentic_index (\<lambda>_. zero_digest) (a_inrelease sample_args) ` set indexes \<subseteq> {True})"
  using snapshot_authentic [OF sample_staged] by auto

end
