(* ===== verification/Image_Version.thy ===== *)
theory Image_Version
  imports Debian_Lock
begin

text \<open>
  Image versions, \<^verbatim>\<open>mkosi/private/image_version.py\<close>: the characters of a version, the length of the
  partition labels of an A/B image, and the build metadata. \<open>json_loads\<close> is \<^verbatim>\<open>json.loads\<close>.
\<close>

definition VERSION_CHARACTERS :: string where
  "VERSION_CHARACTERS = ''abcdefghijklmnopqrstuvwxyzABCDEFGHIJKLMNOPQRSTUVWXYZ0123456789.''"

definition GPT_PARTITION_NAME_MAX :: int where "GPT_PARTITION_NAME_MAX = 36"

datatype version_error =
    Invalid_image_version string
  | Label_too_long string
  | Version_not_utf8
  | Metadata_not_json
  | Metadata_key
  | Metadata_type

definition validate_image_version :: "string \<Rightarrow> version_error + string" where
  "validate_image_version image_version =
     (if image_version = [] \<or> \<not> set image_version \<subseteq> set VERSION_CHARACTERS then Inl (Invalid_image_version image_version)
      else Inr image_version)"

text \<open>The characters of a \<^typ>\<open>string\<close> are single UTF-16 code units.\<close>

definition validate_slot_labels :: "string \<Rightarrow> string \<Rightarrow> version_error + unit" where
  "validate_slot_labels image_id image_version =
     (let label = image_id @ ''_'' @ image_version @ ''_verity''
      in if len label > GPT_PARTITION_NAME_MAX then Inl (Label_too_long label) else Inr ())"

definition removesuffix :: "string \<Rightarrow> string \<Rightarrow> string" where
  "removesuffix suffix s = (if suffix \<noteq> [] \<and> ends_with suffix s then take (length s - length suffix) s else s)"

definition read_image_version :: "bytes \<Rightarrow> string option \<Rightarrow> version_error + string" where
  "read_image_version content slot_label_image_id =
     (case utf8_decode content of
        None \<Rightarrow> Inl Version_not_utf8
      | Some s \<Rightarrow>
          rbind (validate_image_version (removesuffix ''\<newline>'' s)) (\<lambda>image_version.
          rbind (case slot_label_image_id of None \<Rightarrow> Inr () | Some image_id \<Rightarrow> validate_slot_labels image_id image_version) (\<lambda>_.
            Inr image_version)))"

definition build_metadata ::
    "(string \<Rightarrow> string json option) \<Rightarrow> string \<Rightarrow> bytes \<Rightarrow> version_error + string" where
  "build_metadata json_loads metadata_json image_version_file =
     (case json_loads metadata_json of
        None \<Rightarrow> Inl Metadata_not_json
      | Some (JObj metadata) \<Rightarrow>
          rbind (read_image_version image_version_file None) (\<lambda>version.
            case map_of metadata ''image'' of
              None \<Rightarrow> Inl Metadata_key
            | Some (JObj image_fields) \<Rightarrow>
                Inr (json_dumps (JObj (dict_set ''image'' (JObj (dict_set ''version'' (JStr version) image_fields)) metadata)) @ ''\<newline>'')
            | Some _ \<Rightarrow> Inl Metadata_type)
      | Some _ \<Rightarrow> Inl Metadata_type)"

section \<open>What a version is\<close>

lemma read_image_version_sound:
  assumes "read_image_version content slot = Inr v"
  shows "v \<noteq> [] \<and> set v \<subseteq> set VERSION_CHARACTERS \<and> (\<forall>image_id. slot = Some image_id \<longrightarrow> length image_id + length v \<le> 28)"
  using assms
  by (auto simp: read_image_version_def validate_image_version_def validate_slot_labels_def GPT_PARTITION_NAME_MAX_def Let_def
      split: option.split_asm if_split_asm)

end
