(* ===== verification/Sysupdate.thy ===== *)
theory Sysupdate
  imports Image_Version Gpt_Metadata Fs_Tree
begin

text \<open>
  Update payloads and transfer definitions, \<^verbatim>\<open>mkosi/private/sysupdate.py\<close>. Input files are their contents.
  Parameters: \<open>sha256\<close> is a SHA-256 digest in hexadecimal, \<open>json_loads\<close> reads a JSON file (\<^const>\<open>None\<close> is an
  error), and \<open>xz\<close> is the compressor: the output for each chunk and for the final flush. The image id is
  a file name component, as \<^verbatim>\<open>image_identity.bzl\<close> demands.
\<close>

section \<open>Names and transfer definitions\<close>

definition root_name :: "string \<Rightarrow> string \<Rightarrow> string \<Rightarrow> string" where
  "root_name image_id version partition_uuid = image_id @ ''_'' @ version @ ''.root.'' @ partition_uuid @ ''.raw''"

definition verity_name :: "string \<Rightarrow> string \<Rightarrow> string \<Rightarrow> string" where
  "verity_name image_id version partition_uuid = image_id @ ''_'' @ version @ ''.root-verity.'' @ partition_uuid @ ''.raw''"

definition uki_name :: "string \<Rightarrow> string \<Rightarrow> string" where
  "uki_name image_id version = image_id @ ''_'' @ version @ ''.efi''"

definition join_lines :: "string list \<Rightarrow> string" where
  "join_lines ls = join_with ''\<newline>'' ls"

definition TRANSFER :: "string \<Rightarrow> string \<Rightarrow> string \<Rightarrow> string \<Rightarrow> string" where
  "TRANSFER verify source pattern target =
     join_lines [''[Transfer]'', ''ProtectVersion=%A'', ''Verify='' @ verify, [], ''[Source]'', source,
       ''MatchPattern='' @ pattern, [], ''[Target]'', target, []]"

definition DIRECTORY_SOURCE :: string where
  "DIRECTORY_SOURCE = join_lines [''Type=regular-file'', ''Path=/'', ''PathRelativeTo=explicit'']"

definition URL_SOURCE :: "string \<Rightarrow> string" where
  "URL_SOURCE url = join_lines [''Type=url-file'', ''Path='' @ url]"

definition PARTITION_TARGET :: "string \<Rightarrow> string \<Rightarrow> int \<Rightarrow> string" where
  "PARTITION_TARGET lbl partition_type instances =
     join_lines [''Type=partition'', ''Path=auto'', ''MatchPattern='' @ lbl, ''MatchPartitionType='' @ partition_type,
       ''ReadOnly=yes'', ''InstancesMax='' @ int_str instances]"

definition UKI_TARGET :: "string \<Rightarrow> int \<Rightarrow> string" where
  "UKI_TARGET patterns instances =
     join_lines [''Type=regular-file'', ''Path=/EFI/Linux'', ''PathRelativeTo=boot'', ''MatchPattern='' @ patterns,
       ''Mode=0444'', ''InstancesMax='' @ int_str instances]"

definition uki_target :: "string \<Rightarrow> int \<Rightarrow> int \<Rightarrow> string" where
  "uki_target image_id boot_attempts instances =
     (let counted = [image_id @ ''_@v+@l-@d.efi'', image_id @ ''_@v+@l.efi''];
          uncounted = [image_id @ ''_@v.efi''];
          target = UKI_TARGET (join_with '' '' (if boot_attempts \<noteq> 0 then counted @ uncounted else uncounted @ counted)) instances
      in if boot_attempts \<noteq> 0
         then target @ ''\<newline>TriesLeft='' @ int_str boot_attempts @ ''\<newline>TriesDone=0'' else target)"

definition COMPRESSION_SUFFIXES :: "(string \<times> string) list" where
  "COMPRESSION_SUFFIXES = [(''none'', []), (''xz'', ''.xz'')]"

definition compressed_or_plain :: "string \<Rightarrow> string" where
  "compressed_or_plain pattern =
     join_with '' '' (map (\<lambda>suffix. pattern @ suffix) (rev (sort (map snd COMPRESSION_SUFFIXES))))"

definition transfers :: "string \<Rightarrow> int \<Rightarrow> int \<Rightarrow> string option \<Rightarrow> (string \<times> string) list" where
  "transfers image_id boot_attempts instances url =
     (let remote = (case url of Some (c # cs) \<Rightarrow> True | _ \<Rightarrow> False);
          transfer = TRANSFER (if remote then ''yes'' else ''no'') (if remote then URL_SOURCE (the url) else DIRECTORY_SOURCE);
          partition_transfer = (\<lambda>name label_suffix partition_type.
            transfer (compressed_or_plain name) (PARTITION_TARGET (image_id @ ''_@v'' @ label_suffix) partition_type instances))
      in [(''10-root.transfer'', partition_transfer (root_name image_id ''@v'' ''@u'') [] ''root-x86-64''),
          (''20-root-verity.transfer'', partition_transfer (verity_name image_id ''@v'' ''@u'') ''_verity'' ''root-x86-64-verity''),
          (''90-uki.transfer'', transfer (uki_name image_id ''@v'') (uki_target image_id boot_attempts instances))])"

section \<open>Checks of a payload\<close>

datatype payload_error =
    Root_hash_length
  | Not_hex
  | Not_ascii
  | No_single_partition string
  | Uuid_mismatch string
  | Shorter_than_geometry
  | Signing_arguments
  | Unsigned_mismatch
  | Payload_key
  | Payload_type
  | Payload_json
  | Payload_version version_error
  | Payload_os os_error

definition lift_payload :: "os_error + 'a \<Rightarrow> payload_error + 'a" where
  "lift_payload r = (case r of Inl e \<Rightarrow> Inl (Payload_os e) | Inr x \<Rightarrow> Inr x)"

lemma lift_payload_Inr [simp]: "lift_payload r = Inr x \<longleftrightarrow> r = Inr x"
  by (simp add: lift_payload_def split: sum.split)

text \<open>\<^verbatim>\<open>bytes.fromhex\<close>: white space may stand before each pair of digits.\<close>

definition ascii_space :: "char \<Rightarrow> bool" where
  "ascii_space c \<longleftrightarrow> 9 \<le> code c \<and> code c \<le> 13 \<or> code c = 32"

fun bytes_fromhex :: "string \<Rightarrow> bytes option" where
  "bytes_fromhex [] = Some []"
| "bytes_fromhex [a] = (if ascii_space a then Some [] else None)"
| "bytes_fromhex (a # b # cs) =
     (if ascii_space a then bytes_fromhex (b # cs)
      else case (hex_value a, hex_value b) of
        (Some x, Some y) \<Rightarrow> map_option ((#) (word_of_int (16 * x + y))) (bytes_fromhex cs)
      | _ \<Rightarrow> None)"

definition verity_partition_uuids :: "string \<Rightarrow> payload_error + string \<times> string" where
  "verity_partition_uuids root_hash =
     (case bytes_fromhex root_hash of
        None \<Rightarrow> Inl Not_hex
      | Some digest \<Rightarrow>
          if len digest \<noteq> 32 then Inl Root_hash_length
          else Inr (uuid_str (take 16 digest), uuid_str (drop 16 digest)))"

text \<open>\<^verbatim>\<open>d[key]\<close> of a JSON value.\<close>

definition json_item :: "string json \<Rightarrow> string \<Rightarrow> payload_error + string json" where
  "json_item v key =
     (case v of JObj kvs \<Rightarrow> (case map_of kvs key of Some x \<Rightarrow> Inr x | None \<Rightarrow> Inl Payload_key) | _ \<Rightarrow> Inl Payload_type)"

definition json_int :: "string json \<Rightarrow> string \<Rightarrow> payload_error + int" where
  "json_int v key = rbind (json_item v key) (\<lambda>x. case x of JInt i \<Rightarrow> Inr i | _ \<Rightarrow> Inl Payload_type)"

definition partition_matches :: "string \<Rightarrow> string \<Rightarrow> string json \<Rightarrow> payload_error + bool" where
  "partition_matches guid lbl p =
     rbind (json_item p ''type_guid'') (\<lambda>t.
       if t \<noteq> JStr guid then Inr False
       else rbind (json_item p ''label'') (\<lambda>l. Inr (l = JStr lbl)))"

definition populated_partition :: "string json list \<Rightarrow> string \<Rightarrow> string \<Rightarrow> payload_error + string json" where
  "populated_partition partitions guid lbl =
     rbind (rmap (partition_matches guid lbl) partitions) (\<lambda>flags.
       case map fst (filter snd (zip partitions flags)) of
         [p] \<Rightarrow> Inr p
       | _ \<Rightarrow> Inl (No_single_partition lbl))"

definition check_slot_uuid :: "string json list \<Rightarrow> string \<times> string \<times> string \<Rightarrow> payload_error + unit" where
  "check_slot_uuid partitions e =
     (case e of (guid, lbl, expected) \<Rightarrow>
        rbind (populated_partition partitions guid lbl) (\<lambda>p.
          if json_get p ''uuid'' \<noteq> Some (JStr expected) then Inl (Uuid_mismatch lbl) else Inr ()))"

definition check_slot_uuids :: "string json list \<Rightarrow> string \<Rightarrow> string \<Rightarrow> string \<Rightarrow> payload_error + unit" where
  "check_slot_uuids partitions slot root_uuid verity_uuid =
     rbind (rmap (check_slot_uuid partitions)
       [(ROOT_X86_64, slot, root_uuid), (ROOT_X86_64_VERITY, slot @ ''_verity'', verity_uuid)]) (\<lambda>_. Inr ())"

definition verity_extents :: "string json \<Rightarrow> payload_error + int \<times> int" where
  "verity_extents verity_metadata =
     rbind (json_int verity_metadata ''data_blocks'') (\<lambda>data_blocks.
     rbind (json_int verity_metadata ''data_block_size'') (\<lambda>data_block_size.
     rbind (json_int verity_metadata ''tree_offset'') (\<lambda>tree_offset.
     rbind (json_int verity_metadata ''tree_size'') (\<lambda>tree_size.
       Inr (data_blocks * data_block_size, tree_offset + tree_size)))))"

section \<open>Copying\<close>

definition CHUNK_BYTES :: int where "CHUNK_BYTES = 1024 * 1024"

text \<open>The chunks that \<^verbatim>\<open>_chunks\<close> yields; a negative length reads everything that is left.\<close>

definition read_some :: "int \<Rightarrow> bytes \<Rightarrow> bytes" where
  "read_some n data = (if n < 0 then data else take (nat n) data)"

function chunks_loop :: "int \<Rightarrow> bytes \<Rightarrow> payload_error + bytes list" where
  "chunks_loop remaining data =
     (if remaining = 0 then Inr []
      else
        let chunk = read_some (min CHUNK_BYTES remaining) data
        in if chunk = [] then Inl Shorter_than_geometry
           else rbind (chunks_loop (remaining - len chunk) (drop (length chunk) data)) (\<lambda>chunks. Inr (chunk # chunks)))"
  by pat_completeness auto

termination chunks_loop
proof (relation "measure (\<lambda>(remaining, data). length data)", goal_cases)
  case (2 remaining data chunk)
  then have "data \<noteq> []" "chunk \<noteq> []" by (auto simp: read_some_def split: if_split_asm)
  then show ?case by (simp add: length_greater_0_conv)
qed simp

declare chunks_loop.simps [simp del]

definition chunks_of :: "bytes \<Rightarrow> int option \<Rightarrow> payload_error + bytes list" where
  "chunks_of source amount = chunks_loop (case amount of None \<Rightarrow> len source | Some n \<Rightarrow> n) source"

text \<open>A file open for writing: its contents and the position. A write past the end fills the gap with zeros.\<close>

record sparse_file =
  sf_data :: bytes
  sf_pos :: nat

definition sparse_write :: "bytes \<Rightarrow> sparse_file \<Rightarrow> sparse_file" where
  "sparse_write chunk f =
     \<lparr>sf_data = take (sf_pos f) (sf_data f @ zeros (sf_pos f - length (sf_data f))) @ chunk @ drop (sf_pos f + length chunk) (sf_data f),
      sf_pos = sf_pos f + length chunk\<rparr>"

definition sparse_seek :: "nat \<Rightarrow> sparse_file \<Rightarrow> sparse_file" where
  "sparse_seek n f = f\<lparr>sf_pos := sf_pos f + n\<rparr>"

definition sparse_truncate :: "sparse_file \<Rightarrow> sparse_file" where
  "sparse_truncate f = f\<lparr>sf_data := take (sf_pos f) (sf_data f @ zeros (sf_pos f - length (sf_data f)))\<rparr>"

definition sparse_chunk :: "bytes \<Rightarrow> sparse_file \<Rightarrow> sparse_file" where
  "sparse_chunk chunk f = (if chunk = zeros (length chunk) then sparse_seek (length chunk) f else sparse_write chunk f)"

text \<open>What a writer leaves in the file and what it yields.\<close>

definition write_sparse :: "bytes list \<Rightarrow> bytes \<times> bytes list" where
  "write_sparse chunks = (sf_data (sparse_truncate (fold sparse_chunk chunks \<lparr>sf_data = [], sf_pos = 0\<rparr>)), chunks)"

definition write_xz :: "(bytes list \<Rightarrow> bytes list) \<Rightarrow> bytes list \<Rightarrow> bytes \<times> bytes list" where
  "write_xz xz chunks = (concat (xz chunks), xz chunks)"

definition mode_444 :: int where "mode_444 = 4 * 64 + 4 * 8 + 4"

definition copy_payload ::
    "(bytes \<Rightarrow> string) \<Rightarrow> (bytes list \<Rightarrow> bytes list) \<Rightarrow> string \<Rightarrow> bytes \<Rightarrow> int option \<Rightarrow> string \<Rightarrow> fs \<Rightarrow> payload_error + fs \<times> string" where
  "copy_payload sha256 xz name source amount compression fs =
     rbind (chunks_of source amount) (\<lambda>chunks.
       let (contents, written) = (if compression = ''xz'' then write_xz xz chunks else write_sparse chunks)
       in rbind (lift_payload (add_node [name] (File mode_444 contents) fs)) (\<lambda>fs. Inr (fs, sha256 (concat written))))"

section \<open>The payload\<close>

record payload_args =
  y_image_id :: string
  y_image_version :: "string option"
  y_image_version_file :: "bytes option"
  y_root_hash :: bytes
  y_partition_metadata :: bytes
  y_root_image :: bytes
  y_verity_image :: bytes
  y_verity_metadata :: bytes
  y_uki :: bytes
  y_signed_uki :: "bytes option"
  y_signing_request :: "bytes option"
  y_compression :: string

definition load_json :: "(bytes \<Rightarrow> string json option) \<Rightarrow> bytes \<Rightarrow> payload_error + string json" where
  "load_json json_loads data = (case json_loads data of None \<Rightarrow> Inl Payload_json | Some v \<Rightarrow> Inr v)"

definition release_uki ::
    "(bytes \<Rightarrow> string) \<Rightarrow> (bytes \<Rightarrow> string json option) \<Rightarrow> payload_args \<Rightarrow> payload_error + bytes" where
  "release_uki sha256 json_loads args =
     (case (y_signed_uki args, y_signing_request args) of
        (None, None) \<Rightarrow> Inr (y_uki args)
      | (Some signed_uki, Some request) \<Rightarrow>
          rbind (load_json json_loads request) (\<lambda>v.
          rbind (json_item v ''unsigned_sha256'') (\<lambda>requested.
            if requested \<noteq> JStr (sha256 (y_uki args)) then Inl Unsigned_mismatch else Inr signed_uki))
      | _ \<Rightarrow> Inl Signing_arguments)"

definition ascii_text :: "bytes \<Rightarrow> payload_error + string" where
  "ascii_text data = (if list_all (\<lambda>b. uint b < 128) data then Inr (map (\<lambda>b. char_of (uint b)) data) else Inl Not_ascii)"

definition payload_version :: "payload_args \<Rightarrow> payload_error + string" where
  "payload_version args =
     (case y_image_version_file args of
        Some content \<Rightarrow>
          (case read_image_version content (Some (y_image_id args)) of Inl e \<Rightarrow> Inl (Payload_version e) | Inr v \<Rightarrow> Inr v)
      | None \<Rightarrow> (case y_image_version args of Some v \<Rightarrow> Inr v | None \<Rightarrow> Inl Payload_type))"

definition json_list :: "string json \<Rightarrow> payload_error + string json list" where
  "json_list v = (case v of JList xs \<Rightarrow> Inr xs | _ \<Rightarrow> Inl Payload_type)"

fun copy_files ::
    "(bytes \<Rightarrow> string) \<Rightarrow> (bytes list \<Rightarrow> bytes list) \<Rightarrow> (string \<times> bytes \<times> int option \<times> string) list \<Rightarrow> fs
     \<Rightarrow> payload_error + fs \<times> (string \<times> string) list" where
  "copy_files sha256 xz [] fs = Inr (fs, [])"
| "copy_files sha256 xz ((name, source, amount, method) # files) fs =
     rbind (copy_payload sha256 xz name source amount method fs) (\<lambda>(fs, digest).
     rbind (copy_files sha256 xz files fs) (\<lambda>(fs, digests). Inr (fs, (name, digest) # digests)))"

definition checksum_file :: "(string \<times> string) list \<Rightarrow> string" where
  "checksum_file digests = concat (map (\<lambda>(name, digest). digest @ ''  '' @ name @ ''\<newline>'') (sort_key fst digests))"

definition payload ::
    "(bytes \<Rightarrow> string) \<Rightarrow> (bytes list \<Rightarrow> bytes list) \<Rightarrow> (bytes \<Rightarrow> string json option) \<Rightarrow> payload_args \<Rightarrow> payload_error + fs" where
  "payload sha256 xz json_loads args =
     rbind (payload_version args) (\<lambda>version.
     rbind (release_uki sha256 json_loads args) (\<lambda>uki.
     rbind (ascii_text (y_root_hash args)) (\<lambda>root_text.
     rbind (verity_partition_uuids (str_lower (strip root_text))) (\<lambda>(root_uuid, verity_uuid).
     rbind (load_json json_loads (y_partition_metadata args)) (\<lambda>metadata.
     rbind (json_item metadata ''partitions'') (\<lambda>ps.
     rbind (json_list ps) (\<lambda>partitions.
     rbind (check_slot_uuids partitions (y_image_id args @ ''_'' @ version) root_uuid verity_uuid) (\<lambda>_.
     rbind (load_json json_loads (y_verity_metadata args)) (\<lambda>verity.
     rbind (verity_extents verity) (\<lambda>(root_bytes, verity_bytes).
       case map_of COMPRESSION_SUFFIXES (y_compression args) of
         None \<Rightarrow> Inl Payload_key
       | Some suffix \<Rightarrow>
           rbind (copy_files sha256 xz
             [(root_name (y_image_id args) version root_uuid @ suffix, y_root_image args, Some root_bytes, y_compression args),
              (verity_name (y_image_id args) version verity_uuid @ suffix, y_verity_image args, Some verity_bytes, y_compression args),
              (uki_name (y_image_id args) version, uki, None, ''none'')] []) (\<lambda>(fs, digests).
             lift_payload (write_data [''SHA256SUMS''] (map of_char (checksum_file digests)) fs))))))))))))"

text \<open>\<^verbatim>\<open>write_transfers\<close> into a fresh directory\<close>

definition write_transfers :: "string \<Rightarrow> int \<Rightarrow> int \<Rightarrow> string option \<Rightarrow> os_error + fs" where
  "write_transfers image_id boot_attempts instances url =
     rfold (\<lambda>(name, content). write_data [name] (map of_char content)) (transfers image_id boot_attempts instances url) []"

section \<open>What is shipped\<close>

lemma chunks_loop_Inr:
  "chunks_loop remaining data = Inr chunks \<Longrightarrow>
     0 \<le> remaining \<and> remaining \<le> len data \<and> concat chunks = take (nat remaining) data"
proof (induction remaining data arbitrary: chunks rule: chunks_loop.induct)
  case (1 remaining data)
  show ?case
  proof (cases "remaining = 0")
    case True
    with "1.prems" show ?thesis by (simp add: chunks_loop.simps [of 0 data])
  next
    case False
    define chunk where "chunk = read_some (min CHUNK_BYTES remaining) data"
    from "1.prems" False obtain rest where r: "chunk \<noteq> []" "chunks = chunk # rest"
        "chunks_loop (remaining - len chunk) (drop (length chunk) data) = Inr rest"
      by (auto simp: chunks_loop.simps [of remaining] Let_def chunk_def split: if_split_asm)
    from "1.IH" [OF False chunk_def r(1) r(3)] have i: "0 \<le> remaining - len chunk" "remaining - len chunk \<le> len (drop (length chunk) data)"
        "concat rest = take (nat (remaining - len chunk)) (drop (length chunk) data)" by blast+
    have c: "chunk = take (length chunk) data" by (auto simp: chunk_def read_some_def min_def)
    then have "length chunk \<le> length data" by (metis length_take min.cobounded1)
    moreover have "take (nat remaining) data = chunk @ take (nat (remaining - len chunk)) (drop (length chunk) data)"
      using c i(1) take_add [of "length chunk" "nat (remaining - len chunk)" data] by (simp add: nat_diff_distrib)
    ultimately show ?thesis using i r(2) by simp
  qed
qed

lemma chunks_of_Inr:
  "chunks_of source amount = Inr chunks \<Longrightarrow>
     concat chunks = (case amount of None \<Rightarrow> source | Some n \<Rightarrow> take (nat n) source) \<and> (\<forall>n. amount = Some n \<longrightarrow> 0 \<le> n \<and> n \<le> len source)"
  unfolding chunks_of_def by (drule chunks_loop_Inr) (auto split: option.split)

text \<open>The sparse file: what is behind its end reads as zeros.\<close>

definition sparse_view :: "sparse_file \<Rightarrow> bytes" where
  "sparse_view f = sf_data f @ zeros (sf_pos f - length (sf_data f))"

lemma zeros_append: "zeros m @ zeros n = zeros (m + n)"
  by (simp add: zeros_def replicate_add)

lemma sparse_chunk_view:
  assumes "length (sf_data f) \<le> sf_pos f"
  shows "length (sf_data (sparse_chunk chunk f)) \<le> sf_pos (sparse_chunk chunk f) \<and> sparse_view (sparse_chunk chunk f) = sparse_view f @ chunk"
proof (cases "chunk = zeros (length chunk)")
  case True
  have "sparse_view f @ chunk = sf_data f @ zeros (sf_pos f - length (sf_data f)) @ zeros (length chunk)"
    unfolding sparse_view_def using True by (metis append.assoc)
  also have "\<dots> = sf_data f @ zeros (sf_pos f + length chunk - length (sf_data f))" using assms by (simp add: zeros_append)
  finally show ?thesis using True assms by (simp add: sparse_chunk_def sparse_seek_def sparse_view_def)
next
  case False
  with assms show ?thesis by (simp add: sparse_chunk_def sparse_write_def sparse_view_def zeros_def)
qed

lemma sparse_fold_view:
  "length (sf_data f) \<le> sf_pos f \<Longrightarrow>
     length (sf_data (fold sparse_chunk chunks f)) \<le> sf_pos (fold sparse_chunk chunks f) \<and>
     sparse_view (fold sparse_chunk chunks f) = sparse_view f @ concat chunks"
proof (induction chunks arbitrary: f)
  case (Cons c cs)
  from sparse_chunk_view [OF Cons.prems, of c] Cons.IH [of "sparse_chunk c f"] show ?case by simp
qed simp

lemma write_sparse_contents: "fst (write_sparse chunks) = concat chunks"
proof -
  define f where "f = fold sparse_chunk chunks \<lparr>sf_data = [], sf_pos = 0\<rparr>"
  have v: "length (sf_data f) \<le> sf_pos f" "sparse_view f = concat chunks"
    using sparse_fold_view [of "\<lparr>sf_data = [], sf_pos = 0\<rparr>" chunks] by (simp_all add: f_def sparse_view_def zeros_def)
  from v(1) have "length (sparse_view f) = sf_pos f" by (simp add: sparse_view_def)
  with v(2) show ?thesis by (simp add: write_sparse_def f_def [symmetric] sparse_truncate_def sparse_view_def [symmetric])
qed

text \<open>The contents of a shipped file: the covered bytes of its source, or their compression.\<close>

definition shipped :: "(bytes list \<Rightarrow> bytes list) \<Rightarrow> string \<Rightarrow> bytes \<Rightarrow> int option \<Rightarrow> bytes" where
  "shipped xz compression source amount =
     (if compression = ''xz'' then concat (xz (projr (chunks_of source amount)))
      else case amount of None \<Rightarrow> source | Some n \<Rightarrow> take (nat n) source)"

lemma copy_payload_exact:
  assumes "copy_payload sha256 xz name source amount compression fs = Inr (fs', digest)"
  shows "fs' = fs @ [([name], File mode_444 (shipped xz compression source amount))] \<and>
    digest = sha256 (shipped xz compression source amount) \<and> (\<forall>n. amount = Some n \<longrightarrow> 0 \<le> n \<and> n \<le> len source)"
proof -
  from assms obtain chunks where c: "chunks_of source amount = Inr chunks" by (auto simp: copy_payload_def)
  define contents where "contents = shipped xz compression source amount"
  have "(if compression = ''xz'' then write_xz xz chunks else write_sparse chunks) =
      (contents, if compression = ''xz'' then xz chunks else chunks)"
    and w: "concat (if compression = ''xz'' then xz chunks else chunks) = contents"
    using write_sparse_contents [of chunks] chunks_of_Inr [OF c]
    by (auto simp: contents_def shipped_def c write_xz_def write_sparse_def)
  with assms c have "add_node [name] (File mode_444 contents) fs = Inr fs'" "digest = sha256 contents"
    by (auto simp: copy_payload_def w)
  with add_node_Inr [of "[name]" "File mode_444 contents" fs fs'] chunks_of_Inr [OF c] show ?thesis by (simp add: contents_def)
qed

lemma copy_files_exact:
  "copy_files sha256 xz files fs = Inr (fs', digests) \<Longrightarrow>
     fs' = fs @ map (\<lambda>(name, source, amount, method). ([name], File mode_444 (shipped xz method source amount))) files \<and>
     digests = map (\<lambda>(name, source, amount, method). (name, sha256 (shipped xz method source amount))) files \<and>
     (\<forall>(name, source, amount, method) \<in> set files. \<forall>n. amount = Some n \<longrightarrow> 0 \<le> n \<and> n \<le> len source)"
proof (induction files arbitrary: fs digests)
  case (Cons x files)
  obtain name source amount xzip where x: "x = (name, source, amount, xzip)" by (cases x)
  from Cons.prems obtain fs1 digest rest where s: "copy_payload sha256 xz name source amount xzip fs = Inr (fs1, digest)"
      "copy_files sha256 xz files fs1 = Inr (fs', rest)" "digests = (name, digest) # rest" by (auto simp: x)
  from copy_payload_exact [OF s(1)] Cons.IH [OF s(2)] s(3) show ?case by (auto simp: x)
qed simp

lemma populated_member:
  assumes "populated_partition partitions guid lbl = Inr p"
  shows "p \<in> set partitions \<and> json_get p ''type_guid'' = Some (JStr guid) \<and> json_get p ''label'' = Some (JStr lbl)"
proof -
  from assms obtain flags where f: "rmap (partition_matches guid lbl) partitions = Inr flags" by (auto simp: populated_partition_def)
  define found where "found = map fst (filter snd (zip partitions flags))"
  from assms f have "found = [p]" unfolding populated_partition_def by (cases found; cases "tl found") (auto simp: found_def [symmetric])
  then have "p \<in> fst ` set (filter snd (zip partitions flags))" unfolding found_def by (metis list.set_intros(1) list.set_map)
  then obtain i where i: "i < length partitions" "i < length flags" "p = partitions ! i" "flags ! i" by (auto simp: in_set_zip)
  from f have "partition_matches guid lbl (partitions ! i) = Inr (flags ! i)"
    unfolding rmap_Inr_iff using i(1) by (simp add: list_all2_conv_all_nth)
  with i show ?thesis
    by (auto simp: partition_matches_def json_item_def split: if_split_asm json.split_asm option.split_asm)
qed

definition slot_has_uuid :: "string json list \<Rightarrow> string \<Rightarrow> string \<Rightarrow> string \<Rightarrow> bool" where
  "slot_has_uuid partitions guid lbl partition_uuid \<longleftrightarrow>
     (\<exists>p \<in> set partitions. json_get p ''type_guid'' = Some (JStr guid) \<and> json_get p ''label'' = Some (JStr lbl) \<and>
        json_get p ''uuid'' = Some (JStr partition_uuid))"

lemma check_slot_uuids_sound:
  assumes "check_slot_uuids partitions slot root_uuid verity_uuid = Inr u"
  shows "slot_has_uuid partitions ROOT_X86_64 slot root_uuid \<and> slot_has_uuid partitions ROOT_X86_64_VERITY (slot @ ''_verity'') verity_uuid"
  using assms populated_member unfolding slot_has_uuid_def
  by (auto simp: check_slot_uuids_def check_slot_uuid_def split: if_split_asm) blast+

lemma payload_version_file:
  "payload_version args = Inr version \<Longrightarrow> y_image_version_file args \<noteq> None \<longrightarrow>
     version \<noteq> [] \<and> set version \<subseteq> set VERSION_CHARACTERS \<and> length (y_image_id args) + length version \<le> 28"
  by (auto simp: payload_version_def split: option.split_asm sum.split_asm dest!: read_image_version_sound)

text \<open>The three files of a payload, each with its contents.\<close>

definition payload_files ::
    "(bytes list \<Rightarrow> bytes list) \<Rightarrow> payload_args \<Rightarrow> string \<Rightarrow> bytes \<Rightarrow> string \<Rightarrow> string \<Rightarrow> int \<Rightarrow> int \<Rightarrow> (string \<times> bytes) list" where
  "payload_files xz args version uki root_uuid verity_uuid root_bytes verity_bytes =
     (let suffix = (if y_compression args = ''xz'' then ''.xz'' else [])
      in [(root_name (y_image_id args) version root_uuid @ suffix, shipped xz (y_compression args) (y_root_image args) (Some root_bytes)),
          (verity_name (y_image_id args) version verity_uuid @ suffix, shipped xz (y_compression args) (y_verity_image args) (Some verity_bytes)),
          (uki_name (y_image_id args) version, uki)])"


section \<open>A small payload\<close>

definition zero_uuid :: string where
  "zero_uuid = ''00000000-0000-0000-0000-000000000000''"

definition sample_json :: "bytes \<Rightarrow> string json option" where
  "sample_json data =
     (if data = [1] then Some (JObj [(''partitions'', JList
        [JObj [(''type_guid'', JStr ROOT_X86_64), (''label'', JStr ''i_1''), (''uuid'', JStr zero_uuid)],
         JObj [(''type_guid'', JStr ROOT_X86_64_VERITY), (''label'', JStr ''i_1_verity''), (''uuid'', JStr zero_uuid)]])])
      else if data = [2] then Some (JObj [(''data_blocks'', JInt 2), (''data_block_size'', JInt 2), (''tree_offset'', JInt 1), (''tree_size'', JInt 1)])
      else None)"

definition sample_payload_args :: payload_args where
  "sample_payload_args =
     \<lparr>y_image_id = ''i'', y_image_version = None, y_image_version_file = Some (map of_char ''1\<newline>''),
      y_root_hash = replicate 64 48, y_partition_metadata = [1], y_root_image = [0, 0, 5, 6, 7], y_verity_image = [9, 9],
      y_verity_metadata = [2], y_uki = [4], y_signed_uki = None, y_signing_request = None, y_compression = ''none''\<rparr>"

definition sample_payload :: "payload_error + fs" where
  "sample_payload = payload (\<lambda>data. int_str (len data)) id sample_json sample_payload_args"

lemma sample_payload_Inr: "payload (\<lambda>data. int_str (len data)) id sample_json sample_payload_args = Inr (projr sample_payload)"
proof -
  have "\<not> isl sample_payload" by code_simp
  from sum.collapse(2) [OF this] show ?thesis unfolding sample_payload_def by (rule sym)
qed


end
