(* ===== verification/Der_Codec.thy ===== *)
theory Der_Codec
  imports Framed_Stream
begin

text \<open>
  The DER reader of \<^verbatim>\<open>mkosi/private/secure_boot.py\<close> (\<^verbatim>\<open>Der\<close>, \<^verbatim>\<open>der_read\<close>) and the writer of
  \<^verbatim>\<open>secure_boot_signer.py\<close> (\<^verbatim>\<open>_encode_der\<close>). The reader accepts exactly what the writer writes, so every
  object has one encoding, and the children of an object are exactly the objects that its value is the
  concatenation of.
\<close>

text \<open>
  The exceptions of the Secure Boot scripts. A \<^verbatim>\<open>ValueError\<close> carries the literal of its message; the
  remaining classes are those that the scripts catch, or fail to catch, separately.
\<close>

datatype boot_error =
    Boot_value string
  | Boot_struct
  | Boot_index
  | Boot_key string
  | Boot_type
  | Boot_os
  | Boot_tool

section \<open>Reading\<close>

definition MAX_DER_BYTES :: int where "MAX_DER_BYTES = 16 * 1024 * 1024"
definition MAX_DER_DEPTH :: int where "MAX_DER_DEPTH = 32"
definition MAX_DER_CHILDREN :: int where "MAX_DER_CHILDREN = 4096"

lemmas der_limits = MAX_DER_BYTES_def MAX_DER_DEPTH_def MAX_DER_CHILDREN_def

record der =
  der_tag :: byte
  der_value :: bytes
  der_depth :: int

text \<open>\<^verbatim>\<open>(n.bit_length() + 7) // 8\<close>\<close>

definition byte_count :: "int \<Rightarrow> nat" where
  "byte_count n = (bit_length (nat \<bar>n\<bar>) + 7) div 8"

definition der_length :: "bytes \<Rightarrow> int \<Rightarrow> int \<Rightarrow> boot_error + int \<times> int" where
  "der_length data first cursor =
     (if first AND 0x80 = 0 then Inr (first, cursor)
      else
        let count = first AND 0x7F
        in if count = 0 then Inl (Boot_value ''indefinite DER length is forbidden'')
        else if count > 4 \<or> cursor + count > len data then Inl (Boot_value ''invalid DER length'')
        else if data ! nat cursor = 0 then Inl (Boot_value ''nonminimal DER length'')
        else
          let n = be_int (py_slice data cursor (cursor + count))
          in if n < 128 \<or> count \<noteq> int (byte_count n) then Inl (Boot_value ''nonminimal DER long-form length'')
          else Inr (n, cursor + count))"

definition der_read :: "bytes \<Rightarrow> int \<Rightarrow> int \<Rightarrow> boot_error + der \<times> int" where
  "der_read data offset depth =
     (if len data > MAX_DER_BYTES \<or> depth > MAX_DER_DEPTH then Inl (Boot_value ''DER resource limit exceeded'')
      else if offset + 2 > len data then Inl (Boot_value ''truncated DER object'')
      else
        rbind (der_length data (uint (data ! nat (offset + 1))) (offset + 2)) (\<lambda>(n, cursor).
          let end_off = cursor + n
          in if end_off > len data then Inl (Boot_value ''DER object is out of bounds'')
          else Inr (\<lparr>der_tag = data ! nat offset, der_value = py_slice data cursor end_off, der_depth = depth\<rparr>, end_off)))"

lemma der_length_forward:
  assumes "der_length data first cursor = Inr (n, c)" "0 \<le> first"
  shows "0 \<le> n" "cursor \<le> c"
  using assms by (auto simp: der_length_def Let_def split: if_split_asm)

lemma der_read_forward:
  assumes "der_read data off depth = Inr (item, end_off)"
  shows "off + 2 \<le> end_off" "end_off \<le> len data"
  using assms der_length_forward [of data "uint (data ! nat (off + 1))" "off + 2"]
  by (fastforce simp: der_read_def Let_def split: if_split_asm)+

function children_loop :: "bytes \<Rightarrow> int \<Rightarrow> int \<Rightarrow> der list \<Rightarrow> boot_error + der list" where
  "children_loop data depth cursor result =
     (if cursor < len data then
        if len result \<ge> MAX_DER_CHILDREN then Inl (Boot_value ''DER child count exceeds limit'')
        else rbind (der_read data cursor depth) (\<lambda>(item, next_off). children_loop data depth next_off (result @ [item]))
      else Inr result)"
  by pat_completeness auto

termination children_loop
  by (relation "measure (\<lambda>(data, depth, cursor, result). nat (len data - cursor))")
    (auto dest: der_read_forward)

declare children_loop.simps [simp del]

definition children :: "der \<Rightarrow> boot_error + der list" where
  "children item =
     (if der_depth item \<ge> MAX_DER_DEPTH then Inl (Boot_value ''DER nesting exceeds limit'')
      else children_loop (der_value item) (der_depth item + 1) 0 [])"

section \<open>Writing\<close>

text \<open>\<^verbatim>\<open>bytes([0x80 | size])\<close> needs a \<open>size\<close> below 128, which every value in memory has.\<close>

definition encode_der :: "byte \<Rightarrow> bytes \<Rightarrow> bytes" where
  "encode_der tag v =
     (if len v < 0x80 then [tag, word_of_int (len v)] @ v
      else
        let size = byte_count (len v)
        in [tag, word_of_int (0x80 OR int size)] @ be_bytes size (len v) @ v)"

section \<open>The reader inverts the writer\<close>

lemma bit_length_le: "0 < n \<Longrightarrow> 2 ^ (bit_length n - 1) \<le> n"
proof (induction n rule: bit_length.induct)
  case (1 n)
  show ?case
  proof (cases "n div 2 = 0")
    case True
    with 1(2) have "n = 1" by linarith
    then show ?thesis by (simp add: bit_length.simps)
  next
    case False
    with 1 have "2 ^ (bit_length (n div 2) - 1) \<le> n div 2" by simp
    moreover have "bit_length (n div 2) = Suc (bit_length (n div 2) - 1)"
      using False by (simp add: bit_length.simps [of "n div 2"])
    ultimately have "2 ^ bit_length (n div 2) \<le> 2 * (n div 2)"
      by (metis mult_le_mono2 power_Suc)
    with 1(2) show ?thesis by (simp add: bit_length.simps [of n])
  qed
qed

lemma byte_count_bounds:
  assumes "0 < n"
  shows "n < 256 ^ byte_count n" "256 ^ (byte_count n - 1) \<le> n"
proof -
  let ?b = "bit_length (nat n)"
  have p: "(256 :: nat) ^ k = 2 ^ (8 * k)" for k by (simp add: power_mult)
  have "nat n < 2 ^ ?b" by (rule bit_length_bound)
  also have "\<dots> \<le> 2 ^ (8 * ((?b + 7) div 8))" by (rule power_increasing) linarith+
  finally have "nat n < 256 ^ byte_count n" using assms by (simp add: byte_count_def p)
  then show "n < 256 ^ byte_count n" using assms by (metis (mono_tags, opaque_lifting) nat_less_numeral_power_cancel_iff)
  have "(2 :: nat) ^ (8 * ((?b + 7) div 8 - 1)) \<le> 2 ^ (?b - 1)" by (rule power_increasing) linarith+
  also have "\<dots> \<le> nat n" using assms by (intro bit_length_le) simp
  finally have "256 ^ (byte_count n - 1) \<le> nat n" using assms by (simp add: byte_count_def p)
  then show "256 ^ (byte_count n - 1) \<le> n" by (metis numeral_power_le_nat_cancel_iff)
qed

lemma byte_count_unique:
  assumes "256 ^ k \<le> n" "n < 256 ^ Suc k"
  shows "byte_count n = Suc k"
proof -
  have "0 < n" using assms(1) by (smt (verit) zero_less_power)
  note b = byte_count_bounds [OF this]
  have "(256 :: int) ^ k < 256 ^ byte_count n" "(256 :: int) ^ (byte_count n - 1) < 256 ^ Suc k"
    using assms b by linarith+
  then have "k < byte_count n" "byte_count n - 1 < Suc k" by (simp_all only: power_strict_increasing_iff)
  then show ?thesis by linarith
qed

lemma be_int_Cons: "be_int (b # bs) = uint b * 256 ^ length bs + be_int bs"
proof -
  have "le_int (xs @ [b]) = le_int xs + 256 ^ length xs * uint b" for xs
    by (induction xs) (simp_all add: algebra_simps)
  then show ?thesis by (simp add: be_int_def)
qed

lemma be_int_less: "be_int bs < 256 ^ length bs"
  using le_int_less [of "rev bs"] by (simp add: be_int_def)

lemma be_bytes_be_int: "be_bytes (length bs) (be_int bs) = bs"
  using le_bytes_le_int [of "rev bs"] by (simp add: be_bytes_def be_int_def)

lemma be_bytes_hd:
  assumes "0 < n"
  shows "be_bytes (byte_count n) n \<noteq> []" "hd (be_bytes (byte_count n) n) \<noteq> 0"
proof -
  let ?bs = "be_bytes (byte_count n) n"
  note b = byte_count_bounds [OF assms]
  have n: "be_int ?bs = n" using assms b(1) by simp
  with assms show ne: "?bs \<noteq> []" by (auto simp: be_int_def)
  show "hd ?bs \<noteq> 0"
  proof
    assume "hd ?bs = 0"
    with ne obtain bs where bs: "?bs = 0 # bs" by (metis list.collapse)
    have "length bs = byte_count n - 1" using arg_cong [OF bs, of length] by simp
    moreover have "be_int bs = n" using n unfolding bs by (simp add: be_int_Cons)
    ultimately show False using be_int_less [of bs] b(2) by simp
  qed
qed

text \<open>The bytes of the length field.\<close>

definition length_bytes :: "int \<Rightarrow> bytes" where
  "length_bytes n =
     (if n < 0x80 then [word_of_int n] else word_of_int (0x80 OR int (byte_count n)) # be_bytes (byte_count n) n)"

lemma encode_der_split: "encode_der tag v = tag # length_bytes (len v) @ v"
  by (simp add: encode_der_def length_bytes_def Let_def)

lemma byte_high_bit:
  assumes "0 \<le> x" "x < 256"
  shows "x AND 0x80 = 0 \<longleftrightarrow> x < (128 :: int)" "x AND 0x7F = x mod (128 :: int)"
proof -
  have "x AND 0x7F = take_bit 7 x" by (simp add: take_bit_eq_mask mask_eq_exp_minus_1)
  then show m: "x AND 0x7F = x mod 128" by (simp add: take_bit_eq_mod)
  have e: "(0x80 :: int) = 2 ^ 7" by simp
  have "x AND 0x80 = 0 \<longleftrightarrow> \<not> bit x 7"
    unfolding e by (rule and_exp_eq_0_iff_not_bit)
  also have "\<dots> \<longleftrightarrow> even (x div 128)" by (simp add: bit_iff_odd)
  also have "\<dots> \<longleftrightarrow> x < 128"
  proof
    assume e: "even (x div 128)"
    have "x div 128 < 2" using assms(2) by simp
    moreover have "0 \<le> x div 128" using assms(1) by simp
    ultimately have "x div 128 = 0 \<or> x div 128 = 1" by linarith
    with e have "x div 128 = 0" by auto
    with assms(1) show "x < 128" by linarith
  qed (use assms in simp)
  finally show "x AND 0x80 = 0 \<longleftrightarrow> x < 128" .
qed

lemma or_high_bit:
  assumes "0 \<le> c" "c < (128 :: int)"
  shows "0x80 OR c = 128 + c"
proof -
  have "0x80 AND c = 0"
    using byte_high_bit(1) [of c] assms by (simp add: and.commute)
  then have "(0x80 :: int) OR c = 0x80 + c" by (metis add.commute disjunctive_add_eq_or)
  then show ?thesis by simp
qed

lemma uint_high_bit:
  assumes "0 \<le> c" "c < (128 :: int)"
  shows "uint (word_of_int (0x80 OR c) :: byte) = 128 + c"
proof -
  have "uint (word_of_int (0x80 OR c) :: byte) = (128 + c) mod 256"
    unfolding or_high_bit [OF assms] by (subst uint_word_of_int) simp
  with assms show ?thesis by simp
qed

lemma byte_count_le4:
  assumes "0 < n" "n < 256 ^ 4"
  shows "byte_count n \<le> 4"
proof (rule ccontr)
  assume "\<not> byte_count n \<le> 4"
  then have "(256 :: int) ^ 4 \<le> 256 ^ (byte_count n - 1)" by (intro power_increasing) simp_all
  with byte_count_bounds(2) [of n] assms show False by simp
qed

lemma length_bytes_ne [simp]: "length_bytes n \<noteq> []"
  by (simp add: length_bytes_def)

lemma nth_slice0: "0 \<le> a \<Longrightarrow> a < b \<Longrightarrow> b \<le> len xs \<Longrightarrow> py_slice xs a b \<noteq> [] \<and> hd (py_slice xs a b) = xs ! nat a"
  using nth_slice [of a b xs 0] length_slice [of a b xs] by (cases "py_slice xs a b") auto

lemma slice_head: "0 \<le> a \<Longrightarrow> a < b \<Longrightarrow> b \<le> len xs \<Longrightarrow> py_slice xs a b = xs ! nat a # py_slice xs (a + 1) b"
  using slice_append_slice [of a "a + 1" b xs] nth_slice0 [of a "a + 1" xs] length_slice [of a "a + 1" xs]
  by (cases "py_slice xs a (a + 1)") auto

text \<open>A length field is read exactly when it is the minimal encoding of the length.\<close>

lemma der_length_short:
  assumes "0 \<le> off" "off < len data" "uint (data ! nat off) < 128"
  shows "der_length data (uint (data ! nat off)) (off + 1) = Inr (n, c) \<longleftrightarrow>
    0 \<le> n \<and> n < 128 \<and> c = off + 1 \<and> py_slice data off c = length_bytes n"
proof -
  have s: "py_slice data off (off + 1) = [data ! nat off]" using assms slice_head [of off "off + 1" data] by simp
  have "length_bytes n = [data ! nat off] \<longleftrightarrow> uint (data ! nat off) = n" if "0 \<le> n" "n < 128"
  proof -
    from that have "uint (word_of_int n :: byte) = n" by (simp add: uint_word_of_int)
    with that show ?thesis by (auto simp: length_bytes_def)
  qed
  with assms s show ?thesis
    by (auto simp: der_length_def byte_high_bit(1) [OF uint_byte])
qed

lemma der_length_long:
  assumes "0 \<le> off" "off < len data" "\<not> uint (data ! nat off) < 128"
  shows "der_length data (uint (data ! nat off)) (off + 1) = Inr (n, c) \<longleftrightarrow>
    128 \<le> n \<and> n < 256 ^ 4 \<and> c = off + len (length_bytes n) \<and> c \<le> len data \<and> py_slice data off c = length_bytes n"
    (is "?L \<longleftrightarrow> ?R")
proof -
  define f where "f = uint (data ! nat off)"
  define k where "k = f - 128"
  have f: "128 \<le> f" "f < 256" using assms(3) uint_byte(2) [of "data ! nat off"] by (simp_all add: f_def)
  have "f mod 128 = (f - 128) mod 128" by simp
  also have "\<dots> = k" unfolding k_def using f by (intro mod_pos_pos_trivial) simp_all
  finally have and_f: "f AND 0x80 \<noteq> 0" "f AND 0x7F = k" using f byte_high_bit [of f] by simp_all
  show ?thesis
  proof
    assume L: ?L
    then have r: "k \<noteq> 0" "k \<le> 4" "off + 1 + k \<le> len data" "n = be_int (py_slice data (off + 1) (off + 1 + k))"
        "128 \<le> n" "k = int (byte_count n)" "c = off + 1 + k"
      using and_f by (auto simp: der_length_def f_def [symmetric] Let_def split: if_split_asm)
    have l: "length (py_slice data (off + 1) (off + 1 + k)) = byte_count n"
      using r(3,6) assms(1) by (simp add: length_slice_nat)
    have b: "be_bytes (byte_count n) n = py_slice data (off + 1) (off + 1 + k)"
      using be_bytes_be_int [of "py_slice data (off + 1) (off + 1 + k)"] l r(4) by simp
    have "n < 256 ^ byte_count n" using r(5) by (intro byte_count_bounds) simp
    also have "\<dots> \<le> 256 ^ 4" using r(2,6) by (intro power_increasing) simp_all
    finally have n: "n < 256 ^ 4" .
    have "(word_of_int (0x80 OR int (byte_count n)) :: byte) = data ! nat off"
      using or_high_bit [of k] r(2,6) by (simp add: k_def f_def)
    then have "length_bytes n = data ! nat off # py_slice data (off + 1) c" using r(5,7) b by (simp add: length_bytes_def)
    then have s: "py_slice data off c = length_bytes n"
      using slice_head [of off c data] assms(1) r(3,6,7) by simp
    moreover have "len (length_bytes n) = c - off"
      using r(3,6,7) assms(1) unfolding s [symmetric] by (simp add: length_slice)
    ultimately show ?R using r(3,5,7) n by simp
  next
    assume R: ?R
    have "\<not> n < 128" using R by simp
    have lb: "length_bytes n = word_of_int (0x80 OR int (byte_count n)) # be_bytes (byte_count n) n"
      using R by (simp add: length_bytes_def)
    have c: "c = off + 1 + int (byte_count n)" using R lb by simp
    have s: "py_slice data off c = data ! nat off # py_slice data (off + 1) c"
      using c R assms(1) by (intro slice_head) simp_all
    have bc: "byte_count n \<le> 4" using R by (intro byte_count_le4) simp_all
    have "data ! nat off = word_of_int (0x80 OR int (byte_count n))" using R s lb by simp
    then have k: "k = int (byte_count n)"
      using uint_high_bit [of "int (byte_count n)"] bc unfolding k_def f_def by simp
    have b: "py_slice data (off + 1) (off + 1 + k) = be_bytes (byte_count n) n" using R s lb c k by simp
    have n: "be_int (be_bytes (byte_count n) n) = n" using byte_count_bounds(1) [of n] R by simp
    note h = be_bytes_hd [of n]
    have "byte_count n \<noteq> 0" using h(1) R by (cases "byte_count n") (auto simp: be_bytes_def)
    then have k0: "0 < k" using k by simp
    have "data ! nat (off + 1) \<noteq> 0"
      using nth_slice0 [of "off + 1" "off + 1 + k" data] h(2) b c k k0 R assms(1) by simp
    with k0 bc k c b n R and_f show ?L
      by (simp add: der_length_def f_def [symmetric] Let_def)
  qed
qed

lemma der_length_iff:
  assumes "0 \<le> off" "off < len data"
  shows "der_length data (uint (data ! nat off)) (off + 1) = Inr (n, c) \<longleftrightarrow>
    0 \<le> n \<and> n < 256 ^ 4 \<and> c = off + len (length_bytes n) \<and> c \<le> len data \<and> py_slice data off c = length_bytes n"
    (is "?L \<longleftrightarrow> ?R")
proof -
  have hd: "hd (length_bytes n) = data ! nat off" if ?R
    using that nth_slice0 [of off c data] assms by (cases "length_bytes n") auto
  have big: "128 \<le> uint (hd (length_bytes n)) \<longleftrightarrow> 128 \<le> n" if n: "0 \<le> n" "n < 256 ^ 4"
  proof (cases "n < 128")
    case True
    with n show ?thesis by (simp add: length_bytes_def uint_word_of_int)
  next
    case False
    have "byte_count n \<le> 4" using n False by (intro byte_count_le4) simp_all
    then have "uint (word_of_int (0x80 OR int (byte_count n)) :: byte) = 128 + int (byte_count n)"
      by (intro uint_high_bit) simp_all
    with False show ?thesis by (simp only: length_bytes_def if_False list.sel) simp
  qed
  show ?thesis
  proof (cases "uint (data ! nat off) < 128")
    case True
    have "?R \<longleftrightarrow> 0 \<le> n \<and> n < 128 \<and> c = off + 1 \<and> py_slice data off c = length_bytes n" (is "_ \<longleftrightarrow> ?S")
    proof
      assume ?R
      with hd big True have "n < 128" by fastforce
      with \<open>?R\<close> show ?S by (auto simp: length_bytes_def)
    next
      assume ?S
      then show ?R using assms by (auto simp: length_bytes_def)
    qed
    then show ?thesis using der_length_short [OF assms True] by simp
  next
    case False
    have "?R \<longleftrightarrow> 128 \<le> n \<and> n < 256 ^ 4 \<and> c = off + len (length_bytes n) \<and> c \<le> len data
      \<and> py_slice data off c = length_bytes n"
      using hd big False by fastforce
    then show ?thesis using der_length_long [OF assms False] by simp
  qed
qed

text \<open>The objects that can be read: their encoding is where the reader stands.\<close>

lemma der_read_iff:
  assumes off: "0 \<le> off"
  shows "der_read data off depth = Inr (item, end_off) \<longleftrightarrow>
    len data \<le> MAX_DER_BYTES \<and> depth \<le> MAX_DER_DEPTH \<and> der_depth item = depth \<and>
    end_off = off + len (encode_der (der_tag item) (der_value item)) \<and> end_off \<le> len data \<and>
    py_slice data off end_off = encode_der (der_tag item) (der_value item)" (is "?L \<longleftrightarrow> ?R")
proof
  assume L: ?L
  then obtain n c where r: "len data \<le> MAX_DER_BYTES" "depth \<le> MAX_DER_DEPTH" "off + 2 \<le> len data"
      "der_length data (uint (data ! nat (off + 1))) (off + 2) = Inr (n, c)" "end_off = c + n" "end_off \<le> len data"
      "item = \<lparr>der_tag = data ! nat off, der_value = py_slice data c end_off, der_depth = depth\<rparr>"
    by (auto simp: der_read_def Let_def split: if_split_asm)
  from der_length_iff [of "off + 1" data n c] off r(3,4)
  have n: "0 \<le> n" "c = off + 1 + len (length_bytes n)" "c \<le> len data" "py_slice data (off + 1) c = length_bytes n"
    by (auto simp: add.assoc)
  have v: "len (py_slice data c end_off) = n" using n r(5,6) off by (simp add: length_slice)
  have "py_slice data off end_off = data ! nat off # py_slice data (off + 1) end_off"
    using off n r(5,6) by (intro slice_head) simp_all
  also have "py_slice data (off + 1) end_off = py_slice data (off + 1) c @ py_slice data c end_off"
    using off n r(5) by (intro slice_append_slice [symmetric]) simp_all
  finally have e: "py_slice data off end_off = encode_der (der_tag item) (der_value item)"
    using n(4) v by (simp add: encode_der_split r(7))
  then show ?R using r n v by (simp add: encode_der_split)
next
  assume R: ?R
  define v where "v = der_value item"
  define c where "c = off + 1 + len (length_bytes (len v))"
  have e: "py_slice data off end_off = der_tag item # length_bytes (len v) @ v"
    and ee: "end_off = c + len v" using R by (auto simp: encode_der_split v_def c_def)
  have lb: "1 \<le> len (length_bytes (len v))" by (cases "length_bytes (len v)") simp_all
  have s: "py_slice data off end_off = data ! nat off # py_slice data (off + 1) end_off"
    using off ee lb conjunct1 [OF conjunct2 [OF conjunct2 [OF conjunct2 [OF conjunct2 [OF R]]]]]
    by (intro slice_head) (simp_all add: c_def)
  then have t: "data ! nat off = der_tag item" and s': "py_slice data (off + 1) end_off = length_bytes (len v) @ v"
    using e by simp_all
  have "py_slice data (off + 1) end_off = py_slice data (off + 1) c @ py_slice data c end_off"
    using off ee lb by (intro slice_append_slice [symmetric]) (simp_all add: c_def)
  moreover have "len (py_slice data (off + 1) c) = len (length_bytes (len v))"
    using off ee R lb by (subst length_slice) (simp_all add: c_def)
  ultimately have sl: "py_slice data (off + 1) c = length_bytes (len v)" "py_slice data c end_off = v"
    using s' by (metis append_eq_append_conv of_nat_eq_iff)+
  have "len v < 256 ^ 4" using R ee off by (simp add: der_limits c_def)
  then have "der_length data (uint (data ! nat (off + 1))) (off + 2) = Inr (len v, c)"
    using der_length_iff [of "off + 1" data "len v" c] off R ee lb sl by (simp add: add.assoc c_def)
  then show ?L using R ee lb t sl by (simp add: der_read_def Let_def c_def v_def der.surjective)
qed

section \<open>Sequences of objects\<close>

text \<open>The objects of one depth that fit the reader are a codec of the stream that \<^verbatim>\<open>children\<close> reads.\<close>

definition der_bytes :: "der \<Rightarrow> bytes" where
  "der_bytes item = encode_der (der_tag item) (der_value item)"

lemma der_bytes_ne [simp]: "der_bytes item \<noteq> []"
  by (simp add: der_bytes_def encode_der_split)

lemma der_read_prefix:
  "der_read (pre @ der_bytes item @ post) (len pre) depth = Inr (item', end_off) \<longleftrightarrow>
     len (pre @ der_bytes item @ post) \<le> MAX_DER_BYTES \<and> depth \<le> MAX_DER_DEPTH \<and> item' = item\<lparr>der_depth := depth\<rparr> \<and>
     end_off = len pre + len (der_bytes item)" (is "?L \<longleftrightarrow> ?R")
proof -
  let ?data = "pre @ der_bytes item @ post" and ?it = "item\<lparr>der_depth := depth\<rparr>"
  have sl: "py_slice ?data (len pre) (len pre + len (der_bytes item)) = der_bytes item" by (rule slice_middle)
  have R: ?R if ?L
  proof -
    have lim: "len ?data \<le> MAX_DER_BYTES" "depth \<le> MAX_DER_DEPTH"
      using that der_read_iff [of "len pre" ?data depth item' end_off] by simp_all
    have "der_read ?data (len pre) depth = Inr (?it, len pre + len (der_bytes item))"
      using lim sl by (subst der_read_iff) (simp_all add: der_bytes_def)
    with that lim show ?R by simp
  qed
  have ?L if ?R
    using that sl by (subst der_read_iff) (simp_all add: der_bytes_def)
  with R show ?thesis by blast
qed

text \<open>\<open>children_loop\<close> reads what is a concatenation of encodings, and nothing else.\<close>

lemma children_loop_iff:
  assumes "0 \<le> cursor" "cursor \<le> len data"
  shows "children_loop data depth cursor acc = Inr ys \<longleftrightarrow>
    (\<exists>xs. ys = acc @ xs \<and> py_slice data cursor (len data) = concat (map der_bytes xs) \<and>
      (\<forall>x \<in> set xs. der_depth x = depth) \<and>
      (xs \<noteq> [] \<longrightarrow> len data \<le> MAX_DER_BYTES \<and> depth \<le> MAX_DER_DEPTH \<and> len ys \<le> MAX_DER_CHILDREN))"
  using assms
proof (induction "nat (len data - cursor)" arbitrary: cursor acc rule: less_induct)
  case less
  show ?case
  proof (cases "cursor < len data")
    case False
    with less(3) have c: "cursor = len data" by simp
    have "concat (map der_bytes xs) = [] \<longleftrightarrow> xs = []" for xs by auto
    then show ?thesis by (auto simp: c children_loop.simps)
  next
    case True
    let ?P = "\<lambda>x xs. py_slice data cursor (len data) = concat (map der_bytes (x # xs)) \<and>
      (\<forall>x \<in> set (x # xs). der_depth x = depth) \<and>
      len data \<le> MAX_DER_BYTES \<and> depth \<le> MAX_DER_DEPTH \<and> len ys \<le> MAX_DER_CHILDREN"
    have ne: "py_slice data cursor (len data) \<noteq> []" using True less(2) nth_slice0 by fastforce
    have read: "der_read data cursor depth = Inr (x, n) \<longleftrightarrow>
        len data \<le> MAX_DER_BYTES \<and> depth \<le> MAX_DER_DEPTH \<and> der_depth x = depth \<and>
        n = cursor + len (der_bytes x) \<and> n \<le> len data \<and> py_slice data cursor n = der_bytes x" for x n
      using der_read_iff [OF less(2)] by (simp add: der_bytes_def)
    have tail: "py_slice data cursor (len data) = py_slice data cursor n @ py_slice data n (len data)"
      if "cursor \<le> n" "n \<le> len data" for n
      using that less(2) by (intro slice_append_slice [symmetric]) simp_all
    have ih: "children_loop data depth n (acc @ [x]) = Inr ys \<longleftrightarrow>
        (\<exists>xs. ys = acc @ x # xs \<and> py_slice data n (len data) = concat (map der_bytes xs) \<and>
          (\<forall>x \<in> set xs. der_depth x = depth) \<and>
          (xs \<noteq> [] \<longrightarrow> len data \<le> MAX_DER_BYTES \<and> depth \<le> MAX_DER_DEPTH \<and> len ys \<le> MAX_DER_CHILDREN))"
      if "der_read data cursor depth = Inr (x, n)" for x n
      using der_read_forward [OF that] less(1) [of n "acc @ [x]"] less(2) by simp
    have "children_loop data depth cursor acc = Inr ys \<longleftrightarrow> (\<exists>x xs. ys = acc @ x # xs \<and> ?P x xs)" (is "?L \<longleftrightarrow> ?R")
    proof
      assume ?L
      then obtain x n where a: "len acc < MAX_DER_CHILDREN" "der_read data cursor depth = Inr (x, n)"
          "children_loop data depth n (acc @ [x]) = Inr ys"
        using True by (subst (asm) children_loop.simps) (auto split: if_split_asm)
      from ih [OF a(2)] a(3) obtain xs where xs: "ys = acc @ x # xs" "py_slice data n (len data) = concat (map der_bytes xs)"
          "\<forall>x \<in> set xs. der_depth x = depth" "xs \<noteq> [] \<longrightarrow> len ys \<le> MAX_DER_CHILDREN" by blast
      have rd: "n \<le> len data" "py_slice data cursor n = der_bytes x" "der_depth x = depth"
          "len data \<le> MAX_DER_BYTES" "depth \<le> MAX_DER_DEPTH" "cursor \<le> n"
        using read [of x n] a(2) by auto
      have "len ys \<le> MAX_DER_CHILDREN" using xs(1,4) a(1) by (cases xs) auto
      moreover have "py_slice data cursor (len data) = concat (map der_bytes (x # xs))"
        using tail [OF rd(6,1)] rd(2) xs(2) by simp
      ultimately show ?R using xs(1,3) rd by auto
    next
      assume ?R
      then obtain x xs where xs: "ys = acc @ x # xs" "?P x xs" by blast
      define n where "n = cursor + len (der_bytes x)"
      have "len (py_slice data cursor (len data)) = len data - cursor" using True less(2) by (intro length_slice) simp_all
      then have n: "n \<le> len data" using xs(2) by (simp add: n_def)
      have "py_slice data cursor n = der_bytes x \<and> py_slice data n (len data) = concat (map der_bytes xs)"
      proof -
        have "len (py_slice data cursor n) = len (der_bytes x)"
          using n less(2) by (subst length_slice) (simp_all add: n_def)
        then show ?thesis using tail [of n] n xs(2) by (simp add: n_def append_eq_append_conv)
      qed
      then have r: "der_read data cursor depth = Inr (x, n)" "py_slice data n (len data) = concat (map der_bytes xs)"
        using xs(2) n by (simp_all add: read) (simp add: n_def)
      from ih [OF r(1)] r(2) xs have "children_loop data depth n (acc @ [x]) = Inr ys" by auto
      then show ?L using True r(1) xs by (subst children_loop.simps) auto
    qed
    also have "\<dots> \<longleftrightarrow> (\<exists>xs. ys = acc @ xs \<and> xs \<noteq> [] \<and> ?P (hd xs) (tl xs))"
      by (metis list.collapse list.distinct(1) list.sel(1,3))
    also have "\<dots> \<longleftrightarrow> (\<exists>xs. ys = acc @ xs \<and> py_slice data cursor (len data) = concat (map der_bytes xs) \<and>
      (\<forall>x \<in> set xs. der_depth x = depth) \<and>
      (xs \<noteq> [] \<longrightarrow> len data \<le> MAX_DER_BYTES \<and> depth \<le> MAX_DER_DEPTH \<and> len ys \<le> MAX_DER_CHILDREN))"
      using ne by (intro ex_cong1) (metis concat.simps(1) list.collapse list.map(1))
    finally show ?thesis .
  qed
qed

lemma children_iff:
  "children item = Inr cs \<longleftrightarrow>
     der_value item = concat (map der_bytes cs) \<and> (\<forall>c \<in> set cs. der_depth c = der_depth item + 1) \<and>
     der_depth item < MAX_DER_DEPTH \<and>
     (cs = [] \<or> (len (der_value item) \<le> MAX_DER_BYTES \<and> len cs \<le> MAX_DER_CHILDREN))"
  using children_loop_iff [of 0 "der_value item" "der_depth item + 1" "[]" cs]
  by (auto simp: children_def)

lemma children_encoded:
  assumes "v = concat (map (\<lambda>(t, w). encode_der t w) tvs)" "d < MAX_DER_DEPTH" "len v \<le> MAX_DER_BYTES" "len tvs \<le> MAX_DER_CHILDREN"
  shows "children \<lparr>der_tag = tag, der_value = v, der_depth = d\<rparr> =
    Inr (map (\<lambda>(t, w). \<lparr>der_tag = t, der_value = w, der_depth = d + 1\<rparr>) tvs)"
  using assms by (auto simp: children_iff der_bytes_def comp_def split_def)

text \<open>
  C36: the children of an object are exactly the objects that its value is the concatenation of: the
  reader returns a list precisely when that list, written out, is the value, and the nesting, the size and
  the number of children are within the limits. So a value has at most one reading, and what is read
  is not open to a second interpretation.
\<close>

theorem children_exact:
  "children item = Inr cs \<longleftrightarrow>
     der_value item = concat (map der_bytes cs) \<and> (\<forall>c \<in> set cs. der_depth c = der_depth item + 1) \<and>
     der_depth item < MAX_DER_DEPTH \<and>
     (cs = [] \<or> (len (der_value item) \<le> MAX_DER_BYTES \<and> len cs \<le> MAX_DER_CHILDREN))"
  by (rule children_iff)

theorem children_exact_witness:
  "children \<lparr>der_tag = 0x30, der_value = [0x05, 0, 0x04, 2, 7, 9], der_depth = 0\<rparr> =
     Inr [\<lparr>der_tag = 5, der_value = [], der_depth = 1\<rparr>, \<lparr>der_tag = 4, der_value = [7, 9], der_depth = 1\<rparr>]"
  by (simp add: children_exact der_bytes_def encode_der_def der_limits)

lemma der_read_whole:
  "der_read data 0 depth = Inr (item, end_off) \<longleftrightarrow>
     len data \<le> MAX_DER_BYTES \<and> depth \<le> MAX_DER_DEPTH \<and> der_depth item = depth \<and>
     (\<exists>rest. data = der_bytes item @ rest) \<and> end_off = len (der_bytes item)"
proof -
  have "end_off \<le> len data \<and> py_slice data 0 end_off = der_bytes item \<longleftrightarrow> (\<exists>rest. data = der_bytes item @ rest)"
    if e: "end_off = len (der_bytes item)"
  proof
    assume a: "end_off \<le> len data \<and> py_slice data 0 end_off = der_bytes item"
    have "data = py_slice data 0 end_off @ py_slice data end_off (len data)"
      using slice_append_slice [of 0 end_off "len data" data] a e by simp
    with a show "\<exists>rest. data = der_bytes item @ rest" by metis
  qed (use e in \<open>auto simp: slice_nonneg\<close>)
  with der_read_iff [of 0 data depth item end_off] show ?thesis by (auto simp: der_bytes_def)
qed

end
