(* ===== verification/Der_Oid.thy ===== *)
theory Der_Oid
  imports Der_Codec Json_Text
begin

text \<open>
  Object identifiers: \<^verbatim>\<open>der_oid\<close> and \<^verbatim>\<open>algorithm_oid\<close> of \<^verbatim>\<open>mkosi/private/secure_boot.py\<close>. Each dotted text has
  one encoding that is accepted, so comparing the text with a constant compares the bytes.
\<close>

section \<open>Reading\<close>

definition OID_SIGNED_DATA :: string where "OID_SIGNED_DATA = ''1.2.840.113549.1.7.2''"
definition OID_SPC_INDIRECT_DATA :: string where "OID_SPC_INDIRECT_DATA = ''1.3.6.1.4.1.311.2.1.4''"
definition OID_SHA256 :: string where "OID_SHA256 = ''2.16.840.1.101.3.4.2.1''"
definition OID_RSA :: "string list" where "OID_RSA = [''1.2.840.113549.1.1.1'', ''1.2.840.113549.1.1.11'']"

fun oid_loop :: "bytes \<Rightarrow> int \<Rightarrow> bool \<Rightarrow> int list \<Rightarrow> boot_error + int list \<times> bool" where
  "oid_loop [] v group_start subidentifiers = Inr (subidentifiers, group_start)"
| "oid_loop (byte # bs) v group_start subidentifiers =
     (if group_start \<and> byte = 0x80 then Inl (Boot_value ''nonminimal DER OID subidentifier'')
      else if v > push_bit 63 1 then Inl (Boot_value ''DER OID subidentifier is too large'')
      else
        let v' = push_bit 7 v OR (uint byte AND 0x7F)
        in if uint byte AND 0x80 = 0 then
          let subidentifiers' = subidentifiers @ [v']
          in if length subidentifiers' > 64 then Inl (Boot_value ''DER OID has too many arcs'')
          else oid_loop bs 0 True subidentifiers'
        else oid_loop bs v' False subidentifiers)"

definition first_arcs :: "int \<Rightarrow> int list" where
  "first_arcs first = (if first < 40 then [0, first] else if first < 80 then [1, first - 40] else [2, first - 80])"

definition der_oid :: "der \<Rightarrow> boot_error + string" where
  "der_oid item =
     (if der_tag item \<noteq> 0x06 \<or> der_value item = [] \<or> length (der_value item) > 256
      then Inl (Boot_value ''expected DER object identifier'')
      else
        rbind (oid_loop (der_value item) 0 True []) (\<lambda>(subidentifiers, group_start).
          if \<not> group_start then Inl (Boot_value ''truncated DER object identifier'')
          else
            case subidentifiers of
              [] \<Rightarrow> Inl Boot_index
            | first # rest \<Rightarrow> Inr (join_with ''.'' (map int_str (first_arcs first @ rest)))))"

definition algorithm_oid :: "der \<Rightarrow> boot_error + string" where
  "algorithm_oid item =
     rbind (children item) (\<lambda>cs.
       if der_tag item \<noteq> 0x30 \<or> cs = [] then Inl (Boot_value ''invalid AlgorithmIdentifier'')
       else der_oid (hd cs))"

section \<open>Subidentifiers\<close>

text \<open>Base 128 with the continuation bit on every digit but the last.\<close>

function continued :: "int \<Rightarrow> bytes" where
  "continued v = (if v \<le> 0 then [] else continued (v div 128) @ [word_of_int (128 + v mod 128)])"
  by pat_completeness auto

termination continued
  by (relation "measure nat") (auto simp: nat_less_eq_zless)

declare continued.simps [simp del]

definition subidentifier_bytes :: "int \<Rightarrow> bytes" where
  "subidentifier_bytes v = continued (v div 128) @ [word_of_int (v mod 128)]"

lemma oid_digit: "0 \<le> v \<Longrightarrow> push_bit 7 v OR (uint (b :: byte) AND 0x7F) = 128 * v + uint b mod 128"
proof -
  have "push_bit 7 v OR (uint b AND 0x7F) = push_bit 7 v + take_bit 7 (uint b)"
  proof -
    have "uint b AND 0x7F = take_bit 7 (uint b)" by (simp add: take_bit_eq_mask mask_eq_exp_minus_1)
    moreover have "push_bit 7 v AND take_bit 7 (uint b) = 0" by (intro bit_eqI) (auto simp: bit_simps)
    ultimately show ?thesis by (simp add: disjunctive_add_eq_or)
  qed
  also have "\<dots> = 128 * v + uint b mod 128" by (simp add: push_bit_eq_mult take_bit_eq_mod)
  finally show ?thesis .
qed

lemma continued_step:
  assumes "0 \<le> v" "0 \<le> d" "d < 128" "0 < 128 * v + d"
  shows "continued (128 * v + d) = continued v @ [word_of_int (128 + d)]"
proof -
  have "(128 * v + d) div 128 = v" "(128 * v + d) mod 128 = d" using assms by simp_all
  then show ?thesis using assms(4) by (simp add: continued.simps [of "128 * v + d"])
qed

lemma oid_loop_bytes:
  assumes "oid_loop bs v group_start subs = Inr (subs', True)" "0 \<le> v" "group_start \<longleftrightarrow> v = 0"
  shows "\<exists>vs. subs' = subs @ vs \<and> continued v @ bs = concat (map subidentifier_bytes vs) \<and> (\<forall>x \<in> set vs. 0 \<le> x)"
  using assms
proof (induction bs v group_start subs rule: oid_loop.induct)
  case (1 v group_start subs)
  then show ?case by (auto simp: continued.simps)
next
  case (2 byte bs v group_start subs)
  define d where "d = uint byte mod 128"
  define v' where "v' = 128 * v + d"
  have d: "0 \<le> d" "d < 128" by (simp_all add: d_def)
  have v': "push_bit 7 v OR (uint byte AND 0x7F) = v'" using 2(4) by (simp add: oid_digit v'_def d_def)
  have hi: "uint byte AND 0x80 = 0 \<longleftrightarrow> uint byte < 128" by (rule byte_high_bit(1) [OF uint_byte])
  have step: "\<not> (group_start \<and> byte = 0x80)" "\<not> v > push_bit 63 1" using 2(3) by (auto split: if_split_asm)
  show ?case
  proof (cases "uint byte < 128")
    case True
    then have db: "word_of_int d = byte" by (simp add: d_def)
    from True 2(3) step have r: "\<not> length (subs @ [v']) > 64" "oid_loop bs 0 True (subs @ [v']) = Inr (subs', True)"
      by (auto simp: v' hi Let_def split: if_split_asm)
    from 2(1) [OF step refl] hi True r v' obtain vs where vs: "subs' = (subs @ [v']) @ vs"
        "continued 0 @ bs = concat (map subidentifier_bytes vs)" "\<forall>x \<in> set vs. 0 \<le> x" by auto
    have "subidentifier_bytes v' = continued v @ [byte]" using d db by (simp add: subidentifier_bytes_def v'_def)
    then have "subs' = subs @ v' # vs" "continued v @ byte # bs = concat (map subidentifier_bytes (v' # vs))"
        "\<forall>x \<in> set (v' # vs). 0 \<le> x"
      using vs 2(4) d by (auto simp: v'_def continued.simps [of 0])
    then show ?thesis by blast
  next
    case False
    have b: "uint byte = 128 + d"
    proof -
      have "uint byte mod 128 = (uint byte - 128) mod 128" by simp
      also have "\<dots> = uint byte - 128" using False uint_byte(2) [of byte] by (intro mod_pos_pos_trivial) simp_all
      finally show ?thesis by (simp add: d_def)
    qed
    have "byte = 0x80" if "d = 0"
    proof -
      have "byte = word_of_int (uint byte)" by simp
      also have "\<dots> = 0x80" using b that by (simp only: add_0_right) simp
      finally show ?thesis .
    qed
    then have pos: "0 < v'" using step(1) 2(4,5) d by (cases "d = 0") (auto simp: v'_def)
    from False 2(3) step have r: "oid_loop bs v' False subs = Inr (subs', True)"
      by (auto simp: v' hi Let_def split: if_split_asm)
    from 2(2) [OF step refl] hi False r v' pos obtain vs where vs: "subs' = subs @ vs"
        "continued v' @ bs = concat (map subidentifier_bytes vs)" "\<forall>x \<in> set vs. 0 \<le> x" by auto
    have "word_of_int (128 + d) = byte" unfolding b [symmetric] by (rule word_of_int_uint)
    with continued_step [OF 2(4) d pos [unfolded v'_def]] have "continued v' = continued v @ [byte]"
      unfolding v'_def by (simp only:)
    with vs show ?thesis by auto
  qed
qed

section \<open>One encoding per identifier\<close>

lemma first_arcs_inj: "0 \<le> a \<Longrightarrow> 0 \<le> b \<Longrightarrow> first_arcs a = first_arcs b \<Longrightarrow> a = b"
  by (auto simp: first_arcs_def split: if_split_asm)

lemma der_oid_Inr:
  assumes "der_oid item = Inr t"
  obtains first rest where "der_tag item = 0x06" "der_value item = concat (map subidentifier_bytes (first # rest))"
    "t = join_with ''.'' (map int_str (first_arcs first @ rest))" "0 \<le> first" "\<And>x. x \<in> set rest \<Longrightarrow> 0 \<le> x"
proof -
  from assms obtain subs where s: "der_tag item = 0x06" "der_value item \<noteq> []"
      "oid_loop (der_value item) 0 True [] = Inr (subs, True)"
      "(case subs of [] \<Rightarrow> Inl Boot_index | first # rest \<Rightarrow> Inr (join_with ''.'' (map int_str (first_arcs first @ rest)))) = Inr t"
    by (auto simp: der_oid_def split: if_split_asm)
  from oid_loop_bytes [OF s(3)] have v: "der_value item = concat (map subidentifier_bytes subs)" "\<forall>x \<in> set subs. 0 \<le> x"
    by (auto simp: continued.simps [of 0])
  obtain first rest where f: "subs = first # rest" using v(1) s(2) by (cases subs) auto
  show ?thesis using that [of first rest] s v f by simp
qed

text \<open>
  An object identifier has one accepted encoding. Two objects that \<^verbatim>\<open>der_oid\<close> turns into the same dotted
  text have the same tag and the same bytes, so the comparisons of the script with its constants cannot
  be met by a padded or otherwise redundant encoding.
\<close>

theorem der_oid_unique:
  assumes "der_oid x = Inr t" "der_oid y = Inr t"
  shows "der_tag x = der_tag y \<and> der_value x = der_value y"
proof -
  from assms(1) obtain a as where a: "der_tag x = 0x06" "der_value x = concat (map subidentifier_bytes (a # as))"
    "t = join_with ''.'' (map int_str (first_arcs a @ as))" "0 \<le> a" "\<And>v. v \<in> set as \<Longrightarrow> 0 \<le> v" by (rule der_oid_Inr) blast
  from assms(2) obtain b bs where b: "der_tag y = 0x06" "der_value y = concat (map subidentifier_bytes (b # bs))"
    "t = join_with ''.'' (map int_str (first_arcs b @ bs))" "0 \<le> b" "\<And>v. v \<in> set bs \<Longrightarrow> 0 \<le> v" by (rule der_oid_Inr) blast
  have "first_arcs a @ as = first_arcs b @ bs"
    using a(3-5) b(3-5) by (intro dotted_inj) (auto simp: first_arcs_def split: if_split_asm)
  moreover have "length (first_arcs a) = length (first_arcs b)" by (simp add: first_arcs_def)
  ultimately have "a = b" "as = bs" using first_arcs_inj [OF a(4) b(4)] by (simp_all add: append_eq_append_conv)
  with a b show ?thesis by simp
qed

theorem der_oid_unique_witness:
  "der_oid \<lparr>der_tag = 6, der_value = [0x60, 0x86, 0x48, 1, 0x65, 3, 4, 2, 1], der_depth = 0\<rparr> = Inr OID_SHA256 \<and>
   der_value \<lparr>der_tag = 6, der_value = [0x60, 0x86, 0x48, 1, 0x65, 3, 4, 2, 1], der_depth = 3\<rparr> =
   der_value \<lparr>der_tag = 6, der_value = [0x60, 0x86, 0x48, 1, 0x65, 3, 4, 2, 1], der_depth = 0\<rparr>"
proof -
  have o: "der_oid \<lparr>der_tag = 6, der_value = [0x60, 0x86, 0x48, 1, 0x65, 3, 4, 2, 1], der_depth = 0\<rparr> = Inr OID_SHA256"
    "der_oid \<lparr>der_tag = 6, der_value = [0x60, 0x86, 0x48, 1, 0x65, 3, 4, 2, 1], der_depth = 3\<rparr> = Inr OID_SHA256"
    by code_simp+
  show ?thesis using o(1) der_oid_unique [OF o(2) o(1)] by blast
qed

end
