(* ===== verification/Pe_Image.thy ===== *)
theory Pe_Image
  imports Der_Oid
begin

text \<open>
  PE/COFF images and their Authenticode certificate table: \<^verbatim>\<open>parse_pe\<close> and its helpers,
  \<^verbatim>\<open>authenticode_payload\<close>, \<^verbatim>\<open>prove_equivalence\<close> and \<^verbatim>\<open>authenticode_hash\<close> of \<^verbatim>\<open>mkosi/private/secure_boot.py\<close>.
\<close>

section \<open>Headers\<close>

text \<open>
  \<^verbatim>\<open>struct.unpack_from\<close> of one little-endian field; a field that does not lie within the buffer is a
  \<^verbatim>\<open>struct.error\<close>, which is not a \<^verbatim>\<open>ValueError\<close>. No offset of the script is negative.
\<close>

definition struct_at :: "bytes \<Rightarrow> int \<Rightarrow> int \<Rightarrow> boot_error + int" where
  "struct_at data off n = (if 0 \<le> off \<and> off + n \<le> len data then Inr (le_at data off n) else Inl Boot_struct)"

definition MZ_MAGIC :: bytes where "MZ_MAGIC = [0x4D, 0x5A]"
definition PE_MAGIC :: bytes where "PE_MAGIC = [0x50, 0x45, 0, 0]"

definition pe_optional_header :: "bytes \<Rightarrow> boot_error + int \<times> int \<times> int \<times> int" where
  "pe_optional_header data =
     (if len data < 64 \<or> py_slice data 0 2 \<noteq> MZ_MAGIC then Inl (Boot_value ''UKI is not a PE/COFF image'')
      else
        rbind (struct_at data 0x3C 4) (\<lambda>pe.
          if pe > len data - 24 \<or> py_slice data pe (pe + 4) \<noteq> PE_MAGIC then Inl (Boot_value ''invalid PE header bounds'')
          else
            let optional = pe + 24
            in rbind (struct_at data (pe + 6) 2) (\<lambda>section_count.
               rbind (struct_at data (pe + 20) 2) (\<lambda>optional_size.
                 if section_count = 0 \<or> section_count > 96 then Inl (Boot_value ''invalid PE section count'')
                 else if optional + optional_size > len data then Inl (Boot_value ''PE optional header is out of bounds'')
                 else
                   rbind (struct_at data optional 2) (\<lambda>magic.
                     let fixed_size = (if magic = 0x20B then 112 else if magic = 0x10B then 96 else - 1)
                     in if fixed_size < 0 \<or> optional_size < fixed_size
                     then Inl (Boot_value ''invalid PE optional header magic or size'')
                     else Inr (optional, optional_size, fixed_size, section_count))))))"

definition security_directory :: "bytes \<Rightarrow> int \<Rightarrow> int \<Rightarrow> int \<Rightarrow> boot_error + int" where
  "security_directory data optional optional_size fixed_size =
     (let directory = optional + fixed_size
      in rbind (struct_at data (optional + fixed_size - 4) 4) (\<lambda>directory_count.
        if directory_count < 5 then Inl (Boot_value ''PE has fewer than five data directories'')
        else if directory + directory_count * 8 > optional + optional_size
        then Inl (Boot_value ''PE security directory is unavailable'')
        else Inr (directory + 32)))"

definition header_layout :: "bytes \<Rightarrow> int \<Rightarrow> int \<Rightarrow> int \<Rightarrow> boot_error + int \<times> int \<times> int" where
  "header_layout data optional optional_size section_count =
     rbind (struct_at data (optional + 36) 4) (\<lambda>file_alignment.
     rbind (struct_at data (optional + 60) 4) (\<lambda>size_headers.
       if file_alignment < 0x200 \<or> file_alignment AND (file_alignment - 1) \<noteq> 0
       then Inl (Boot_value ''invalid PE FileAlignment'')
       else
         let section_table = optional + optional_size;
             section_table_end = section_table + section_count * 40
         in if section_table_end > len data \<or> size_headers < section_table_end \<or> size_headers > len data
         then Inl (Boot_value ''invalid PE section table or SizeOfHeaders'')
         else if size_headers mod file_alignment \<noteq> 0 then Inl (Boot_value ''PE SizeOfHeaders is not file aligned'')
         else Inr (section_table, size_headers, file_alignment)))"

text \<open>One turn of the loop over the section table: the raw data of the section, if it has any.\<close>

definition section_range :: "bytes \<Rightarrow> int \<Rightarrow> int \<Rightarrow> int \<Rightarrow> int \<Rightarrow> boot_error + (int \<times> int) list" where
  "section_range data section_table size_headers file_alignment index =
     (let sect = section_table + index * 40
      in rbind (struct_at data (sect + 16) 4) (\<lambda>raw_size.
         rbind (struct_at data (sect + 20) 4) (\<lambda>raw_offset.
           if raw_size = 0 then Inr []
           else if raw_offset < size_headers \<or> raw_offset mod file_alignment \<noteq> 0 \<or> raw_offset + raw_size > len data
           then Inl (Boot_value ''PE section raw data is out of bounds'')
           else Inr [(raw_offset, raw_size)])))"

fun check_overlaps :: "(int \<times> int) list \<Rightarrow> boot_error + unit" where
  "check_overlaps (previous # current # rest) =
     (if fst previous + snd previous > fst current then Inl (Boot_value ''PE section raw data overlaps'')
      else check_overlaps (current # rest))"
| "check_overlaps _ = Inr ()"

definition section_ranges :: "bytes \<Rightarrow> int \<Rightarrow> int \<Rightarrow> int \<Rightarrow> int \<Rightarrow> boot_error + (int \<times> int) list" where
  "section_ranges data section_table section_count size_headers file_alignment =
     rbind (rmap (section_range data section_table size_headers file_alignment) (py_range 0 section_count 1)) (\<lambda>found.
       let sections = sort (concat found)
       in rbind (check_overlaps sections) (\<lambda>_. Inr sections))"

definition certificate_table :: "bytes \<Rightarrow> int \<Rightarrow> bool \<Rightarrow> boot_error + int \<times> int" where
  "certificate_table data directory is_signed =
     rbind (struct_at data directory 4) (\<lambda>certificate_offset.
     rbind (struct_at data (directory + 4) 4) (\<lambda>certificate_size.
       if is_signed then
         if certificate_offset = 0 \<or> certificate_offset mod 8 \<noteq> 0 \<or> certificate_size < 8
         then Inl (Boot_value ''missing or unaligned Authenticode certificate table'')
         else if certificate_offset + certificate_size \<noteq> len data
         then Inl (Boot_value ''certificate table bounds or trailing data are invalid'')
         else Inr (certificate_offset, certificate_size)
       else if certificate_offset \<noteq> 0 \<or> certificate_size \<noteq> 0
       then Inl (Boot_value ''requested UKI is already signed'')
       else Inr (certificate_offset, certificate_size)))"

record pe_layout =
  certificate_offset :: int
  certificate_size :: int
  checksum :: int
  security :: int
  sections :: "(int \<times> int) list"
  size_headers :: int

definition parse_pe :: "bytes \<Rightarrow> bool \<Rightarrow> boot_error + pe_layout" where
  "parse_pe data is_signed =
     rbind (pe_optional_header data) (\<lambda>(optional, optional_size, fixed_size, section_count).
     rbind (security_directory data optional optional_size fixed_size) (\<lambda>directory.
     rbind (header_layout data optional optional_size section_count) (\<lambda>(section_table, headers, file_alignment).
     rbind (section_ranges data section_table section_count headers file_alignment) (\<lambda>ranges.
     rbind (certificate_table data directory is_signed) (\<lambda>(table_offset, table_size).
       Inr \<lparr>certificate_offset = table_offset, certificate_size = table_size, checksum = optional + 64,
         security = directory, sections = ranges, size_headers = headers\<rparr>)))))"

definition is_pe :: "bytes \<Rightarrow> bool" where
  "is_pe data \<longleftrightarrow> \<not> isl (pe_optional_header data)"

section \<open>The certificate table\<close>

definition der_object :: "bytes \<Rightarrow> boot_error + bytes" where
  "der_object data =
     rbind (der_read data 0 0) (\<lambda>(item, end_off).
       if der_tag item \<noteq> 0x30 then Inl (Boot_value ''Authenticode payload is not DER SignedData'')
       else if \<exists>b \<in> set (py_slice data end_off (len data)). b \<noteq> 0
       then Inl (Boot_value ''invalid Authenticode DER bounds or padding'')
       else Inr (py_slice data 0 end_off))"

text \<open>One turn of the loop over the table: the certificate at \<open>cursor\<close> and the offset of the next.\<close>

definition win_certificate :: "bytes \<Rightarrow> int \<Rightarrow> int \<Rightarrow> boot_error + bytes \<times> int" where
  "win_certificate data end_off cursor =
     (if end_off - cursor < 8 then Inl (Boot_value ''truncated WIN_CERTIFICATE header'')
      else
        rbind (struct_at data cursor 4) (\<lambda>n.
        rbind (struct_at data (cursor + 4) 2) (\<lambda>revision.
        rbind (struct_at data (cursor + 6) 2) (\<lambda>certificate_type.
          if n < 8 \<or> cursor + n > end_off then Inl (Boot_value ''WIN_CERTIFICATE is out of bounds'')
          else if revision \<noteq> 0x200 \<or> certificate_type \<noteq> 2 then Inl (Boot_value ''unsupported WIN_CERTIFICATE structure'')
          else
            rbind (der_object (py_slice data (cursor + 8) (cursor + n))) (\<lambda>der.
              let aligned = (n + 7) AND NOT 7
              in if cursor + aligned > end_off \<or> (\<exists>b \<in> set (py_slice data (cursor + n) (cursor + aligned)). b \<noteq> 0)
              then Inl (Boot_value ''invalid WIN_CERTIFICATE padding'')
              else Inr (der, cursor + aligned))))))"

lemma and_not_mask: "(x :: int) AND NOT (mask k) = push_bit k (drop_bit k x)"
  by (intro bit_eqI) (auto simp: bit_simps)

lemma align8 [simp]: "(x :: int) AND - 8 = 8 * (x div 8)"
  using and_not_mask [of x 3] by (simp add: push_bit_eq_mult drop_bit_eq_div mask_eq_exp_minus_1)

lemma win_certificate_forward:
  assumes "win_certificate data end_off cursor = Inr (der, next_off)"
  shows "cursor < next_off \<and> next_off \<le> end_off"
proof -
  define n where "n = le_at data cursor 4"
  from assms have "8 \<le> n" "next_off = cursor + 8 * ((n + 7) div 8)" "next_off \<le> end_off"
    by (auto simp: n_def win_certificate_def struct_at_def Let_def split: if_split_asm)
  then show ?thesis by linarith
qed

function payload_loop :: "bytes \<Rightarrow> int \<Rightarrow> int \<Rightarrow> bytes list \<Rightarrow> boot_error + bytes list \<times> int" where
  "payload_loop data end_off cursor certificates =
     (if cursor < end_off then
        rbind (win_certificate data end_off cursor) (\<lambda>(der, next_off).
          payload_loop data end_off next_off (certificates @ [der]))
      else Inr (certificates, cursor))"
  by pat_completeness auto

termination payload_loop
  by (relation "measure (\<lambda>(data, end_off, cursor, certificates). nat (end_off - cursor))")
    (auto dest: win_certificate_forward)

declare payload_loop.simps [simp del]

definition authenticode_payload :: "bytes \<Rightarrow> int \<Rightarrow> int \<Rightarrow> boot_error + bytes" where
  "authenticode_payload data table_offset table_size =
     rbind (payload_loop data (table_offset + table_size) table_offset []) (\<lambda>(certificates, cursor).
       if cursor \<noteq> table_offset + table_size \<or> length certificates \<noteq> 1
       then Inl (Boot_value ''ambiguous or duplicate Authenticode certificate table'')
       else Inr (hd certificates))"

definition embedded_authenticode :: "bytes \<Rightarrow> boot_error + bytes" where
  "embedded_authenticode data =
     rbind (parse_pe data True) (\<lambda>layout.
       authenticode_payload data (certificate_offset layout) (certificate_size layout))"

section \<open>Signed and unsigned images\<close>

definition prove_equivalence :: "bytes \<Rightarrow> bytes \<Rightarrow> boot_error + bytes" where
  "prove_equivalence unsigned_data signed_data =
     rbind (parse_pe unsigned_data False) (\<lambda>unsigned.
     rbind (parse_pe signed_data True) (\<lambda>signed.
       if (checksum unsigned, security unsigned) \<noteq> (checksum signed, security signed)
       then Inl (Boot_value ''PE layouts differ'')
       else
         let table_offset = certificate_offset signed; table_size = certificate_size signed
         in if table_offset < len unsigned_data then Inl (Boot_value ''Authenticode table overlaps requested UKI'')
         else
           let signed_prefix = py_slice signed_data 0 (len unsigned_data);
               copied = foldl (\<lambda>prefix (offset, n).
                 slice_assign prefix offset (offset + n) (py_slice unsigned_data offset (offset + n))) signed_prefix
                 [(checksum unsigned, 4), (security unsigned, 8)]
           in if copied \<noteq> unsigned_data then Inl (Boot_value ''signed UKI differs from requested unsigned UKI'')
           else if \<exists>b \<in> set (py_slice signed_data (len unsigned_data) table_offset). b \<noteq> 0
           then Inl (Boot_value ''nonzero data inserted before Authenticode table'')
           else authenticode_payload signed_data table_offset table_size))"

text \<open>
  The bytes that \<^verbatim>\<open>authenticode_hash\<close> feeds to the digest, in order: the headers without the checksum and
  the security directory, the sections, and what is left before the certificate table.
\<close>

fun hashed_sections :: "bytes \<Rightarrow> (int \<times> int) list \<Rightarrow> int \<Rightarrow> boot_error + bytes \<times> int" where
  "hashed_sections data [] end_off = Inr ([], end_off)"
| "hashed_sections data ((offset, n) # rest) end_off =
     (if offset < end_off then Inl (Boot_value ''PE section order overlaps hashed content'')
      else
        rbind (hashed_sections data rest (offset + n)) (\<lambda>(bs, end_off').
          Inr (py_slice data offset (offset + n) @ bs, end_off')))"

definition hashed_content :: "bytes \<Rightarrow> pe_layout \<Rightarrow> boot_error + bytes" where
  "hashed_content data pe =
     rbind (hashed_sections data (sections pe) (size_headers pe)) (\<lambda>(bs, end_off).
       let table_offset = (if certificate_offset pe = 0 then len data else certificate_offset pe)
       in if end_off > table_offset then Inl (Boot_value ''certificate table overlaps PE content'')
       else Inr (py_slice data 0 (checksum pe) @ py_slice data (checksum pe + 4) (security pe)
         @ py_slice data (security pe + 8) (size_headers pe) @ bs @ py_slice data end_off table_offset))"

definition authenticode_hash :: "(bytes \<Rightarrow> bytes) \<Rightarrow> bytes \<Rightarrow> pe_layout \<Rightarrow> boot_error + bytes" where
  "authenticode_hash sha256 data pe = rbind (hashed_content data pe) (\<lambda>hashed. Inr (sha256 hashed))"

section \<open>Accepted headers\<close>

lemma struct_at_Inr [simp]: "struct_at data off n = Inr v \<longleftrightarrow> 0 \<le> off \<and> off + n \<le> len data \<and> v = le_at data off n"
  by (auto simp: struct_at_def)

lemma pe_optional_header_Inr:
  assumes "pe_optional_header data = Inr (optional, optional_size, fixed_size, section_count)"
  shows "64 \<le> len data" "optional = le_at data 0x3C 4 + 24" "section_count = le_at data (optional - 18) 2"
    "optional_size = le_at data (optional - 4) 2" "optional + optional_size \<le> len data"
    "fixed_size = (if le_at data optional 2 = 0x20B then 112 else 96)" "fixed_size \<le> optional_size"
    "1 \<le> section_count" "section_count \<le> 96" "24 \<le> optional"
  using assms le_at_nonneg [of data "optional - 18" 2] le_at_nonneg [of data 60 4]
  by (auto simp: pe_optional_header_def Let_def algebra_simps split: if_split_asm simp del: le_at_nonneg)

lemma security_directory_Inr:
  assumes "security_directory data optional optional_size fixed_size = Inr directory"
  shows "directory = optional + fixed_size + 32" "directory + 8 \<le> optional + optional_size"
  using assms by (auto simp: security_directory_def Let_def split: if_split_asm)

lemma header_layout_Inr:
  assumes "header_layout data optional optional_size section_count = Inr (section_table, headers, file_alignment)"
  shows "section_table = optional + optional_size" "headers = le_at data (optional + 60) 4"
    "file_alignment = le_at data (optional + 36) 4" "section_table + section_count * 40 \<le> headers" "headers \<le> len data"
  using assms by (auto simp: header_layout_def Let_def split: if_split_asm)

lemma section_range_Inr:
  assumes "section_range data section_table headers file_alignment index = Inr found" "(off, n) \<in> set found"
  shows "headers \<le> off" "0 < n" "off + n \<le> len data"
  using assms le_at_nonneg [of data "section_table + index * 40 + 16" 4]
  by (auto simp: section_range_def Let_def split: if_split_asm simp del: le_at_nonneg)

fun disjoint_from :: "int \<Rightarrow> (int \<times> int) list \<Rightarrow> bool" where
  "disjoint_from start [] \<longleftrightarrow> True"
| "disjoint_from start ((off, n) # rest) \<longleftrightarrow> start \<le> off \<and> disjoint_from (off + n) rest"

lemma disjoint_from_single: "disjoint_from start [p] \<longleftrightarrow> start \<le> fst p"
  by (cases p) simp

lemma check_overlaps_disjoint:
  "check_overlaps xs = Inr u \<Longrightarrow> xs = [] \<or> start \<le> fst (hd xs) \<Longrightarrow> disjoint_from start xs"
proof (induction xs arbitrary: start rule: check_overlaps.induct)
  case (1 previous current rest)
  then have "fst previous + snd previous \<le> fst current" "check_overlaps (current # rest) = Inr u"
    by (auto split: if_split_asm)
  with 1 have "disjoint_from (fst previous + snd previous) (current # rest)" by simp
  with 1(3) show ?case by (cases previous) simp
qed (auto simp: disjoint_from_single)

lemma section_ranges_Inr:
  assumes "section_ranges data section_table section_count headers file_alignment = Inr ranges"
  shows "\<And>off n. (off, n) \<in> set ranges \<Longrightarrow> headers \<le> off \<and> 0 < n \<and> off + n \<le> len data"
    "disjoint_from headers ranges"
proof -
  from assms obtain found where f: "rmap (section_range data section_table headers file_alignment) (py_range 0 section_count 1) = Inr found"
      "ranges = sort (concat found)" "check_overlaps ranges = Inr ()"
    by (auto simp: section_ranges_def Let_def)
  show r: "headers \<le> off \<and> 0 < n \<and> off + n \<le> len data" if "(off, n) \<in> set ranges" for off n
  proof -
    from that f(2) obtain xs where xs: "xs \<in> set found" "(off, n) \<in> set xs" by auto
    from list_all2_right [OF f(1) [unfolded rmap_Inr_iff] xs(1)] obtain index
      where "section_range data section_table headers file_alignment index = Inr xs" by blast
    from section_range_Inr [OF this xs(2)] show ?thesis by simp
  qed
  have "ranges = [] \<or> headers \<le> fst (hd ranges)"
    using r [of "fst (hd ranges)" "snd (hd ranges)"] by (cases ranges) simp_all
  then show "disjoint_from headers ranges" using f(3) by (rule check_overlaps_disjoint [rotated])
qed

lemma hashed_sections_disjoint:
  assumes "disjoint_from start ranges" "start \<le> limit"
    "\<And>off n. (off, n) \<in> set ranges \<Longrightarrow> 0 < n \<and> off + n \<le> limit"
  shows "\<exists>bs end_off. hashed_sections data ranges start = Inr (bs, end_off) \<and> start \<le> end_off \<and> end_off \<le> limit"
  using assms
proof (induction data ranges start rule: hashed_sections.induct)
  case (2 data offset n rest end_off)
  have n: "0 < n" "offset + n \<le> limit" using 2(4) [of offset n] by simp_all
  from 2(2) have lt: "\<not> offset < end_off" and d: "disjoint_from (offset + n) rest" by simp_all
  from 2(1) [OF lt d n(2)] 2(4) obtain bs e where "hashed_sections data rest (offset + n) = Inr (bs, e)"
    "offset + n \<le> e" "e \<le> limit" by auto
  with lt n show ?case by simp
qed simp

lemma parse_pe_Inr:
  assumes "parse_pe data is_signed = Inr pe"
  obtains optional optional_size fixed_size section_count section_table file_alignment where
    "pe_optional_header data = Inr (optional, optional_size, fixed_size, section_count)"
    "security_directory data optional optional_size fixed_size = Inr (security pe)"
    "header_layout data optional optional_size section_count = Inr (section_table, size_headers pe, file_alignment)"
    "section_ranges data section_table section_count (size_headers pe) file_alignment = Inr (sections pe)"
    "certificate_table data (security pe) is_signed = Inr (certificate_offset pe, certificate_size pe)"
    "checksum pe = optional + 64"
  using assms by (auto simp: parse_pe_def)

lemma parse_pe_layout:
  assumes "parse_pe data is_signed = Inr pe"
  shows "88 \<le> checksum pe" "checksum pe + 4 \<le> security pe" "security pe + 8 \<le> size_headers pe"
    "size_headers pe \<le> len data" "disjoint_from (size_headers pe) (sections pe)"
    "\<And>off n. (off, n) \<in> set (sections pe) \<Longrightarrow> size_headers pe \<le> off \<and> 0 < n \<and> off + n \<le> len data"
proof -
  from assms obtain optional optional_size fixed_size section_count section_table file_alignment where p:
    "pe_optional_header data = Inr (optional, optional_size, fixed_size, section_count)"
    "security_directory data optional optional_size fixed_size = Inr (security pe)"
    "header_layout data optional optional_size section_count = Inr (section_table, size_headers pe, file_alignment)"
    "section_ranges data section_table section_count (size_headers pe) file_alignment = Inr (sections pe)"
    "checksum pe = optional + 64" by (rule parse_pe_Inr)
  note o = pe_optional_header_Inr [OF p(1)] and d = security_directory_Inr [OF p(2)]
    and h = header_layout_Inr [OF p(3)] and r = section_ranges_Inr [OF p(4)]
  have f: "96 \<le> fixed_size" using o(6) by simp
  show "88 \<le> checksum pe" "checksum pe + 4 \<le> security pe" using o(10) p(5) d(1) f by simp_all
  show "security pe + 8 \<le> size_headers pe" using d(2) h(1,4) o(8) by linarith
  show "size_headers pe \<le> len data" by (rule h(5))
  show "disjoint_from (size_headers pe) (sections pe)" by (rule r(2))
  show "size_headers pe \<le> off \<and> 0 < n \<and> off + n \<le> len data" if "(off, n) \<in> set (sections pe)" for off n
    using that by (rule r(1))
qed

section \<open>Images that differ only where a signature differs\<close>

definition agree :: "bytes \<Rightarrow> bytes \<Rightarrow> int \<Rightarrow> int \<Rightarrow> bool" where
  "agree u s a b \<longleftrightarrow> len u \<le> len s \<and>
     (\<forall>i < length u. \<not> (a \<le> int i \<and> int i < a + 4) \<longrightarrow> \<not> (b \<le> int i \<and> int i < b + 8) \<longrightarrow> s ! i = u ! i)"

lemma agree_slice:
  assumes "agree u s a b" "0 \<le> x" "x \<le> y" "y \<le> len u" "y \<le> a \<or> a + 4 \<le> x" "y \<le> b \<or> b + 8 \<le> x"
  shows "py_slice s x y = py_slice u x y"
proof (rule nth_equalityI)
  have l: "y \<le> len s" using assms(1,4) by (simp add: agree_def)
  then show "length (py_slice s x y) = length (py_slice u x y)" using assms by (simp add: length_slice_nat)
  fix i assume "i < length (py_slice s x y)"
  then have i: "int i < y - x" using l assms by (simp add: length_slice_nat)
  have "nat x + i < length u" "\<not> (a \<le> int (nat x + i) \<and> int (nat x + i) < a + 4)"
      "\<not> (b \<le> int (nat x + i) \<and> int (nat x + i) < b + 8)"
    using i assms by linarith+
  then have "s ! (nat x + i) = u ! (nat x + i)" using assms(1) unfolding agree_def by blast
  then show "py_slice s x y ! i = py_slice u x y ! i" using i l assms by (simp add: nth_slice)
qed

lemma agree_le_at:
  assumes "agree u s a b" "0 \<le> x" "0 \<le> n" "x + n \<le> len u" "x + n \<le> a \<or> a + 4 \<le> x" "x + n \<le> b \<or> b + 8 \<le> x"
  shows "le_at s x n = le_at u x n"
  unfolding le_at_def using agree_slice [OF assms(1,2), of "x + n"] assms by simp

lemma rmap_unique:
  assumes "rmap f xs = Inr ys" "rmap g xs = Inr zs" "\<And>x y z. x \<in> set xs \<Longrightarrow> f x = Inr y \<Longrightarrow> g x = Inr z \<Longrightarrow> y = z"
  shows "ys = zs"
  using assms
proof (induction xs arbitrary: ys zs)
  case (Cons x xs)
  from Cons.prems(1,2) obtain y ys' z zs' where p: "f x = Inr y" "rmap f xs = Inr ys'" "ys = y # ys'"
    "g x = Inr z" "rmap g xs = Inr zs'" "zs = z # zs'" by auto
  have "y = z" using p(1,4) by (intro Cons.prems(3) [of x]) simp_all
  moreover have "ys' = zs'" using p(2,5) by (rule Cons.IH) (use Cons.prems(3) in \<open>meson list.set_intros(2)\<close>)
  ultimately show ?case using p by simp
qed simp

lemma rmap_Inl: "rmap f xs = Inl e \<Longrightarrow> \<exists>x \<in> set xs. f x = Inl e"
  by (induction xs) (auto simp: rbind_eq_Inl)

lemma section_ranges_agree:
  assumes "section_ranges u section_table section_count headers file_alignment = Inr ru"
    "section_ranges s section_table section_count headers file_alignment = Inr rs"
    "agree u s a b" "b + 8 \<le> section_table" "a + 4 \<le> section_table"
  shows "rs = ru"
proof -
  have same: "found = found'" if i: "index \<in> set (py_range 0 section_count 1)"
    and f: "section_range u section_table headers file_alignment index = Inr found"
    "section_range s section_table headers file_alignment index = Inr found'" for index found found'
  proof -
    have "0 \<le> index" using set_py_range [OF _ i] by simp
    then have "le_at s (section_table + index * 40 + k) 4 = le_at u (section_table + index * 40 + k) 4"
      if "16 \<le> k" "section_table + index * 40 + k + 4 \<le> len u" "0 \<le> section_table + index * 40 + k" for k
      using that assms(3-5) by (intro agree_le_at [of u s a b]) simp_all
    from this [of 16] this [of 20] f show ?thesis
      by (auto simp: section_range_def Let_def split: if_split_asm)
  qed
  from assms(1,2) obtain fu fs where
      f: "rmap (section_range u section_table headers file_alignment) (py_range 0 section_count 1) = Inr fu"
        "rmap (section_range s section_table headers file_alignment) (py_range 0 section_count 1) = Inr fs"
      and r: "ru = sort (concat fu)" "rs = sort (concat fs)"
    by (auto simp: section_ranges_def Let_def)
  have "fu = fs" using f same by (rule rmap_unique)
  with r show ?thesis by simp
qed

lemma parse_pe_agree:
  assumes u: "parse_pe u False = Inr pu" and s: "parse_pe s True = Inr ps" and ag: "agree u s (checksum pu) (security pu)"
  shows "checksum ps = checksum pu" "security ps = security pu" "size_headers ps = size_headers pu" "sections ps = sections pu"
proof -
  from u obtain o1 z1 f1 n1 t1 a1 where pu:
    "pe_optional_header u = Inr (o1, z1, f1, n1)" "security_directory u o1 z1 f1 = Inr (security pu)"
    "header_layout u o1 z1 n1 = Inr (t1, size_headers pu, a1)"
    "section_ranges u t1 n1 (size_headers pu) a1 = Inr (sections pu)" "checksum pu = o1 + 64"
    by (rule parse_pe_Inr)
  from s obtain o2 z2 f2 n2 t2 a2 where ps:
    "pe_optional_header s = Inr (o2, z2, f2, n2)" "security_directory s o2 z2 f2 = Inr (security ps)"
    "header_layout s o2 z2 n2 = Inr (t2, size_headers ps, a2)"
    "section_ranges s t2 n2 (size_headers ps) a2 = Inr (sections ps)" "checksum ps = o2 + 64"
    by (rule parse_pe_Inr)
  note hu = pe_optional_header_Inr [OF pu(1)] and hs = pe_optional_header_Inr [OF ps(1)]
  note du = security_directory_Inr [OF pu(2)] and ds = security_directory_Inr [OF ps(2)]
  note lu = header_layout_Inr [OF pu(3)] and ls = header_layout_Inr [OF ps(3)]
  have f1: "96 \<le> f1" using hu(6) by simp
  have field: "le_at s x n = le_at u x n" if "0 \<le> x" "0 \<le> n" "x + n \<le> o1 + 64" for x n
    using that f1 du hu(5,7) pu(5) by (intro agree_le_at [OF ag]) simp_all
  have o: "o2 = o1" using hu(2,10) hs(2) field [of 60 4] by simp
  have n: "n2 = n1" and z: "z2 = z1" using hu(3,4,10) hs(3,4) field [of "o1 - 18" 2] field [of "o1 - 4" 2] o by simp_all
  have f: "f2 = f1" using hu(6,10) hs(6) field [of o1 2] o by simp
  show "checksum ps = checksum pu" using o pu(5) ps(5) by simp
  show sd: "security ps = security pu" using du(1) ds(1) o f by simp
  have t: "t2 = t1" using lu(1) ls(1) o z by simp
  have a: "a2 = a1" using lu(3) ls(3) o field [of "o1 + 36" 4] hu(10) by simp
  show h: "size_headers ps = size_headers pu" using lu(2) ls(2) o field [of "o1 + 60" 4] hu(10) by simp
  show "sections ps = sections pu"
    using pu(4) ps(4) [unfolded t n h a] ag
    by (rule section_ranges_agree) (use du f1 pu(5) lu(1) in simp_all)
qed

lemma hashed_sections_agree:
  assumes "agree u s a b" "\<And>off n. (off, n) \<in> set ranges \<Longrightarrow> start \<le> off \<and> 0 < n \<and> off + n \<le> len u"
    "a + 4 \<le> start" "b + 8 \<le> start" "0 \<le> start"
  shows "hashed_sections s ranges e = hashed_sections u ranges e"
  using assms(2)
proof (induction ranges arbitrary: e)
  case (Cons p ranges)
  obtain off n where p: "p = (off, n)" by fastforce
  have "py_slice s off (off + n) = py_slice u off (off + n)"
    using Cons.prems [of off n] assms(1,3-5) by (intro agree_slice [of u s a b]) (auto simp: p)
  moreover have "hashed_sections s ranges (off + n) = hashed_sections u ranges (off + n)"
    by (rule Cons.IH) (rule Cons.prems, simp)
  ultimately show ?case by (simp add: p)
qed simp

text \<open>
  What is hashed of the signed image: the bytes that are hashed of the unsigned image, followed by the
  bytes that stand between its end and the certificate table.
\<close>

lemma hashed_content_signed:
  assumes u: "parse_pe u False = Inr pu" and s: "parse_pe s True = Inr ps"
    and ag: "agree u s (checksum pu) (security pu)" and t: "len u \<le> certificate_offset ps"
  shows "\<exists>c. hashed_content u pu = Inr c \<and> hashed_content s ps = Inr (c @ py_slice s (len u) (certificate_offset ps))"
proof -
  note e = parse_pe_agree [OF u s ag] and l = parse_pe_layout [OF u]
  have cu: "certificate_offset pu = 0" using u by (auto simp: parse_pe_def certificate_table_def split: if_split_asm)
  from hashed_sections_disjoint [OF l(5) l(4), of u] l(6) obtain bs end_off where
    h: "hashed_sections u (sections pu) (size_headers pu) = Inr (bs, end_off)" "size_headers pu \<le> end_off" "end_off \<le> len u"
    by blast
  have hs: "hashed_sections s (sections ps) (size_headers ps) = Inr (bs, end_off)"
    unfolding e using h(1) hashed_sections_agree [OF ag, of "sections pu" "size_headers pu"] l by simp
  have sl: "py_slice s 0 (checksum pu) = py_slice u 0 (checksum pu)"
    "py_slice s (checksum pu + 4) (security pu) = py_slice u (checksum pu + 4) (security pu)"
    "py_slice s (security pu + 8) (size_headers pu) = py_slice u (security pu + 8) (size_headers pu)"
    "py_slice s end_off (len u) = py_slice u end_off (len u)"
    using l h(2,3) by (intro agree_slice [OF ag]; simp)+
  have "py_slice s end_off (certificate_offset ps) = py_slice s end_off (len u) @ py_slice s (len u) (certificate_offset ps)"
    using l(1-3) h(2,3) t by (intro slice_append_slice [symmetric]) simp_all
  then show ?thesis using h hs sl t cu l(1-3) e by (simp add: hashed_content_def)
qed

section \<open>The certificate table holds one payload\<close>

lemma zeros_iff: "(\<forall>b \<in> set bs. b = 0) \<longleftrightarrow> bs = zeros (length bs)"
  by (metis in_set_replicate replicate_length_same zeros_def)

lemma der_object_Inr:
  assumes "der_object data = Inr der"
  obtains item k where "data = der @ zeros k" "der = der_bytes item" "der_tag item = 0x30"
proof -
  from assms obtain item end_off where d: "der_read data 0 0 = Inr (item, end_off)" "der_tag item = 0x30"
      "\<forall>b \<in> set (py_slice data end_off (len data)). b = 0" "der = py_slice data 0 end_off"
    by (auto simp: der_object_def split: if_split_asm)
  from d(1) obtain rest where r: "data = der_bytes item @ rest" "end_off = len (der_bytes item)"
    by (auto simp: der_read_whole)
  have "der = der_bytes item" using d(4) r by (simp add: slice_nonneg)
  moreover have "py_slice data end_off (len data) = rest" using r by (simp add: slice_nonneg)
  ultimately show ?thesis using that [of "length rest" item] d(2,3) r(1) by (simp add: zeros_iff)
qed

lemma le_at_bytes: "0 \<le> off \<Longrightarrow> off + int n \<le> len data \<Longrightarrow> py_slice data off (off + int n) = le_bytes n (le_at data off (int n))"
  using le_bytes_le_int [of "py_slice data off (off + int n)"] by (simp add: le_at_def length_slice_nat)

lemma win_certificate_Inr:
  assumes "win_certificate data end_off cursor = Inr (der, next_off)" "end_off \<le> len data"
  obtains item n k where "py_slice data cursor next_off = le_bytes 4 n @ le_bytes 2 0x200 @ le_bytes 2 2 @ der @ zeros k"
    "der = der_bytes item" "der_tag item = 0x30"
proof -
  define n where "n = le_at data cursor 4"
  from assms have c: "0 \<le> cursor" "cursor + 8 \<le> len data" "8 \<le> n" "cursor + n \<le> end_off" "le_at data (cursor + 4) 2 = 0x200"
      "le_at data (cursor + 6) 2 = 2" "der_object (py_slice data (cursor + 8) (cursor + n)) = Inr der"
      "next_off = cursor + 8 * ((n + 7) div 8)" "next_off \<le> end_off"
      "\<forall>b \<in> set (py_slice data (cursor + n) next_off). b = 0"
    by (auto simp: win_certificate_def Let_def n_def split: if_split_asm)
  have nx: "cursor + n \<le> next_off" using c(8) by linarith
  from c(7) obtain item k where d: "py_slice data (cursor + 8) (cursor + n) = der @ zeros k" "der = der_bytes item" "der_tag item = 0x30"
    by (rule der_object_Inr)
  have p: "py_slice data (cursor + n) next_off = zeros (length (py_slice data (cursor + n) next_off))" (is "_ = zeros ?j")
    using c(10) by (simp add: zeros_iff)
  have f: "py_slice data cursor (cursor + 4) = le_bytes 4 n" "py_slice data (cursor + 4) (cursor + 6) = le_bytes 2 0x200"
    "py_slice data (cursor + 6) (cursor + 8) = le_bytes 2 2"
    using le_at_bytes [of cursor 4 data] le_at_bytes [of "cursor + 4" 2 data] le_at_bytes [of "cursor + 6" 2 data] c
    by (simp_all add: n_def algebra_simps)
  have "py_slice data cursor next_off = py_slice data cursor (cursor + 4) @ py_slice data (cursor + 4) (cursor + 6)
      @ py_slice data (cursor + 6) (cursor + 8) @ py_slice data (cursor + 8) (cursor + n) @ py_slice data (cursor + n) next_off"
    using c nx by (simp add: slice_append_slice)
  also have "\<dots> = le_bytes 4 n @ le_bytes 2 0x200 @ le_bytes 2 2 @ der @ zeros (k + ?j)"
    using f d(1) p by (simp add: zeros_def replicate_add)
  finally show ?thesis using that d(2,3) by blast
qed

lemma authenticode_payload_Inr:
  assumes "authenticode_payload data table_offset table_size = Inr der" "0 < table_size" "table_offset + table_size \<le> len data"
  obtains item n k where
    "py_slice data table_offset (table_offset + table_size) = le_bytes 4 n @ le_bytes 2 0x200 @ le_bytes 2 2 @ der @ zeros k"
    "der = der_bytes item" "der_tag item = 0x30"
proof -
  let ?e = "table_offset + table_size"
  from assms obtain certificates where l: "payload_loop data ?e table_offset [] = Inr (certificates, ?e)"
      "length certificates = 1" "der = hd certificates"
    by (auto simp: authenticode_payload_def split: if_split_asm)
  have keep: "payload_loop data e c acc = Inr (cs, c') \<Longrightarrow> length acc \<le> length cs \<and> take (length acc) cs = acc \<and>
      (length acc = length cs \<longrightarrow> \<not> c < e)" for e c acc cs c'
  proof (induction "nat (e - c)" arbitrary: c acc rule: less_induct)
    case less
    show ?case
    proof (cases "c < e")
      case True
      with less(2) obtain d n where s: "win_certificate data e c = Inr (d, n)" "payload_loop data e n (acc @ [d]) = Inr (cs, c')"
        by (subst (asm) payload_loop.simps) auto
      from less(1) [OF _ s(2)] win_certificate_forward [OF s(1)] True
      have "length (acc @ [d]) \<le> length cs" "take (length (acc @ [d])) cs = acc @ [d]" by auto
      then have "take (length acc) (take (length (acc @ [d])) cs) = acc" "length acc < length cs" by simp_all
      then show ?thesis by (simp add: min_def)
    qed (use less(2) in \<open>simp add: payload_loop.simps\<close>)
  qed
  from l(1) assms(2) obtain d n where s: "win_certificate data ?e table_offset = Inr (d, n)" "payload_loop data ?e n [d] = Inr (certificates, ?e)"
    by (subst (asm) payload_loop.simps) auto
  from keep [OF s(2)] l(2,3) have d: "d = der" "\<not> n < ?e" by (cases certificates; simp)+
  with win_certificate_forward [OF s(1)] have n: "n = ?e" by simp
  from s(1) [unfolded d(1) n] assms(3) show ?thesis by (rule win_certificate_Inr) (use that in blast)
qed

section \<open>Equivalence\<close>

lemma copied_agree:
  assumes l: "len u \<le> len s" "0 \<le> a" "a + 4 \<le> b" "b + 8 \<le> len u"
    and c: "foldl (\<lambda>prefix (offset, n). slice_assign prefix offset (offset + n) (py_slice u offset (offset + n)))
      (py_slice s 0 (len u)) [(a, 4), (b, 8)] = u"
  shows "agree u s a b"
proof -
  let ?p = "py_slice s 0 (len u)"
  let ?q = "slice_assign ?p a (a + 4) (py_slice u a (a + 4))"
  have lp: "length ?p = length u" using l by (simp add: length_slice_nat)
  have ly: "len (py_slice u a (a + 4)) = 4" "len (py_slice u b (b + 8)) = 8" using l by (simp_all add: length_slice)
  have lq: "length ?q = length u" using l lp ly by (simp add: length_slice_assign)
  have "s ! i = u ! i" if i: "i < length u" "\<not> (a \<le> int i \<and> int i < a + 4)" "\<not> (b \<le> int i \<and> int i < b + 8)" for i
  proof -
    have "u ! i = slice_assign ?q b (b + 8) (py_slice u b (b + 8)) ! i" using c by simp
    also have "\<dots> = ?q ! i" using i l lq ly by (subst nth_slice_assign) auto
    also have "\<dots> = ?p ! i" using i l lp ly by (subst nth_slice_assign) auto
    also have "\<dots> = s ! i" using i l by (simp add: nth_slice)
    finally show ?thesis by simp
  qed
  with l(1) show ?thesis by (simp add: agree_def)
qed

lemma certificate_table_signed:
  assumes "parse_pe data True = Inr pe"
  shows "certificate_offset pe + certificate_size pe = len data" "8 \<le> certificate_size pe"
  using assms by (auto simp: parse_pe_def certificate_table_def split: if_split_asm)

lemma prove_equivalence_facts:
  assumes "prove_equivalence u s = Inr payload"
  shows "\<exists>pu ps item n j k c. parse_pe u False = Inr pu \<and> parse_pe s True = Inr ps \<and>
    agree u s (checksum pu) (security pu) \<and>
    s = py_slice s 0 (len u) @ zeros j @ le_bytes 4 n @ le_bytes 2 0x200 @ le_bytes 2 2 @ payload @ zeros k \<and>
    payload = der_bytes item \<and> der_tag item = 0x30 \<and>
    hashed_content u pu = Inr c \<and> hashed_content s ps = Inr (c @ zeros j)"
proof -
  from assms obtain pu ps where p: "parse_pe u False = Inr pu" "parse_pe s True = Inr ps" by (auto simp: prove_equivalence_def)
  have g: "checksum ps = checksum pu" "security ps = security pu" "len u \<le> certificate_offset ps"
    "foldl (\<lambda>prefix (offset, n). slice_assign prefix offset (offset + n) (py_slice u offset (offset + n)))
      (py_slice s 0 (len u)) [(checksum pu, 4), (security pu, 8)] = u"
    "\<forall>b \<in> set (py_slice s (len u) (certificate_offset ps)). b = 0"
    "authenticode_payload s (certificate_offset ps) (certificate_size ps) = Inr payload"
    using assms p by (auto simp: prove_equivalence_def Let_def split: if_split_asm)
  note t = certificate_table_signed [OF p(2)] and l = parse_pe_layout [OF p(1)]
  have ag: "agree u s (checksum pu) (security pu)"
    using g(3) t l(1-4) by (intro copied_agree [OF _ _ _ _ g(4)]) linarith+
  from hashed_content_signed [OF p ag g(3)] obtain c where c: "hashed_content u pu = Inr c"
    "hashed_content s ps = Inr (c @ py_slice s (len u) (certificate_offset ps))" by blast
  define j where "j = length (py_slice s (len u) (certificate_offset ps))"
  have z: "py_slice s (len u) (certificate_offset ps) = zeros j" using g(5) by (simp add: zeros_iff j_def)
  from g(6) obtain item n k where a: "py_slice s (certificate_offset ps) (certificate_offset ps + certificate_size ps) =
      le_bytes 4 n @ le_bytes 2 0x200 @ le_bytes 2 2 @ payload @ zeros k" "payload = der_bytes item" "der_tag item = 0x30"
    by (rule authenticode_payload_Inr) (use t in simp_all)
  have "s = py_slice s 0 (len u) @ py_slice s (len u) (certificate_offset ps) @ py_slice s (certificate_offset ps) (len s)"
    using g(3) t by (simp add: slice_append_slice)
  then have "s = py_slice s 0 (len u) @ zeros j @ le_bytes 4 n @ le_bytes 2 0x200 @ le_bytes 2 2 @ payload @ zeros k"
    using a(1) t(1) z by simp
  with p ag a(2,3) c z show ?thesis by metis
qed

text \<open>
  C1: a signed image that passes \<^verbatim>\<open>prove_equivalence\<close> is the requested image and a signature, and nothing else. It
  agrees with the unsigned image in every byte but the four of the checksum and the eight of the security
  directory; behind the image stand zeros and one \<^verbatim>\<open>WIN_CERTIFICATE\<close> whose content is exactly the returned DER
  object and zeros, up to the last byte of the file. The Authenticode digest of the signed image is taken over the bytes
  that are hashed of the unsigned image, followed by those zeros.
\<close>

theorem prove_equivalence_sound:
  assumes "prove_equivalence u s = Inr payload"
  shows "\<exists>pu ps item n j k c. parse_pe u False = Inr pu \<and> parse_pe s True = Inr ps \<and>
    agree u s (checksum pu) (security pu) \<and>
    s = py_slice s 0 (len u) @ zeros j @ le_bytes 4 n @ le_bytes 2 0x200 @ le_bytes 2 2 @ payload @ zeros k \<and>
    payload = der_bytes item \<and> der_tag item = 0x30 \<and>
    hashed_content u pu = Inr c \<and> hashed_content s ps = Inr (c @ zeros j)"
  using assms by (rule prove_equivalence_facts)

section \<open>Fields outside the file\<close>

text \<open>
  The only read of the header that can miss the buffer is that of the magic of the optional header, when that
  header is declared shorter than the magic and stands at the end of the file.
\<close>

lemma pe_optional_header_struct:
  "pe_optional_header data = Inl Boot_struct \<longleftrightarrow>
     64 \<le> len data \<and> py_slice data 0 2 = MZ_MAGIC \<and>
     (let pe = le_at data 0x3C 4 in py_slice data pe (pe + 4) = PE_MAGIC \<and>
       1 \<le> le_at data (pe + 6) 2 \<and> le_at data (pe + 6) 2 \<le> 96 \<and>
       pe + 24 + le_at data (pe + 20) 2 \<le> len data \<and> len data < pe + 26)"
proof -
  define pe where "pe = le_at data 0x3C 4"
  define sc where "sc = le_at data (pe + 6) 2"
  define os where "os = le_at data (pe + 20) 2"
  have pe: "0 \<le> pe" "0 \<le> sc" "0 \<le> os" by (simp_all add: pe_def sc_def os_def)
  show ?thesis
    unfolding pe_optional_header_def Let_def pe_def [symmetric]
    using pe by (auto simp: rbind_eq_Inl struct_at_def pe_def [symmetric] sc_def [symmetric] os_def [symmetric])
qed

lemma parse_pe_struct: "parse_pe data is_signed = Inl Boot_struct \<longleftrightarrow> pe_optional_header data = Inl Boot_struct"
proof
  assume a: "parse_pe data is_signed = Inl Boot_struct"
  show "pe_optional_header data = Inl Boot_struct"
  proof (cases "pe_optional_header data")
    case (Inr r)
    then obtain op os fs n where h: "pe_optional_header data = Inr (op, os, fs, n)" by (cases r) auto
    note f = pe_optional_header_Inr [OF h]
    have fs: "96 \<le> fs" using f(6) by simp
    have d: "security_directory data op os fs \<noteq> Inl Boot_struct"
      using f(5,7,10) fs by (auto simp: security_directory_def rbind_eq_Inl struct_at_def Let_def)
    have l: "header_layout data op os n \<noteq> Inl Boot_struct"
      using f(5,7,10) fs by (auto simp: header_layout_def rbind_eq_Inl struct_at_def Let_def)
    have r: "section_ranges data t n hd al \<noteq> Inl Boot_struct"
      if "header_layout data op os n = Inr (t, hd, al)" for t hd al
    proof
      note hl = header_layout_Inr [OF that]
      have ov: "check_overlaps xs \<noteq> Inl Boot_struct" for xs by (induction xs rule: check_overlaps.induct) auto
      have sr: "section_range data t hd al index \<noteq> Inl Boot_struct" if i: "index \<in> set (py_range 0 n 1)" for index
      proof -
        have "0 \<le> index" "index + 1 \<le> n" using set_py_range [OF _ i] by simp_all
        then have "0 \<le> t + index * 40" "t + index * 40 + 40 \<le> len data" using hl f by simp_all
        then show ?thesis by (auto simp: section_range_def rbind_eq_Inl struct_at_def Let_def)
      qed
      assume "section_ranges data t n hd al = Inl Boot_struct"
      then have "rmap (section_range data t hd al) (py_range 0 n 1) = Inl Boot_struct"
        using ov by (auto simp: section_ranges_def rbind_eq_Inl Let_def)
      then show False using sr rmap_Inl by metis
    qed
    have c: "certificate_table data sd is_signed \<noteq> Inl Boot_struct" if "security_directory data op os fs = Inr sd" for sd
      using security_directory_Inr [OF that] f(5,10) fs by (auto simp: certificate_table_def rbind_eq_Inl struct_at_def)
    from a h d l r c show ?thesis by (auto simp: parse_pe_def rbind_eq_Inl)
  qed (use a in \<open>simp add: parse_pe_def\<close>)
qed (simp add: parse_pe_def)

end
