(* ===== verification/Authenticode.thy ===== *)
theory Authenticode
  imports Pe_Image Openpgp Py_Text
begin

text \<open>
  The PKCS #7 checks, the certificates and the requests of \<^verbatim>\<open>mkosi/private/secure_boot.py\<close>: \<^verbatim>\<open>authenticode_facts\<close>,
  \<^verbatim>\<open>isolated_certificate_der\<close>, \<^verbatim>\<open>create_request\<close> and \<^verbatim>\<open>verify\<close>. The arguments of a command are the contents of the files
  that it names. OpenSSL is a parameter: \<open>x509\<close> is its re-encoding of a DER certificate and \<open>smime\<close> its
  verification of a PKCS #7 object against a PEM certificate, which returns the signer; both may fail.
  The JSON parser and SHA-256 are parameters as well. A file of text with a byte above 127 is rejected
  with a \<^verbatim>\<open>ValueError\<close> whether it decodes or not, since no such text is a digest.
\<close>

section \<open>PKCS 7\<close>

definition parse_signed_data :: "bytes \<Rightarrow> boot_error + der list" where
  "parse_signed_data payload =
     rbind (der_read payload 0 0) (\<lambda>(outer, end_off).
     rbind (children outer) (\<lambda>outer_children.
       if der_tag outer \<noteq> 0x30 \<or> end_off \<noteq> len payload \<or> length outer_children \<noteq> 2
       then Inl (Boot_value ''invalid Authenticode ContentInfo'')
       else
         rbind (der_oid (outer_children ! 0)) (\<lambda>oid.
           if oid \<noteq> OID_SIGNED_DATA \<or> der_tag (outer_children ! 1) \<noteq> 0xA0
           then Inl (Boot_value ''AuthentiCode is not PKCS7 SignedData'')
           else
             rbind (children (outer_children ! 1)) (\<lambda>signed_wrapper.
               if length signed_wrapper \<noteq> 1 \<or> der_tag (signed_wrapper ! 0) \<noteq> 0x30
               then Inl (Boot_value ''invalid SignedData wrapper'')
               else
                 rbind (children (signed_wrapper ! 0)) (\<lambda>signed.
                   if length signed < 4 \<or> der_tag (signed ! 1) \<noteq> 0x31 then Inl (Boot_value ''invalid SignedData fields'')
                   else
                     rbind (children (signed ! 1)) (\<lambda>digest_algorithms.
                       if length digest_algorithms \<noteq> 1 then Inl (Boot_value ''SignedData must declare exactly SHA-256'')
                       else
                         rbind (algorithm_oid (digest_algorithms ! 0)) (\<lambda>oid.
                           if oid \<noteq> OID_SHA256 then Inl (Boot_value ''SignedData must declare exactly SHA-256'')
                           else Inr signed)))))))"

definition image_digest :: "der \<Rightarrow> boot_error + der" where
  "image_digest content_info =
     rbind (children content_info) (\<lambda>content.
       if length content \<noteq> 2 then Inl (Boot_value ''missing Authenticode SpcIndirectDataContent'')
       else
         rbind (der_oid (content ! 0)) (\<lambda>oid.
           if oid \<noteq> OID_SPC_INDIRECT_DATA \<or> der_tag (content ! 1) \<noteq> 0xA0
           then Inl (Boot_value ''missing Authenticode SpcIndirectDataContent'')
           else
             rbind (children (content ! 1)) (\<lambda>indirect_wrappers.
               if length indirect_wrappers \<noteq> 1 \<or> der_tag (indirect_wrappers ! 0) \<noteq> 0x30
               then Inl (Boot_value ''invalid SpcIndirectDataContent'')
               else
                 rbind (children (indirect_wrappers ! 0)) (\<lambda>indirect.
                   if length indirect \<noteq> 2 then Inl (Boot_value ''invalid SpcIndirectDataContent fields'')
                   else
                     rbind (children (indirect ! 1)) (\<lambda>digest_info.
                       if length digest_info \<noteq> 2 then Inl (Boot_value ''invalid Authenticode image digest'')
                       else
                         rbind (algorithm_oid (digest_info ! 0)) (\<lambda>oid.
                           if oid \<noteq> OID_SHA256 \<or> der_tag (digest_info ! 1) \<noteq> 0x04
                           then Inl (Boot_value ''invalid Authenticode image digest'')
                           else Inr (digest_info ! 1)))))))"

definition check_signer_info :: "der \<Rightarrow> boot_error + unit" where
  "check_signer_info signer_infos =
     rbind (children signer_infos) (\<lambda>signers.
       if der_tag signer_infos \<noteq> 0x31 \<or> length signers \<noteq> 1
       then Inl (Boot_value ''AuthentiCode must have exactly one SignerInfo'')
       else
         rbind (children (signers ! 0)) (\<lambda>signer.
           if length signer < 5 then Inl (Boot_value ''invalid SignerInfo'')
           else
             rbind (algorithm_oid (signer ! 2)) (\<lambda>oid.
               if oid \<noteq> OID_SHA256 then Inl (Boot_value ''SignerInfo digest algorithm is not SHA-256'')
               else
                 let signature_index = (if der_tag (signer ! 3) \<noteq> 0xA0 then 4 else 5)
                 in if signature_index \<ge> length signer then Inl (Boot_value ''unsupported SignerInfo signature algorithm'')
                 else
                   rbind (algorithm_oid (signer ! (signature_index - 1))) (\<lambda>oid.
                     if oid \<notin> set OID_RSA then Inl (Boot_value ''unsupported SignerInfo signature algorithm'')
                     else if der_tag (signer ! signature_index) \<noteq> 0x04
                     then Inl (Boot_value ''missing SignerInfo signature'')
                     else Inr ()))))"

definition authenticode_facts :: "bytes \<Rightarrow> boot_error + bytes" where
  "authenticode_facts payload =
     rbind (parse_signed_data payload) (\<lambda>signed.
     rbind (image_digest (signed ! 2)) (\<lambda>digest.
     rbind (check_signer_info (last signed)) (\<lambda>_. Inr (der_value digest))))"

definition verify_embedded_digest :: "(bytes \<Rightarrow> bytes) \<Rightarrow> bytes \<Rightarrow> bytes \<Rightarrow> boot_error + bytes" where
  "verify_embedded_digest sha256 unsigned_data signed_data =
     rbind (prove_equivalence unsigned_data signed_data) (\<lambda>payload.
     rbind (authenticode_facts payload) (\<lambda>embedded_digest.
     rbind (parse_pe signed_data True) (\<lambda>pe.
     rbind (authenticode_hash sha256 signed_data pe) (\<lambda>computed_digest.
       if embedded_digest \<noteq> computed_digest
       then Inl (Boot_value ''embedded Authenticode digest does not match imported PE'')
       else Inr payload))))"

section \<open>Certificates\<close>

text \<open>The first occurrence of a pattern: what stands before it and behind it.\<close>

fun split_pat :: "'a list \<Rightarrow> 'a list \<Rightarrow> ('a list \<times> 'a list) option" where
  "split_pat pat xs =
     (case strip_prefix pat xs of
        Some rest \<Rightarrow> Some ([], rest)
      | None \<Rightarrow> (case xs of [] \<Rightarrow> None | x # ys \<Rightarrow> map_option (apfst ((#) x)) (split_pat pat ys)))"

declare split_pat.simps [simp del]

definition contains_sub :: "'a list \<Rightarrow> 'a list \<Rightarrow> bool" where
  "contains_sub pat xs \<longleftrightarrow> split_pat pat xs \<noteq> None"

text \<open>\<^verbatim>\<open>data.count(pat)\<close> of a non-empty pattern is one.\<close>

definition occurs_once :: "'a list \<Rightarrow> 'a list \<Rightarrow> bool" where
  "occurs_once pat xs \<longleftrightarrow> (case split_pat pat xs of None \<Rightarrow> False | Some (_, rest) \<Rightarrow> \<not> contains_sub pat rest)"

definition BEGIN_CERTIFICATE :: bytes where "BEGIN_CERTIFICATE = b8 ''-----BEGIN CERTIFICATE-----''"
definition END_CERTIFICATE :: bytes where "END_CERTIFICATE = b8 ''-----END CERTIFICATE-----''"

definition pem_body :: "bytes \<Rightarrow> boot_error + bytes" where
  "pem_body data =
     (if \<not> occurs_once BEGIN_CERTIFICATE data \<or> \<not> occurs_once END_CERTIFICATE data
      then Inl (Boot_value ''expected exactly one PEM certificate'')
      else
        case split_pat BEGIN_CERTIFICATE data of
          None \<Rightarrow> Inl (Boot_value ''not enough values to unpack'')
        | Some (prefix, remainder) \<Rightarrow>
            (case split_pat END_CERTIFICATE remainder of
               None \<Rightarrow> Inl (Boot_value ''not enough values to unpack'')
             | Some (body, suffix) \<Rightarrow>
                 if strip_bytes prefix \<noteq> [] \<or> strip_bytes suffix \<noteq> [] \<or> contains_sub (b8 ''-----'') body
                 then Inl (Boot_value ''certificate input has trailing or additional PEM data'')
                 else of_option (Boot_value ''certificate PEM has invalid base64'') (b64decode (concat (words_of body)))))"

definition isolated_certificate_der :: "bytes \<Rightarrow> boot_error + bytes" where
  "isolated_certificate_der data =
     rbind (if contains_sub BEGIN_CERTIFICATE data \<or> contains_sub END_CERTIFICATE data then pem_body data else Inr data) (\<lambda>data.
     rbind (der_read data 0 0) (\<lambda>(item, consumed).
       if der_tag item \<noteq> 0x30 \<or> consumed \<noteq> len data
       then Inl (Boot_value ''certificate must contain exactly one DER X.509 object'')
       else Inr data))"

definition b64_char :: "int \<Rightarrow> byte" where
  "b64_char v =
     (if v < 26 then word_of_int (v + 0x41) else if v < 52 then word_of_int (v - 26 + 0x61)
      else if v < 62 then word_of_int (v - 52 + 0x30) else if v = 62 then 0x2B else 0x2F)"

fun b64encode :: "bytes \<Rightarrow> bytes" where
  "b64encode (a # b # c # rest) =
     (let n = be_int [a, b, c]
      in [b64_char (n div 262144), b64_char (n div 4096 mod 64), b64_char (n div 64 mod 64), b64_char (n mod 64)] @ b64encode rest)"
| "b64encode [a, b] =
     (let n = be_int [a, b] * 4 in [b64_char (n div 4096), b64_char (n div 64 mod 64), b64_char (n mod 64), 0x3D])"
| "b64encode [a] = (let n = be_int [a] * 16 in [b64_char (n div 64), b64_char (n mod 64), 0x3D, 0x3D])"
| "b64encode [] = []"

definition certificate_pem :: "bytes \<Rightarrow> bytes" where
  "certificate_pem data =
     (let body = b64encode data;
          lines = map (\<lambda>index. py_slice body index (index + 64)) (py_range 0 (len body) 64)
      in BEGIN_CERTIFICATE @ [0x0A] @ join_with [0x0A] lines @ [0x0A] @ END_CERTIFICATE @ [0x0A])"

definition openssl_der :: "(bytes \<Rightarrow> boot_error + bytes) \<Rightarrow> bytes \<Rightarrow> boot_error + bytes" where
  "openssl_der x509 source =
     rbind (x509 source) (\<lambda>canonical.
       if canonical = [] \<or> len canonical > MAX_DER_BYTES
       then Inl (Boot_value ''OpenSSL returned an invalid X.509 certificate size'')
       else Inr canonical)"

definition canonical_certificate :: "(bytes \<Rightarrow> boot_error + bytes) \<Rightarrow> bytes \<Rightarrow> boot_error + bytes" where
  "canonical_certificate x509 der =
     (case rbind (openssl_der x509 der) isolated_certificate_der of
        Inl Boot_tool \<Rightarrow> Inl (Boot_value ''invalid X.509 certificate'')
      | r \<Rightarrow> r)"

section \<open>Requests\<close>

definition REQUEST_FORMAT :: string where "REQUEST_FORMAT = ''mkosi-secure-boot-signing-request-v3''"
definition SIGNED_FORMAT :: string where "SIGNED_FORMAT = ''mkosi-secure-boot-signed-binary-v3''"
definition UKI_CONTEXT :: string where "UKI_CONTEXT = ''uefi-secure-boot-uki''"
definition ESP_FILE_CONTEXT :: string where "ESP_FILE_CONTEXT = ''uefi-secure-boot-esp-file''"
definition ALGORITHM :: string where "ALGORITHM = ''authenticode-sha256''"

definition REQUEST_FIELDS :: "string list" where
  "REQUEST_FIELDS =
     [''certificate_sha256'', ''context'', ''esp_path'', ''format_version'', ''signature_algorithm'', ''unsigned_sha256'']"

fun json_truthy :: "'s list json \<Rightarrow> bool" where
  "json_truthy JNull \<longleftrightarrow> False"
| "json_truthy (JBool b) \<longleftrightarrow> b"
| "json_truthy (JStr s) \<longleftrightarrow> s \<noteq> []"
| "json_truthy (JList xs) \<longleftrightarrow> xs \<noteq> []"
| "json_truthy (JObj kvs) \<longleftrightarrow> kvs \<noteq> []"
| "json_truthy v \<longleftrightarrow> \<not> json_eq_int v 0"

definition boot_context :: "string json \<Rightarrow> string" where
  "boot_context esp_path = (if json_truthy esp_path then ESP_FILE_CONTEXT else UKI_CONTEXT)"

definition request_digest :: "(bytes \<Rightarrow> bytes) \<Rightarrow> string json \<Rightarrow> string" where
  "request_digest sha256 document = hex (sha256 (b8 (json_dumps document @ [CHR ''\<newline>''])))"

definition boot_item :: "string json \<Rightarrow> string \<Rightarrow> boot_error + string json" where
  "boot_item document key = of_option (Boot_key key) (json_get document key)"

definition validate_request :: "(bytes \<Rightarrow> bytes) \<Rightarrow> string json \<Rightarrow> string \<Rightarrow> boot_error + unit" where
  "validate_request sha256 request recorded_request_digest =
     (case request of
        JObj kvs \<Rightarrow>
          (if fst ` set kvs \<noteq> set REQUEST_FIELDS \<or> map_of kvs ''format_version'' \<noteq> Some (JStr REQUEST_FORMAT)
           then Inl (Boot_value ''invalid signing request schema'')
           else if recorded_request_digest \<noteq> request_digest sha256 request
           then Inl (Boot_value ''signing request digest does not match request'')
           else
             rbind (boot_item request ''esp_path'') (\<lambda>esp_path.
               if map_of kvs ''context'' \<noteq> Some (JStr (boot_context esp_path))
                 \<or> map_of kvs ''signature_algorithm'' \<noteq> Some (JStr ALGORITHM)
               then Inl (Boot_value ''wrong signing context or algorithm'')
               else Inr ()))
      | _ \<Rightarrow> Inl (Boot_value ''invalid signing request schema''))"

text \<open>\<^verbatim>\<open>validate_esp_path\<close> of \<^verbatim>\<open>esp_files.py\<close>\<close>

definition ascii_alnum :: "char \<Rightarrow> bool" where
  "ascii_alnum c \<longleftrightarrow> (CHR ''A'' \<le> c \<and> c \<le> CHR ''Z'') \<or> (CHR ''a'' \<le> c \<and> c \<le> CHR ''z'') \<or> (CHR ''0'' \<le> c \<and> c \<le> CHR ''9'')"

definition plain_component :: "string \<Rightarrow> bool" where
  "plain_component s \<longleftrightarrow> s \<noteq> [] \<and> ascii_alnum (hd s) \<and> (\<forall>c \<in> set (tl s). ascii_alnum c \<or> c \<in> set ''._+-'')"

definition validate_esp_path :: "string \<Rightarrow> boot_error + string" where
  "validate_esp_path path =
     (if length path > 255 \<or> \<not> (\<forall>component \<in> set (split_on (CHR ''/'') path). plain_component component)
      then Inl (Boot_value ''ESP path must be a relative path'')
      else Inr path)"

definition pretty_json :: "string json \<Rightarrow> bytes" where
  "pretty_json document = b8 (json_pretty 0 document @ [CHR ''\<newline>''])"

record request_args =
  ra_algorithm :: string
  ra_esp_path :: string
  ra_unsigned :: bytes
  ra_certificate :: bytes

definition request_document :: "(bytes \<Rightarrow> bytes) \<Rightarrow> request_args \<Rightarrow> bytes \<Rightarrow> string json" where
  "request_document sha256 args normalized = JObj
     [(''certificate_sha256'', JStr (hex (sha256 normalized))),
      (''context'', JStr (boot_context (JStr (ra_esp_path args)))),
      (''esp_path'', JStr (ra_esp_path args)),
      (''format_version'', JStr REQUEST_FORMAT),
      (''signature_algorithm'', JStr ALGORITHM),
      (''unsigned_sha256'', JStr (hex (sha256 (ra_unsigned args))))]"

text \<open>The three files that \<^verbatim>\<open>create_request\<close> writes: the certificate, the request and its digest.\<close>

definition boot_create_request ::
    "(bytes \<Rightarrow> bytes) \<Rightarrow> (bytes \<Rightarrow> boot_error + bytes) \<Rightarrow> request_args \<Rightarrow> boot_error + bytes \<times> bytes \<times> bytes" where
  "boot_create_request sha256 x509 args =
     (if ra_algorithm args \<noteq> ALGORITHM then Inl (Boot_value ''unsupported signing algorithm'')
      else
        rbind (if ra_esp_path args \<noteq> [] then rbind (validate_esp_path (ra_esp_path args)) (\<lambda>_. Inr ()) else Inr ()) (\<lambda>_.
        rbind (parse_pe (ra_unsigned args) False) (\<lambda>_.
        rbind (rbind (isolated_certificate_der (ra_certificate args)) (canonical_certificate x509)) (\<lambda>normalized.
          let document = request_document sha256 args normalized
          in Inr (normalized, pretty_json document, b8 (request_digest sha256 document @ [CHR ''\<newline>'']))))))"

definition boot_text :: "bytes \<Rightarrow> boot_error + string" where
  "boot_text data = of_option (Boot_value ''not text'') (utf8_decode data)"

definition boot_json :: "(bytes \<Rightarrow> string json option) \<Rightarrow> bytes \<Rightarrow> boot_error + string json" where
  "boot_json parse data = of_option (Boot_value ''invalid JSON'') (parse data)"

record verify_args =
  va_request :: bytes
  va_request_digest :: bytes
  va_unsigned :: bytes
  va_certificate :: bytes
  va_signed :: "bytes list"

definition load_request :: "(bytes \<Rightarrow> bytes) \<Rightarrow> (bytes \<Rightarrow> string json option) \<Rightarrow> verify_args \<Rightarrow> boot_error + string json \<times> string" where
  "load_request sha256 parse args =
     rbind (boot_json parse (va_request args)) (\<lambda>request.
     rbind (boot_text (va_request_digest args)) (\<lambda>recorded.
     rbind (validate_request sha256 request (strip recorded)) (\<lambda>_.
     rbind (boot_item request ''unsigned_sha256'') (\<lambda>expected.
       if JStr (hex (sha256 (va_unsigned args))) \<noteq> expected
       then Inl (Boot_value ''unsigned binary no longer matches its request'')
       else Inr (request, strip recorded)))))"

text \<open>The loop over the candidates catches a \<^verbatim>\<open>ValueError\<close> and nothing else.\<close>

fun select_loop :: "(bytes \<Rightarrow> bytes) \<Rightarrow> bytes \<Rightarrow> bytes list \<Rightarrow> string list \<Rightarrow> boot_error + bytes \<times> bytes" where
  "select_loop sha256 unsigned_data [] errors =
     (if length errors = 1 then Inl (Boot_value (errors ! 0))
      else Inl (Boot_value ''none of the signed binaries is the requested binary''))"
| "select_loop sha256 unsigned_data (candidate # candidates) errors =
     (case verify_embedded_digest sha256 unsigned_data candidate of
        Inr payload \<Rightarrow> Inr (candidate, payload)
      | Inl (Boot_value message) \<Rightarrow> select_loop sha256 unsigned_data candidates (errors @ [message])
      | Inl e \<Rightarrow> Inl e)"

definition select_signed :: "(bytes \<Rightarrow> bytes) \<Rightarrow> verify_args \<Rightarrow> boot_error + bytes \<times> bytes" where
  "select_signed sha256 args = select_loop sha256 (va_unsigned args) (va_signed args) []"

definition verify_signer ::
    "(bytes \<Rightarrow> boot_error + bytes) \<Rightarrow> (bytes \<Rightarrow> bytes \<Rightarrow> boot_error + bytes) \<Rightarrow> bytes \<Rightarrow> bytes \<Rightarrow> boot_error + unit" where
  "verify_signer x509 smime payload expected_certificate =
     rbind (smime payload (certificate_pem expected_certificate)) (\<lambda>signer.
     rbind (rbind (isolated_certificate_der signer) (canonical_certificate x509)) (\<lambda>verified_signer.
       if verified_signer \<noteq> expected_certificate
       then Inl (Boot_value ''verified SignerInfo certificate does not match request'')
       else Inr ()))"

text \<open>The files that \<^verbatim>\<open>verify\<close> writes: the signed binary and its metadata.\<close>

definition boot_verify ::
    "(bytes \<Rightarrow> bytes) \<Rightarrow> (bytes \<Rightarrow> string json option) \<Rightarrow> (bytes \<Rightarrow> boot_error + bytes) \<Rightarrow>
     (bytes \<Rightarrow> bytes \<Rightarrow> boot_error + bytes) \<Rightarrow> verify_args \<Rightarrow> boot_error + bytes \<times> bytes" where
  "boot_verify sha256 parse x509 smime args =
     rbind (load_request sha256 parse args) (\<lambda>(request, recorded).
     rbind (rbind (isolated_certificate_der (va_certificate args)) (canonical_certificate x509)) (\<lambda>expected_certificate.
       let fingerprint = hex (sha256 expected_certificate)
       in rbind (boot_item request ''certificate_sha256'') (\<lambda>requested.
         if JStr fingerprint \<noteq> requested then Inl (Boot_value ''signer certificate does not match request'')
         else
           rbind (select_signed sha256 args) (\<lambda>(chosen, payload).
           rbind (verify_signer x509 smime payload expected_certificate) (\<lambda>_.
           rbind (boot_item request ''esp_path'') (\<lambda>esp_path.
           rbind (boot_item request ''unsigned_sha256'') (\<lambda>unsigned_sha256.
             Inr (chosen, pretty_json (JObj
               [(''certificate_sha256'', JStr fingerprint), (''esp_path'', esp_path),
                (''format_version'', JStr SIGNED_FORMAT), (''request_digest'', JStr recorded),
                (''signed_sha256'', JStr (hex (sha256 chosen))), (''unsigned_sha256'', unsigned_sha256),
                (''verification'', JStr ''embedded-authenticode-sha256'')]))))))))) "

section \<open>What an import guarantees\<close>

lemma select_loop_Inr:
  "select_loop sha256 u candidates errors = Inr (chosen, payload) \<Longrightarrow>
     chosen \<in> set candidates \<and> verify_embedded_digest sha256 u chosen = Inr payload"
  by (induction candidates arbitrary: errors) (auto split: if_split_asm sum.split_asm boot_error.split_asm)

lemma verify_embedded_digest_Inr:
  assumes "verify_embedded_digest sha256 u s = Inr payload"
  shows "prove_equivalence u s = Inr payload"
    "\<exists>pu j c. parse_pe u False = Inr pu \<and> agree u s (checksum pu) (security pu) \<and> hashed_content u pu = Inr c \<and>
      authenticode_facts payload = Inr (sha256 (c @ zeros j))"
proof -
  from assms obtain ps d where v: "prove_equivalence u s = Inr payload" "authenticode_facts payload = Inr d"
      "parse_pe s True = Inr ps" "authenticode_hash sha256 s ps = Inr d"
    by (auto simp: verify_embedded_digest_def split: if_split_asm)
  show "prove_equivalence u s = Inr payload" by (rule v(1))
  from prove_equivalence_facts [OF v(1)] v(3) obtain pu j c where "parse_pe u False = Inr pu"
      "agree u s (checksum pu) (security pu)" "hashed_content u pu = Inr c" "hashed_content s ps = Inr (c @ zeros j)"
    by auto
  with v(2,4) show "\<exists>pu j c. parse_pe u False = Inr pu \<and> agree u s (checksum pu) (security pu) \<and> hashed_content u pu = Inr c \<and>
      authenticode_facts payload = Inr (sha256 (c @ zeros j))"
    by (auto simp: authenticode_hash_def)
qed


section \<open>A candidate that is not skipped\<close>

text \<open>
  The docstring of \<^verbatim>\<open>_select_signed\<close> promises the first candidate that is the requested binary. A candidate
  whose optional header is shorter than its magic at the end of the file raises \<^verbatim>\<open>struct.error\<close>, which
  is not a \<^verbatim>\<open>ValueError\<close>, so the loop ends there and \<^verbatim>\<open>report_errors\<close> does not report it either.
\<close>

lemma verify_embedded_digest_struct:
  assumes "parse_pe u False = Inr pu" "pe_optional_header s = Inl Boot_struct"
  shows "verify_embedded_digest sha256 u s = Inl Boot_struct"
proof -
  have "parse_pe s True = Inl Boot_struct" using assms(2) by (simp add: parse_pe_struct)
  with assms(1) show ?thesis by (simp add: verify_embedded_digest_def prove_equivalence_def)
qed

definition short_optional_header :: bytes where
  "short_optional_header =
     MZ_MAGIC @ zeros 58 @ [64, 0, 0, 0] @ PE_MAGIC @ [0, 0, 1, 0] @ zeros 16"


end
