(* ===== verification/Esp_Files.thy ===== *)
theory Esp_Files
  imports Authenticode Gpt_Metadata "HOL-Library.More_List"
begin

text \<open>
  \<^verbatim>\<open>mkosi/private/esp_files.py\<close>: the copies of byte ranges between a disk image and the file of its EFI
  system partition, and the files of an unpacked partition. The mtools that unpack it are parameters of
  the theories that use them.
\<close>

section \<open>The extent of the partition\<close>

text \<open>\<^verbatim>\<open>d[key]\<close> of a JSON value: anything but a dictionary is a \<^verbatim>\<open>TypeError\<close>.\<close>

definition json_subscript :: "string json \<Rightarrow> string \<Rightarrow> boot_error + string json" where
  "json_subscript v key = (case v of JObj kvs \<Rightarrow> of_option (Boot_key key) (map_of kvs key) | _ \<Rightarrow> Inl Boot_type)"

text \<open>The elements of a JSON value in a loop that subscripts them: those of a dictionary and of a text are texts.\<close>

definition json_elements :: "string json \<Rightarrow> boot_error + string json list" where
  "json_elements v =
     (case v of
        JList xs \<Rightarrow> Inr xs
      | JObj kvs \<Rightarrow> Inr (map (\<lambda>(k, _). JStr k) kvs)
      | JStr s \<Rightarrow> Inr (map (\<lambda>c. JStr [c]) s)
      | _ \<Rightarrow> Inl Boot_type)"

definition json_offset :: "string json \<Rightarrow> boot_error + int" where
  "json_offset v = (case v of JInt i \<Rightarrow> Inr i | JBool b \<Rightarrow> Inr (of_bool b) | _ \<Rightarrow> Inl Boot_type)"

definition esp_extent :: "(bytes \<Rightarrow> string json option) \<Rightarrow> bytes \<Rightarrow> boot_error + string json \<times> string json" where
  "esp_extent parse partition_metadata =
     rbind (boot_json parse partition_metadata) (\<lambda>document.
     rbind (rbind (json_subscript document ''partitions'') json_elements) (\<lambda>partitions.
     rbind (rmap (\<lambda>p. rbind (json_subscript p ''type_guid'') (\<lambda>t. Inr (p, t = JStr ESP))) partitions) (\<lambda>flagged.
       case map fst (filter snd flagged) of
         [esp] \<Rightarrow>
           rbind (json_subscript esp ''start_bytes'') (\<lambda>start.
           rbind (json_subscript esp ''size_bytes'') (\<lambda>extent. Inr (start, extent)))
       | _ \<Rightarrow> Inl (Boot_value ''image must contain exactly one EFI system partition''))))"

section \<open>Copies\<close>

definition ESP_CHUNK :: int where "ESP_CHUNK = push_bit 20 1"

text \<open>\<^verbatim>\<open>writer.seek(n); writer.write(block)\<close>: a gap behind the old end of the file is read as zeros.\<close>

definition write_at :: "bytes \<Rightarrow> nat \<Rightarrow> bytes \<Rightarrow> bytes" where
  "write_at data n block = take n (data @ zeros (n - length data)) @ block @ drop (n + length block) data"

function copy_loop :: "pyfile \<Rightarrow> bytes \<Rightarrow> int \<Rightarrow> int \<Rightarrow> int \<Rightarrow> bool \<Rightarrow> boot_error + bytes" where
  "copy_loop reader writer copied n destination_offset sparse =
     (if copied < n then
        let (block, reader') = file_read (min ESP_CHUNK (n - copied)) reader
        in if block = [] then Inl (Boot_value ''the source ends early'')
        else if \<not> sparse \<or> (\<exists>b \<in> set block. b \<noteq> 0) then
          (if destination_offset + copied < 0 then Inl (Boot_value ''negative seek value'')
           else copy_loop reader' (write_at writer (nat (destination_offset + copied)) block)
             (copied + len block) n destination_offset sparse)
        else copy_loop reader' writer (copied + len block) n destination_offset sparse
      else Inr writer)"
  by pat_completeness auto

termination copy_loop
  by (relation "measure (\<lambda>(reader, writer, copied, n, _). nat (n - copied))") auto

declare copy_loop.simps [simp del]

text \<open>\<^const>\<open>None\<close> is a destination that does not exist. A file is never shortened.\<close>

definition copy_range :: "bytes \<Rightarrow> bytes option \<Rightarrow> int \<Rightarrow> int \<Rightarrow> int \<Rightarrow> bool \<Rightarrow> boot_error + bytes" where
  "copy_range source destination offset n destination_offset sparse =
     (if offset < 0 then Inl (Boot_value ''negative seek value'')
      else
        rbind (copy_loop (file_seek offset \<lparr>contents = source, pos = 0\<rparr>)
            (case destination of None \<Rightarrow> [] | Some old \<Rightarrow> old) 0 n destination_offset sparse) (\<lambda>writer.
          Inr (writer @ zeros (nat (max (len writer) (destination_offset + n)) - length writer))))"

text \<open>The file of the partition and its offset in the image.\<close>

definition extract_esp :: "(bytes \<Rightarrow> string json option) \<Rightarrow> bytes \<Rightarrow> bytes \<Rightarrow> boot_error + bytes \<times> int" where
  "extract_esp parse img partition_metadata =
     rbind (esp_extent parse partition_metadata) (\<lambda>(start, extent).
     rbind (json_offset start) (\<lambda>offset.
     rbind (json_offset extent) (\<lambda>n.
     rbind (copy_range img None offset n 0 True) (\<lambda>esp. Inr (esp, offset)))))"

section \<open>Unpacked partitions\<close>

record esp_file =
  ef_data :: bytes
  ef_mtime :: int

text \<open>The files and the directories below the directory of an unpacked partition, by their relative paths.\<close>

record esp_tree =
  et_files :: "(string, esp_file) dict"
  et_dirs :: "string list"

definition tree_files :: "esp_tree \<Rightarrow> string list" where
  "tree_files tree = sort (map fst (et_files tree))"

definition tree_read :: "esp_tree \<Rightarrow> string \<Rightarrow> boot_error + bytes" where
  "tree_read tree path = of_option Boot_os (map_option ef_data (map_of (et_files tree) path))"

lemma set_tree_files [simp]: "set (tree_files tree) = fst ` set (et_files tree)"
  by (simp add: tree_files_def)

lemma tree_read_exists: "path \<in> set (tree_files tree) \<Longrightarrow> \<exists>data. tree_read tree path = Inr data"
  by (auto simp: tree_read_def dest!: imageI [of _ _ fst] simp flip: dom_map_of_conv_image_fst)

section \<open>What a copy writes\<close>

text \<open>
  A file is compared through the bytes that a read at any position sees, zero behind its end. This hides
  the difference between a hole and written zeros until the final truncation gives the file its length.
\<close>

abbreviation byte_at :: "bytes \<Rightarrow> nat \<Rightarrow> byte" where
  "byte_at \<equiv> nth_default 0"

lemma byte_at_zeros [simp]: "byte_at (zeros n) i = 0"
  by (simp add: zeros_def nth_default_def)

lemma byte_at_write:
  "byte_at (write_at data n block) i =
     (if n \<le> i \<and> i < n + length block then block ! (i - n) else byte_at data i)"
  by (auto simp: write_at_def nth_default_def nth_append zeros_def min_def)

lemma length_write [simp]: "length (write_at data n block) = max (length data) (n + length block)"
  by (simp add: write_at_def)

lemma byte_at_append_zeros [simp]: "byte_at (data @ zeros n) i = byte_at data i"
  by (simp add: nth_default_def nth_append zeros_def)

lemma byte_at_eqI:
  "length xs = length ys \<Longrightarrow> (\<And>i. i < length ys \<Longrightarrow> byte_at xs i = byte_at ys i) \<Longrightarrow> xs = ys"
  by (rule nth_equalityI) (auto simp: nth_default_nth)

lemma file_read_block:
  assumes "0 \<le> pos reader" "0 < k" "file_read k reader = (block, reader')"
  shows "block = take (nat k) (drop (nat (pos reader)) (contents reader))"
    and "contents reader' = contents reader" "pos reader' = pos reader + len block"
proof -
  have "nat (pos reader + k) - nat (pos reader) = nat k" using assms(1,2) by simp
  with assms show "block = take (nat k) (drop (nat (pos reader)) (contents reader))"
    "contents reader' = contents reader" "pos reader' = pos reader + len block"
    by (auto simp: file_read_def Let_def slice_nonneg)
qed

lemma ESP_CHUNK_pos: "0 < ESP_CHUNK"
  by (simp add: ESP_CHUNK_def push_bit_eq_mult)

lemma copy_loop_ends_early:
  assumes "0 \<le> pos reader" "len (contents reader) < pos reader + (n - copied)" "copied < n" "0 \<le> d + copied"
  shows "copy_loop reader writer copied n d sparse = Inl (Boot_value ''the source ends early'')"
  using assms
proof (induction reader writer copied n d sparse rule: copy_loop.induct)
  case (1 reader writer copied n d sparse)
  obtain block reader' where r: "file_read (min ESP_CHUNK (n - copied)) reader = (block, reader')"
    by (cases "file_read (min ESP_CHUNK (n - copied)) reader")
  have k: "0 < min ESP_CHUNK (n - copied)" using 1(5) ESP_CHUNK_pos by simp
  note b = file_read_block [OF 1(3) k r]
  show ?case
  proof (cases "block = []")
    case True
    with 1(5) r show ?thesis by (subst copy_loop.simps) simp
  next
    case False
    then have "0 < len block" by simp
    moreover have "length block \<le> nat (n - copied)" "length block \<le> length (contents reader) - nat (pos reader)"
      using b(1) by (simp_all add: nat_le_eq_zle)
    ultimately have "0 \<le> pos reader'" "len (contents reader') < pos reader' + (n - (copied + len block))"
      "copied + len block < n" "0 \<le> d + (copied + len block)"
      unfolding b(2) using 1(3-6) b(3) by linarith+
    with 1(1,2,5,6) r False show ?thesis by (subst copy_loop.simps) (auto simp: Let_def)
  qed
qed

lemma byte_at_copied:
  assumes "0 \<le> start" "sparse \<Longrightarrow> \<forall>i. start \<le> int i \<and> int i < start + len block \<longrightarrow> byte_at writer i = 0"
  shows "byte_at (if \<not> sparse \<or> (\<exists>c \<in> set block. c \<noteq> 0) then write_at writer (nat start) block else writer) i =
    (if start \<le> int i \<and> int i < start + len block then block ! nat (int i - start) else byte_at writer i)"
proof (cases "\<not> sparse \<or> (\<exists>c \<in> set block. c \<noteq> 0)")
  case True
  have "nat start \<le> i \<and> i < nat start + length block \<longleftrightarrow> start \<le> int i \<and> int i < start + len block"
    "i - nat start = nat (int i - start)"
    using assms(1) by linarith+
  with True show ?thesis by (simp only: if_True byte_at_write)
next
  case False
  have "block ! nat (int i - start) = byte_at writer i" if "start \<le> int i" "int i < start + len block"
  proof -
    have "nat (int i - start) < length block" using that by linarith
    then have "block ! nat (int i - start) = 0" using False nth_mem by blast
    with assms(2) False that show ?thesis by auto
  qed
  with False show ?thesis by auto
qed

text \<open>
  The loop keeps every byte outside the destination range and fills the range with the bytes of the source. A
  sparse copy skips zero blocks, so it needs a destination that reads as zeros there.
\<close>

definition filled :: "pyfile \<Rightarrow> bytes \<Rightarrow> int \<Rightarrow> int \<Rightarrow> bytes \<Rightarrow> bool" where
  "filled reader writer start stop w \<longleftrightarrow>
     length writer \<le> length w \<and> len w \<le> max (len writer) stop \<and>
     (\<forall>i. byte_at w i = (if start \<le> int i \<and> int i < stop
        then contents reader ! nat (pos reader + int i - start) else byte_at writer i))"

lemma filled_step:
  assumes "filled reader' writer' (start + len block) stop w" "start + len block \<le> stop"
    and "contents reader' = contents reader" "pos reader' = pos reader + len block"
    and "\<And>j. j < length block \<Longrightarrow> block ! j = contents reader ! nat (pos reader + int j)"
    and "length writer \<le> length writer'" "len writer' \<le> max (len writer) (start + len block)"
    and "\<And>i. byte_at writer' i =
      (if start \<le> int i \<and> int i < start + len block then block ! nat (int i - start) else byte_at writer i)"
  shows "filled reader writer start stop w"
proof -
  have "byte_at w i = (if start \<le> int i \<and> int i < stop
      then contents reader ! nat (pos reader + int i - start) else byte_at writer i)" for i
  proof (cases "start \<le> int i \<and> int i < start + len block")
    case True
    then have "byte_at w i = block ! nat (int i - start)" using assms(1,8) by (simp add: filled_def)
    also have "\<dots> = contents reader ! nat (pos reader + int i - start)"
      using True assms(5) [of "nat (int i - start)"] by (simp add: nat_less_iff algebra_simps)
    finally show ?thesis using True assms(2) by simp
  next
    case False
    with assms(1,3,4,8) show ?thesis by (auto simp: filled_def algebra_simps)
  qed
  moreover have "length writer \<le> length w" "len w \<le> max (len writer) stop"
    using assms(1,2,6,7) by (auto simp: filled_def)
  ultimately show ?thesis by (simp add: filled_def)
qed

lemma copy_loop_fills:
  assumes "0 \<le> pos reader" "pos reader + (n - copied) \<le> len (contents reader)" "0 \<le> d + copied" "copied \<le> n"
    and "sparse \<Longrightarrow> \<forall>i. d + copied \<le> int i \<and> int i < d + n \<longrightarrow> byte_at writer i = 0"
  shows "\<exists>w. copy_loop reader writer copied n d sparse = Inr w \<and> filled reader writer (d + copied) (d + n) w"
  using assms
proof (induction reader writer copied n d sparse rule: copy_loop.induct)
  case (1 reader writer copied n d sparse)
  show ?case
  proof (cases "copied < n")
    case False
    then show ?thesis by (subst copy_loop.simps) (auto simp: filled_def)
  next
    case True
    obtain block reader' where r: "file_read (min ESP_CHUNK (n - copied)) reader = (block, reader')"
      by (cases "file_read (min ESP_CHUNK (n - copied)) reader")
    have k: "0 < min ESP_CHUNK (n - copied)" using True ESP_CHUNK_pos by simp
    note b = file_read_block [OF 1(3) k r]
    have l: "len block = min ESP_CHUNK (n - copied)" using b(1) k 1(3,4) by (simp add: nat_le_eq_zle)
    then have ne: "block \<noteq> []" using k by auto
    define writer' where "writer' =
      (if \<not> sparse \<or> (\<exists>c \<in> set block. c \<noteq> 0) then write_at writer (nat (d + copied)) block else writer)"
    have w': "byte_at writer' i = (if d + copied \<le> int i \<and> int i < d + copied + len block
        then block ! nat (int i - (d + copied)) else byte_at writer i)" for i
      unfolding writer'_def using 1(5,7) l by (intro byte_at_copied) auto
    have p: "0 \<le> pos reader'" "pos reader' + (n - (copied + len block)) \<le> len (contents reader')"
      "0 \<le> d + (copied + len block)" "copied + len block \<le> n"
      unfolding b(2) using 1(3-6) b(3) l by linarith+
    have z: "\<forall>i. d + (copied + len block) \<le> int i \<and> int i < d + n \<longrightarrow> byte_at writer' i = 0" if sparse
      using 1(7) that w' by auto
    have "\<exists>w. copy_loop reader' writer' (copied + len block) n d sparse = Inr w \<and>
        filled reader' writer' (d + (copied + len block)) (d + n) w"
    proof (cases "\<not> sparse \<or> (\<exists>c \<in> set block. c \<noteq> 0)")
      case wr: True
      with z p 1(5) show ?thesis unfolding writer'_def if_P [OF wr] by (intro 1(1) [OF True r [symmetric] refl ne wr]) auto
    next
      case skip: False
      with z p show ?thesis unfolding writer'_def if_not_P [OF skip] by (intro 1(2) [OF True r [symmetric] refl ne skip]) auto
    qed
    moreover have "copy_loop reader writer copied n d sparse = copy_loop reader' writer' (copied + len block) n d sparse"
      using True r ne 1(5) by (subst copy_loop.simps) (auto simp: Let_def writer'_def)
    moreover have "filled reader writer (d + copied) (d + n) w"
      if "filled reader' writer' (d + (copied + len block)) (d + n) w" for w
    proof (rule filled_step [OF _ _ b(2,3) _ _ _ w'])
      show "block ! j = contents reader ! nat (pos reader + int j)" if "j < length block" for j
        using that 1(3) by (auto simp: b(1) nat_add_distrib)
      show "length writer \<le> length writer'" "len writer' \<le> max (len writer) (d + copied + len block)"
        using 1(5) by (auto simp: writer'_def of_nat_max)
    qed (use that p(4) in \<open>simp_all add: add.assoc\<close>)
    ultimately show ?thesis by auto
  qed
qed

lemma copy_range_writes:
  assumes "0 \<le> offset" "0 \<le> n" "0 \<le> d"
    and "sparse \<Longrightarrow> \<forall>i. d \<le> int i \<and> int i < d + n \<longrightarrow> byte_at (case destination of None \<Rightarrow> [] | Some old \<Rightarrow> old) i = 0"
  shows "copy_range source destination offset n d sparse =
    (if n = 0 \<or> offset + n \<le> len source
     then Inr (write_at (case destination of None \<Rightarrow> [] | Some old \<Rightarrow> old) (nat d) (py_slice source offset (offset + n)))
     else Inl (Boot_value ''the source ends early''))"
proof -
  let ?old = "case destination of None \<Rightarrow> [] | Some old \<Rightarrow> old"
  let ?reader = "file_seek offset \<lparr>contents = source, pos = 0\<rparr>" and ?slice = "py_slice source offset (offset + n)"
  consider "n = 0" | "0 < n" "offset + n \<le> len source" | "0 < n" "len source < offset + n" using assms(2) by linarith
  then show ?thesis
  proof cases
    case 1
    have "?old @ zeros (nat (max (len ?old) d) - length ?old) = write_at ?old (nat d) []"
      by (rule byte_at_eqI) (use assms(3) in \<open>auto simp: byte_at_write max_def\<close>)
    with 1 assms(1) show ?thesis by (simp add: copy_range_def copy_loop.simps)
  next
    case 2
    with assms obtain w where w: "copy_loop ?reader ?old 0 n d sparse = Inr w" "filled ?reader ?old d (d + n) w"
      using copy_loop_fills [of ?reader n 0 d sparse ?old] by auto
    have l: "length ?slice = nat n" using 2 assms(1) by (simp add: length_slice_nat)
    have "w @ zeros (nat (max (len w) (d + n)) - length w) = write_at ?old (nat d) ?slice"
    proof (rule byte_at_eqI)
      show "length (w @ zeros (nat (max (len w) (d + n)) - length w)) = length (write_at ?old (nat d) ?slice)"
        using w(2) l assms(2,3) by (auto simp: filled_def nat_add_distrib)
      show "byte_at (w @ zeros (nat (max (len w) (d + n)) - length w)) i = byte_at (write_at ?old (nat d) ?slice) i" for i
      proof -
        have "nat d \<le> i \<and> i < nat d + nat n \<longleftrightarrow> d \<le> int i \<and> int i < d + n" using assms(2,3) by linarith
        moreover have "?slice ! (i - nat d) = source ! nat (offset + int i - d)" if "d \<le> int i" "int i < d + n"
        proof -
          have "int (i - nat d) < (offset + n) - offset" "nat offset + (i - nat d) = nat (offset + int i - d)"
            using that assms(1,3) by linarith+
          then show ?thesis using 2 assms(1) by (simp add: nth_slice)
        qed
        ultimately show ?thesis using w(2) by (simp add: byte_at_write l filled_def)
      qed
    qed
    with 2 w(1) assms(1) show ?thesis by (simp add: copy_range_def)
  next
    case 3
    with assms show ?thesis
      using copy_loop_ends_early [of ?reader n 0 d ?old sparse] by (simp add: copy_range_def)
  qed
qed

lemma extract_esp_Inr:
  assumes "extract_esp parse img partition_metadata = Inr (esp, offset)"
  shows "0 \<le> offset" "esp = py_slice img offset (offset + len esp)" "esp = [] \<or> offset + len esp \<le> len img"
proof -
  from assms obtain n where c: "copy_range img None offset n 0 True = Inr esp"
    by (auto simp: extract_esp_def split: prod.split_asm)
  then show o: "0 \<le> offset" by (auto simp: copy_range_def split: if_split_asm)
  have "esp = py_slice img offset (offset + len esp) \<and> (esp = [] \<or> offset + len esp \<le> len img)"
  proof (cases "0 < n")
    case True
    with o c have "offset + n \<le> len img" "esp = py_slice img offset (offset + n)"
      using copy_range_writes [of offset n 0 True None img] by (auto simp: write_at_def zeros_unfold split: if_split_asm)
    with True o show ?thesis by (simp add: length_slice)
  next
    case False
    then show ?thesis using c o by (simp add: copy_range_def copy_loop.simps zeros_unfold)
  qed
  then show "esp = py_slice img offset (offset + len esp)" "esp = [] \<or> offset + len esp \<le> len img" by auto
qed

text \<open>
  C40: what a copy of a byte range leaves in the destination. Exactly when the source has the whole range (or the range is
  empty), the copy succeeds, and the destination is its old content with the bytes of the range at the destination offset: a gap in
  front of them is zeros, and everything before and behind them is kept. A sparse copy does the same
  wherever the old content of the destination range reads as zeros, in particular in a new file.
\<close>

theorem copy_range_exact:
  assumes "0 \<le> offset" "0 \<le> n" "0 \<le> d"
    and "sparse \<Longrightarrow> \<forall>i. d \<le> int i \<and> int i < d + n \<longrightarrow> byte_at (case destination of None \<Rightarrow> [] | Some old \<Rightarrow> old) i = 0"
  shows "copy_range source destination offset n d sparse =
    (if n = 0 \<or> offset + n \<le> len source
     then Inr (write_at (case destination of None \<Rightarrow> [] | Some old \<Rightarrow> old) (nat d) (py_slice source offset (offset + n)))
     else Inl (Boot_value ''the source ends early''))"
  using copy_range_writes assms by blast

theorem copy_range_exact_witness:
  "copy_range [1, 2, 3, 4] (Some [9, 9, 9, 9, 9]) 1 2 3 False = Inr [9, 9, 9, 2, 3] \<and>
   copy_range [0, 0, 7] None 0 3 2 True = Inr [0, 0, 0, 0, 7] \<and>
   copy_range [1, 2] None 1 2 0 True = Inl (Boot_value ''the source ends early'')"
  using copy_range_exact [of 1 2 3 False "Some [9, 9, 9, 9, 9]" "[1, 2, 3, 4]"]
    copy_range_exact [of 0 3 2 True None "[0, 0, 7]"] copy_range_exact [of 1 2 0 True None "[1, 2]"]
  by (simp add: write_at_def py_slice_def slice_index_def zeros_unfold)

end
