(* ===== verification/Boot_Image.thy ===== *)
theory Boot_Image
  imports Esp_Files Efi_Auth Json_Text
begin

text \<open>
  Signed disk images, \<^verbatim>\<open>mkosi/private/secure_boot_image.py\<close>: the ESP files that are replaced by their signed
  versions, the enrolled keys, and the image whose partition is rewritten. Parameters:
  \<open>sha256\<close>; \<open>parse\<close>, the JSON parser; \<open>unpack\<close>, the tree that \<^verbatim>\<open>mcopy\<close> copies out of a FAT image;
  \<open>mtools\<close>, the FAT image after \<^verbatim>\<open>mmd\<close> of some directories and \<^verbatim>\<open>mcopy\<close> of some files with one timestamp;
  \<open>trusts\<close>, whether \<^verbatim>\<open>openssl verify\<close> accepts a signer under a bundle and a chain; \<open>signer_of\<close>, the signer
  and the certificates that \<^verbatim>\<open>openssl smime\<close> and \<^verbatim>\<open>openssl pkcs7\<close> write for a signature. \<^const>\<open>None\<close> is a failed tool.
  Texts and paths have code points up to 255.
\<close>

section \<open>Replacements\<close>

definition SIGNED_IMAGE_FORMAT :: string where "SIGNED_IMAGE_FORMAT = ''mkosi-secure-boot-signed-image-v2''"
definition IMAGE_MANIFEST_FORMAT :: string where "IMAGE_MANIFEST_FORMAT = ''mkosi-secure-boot-esp-manifest-v1''"
definition ESP_MANIFEST :: string where "ESP_MANIFEST = ''loader/rules_mkosi-secure-boot.json''"
definition LOADER_CONF :: string where "LOADER_CONF = ''loader/loader.conf''"
definition LOADER_KEYS :: string where "LOADER_KEYS = ''loader/keys/auto''"
definition FAT_EPOCH :: int where "FAT_EPOCH = 315532800"

record replacement =
  rp_certificate :: bytes
  rp_name :: "string json"
  rp_paths :: "string list"
  rp_signed :: bytes

text \<open>
  The keys are the JSON values of the requests; a list or a dictionary cannot be a key. Numbers of different types that
  Python holds equal are different keys here; a file never has such a digest, so the request is unused.
\<close>

type_synonym replacements = "(string json, replacement) dict"

definition unhashable :: "string json \<Rightarrow> bool" where
  "unhashable v \<longleftrightarrow> (case v of JList _ \<Rightarrow> True | JObj _ \<Rightarrow> True | _ \<Rightarrow> False)"

definition add_replacement ::
    "(bytes \<Rightarrow> string json option) \<Rightarrow> bytes \<times> bytes \<times> bytes \<Rightarrow> replacements \<Rightarrow> boot_error + replacements" where
  "add_replacement parse arg rs =
     (case arg of (chosen, request, cert) \<Rightarrow>
       rbind (boot_json parse request) (\<lambda>document.
       rbind (json_subscript document ''unsigned_sha256'') (\<lambda>digest.
         if unhashable digest then Inl Boot_type
         else if digest \<in> fst ` set rs then Inl (Boot_value ''two signed binaries replace the same unsigned binary'')
         else
           rbind (isolated_certificate_der cert) (\<lambda>der.
           rbind (json_subscript document ''esp_path'') (\<lambda>esp_path.
             Inr (rs @ [(digest, \<lparr>rp_certificate = der,
               rp_name = (if json_truthy esp_path then esp_path else JStr ''the UKI''), rp_paths = [], rp_signed = chosen\<rparr>)]))))))"

fun replacements_loop ::
    "(bytes \<Rightarrow> string json option) \<Rightarrow> (bytes \<times> bytes \<times> bytes) list \<Rightarrow> replacements \<Rightarrow> boot_error + replacements" where
  "replacements_loop parse [] rs = Inr rs"
| "replacements_loop parse (arg # args) rs = rbind (add_replacement parse arg rs) (replacements_loop parse args)"

definition image_replacements :: "(bytes \<Rightarrow> string json option) \<Rightarrow> (bytes \<times> bytes \<times> bytes) list \<Rightarrow> boot_error + replacements" where
  "image_replacements parse signed_arguments = replacements_loop parse signed_arguments []"

section \<open>The binaries of the partition\<close>

definition is_unsigned_pe :: "bytes \<Rightarrow> bool" where
  "is_unsigned_pe data \<longleftrightarrow> \<not> isl (parse_pe data False)"

text \<open>\<^verbatim>\<open>line.split(None, 1)\<close> with two fields: the first word, and what follows it if that is not blank.\<close>

definition first_word :: "string \<Rightarrow> (string \<times> string) option" where
  "first_word line =
     (let s = lstrip line; rest = lstrip (dropWhile (\<lambda>c. \<not> isspace c) s)
      in if s = [] \<or> rest = [] then None else Some (takeWhile (\<lambda>c. \<not> isspace c) s, rest))"

definition unquote :: "string \<Rightarrow> string" where
  "unquote v = (if length v \<ge> 2 \<and> hd v = CHR 0x22 \<and> last v = CHR 0x22 then butlast (tl v) else v)"

definition entry_binary :: "string \<Rightarrow> string option" where
  "entry_binary line =
     (case first_word line of
        Some (key, rest) \<Rightarrow>
          if key = ''linux'' \<or> key = ''efi''
          then Some (str_lower (dropWhile (\<lambda>c. c = CHR ''/'') (replace_char (CHR 0x5C) ''/'' (unquote (strip rest)))))
          else None
      | None \<Rightarrow> None)"

definition entry_binaries :: "string \<Rightarrow> string list" where
  "entry_binaries s = List.map_filter entry_binary (splitlines s)"

text \<open>
  Decoding with replacement characters: a byte that is not part of a character up to 255 becomes a question
  mark, which no FAT file name has. Separators among the greater code points are not recognised.
\<close>

fun utf8_replace :: "bytes \<Rightarrow> string" where
  "utf8_replace [] = []"
| "utf8_replace [b] = [if uint b < 128 then char_of (uint b) else CHR 0x3F]"
| "utf8_replace (b # c # bs) =
     (if uint b < 128 then char_of (uint b) # utf8_replace (c # bs)
      else case utf8_decode [b, c] of
          Some s \<Rightarrow> s @ utf8_replace bs
        | None \<Rightarrow> CHR 0x3F # utf8_replace (c # bs))"

definition is_entry_file :: "string \<Rightarrow> bool" where
  "is_entry_file path \<longleftrightarrow> starts_with ''loader/entries/'' (str_lower path) \<and> ends_with ''.conf'' (str_lower path)"

definition referenced :: "esp_tree \<Rightarrow> boot_error + string list" where
  "referenced tree =
     rbind (rmap (\<lambda>path. rbind (tree_read tree path) (\<lambda>data. Inr (entry_binaries (utf8_replace data))))
       (filter is_entry_file (tree_files tree))) (\<lambda>sigs. Inr (concat sigs))"

definition startable :: "esp_tree \<Rightarrow> string list \<Rightarrow> boot_error + string list" where
  "startable tree esp_paths =
     rbind (referenced tree) (\<lambda>refs.
       Inr (filter (\<lambda>path. ends_with ''.efi'' (str_lower path) \<or> str_lower path \<in> set refs) esp_paths))"

definition digest_key :: "(bytes \<Rightarrow> bytes) \<Rightarrow> bytes \<Rightarrow> string json" where
  "digest_key sha256 data = JStr (hex (sha256 data))"

fun assign_loop ::
    "(bytes \<Rightarrow> bytes) \<Rightarrow> esp_tree \<Rightarrow> string list \<Rightarrow> replacements \<Rightarrow> string list \<Rightarrow> string list \<Rightarrow>
     boot_error + replacements \<times> string list \<times> string list" where
  "assign_loop sha256 tree [] rs bare presigned = Inr (rs, bare, presigned)"
| "assign_loop sha256 tree (path # paths) rs bare presigned =
     rbind (tree_read tree path) (\<lambda>data.
       case map_of rs (digest_key sha256 data) of
         Some r \<Rightarrow>
           assign_loop sha256 tree paths
             (dict_set (digest_key sha256 data) (r\<lparr>rp_paths := rp_paths r @ [path]\<rparr>) rs) bare presigned
       | None \<Rightarrow>
           if is_pe data then
             (if is_unsigned_pe data then assign_loop sha256 tree paths rs (bare @ [path]) presigned
              else assign_loop sha256 tree paths rs bare (presigned @ [path]))
           else assign_loop sha256 tree paths rs bare presigned)"

text \<open>
  The names of unused replacements are joined to a message, a \<^verbatim>\<open>TypeError\<close> unless all of them are texts.
\<close>

definition assign :: "(bytes \<Rightarrow> bytes) \<Rightarrow> esp_tree \<Rightarrow> replacements \<Rightarrow> boot_error + replacements \<times> string list" where
  "assign sha256 tree rs =
     rbind (assign_loop sha256 tree (tree_files tree) rs [] []) (\<lambda>(rs', bare, presigned).
       let unused = filter (\<lambda>r. rp_paths r = []) (map snd rs')
       in if unused \<noteq> [] then
         (if \<forall>r \<in> set unused. (case rp_name r of JStr _ \<Rightarrow> True | _ \<Rightarrow> False)
          then Inl (Boot_value ''the ESP holds no unsigned copy of the signed binaries'') else Inl Boot_type)
       else if bare \<noteq> [] then Inl (Boot_value ''the ESP would keep unsigned PE/COFF binaries'')
       else rbind (startable tree presigned) (\<lambda>presigned. Inr (rs', presigned)))"

section \<open>Enrollment keys\<close>

text \<open>\<^verbatim>\<open>Path(name).suffix\<close> and \<^verbatim>\<open>Path(name).stem\<close> of a file name\<close>

definition path_suffix :: "string \<Rightarrow> string" where
  "path_suffix name =
     (case split_last (CHR ''.'') name of
        Some (stem, ext) \<Rightarrow> if stem \<noteq> [] \<and> ext \<noteq> [] then ''.'' @ ext else []
      | None \<Rightarrow> [])"

definition path_stem :: "string \<Rightarrow> string" where
  "path_stem name = take (length name - length (path_suffix name)) name"

type_synonym signature_lists = "(uuid \<times> bytes list) list"
type_synonym enrollment_keys = "(string, bytes \<times> signature_lists) dict"

text \<open>The arguments are the names and the contents of the files. A \<^verbatim>\<open>ValueError\<close> or \<^verbatim>\<open>struct.error\<close> of the parser is reported as a \<^verbatim>\<open>ValueError\<close>.\<close>

fun enrollment_loop :: "(string \<times> bytes) list \<Rightarrow> enrollment_keys \<Rightarrow> boot_error + enrollment_keys" where
  "enrollment_loop [] keys = Inr keys"
| "enrollment_loop ((name, data) # paths) keys =
     (if path_suffix name \<noteq> ''.auth'' \<or> path_stem name \<in> fst ` set keys
      then Inl (Boot_value ''auto-enrollment files must be distinct <variable>.auth files'')
      else
        case parse_auth (path_stem name) data of
          Inl e \<Rightarrow> Inl (Boot_value ''invalid .auth file'')
        | Inr (_, sigs) \<Rightarrow> enrollment_loop paths (keys @ [(path_stem name, (data, sigs))]))"

definition enrollment_keys :: "(string \<times> bytes) list \<Rightarrow> boot_error + enrollment_keys" where
  "enrollment_keys paths =
     rbind (enrollment_loop paths []) (\<lambda>keys.
       if \<exists>name \<in> set REQUIRED. name \<notin> fst ` set keys then Inl (Boot_value ''auto-enrollment needs more files'')
       else Inr keys)"

section \<open>The manifest of the partition\<close>

definition key_path :: "string \<Rightarrow> string" where
  "key_path name = LOADER_KEYS @ ''/'' @ name @ ''.auth''"

definition describe_key :: "(bytes \<Rightarrow> bytes) \<Rightarrow> string \<Rightarrow> bytes \<times> signature_lists \<Rightarrow> string json" where
  "describe_key sha256 name key =
     (case key of (data, sigs) \<Rightarrow> JObj
       [(''esp_path'', JStr (key_path name)),
        (''sha256'', digest_key sha256 data),
        (''signature_count'', JInt (sum_list (map (\<lambda>(_, entries). len entries) sigs))),
        (''size'', JInt (len data)),
        (''variable'', JStr name),
        (''x509_sha256'', JList (map (digest_key sha256) (x509_certificates sigs)))])"

definition describe_keys :: "(bytes \<Rightarrow> bytes) \<Rightarrow> enrollment_keys \<Rightarrow> string json list" where
  "describe_keys sha256 keys =
     List.map_filter (\<lambda>name. map_option (describe_key sha256 name) (map_of keys name)) (map fst VARIABLES)"

definition describe_replacements :: "(bytes \<Rightarrow> bytes) \<Rightarrow> replacements \<Rightarrow> string json list" where
  "describe_replacements sha256 rs =
     map snd (sort_key fst (concat (map (\<lambda>(digest, r). map (\<lambda>esp_path. (esp_path, JObj
       [(''esp_path'', JStr esp_path),
        (''signed_sha256'', digest_key sha256 (rp_signed r)),
        (''signer_sha256'', digest_key sha256 (rp_certificate r)),
        (''unsigned_sha256'', digest)])) (rp_paths r)) rs)))"

definition build_esp_manifest :: "(bytes \<Rightarrow> bytes) \<Rightarrow> replacements \<Rightarrow> enrollment_keys \<Rightarrow> string \<Rightarrow> (string, string json) dict" where
  "build_esp_manifest sha256 rs keys mode =
     [(''auto_enroll_keys'', JList (describe_keys sha256 keys)),
      (''format_version'', JStr IMAGE_MANIFEST_FORMAT),
      (''replaced'', JList (describe_replacements sha256 rs)),
      (''secure_boot_enroll'', if keys \<noteq> [] then JStr mode else JNull)]"

section \<open>Trust\<close>

definition embedded_signer :: "(bytes \<Rightarrow> (bytes \<times> bytes) option) \<Rightarrow> esp_tree \<Rightarrow> string \<Rightarrow> boot_error + bytes \<times> bytes option" where
  "embedded_signer signer_of tree esp_path =
     rbind (tree_read tree esp_path) (\<lambda>data.
       case embedded_authenticode data of
         Inl e \<Rightarrow> Inl (Boot_value ''cannot read the Authenticode signature'')
       | Inr payload \<Rightarrow>
           (case signer_of payload of
              None \<Rightarrow> Inl (Boot_value ''the Authenticode signature does not verify'')
            | Some (signer, chain) \<Rightarrow> Inr (signer, if chain \<noteq> [] then Some chain else None)))"

fun check_replacements :: "(bytes \<Rightarrow> bytes \<Rightarrow> bytes option \<Rightarrow> bool) \<Rightarrow> bytes list \<Rightarrow> bytes \<Rightarrow> replacement list \<Rightarrow> boot_error + unit" where
  "check_replacements trusts trusted bundle_pem [] = Inr ()"
| "check_replacements trusts trusted bundle_pem (r # rs) =
     (if rp_certificate r \<notin> set trusted \<and> \<not> trusts bundle_pem (certificate_pem (rp_certificate r)) None
      then Inl (Boot_value ''db.auth does not trust the certificate'')
      else check_replacements trusts trusted bundle_pem rs)"

fun check_presigned ::
    "(bytes \<Rightarrow> bytes \<Rightarrow> bytes option \<Rightarrow> bool) \<Rightarrow> (bytes \<Rightarrow> (bytes \<times> bytes) option) \<Rightarrow> esp_tree \<Rightarrow> bytes \<Rightarrow> string list \<Rightarrow>
     boot_error + unit" where
  "check_presigned trusts signer_of tree bundle_pem [] = Inr ()"
| "check_presigned trusts signer_of tree bundle_pem (esp_path # presigned) =
     rbind (embedded_signer signer_of tree esp_path) (\<lambda>(signer, chain).
       if \<not> trusts bundle_pem signer chain then Inl (Boot_value ''db.auth does not trust the certificate'')
       else check_presigned trusts signer_of tree bundle_pem presigned)"

definition check_db_trusts ::
    "(bytes \<Rightarrow> bytes \<Rightarrow> bytes option \<Rightarrow> bool) \<Rightarrow> (bytes \<Rightarrow> (bytes \<times> bytes) option) \<Rightarrow> signature_lists \<Rightarrow> replacements \<Rightarrow>
     esp_tree \<Rightarrow> string list \<Rightarrow> boot_error + unit" where
  "check_db_trusts trusts signer_of db_lists rs tree presigned =
     (let trusted = x509_certificates db_lists; bundle_pem = concat (map certificate_pem trusted)
      in rbind (check_replacements trusts trusted bundle_pem (map snd rs)) (\<lambda>_.
           check_presigned trusts signer_of tree bundle_pem presigned))"

section \<open>The changes\<close>

definition find_path :: "string list \<Rightarrow> string \<Rightarrow> string option" where
  "find_path tree_paths esp_path = find (\<lambda>path. str_lower path = str_lower esp_path) tree_paths"

definition is_enroll_line :: "string \<Rightarrow> bool" where
  "is_enroll_line line \<longleftrightarrow> take 1 (split_ws line) = [''secure-boot-enroll'']"

definition loader_conf :: "esp_tree \<Rightarrow> string \<Rightarrow> boot_error + string \<times> string" where
  "loader_conf tree mode =
     (let existing = find_path (tree_files tree) LOADER_CONF
      in rbind (case existing of
             Some path \<Rightarrow> rbind (rbind (tree_read tree path) boot_text) (\<lambda>s. Inr (splitlines s))
           | None \<Rightarrow> Inr []) (\<lambda>lines.
         let kept = filter (\<lambda>line. \<not> is_enroll_line line) lines
         in Inr (case existing of Some path \<Rightarrow> path | None \<Rightarrow> LOADER_CONF,
              join_with ''\<newline>'' (kept @ [''secure-boot-enroll '' @ mode]) @ ''\<newline>'')))"

type_synonym esp_changes = "(string, bytes) dict"

definition replaced_files :: "replacements \<Rightarrow> esp_changes" where
  "replaced_files rs = fold (\<lambda>(esp_path, data). dict_set esp_path data)
     (concat (map (\<lambda>(_, r). map (\<lambda>esp_path. (esp_path, rp_signed r)) (rp_paths r)) rs)) []"

definition key_files :: "enrollment_keys \<Rightarrow> esp_changes \<Rightarrow> esp_changes" where
  "key_files keys changes = fold (\<lambda>(name, (data, _)). dict_set (key_path name) data) (sort_key fst keys) changes"

record image_args =
  ia_image :: bytes
  ia_partition_metadata :: bytes
  ia_signed :: "(bytes \<times> bytes \<times> bytes) list"
  ia_auto_enroll_key :: "(string \<times> bytes) list"
  ia_secure_boot_enroll :: string

definition image_changes ::
    "(bytes \<Rightarrow> bytes) \<Rightarrow> (bytes \<Rightarrow> bytes \<Rightarrow> bytes option \<Rightarrow> bool) \<Rightarrow> (bytes \<Rightarrow> (bytes \<times> bytes) option) \<Rightarrow> image_args \<Rightarrow>
     esp_tree \<Rightarrow> replacements \<Rightarrow> string list \<Rightarrow> boot_error + esp_changes \<times> (string, string json) dict" where
  "image_changes sha256 trusts signer_of args tree rs presigned =
     rbind
       (if ia_auto_enroll_key args = [] then Inr ([], replaced_files rs)
        else
          rbind (enrollment_keys (ia_auto_enroll_key args)) (\<lambda>keys.
          rbind (of_option (Boot_key ''db'') (map_of keys ''db'')) (\<lambda>(_, db_lists).
          rbind (check_db_trusts trusts signer_of db_lists rs tree presigned) (\<lambda>_.
          rbind (loader_conf tree (ia_secure_boot_enroll args)) (\<lambda>(esp_path, content).
            Inr (keys, dict_set esp_path (utf8_encode content) (key_files keys (replaced_files rs)))))))) (\<lambda>(keys, changes).
       let manifest = build_esp_manifest sha256 rs keys (ia_secure_boot_enroll args);
           manifest_path = (case find_path (tree_files tree) ESP_MANIFEST of Some path \<Rightarrow> path | None \<Rightarrow> ESP_MANIFEST)
       in Inr (dict_set manifest_path (pretty_json (JObj manifest)) changes, manifest))"

text \<open>\<^verbatim>\<open>Path(p).parents\<close> of a relative path without the last one, which is \<^verbatim>\<open>.\<close>\<close>

definition esp_parents :: "string \<Rightarrow> string list" where
  "esp_parents path = (let cs = split_on (CHR ''/'') path in map (\<lambda>n. join_with ''/'' (take n cs)) (rev [1..<length cs]))"

definition missing_directories :: "esp_tree \<Rightarrow> esp_changes \<Rightarrow> string list" where
  "missing_directories tree changes =
     (let existing = map str_lower (et_dirs tree); needed = concat (map (esp_parents \<circ> fst) changes)
      in sort_key length (filter (\<lambda>directory. str_lower directory \<notin> set existing) (sorted_set needed)))"

section \<open>The image\<close>

definition esp_epoch :: "esp_tree \<Rightarrow> int" where
  "esp_epoch tree = (if et_files tree = [] then FAT_EPOCH else Max (ef_mtime ` snd ` set (et_files tree)))"

text \<open>The rewritten partition and the tree that is copied out of it again.\<close>

definition apply_changes ::
    "(int \<Rightarrow> bytes \<Rightarrow> string list \<Rightarrow> (string \<times> bytes) list \<Rightarrow> bytes option) \<Rightarrow> (bytes \<Rightarrow> esp_tree option) \<Rightarrow> bytes \<Rightarrow> esp_tree \<Rightarrow>
     esp_changes \<Rightarrow> boot_error + bytes \<times> esp_tree" where
  "apply_changes mtools unpack esp tree changes =
     rbind (of_option Boot_tool (mtools (esp_epoch tree) esp (missing_directories tree changes) (sort_key fst changes))) (\<lambda>esp'.
     rbind (of_option Boot_tool (unpack esp')) (\<lambda>tree'. Inr (esp', tree')))"

fun verify_changes :: "esp_tree \<Rightarrow> esp_changes \<Rightarrow> boot_error + unit" where
  "verify_changes tree [] = Inr ()"
| "verify_changes tree ((esp_path, data) # changes) =
     (case find_path (tree_files tree) esp_path of
        None \<Rightarrow> Inl (Boot_value ''the rewritten ESP does not hold a changed file'')
      | Some found \<Rightarrow>
          rbind (tree_read tree found) (\<lambda>now.
            if now \<noteq> data then Inl (Boot_value ''the rewritten ESP does not hold a changed file'')
            else verify_changes tree changes))"

definition image_metadata :: "(string, string json) dict \<Rightarrow> esp_changes \<Rightarrow> string json" where
  "image_metadata manifest changes =
     (let paths = sort (map fst changes)
      in JObj (fold (\<lambda>(k, v). dict_set k v)
        [(''changed_esp_paths'', JList (map JStr paths)),
         (''esp_manifest'', case find_path paths ESP_MANIFEST of Some path \<Rightarrow> JStr path | None \<Rightarrow> JNull),
         (''format_version'', JStr SIGNED_IMAGE_FORMAT)] manifest))"

definition sign_image ::
    "(bytes \<Rightarrow> bytes) \<Rightarrow> (bytes \<Rightarrow> string json option) \<Rightarrow>
     (int \<Rightarrow> bytes \<Rightarrow> string list \<Rightarrow> (string \<times> bytes) list \<Rightarrow> bytes option) \<Rightarrow> (bytes \<Rightarrow> esp_tree option) \<Rightarrow>
     (bytes \<Rightarrow> bytes \<Rightarrow> bytes option \<Rightarrow> bool) \<Rightarrow> (bytes \<Rightarrow> (bytes \<times> bytes) option) \<Rightarrow> image_args \<Rightarrow>
     boot_error + bytes \<times> bytes" where
  "sign_image sha256 parse mtools unpack trusts signer_of args =
     rbind (image_replacements parse (ia_signed args)) (\<lambda>rs.
     rbind (extract_esp parse (ia_image args) (ia_partition_metadata args)) (\<lambda>(esp, offset).
     rbind (of_option Boot_tool (unpack esp)) (\<lambda>tree.
     rbind (assign sha256 tree rs) (\<lambda>(rs, presigned).
     rbind (image_changes sha256 trusts signer_of args tree rs presigned) (\<lambda>(changes, manifest).
     rbind (apply_changes mtools unpack esp tree changes) (\<lambda>(esp', tree').
     rbind (verify_changes tree' changes) (\<lambda>_.
     rbind (copy_range (ia_image args) None 0 (len (ia_image args)) 0 True) (\<lambda>copied.
     rbind (copy_range esp' (Some copied) 0 (len esp') offset False) (\<lambda>output.
       Inr (output, pretty_json (image_metadata manifest changes)))))))))))"

end
