(* ===== verification/Boot_Image_Safety.thy ===== *)
theory Boot_Image_Safety
  imports Boot_Image "HOL-Library.Sublist"
begin

text \<open>
  What a signed image guarantees, for \<^verbatim>\<open>secure_boot_image.py\<close>: which bytes change, and that no unsigned boot
  binary is left on the partition.
\<close>

section \<open>Which files are replaced\<close>

definition esp_data :: "esp_tree \<Rightarrow> string \<Rightarrow> bytes" where
  "esp_data tree path = (case tree_read tree path of Inr data \<Rightarrow> data | Inl _ \<Rightarrow> [])"

lemma tree_read_data: "path \<in> set (tree_files tree) \<Longrightarrow> tree_read tree path = Inr (esp_data tree path)"
  using tree_read_exists by (fastforce simp: esp_data_def)

lemma tree_read_Inr:
  assumes "tree_read tree p = Inr data"
  shows "p \<in> set (tree_files tree) \<and> data = esp_data tree p"
proof
  show "data = esp_data tree p" using assms by (simp add: esp_data_def)
  from assms obtain v where "map_of (et_files tree) p = Some v" by (auto simp: tree_read_def)
  then show "p \<in> set (tree_files tree)" by (auto dest: map_of_SomeD intro: rev_image_eqI)
qed

lemma dict_set_map:
  "distinct (map fst d) \<Longrightarrow> map_of d k = Some v \<Longrightarrow> dict_set k (f v) d = map (\<lambda>(k', x). (k', if k' = k then f x else x)) d"
proof (induction d)
  case (Cons p d)
  show ?case
  proof (cases "fst p = k")
    case True
    with Cons.prems have "\<forall>q \<in> set d. fst q \<noteq> k" by (auto simp: image_iff)
    then have "map (\<lambda>(k', x). (k', if k' = k then f x else x)) d = d" by (intro map_idI) auto
    with True Cons.prems show ?thesis by (cases p) auto
  next
    case False
    with Cons show ?thesis by (cases p) simp
  qed
qed simp

definition matching :: "(bytes \<Rightarrow> bytes) \<Rightarrow> esp_tree \<Rightarrow> string list \<Rightarrow> replacements \<Rightarrow> replacements" where
  "matching sha256 tree paths rs =
     map (\<lambda>(k, r). (k, r\<lparr>rp_paths := rp_paths r @ filter (\<lambda>p. digest_key sha256 (esp_data tree p) = k) paths\<rparr>)) rs"

definition unmatched :: "(bytes \<Rightarrow> bytes) \<Rightarrow> esp_tree \<Rightarrow> replacements \<Rightarrow> string \<Rightarrow> bool" where
  "unmatched sha256 tree rs p \<longleftrightarrow> digest_key sha256 (esp_data tree p) \<notin> fst ` set rs \<and> is_pe (esp_data tree p)"

lemma matching_keys [simp]: "map fst (matching sha256 tree paths rs) = map fst rs" "fst ` set (matching sha256 tree paths rs) = fst ` set rs"
  by (force simp: matching_def)+

lemma matching_Cons:
  assumes "distinct (map fst rs)" "map_of rs (digest_key sha256 (esp_data tree p)) = Some r"
  shows "matching sha256 tree paths (dict_set (digest_key sha256 (esp_data tree p)) (r\<lparr>rp_paths := rp_paths r @ [p]\<rparr>) rs) =
    matching sha256 tree (p # paths) rs"
  unfolding matching_def dict_set_map [OF assms, where f = "\<lambda>r. r\<lparr>rp_paths := rp_paths r @ [p]\<rparr>"] by auto

lemma matching_skip:
  "digest_key sha256 (esp_data tree p) \<notin> fst ` set rs \<Longrightarrow> matching sha256 tree (p # paths) rs = matching sha256 tree paths rs"
  by (force simp: matching_def)

lemma assign_loop_eq:
  assumes "set paths \<subseteq> set (tree_files tree)" "distinct (map fst rs)"
  shows "assign_loop sha256 tree paths rs bare pre = Inr (matching sha256 tree paths rs,
    bare @ filter (\<lambda>p. unmatched sha256 tree rs p \<and> is_unsigned_pe (esp_data tree p)) paths,
    pre @ filter (\<lambda>p. unmatched sha256 tree rs p \<and> \<not> is_unsigned_pe (esp_data tree p)) paths)"
  using assms
proof (induction paths arbitrary: rs bare pre)
  case Nil
  then show ?case by (auto simp: matching_def)
next
  case (Cons p paths)
  have r: "tree_read tree p = Inr (esp_data tree p)" using Cons.prems(1) by (intro tree_read_data) simp
  let ?k = "digest_key sha256 (esp_data tree p)"
  show ?case
  proof (cases "map_of rs ?k")
    case None
    then have "?k \<notin> fst ` set rs" by (simp add: map_of_eq_None_iff)
    with None Cons show ?thesis by (simp add: r unmatched_def matching_skip)
  next
    case (Some r')
    let ?rs = "dict_set ?k (r'\<lparr>rp_paths := rp_paths r' @ [p]\<rparr>) rs"
    have k: "?k \<in> fst ` set rs" using Some by (metis domI dom_map_of_conv_image_fst)
    then have keys: "map fst ?rs = map fst rs" by (simp add: keys_dict_set)
    then have "fst ` set ?rs = fst ` set rs" by (metis list.set_map)
    then have "unmatched sha256 tree ?rs = unmatched sha256 tree rs" by (simp add: unmatched_def fun_eq_iff)
    with Some Cons k keys show ?thesis by (simp add: r matching_Cons) (simp add: unmatched_def)
  qed
qed

lemma assign_Inr:
  assumes "assign sha256 tree rs = Inr (rs', presigned)" "distinct (map fst rs)"
  shows "rs' = matching sha256 tree (tree_files tree) rs"
    and "\<And>k r. (k, r) \<in> set rs' \<Longrightarrow> rp_paths r \<noteq> []"
    and "\<And>p. p \<in> set (tree_files tree) \<Longrightarrow> unmatched sha256 tree rs p \<Longrightarrow> \<not> is_unsigned_pe (esp_data tree p)"
    and "startable tree (filter (unmatched sha256 tree rs) (tree_files tree)) = Inr presigned"
proof -
  let ?bad = "filter (\<lambda>p. unmatched sha256 tree rs p \<and> is_unsigned_pe (esp_data tree p)) (tree_files tree)"
  from assms(1) have a: "?bad = []" "rs' = matching sha256 tree (tree_files tree) rs"
    "filter (\<lambda>r. rp_paths r = []) (map snd rs') = []"
    "startable tree (filter (\<lambda>p. unmatched sha256 tree rs p \<and> \<not> is_unsigned_pe (esp_data tree p)) (tree_files tree)) = Inr presigned"
    by (auto simp: assign_def assign_loop_eq [OF subset_refl assms(2)] Let_def simp del: set_tree_files split: if_split_asm)
  then show "rs' = matching sha256 tree (tree_files tree) rs" by simp
  show "rp_paths r \<noteq> []" if "(k, r) \<in> set rs'" for k r
    using a(3) that by (force simp: filter_empty_conv)
  show nu: "\<not> is_unsigned_pe (esp_data tree p)" if "p \<in> set (tree_files tree)" "unmatched sha256 tree rs p" for p
    using a(1) that by (auto simp: filter_empty_conv)
  have "filter (\<lambda>p. unmatched sha256 tree rs p \<and> \<not> is_unsigned_pe (esp_data tree p)) (tree_files tree) =
      filter (unmatched sha256 tree rs) (tree_files tree)"
    using nu by (intro filter_cong) auto
  with a(4) show "startable tree (filter (unmatched sha256 tree rs) (tree_files tree)) = Inr presigned" by simp
qed

section \<open>The signed binaries\<close>

text \<open>A replacement answers the argument that it was made from.\<close>

definition answers :: "(bytes \<Rightarrow> string json option) \<Rightarrow> bytes \<times> bytes \<times> bytes \<Rightarrow> string json \<times> replacement \<Rightarrow> bool" where
  "answers parse arg kr \<longleftrightarrow>
     (case (arg, kr) of ((chosen, request, cert), (k, r)) \<Rightarrow>
       (\<exists>document. parse request = Some document \<and> json_get document ''unsigned_sha256'' = Some k) \<and>
       rp_signed r = chosen \<and> isolated_certificate_der cert = Inr (rp_certificate r) \<and> rp_paths r = [])"

lemma json_subscript_Inr: "json_subscript v key = Inr x \<Longrightarrow> json_get v key = Some x"
  by (cases v) (auto simp: json_subscript_def)

lemma add_replacement_Inr:
  assumes "add_replacement parse arg rs = Inr rs'"
  shows "rs' = rs @ [last rs'] \<and> answers parse arg (last rs') \<and> fst (last rs') \<notin> fst ` set rs"
  using assms
  by (auto simp: add_replacement_def boot_json_def answers_def image_iff dest!: json_subscript_Inr split: prod.split_asm if_split_asm)

lemma replacements_loop_Inr:
  "replacements_loop parse args rs0 = Inr rs \<Longrightarrow> distinct (map fst rs0) \<Longrightarrow>
     \<exists>new. rs = rs0 @ new \<and> list_all2 (answers parse) args new \<and> distinct (map fst rs)"
proof (induction args arbitrary: rs0)
  case (Cons arg args)
  then obtain rs1 where r: "add_replacement parse arg rs0 = Inr rs1" "replacements_loop parse args rs1 = Inr rs" by auto
  from add_replacement_Inr [OF r(1)] obtain kr where
    kr: "rs1 = rs0 @ [kr]" "answers parse arg kr" "fst kr \<notin> fst ` set rs0" by blast
  with Cons.prems(2) have "distinct (map fst rs1)" by auto
  from Cons.IH [OF r(2) this] kr show ?case by force
qed simp

lemma image_replacements_Inr:
  assumes "image_replacements parse args = Inr rs"
  shows "list_all2 (answers parse) args rs" "distinct (map fst rs)"
  using replacements_loop_Inr [of parse args "[]" rs] assms by (auto simp: image_replacements_def)

lemma map_of_fold_dict_set:
  "map_of (fold (\<lambda>(k, v). dict_set k v) kvs d) k = (case map_of (rev kvs) k of Some v \<Rightarrow> Some v | None \<Rightarrow> map_of d k)"
  by (induction kvs arbitrary: d) (auto simp: map_add_def split: option.split)

lemma map_of_functional:
  assumes "(k, v) \<in> set kvs" "\<And>v'. (k, v') \<in> set kvs \<Longrightarrow> v' = v"
  shows "map_of kvs k = Some v"
  using assms by (metis map_of_SomeD weak_map_of_SomeI)

lemma replaced_files_matching:
  assumes "distinct (map fst rs)" "(k, r) \<in> set (matching sha256 tree paths rs)" "p \<in> set (rp_paths r)"
    and "\<And>k r. (k, r) \<in> set rs \<Longrightarrow> rp_paths r = []"
  shows "map_of (replaced_files (matching sha256 tree paths rs)) p = Some (rp_signed r)"
proof -
  let ?rs = "matching sha256 tree paths rs"
  let ?pairs = "concat (map (\<lambda>(_, r). map (\<lambda>esp_path. (esp_path, rp_signed r)) (rp_paths r)) ?rs)"
  have key: "k' = digest_key sha256 (esp_data tree p)" if "(k', r') \<in> set ?rs" "p \<in> set (rp_paths r')" for k' r'
    using that assms(4) by (auto simp: matching_def)
  have "map_of (rev ?pairs) p = Some (rp_signed r)"
  proof (rule map_of_functional)
    show "(p, rp_signed r) \<in> set (rev ?pairs)" using assms(2,3) by force
    show "v' = rp_signed r" if "(p, v') \<in> set (rev ?pairs)" for v'
    proof -
      from that obtain k' r' where r': "(k', r') \<in> set ?rs" "p \<in> set (rp_paths r')" "v' = rp_signed r'" by auto
      have "k' = k" using key [OF r'(1,2)] key [OF assms(2,3)] by simp
      moreover have "distinct (map fst ?rs)" using assms(1) by simp
      ultimately have "r' = r" using r'(1) assms(2) by (metis eq_key_imp_eq_value)
      with r'(3) show ?thesis by simp
    qed
  qed
  then show ?thesis by (simp add: replaced_files_def map_of_fold_dict_set)
qed

section \<open>The changes\<close>

text \<open>The paths that the build manages itself: the loader configuration, the manifest and the enrolled keys.\<close>

definition managed :: "string \<Rightarrow> bool" where
  "managed p \<longleftrightarrow> str_lower p = LOADER_CONF \<or> str_lower p = ESP_MANIFEST \<or> (\<exists>name \<in> fst ` set VARIABLES. p = key_path name)"

lemma lower_constants [simp]: "str_lower LOADER_CONF = LOADER_CONF" "str_lower ESP_MANIFEST = ESP_MANIFEST"
  by code_simp+

lemma find_path_Some: "find_path paths p = Some q \<Longrightarrow> q \<in> set paths \<and> str_lower q = str_lower p"
  by (auto simp: find_path_def find_Some_iff)

lemma find_path_lower: "str_lower (case find_path paths p of Some q \<Rightarrow> q | None \<Rightarrow> p) = str_lower p"
  using find_path_Some by (auto split: option.split)

lemma loader_conf_path: "loader_conf tree mode = Inr (p, content) \<Longrightarrow> str_lower p = LOADER_CONF"
  using find_path_lower [of LOADER_CONF "tree_files tree"] by (auto simp: loader_conf_def Let_def)

lemma key_path_lower: "str_lower (key_path name) \<noteq> LOADER_CONF" "str_lower (key_path name) \<noteq> ESP_MANIFEST"
  by (simp_all add: key_path_def LOADER_KEYS_def LOADER_CONF_def ESP_MANIFEST_def str_lower_def char_lower_def)

lemma enrollment_loop_Inr:
  "enrollment_loop paths keys0 = Inr keys \<Longrightarrow> distinct (map fst keys0) \<Longrightarrow> fst ` set keys0 \<subseteq> fst ` set VARIABLES \<Longrightarrow>
     \<exists>new. keys = keys0 @ new \<and> map (\<lambda>(name, data). (path_stem name, data)) paths = map (\<lambda>(name, (data, _)). (name, data)) new \<and>
       distinct (map fst keys) \<and> fst ` set keys \<subseteq> fst ` set VARIABLES"
proof (induction paths keys0 rule: enrollment_loop.induct)
  case (2 name data paths keys0)
  from 2(2) obtain der sigs where p: "path_stem name \<notin> fst ` set keys0" "parse_auth (path_stem name) data = Inr (der, sigs)"
    "\<not> (path_suffix name \<noteq> ''.auth'' \<or> path_stem name \<in> fst ` set keys0)"
    "enrollment_loop paths (keys0 @ [(path_stem name, (data, sigs))]) = Inr keys"
    by (auto split: if_split_asm sum.split_asm)
  have "path_stem name \<in> fst ` set VARIABLES" using p(2) by (auto simp: parse_auth_def split: if_split_asm)
  with 2(1) [OF p(3) p(2) refl p(4)] 2(3,4) p(1) show ?case by (force simp: image_iff)
qed simp

lemma enrollment_keys_Inr:
  assumes "enrollment_keys paths = Inr keys"
  shows "distinct (map fst keys)" "fst ` set keys \<subseteq> fst ` set VARIABLES"
    and "\<And>name data. (name, data) \<in> set paths \<Longrightarrow> \<exists>sigs. (path_stem name, (data, sigs)) \<in> set keys"
proof -
  from assms have "enrollment_loop paths [] = Inr keys" by (auto simp: enrollment_keys_def split: if_split_asm)
  from enrollment_loop_Inr [OF this] have
    e: "map (\<lambda>(name, data). (path_stem name, data)) paths = map (\<lambda>(name, (data, _)). (name, data)) keys"
      "distinct (map fst keys)" "fst ` set keys \<subseteq> fst ` set VARIABLES" by auto
  then show "distinct (map fst keys)" "fst ` set keys \<subseteq> fst ` set VARIABLES" by auto
  show "\<exists>sigs. (path_stem name, (data, sigs)) \<in> set keys" if "(name, data) \<in> set paths" for name data
  proof -
    have "(path_stem name, data) \<in> set (map (\<lambda>(name, (data, _)). (name, data)) keys)"
      using that by (force simp flip: e(1))
    then show ?thesis by auto
  qed
qed

lemma key_path_inj: "key_path a = key_path b \<Longrightarrow> a = b"
  by (simp add: key_path_def)

lemma key_files_eq:
  "key_files keys d = fold (\<lambda>(k, v). dict_set k v) (map (\<lambda>(name, (data, _)). (key_path name, data)) (sort_key fst keys)) d"
  unfolding key_files_def fold_map comp_def by (intro fold_cong) auto

lemma map_of_key_files:
  assumes "distinct (map fst keys)"
  shows "(name, (data, sigs)) \<in> set keys \<Longrightarrow> map_of (key_files keys d) (key_path name) = Some data"
    and "\<forall>name \<in> fst ` set keys. p \<noteq> key_path name \<Longrightarrow> map_of (key_files keys d) p = map_of d p"
proof -
  let ?kvs = "map (\<lambda>(name, (data, _)). (key_path name, data)) (sort_key fst keys)"
  show "map_of (key_files keys d) (key_path name) = Some data" if "(name, (data, sigs)) \<in> set keys"
  proof -
    have "map_of (rev ?kvs) (key_path name) = Some data"
      by (rule map_of_functional)
        (use that assms in \<open>force simp: dest: key_path_inj eq_key_imp_eq_value\<close>)+
    then show ?thesis by (simp add: key_files_eq map_of_fold_dict_set)
  qed
  show "map_of (key_files keys d) p = map_of d p" if "\<forall>name \<in> fst ` set keys. p \<noteq> key_path name"
  proof -
    have "map_of (rev ?kvs) p = None" using that by (force simp: map_of_eq_None_iff)
    then show ?thesis by (simp add: key_files_eq map_of_fold_dict_set)
  qed
qed

lemma image_changes_Inr:
  assumes "image_changes sha256 trusts signer_of args tree rs presigned = Inr (changes, manifest)"
  shows "\<not> managed p \<Longrightarrow> map_of changes p = map_of (replaced_files rs) p"
    and "(name, data) \<in> set (ia_auto_enroll_key args) \<Longrightarrow> map_of changes (key_path (path_stem name)) = Some data"
    and "ia_auto_enroll_key args \<noteq> [] \<Longrightarrow> \<exists>keys db_data db_lists q content.
      enrollment_keys (ia_auto_enroll_key args) = Inr keys \<and> map_of keys ''db'' = Some (db_data, db_lists) \<and>
      check_db_trusts trusts signer_of db_lists rs tree presigned = Inr () \<and>
      loader_conf tree (ia_secure_boot_enroll args) = Inr (q, content) \<and> map_of changes q = Some (utf8_encode content)"
proof -
  define mp where "mp = (case find_path (tree_files tree) ESP_MANIFEST of Some path \<Rightarrow> path | None \<Rightarrow> ESP_MANIFEST)"
  have mp: "str_lower mp = ESP_MANIFEST" using find_path_lower [of ESP_MANIFEST] by (simp add: mp_def)
  have "(\<not> managed p \<longrightarrow> map_of changes p = map_of (replaced_files rs) p) \<and>
    ((name, data) \<in> set (ia_auto_enroll_key args) \<longrightarrow> map_of changes (key_path (path_stem name)) = Some data) \<and>
    (ia_auto_enroll_key args \<noteq> [] \<longrightarrow> (\<exists>keys db_data db_lists q content.
      enrollment_keys (ia_auto_enroll_key args) = Inr keys \<and> map_of keys ''db'' = Some (db_data, db_lists) \<and>
      check_db_trusts trusts signer_of db_lists rs tree presigned = Inr () \<and>
      loader_conf tree (ia_secure_boot_enroll args) = Inr (q, content) \<and> map_of changes q = Some (utf8_encode content)))"
  proof (cases "ia_auto_enroll_key args = []")
    case True
    with assms obtain m where "changes = dict_set mp m (replaced_files rs)"
      by (auto simp: image_changes_def Let_def mp_def)
    with mp True show ?thesis by (auto simp: managed_def)
  next
    case False
    with assms obtain keys db_data db_lists q content m where
      k: "enrollment_keys (ia_auto_enroll_key args) = Inr keys" "map_of keys ''db'' = Some (db_data, db_lists)"
        "check_db_trusts trusts signer_of db_lists rs tree presigned = Inr ()"
        "loader_conf tree (ia_secure_boot_enroll args) = Inr (q, content)"
        "changes = dict_set mp m (dict_set q (utf8_encode content) (key_files keys (replaced_files rs)))"
      by (auto simp: image_changes_def Let_def mp_def split: prod.split_asm)
    note q = loader_conf_path [OF k(4)] and e = enrollment_keys_Inr [OF k(1)]
    have "mp \<noteq> q" using mp q by (auto simp: LOADER_CONF_def ESP_MANIFEST_def)
    then have "map_of changes q = Some (utf8_encode content)" by (simp add: k(5))
    moreover have "map_of changes p = map_of (replaced_files rs) p" if "\<not> managed p"
    proof -
      have "map_of (key_files keys (replaced_files rs)) p = map_of (replaced_files rs) p"
        using that e(2) unfolding managed_def by (intro map_of_key_files(2) [OF e(1)]) blast
      with that mp q show ?thesis by (auto simp: k(5) managed_def)
    qed
    moreover have "map_of changes (key_path (path_stem name)) = Some data"
      if "(name, data) \<in> set (ia_auto_enroll_key args)"
      using e(3) [OF that] map_of_key_files(1) [OF e(1)] key_path_lower mp q by (auto simp: k(5))
    ultimately show ?thesis using k(1-4) by blast
  qed
  then show "\<not> managed p \<Longrightarrow> map_of changes p = map_of (replaced_files rs) p"
    "(name, data) \<in> set (ia_auto_enroll_key args) \<Longrightarrow> map_of changes (key_path (path_stem name)) = Some data"
    "ia_auto_enroll_key args \<noteq> [] \<Longrightarrow> \<exists>keys db_data db_lists q content.
      enrollment_keys (ia_auto_enroll_key args) = Inr keys \<and> map_of keys ''db'' = Some (db_data, db_lists) \<and>
      check_db_trusts trusts signer_of db_lists rs tree presigned = Inr () \<and>
      loader_conf tree (ia_secure_boot_enroll args) = Inr (q, content) \<and> map_of changes q = Some (utf8_encode content)"
    by blast+
qed

definition esp_holds :: "esp_tree \<Rightarrow> string \<Rightarrow> bytes \<Rightarrow> bool" where
  "esp_holds tree p data \<longleftrightarrow> (\<exists>q \<in> set (tree_files tree). str_lower q = str_lower p \<and> tree_read tree q = Inr data)"

lemma verify_changes_Inr:
  "verify_changes tree changes = Inr u \<Longrightarrow> (p, data) \<in> set changes \<Longrightarrow> esp_holds tree p data"
proof (induction tree changes rule: verify_changes.induct)
  case (2 tree esp_path d changes)
  from 2(2) obtain found where f: "find_path (tree_files tree) esp_path = Some found" "tree_read tree found = Inr d"
    "verify_changes tree changes = Inr u"
    by (auto split: option.split_asm if_split_asm)
  show ?case
  proof (cases "(p, data) = (esp_path, d)")
    case True
    with f find_path_Some [OF f(1)] show ?thesis by (auto simp: esp_holds_def simp del: set_tree_files)
  next
    case False
    with 2(3) have "(p, data) \<in> set changes" by auto
    with 2(1) f show ?thesis by simp
  qed
qed simp

lemma unsigned_is_pe: "is_unsigned_pe data \<Longrightarrow> is_pe data"
  by (cases "pe_optional_header data") (auto simp: is_unsigned_pe_def is_pe_def parse_pe_def)

lemma copy_whole: "copy_range img None 0 (len img) 0 True = Inr img"
  using copy_range_writes [of 0 "len img" 0 True None img] by (simp add: write_at_def zeros_unfold)

lemma sign_image_Inr:
  assumes "sign_image sha256 parse mtools unpack trusts signer_of args = Inr (output, metadata)"
  obtains rs esp offset tree rs' presigned changes manifest esp' tree' where
    "image_replacements parse (ia_signed args) = Inr rs"
    "extract_esp parse (ia_image args) (ia_partition_metadata args) = Inr (esp, offset)"
    "unpack esp = Some tree" "assign sha256 tree rs = Inr (rs', presigned)"
    "image_changes sha256 trusts signer_of args tree rs' presigned = Inr (changes, manifest)"
    "apply_changes mtools unpack esp tree changes = Inr (esp', tree')"
    "unpack esp' = Some tree'" "verify_changes tree' changes = Inr ()"
    "output = write_at (ia_image args) (nat offset) esp'"
proof -
  from assms obtain rs esp offset tree rs' presigned changes manifest esp' tree' copied where
    s: "image_replacements parse (ia_signed args) = Inr rs"
      "extract_esp parse (ia_image args) (ia_partition_metadata args) = Inr (esp, offset)"
      "unpack esp = Some tree" "assign sha256 tree rs = Inr (rs', presigned)"
      "image_changes sha256 trusts signer_of args tree rs' presigned = Inr (changes, manifest)"
      "apply_changes mtools unpack esp tree changes = Inr (esp', tree')"
      "verify_changes tree' changes = Inr ()"
      "copy_range (ia_image args) None 0 (len (ia_image args)) 0 True = Inr copied"
      "copy_range esp' (Some copied) 0 (len esp') offset False = Inr output"
    unfolding sign_image_def by (auto split: prod.split_asm)
  have "unpack esp' = Some tree'" using s(6) by (auto simp: apply_changes_def)
  moreover have "output = write_at (ia_image args) (nat offset) esp'"
    using s(8,9) extract_esp_Inr(1) [OF s(2)] copy_range_writes [of 0 "len esp'" offset False "Some copied" esp']
    by (simp add: copy_whole)
  ultimately show thesis using that s(1-7) by blast
qed

lemma list_all2_members:
  assumes "list_all2 P xs ys"
  shows "y \<in> set ys \<Longrightarrow> \<exists>x \<in> set xs. P x y" "x \<in> set xs \<Longrightarrow> \<exists>y \<in> set ys. P x y"
  using assms by (induction xs ys rule: list_all2_induct) auto

lemma fresh_paths: "list_all2 (answers parse) args rs \<Longrightarrow> (k, r) \<in> set rs \<Longrightarrow> rp_paths r = []"
  by (drule (1) list_all2_members(1)) (auto simp: answers_def)

lemma matching_paths:
  assumes "list_all2 (answers parse) args rs"
  shows "(k, r) \<in> set (matching sha256 tree paths rs) \<longleftrightarrow>
    (\<exists>r0. (k, r0) \<in> set rs \<and> r = r0\<lparr>rp_paths := filter (\<lambda>p. digest_key sha256 (esp_data tree p) = k) paths\<rparr>)"
  using fresh_paths [OF assms] by (force simp: matching_def)

lemma replaced_on_esp:
  assumes "list_all2 (answers parse) args rs" "distinct (map fst rs)" "p \<in> set (tree_files tree)"
    and "map_of rs (digest_key sha256 (esp_data tree p)) = Some r"
    and "image_changes sha256 trusts signer_of a tree (matching sha256 tree (tree_files tree) rs) presigned = Inr (changes, manifest)"
    and "verify_changes tree' changes = Inr ()" "\<not> managed p"
  shows "esp_holds tree' p (rp_signed r)"
proof -
  let ?k = "digest_key sha256 (esp_data tree p)" and ?rs = "matching sha256 tree (tree_files tree) rs"
  let ?r = "r\<lparr>rp_paths := filter (\<lambda>p. digest_key sha256 (esp_data tree p) = ?k) (tree_files tree)\<rparr>"
  have "(?k, ?r) \<in> set ?rs" using assms(4) by (auto simp: matching_paths [OF assms(1)] dest: map_of_SomeD)
  moreover have "p \<in> set (rp_paths ?r)" using assms(3) by simp
  ultimately have "map_of (replaced_files ?rs) p = Some (rp_signed r)"
    using replaced_files_matching [OF assms(2), of ?k ?r sha256 tree "tree_files tree" p] fresh_paths [OF assms(1)] by simp
  with image_changes_Inr(1) [OF assms(5,7)] have "(p, rp_signed r) \<in> set changes" by (simp add: map_of_SomeD)
  then show ?thesis by (rule verify_changes_Inr [OF assms(6)])
qed

lemma sign_image_facts:
  assumes "sign_image sha256 parse mtools unpack trusts signer_of args = Inr (output, metadata)"
  shows "\<exists>offset esp tree esp' tree'.
    extract_esp parse (ia_image args) (ia_partition_metadata args) = Inr (esp, offset) \<and>
    0 \<le> offset \<and> esp = py_slice (ia_image args) offset (offset + len esp) \<and> unpack esp = Some tree \<and>
    unpack esp' = Some tree' \<and> output = write_at (ia_image args) (nat offset) esp' \<and>
    (\<forall>p data. tree_read tree p = Inr data \<and> is_unsigned_pe data \<and> \<not> managed p \<longrightarrow>
      (\<exists>(chosen, request, cert) \<in> set (ia_signed args). \<exists>document. parse request = Some document \<and>
        json_get document ''unsigned_sha256'' = Some (digest_key sha256 data) \<and> esp_holds tree' p chosen)) \<and>
    (\<forall>(chosen, request, cert) \<in> set (ia_signed args). \<exists>p data document. parse request = Some document \<and>
      tree_read tree p = Inr data \<and> json_get document ''unsigned_sha256'' = Some (digest_key sha256 data) \<and>
      (managed p \<or> esp_holds tree' p chosen)) \<and>
    (\<forall>(name, data) \<in> set (ia_auto_enroll_key args). esp_holds tree' (key_path (path_stem name)) data)"
proof -
  obtain rs esp offset tree rs' presigned changes manifest esp' tree' where
    s: "image_replacements parse (ia_signed args) = Inr rs"
      "extract_esp parse (ia_image args) (ia_partition_metadata args) = Inr (esp, offset)"
      "unpack esp = Some tree" "assign sha256 tree rs = Inr (rs', presigned)"
      "image_changes sha256 trusts signer_of args tree rs' presigned = Inr (changes, manifest)"
      "unpack esp' = Some tree'" "verify_changes tree' changes = Inr ()"
      "output = write_at (ia_image args) (nat offset) esp'"
    using sign_image_Inr [OF assms] by metis
  note e = extract_esp_Inr [OF s(2)] and l = image_replacements_Inr [OF s(1)]
  note a = assign_Inr [OF s(4) l(2)]
  note c = s(5) [unfolded a(1)]
  note answered = list_all2_members [OF l(1)]
  have u1: "\<exists>(chosen, request, cert) \<in> set (ia_signed args). \<exists>document. parse request = Some document \<and>
      json_get document ''unsigned_sha256'' = Some (digest_key sha256 data) \<and> esp_holds tree' p chosen"
    if p: "tree_read tree p = Inr data" "is_unsigned_pe data" "\<not> managed p" for p data
  proof -
    have f: "p \<in> set (tree_files tree)" "data = esp_data tree p"
      using tree_read_Inr [OF p(1)] by auto
    then have "digest_key sha256 data \<in> fst ` set rs"
      using a(3) p(2) unsigned_is_pe by (auto simp: unmatched_def)
    then obtain r where r: "map_of rs (digest_key sha256 data) = Some r" by (metis domD dom_map_of_conv_image_fst)
    have "esp_holds tree' p (rp_signed r)"
      using replaced_on_esp [OF l f(1) _ c s(7) p(3)] r f(2) by simp
    with answered(1) [OF map_of_SomeD [OF r]] show ?thesis by (fastforce simp: answers_def)
  qed
  have u2: "\<exists>p data document. parse request = Some document \<and> tree_read tree p = Inr data \<and>
      json_get document ''unsigned_sha256'' = Some (digest_key sha256 data) \<and> (managed p \<or> esp_holds tree' p chosen)"
    if "(chosen, request, cert) \<in> set (ia_signed args)" for chosen request cert
  proof -
    from answered(2) [OF that] obtain k r where r: "(k, r) \<in> set rs" "answers parse (chosen, request, cert) (k, r)" by auto
    let ?r = "r\<lparr>rp_paths := filter (\<lambda>p. digest_key sha256 (esp_data tree p) = k) (tree_files tree)\<rparr>"
    have "(k, ?r) \<in> set rs'" using r(1) by (auto simp: a(1) matching_paths [OF l(1)])
    from a(2) [OF this] obtain p where p: "p \<in> set (tree_files tree)" "digest_key sha256 (esp_data tree p) = k"
      by (auto simp: filter_empty_conv)
    with r(1) l(2) have "map_of rs (digest_key sha256 (esp_data tree p)) = Some r" by simp
    from replaced_on_esp [OF l p(1) this c s(7)] r(2) p tree_read_data [OF p(1)]
    show ?thesis by (auto simp: answers_def)
  qed
  have u3: "esp_holds tree' (key_path (path_stem name)) data" if "(name, data) \<in> set (ia_auto_enroll_key args)" for name data
    by (rule verify_changes_Inr [OF s(7) map_of_SomeD [OF image_changes_Inr(2) [OF s(5) that]]])
  have "\<forall>(chosen, request, cert) \<in> set (ia_signed args). \<exists>p data document. parse request = Some document \<and>
      tree_read tree p = Inr data \<and> json_get document ''unsigned_sha256'' = Some (digest_key sha256 data) \<and>
      (managed p \<or> esp_holds tree' p chosen)"
    "\<forall>(name, data) \<in> set (ia_auto_enroll_key args). esp_holds tree' (key_path (path_stem name)) data"
    by (intro ballI; clarsimp simp: u2 u3)+
  with u1 show ?thesis by (intro exI conjI) (rule s(2) e(1) e(2) s(3) s(6) s(8) | blast | assumption)+
qed


section \<open>Trust\<close>

definition db_bundle :: "signature_lists \<Rightarrow> bytes" where
  "db_bundle db_lists = concat (map certificate_pem (x509_certificates db_lists))"

lemma check_replacements_Inr:
  "check_replacements trusts trusted bundle_pem rs = Inr u \<Longrightarrow> r \<in> set rs \<Longrightarrow>
     rp_certificate r \<in> set trusted \<or> trusts bundle_pem (certificate_pem (rp_certificate r)) None"
  by (induction rs) (auto split: if_split_asm)

lemma check_presigned_Inr:
  "check_presigned trusts signer_of tree bundle_pem presigned = Inr u \<Longrightarrow> p \<in> set presigned \<Longrightarrow>
     \<exists>signer chain. embedded_signer signer_of tree p = Inr (signer, chain) \<and> trusts bundle_pem signer chain"
  by (induction presigned) (auto split: if_split_asm prod.split_asm)

lemma startable_Inr:
  "startable tree paths = Inr ps \<Longrightarrow> p \<in> set paths \<Longrightarrow> ends_with ''.efi'' (str_lower p) \<Longrightarrow> p \<in> set ps"
  by (auto simp: startable_def)

lemma sign_image_trust:
  assumes "sign_image sha256 parse mtools unpack trusts signer_of args = Inr (output, metadata)"
    and "ia_auto_enroll_key args \<noteq> []"
  shows "\<exists>keys db_data db_lists esp offset tree.
    enrollment_keys (ia_auto_enroll_key args) = Inr keys \<and> map_of keys ''db'' = Some (db_data, db_lists) \<and>
    extract_esp parse (ia_image args) (ia_partition_metadata args) = Inr (esp, offset) \<and> unpack esp = Some tree \<and>
    (\<forall>(chosen, request, cert) \<in> set (ia_signed args). \<exists>der. isolated_certificate_der cert = Inr der \<and>
      (der \<in> set (x509_certificates db_lists) \<or> trusts (db_bundle db_lists) (certificate_pem der) None)) \<and>
    (\<forall>p data. tree_read tree p = Inr data \<and> is_pe data \<and> \<not> is_unsigned_pe data \<and> ends_with ''.efi'' (str_lower p) \<longrightarrow>
      (\<exists>(chosen, request, cert) \<in> set (ia_signed args). \<exists>document. parse request = Some document \<and>
        json_get document ''unsigned_sha256'' = Some (digest_key sha256 data)) \<or>
      (\<exists>signer chain. embedded_signer signer_of tree p = Inr (signer, chain) \<and> trusts (db_bundle db_lists) signer chain))"
proof -
  obtain rs esp offset tree rs' presigned changes manifest where
    s: "image_replacements parse (ia_signed args) = Inr rs"
      "extract_esp parse (ia_image args) (ia_partition_metadata args) = Inr (esp, offset)"
      "unpack esp = Some tree" "assign sha256 tree rs = Inr (rs', presigned)"
      "image_changes sha256 trusts signer_of args tree rs' presigned = Inr (changes, manifest)"
    using sign_image_Inr [OF assms(1)] by metis
  note l = image_replacements_Inr [OF s(1)]
  note a = assign_Inr [OF s(4) l(2)] and answered = list_all2_members [OF l(1)]
  from image_changes_Inr(3) [OF s(5) assms(2)] obtain keys db_data db_lists where
    k: "enrollment_keys (ia_auto_enroll_key args) = Inr keys" "map_of keys ''db'' = Some (db_data, db_lists)"
      "check_db_trusts trusts signer_of db_lists rs' tree presigned = Inr ()" by blast
  then have c: "check_replacements trusts (x509_certificates db_lists) (db_bundle db_lists) (map snd rs') = Inr ()"
    "check_presigned trusts signer_of tree (db_bundle db_lists) presigned = Inr ()"
    by (auto simp: check_db_trusts_def db_bundle_def Let_def)
  have "\<exists>der. isolated_certificate_der cert = Inr der \<and>
      (der \<in> set (x509_certificates db_lists) \<or> trusts (db_bundle db_lists) (certificate_pem der) None)"
    if "(chosen, request, cert) \<in> set (ia_signed args)" for chosen request cert
  proof -
    from answered(2) [OF that] obtain kk r where r: "(kk, r) \<in> set rs" "isolated_certificate_der cert = Inr (rp_certificate r)"
      by (auto simp: answers_def)
    then obtain r' where "(kk, r') \<in> set rs'" "rp_certificate r' = rp_certificate r"
      by (force simp: a(1) matching_paths [OF l(1)])
    with check_replacements_Inr [OF c(1), of r'] r(2) show ?thesis by force
  qed
  moreover have "(\<exists>(chosen, request, cert) \<in> set (ia_signed args). \<exists>document. parse request = Some document \<and>
        json_get document ''unsigned_sha256'' = Some (digest_key sha256 data)) \<or>
      (\<exists>signer chain. embedded_signer signer_of tree p = Inr (signer, chain) \<and> trusts (db_bundle db_lists) signer chain)"
    if p: "tree_read tree p = Inr data" "is_pe data" "ends_with ''.efi'' (str_lower p)" for p data
  proof (cases "digest_key sha256 data \<in> fst ` set rs")
    case True
    then obtain r where "(digest_key sha256 data, r) \<in> set rs" by auto
    from answered(1) [OF this] show ?thesis by (fastforce simp: answers_def)
  next
    case False
    have f: "p \<in> set (tree_files tree)" "data = esp_data tree p"
      using tree_read_Inr [OF p(1)] by auto
    with False p(2) have "p \<in> set (filter (unmatched sha256 tree rs) (tree_files tree))" by (simp add: unmatched_def)
    from check_presigned_Inr [OF c(2) startable_Inr [OF a(4) this p(3)]] show ?thesis by blast
  qed
  ultimately show ?thesis using k(1,2) s(2,3) by blast
qed

text \<open>
  C4: enrolling the keys of a signed image does not lock the device out of it. When a run that enrolls keys succeeds, the \<^verbatim>\<open>db\<close> list among them holds
  the certificate of every imported signed binary or \<^verbatim>\<open>openssl verify\<close> accepts it under that list, and every PE binary with the suffix
  \<^verbatim>\<open>.efi\<close> that the partition held already signed was replaced by a request or has a readable signature whose signer the list trusts.
\<close>

theorem sign_image_trusted:
  assumes "sign_image sha256 parse mtools unpack trusts signer_of args = Inr (output, metadata)"
    and "ia_auto_enroll_key args \<noteq> []"
  shows "\<exists>keys db_data db_lists esp offset tree.
    enrollment_keys (ia_auto_enroll_key args) = Inr keys \<and> map_of keys ''db'' = Some (db_data, db_lists) \<and>
    extract_esp parse (ia_image args) (ia_partition_metadata args) = Inr (esp, offset) \<and> unpack esp = Some tree \<and>
    (\<forall>(chosen, request, cert) \<in> set (ia_signed args). \<exists>der. isolated_certificate_der cert = Inr der \<and>
      (der \<in> set (x509_certificates db_lists) \<or> trusts (db_bundle db_lists) (certificate_pem der) None)) \<and>
    (\<forall>p data. tree_read tree p = Inr data \<and> is_pe data \<and> \<not> is_unsigned_pe data \<and> ends_with ''.efi'' (str_lower p) \<longrightarrow>
      (\<exists>(chosen, request, cert) \<in> set (ia_signed args). \<exists>document. parse request = Some document \<and>
        json_get document ''unsigned_sha256'' = Some (digest_key sha256 data)) \<or>
      (\<exists>signer chain. embedded_signer signer_of tree p = Inr (signer, chain) \<and> trusts (db_bundle db_lists) signer chain))"
  using sign_image_trust [OF assms] .

section \<open>New directories\<close>

text \<open>Every directory of a path of the unpacked partition was unpacked too.\<close>

definition tree_closed :: "esp_tree \<Rightarrow> bool" where
  "tree_closed tree \<longleftrightarrow> (\<forall>p \<in> set (tree_files tree). set (esp_parents p) \<subseteq> set (et_dirs tree))"

lemma keys_fold_dict_set: "fst ` set (fold (\<lambda>(k, v). dict_set k v) kvs d) = fst ` set d \<union> fst ` set kvs"
proof -
  have "dom (map_of (fold (\<lambda>(k, v). dict_set k v) kvs d)) = dom (map_of d) \<union> dom (map_of (rev kvs))"
    by (auto simp: dom_def map_of_fold_dict_set split: option.splits)
  then show ?thesis by (simp add: dom_map_of_conv_image_fst)
qed

lemma keys_dict_set_set: "fst ` set (dict_set k v d) = insert k (fst ` set d)"
  using keys_fold_dict_set [of "[(k, v)]" d] by simp

lemma keys_replaced_files: "fst ` set (replaced_files rs) = (\<Union>(k, r) \<in> set rs. set (rp_paths r))"
  unfolding replaced_files_def keys_fold_dict_set by force

lemma keys_key_files: "fst ` set (key_files keys d) = fst ` set d \<union> key_path ` fst ` set keys"
  unfolding key_files_eq keys_fold_dict_set by force

lemma find_path_default:
  "(case find_path paths p of Some q \<Rightarrow> q | None \<Rightarrow> p) \<in> insert p (set paths)"
  using find_path_Some by (auto split: option.split)

lemma image_changes_paths:
  assumes "image_changes sha256 trusts signer_of args tree rs presigned = Inr (changes, manifest)"
    and "\<And>k r. (k, r) \<in> set rs \<Longrightarrow> set (rp_paths r) \<subseteq> set (tree_files tree)" "p \<in> fst ` set changes"
  shows "p \<in> set (tree_files tree) \<or> p = LOADER_CONF \<or> p = ESP_MANIFEST \<or> (\<exists>name \<in> fst ` set VARIABLES. p = key_path name)"
proof -
  define mp where "mp = (case find_path (tree_files tree) ESP_MANIFEST of Some path \<Rightarrow> path | None \<Rightarrow> ESP_MANIFEST)"
  have mp: "mp \<in> insert ESP_MANIFEST (set (tree_files tree))" unfolding mp_def by (rule find_path_default)
  have rs: "fst ` set (replaced_files rs) \<subseteq> set (tree_files tree)" unfolding keys_replaced_files using assms(2) by blast
  show ?thesis
  proof (cases "ia_auto_enroll_key args = []")
    case True
    with assms(1) obtain m where "changes = dict_set mp m (replaced_files rs)"
      by (auto simp: image_changes_def Let_def mp_def)
    with assms(3) mp rs show ?thesis by (auto simp: keys_dict_set_set simp del: set_tree_files)
  next
    case False
    with assms(1) obtain keys q content m where
      k: "enrollment_keys (ia_auto_enroll_key args) = Inr keys"
        "loader_conf tree (ia_secure_boot_enroll args) = Inr (q, content)"
        "changes = dict_set mp m (dict_set q (utf8_encode content) (key_files keys (replaced_files rs)))"
      by (auto simp: image_changes_def Let_def mp_def split: prod.split_asm)
    have "q \<in> insert LOADER_CONF (set (tree_files tree))"
      using k(2) find_path_default [of LOADER_CONF "tree_files tree"] by (auto simp: loader_conf_def Let_def)
    moreover have "p \<in> {mp, q} \<union> fst ` set (replaced_files rs) \<union> key_path ` fst ` set keys"
      using assms(3) unfolding k(3) keys_dict_set_set keys_key_files by blast
    ultimately show ?thesis using mp rs enrollment_keys_Inr(2) [OF k(1)] by blast
  qed
qed

definition NEW_DIRECTORIES :: "string list" where
  "NEW_DIRECTORIES = [''loader'', ''loader/keys'', ''loader/keys/auto'']"

lemma managed_parents:
  "set (esp_parents LOADER_CONF) \<subseteq> set NEW_DIRECTORIES" "set (esp_parents ESP_MANIFEST) \<subseteq> set NEW_DIRECTORIES"
  "\<forall>name \<in> fst ` set VARIABLES. set (esp_parents (key_path name)) \<subseteq> set NEW_DIRECTORIES"
  by code_simp+

lemma missing_directories_subseq:
  assumes "tree_closed tree" "\<And>p. p \<in> fst ` set changes \<Longrightarrow>
    p \<in> set (tree_files tree) \<or> p = LOADER_CONF \<or> p = ESP_MANIFEST \<or> (\<exists>name \<in> fst ` set VARIABLES. p = key_path name)"
  shows "subseq (missing_directories tree changes) NEW_DIRECTORIES"
proof -
  let ?ds = "missing_directories tree changes" and ?fs = "filter (\<lambda>d. d \<in> set (missing_directories tree changes)) NEW_DIRECTORIES"
  have "d \<in> set (et_dirs tree) \<or> d \<in> set NEW_DIRECTORIES" if "p \<in> fst ` set changes" "d \<in> set (esp_parents p)" for p d
    using assms(2) [OF that(1)] that(2) assms(1) managed_parents unfolding tree_closed_def by blast
  then have sub: "set ?ds \<subseteq> set NEW_DIRECTORIES" by (auto simp: missing_directories_def Let_def)
  have n: "inj_on length (set NEW_DIRECTORIES)" "sorted (map length NEW_DIRECTORIES)" "distinct (map length NEW_DIRECTORIES)"
    by (auto simp: NEW_DIRECTORIES_def inj_on_def)
  have i: "inj_on length (set ?ds)" by (rule inj_on_subset [OF n(1) sub])
  have "?ds = ?fs"
  proof (rule map_sorted_distinct_set_unique [where f = length])
    show "inj_on length (set ?ds \<union> set ?fs)" using sub by (intro inj_on_subset [OF n(1)]) auto
    show "sorted (map length ?ds)" by (simp add: missing_directories_def Let_def)
    have "distinct ?ds" by (simp add: missing_directories_def Let_def sorted_set_def)
    with i show "distinct (map length ?ds)" by (simp add: distinct_map)
    show "sorted (map length ?fs)" using n(2) by (rule sorted_filter)
    show "distinct (map length ?fs)" using n(3) by (rule distinct_map_filter)
    show "set ?ds = set ?fs" using sub by auto
  qed
  then show ?thesis by (metis subseq_filter_left)
qed

lemma new_directories:
  assumes "image_changes sha256 trusts signer_of args tree rs presigned = Inr (changes, manifest)"
    and "tree_closed tree" "\<And>k r. (k, r) \<in> set rs \<Longrightarrow> set (rp_paths r) \<subseteq> set (tree_files tree)"
  shows "subseq (missing_directories tree changes) NEW_DIRECTORIES"
    and "p \<in> fst ` set changes \<Longrightarrow> d \<in> set (esp_parents p) \<Longrightarrow>
      str_lower d \<in> str_lower ` set (et_dirs tree) \<or> d \<in> set (missing_directories tree changes)"
proof -
  show "subseq (missing_directories tree changes) NEW_DIRECTORIES"
    by (rule missing_directories_subseq [OF assms(2) image_changes_paths [OF assms(1,3)]])
  show "str_lower d \<in> str_lower ` set (et_dirs tree) \<or> d \<in> set (missing_directories tree changes)"
    if "p \<in> fst ` set changes" "d \<in> set (esp_parents p)"
    using that by (force simp: missing_directories_def Let_def)
qed

section \<open>The loader configuration\<close>

lemma takeWhile_no_linebreak: "list_all (\<lambda>c. \<not> is_linebreak c) (takeWhile (\<lambda>c. \<not> is_linebreak c) s)"
  by (auto simp: list_all_iff dest: set_takeWhileD)

lemma splitlines_no_linebreak: "l \<in> set (splitlines s) \<Longrightarrow> list_all (\<lambda>c. \<not> is_linebreak c) l"
proof (induction s rule: splitlines.induct)
  case (1 s)
  then show ?case
    by (subst (asm) splitlines.simps) (auto simp: takeWhile_no_linebreak split: if_split_asm)
qed

lemma join_lines_concat: "join_with ''\<newline>'' (ls @ [l]) @ ''\<newline>'' = concat (map (\<lambda>l. l @ ''\<newline>'') (ls @ [l]))"
proof (induction ls)
  case (Cons a ls)
  then show ?case by (cases "ls @ [l]") auto
qed simp

lemma split_ws_first:
  assumes "word \<noteq> []" "list_all (\<lambda>c. \<not> isspace c) word"
  shows "take 1 (split_ws (word @ '' '' @ s)) = [word]"
proof -
  have w: "\<forall>c \<in> set word. \<not> isspace c" using assms(2) by (simp add: list_all_iff)
  have sp: "isspace (CHR '' '')" by (simp add: isspace_def)
  have "lstrip (word @ '' '' @ s) = word @ '' '' @ s" using assms(1) w by (cases word) (auto simp: lstrip_def)
  moreover have "takeWhile (\<lambda>c. \<not> isspace c) (word @ '' '' @ s) = word"
    using w sp by (simp add: takeWhile_append2)
  ultimately show ?thesis using assms(1) by (subst split_ws.simps) (simp add: Let_def)
qed

lemma enroll_line: "is_enroll_line (''secure-boot-enroll '' @ mode)"
  using split_ws_first [of "''secure-boot-enroll''" mode] by (simp add: is_enroll_line_def isspace_def)

lemma loader_conf_lines:
  assumes "loader_conf tree mode = Inr (p, content)" "list_all (\<lambda>c. \<not> is_linebreak c) mode"
  obtains old where "splitlines content = filter (\<lambda>line. \<not> is_enroll_line line) old @ [''secure-boot-enroll '' @ mode]"
    "filter is_enroll_line (splitlines content) = [''secure-boot-enroll '' @ mode]"
    "old = [] \<or> (\<exists>q data s. find_path (tree_files tree) LOADER_CONF = Some q \<and> tree_read tree q = Inr data \<and>
       utf8_decode data = Some s \<and> old = splitlines s)"
proof -
  from assms(1) obtain old where
    c: "content = join_with ''\<newline>'' (filter (\<lambda>line. \<not> is_enroll_line line) old @ [''secure-boot-enroll '' @ mode]) @ ''\<newline>''" and
    o: "old = [] \<or> (\<exists>q data s. find_path (tree_files tree) LOADER_CONF = Some q \<and> tree_read tree q = Inr data \<and>
       utf8_decode data = Some s \<and> old = splitlines s)"
    by (auto simp: loader_conf_def Let_def boot_text_def split: option.split_asm)
  have "list_all (list_all (\<lambda>c. \<not> is_linebreak c)) (filter (\<lambda>line. \<not> is_enroll_line line) old @ [''secure-boot-enroll '' @ mode])"
    using o assms(2) splitlines_no_linebreak by (auto simp: list_all_iff is_linebreak_def)
  then have s: "splitlines content = filter (\<lambda>line. \<not> is_enroll_line line) old @ [''secure-boot-enroll '' @ mode]"
    unfolding c join_lines_concat by (rule splitlines_lines)
  then have "filter is_enroll_line (splitlines content) = [''secure-boot-enroll '' @ mode]"
    using enroll_line [of mode] by simp
  with s o show thesis by (intro that)
qed

end
