(* ===== verification/Boot_Certificate.thy ===== *)
theory Boot_Certificate
  imports Authenticode
begin

text \<open>
  Certificates and requests are read back as they were written: the PEM text of \<^verbatim>\<open>certificate_pem\<close> is the
  one certificate that \<^verbatim>\<open>isolated_certificate_der\<close> finds, and the files of \<^verbatim>\<open>create_request\<close> are accepted by
  \<^verbatim>\<open>_load_request\<close>.
\<close>

section \<open>Base 64\<close>

lemma b64_digit:
  assumes "0 \<le> v" "v < 64"
  shows "b64_value (b64_char v) = Some v" "\<not> is_space (b64_char v)" "b64_char v \<noteq> 0x2D" "b64_char v \<noteq> 0x3D"
proof -
  have "\<forall>n \<in> set [0..<64]. b64_value (b64_char (int n)) = Some (int n) \<and> \<not> is_space (b64_char (int n)) \<and>
    b64_char (int n) \<noteq> 0x2D \<and> b64_char (int n) \<noteq> 0x3D" by code_simp
  moreover have "nat v \<in> set [0..<64]" using assms by simp
  ultimately show "b64_value (b64_char v) = Some v" "\<not> is_space (b64_char v)" "b64_char v \<noteq> 0x2D" "b64_char v \<noteq> 0x3D"
    using assms(1) by (metis int_nat_eq)+
qed

lemma be_int_bounds: "be_int [a] < 256" "be_int [a, b] < 65536" "be_int [a, b, c] < 16777216"
  using be_int_less [of "[a]"] be_int_less [of "[a, b]"] be_int_less [of "[a, b, c]"] by simp_all

lemma b64_groups:
  fixes n :: int
  assumes "0 \<le> n"
  shows "n div 262144 * 262144 + n div 4096 mod 64 * 4096 + n div 64 mod 64 * 64 + n mod 64 = n"
    "n div 4096 * 4096 + n div 64 mod 64 * 64 + n mod 64 = n" "n div 64 * 64 + n mod 64 = n"
proof -
  have d: "n div 4096 = n div 64 div 64" "n div 262144 = n div 64 div 64 div 64"
    using zdiv_zmult2_eq [of 64 n 64] zdiv_zmult2_eq [of 64 "n div 64" 64] zdiv_zmult2_eq [of 4096 n 64] by simp_all
  have e: "x div 64 * 64 + x mod 64 = x" for x :: int by simp
  note e1 = e [of n] and e2 = e [of "n div 64"] and e3 = e [of "n div 64 div 64"]
  show "n div 64 * 64 + n mod 64 = n" by (rule e1)
  show "n div 4096 * 4096 + n div 64 mod 64 * 64 + n mod 64 = n" unfolding d using e1 e2 by linarith
  show "n div 262144 * 262144 + n div 4096 mod 64 * 4096 + n div 64 mod 64 * 64 + n mod 64 = n"
    unfolding d using e1 e2 e3 by linarith
qed

lemma b64decode_group:
  "0 \<le> va \<Longrightarrow> va < 64 \<Longrightarrow> 0 \<le> vb \<Longrightarrow> vb < 64 \<Longrightarrow> 0 \<le> vc \<Longrightarrow> vc < 64 \<Longrightarrow> 0 \<le> vd \<Longrightarrow> vd < 64 \<Longrightarrow>
   b64decode (b64_char va # b64_char vb # b64_char vc # b64_char vd # rest) =
     map_option ((@) (be_bytes 3 (va * 262144 + vb * 4096 + vc * 64 + vd))) (b64decode rest)"
  "0 \<le> va \<Longrightarrow> va < 64 \<Longrightarrow> 0 \<le> vb \<Longrightarrow> vb < 64 \<Longrightarrow> 0 \<le> vc \<Longrightarrow> vc < 64 \<Longrightarrow>
   b64decode [b64_char va, b64_char vb, b64_char vc, 0x3D] = Some (be_bytes 2 ((va * 4096 + vb * 64 + vc) div 4))"
  "0 \<le> va \<Longrightarrow> va < 64 \<Longrightarrow> 0 \<le> vb \<Longrightarrow> vb < 64 \<Longrightarrow>
   b64decode [b64_char va, b64_char vb, 0x3D, 0x3D] = Some (be_bytes 1 ((va * 64 + vb) div 16))"
  by (simp_all add: b64_digit)

lemma b64decode_encode: "b64decode (b64encode bs) = Some bs"
proof (induction bs rule: b64encode.induct)
  case (1 a b c rest)
  define n where "n = be_int [a, b, c]"
  have n: "0 \<le> n" "n < 16777216" by (simp_all add: n_def be_int_bounds)
  have "n div 262144 < 64" using n(2) by simp
  moreover have "be_bytes 3 n = [a, b, c]" using be_bytes_be_int [of "[a, b, c]"] by (simp add: n_def numeral_3_eq_3)
  moreover have "b64encode (a # b # c # rest) =
      b64_char (n div 262144) # b64_char (n div 4096 mod 64) # b64_char (n div 64 mod 64) # b64_char (n mod 64) # b64encode rest"
    by (simp only: b64encode.simps Let_def n_def append.simps)
  moreover have "0 \<le> n div 262144" using n(1) by (simp add: pos_imp_zdiv_nonneg_iff)
  ultimately show ?case
    using 1 by (simp add: b64decode_group b64_groups(1) [OF n(1)] del: b64decode.simps b64encode.simps)
next
  case (2 a b)
  define n where "n = be_int [a, b] * 4"
  have n: "0 \<le> n" "n < 262144" using be_int_bounds(2) [of a b] by (simp_all add: n_def)
  have "n div 4096 < 64" using n(2) by simp
  moreover have "n div 4 = be_int [a, b]" by (simp add: n_def)
  moreover have "be_bytes 2 (be_int [a, b]) = [a, b]" using be_bytes_be_int [of "[a, b]"] by (simp add: numeral_2_eq_2)
  moreover have "b64encode [a, b] = [b64_char (n div 4096), b64_char (n div 64 mod 64), b64_char (n mod 64), 0x3D]"
    by (simp only: b64encode.simps Let_def n_def)
  moreover have "0 \<le> n div 4096" using n(1) by (simp add: pos_imp_zdiv_nonneg_iff)
  ultimately show ?case
    by (simp add: b64decode_group b64_groups(2) [OF n(1)] del: b64decode.simps b64encode.simps)
next
  case (3 a)
  define n where "n = be_int [a] * 16"
  have n: "0 \<le> n" "n < 4096" using be_int_bounds(1) [of a] by (simp_all add: n_def)
  have "n div 64 < 64" using n(2) by simp
  moreover have "n div 16 = be_int [a]" by (simp add: n_def)
  moreover have "be_bytes 1 (be_int [a]) = [a]" using be_bytes_be_int [of "[a]"] by simp
  moreover have "b64encode [a] = [b64_char (n div 64), b64_char (n mod 64), 0x3D, 0x3D]"
    by (simp only: b64encode.simps Let_def n_def)
  moreover have "0 \<le> n div 64" using n(1) by (simp add: pos_imp_zdiv_nonneg_iff)
  ultimately show ?case
    by (simp add: b64decode_group b64_groups(3) [OF n(1)] del: b64decode.simps b64encode.simps)
qed simp

lemma equals_no_space [simp]: "\<not> is_space 0x3D" by (simp add: is_space_def)

lemma b64encode_chars: "x \<in> set (b64encode bs) \<Longrightarrow> \<not> is_space x \<and> x \<noteq> 0x2D"
proof (induction bs rule: b64encode.induct)
  case (1 a b c rest)
  have "be_int [a, b, c] div 262144 < 64" "0 \<le> be_int [a, b, c] div 262144" using be_int_bounds(3) [of a b c] by (simp_all add: pos_imp_zdiv_nonneg_iff)
  with 1 show ?case by (auto simp: Let_def b64_digit)
next
  case (2 a b)
  have "be_int [a, b] * 4 div 4096 < 64" "0 \<le> be_int [a, b] * 4 div 4096" using be_int_bounds(2) [of a b] by (simp_all add: pos_imp_zdiv_nonneg_iff)
  with 2 show ?case by (auto simp: Let_def b64_digit)
next
  case (3 a)
  have "be_int [a] * 16 div 64 < 64" "0 \<le> be_int [a] * 16 div 64" using be_int_bounds(1) [of a] by (simp_all add: pos_imp_zdiv_nonneg_iff)
  with 3 show ?case by (auto simp: Let_def b64_digit)
qed simp

section \<open>Lines\<close>

declare words_of.simps [simp del]

lemma py_range_step:
  assumes "0 < k" "0 < n"
  shows "py_range 0 n k = 0 # map (\<lambda>i. i + k) (py_range 0 (n - k) k)"
proof -
  have "(n - 0 + k - 1) div k = (n - k - 0 + k - 1) div k + 1"
    using assms(1) div_add_self2 [of k "n - 1"] by (simp add: algebra_simps)
  moreover have "0 \<le> (n - k - 0 + k - 1) div k" using assms by (intro pos_imp_zdiv_nonneg_iff [THEN iffD2]) simp_all
  ultimately have "nat ((n - 0 + k - 1) div k) = Suc (nat ((n - k - 0 + k - 1) div k))" by (simp add: nat_add_distrib)
  then show ?thesis
    by (simp add: py_range_def upt_conv_Cons map_Suc_upt [symmetric] comp_def algebra_simps del: upt_Suc)
qed

lemma chunks_concat:
  assumes "0 < k"
  shows "concat (map (\<lambda>i. py_slice xs i (i + k)) (py_range 0 (len xs) k)) = xs \<and>
    [] \<notin> set (map (\<lambda>i. py_slice xs i (i + k)) (py_range 0 (len xs) k))"
proof (induction xs rule: length_induct)
  case (1 xs)
  show ?case
  proof (cases "xs = []")
    case True
    then show ?thesis using assms by (simp add: py_range_def div_pos_pos_trivial)
  next
    case False
    define ys where "ys = py_slice xs k (len xs)"
    have ys: "ys = drop (nat k) xs" using assms by (simp add: ys_def slice_nonneg)
    have "length ys < length xs" using False assms by (simp add: ys)
    note ih = 1 [rule_format, OF this]
    have r: "py_range 0 (len xs - k) k = py_range 0 (len ys) k"
    proof (cases "k \<le> len xs")
      case True
      then have "len ys = len xs - k" using assms by (simp add: ys)
      then show ?thesis by simp
    next
      case f: False
      have "0 \<le> len xs - 1" using False by (cases xs) simp_all
      with f have "(len xs - 1) div k = 0" "(k - 1) div k = 0" using assms by (simp_all add: div_pos_pos_trivial)
      then show ?thesis using f by (simp add: ys py_range_def)
    qed
    have sl: "py_slice xs (i + k) (i + k + k) = py_slice ys i (i + k)" if "i \<in> set (py_range 0 (len ys) k)" for i
    proof -
      have "0 \<le> i" using set_py_range [OF assms that] by simp
      then have "nat (i + k) = nat i + nat k" "nat (i + k + k) - nat (i + k) = nat k" "nat (i + k) - nat i = nat k"
        using assms by linarith+
      with assms \<open>0 \<le> i\<close> show ?thesis by (simp add: ys slice_nonneg add.commute)
    qed
    have "map (\<lambda>i. py_slice xs i (i + k)) (py_range 0 (len xs) k) =
        py_slice xs 0 k # map (\<lambda>i. py_slice ys i (i + k)) (py_range 0 (len ys) k)"
      using False assms sl by (simp add: py_range_step r)
    moreover have "py_slice xs 0 k @ ys = xs" using assms by (simp add: ys slice_nonneg)
    moreover have "py_slice xs 0 k \<noteq> []" using False assms by (simp add: slice_nonneg)
    ultimately show ?thesis using ih by simp
  qed
qed

lemma words_of_space: "is_space c \<Longrightarrow> words_of (c # s) = words_of s"
  by (simp add: words_of.simps [of "c # s"] words_of.simps [of s])

lemma words_of_word:
  assumes "w \<noteq> []" "\<And>b. b \<in> set w \<Longrightarrow> \<not> is_space b" "is_space c"
  shows "words_of (w @ c # s) = w # words_of s"
proof -
  have d: "dropWhile is_space (w @ c # s) = w @ c # s" using assms(1,2) by (cases w) auto
  have "takeWhile (\<lambda>b. \<not> is_space b) (w @ c # s) = w" "dropWhile (\<lambda>b. \<not> is_space b) (w @ c # s) = c # s"
    using assms(2,3) by (simp_all add: takeWhile_append2 dropWhile_append2)
  then show ?thesis using assms(1) words_of_space [OF assms(3)] by (simp add: words_of.simps [of "w @ c # s"] d Let_def)
qed

lemma words_of_lines:
  assumes "\<And>w b. w \<in> set ws \<Longrightarrow> b \<in> set w \<Longrightarrow> \<not> is_space b" "[] \<notin> set ws"
  shows "words_of (join_with [0x0A] ws @ [0x0A]) = ws"
  using assms
proof (induction ws rule: induct_list012)
  case 1
  show ?case by (simp add: words_of.simps is_space_def)
next
  case (2 w)
  have "words_of [] = []" by (simp add: words_of.simps)
  with 2 words_of_word [of w "0x0A" "[]"] show ?case by (simp add: is_space_def)
next
  case (3 w v ws)
  have "words_of (w @ 0x0A # (join_with [0x0A] (v # ws) @ [0x0A])) = w # words_of (join_with [0x0A] (v # ws) @ [0x0A])"
    using 3 by (intro words_of_word) (auto simp: is_space_def)
  moreover have "words_of (join_with [0x0A] (v # ws) @ [0x0A]) = v # ws"
    by (rule 3(2)) (use 3(3,4) in \<open>auto\<close>)
  ultimately show ?case by simp
qed

section \<open>The markers\<close>

lemma strip_prefix_Some: "strip_prefix p xs = Some r \<longleftrightarrow> xs = p @ r"
  by (induction p xs rule: strip_prefix.induct) auto

lemma split_pat_Some: "split_pat p xs = Some (a, b) \<Longrightarrow> xs = a @ p @ b"
  by (induction xs arbitrary: a) (auto simp: split_pat.simps strip_prefix_Some split: option.split_asm)

lemma split_pat_first:
  assumes "\<And>k. k < length a \<Longrightarrow> strip_prefix p (drop k (a @ p @ b)) = None"
  shows "split_pat p (a @ p @ b) = Some (a, b)"
  using assms
proof (induction a)
  case Nil
  then show ?case by (simp add: split_pat.simps [of p "p @ b"] strip_prefix_Some [THEN iffD2])
next
  case (Cons x a)
  have "strip_prefix p ((x # a) @ p @ b) = None" using Cons.prems [of 0] by simp
  moreover have "split_pat p (a @ p @ b) = Some (a, b)"
    using Cons.prems [of "Suc _"] by (intro Cons.IH) simp
  ultimately show ?case by (simp add: split_pat.simps [of p "x # a @ p @ b"])
qed

lemma strip_prefix_hd: "x \<noteq> y \<Longrightarrow> strip_prefix (x # p) (y # ys) = None"
  by simp

lemmas markers = BEGIN_CERTIFICATE_def END_CERTIFICATE_def

lemma marker_dash: "\<exists>p. BEGIN_CERTIFICATE = 0x2D # p" "\<exists>p. END_CERTIFICATE = 0x2D # p" "\<exists>p. b8 ''-----'' = 0x2D # p"
  by (simp_all add: markers b8_def)

lemma no_dash_strip:
  assumes "k < length w" "0x2D \<notin> set w"
  shows "strip_prefix (0x2D # p) (drop k (w @ r)) = None"
proof -
  have "drop k w = w ! k # drop (Suc k) w" using assms(1) by (rule Cons_nth_drop_Suc [symmetric])
  moreover have "w ! k \<noteq> 0x2D" using assms nth_mem by metis
  ultimately show ?thesis using assms(1) by simp
qed

lemma no_dash_contains:
  assumes "0x2D \<notin> set w"
  shows "\<not> contains_sub (b8 ''-----'') w"
proof
  assume "contains_sub (b8 ''-----'') w"
  then obtain a b where "split_pat (b8 ''-----'') w = Some (a, b)" by (auto simp: contains_sub_def)
  from split_pat_Some [OF this] have "set (b8 ''-----'') \<subseteq> set w" by auto
  with assms show False by (auto simp: b8_def)
qed

lemma begin_not_behind:
  assumes "0x2D \<notin> set w"
  shows "\<not> contains_sub BEGIN_CERTIFICATE (w @ END_CERTIFICATE @ [0x0A])"
proof
  assume "contains_sub BEGIN_CERTIFICATE (w @ END_CERTIFICATE @ [0x0A])"
  then obtain a b where "split_pat BEGIN_CERTIFICATE (w @ END_CERTIFICATE @ [0x0A]) = Some (a, b)" by (auto simp: contains_sub_def)
  from split_pat_Some [OF this] have e: "w @ END_CERTIFICATE @ [0x0A] = a @ BEGIN_CERTIFICATE @ b" .
  obtain p where p: "BEGIN_CERTIFICATE = 0x2D # p" using marker_dash(1) by blast
  have "length w \<le> length a"
  proof (rule ccontr)
    assume "\<not> length w \<le> length a"
    then have "(w @ END_CERTIFICATE @ [0x0A]) ! length a \<in> set w" by (simp add: nth_append)
    moreover have "(w @ END_CERTIFICATE @ [0x0A]) ! length a = 0x2D" unfolding e p by (simp add: nth_append)
    ultimately show False using assms by simp
  qed
  moreover have "length (w @ END_CERTIFICATE @ [0x0A]) = length (a @ BEGIN_CERTIFICATE @ b)" using e by simp
  ultimately show False by (simp add: markers b8_def)
qed

lemma end_after_begin:
  assumes "0x2D \<notin> set w"
  shows "split_pat END_CERTIFICATE (BEGIN_CERTIFICATE @ 0x0A # w @ END_CERTIFICATE @ r) = Some (BEGIN_CERTIFICATE @ 0x0A # w, r)"
proof -
  let ?a = "BEGIN_CERTIFICATE @ 0x0A # w"
  have "strip_prefix END_CERTIFICATE (drop k (?a @ END_CERTIFICATE @ r)) = None" if k: "k < length ?a" for k
  proof (cases "k < length BEGIN_CERTIFICATE")
    case True
    let ?x = "w @ END_CERTIFICATE @ r" and ?s = "drop k BEGIN_CERTIFICATE @ 0x0A # w @ END_CERTIFICATE @ r"
    have chars: "0x42 \<notin> set END_CERTIFICATE" "0x0A \<notin> set END_CERTIFICATE" "length END_CERTIFICATE = 25"
      "length BEGIN_CERTIFICATE = 27" "BEGIN_CERTIFICATE ! 5 = 0x42"
      by (simp_all add: markers b8_def)
    have "\<exists>i < 25. ?s ! i = 0x42 \<or> ?s ! i = 0x0A"
    proof (cases "k \<le> 5")
      case True
      then have "?s ! (5 - k) = 0x42" using chars(4,5) by (simp add: nth_append)
      then show ?thesis by (intro exI [of _ "5 - k"]) simp
    next
      case False
      have "?s ! (27 - k) = 0x0A" using chars(4) \<open>k < length BEGIN_CERTIFICATE\<close> by (simp add: nth_append)
      then show ?thesis using False by (intro exI [of _ "27 - k"]) simp
    qed
    then obtain i where i: "i < 25" "?s ! i \<notin> set END_CERTIFICATE" using chars(1,2) by metis
    have "?s \<noteq> END_CERTIFICATE @ q" for q using i chars(3) by (metis nth_append nth_mem)
    then have "strip_prefix END_CERTIFICATE ?s = None" by (metis not_None_eq strip_prefix_Some)
    then show ?thesis using True by simp
  next
    case False
    obtain p where p: "END_CERTIFICATE = 0x2D # p" using marker_dash(2) by blast
    have "k - length BEGIN_CERTIFICATE < length (0x0A # w)" using k False by simp
    moreover have "0x2D \<notin> set (0x0A # w)" using assms by simp
    ultimately have "strip_prefix (0x2D # p) (drop (k - length BEGIN_CERTIFICATE) ((0x0A # w) @ END_CERTIFICATE @ r)) = None"
      by (rule no_dash_strip)
    with False p show ?thesis by simp
  qed
  from split_pat_first [OF this] show ?thesis by simp
qed

section \<open>Round trips\<close>

lemma pem_body_pem: "pem_body (certificate_pem der) = Inr der"
proof -
  define body where "body = b64encode der"
  define ls where "ls = map (\<lambda>index. py_slice body index (index + 64)) (py_range 0 (len body) 64)"
  define w where "w = join_with [0x0A] ls @ [0x0A]"
  have c: "concat ls = body" "[] \<notin> set ls" using chunks_concat [of 64 body] by (simp_all add: ls_def)
  have ch: "\<not> is_space b" "b \<noteq> 0x2D" if "l \<in> set ls" "b \<in> set l" for l b
  proof -
    have "b \<in> set body" using that c(1) by auto
    then show "\<not> is_space b" "b \<noteq> 0x2D" using b64encode_chars by (simp_all add: body_def)
  qed
  have "b \<in> set (join_with [0x0A] xs) \<Longrightarrow> b = 0x0A \<or> (\<exists>x \<in> set xs. b \<in> set x)" for b and xs :: "bytes list"
    by (induction xs rule: induct_list012) auto
  then have dash: "0x2D \<notin> set w" using ch(2) unfolding w_def by fastforce
  have pem: "certificate_pem der = BEGIN_CERTIFICATE @ 0x0A # w @ END_CERTIFICATE @ [0x0A]"
    by (simp add: certificate_pem_def body_def [symmetric] ls_def [symmetric] w_def)
  have nd: "0x2D \<notin> set (0x0A # w)" using dash by simp
  have b: "split_pat BEGIN_CERTIFICATE (certificate_pem der) = Some ([], 0x0A # w @ END_CERTIFICATE @ [0x0A])"
    using split_pat_first [of "[]" BEGIN_CERTIFICATE "0x0A # w @ END_CERTIFICATE @ [0x0A]"] by (simp add: pem)
  have e: "split_pat END_CERTIFICATE (certificate_pem der) = Some (BEGIN_CERTIFICATE @ 0x0A # w, [0x0A])"
    using end_after_begin [OF dash, of "[0x0A]"] by (simp add: pem)
  obtain p where p: "END_CERTIFICATE = 0x2D # p" using marker_dash(2) by blast
  have r: "split_pat END_CERTIFICATE ((0x0A # w) @ END_CERTIFICATE @ [0x0A]) = Some (0x0A # w, [0x0A])"
    by (rule split_pat_first) (use no_dash_strip [OF _ nd] in \<open>simp add: p\<close>)
  have one: "occurs_once BEGIN_CERTIFICATE (certificate_pem der)"
    using begin_not_behind [OF nd] by (simp add: occurs_once_def b)
  have "\<not> contains_sub END_CERTIFICATE [0x0A]"
    by (simp add: contains_sub_def split_pat.simps markers b8_def)
  then have two: "occurs_once END_CERTIFICATE (certificate_pem der)" by (simp add: occurs_once_def e)
  have sp: "strip_bytes [] = []" "strip_bytes [0x0A] = []" by (simp_all add: strip_bytes_def rstrip_of_def is_space_def)
  have "words_of (0x0A # w) = ls"
    using words_of_lines [OF ch(1) c(2)] by (simp add: words_of_space w_def is_space_def)
  then have "b64decode (concat (words_of (0x0A # w))) = Some der" by (simp add: c(1) body_def b64decode_encode)
  with one two b r sp no_dash_contains [OF nd] show ?thesis by (simp add: pem_body_def)
qed

text \<open>
  A certificate survives the PEM text that the scripts hand to OpenSSL: every DER object that is a sequence and
  within the limit of the reader is read back from its PEM form unchanged.
\<close>

theorem certificate_pem_roundtrip:
  assumes "der_tag item = 0x30" "len (der_bytes item) \<le> MAX_DER_BYTES"
  shows "isolated_certificate_der (certificate_pem (der_bytes item)) = Inr (der_bytes item)"
proof -
  have "split_pat BEGIN_CERTIFICATE (certificate_pem (der_bytes item)) \<noteq> None"
    using split_pat_first [of "[]" BEGIN_CERTIFICATE] by (simp add: certificate_pem_def Let_def)
  then have "contains_sub BEGIN_CERTIFICATE (certificate_pem (der_bytes item))" by (simp add: contains_sub_def)
  moreover have "der_read (der_bytes item) 0 0 = Inr (item\<lparr>der_depth := 0\<rparr>, len (der_bytes item))"
    using assms(2) by (simp add: der_read_whole) (simp add: der_bytes_def der_limits)
  ultimately show ?thesis using assms(1) by (simp add: isolated_certificate_der_def pem_body_pem)
qed

theorem certificate_pem_roundtrip_witness:
  "isolated_certificate_der (certificate_pem [0x30, 3, 2, 1, 5]) = Inr [0x30, 3, 2, 1, 5]"
  using certificate_pem_roundtrip [of "\<lparr>der_tag = 0x30, der_value = [2, 1, 5], der_depth = 0\<rparr>"]
  by (simp add: der_bytes_def encode_der_def der_limits)

lemma strip_id: "(\<And>c. c \<in> set s \<Longrightarrow> \<not> isspace c) \<Longrightarrow> strip (s @ [CHR ''\<newline>'']) = s"
proof -
  assume a: "\<And>c. c \<in> set s \<Longrightarrow> \<not> isspace c"
  have n: "isspace (CHR ''\<newline>'')" by (simp add: isspace_def)
  show ?thesis
  proof (cases s rule: rev_cases)
    case Nil
    then show ?thesis using n by (simp add: strip_def lstrip_def rstrip_of_def)
  next
    case (snoc t x)
    then have "dropWhile isspace (s @ [CHR ''\<newline>'']) = s @ [CHR ''\<newline>'']" using a by (cases t) auto
    then show ?thesis using n a snoc by (simp add: strip_def lstrip_def rstrip_of_def)
  qed
qed

lemma hex_chars: "set (hex bs) \<subseteq> set ''0123456789abcdef''"
proof -
  define H where "H = set ''0123456789abcdef''"
  have d: "hex_digit n \<in> H" if "n < 16" for n
  proof -
    have "n < length ''0123456789abcdef''" using that by simp
    then show ?thesis unfolding hex_digit_def H_def by (rule nth_mem)
  qed
  have "unat b div 16 < 16" for b :: byte
  proof -
    have "int (unat b) < 256" using uint_byte(2) [of b] by simp
    then show ?thesis by linarith
  qed
  then have b: "set (hex_byte b) \<subseteq> H" for b using d [of "unat b div 16"] d [of "unat b mod 16"] by (simp add: hex_byte_def)
  have "set (hex bs) = (\<Union>b \<in> set bs. set (hex_byte b))" by (simp add: hex_def)
  then have "set (hex bs) \<subseteq> H" using b by blast
  then show ?thesis unfolding H_def .
qed

lemma hex_text:
  assumes "c \<in> set (hex bs)"
  shows "\<not> isspace c" "code c < 128"
proof -
  have "\<forall>c \<in> set ''0123456789abcdef''. \<not> isspace c \<and> code c < 128" by code_simp
  with assms hex_chars show "\<not> isspace c" "code c < 128" by blast+
qed

lemma request_loads:
  assumes "boot_create_request sha256 x509 args = Inr (normalized, request, digest)"
    and "parse request = Some (request_document sha256 args normalized)"
    and "va_request vargs = request" "va_request_digest vargs = digest" "va_unsigned vargs = ra_unsigned args"
  shows "load_request sha256 parse vargs =
    Inr (request_document sha256 args normalized, request_digest sha256 (request_document sha256 args normalized))"
proof -
  let ?doc = "request_document sha256 args normalized"
  from assms(1) have d: "digest = b8 (request_digest sha256 ?doc @ [CHR ''\<newline>''])"
    by (auto simp: boot_create_request_def Let_def split: if_split_asm)
  have t: "boot_text digest = Inr (request_digest sha256 ?doc @ [CHR ''\<newline>''])"
  proof -
    have "digest = utf8_encode (request_digest sha256 ?doc @ [CHR ''\<newline>''])"
      unfolding d b8_def using hex_text(2) by (intro utf8_encode_ascii [symmetric]) (auto simp: request_digest_def)
    then show ?thesis by (simp add: boot_text_def of_option_def utf8_decode_encode)
  qed
  have s: "strip (request_digest sha256 ?doc @ [CHR ''\<newline>'']) = request_digest sha256 ?doc"
    by (rule strip_id) (use hex_text(1) in \<open>auto simp: request_digest_def\<close>)
  have v: "validate_request sha256 ?doc (request_digest sha256 ?doc) = Inr ()"
    by (simp add: validate_request_def request_document_def boot_item_def REQUEST_FIELDS_def insert_commute)
  have u: "boot_item ?doc ''unsigned_sha256'' = Inr (JStr (hex (sha256 (ra_unsigned args))))"
    by (simp add: request_document_def boot_item_def)
  from assms(2-5) t s v u show ?thesis by (simp add: load_request_def boot_json_def)
qed


end
