(* ===== verification/Boot_Signer.thy ===== *)
theory Boot_Signer
  imports Boot_Certificate
begin

text \<open>
  The reference signer \<^verbatim>\<open>mkosi/private/secure_boot_signer.py\<close>: the manifest of requests, the validation of every
  entry, and the check of the RSA signature that a signing tool returned, without external tools. A file is given by its path
  relative to the execution root; a missing file is an \<^verbatim>\<open>OSError\<close>. The signing tool is a parameter that turns an
  unsigned binary into a signed one or fails.
\<close>

section \<open>The manifest\<close>

definition MANIFEST_FORMAT :: string where "MANIFEST_FORMAT = ''mkosi-secure-boot-signing-manifest-v1''"

definition ENTRY_FIELDS :: "string list" where
  "ENTRY_FIELDS =
     [''certificate'', ''context'', ''esp_path'', ''label'', ''request'', ''request_digest'', ''signed_name'', ''unsigned_binary'']"

record sign_request_data =
  sr_label :: string
  sr_signed_name :: string
  sr_unsigned :: bytes

text \<open>
  The parser returns the pairs of every object as they stand in the text; the hook of \<^verbatim>\<open>load_json\<close> sees every object and
  rejects a repeated key.
\<close>

fun unique_keys :: "'s json \<Rightarrow> bool" where
  "unique_keys (JList xs) \<longleftrightarrow> list_all unique_keys xs"
| "unique_keys (JObj kvs) \<longleftrightarrow> distinct (map fst kvs) \<and> list_all (\<lambda>kv. unique_keys (snd kv)) kvs"
| "unique_keys _ \<longleftrightarrow> True"

definition signer_json :: "(bytes \<Rightarrow> string json option) \<Rightarrow> bytes \<Rightarrow> boot_error + string json" where
  "signer_json parse data =
     rbind (boot_json parse data) (\<lambda>document.
       if unique_keys document then Inr document else Inl (Boot_value ''duplicate JSON keys''))"

definition is_json_str :: "string json \<Rightarrow> bool" where
  "is_json_str v \<longleftrightarrow> (case v of JStr _ \<Rightarrow> True | _ \<Rightarrow> False)"

text \<open>A field of an entry that passed the checks is a string.\<close>

definition entry_field :: "string json \<Rightarrow> string \<Rightarrow> string" where
  "entry_field e key = (case json_get e key of Some (JStr s) \<Rightarrow> s | _ \<Rightarrow> [])"

definition check_entry :: "string list \<Rightarrow> string json \<Rightarrow> boot_error + unit" where
  "check_entry names e =
     (case e of
        JObj kvs \<Rightarrow>
          (if fst ` set kvs \<noteq> set ENTRY_FIELDS then Inl (Boot_value ''signing manifest entries must have exactly the fields'')
           else if \<not> list_all (\<lambda>kv. is_json_str (snd kv)) kvs then Inl (Boot_value ''signing manifest fields must be strings'')
           else if \<not> plain_component (entry_field e ''signed_name'') \<or> entry_field e ''signed_name'' \<in> set names
           then Inl (Boot_value ''invalid or duplicate signed file name'')
           else Inr ())
      | _ \<Rightarrow> Inl (Boot_value ''signing manifest entries must have exactly the fields''))"

fun check_entries :: "string list \<Rightarrow> string json list \<Rightarrow> boot_error + unit" where
  "check_entries names [] = Inr ()"
| "check_entries names (e # es) =
     rbind (check_entry names e) (\<lambda>_. check_entries (entry_field e ''signed_name'' # names) es)"

definition load_manifest :: "(bytes \<Rightarrow> string json option) \<Rightarrow> bytes \<Rightarrow> boot_error + string json list" where
  "load_manifest parse data =
     rbind (signer_json parse data) (\<lambda>manifest.
       case manifest of
         JObj kvs \<Rightarrow>
           (if map_of kvs ''format_version'' \<noteq> Some (JStr MANIFEST_FORMAT) then Inl (Boot_value ''not a signing manifest'')
            else
              case map_of kvs ''requests'' of
                Some (JList entries) \<Rightarrow>
                  (if fst ` set kvs \<noteq> {''format_version'', ''requests''} \<or> entries = []
                   then Inl (Boot_value ''signing manifest must hold exactly format_version and a nonempty requests array'')
                   else rbind (check_entries [] entries) (\<lambda>_. Inr entries))
              | _ \<Rightarrow> Inl (Boot_value ''signing manifest must hold exactly format_version and a nonempty requests array''))
       | _ \<Rightarrow> Inl (Boot_value ''not a signing manifest''))"

text \<open>The parent of the innermost \<^verbatim>\<open>bazel-out\<close> directory that holds the manifest, whose real path has these components.\<close>

function find_execroot :: "string list \<Rightarrow> boot_error + string list" where
  "find_execroot comps =
     (case butlast comps of
        [] \<Rightarrow> Inl (Boot_value ''manifest is not below bazel-out; pass --execroot'')
      | parent \<Rightarrow> if last parent = ''bazel-out'' then Inr (butlast parent) else find_execroot parent)"
  by pat_completeness auto

termination find_execroot
proof (relation "measure length", goal_cases)
  case (2 comps x xs)
  then have "length (butlast comps) = length (x # xs)" by simp
  then show ?case by simp
qed simp

section \<open>Entries\<close>

definition resolve_path :: "(string \<Rightarrow> bytes option) \<Rightarrow> string \<Rightarrow> boot_error + bytes" where
  "resolve_path files path =
     (if path = [] \<or> starts_with ''/'' path then Inl (Boot_value ''manifest path must be relative to the execution root'')
      else of_option Boot_os (files path))"

definition validate_entry ::
    "(bytes \<Rightarrow> bytes) \<Rightarrow> (bytes \<Rightarrow> string json option) \<Rightarrow> (string \<Rightarrow> bytes option) \<Rightarrow> bytes \<Rightarrow> string json \<Rightarrow>
     boot_error + sign_request_data" where
  "validate_entry sha256 parse files cert e =
     rbind (rbind (resolve_path files (entry_field e ''request'')) (signer_json parse)) (\<lambda>request.
     rbind (rbind (resolve_path files (entry_field e ''request_digest'')) boot_text) (\<lambda>recorded.
     rbind (validate_request sha256 request (strip recorded)) (\<lambda>_.
     rbind (boot_item request ''esp_path'') (\<lambda>esp_path.
     rbind (boot_item request ''context'') (\<lambda>context_value.
       if (esp_path, context_value) \<noteq> (JStr (entry_field e ''esp_path''), JStr (entry_field e ''context''))
       then Inl (Boot_value ''request does not match the esp_path and context of the manifest'')
       else
         rbind (resolve_path files (entry_field e ''unsigned_binary'')) (\<lambda>unsigned_data.
         rbind (boot_item request ''unsigned_sha256'') (\<lambda>unsigned_sha256.
           if JStr (hex (sha256 unsigned_data)) \<noteq> unsigned_sha256
           then Inl (Boot_value ''unsigned binary does not match its request'')
           else
             rbind (parse_pe unsigned_data False) (\<lambda>_.
             rbind (rbind (resolve_path files (entry_field e ''certificate'')) isolated_certificate_der) (\<lambda>requested.
             rbind (boot_item request ''certificate_sha256'') (\<lambda>certificate_sha256.
               if JStr (hex (sha256 requested)) \<noteq> certificate_sha256
               then Inl (Boot_value ''request certificate does not match certificate_sha256'')
               else if requested \<noteq> cert then Inl (Boot_value ''--certificate is not the requested certificate'')
               else Inr \<lparr>sr_label = entry_field e ''label'', sr_signed_name = entry_field e ''signed_name'',
                 sr_unsigned = unsigned_data\<rparr>))))))))))"

text \<open>\<^verbatim>\<open>_PEM_CERTIFICATE.findall\<close>: the shortest matches from left to right.\<close>

lemma split_pat_shrinks: "split_pat p xs = Some (a, b) \<Longrightarrow> length b \<le> length xs - length p"
  by (drule split_pat_Some) simp

function pem_blocks :: "bytes \<Rightarrow> bytes list" where
  "pem_blocks data =
     (case split_pat BEGIN_CERTIFICATE data of
        None \<Rightarrow> []
      | Some (_, rest) \<Rightarrow>
          (case split_pat END_CERTIFICATE rest of
             None \<Rightarrow> []
           | Some (body, rest') \<Rightarrow> (BEGIN_CERTIFICATE @ body @ END_CERTIFICATE) # pem_blocks rest'))"
  by pat_completeness auto

termination pem_blocks
proof (relation "measure length", goal_cases)
  case (2 data p a rest q body rest')
  then have "length rest \<le> length data - length BEGIN_CERTIFICATE" "length rest' \<le> length rest - length END_CERTIFICATE"
    "length BEGIN_CERTIFICATE \<le> length data"
    using split_pat_Some [of BEGIN_CERTIFICATE data] split_pat_shrinks by fastforce+
  then show ?case by (simp add: markers b8_def)
qed simp

declare pem_blocks.simps [simp del]

text \<open>The content of the key file is \<^const>\<open>None\<close> when it is not a file.\<close>

definition check_key_file :: "bytes option \<Rightarrow> bytes \<Rightarrow> boot_error + unit" where
  "check_key_file key cert =
     (case key of
        None \<Rightarrow> Inl (Boot_value ''--key must name a private key file'')
      | Some data \<Rightarrow>
          let blocks = pem_blocks data
          in if length blocks > 1 then Inl (Boot_value ''the key file holds more than one certificate'')
          else if blocks = [] then Inr ()
          else
            rbind (isolated_certificate_der (blocks ! 0)) (\<lambda>der.
              if der \<noteq> cert then Inl (Boot_value ''the certificate in the key file is not --certificate'') else Inr ()))"

section \<open>The signature\<close>

definition OID_RSA_ENCRYPTION :: string where "OID_RSA_ENCRYPTION = ''1.2.840.113549.1.1.1''"
definition OID_CONTENT_TYPE :: string where "OID_CONTENT_TYPE = ''1.2.840.113549.1.9.3''"
definition OID_MESSAGE_DIGEST :: string where "OID_MESSAGE_DIGEST = ''1.2.840.113549.1.9.4''"

definition SHA256_DIGEST_INFO :: bytes where
  "SHA256_DIGEST_INFO = (case fromhex ''3031300d060960864801650304020105000420'' of Some bs \<Rightarrow> bs | None \<Rightarrow> [])"

text \<open>\<^verbatim>\<open>xs[i]\<close>, and the assignment of a list to two names, which is a \<^verbatim>\<open>ValueError\<close> for any other length.\<close>

definition der_at :: "der list \<Rightarrow> nat \<Rightarrow> boot_error + der" where
  "der_at xs i = (if i < length xs then Inr (xs ! i) else Inl Boot_index)"

definition der_pair :: "der list \<Rightarrow> boot_error + der \<times> der" where
  "der_pair xs = (if length xs = 2 then Inr (xs ! 0, xs ! 1) else Inl (Boot_value ''values to unpack''))"

definition der_last :: "der list \<Rightarrow> boot_error + der" where
  "der_last xs = (if xs = [] then Inl Boot_index else Inr (last xs))"

definition certificate_key :: "bytes \<Rightarrow> boot_error + der \<times> der \<times> int \<times> int" where
  "certificate_key cert =
     rbind (der_read cert 0 0) (\<lambda>(outer, _).
     rbind (rbind (children outer) (\<lambda>cs. der_at cs 0)) (\<lambda>tbs_item.
     rbind (children tbs_item) (\<lambda>tbs0.
     rbind (der_at tbs0 0) (\<lambda>first.
       let tbs = (if der_tag first = 0xA0 then drop 1 tbs0 else tbs0)
       in rbind (der_at tbs 5) (\<lambda>info.
          rbind (rbind (children info) der_pair) (\<lambda>(algorithm, public_key).
          rbind (algorithm_oid algorithm) (\<lambda>oid.
            if oid \<noteq> OID_RSA_ENCRYPTION \<or> take 1 (der_value public_key) \<noteq> [0]
            then Inl (Boot_value ''the certificate does not hold an RSA public key'')
            else
              rbind (der_read (drop 1 (der_value public_key)) 0 0) (\<lambda>(key, _).
              rbind (rbind (children key) der_pair) (\<lambda>(modulus, exponent).
              rbind (der_at tbs 2) (\<lambda>issuer.
              rbind (der_at tbs 0) (\<lambda>serial.
                Inr (issuer, serial, be_int (der_value modulus), be_int (der_value exponent)))))))))))))"

definition attribute_values :: "der \<Rightarrow> (string, der list list) dict \<Rightarrow> boot_error + (string, der list list) dict" where
  "attribute_values attribute found =
     rbind (rbind (children attribute) der_pair) (\<lambda>(oid_item, value_item).
     rbind (der_oid oid_item) (\<lambda>oid.
     rbind (children value_item) (\<lambda>cs. Inr (dict_set oid (dict_get found oid [] @ [cs]) found))))"

fun attributes_loop :: "der list \<Rightarrow> (string, der list list) dict \<Rightarrow> boot_error + (string, der list list) dict" where
  "attributes_loop [] found = Inr found"
| "attributes_loop (attribute # rest) found = rbind (attribute_values attribute found) (attributes_loop rest)"

definition signed_attributes_digest :: "(bytes \<Rightarrow> bytes) \<Rightarrow> der \<Rightarrow> bytes \<Rightarrow> boot_error + bytes" where
  "signed_attributes_digest sha256 attributes content_digest =
     rbind (children attributes) (\<lambda>items.
     rbind (attributes_loop items []) (\<lambda>found.
       let digests = dict_get found OID_MESSAGE_DIGEST []; content_types = dict_get found OID_CONTENT_TYPE []
       in if length digests \<noteq> 1 \<or> length (digests ! 0) \<noteq> 1 \<or> der_value (digests ! 0 ! 0) \<noteq> content_digest
       then Inl (Boot_value ''the signed messageDigest does not match the Authenticode content'')
       else if length content_types \<noteq> 1 then Inl (Boot_value ''the signed contentType is not SpcIndirectDataContent'')
       else
         rbind (rbind (der_at (content_types ! 0) 0) der_oid) (\<lambda>oid.
           if oid \<noteq> OID_SPC_INDIRECT_DATA then Inl (Boot_value ''the signed contentType is not SpcIndirectDataContent'')
           else Inr (sha256 (encode_der 0x31 (der_value attributes))))))"

text \<open>\<^verbatim>\<open>b"\xff" * n\<close> is empty for a negative \<open>n\<close>, and \<^verbatim>\<open>pow\<close> rejects the modulus zero.\<close>

definition pkcs1_block :: "nat \<Rightarrow> bytes \<Rightarrow> bytes" where
  "pkcs1_block n digest =
     (let suffix = [0] @ SHA256_DIGEST_INFO @ digest
      in [0, 1] @ replicate (n - 2 - length suffix) 0xFF @ suffix)"

definition rsa_check :: "int \<Rightarrow> int \<Rightarrow> bytes \<Rightarrow> bytes \<Rightarrow> boot_error + unit" where
  "rsa_check modulus exponent signature digest =
     (let n = byte_count modulus
      in if length signature \<noteq> n then Inl (Boot_value ''the signature does not verify'')
      else if modulus = 0 then Inl (Boot_value ''pow() 3rd argument cannot be 0'')
      else if be_bytes n (be_int signature ^ nat exponent mod modulus) \<noteq> pkcs1_block n digest
      then Inl (Boot_value ''the signature does not verify'')
      else Inr ())"

definition verify_boot_signature :: "(bytes \<Rightarrow> bytes) \<Rightarrow> bytes \<Rightarrow> bytes \<Rightarrow> boot_error + unit" where
  "verify_boot_signature sha256 payload cert =
     rbind (parse_signed_data payload) (\<lambda>signed.
     rbind (der_at signed 2) (\<lambda>content_info.
     rbind (rbind (children content_info) (\<lambda>cs. der_at cs 1)) (\<lambda>wrapper.
     rbind (rbind (children wrapper) (\<lambda>cs. der_at cs 0)) (\<lambda>content.
     rbind (der_last signed) (\<lambda>signer_infos.
     rbind (rbind (children signer_infos) (\<lambda>cs. der_at cs 0)) (\<lambda>signer_item.
     rbind (children signer_item) (\<lambda>signer.
     rbind (certificate_key cert) (\<lambda>(issuer, serial, modulus, exponent).
     rbind (rbind (der_at signer 1) children) (\<lambda>identifier.
       if map (\<lambda>item. (der_tag item, der_value item)) identifier \<noteq>
           [(der_tag issuer, der_value issuer), (der_tag serial, der_value serial)]
       then Inl (Boot_value ''the signature does not name --certificate as its signer'')
       else
         rbind (der_at signer 3) (\<lambda>third.
         rbind (if der_tag third = 0xA0 then signed_attributes_digest sha256 third (sha256 (der_value content))
                else Inr (sha256 (der_value content))) (\<lambda>digest.
         rbind (der_at signer (if der_tag third = 0xA0 then 5 else 4)) (\<lambda>signature.
           rsa_check modulus exponent (der_value signature) digest))))))))))))"

section \<open>Signing\<close>

definition sign_request :: "(bytes \<Rightarrow> bytes) \<Rightarrow> (bytes \<Rightarrow> boot_error + bytes) \<Rightarrow> bytes \<Rightarrow> sign_request_data \<Rightarrow> boot_error + bytes" where
  "sign_request sha256 sbsign cert request =
     rbind (sbsign (sr_unsigned request)) (\<lambda>signed_data.
     rbind (verify_embedded_digest sha256 (sr_unsigned request) signed_data) (\<lambda>payload.
     rbind (verify_boot_signature sha256 payload cert) (\<lambda>_. Inr signed_data)))"

record signer_args =
  sa_manifest :: bytes
  sa_certificate :: bytes
  sa_key :: "bytes option"
  sa_validate_only :: bool

text \<open>
  The files that \<^verbatim>\<open>sign_manifest\<close> leaves in the output directory, in the order of its writes. Each is written under a
  temporary name and renamed, and the writing starts when every request has been validated and signed.
\<close>

definition sign_manifest ::
    "(bytes \<Rightarrow> bytes) \<Rightarrow> (bytes \<Rightarrow> string json option) \<Rightarrow> (string \<Rightarrow> bytes option) \<Rightarrow> (bytes \<Rightarrow> boot_error + bytes) \<Rightarrow>
     signer_args \<Rightarrow> boot_error + (string \<times> bytes) list" where
  "sign_manifest sha256 parse files sbsign args =
     rbind (isolated_certificate_der (sa_certificate args)) (\<lambda>cert.
     rbind (load_manifest parse (sa_manifest args)) (\<lambda>entries.
     rbind (rmap (validate_entry sha256 parse files cert) entries) (\<lambda>requests.
       if sa_validate_only args then Inr []
       else
         rbind (check_key_file (sa_key args) cert) (\<lambda>_.
         rbind (rmap (sign_request sha256 sbsign cert) requests) (\<lambda>signed.
           Inr (zip (map sr_signed_name requests) signed))))))"

section \<open>What is signed\<close>

lemma list_all2_zip_ex:
  assumes "rmap f xs = Inr ys"
  shows "length ys = length xs" "\<And>i. i < length xs \<Longrightarrow> f (xs ! i) = Inr (ys ! i)"
  using assms by (auto simp: rmap_Inr_iff list_all2_conv_all_nth)

lemma check_entries_names:
  "check_entries names es = Inr u \<Longrightarrow>
     distinct (map (\<lambda>e. entry_field e ''signed_name'') es) \<and>
     (\<forall>e \<in> set es. plain_component (entry_field e ''signed_name'') \<and> entry_field e ''signed_name'' \<notin> set names)"
proof (induction es arbitrary: names)
  case (Cons e es)
  then have c: "check_entry names e = Inr ()" "check_entries (entry_field e ''signed_name'' # names) es = Inr u"
    by auto
  from c(1) have "plain_component (entry_field e ''signed_name'')" "entry_field e ''signed_name'' \<notin> set names"
    by (auto simp: check_entry_def split: json.split_asm if_split_asm)
  with Cons.IH [OF c(2)] show ?case by auto
qed simp

lemma load_manifest_names:
  assumes "load_manifest parse data = Inr entries"
  shows "distinct (map (\<lambda>e. entry_field e ''signed_name'') entries)"
    "\<And>e. e \<in> set entries \<Longrightarrow> plain_component (entry_field e ''signed_name'')"
proof -
  from assms obtain manifest where m: "signer_json parse data = Inr manifest" by (auto simp: load_manifest_def)
  obtain kvs where k: "manifest = JObj kvs" using assms m by (cases manifest) (simp_all add: load_manifest_def)
  obtain v where v: "map_of kvs ''requests'' = Some v"
    using assms m k by (cases "map_of kvs ''requests''") (simp_all add: load_manifest_def split: if_split_asm)
  obtain es where es: "v = JList es"
    using assms m k v by (cases v) (simp_all add: load_manifest_def split: if_split_asm)
  have c: "check_entries [] entries = Inr ()"
    using assms m k v es by (auto simp: load_manifest_def split: if_split_asm)
  show "distinct (map (\<lambda>e. entry_field e ''signed_name'') entries)"
    "\<And>e. e \<in> set entries \<Longrightarrow> plain_component (entry_field e ''signed_name'')"
    using check_entries_names [OF c] by auto
qed

lemma validate_entry_Inr:
  assumes "validate_entry sha256 parse files cert e = Inr r"
  shows "sr_signed_name r = entry_field e ''signed_name''" "files (entry_field e ''unsigned_binary'') = Some (sr_unsigned r)"
    "\<exists>request. rbind (resolve_path files (entry_field e ''request'')) (signer_json parse) = Inr request \<and>
      json_get request ''unsigned_sha256'' = Some (JStr (hex (sha256 (sr_unsigned r)))) \<and>
      json_get request ''certificate_sha256'' = Some (JStr (hex (sha256 cert)))"
  using assms by (auto simp: validate_entry_def boot_item_def resolve_path_def split: if_split_asm)

lemma sign_request_Inr:
  assumes "sign_request sha256 sbsign cert r = Inr data"
  shows "\<exists>payload. prove_equivalence (sr_unsigned r) data = Inr payload \<and> verify_boot_signature sha256 payload cert = Inr ()"
  using assms by (auto simp: sign_request_def dest: verify_embedded_digest_Inr(1))


section \<open>The signature check accepts what the key holder signs\<close>

lemma length_pkcs1_block: "22 + length digest \<le> n \<Longrightarrow> length (pkcs1_block n digest) = n"
  by (simp add: pkcs1_block_def Let_def SHA256_DIGEST_INFO_def hex_value_def)

lemma be_bytes_exact: "length bs = n \<Longrightarrow> be_bytes n (be_int bs) = bs"
  using be_bytes_be_int [of bs] by simp

lemma pkcs1_block_less:
  assumes "22 + length digest \<le> byte_count modulus" "0 < modulus"
  shows "be_int (pkcs1_block (byte_count modulus) digest) < modulus"
proof -
  let ?n = "byte_count modulus"
  obtain rest where r: "pkcs1_block ?n digest = 0 # 1 # rest" by (simp add: pkcs1_block_def Let_def)
  have l: "Suc (Suc (length rest)) = ?n" using length_pkcs1_block [OF assms(1)] r by simp
  have "be_int (pkcs1_block ?n digest) = 256 ^ length rest + be_int rest" by (simp add: r be_int_Cons)
  also have "\<dots> < 2 * 256 ^ length rest" using be_int_less [of rest] by simp
  also have "\<dots> \<le> 256 ^ (?n - 1)" using l [symmetric] by simp
  also have "\<dots> \<le> modulus" by (rule byte_count_bounds(2) [OF assms(2)])
  finally show ?thesis .
qed

text \<open>
  A signature that the holder of the private key makes is accepted. If the private exponent inverts the
  public one modulo the modulus, as it does for an RSA key, and the modulus has room for the encoded digest, then
  the block of the digest raised to the private exponent passes the check.
\<close>

theorem rsa_check_complete:
  assumes "\<And>m. 0 \<le> m \<Longrightarrow> m < modulus \<Longrightarrow> (m ^ d mod modulus) ^ nat exponent mod modulus = m"
    "22 + length digest \<le> byte_count modulus" "0 < modulus"
  shows "rsa_check modulus exponent
    (be_bytes (byte_count modulus) (be_int (pkcs1_block (byte_count modulus) digest) ^ d mod modulus)) digest = Inr ()"
proof -
  let ?n = "byte_count modulus"
  define m where "m = be_int (pkcs1_block ?n digest)"
  have m: "0 \<le> m" "m < modulus" using pkcs1_block_less [OF assms(2,3)] by (simp_all add: m_def)
  have s: "0 \<le> m ^ d mod modulus" "m ^ d mod modulus < 256 ^ ?n"
    using assms(3) order.strict_trans [OF pos_mod_bound [OF assms(3)] byte_count_bounds(1) [OF assms(3)]] by simp_all
  have "be_int (be_bytes ?n (m ^ d mod modulus)) = m ^ d mod modulus" using s by simp
  moreover have "be_bytes ?n m = pkcs1_block ?n digest"
    unfolding m_def by (rule be_bytes_exact) (rule length_pkcs1_block [OF assms(2)])
  ultimately show ?thesis using assms(1) [OF m] assms(3) by (simp add: rsa_check_def Let_def m_def [symmetric])
qed

theorem rsa_check_complete_witness:
  "rsa_check (2 ^ 200 - 1) 1 (be_bytes 25 (be_int (pkcs1_block 25 [7, 8]))) [7, 8] = Inr ()"
proof -
  have n: "byte_count (2 ^ 200 - 1) = 25" by (rule byte_count_unique [of 24, simplified]) simp_all
  have "(m ^ 1 mod (2 ^ 200 - 1)) ^ nat 1 mod (2 ^ 200 - 1) = m" if "0 \<le> m" "m < 2 ^ 200 - 1" for m :: int
    using that by simp
  from rsa_check_complete [of "2 ^ 200 - 1" 1 1 "[7, 8]", OF this] n pkcs1_block_less [of "[7, 8]" "2 ^ 200 - 1"]
  show ?thesis by simp
qed

end
