(* ===== verification/Boot_Fixture.thy ===== *)
theory Boot_Fixture
  imports Boot_Signer
begin

text \<open>
  A PE image of one section, its signed form and a request for it, as a concrete input on which the
  theorems of the Secure Boot theories apply. SHA-256 and OpenSSL are instantiated with constant answers.
\<close>

definition sample_headers :: "bytes \<Rightarrow> bytes \<Rightarrow> bytes" where
  "sample_headers sum_field directory =
     MZ_MAGIC @ zeros 58 @ le_bytes 4 64 @ PE_MAGIC @ le_bytes 2 0 @ le_bytes 2 1 @ zeros 12 @ le_bytes 2 136 @ le_bytes 2 0
     @ le_bytes 2 0x10B @ zeros 34 @ le_bytes 4 512 @ zeros 20 @ le_bytes 4 512 @ sum_field @ zeros 24 @ le_bytes 4 5
     @ zeros 32 @ directory
     @ zeros 16 @ le_bytes 4 8 @ le_bytes 4 512 @ zeros 16 @ zeros 248"

definition sample_unsigned :: bytes where
  "sample_unsigned = sample_headers (zeros 4) (zeros 8) @ [1, 2, 3, 4, 5, 6, 7, 8]"

definition sample_sha256 :: "bytes \<Rightarrow> bytes" where
  "sample_sha256 data = [0xAB, 0xCD]"

definition sha256_arcs :: bytes where "sha256_arcs = [0x60, 0x86, 0x48, 1, 0x65, 3, 4, 2, 1]"
definition rsa_arcs :: bytes where "rsa_arcs = [0x2A, 0x86, 0x48, 0x86, 0xF7, 0x0D, 1, 1, 1]"
definition spc_arcs :: bytes where "spc_arcs = [0x2B, 6, 1, 4, 1, 0x82, 0x37, 2, 1, 4]"
definition signed_data_arcs :: bytes where "signed_data_arcs = [0x2A, 0x86, 0x48, 0x86, 0xF7, 0x0D, 1, 7, 2]"

definition digest_info :: bytes where
  "digest_info = encode_der 0x30 (encode_der 0x06 sha256_arcs) @ encode_der 0x04 [0xAB, 0xCD]"

definition indirect_data :: bytes where
  "indirect_data = encode_der 0x30 [] @ encode_der 0x30 digest_info"

definition content_body :: bytes where
  "content_body = encode_der 0x06 spc_arcs @ encode_der 0xA0 (encode_der 0x30 indirect_data)"

definition signer_name :: bytes where
  "signer_name = encode_der 0x30 [] @ encode_der 0x02 [7]"

text \<open>The public exponent of the sample key is one, so a signature is the block that it signs.\<close>

definition sample_signature :: bytes where
  "sample_signature = pkcs1_block 24 [0xAB, 0xCD]"

definition key_body :: bytes where
  "key_body = encode_der 0x02 (replicate 24 0xFF) @ encode_der 0x02 [1]"

definition spki_body :: bytes where
  "spki_body = encode_der 0x30 (encode_der 0x06 rsa_arcs) @ encode_der 0x03 (0 # encode_der 0x30 key_body)"

definition tbs_body :: bytes where
  "tbs_body = encode_der 0x02 [7] @ encode_der 0x30 [] @ encode_der 0x30 [] @ encode_der 0x30 [] @ encode_der 0x30 []
     @ encode_der 0x30 spki_body"

definition sample_cert :: bytes where
  "sample_cert = encode_der 0x30 (encode_der 0x30 tbs_body)"

definition signer_body :: bytes where
  "signer_body = encode_der 0x02 [1] @ encode_der 0x30 signer_name @ encode_der 0x30 (encode_der 0x06 sha256_arcs)
     @ encode_der 0x30 (encode_der 0x06 rsa_arcs) @ encode_der 0x04 sample_signature"

definition signed_body :: bytes where
  "signed_body = encode_der 0x02 [1] @ encode_der 0x31 (encode_der 0x30 (encode_der 0x06 sha256_arcs))
     @ encode_der 0x30 content_body @ encode_der 0x31 (encode_der 0x30 signer_body)"

definition outer_body :: bytes where
  "outer_body = encode_der 0x06 signed_data_arcs @ encode_der 0xA0 (encode_der 0x30 signed_body)"

definition sample_pkcs7 :: bytes where
  "sample_pkcs7 = encode_der 0x30 outer_body"

definition sample_table :: bytes where
  "sample_table = le_bytes 4 (8 + len sample_pkcs7) @ le_bytes 2 0x200 @ le_bytes 2 2 @ sample_pkcs7
     @ zeros (nat ((- len sample_pkcs7) mod 8))"

definition sample_signed :: bytes where
  "sample_signed = sample_headers [1, 2, 3, 4] (le_bytes 4 520 @ le_bytes 4 (len sample_table))
     @ [1, 2, 3, 4, 5, 6, 7, 8] @ sample_table"

lemma sample_pe: "\<not> isl (parse_pe sample_unsigned False)"
  by code_simp

lemma sample_equivalence: "prove_equivalence sample_unsigned sample_signed = Inr sample_pkcs7"
  by code_simp

theorem prove_equivalence_sound_witness:
  "\<exists>pu. parse_pe sample_unsigned False = Inr pu \<and> agree sample_unsigned sample_signed (checksum pu) (security pu)"
  using prove_equivalence_sound [OF sample_equivalence] by blast

definition sample_request_args :: request_args where
  "sample_request_args = \<lparr>ra_algorithm = ALGORITHM, ra_esp_path = ''EFI/BOOT/BOOTX64.EFI'', ra_unsigned = sample_unsigned,
     ra_certificate = [0x30, 0]\<rparr>"

definition sample_request :: "boot_error + bytes \<times> bytes \<times> bytes" where
  "sample_request = boot_create_request sample_sha256 Inr sample_request_args"

definition sample_document :: "string json" where
  "sample_document = request_document sample_sha256 sample_request_args [0x30, 0]"

definition sample_verify_args :: verify_args where
  "sample_verify_args = \<lparr>va_request = fst (snd (projr sample_request)), va_request_digest = snd (snd (projr sample_request)),
     va_unsigned = sample_unsigned, va_certificate = [0x30, 0], va_signed = [sample_unsigned, sample_signed]\<rparr>"

lemma sample_request_ok: "\<not> isl sample_request" "fst (projr sample_request) = [0x30, 0]"
  by code_simp+

lemma sample_created:
  "boot_create_request sample_sha256 Inr sample_request_args =
     Inr ([0x30, 0], fst (snd (projr sample_request)), snd (snd (projr sample_request)))"
  using sample_request_ok by (metis prod.collapse sample_request_def sum.collapse(2))

lemma sample_fields:
  "va_request sample_verify_args = fst (snd (projr sample_request))"
  "va_request_digest sample_verify_args = snd (snd (projr sample_request))"
  "va_unsigned sample_verify_args = sample_unsigned" "ra_unsigned sample_request_args = sample_unsigned"
  "va_certificate sample_verify_args = [0x30, 0]" "va_signed sample_verify_args = [sample_unsigned, sample_signed]"
  by (simp_all only: sample_verify_args_def sample_request_args_def verify_args.simps request_args.simps)


lemma sample_rejected:
  "prove_equivalence sample_unsigned sample_unsigned = Inl (Boot_value ''missing or unaligned Authenticode certificate table'')"
  by code_simp

lemma sample_lengths:
  "length digest_info < 1000" "length indirect_data < 1000" "length content_body < 1000" "length signer_body < 1000"
  "length signed_body < 1000" "length sample_pkcs7 < 1000" "length outer_body < 1000" "length (encode_der 0x30 signed_body) < 1000"
  "length (encode_der 0x30 indirect_data) < 1000" "length (encode_der 0x30 signer_body) < 1000"
  "length (encode_der 0x30 (encode_der 0x06 sha256_arcs)) < 1000" "length (encode_der 0x06 sha256_arcs) < 1000"
  "length (encode_der 0x06 rsa_arcs) < 1000" "length signer_name < 1000" "length key_body < 1000" "length spki_body < 1000"
  "length tbs_body < 1000" "length sample_cert < 1000" "length (encode_der 0x30 tbs_body) < 1000"
  "length (encode_der 0x30 key_body) < 1000"
  by code_simp+

lemma sample_children_of:
  "v = concat (map (\<lambda>(t, w). encode_der t w) tvs) \<Longrightarrow> length v < 1000 \<Longrightarrow> length tvs < 100 \<Longrightarrow> d < 32 \<Longrightarrow>
   children \<lparr>der_tag = tag, der_value = v, der_depth = d\<rparr> =
     Inr (map (\<lambda>(t, w). \<lparr>der_tag = t, der_value = w, der_depth = d + 1\<rparr>) tvs)"
  by (rule children_encoded) (simp_all add: der_limits)

lemma one_child:
  "d < 32 \<Longrightarrow> length (encode_der t v) < 1000 \<Longrightarrow>
   children \<lparr>der_tag = tag, der_value = encode_der t v, der_depth = d\<rparr> = Inr [\<lparr>der_tag = t, der_value = v, der_depth = d + 1\<rparr>]"
  by (subst sample_children_of [of _ "[(t, v)]"]) simp_all

lemmas sample_children =
  sample_children_of [OF outer_body_def [THEN trans, of "concat (map (\<lambda>(t, w). encode_der t w)
    [(0x06, signed_data_arcs), (0xA0, encode_der 0x30 signed_body)])"] sample_lengths(7), simplified]
  sample_children_of [OF signed_body_def [THEN trans, of "concat (map (\<lambda>(t, w). encode_der t w)
    [(0x02, [1]), (0x31, encode_der 0x30 (encode_der 0x06 sha256_arcs)), (0x30, content_body),
     (0x31, encode_der 0x30 signer_body)])"] sample_lengths(5), simplified]
  sample_children_of [OF content_body_def [THEN trans, of "concat (map (\<lambda>(t, w). encode_der t w)
    [(0x06, spc_arcs), (0xA0, encode_der 0x30 indirect_data)])"] sample_lengths(3), simplified]
  sample_children_of [OF indirect_data_def [THEN trans, of "concat (map (\<lambda>(t, w). encode_der t w)
    [(0x30, []), (0x30, digest_info)])"] sample_lengths(2), simplified]
  sample_children_of [OF digest_info_def [THEN trans, of "concat (map (\<lambda>(t, w). encode_der t w)
    [(0x30, encode_der 0x06 sha256_arcs), (0x04, [0xAB, 0xCD])])"] sample_lengths(1), simplified]
  sample_children_of [OF signer_body_def [THEN trans, of "concat (map (\<lambda>(t, w). encode_der t w)
    [(0x02, [1]), (0x30, signer_name), (0x30, encode_der 0x06 sha256_arcs), (0x30, encode_der 0x06 rsa_arcs),
     (0x04, sample_signature)])"] sample_lengths(4), simplified]
  sample_children_of [OF signer_name_def [THEN trans, of "concat (map (\<lambda>(t, w). encode_der t w)
    [(0x30, []), (0x02, [7])])"] sample_lengths(14), simplified]
  sample_children_of [OF key_body_def [THEN trans, of "concat (map (\<lambda>(t, w). encode_der t w)
    [(0x02, replicate 24 0xFF), (0x02, [1])])"] sample_lengths(15), simplified]
  sample_children_of [OF spki_body_def [THEN trans, of "concat (map (\<lambda>(t, w). encode_der t w)
    [(0x30, encode_der 0x06 rsa_arcs), (0x03, 0 # encode_der 0x30 key_body)])"] sample_lengths(16), simplified]
  sample_children_of [OF tbs_body_def [THEN trans, of "concat (map (\<lambda>(t, w). encode_der t w)
    [(0x02, [7]), (0x30, []), (0x30, []), (0x30, []), (0x30, []), (0x30, spki_body)])"] sample_lengths(17), simplified]

lemma sample_oids:
  "der_oid \<lparr>der_tag = 0x06, der_value = sha256_arcs, der_depth = d\<rparr> = Inr OID_SHA256"
  "der_oid \<lparr>der_tag = 0x06, der_value = rsa_arcs, der_depth = d\<rparr> = Inr (OID_RSA ! 0)"
  "der_oid \<lparr>der_tag = 0x06, der_value = spc_arcs, der_depth = d\<rparr> = Inr OID_SPC_INDIRECT_DATA"
  "der_oid \<lparr>der_tag = 0x06, der_value = signed_data_arcs, der_depth = d\<rparr> = Inr OID_SIGNED_DATA"
  by (simp_all add: der_oid_def sha256_arcs_def rsa_arcs_def spc_arcs_def signed_data_arcs_def first_arcs_def int_str_def
    digits_of.simps char_of_def bit_0 OID_SHA256_def OID_RSA_def OID_SPC_INDIRECT_DATA_def OID_SIGNED_DATA_def)

lemma sample_algorithms:
  assumes "d < 32"
  shows "algorithm_oid \<lparr>der_tag = 0x30, der_value = encode_der 0x06 sha256_arcs, der_depth = d\<rparr> = Inr OID_SHA256"
    "algorithm_oid \<lparr>der_tag = 0x30, der_value = encode_der 0x06 rsa_arcs, der_depth = d\<rparr> = Inr (OID_RSA ! 0)"
  using assms sample_lengths by (simp_all add: algorithm_oid_def one_child sample_oids)

lemmas sample_der = sample_children one_child sample_oids sample_algorithms sample_lengths

lemma sample_signed_data:
  "parse_signed_data sample_pkcs7 =
     Inr [\<lparr>der_tag = 0x02, der_value = [1], der_depth = 3\<rparr>,
       \<lparr>der_tag = 0x31, der_value = encode_der 0x30 (encode_der 0x06 sha256_arcs), der_depth = 3\<rparr>,
       \<lparr>der_tag = 0x30, der_value = content_body, der_depth = 3\<rparr>,
       \<lparr>der_tag = 0x31, der_value = encode_der 0x30 signer_body, der_depth = 3\<rparr>]"
proof -
  have "der_read sample_pkcs7 0 0 = Inr (\<lparr>der_tag = 0x30, der_value = outer_body, der_depth = 0\<rparr>, len sample_pkcs7)"
    using sample_lengths(6) by (subst der_read_whole) (simp add: der_limits der_bytes_def sample_pkcs7_def)
  then show ?thesis by (simp add: parse_signed_data_def sample_der)
qed

lemma sample_facts: "authenticode_facts sample_pkcs7 = Inr [0xAB, 0xCD]"
proof -
  have "image_digest \<lparr>der_tag = 0x30, der_value = content_body, der_depth = 3\<rparr> =
      Inr \<lparr>der_tag = 0x04, der_value = [0xAB, 0xCD], der_depth = 7\<rparr>"
    by (simp add: image_digest_def sample_der)
  moreover have "check_signer_info \<lparr>der_tag = 0x31, der_value = encode_der 0x30 signer_body, der_depth = 3\<rparr> = Inr ()"
    by (simp add: check_signer_info_def sample_der OID_RSA_def)
  ultimately show ?thesis by (simp add: authenticode_facts_def sample_signed_data)
qed

lemma sample_candidates:
  "verify_embedded_digest sample_sha256 sample_unsigned sample_unsigned =
     Inl (Boot_value ''missing or unaligned Authenticode certificate table'')"
  "verify_embedded_digest sample_sha256 sample_unsigned sample_signed = Inr sample_pkcs7"
proof -
  show "verify_embedded_digest sample_sha256 sample_unsigned sample_unsigned =
     Inl (Boot_value ''missing or unaligned Authenticode certificate table'')"
    by (simp only: verify_embedded_digest_def sample_rejected rbind_simps)
  from prove_equivalence_facts [OF sample_equivalence] obtain ps c where
    "parse_pe sample_signed True = Inr ps" "hashed_content sample_signed ps = Inr c" by blast
  then show "verify_embedded_digest sample_sha256 sample_unsigned sample_signed = Inr sample_pkcs7"
    by (simp add: verify_embedded_digest_def sample_equivalence sample_facts authenticode_hash_def sample_sha256_def)
qed

lemma sample_certificates:
  "isolated_certificate_der [0x30, 0] = Inr [0x30, 0]" "canonical_certificate Inr [0x30, 0] = Inr [0x30, 0]"
  by code_simp+

lemma sample_import:
  "\<exists>metadata. boot_verify sample_sha256 (\<lambda>_. Some sample_document) Inr (\<lambda>_ _. Inr [0x30, 0]) sample_verify_args =
     Inr (sample_signed, metadata)"
proof -
  have l: "load_request sample_sha256 (\<lambda>_. Some sample_document) sample_verify_args =
      Inr (sample_document, request_digest sample_sha256 sample_document)"
    unfolding sample_document_def by (rule request_loads [OF sample_created]) (simp_all only: sample_fields)
  have s: "select_signed sample_sha256 sample_verify_args = Inr (sample_signed, sample_pkcs7)"
    using sample_candidates by (simp add: select_signed_def sample_fields)
  have i: "boot_item sample_document ''certificate_sha256'' = Inr (JStr (hex (sample_sha256 [0x30, 0])))"
      "\<exists>x. boot_item sample_document ''esp_path'' = Inr x" "\<exists>x. boot_item sample_document ''unsigned_sha256'' = Inr x"
    by (simp_all add: sample_document_def request_document_def boot_item_def)
  have v: "verify_signer Inr (\<lambda>_ _. Inr [0x30, 0]) p [0x30, 0] = Inr ()" for p
    using sample_certificates by (simp add: verify_signer_def)
  from i(2,3) obtain x y where "boot_item sample_document ''esp_path'' = Inr x" "boot_item sample_document ''unsigned_sha256'' = Inr y"
    by blast
  with l s i(1) v sample_fields(5) sample_certificates show ?thesis by (simp add: boot_verify_def Let_def)
qed



section \<open>A manifest\<close>

lemma sample_key:
  "certificate_key sample_cert =
     Inr (\<lparr>der_tag = 0x30, der_value = [], der_depth = 2\<rparr>, \<lparr>der_tag = 0x02, der_value = [7], der_depth = 2\<rparr>, 256 ^ 24 - 1, 1)"
proof -
  have r: "der_read sample_cert 0 0 = Inr (\<lparr>der_tag = 0x30, der_value = encode_der 0x30 tbs_body, der_depth = 0\<rparr>, len sample_cert)"
    using sample_lengths(18) by (subst der_read_whole) (simp add: der_limits der_bytes_def sample_cert_def)
  have k: "der_read (encode_der 0x30 key_body) 0 0 =
      Inr (\<lparr>der_tag = 0x30, der_value = key_body, der_depth = 0\<rparr>, len (encode_der 0x30 key_body))"
    using sample_lengths(20) by (subst der_read_whole) (simp add: der_limits der_bytes_def)
  have "be_int (replicate 24 0xFF) = 256 ^ 24 - 1" "be_int [1] = 1" by code_simp+
  then show ?thesis
    by (simp add: certificate_key_def r k sample_der der_at_def der_pair_def Let_def OID_RSA_def OID_RSA_ENCRYPTION_def
      del: rbind_eq_Inr)
qed

lemma sample_rsa: "rsa_check (256 ^ 24 - 1) 1 sample_signature [0xAB, 0xCD] = Inr ()"
proof -
  have n: "byte_count (256 ^ 24 - 1) = 24" by (rule byte_count_unique [of 23, simplified]) simp_all
  have "be_int sample_signature < 256 ^ 24 - 1" "length sample_signature = 24" by code_simp+
  then show ?thesis
    using be_bytes_exact [of sample_signature 24] unfolding rsa_check_def n Let_def
    by (simp add: sample_signature_def [symmetric])
qed

lemma sample_verified: "verify_boot_signature sample_sha256 sample_pkcs7 sample_cert = Inr ()"
  using sample_rsa
  by (simp add: verify_boot_signature_def sample_signed_data sample_key sample_der der_at_def der_last_def sample_sha256_def
    del: rbind_eq_Inr)

definition sample_entry :: "string json" where
  "sample_entry = JObj
     [(''certificate'', JStr ''cert''), (''context'', JStr UKI_CONTEXT), (''esp_path'', JStr []), (''label'', JStr ''//:uki''),
      (''request'', JStr ''request''), (''request_digest'', JStr ''digest''), (''signed_name'', JStr ''boot.efi''),
      (''unsigned_binary'', JStr ''unsigned'')]"

definition sample_manifest :: "string json" where
  "sample_manifest = JObj [(''format_version'', JStr MANIFEST_FORMAT), (''requests'', JList [sample_entry])]"

definition signer_document :: "string json" where
  "signer_document = request_document sample_sha256 (sample_request_args\<lparr>ra_esp_path := []\<rparr>) sample_cert"

definition sample_parse :: "bytes \<Rightarrow> string json option" where
  "sample_parse data = (if data = [0] then Some sample_manifest else Some signer_document)"

definition sample_files :: "string \<Rightarrow> bytes option" where
  "sample_files = map_of [(''cert'', sample_cert), (''request'', [1]), (''digest'', b8 ''abcd''), (''unsigned'', sample_unsigned)]"

definition sample_signer_args :: signer_args where
  "sample_signer_args = \<lparr>sa_manifest = [0], sa_certificate = sample_cert, sa_key = Some [], sa_validate_only = False\<rparr>"

lemma sample_load: "load_manifest sample_parse [0] = Inr [sample_entry]"
  by (simp add: load_manifest_def signer_json_def boot_json_def of_option_def sample_parse_def sample_manifest_def check_entry_def
    sample_entry_def ENTRY_FIELDS_def is_json_str_def entry_field_def plain_component_def ascii_alnum_def less_eq_char_def insert_commute
    del: rbind_eq_Inr)

lemma sample_entry_fields:
  "entry_field sample_entry ''certificate'' = ''cert''" "entry_field sample_entry ''context'' = UKI_CONTEXT"
  "entry_field sample_entry ''esp_path'' = []" "entry_field sample_entry ''label'' = ''//:uki''"
  "entry_field sample_entry ''request'' = ''request''" "entry_field sample_entry ''request_digest'' = ''digest''"
  "entry_field sample_entry ''signed_name'' = ''boot.efi''" "entry_field sample_entry ''unsigned_binary'' = ''unsigned''"
  by (simp_all add: sample_entry_def entry_field_def)

lemma sample_file_contents:
  "resolve_path sample_files ''cert'' = Inr sample_cert" "resolve_path sample_files ''request'' = Inr [1]"
  "resolve_path sample_files ''digest'' = Inr (b8 ''abcd'')" "resolve_path sample_files ''unsigned'' = Inr sample_unsigned"
  by (simp_all add: resolve_path_def sample_files_def starts_with_def)

lemma sample_request_json:
  "signer_json sample_parse [1] = Inr signer_document" "validate_request sample_sha256 signer_document ''abcd'' = Inr ()"
  "boot_item signer_document ''esp_path'' = Inr (JStr [])" "boot_item signer_document ''context'' = Inr (JStr UKI_CONTEXT)"
  "boot_item signer_document ''unsigned_sha256'' = Inr (JStr (hex (sample_sha256 sample_unsigned)))"
  "boot_item signer_document ''certificate_sha256'' = Inr (JStr (hex (sample_sha256 sample_cert)))"
  by (simp_all add: signer_json_def boot_json_def of_option_def sample_parse_def signer_document_def request_document_def validate_request_def
    boot_item_def of_option_def REQUEST_FIELDS_def request_digest_def sample_sha256_def boot_context_def sample_request_args_def hex_def
    hex_byte_def hex_digit_def insert_commute del: rbind_eq_Inr)

lemma sample_cert_isolated: "isolated_certificate_der sample_cert = Inr sample_cert"
  by code_simp

lemma sample_digest_text: "boot_text (b8 ''abcd'') = Inr ''abcd''" "strip ''abcd'' = ''abcd''" "check_key_file (Some []) sample_cert = Inr ()"
  by code_simp+

lemma sample_entry_valid:
  "validate_entry sample_sha256 sample_parse sample_files sample_cert sample_entry =
     Inr \<lparr>sr_label = ''//:uki'', sr_signed_name = ''boot.efi'', sr_unsigned = sample_unsigned\<rparr>"
proof -
  obtain pu where "parse_pe sample_unsigned False = Inr pu" using sample_pe by (metis sum.collapse(2))
  then show ?thesis
    by (simp add: validate_entry_def sample_entry_fields sample_file_contents sample_request_json sample_digest_text
      sample_cert_isolated del: rbind_eq_Inr)
qed

lemma sample_signing:
  "sign_manifest sample_sha256 sample_parse sample_files (\<lambda>_. Inr sample_signed) sample_signer_args = Inr [(''boot.efi'', sample_signed)]"
  by (simp add: sign_manifest_def sample_signer_args_def sample_cert_isolated sample_load sample_entry_valid sample_digest_text
    sign_request_def sample_candidates sample_verified del: rbind_eq_Inr)


end
