(* ===== verification/Boot_Image_Fixture.thy ===== *)
theory Boot_Image_Fixture
  imports Boot_Image_Safety Boot_Fixture
begin

text \<open>A disk image with one unsigned boot binary, its signed version and three enrolled keys, for the theorems about signed images.\<close>

definition demo_path :: string where "demo_path = ''EFI/BOOT/BOOTX64.EFI''"

definition demo_tree :: esp_tree where
  "demo_tree = \<lparr>et_files = [(demo_path, \<lparr>ef_data = sample_unsigned, ef_mtime = 0\<rparr>)], et_dirs = [''EFI'', ''EFI/BOOT'']\<rparr>"

definition demo_auth :: bytes where
  "demo_auth = projr (auth_file (projr (efi_time 2026 1 1)) [0x30, 0] (projr (signature_list [1, 2, 3] (zeros 16))))"

definition image_sha256 :: "bytes \<Rightarrow> bytes" where "image_sha256 data = (if data = sample_unsigned then [1] else [2])"

definition image_parse :: "bytes \<Rightarrow> string json option" where
  "image_parse data = Some (JObj (if data = [5]
     then [(''partitions'', JList [JObj [(''type_guid'', JStr ESP), (''start_bytes'', JInt 1), (''size_bytes'', JInt 1)]])]
     else [(''unsigned_sha256'', JStr ''01''), (''esp_path'', JStr [])]))"

definition demo_args :: image_args where
  "demo_args = \<lparr>ia_image = [9, 1, 9], ia_partition_metadata = [5], ia_signed = [(sample_signed, [6], sample_cert)],
     ia_auto_enroll_key = [(''PK.auth'', demo_auth), (''KEK.auth'', demo_auth), (''db.auth'', demo_auth)],
     ia_secure_boot_enroll = ''if-safe''\<rparr>"

definition demo_replacements :: replacements where
  "demo_replacements = [(JStr ''01'', \<lparr>rp_certificate = sample_cert, rp_name = JStr ''the UKI'', rp_paths = [demo_path], rp_signed = sample_signed\<rparr>)]"

definition demo_keys :: enrollment_keys where
  "demo_keys = map (\<lambda>name. (name, (demo_auth, [(EFI_CERT_X509, [[1, 2, 3]])]))) [''PK'', ''KEK'', ''db'']"

definition demo_changes :: esp_changes where
  "demo_changes =
     [(demo_path, sample_signed), (key_path ''KEK'', demo_auth), (key_path ''PK'', demo_auth), (key_path ''db'', demo_auth),
      (LOADER_CONF, utf8_encode (''secure-boot-enroll '' @ ''if-safe'' @ ''\<newline>'')),
      (ESP_MANIFEST, pretty_json (JObj (build_esp_manifest image_sha256 demo_replacements demo_keys ''if-safe'')))]"

definition demo_unpack :: "bytes \<Rightarrow> esp_tree option" where
  "demo_unpack esp = Some (if esp = [1] then demo_tree
     else \<lparr>et_files = map (\<lambda>(p, data). (p, \<lparr>ef_data = data, ef_mtime = 0\<rparr>)) demo_changes, et_dirs = []\<rparr>)"

lemma demo_auth_parses:
  "name \<in> {''PK'', ''KEK'', ''db''} \<Longrightarrow> parse_auth name demo_auth = Inr ([0x30, 0], [(EFI_CERT_X509, [[1, 2, 3]])])"
proof -
  assume n: "name \<in> {''PK'', ''KEK'', ''db''}"
  obtain stamp data af where d: "efi_time 2026 1 1 = Inr stamp" "signature_list [1, 2, 3] (zeros 16) = Inr data"
    "auth_file stamp [0x30, 0] data = Inr af" by (rule demo_auth_parts)
  then have "demo_auth = af" by (simp add: demo_auth_def)
  with auth_file_parses [OF _ d(1) _ _ _ _ _ d(2) _ _ d(3), of name] n show ?thesis by auto
qed

lemma demo_enrollment: "enrollment_keys (ia_auto_enroll_key demo_args) = Inr demo_keys"
proof -
  have s: "path_suffix ''PK.auth'' = ''.auth''" "path_suffix ''KEK.auth'' = ''.auth''" "path_suffix ''db.auth'' = ''.auth''"
    "path_stem ''PK.auth'' = ''PK''" "path_stem ''KEK.auth'' = ''KEK''" "path_stem ''db.auth'' = ''db''"
    by code_simp+
  show ?thesis by (simp add: enrollment_keys_def demo_args_def s demo_auth_parses demo_keys_def REQUIRED_def)
qed

lemma demo_replacements: "image_replacements image_parse (ia_signed demo_args) =
    Inr [(JStr ''01'', \<lparr>rp_certificate = sample_cert, rp_name = JStr ''the UKI'', rp_paths = [], rp_signed = sample_signed\<rparr>)]"
  by (simp add: image_replacements_def demo_args_def add_replacement_def boot_json_def of_option_def image_parse_def
    json_subscript_def unhashable_def sample_cert_isolated del: rbind_eq_Inr)

lemma demo_extract: "extract_esp image_parse (ia_image demo_args) (ia_partition_metadata demo_args) = Inr ([1], 1)"
  by (simp add: extract_esp_def demo_args_def esp_extent_def boot_json_def of_option_def image_parse_def json_subscript_def
    json_elements_def json_offset_def copy_range_writes write_at_def py_slice_def slice_index_def zeros_unfold del: rbind_eq_Inr)

lemma demo_files: "tree_files demo_tree = [demo_path]" "tree_read demo_tree demo_path = Inr sample_unsigned"
  by (simp_all add: tree_files_def demo_tree_def tree_read_def of_option_def)

lemma demo_digest: "digest_key image_sha256 sample_unsigned = JStr ''01''"
  by (simp add: digest_key_def image_sha256_def hex_def hex_byte_def hex_digit_def)

lemma demo_assign:
  "assign image_sha256 demo_tree [(JStr ''01'', \<lparr>rp_certificate = sample_cert, rp_name = JStr ''the UKI'', rp_paths = [], rp_signed = sample_signed\<rparr>)] =
     Inr (demo_replacements, [])"
proof -
  have "\<not> is_entry_file demo_path" by code_simp
  then show ?thesis
    by (simp add: assign_def demo_files demo_digest demo_replacements_def startable_def referenced_def del: rbind_eq_Inr)
qed

lemma demo_lookups:
  "find_path (tree_files demo_tree) LOADER_CONF = None" "find_path (tree_files demo_tree) ESP_MANIFEST = None"
  "str_lower demo_path = ''efi/boot/bootx64.efi''"
  by (simp_all add: demo_files) code_simp+

lemma demo_loader_conf: "loader_conf demo_tree mode = Inr (LOADER_CONF, ''secure-boot-enroll '' @ mode @ ''\<newline>'')"
  by (simp add: loader_conf_def demo_lookups)

lemma demo_key_files:
  "replaced_files demo_replacements = [(demo_path, sample_signed)]"
  "key_files demo_keys d = dict_set (key_path ''db'') demo_auth (dict_set (key_path ''PK'') demo_auth (dict_set (key_path ''KEK'') demo_auth d))"
proof -
  have "sort_key fst demo_keys = map (\<lambda>name. (name, (demo_auth, [(EFI_CERT_X509, [[1, 2, 3]])]))) [''KEK'', ''PK'', ''db'']"
    by (simp add: demo_keys_def less_eq_char_def)
  then show "replaced_files demo_replacements = [(demo_path, sample_signed)]"
    "key_files demo_keys d = dict_set (key_path ''db'') demo_auth (dict_set (key_path ''PK'') demo_auth (dict_set (key_path ''KEK'') demo_auth d))"
    by (simp_all add: replaced_files_def demo_replacements_def key_files_def)
qed

lemma demo_image_changes:
  "image_changes image_sha256 (\<lambda>_ _ _. True) (\<lambda>_. None) demo_args demo_tree demo_replacements [] =
     Inr (demo_changes, build_esp_manifest image_sha256 demo_replacements demo_keys ''if-safe'')"
proof -
  have p: "map fst demo_changes = [demo_path, key_path ''KEK'', key_path ''PK'', key_path ''db'', LOADER_CONF, ESP_MANIFEST]"
    by (simp add: demo_changes_def)
  have d: "distinct [demo_path, key_path ''KEK'', key_path ''PK'', key_path ''db'', LOADER_CONF, ESP_MANIFEST]" by code_simp
  have db: "map_of demo_keys ''db'' = Some (demo_auth, [(EFI_CERT_X509, [[1, 2, 3]])])" by (simp add: demo_keys_def)
  have t: "check_db_trusts (\<lambda>_ _ _. True) (\<lambda>_. None) [(EFI_CERT_X509, [[1, 2, 3]])] demo_replacements demo_tree [] = Inr ()"
    by (simp add: check_db_trusts_def demo_replacements_def)
  have a: "ia_auto_enroll_key demo_args \<noteq> []" "ia_secure_boot_enroll demo_args = ''if-safe''" by (simp_all add: demo_args_def)
  have e: "dict_set ESP_MANIFEST m (dict_set LOADER_CONF c (key_files demo_keys (replaced_files demo_replacements))) =
      [(demo_path, sample_signed), (key_path ''KEK'', demo_auth), (key_path ''PK'', demo_auth), (key_path ''db'', demo_auth),
       (LOADER_CONF, c), (ESP_MANIFEST, m)]" for m c
    using d by (simp add: demo_key_files)
  show ?thesis
    unfolding image_changes_def if_not_P [OF a(1)] demo_enrollment rbind_simps of_option_def db option.case prod.case t
      demo_loader_conf a(2) Let_def demo_lookups e demo_changes_def by (rule refl)
qed

lemma verify_own:
  assumes "distinct (map (str_lower \<circ> fst) changes)" "set changes' \<subseteq> set changes"
  shows "verify_changes \<lparr>et_files = map (\<lambda>(p, data). (p, \<lparr>ef_data = data, ef_mtime = 0\<rparr>)) changes, et_dirs = []\<rparr> changes' = Inr ()"
  using assms(2)
proof (induction changes')
  case (Cons c changes')
  obtain p data where c: "c = (p, data)" by (cases c)
  let ?tree = "\<lparr>et_files = map (\<lambda>(p, data). (p, \<lparr>ef_data = data, ef_mtime = 0\<rparr>)) changes, et_dirs = []\<rparr>"
  have keys: "map fst (et_files ?tree) = map fst changes" by (simp add: comp_def split_beta)
  then have m: "set (tree_files ?tree) = fst ` set changes" by (simp only: set_tree_files flip: list.set_map)
  have inj: "q = p" if "q \<in> fst ` set changes" "str_lower q = str_lower p" for q
  proof -
    from that(1) obtain d where "(q, d) \<in> set changes" by auto
    moreover have "(p, data) \<in> set changes" using Cons.prems by (simp add: c)
    moreover have "inj_on (str_lower \<circ> fst) (set changes)" using assms(1) by (simp add: distinct_map)
    ultimately have "(q, d) = (p, data)" using that(2) inj_onD [of "str_lower \<circ> fst" "set changes" "(q, d)" "(p, data)"] by simp
    then show ?thesis by simp
  qed
  obtain q where q: "find_path (tree_files ?tree) p = Some q"
    using Cons.prems m by (cases "find_path (tree_files ?tree) p") (force simp: c find_path_def find_None_iff)+
  then have "q = p" using find_path_Some [OF q] m inj by auto
  moreover have "map_of (et_files ?tree) p = Some \<lparr>ef_data = data, ef_mtime = 0\<rparr>"
  proof (rule map_of_is_SomeI)
    show "distinct (map fst (et_files ?tree))" unfolding keys using assms(1) by (auto simp: distinct_map intro: inj_on_imageI2)
    show "(p, \<lparr>ef_data = data, ef_mtime = 0\<rparr>) \<in> set (et_files ?tree)" using Cons.prems by (force simp: c)
  qed
  ultimately show ?case using q Cons by (simp add: c tree_read_def of_option_def)
qed simp

lemma demo_sign_image:
  "\<exists>metadata. sign_image image_sha256 image_parse (\<lambda>_ _ _ _. Some [2]) demo_unpack (\<lambda>_ _ _. True) (\<lambda>_. None) demo_args =
     Inr ([9, 2, 9], metadata)"
proof -
  have d: "distinct (map (str_lower \<circ> fst) demo_changes)"
    unfolding demo_changes_def list.map comp_apply fst_conv by code_simp
  have a: "apply_changes (\<lambda>_ _ _ _. Some [2]) demo_unpack [1] demo_tree demo_changes =
      Inr ([2], \<lparr>et_files = map (\<lambda>(p, data). (p, \<lparr>ef_data = data, ef_mtime = 0\<rparr>)) demo_changes, et_dirs = []\<rparr>)"
    by (simp add: apply_changes_def of_option_def demo_unpack_def)
  have u: "demo_unpack [1] = Some demo_tree" by (simp add: demo_unpack_def)
  have i: "ia_image demo_args = [9, 1, 9]" by (simp add: demo_args_def)
  have "copy_range [2] (Some [9, 1, 9]) 0 1 1 False = Inr [9, 2, 9]"
    by (simp add: copy_range_writes write_at_def py_slice_def slice_index_def zeros_unfold)
  then show ?thesis
    using copy_whole [of "[9, 1, 9]"] demo_extract
    by (simp add: sign_image_def demo_replacements i u of_option_def demo_assign demo_image_changes a verify_own [OF d] del: rbind_eq_Inr)
qed

lemma demo_unmanaged: "\<not> managed demo_path"
  by code_simp


theorem sign_image_trusted_witness:
  "\<exists>metadata keys db_data db_lists. sign_image image_sha256 image_parse (\<lambda>_ _ _ _. Some [2]) demo_unpack (\<lambda>_ _ _. True) (\<lambda>_. None) demo_args =
     Inr ([9, 2, 9], metadata) \<and> enrollment_keys (ia_auto_enroll_key demo_args) = Inr keys \<and> map_of keys ''db'' = Some (db_data, db_lists)"
proof -
  from demo_sign_image obtain metadata where
    m: "sign_image image_sha256 image_parse (\<lambda>_ _ _ _. Some [2]) demo_unpack (\<lambda>_ _ _. True) (\<lambda>_. None) demo_args = Inr ([9, 2, 9], metadata)" ..
  have "ia_auto_enroll_key demo_args \<noteq> []" by (simp add: demo_args_def)
  from sign_image_trusted [OF m this] m show ?thesis by blast
qed

end
