(* ===== verification/Spec2Isabelle.thy ===== *)
theory Spec2Isabelle
  imports Py_Prelude Gpt_Fixture Esp_Fixture Openpgp Efi_Auth Debian_Fixture Debian_Lock_Fixture Verity_Fixture Extract_Fixture Hw_Fixture Hw_Doc Package_Safety Stage_Fixture Snapshot_Fixture Sysupdate Boot_Image_Fixture
begin

text \<open>
  A verification development for \<^verbatim>\<open>rules_mkosi\<close>, Bazel rules that build Linux disk images with \<^verbatim>\<open>mkosi\<close> from
  authenticated Debian packages. The rules run Python scripts as build actions; the development models
  the scripts that decide what is trusted and what is written, and proves what a successful run
  guarantees. File names below are relative to \<^verbatim>\<open>src/\<close>.

  \<^bold>\<open>How the parts of the program fit together.\<close> A package specification is resolved once into a lock file
  (\<^verbatim>\<open>mkosi/debian/generate_lock.py\<close>, with \<^verbatim>\<open>http_download.py\<close> and \<^verbatim>\<open>mkosi/private/debian_control.py\<close>).
  At build time the locked packages are merged into one archive (\<^verbatim>\<open>mkosi/debian/package_archive.py\<close>) that
  is unpacked into the root of the build tools (\<^verbatim>\<open>mkosi/debian/extract_tree.py\<close>), and the packages that an
  image installs are staged as an APT repository (\<^verbatim>\<open>mkosi/private/debian_snapshot.py\<close>). The configuration and the
  sources of an image are staged into one tree (\<^verbatim>\<open>mkosi/private/stage_inputs.py\<close>), \<^verbatim>\<open>mkosi\<close> builds the image, and
  the image is checked: its partition table (\<^verbatim>\<open>partition_metadata.py\<close>, with the constants of
  \<^verbatim>\<open>gpt_partitions.py\<close>), its dm-verity data (\<^verbatim>\<open>verity_metadata.py\<close>) and its EFI system partition
  (\<^verbatim>\<open>esp_manifest/rules_mkosi_esp_manifest.py\<close>). Its partitions and kernel become an update payload
  (\<^verbatim>\<open>sysupdate.py\<close>, with \<^verbatim>\<open>image_version.py\<close>). Signatures travel in OpenPGP packets (\<^verbatim>\<open>openpgp.py\<close>) and in UEFI
  authenticated variables (\<^verbatim>\<open>efi_auth.py\<close>). Boot binaries are signed for Secure Boot outside the build: a request
  names the binary and the certificate, a signer answers it (\<^verbatim>\<open>secure_boot_signer.py\<close>), and the build imports the
  signed binary after checking it against the request (\<^verbatim>\<open>secure_boot.py\<close>). The signed binaries and the keys that
  a device enrolls are written into the EFI system partition of a copy of the image (\<^verbatim>\<open>secure_boot_image.py\<close>, with
  \<^verbatim>\<open>esp_files.py\<close>). Records of hardware runs are checked against schemas that
  \<^verbatim>\<open>ci/hardware_qualification_schemas.py\<close> generates from its tables.

  \<^bold>\<open>Conventions.\<close> An exception is a value of the error type of its component, the left side of a sum; a
  function of the source that returns or raises is a function into such a sum, and the sequence of its
  statements is a chain of \<^const>\<open>rbind\<close>. Byte strings are lists of \<^typ>\<open>8 word\<close>, Python integers are \<^typ>\<open>int\<close>, a
  \<^verbatim>\<open>str\<close> is a \<^typ>\<open>string\<close> or, where its characters matter beyond the first 256, a list of code points; a
  dictionary is an association list in insertion order. Text files of the Debian archive are decoded up to
  code point 255, a greater one counts as undecodable. Names are those of the source without a leading
  underscore.

  \<^bold>\<open>Shared theories.\<close>
  \<^item> \<^verbatim>\<open>Py_Prelude\<close>, \<^verbatim>\<open>Py_Text\<close>, \<^verbatim>\<open>Json_Text\<close>: results, slices, fixed-width integers, CRC-32, text, dictionaries and
    \<^verbatim>\<open>json.dumps\<close>, with the simplification rules that the component proofs rest on.
  \<^item> \<^verbatim>\<open>Bounded_Reader\<close>, \<^verbatim>\<open>Framed_Stream\<close>, \<^verbatim>\<open>Comparison_Sort\<close>: the locales of a checked read at an offset, of a loop that
    parses framed items, and of a three-way comparison used as a sort key. They are interpreted on the
    readers of the GPT and ESP theories, on the packet and signature list loops, and on the Debian
    version comparison.
  \<^item> \<^verbatim>\<open>Fs_Tree\<close>: the tree that a script writes. A call below or through a symbolic link has its effect
    recorded below the link, so that a tree in which every parent is a real directory (\<^verbatim>\<open>fs_wf\<close>) was
    written without following a link. The locales \<^verbatim>\<open>tree_step\<close> and \<^verbatim>\<open>growing_step\<close> turn what one step keeps
    into what a loop keeps, for the extraction, the staging of inputs and the locked packages.
  \<^item> \<^verbatim>\<open>Host_Tree\<close>: paths of \<^verbatim>\<open>pathlib\<close> and the file system that a script reads, with the lookup of a path
    through links.

  \<^bold>\<open>Components and what is proved.\<close>
  \<^item> \<^verbatim>\<open>Gpt_Metadata\<close>, \<^verbatim>\<open>Gpt_Layout\<close>, \<^verbatim>\<open>Gpt_Canonical\<close> (fixture \<^verbatim>\<open>Gpt_Fixture\<close>) model \<^verbatim>\<open>partition_metadata.py\<close>. Accepted
    images have aligned, disjoint partitions clear of every GPT structure; the A/B slot check is
    characterised; the streaming canonical hash succeeds, covers every byte that is not an identity or
    a CRC, and does not depend on the identities.
  \<^item> \<^verbatim>\<open>Esp_Reader\<close>, \<^verbatim>\<open>Esp_Safety\<close> (\<^verbatim>\<open>Esp_Fixture\<close>) model the FAT reader. On every image it ends with one of its
    documented exit codes, the cluster chain loop terminates, a listing is the reachable files and a
    file is its addressed bytes.
  \<^item> \<^verbatim>\<open>Openpgp\<close> and \<^verbatim>\<open>Efi_Auth\<close>: exactly which certificates, detached signatures and \<^verbatim>\<open>.auth\<close> files are accepted, and
    that what is written is read back.
  \<^item> \<^verbatim>\<open>Verity_Metadata\<close>, \<^verbatim>\<open>Verity_Tree\<close> (\<^verbatim>\<open>Verity_Fixture\<close>): the streaming verifier accepts exactly the hash tree that
    dm-verity defines, and its level loop is bounded.
  \<^item> \<^verbatim>\<open>Debian_Control\<close>, \<^verbatim>\<open>Debian_Version\<close>, \<^verbatim>\<open>Debian_Relations\<close>, \<^verbatim>\<open>Debian_Resolver\<close>, \<^verbatim>\<open>Debian_Closure\<close>, \<^verbatim>\<open>Debian_Spec\<close>,
    \<^verbatim>\<open>Debian_Lock\<close>, \<^verbatim>\<open>Debian_Lock_Safety\<close> (\<^verbatim>\<open>Debian_Fixture\<close>, \<^verbatim>\<open>Debian_Lock_Fixture\<close>): the deb822 parser reads back what is
    rendered, the version comparison is an order, the resolver selects a closed set with the requested
    packages and nothing that is not reachable, every package of a lock comes from an index that the
    Release file carried by InRelease lists, and the offline check of a specification is exact.
  \<^item> \<^verbatim>\<open>Debian_Snapshot\<close>, \<^verbatim>\<open>Snapshot_Safety\<close> (\<^verbatim>\<open>Snapshot_Fixture\<close>): every file of a staged repository is a signed release
    file, an index that the signed release lists, or a package that such an index and the lock describe,
    and every locked package is there.
  \<^item> \<^verbatim>\<open>Image_Version\<close>, \<^verbatim>\<open>Sysupdate\<close>: the files of an update payload are exactly the bytes that dm-verity covers, named
    after the partitions of the image, with the digests of what was written.
  \<^item> \<^verbatim>\<open>Der_Codec\<close>, \<^verbatim>\<open>Der_Oid\<close>, \<^verbatim>\<open>Pe_Image\<close>, \<^verbatim>\<open>Authenticode\<close>, \<^verbatim>\<open>Boot_Certificate\<close> (\<^verbatim>\<open>Boot_Fixture\<close>) model \<^verbatim>\<open>secure_boot.py\<close>: a DER
    object has exactly the children whose minimal encodings it concatenates, an object identifier has one
    encoding, a signed image that passes the equivalence check is the requested image plus a signature,
    an imported binary carries the digest of its own content and a signature of the requested
    certificate, certificates survive their PEM text, and a written request is accepted. A candidate with
    a truncated optional header hides the candidates behind it.
  \<^item> \<^verbatim>\<open>Boot_Signer\<close> models \<^verbatim>\<open>secure_boot_signer.py\<close>: what is written under the names of a manifest is signed by the
    expected certificate, and the RSA check accepts what the holder of the key signs.
  \<^item> \<^verbatim>\<open>Esp_Files\<close>, \<^verbatim>\<open>Boot_Image\<close>, \<^verbatim>\<open>Boot_Image_Safety\<close> (\<^verbatim>\<open>Boot_Image_Fixture\<close>) model \<^verbatim>\<open>esp_files.py\<close> and
    \<^verbatim>\<open>secure_boot_image.py\<close>: a copy of a byte range changes exactly that range, a signed image differs from its
    input in the partition only and keeps no unsigned boot binary, the enrolled \<^verbatim>\<open>db\<close> trusts every signer, the new
    directories are made parents first in an order that does not depend on the iteration of a set, and the
    loader configuration has one \<^verbatim>\<open>secure-boot-enroll\<close> line.
  \<^item> \<^verbatim>\<open>Http_Download\<close>: the retries succeed when the server does, wait a bounded time, and the errors that
    escape.
  \<^item> \<^verbatim>\<open>Package_Archive\<close>, \<^verbatim>\<open>Package_Safety\<close>: when the reader of \<^verbatim>\<open>ar\<close> files returns, and that the merged archive is one
    the extraction accepts.
  \<^item> \<^verbatim>\<open>Extract_Tree\<close>, \<^verbatim>\<open>Extract_Safety\<close>, \<^verbatim>\<open>Extract_Links\<close> (\<^verbatim>\<open>Extract_Fixture\<close>): an extraction stays inside the output
    directory, never writes through a link and leaves no member out; the accepted member names; links
    are resolved as the kernel resolves them, apart from a link that is passed twice.
  \<^item> \<^verbatim>\<open>Stage_Inputs\<close>, \<^verbatim>\<open>Stage_Safety\<close>, \<^verbatim>\<open>Stage_Copy\<close> (\<^verbatim>\<open>Stage_Fixture\<close>): a manifest that passes the checks is written out
    exactly, provided that no name has a character that sorts before the slash; an example shows that
    the layout check misses a collision otherwise.
  \<^item> \<^verbatim>\<open>Json_Schema\<close>, \<^verbatim>\<open>Hw_Tables\<close>, \<^verbatim>\<open>Hw_Schema\<close>, \<^verbatim>\<open>Hw_Safety\<close>, \<^verbatim>\<open>Hw_Result\<close>, \<^verbatim>\<open>Hw_Doc\<close> (\<^verbatim>\<open>Hw_Fixture\<close>): the generated schemas under the
    validator of the repository's tests demand exactly the checks that the tables list, fix the outcome
    of a record, and the generated tables are inserted stably.

  \<^bold>\<open>Termination and bounds.\<close> Most loops are structural or have a measure. The exceptions: the reader of \<^verbatim>\<open>ar\<close>
    files may run forever and is a \<^verbatim>\<open>partial_function\<close> whose \<^const>\<open>None\<close> is not returning; the depth of links
    that \<^verbatim>\<open>extract_tree.py\<close> computes by recursion is bounded by one more than the number of links, beyond which
    the recursion follows a cycle; a schema reference may be followed as often as the schema has nested
    references, the bound is an argument; the lookup of a path on the host follows at most as many
    nested links as there are nodes, since a deeper nesting repeats a link; the limit of 40 links of the
    kernel is not modelled. The limits of the source
    itself, such as the eight links of Bazel or the byte budgets of the FAT reader, are its constants.

  \<^bold>\<open>Parameters.\<close> SHA-256 and SHA-1, the verdicts of \<^verbatim>\<open>sqv\<close>, the tar and LZMA readers, the \<^verbatim>\<open>xz\<close> compressor, the JSON
  parser, \<^verbatim>\<open>re.search\<close>, the Unicode case mappings, the answers of \<^verbatim>\<open>openssl\<close>,
  the mtools that read and write a FAT image, the signing tool and the answers of an HTTP server are arguments of the
  definitions that use them. Where a theorem needs something of them, such as a digest without a collision, it is a
  hypothesis.

  \<^bold>\<open>Not modelled.\<close> Command-line parsing, owners and times of files, and the text of error messages. The
  ephemeral test keys of \<^verbatim>\<open>secure_boot.py\<close> and the command lines of the tools that it and the signer run. The
  scripts that mostly drive other programs: \<^verbatim>\<open>sysupdate_signing.py\<close>, \<^verbatim>\<open>debian_launcher.py\<close>, \<^verbatim>\<open>run_mkosi.py\<close> and its package \<^verbatim>\<open>mkosi_runner\<close>, which
  patches the internals of \<^verbatim>\<open>mkosi\<close>. The remaining small helpers and the audits of Bazel logs under \<^verbatim>\<open>ci/\<close>. The
  Starlark rules, the C programs and the shell scripts.
\<close>

end
